(* ===== verification/Prelude.thy ===== *)
theory Prelude
  imports
    Complex_Main
    "HOL-Library.Char_ord"
    "HOL-Library.List_Lexorder"
begin

text \<open>
  The shared layer of the development: how Python text, numbers, errors and database tables are
  represented, and the generic facts on them that the component theories use.

  \<^item> Python \<open>str\<close> and \<open>bytes\<close> are \<open>string\<close>s, lists of characters below 256: a \<open>bytes\<close> value
    byte by byte, a text value code point by code point. The identifiers, tokens, host names and
    addresses the program compares are ASCII, where \<open>encode\<close> and \<open>decode\<close> are the identity.
  \<^item> \<open>datetime\<close> values are instants, an \<open>int\<close> of microseconds since the epoch, the resolution of
    the type. The program attaches UTC to every naive value it reads back, so an instant carries
    no time zone. Each reading of a clock is an argument of its own.
  \<^item> an exception is the left side of a sum.
  \<^item> a database table is the list of its rows in insertion order; \<open>find_row\<close>, \<open>update_where\<close> and
    \<open>delete_where\<close> are the three statement shapes the program uses on it.
\<close>

named_theorems str_simps \<open>string operations as list facts\<close>
named_theorems table_simps \<open>rows after an update, a deletion or an insertion\<close>

type_synonym instant = int

abbreviation usec_per_sec :: int where
  "usec_per_sec \<equiv> 1000000"

definition seconds :: "int \<Rightarrow> int" where
  "seconds n = n * usec_per_sec"

definition minutes :: "int \<Rightarrow> int" where
  "minutes n = seconds (60 * n)"

definition hours :: "int \<Rightarrow> int" where
  "hours n = seconds (3600 * n)"

definition days :: "int \<Rightarrow> int" where
  "days n = seconds (86400 * n)"

lemmas duration_defs = seconds_def minutes_def hours_def days_def

section \<open>Strings\<close>

definition startswith :: "string \<Rightarrow> string \<Rightarrow> bool" where
  "startswith s p \<longleftrightarrow> take (length p) s = p"

definition endswith :: "string \<Rightarrow> string \<Rightarrow> bool" where
  "endswith s p \<longleftrightarrow> length p \<le> length s \<and> drop (length s - length p) s = p"

definition rstrip_char :: "char \<Rightarrow> string \<Rightarrow> string" where
  "rstrip_char c s = rev (dropWhile (\<lambda>x. x = c) (rev s))"

definition lstrip_char :: "char \<Rightarrow> string \<Rightarrow> string" where
  "lstrip_char c s = dropWhile (\<lambda>x. x = c) s"

text \<open>\<open>str.partition(sep)\<close> for a one-character separator: the middle component is whether the
  separator was found.\<close>

definition partition_char :: "char \<Rightarrow> string \<Rightarrow> string \<times> bool \<times> string" where
  "partition_char c s =
     (case dropWhile (\<lambda>x. x \<noteq> c) s of
        [] \<Rightarrow> (s, False, [])
      | _ # rest \<Rightarrow> (takeWhile (\<lambda>x. x \<noteq> c) s, True, rest))"

text \<open>\<open>str.split(sep)\<close> for a one-character separator: always at least one part.\<close>

fun split_char :: "char \<Rightarrow> string \<Rightarrow> string list" where
  "split_char c [] = [[]]"
| "split_char c (x # xs) =
     (if x = c then [] # split_char c xs
      else (case split_char c xs of [] \<Rightarrow> [[x]] | p # ps \<Rightarrow> (x # p) # ps))"

fun join_char :: "char \<Rightarrow> string list \<Rightarrow> string" where
  "join_char c [] = []"
| "join_char c [p] = p"
| "join_char c (p # q # ps) = p @ c # join_char c (q # ps)"

text \<open>The separator between the two halves of a token, as a character code: a literal
  character made of the code of the full stop.\<close>

abbreviation (input) dot :: char where
  "dot \<equiv> CHR ''.''"

definition char_in :: "nat \<Rightarrow> nat \<Rightarrow> char \<Rightarrow> bool" where
  "char_in lo hi c \<longleftrightarrow> lo \<le> of_char c \<and> of_char c \<le> hi"

definition is_digit :: "char \<Rightarrow> bool" where
  "is_digit c \<longleftrightarrow> char_in 48 57 c"

definition is_upper :: "char \<Rightarrow> bool" where
  "is_upper c \<longleftrightarrow> char_in 65 90 c"

definition is_lower :: "char \<Rightarrow> bool" where
  "is_lower c \<longleftrightarrow> char_in 97 122 c"

definition is_alnum :: "char \<Rightarrow> bool" where
  "is_alnum c \<longleftrightarrow> is_digit c \<or> is_upper c \<or> is_lower c"

definition is_ascii :: "string \<Rightarrow> bool" where
  "is_ascii s \<longleftrightarrow> list_all (\<lambda>c. (of_char c :: nat) < 128) s"

text \<open>\<open>str.lower\<close> on the code points below 256: the ASCII capitals and the Latin-1 capitals
  (192 to 222 without the multiplication sign 215) move by 32.\<close>

definition lower_char :: "char \<Rightarrow> char" where
  "lower_char c =
     (if is_upper c \<or> (char_in 192 222 c \<and> of_char c \<noteq> (215::nat)) then char_of (of_char c + 32 :: nat) else c)"

definition lower_str :: "string \<Rightarrow> string" where
  "lower_str s = map lower_char s"

definition upper_char :: "char \<Rightarrow> char" where
  "upper_char c = (if is_lower c then char_of (of_char c - 32 :: nat) else c)"

definition upper_str :: "string \<Rightarrow> string" where
  "upper_str s = map upper_char s"

text \<open>\<open>str.encode()\<close> of a text of code points below 256.\<close>

definition utf8_char :: "char \<Rightarrow> string" where
  "utf8_char c =
     (let n = of_char c :: nat in
      if n < 128 then [c] else [char_of (192 + n div 64), char_of (128 + n mod 64)])"

definition utf8_encode :: "string \<Rightarrow> string" where
  "utf8_encode s = concat (map utf8_char s)"

subsection \<open>Decimal numbers\<close>

definition digit_char :: "nat \<Rightarrow> char" where
  "digit_char d = char_of (48 + d)"

definition digit_val :: "char \<Rightarrow> nat" where
  "digit_val c = of_char c - 48"

fun nat_str :: "nat \<Rightarrow> string" where
  "nat_str n = (if n < 10 then [digit_char n] else nat_str (n div 10) @ [digit_char (n mod 10)])"

declare nat_str.simps [simp del]

definition int_str :: "int \<Rightarrow> string" where
  "int_str i = (if i < 0 then CHR ''-'' # nat_str (nat (- i)) else nat_str (nat i))"

definition nat_of_digits :: "string \<Rightarrow> nat" where
  "nat_of_digits s = foldl (\<lambda>acc c. 10 * acc + digit_val c) 0 s"

definition is_space :: "char \<Rightarrow> bool" where
  "is_space c \<longleftrightarrow>
     char_in 9 13 c \<or> char_in 28 32 c \<or> of_char c = (133 :: nat) \<or> of_char c = (160 :: nat)"

definition strip :: "string \<Rightarrow> string" where
  "strip s = rev (dropWhile is_space (rev (dropWhile is_space s)))"

text \<open>\<open>str.split()\<close>: the maximal runs without white space.\<close>

fun split_space :: "string \<Rightarrow> string list" where
  "split_space [] = []"
| "split_space (c # cs) =
     (if is_space c then split_space cs
      else (case cs of
              [] \<Rightarrow> [[c]]
            | c' # _ \<Rightarrow> if is_space c' then [c] # split_space cs
                       else (case split_space cs of [] \<Rightarrow> [[c]] | w # ws \<Rightarrow> (c # w) # ws)))"

text \<open>\<open>int(text)\<close>: white space around, a sign, digits with single underscores between them, at
  most 4300 of them.\<close>

definition digit_groups :: "(char \<Rightarrow> bool) \<Rightarrow> string \<Rightarrow> string option" where
  "digit_groups digit s =
     (let gs = split_char (CHR ''_'') s in
      if list_all (\<lambda>g. g \<noteq> [] \<and> list_all digit g) gs then Some (concat gs) else None)"

definition int_of_str :: "string \<Rightarrow> int option" where
  "int_of_str text =
     (let s = strip text;
          neg = (s \<noteq> [] \<and> hd s = CHR ''-'');
          body = (if s \<noteq> [] \<and> (hd s = CHR ''-'' \<or> hd s = CHR ''+'') then tl s else s)
      in case digit_groups is_digit body of
           None \<Rightarrow> None
         | Some ds \<Rightarrow>
             if 4300 < length ds then None
             else Some (if neg then - int (nat_of_digits ds) else int (nat_of_digits ds)))"

section \<open>Floats and dictionaries\<close>

text \<open>A Python float is a rational or one of the three values \<open>math.isfinite\<close> rejects.\<close>

datatype pyfloat = Fin rat | PosInf | NegInf | NaN

fun isfinite :: "pyfloat \<Rightarrow> bool" where
  "isfinite (Fin _) = True"
| "isfinite _ = False"

text \<open>\<open>int(x)\<close> of a finite float truncates towards zero.\<close>

definition py_int :: "rat \<Rightarrow> int" where
  "py_int x = (if x < 0 then - \<lfloor>- x\<rfloor> else \<lfloor>x\<rfloor>)"

text \<open>A dictionary that is iterated is the list of its items in insertion order, with distinct
  keys. Storing under a present key keeps its place.\<close>

fun dict_set :: "'k \<Rightarrow> 'v \<Rightarrow> ('k \<times> 'v) list \<Rightarrow> ('k \<times> 'v) list" where
  "dict_set k v [] = [(k, v)]"
| "dict_set k v ((k', v') # d) = (if k' = k then (k, v) # d else (k', v') # dict_set k v d)"

definition dict_of_pairs :: "('k \<times> 'v) list \<Rightarrow> ('k \<times> 'v) list" where
  "dict_of_pairs ps = foldl (\<lambda>d (k, v). dict_set k v d) [] ps"

text \<open>\<open>dict.setdefault\<close> and the display \<open>{**d, **e}\<close>.\<close>

definition dict_setdefault :: "'k \<Rightarrow> 'v \<Rightarrow> ('k \<times> 'v) list \<Rightarrow> ('k \<times> 'v) list" where
  "dict_setdefault k v d = (if k \<in> fst ` set d then d else d @ [(k, v)])"

definition dict_merge :: "('k \<times> 'v) list \<Rightarrow> ('k \<times> 'v) list \<Rightarrow> ('k \<times> 'v) list" where
  "dict_merge d e = foldl (\<lambda>acc (k, v). dict_set k v acc) d e"

section \<open>Tables\<close>

text \<open>\<open>find_row p t\<close> is the first row that satisfies \<open>p\<close>: \<open>db.get\<close> and \<open>db.scalar(select(..))\<close>.\<close>

definition find_row :: "('r \<Rightarrow> bool) \<Rightarrow> 'r list \<Rightarrow> 'r option" where
  "find_row p t = find p t"

definition update_where :: "('r \<Rightarrow> bool) \<Rightarrow> ('r \<Rightarrow> 'r) \<Rightarrow> 'r list \<Rightarrow> 'r list" where
  "update_where p f t = map (\<lambda>r. if p r then f r else r) t"

definition delete_where :: "('r \<Rightarrow> bool) \<Rightarrow> 'r list \<Rightarrow> 'r list" where
  "delete_where p t = filter (\<lambda>r. \<not> p r) t"

text \<open>The \<open>rowcount\<close> of an \<open>UPDATE .. WHERE\<close>.\<close>

definition count_where :: "('r \<Rightarrow> bool) \<Rightarrow> 'r list \<Rightarrow> nat" where
  "count_where p t = length (filter p t)"

text \<open>The integer key the database gives a new row, one above the largest in use.\<close>

definition next_id :: "('r \<Rightarrow> int) \<Rightarrow> 'r list \<Rightarrow> int" where
  "next_id k t = foldr (\<lambda>r m. max (k r) m) t 0 + 1"

text \<open>A column is a key of a table when no two rows agree on it.\<close>

definition unique_on :: "('r \<Rightarrow> 'k) \<Rightarrow> 'r list \<Rightarrow> bool" where
  "unique_on k t \<longleftrightarrow> distinct (map k t)"

subsection \<open>String facts\<close>

lemma startswith_append [simp]: "startswith (p @ s) p"
  by (simp add: startswith_def)

lemma startswith_iff: "startswith s p \<longleftrightarrow> (\<exists>t. s = p @ t)"
  unfolding startswith_def by (metis append_eq_conv_conj append_take_drop_id)

lemma endswith_append [simp]: "endswith (s @ p) p"
  by (simp add: endswith_def)

lemma endswith_iff: "endswith s p \<longleftrightarrow> (\<exists>t. s = t @ p)"
  unfolding endswith_def
  by (metis append_take_drop_id append_eq_conv_conj add_diff_cancel_right' le_add2 length_append)

lemma split_char_nonempty [simp]: "split_char c s \<noteq> []"
  by (induction s) (auto split: list.splits)

lemma split_char_no_sep: "c \<notin> set s \<Longrightarrow> split_char c s = [s]"
  by (induction s) auto

lemma split_char_append:
  "c \<notin> set s \<Longrightarrow> split_char c (s @ c # t) = s # split_char c t"
  by (induction s) auto

lemma split_char_parts: "p \<in> set (split_char c s) \<Longrightarrow> c \<notin> set p"
  by (induction s arbitrary: p) (auto split: if_splits list.splits)

lemma join_split_char: "join_char c (split_char c s) = s"
proof (induction s)
  case Nil
  show ?case by simp
next
  case (Cons x xs)
  show ?case
  proof (cases "split_char c xs")
    case Nil
    then show ?thesis by simp
  next
    case (Cons p ps)
    with Cons.IH show ?thesis by (cases ps) auto
  qed
qed

lemma split_char_pair: "split_char c s = [a, b] \<Longrightarrow> s = a @ c # b \<and> c \<notin> set a \<and> c \<notin> set b"
proof -
  assume *: "split_char c s = [a, b]"
  then have "s = a @ c # b"
    using join_split_char [of c s] by simp
  moreover have "c \<notin> set a" "c \<notin> set b"
    using split_char_parts [of _ c s] * by auto
  ultimately show ?thesis by simp
qed

lemma partition_char_found:
  "c \<notin> set s \<Longrightarrow> partition_char c (s @ c # t) = (s, True, t)"
proof -
  assume "c \<notin> set s"
  then have "\<forall>x \<in> set s. x \<noteq> c" by auto
  then have "dropWhile (\<lambda>x. x \<noteq> c) (s @ c # t) = c # t"
    and "takeWhile (\<lambda>x. x \<noteq> c) (s @ c # t) = s"
    by (simp_all add: dropWhile_append2 takeWhile_append2)
  then show ?thesis by (simp add: partition_char_def)
qed

lemma partition_char_absent: "c \<notin> set s \<Longrightarrow> partition_char c s = (s, False, [])"
proof -
  assume "c \<notin> set s"
  then have "dropWhile (\<lambda>x. x \<noteq> c) s = []" by auto
  then show ?thesis unfolding partition_char_def by (simp only: list.case)
qed

lemma partition_char_True:
  assumes "partition_char c s = (a, True, b)"
  shows "s = a @ c # b \<and> c \<notin> set a"
proof (cases "dropWhile (\<lambda>x. x \<noteq> c) s")
  case Nil
  with assms show ?thesis by (simp add: partition_char_def)
next
  case (Cons y rest)
  then have "y = c"
    by (metis (mono_tags, lifting) hd_dropWhile list.distinct(1) list.sel(1))
  with Cons assms have "a = takeWhile (\<lambda>x. x \<noteq> c) s" "b = rest"
    by (auto simp: partition_char_def)
  with Cons \<open>y = c\<close> show ?thesis
    by (metis (mono_tags, lifting) set_takeWhileD takeWhile_dropWhile_id)
qed

lemma rstrip_char_idem [simp]: "rstrip_char c (rstrip_char c s) = rstrip_char c s"
  by (simp add: rstrip_char_def dropWhile_idem)

lemma rstrip_char_last: "rstrip_char c s \<noteq> [] \<Longrightarrow> last (rstrip_char c s) \<noteq> c"
proof -
  assume "rstrip_char c s \<noteq> []"
  then have "dropWhile (\<lambda>x. x = c) (rev s) \<noteq> []" by (simp add: rstrip_char_def)
  then have "hd (dropWhile (\<lambda>x. x = c) (rev s)) \<noteq> c" by (rule hd_dropWhile)
  then show ?thesis by (simp add: rstrip_char_def last_rev)
qed

lemma rstrip_replicate:
  "s = [] \<or> last s \<noteq> c \<Longrightarrow> rstrip_char c (s @ replicate n c) = s"
  by (cases s rule: rev_cases)
    (auto simp: rstrip_char_def dropWhile_append2 dropWhile_append3)

subsection \<open>Decimal round trip\<close>

lemma of_char_digit_char [simp]: "d < 10 \<Longrightarrow> of_char (digit_char d) = 48 + d"
  by (simp add: digit_char_def)

lemma digit_val_digit_char [simp]: "d < 10 \<Longrightarrow> digit_val (digit_char d) = d"
  by (simp add: digit_val_def)

lemma is_digit_digit_char [simp]: "d < 10 \<Longrightarrow> is_digit (digit_char d)"
  by (simp add: is_digit_def char_in_def)

lemma nat_of_digits_snoc: "nat_of_digits (s @ [c]) = 10 * nat_of_digits s + digit_val c"
  by (simp add: nat_of_digits_def)

lemma nat_of_digits_nat_str [simp]: "nat_of_digits (nat_str n) = n"
proof (induction n rule: nat_str.induct)
  case (1 n)
  show ?case
  proof (cases "n < 10")
    case True
    then show ?thesis by (subst nat_str.simps) (simp add: nat_of_digits_def)
  next
    case False
    then show ?thesis using "1.IH"
      by (subst nat_str.simps) (simp add: nat_of_digits_snoc)
  qed
qed

lemma nat_str_nonempty [simp]: "nat_str n \<noteq> []"
  by (subst nat_str.simps) simp

lemma nat_str_digits: "list_all is_digit (nat_str n)"
proof (induction n rule: nat_str.induct)
  case (1 n)
  then show ?case by (subst nat_str.simps) simp
qed

lemma nat_str_inj: "nat_str m = nat_str n \<Longrightarrow> m = n"
  by (metis nat_of_digits_nat_str)

lemma nat_str_hd_zero: "hd (nat_str n) = CHR ''0'' \<Longrightarrow> n = 0"
proof (induction n rule: nat_str.induct)
  case (1 n)
  show ?case
  proof (cases "n < 10")
    case True
    with "1.prems" have "of_char (digit_char n) = (48 :: nat)"
      by (subst (asm) nat_str.simps) simp
    with True show ?thesis by simp
  next
    case False
    with "1.prems" have "hd (nat_str (n div 10)) = CHR ''0''"
      by (subst (asm) nat_str.simps) (simp add: hd_append)
    with False "1.IH" show ?thesis by (simp add: div_eq_0_iff)
  qed
qed

lemma nat_str_small: "n < 10 \<Longrightarrow> nat_str n = [digit_char n]"
  by (subst nat_str.simps) simp

lemma digit_char_digit_val [simp]: "is_digit c \<Longrightarrow> digit_char (digit_val c) = c"
  by (simp add: is_digit_def char_in_def digit_char_def digit_val_def)

lemma digit_val_less [simp]: "is_digit c \<Longrightarrow> digit_val c < 10"
  by (auto simp: is_digit_def char_in_def digit_val_def)

lemma digit_val_zero: "is_digit c \<Longrightarrow> digit_val c = 0 \<Longrightarrow> c = CHR ''0''"
  by (rule of_char_eq_iff [where 'a = nat, THEN iffD1])
    (simp add: is_digit_def char_in_def digit_val_def)

text \<open>A digit string without a leading zero is the decimal form of its value.\<close>

lemma nat_str_nat_of_digits:
  "s \<noteq> [] \<Longrightarrow> list_all is_digit s \<Longrightarrow> hd s \<noteq> CHR ''0'' \<or> length s = 1 \<Longrightarrow>
   nat_str (nat_of_digits s) = s \<and> (hd s \<noteq> CHR ''0'' \<longrightarrow> 0 < nat_of_digits s)"
proof (induction s rule: rev_induct)
  case Nil
  then show ?case by simp
next
  case (snoc c s)
  have c: "is_digit c" using snoc.prems(2) by simp
  show ?case
  proof (cases "s = []")
    case True
    with c show ?thesis
      using digit_val_zero [OF c] by (auto simp: nat_of_digits_def nat_str_small)
  next
    case False
    with snoc.prems(2,3) have hd: "hd s \<noteq> CHR ''0''" "list_all is_digit s"
      by auto
    with snoc.IH False have IH: "nat_str (nat_of_digits s) = s" "0 < nat_of_digits s" by auto
    from IH(2) have big: "\<not> 10 * nat_of_digits s + digit_val c < 10" by simp
    have "(10 * nat_of_digits s + digit_val c) div 10 = nat_of_digits s"
      "(10 * nat_of_digits s + digit_val c) mod 10 = digit_val c"
      using digit_val_less [OF c] by simp_all
    with big c IH show ?thesis
      by (simp add: nat_of_digits_snoc nat_str.simps [of "10 * nat_of_digits s + digit_val c"])
  qed
qed

subsection \<open>Dictionaries\<close>

lemma map_of_dict_set [simp]: "map_of (dict_set k v d) = (map_of d)(k \<mapsto> v)"
  by (induction d) auto

lemma keys_dict_set [simp]: "fst ` set (dict_set k v d) = insert k (fst ` set d)"
  by (induction d) force+

lemma distinct_dict_set [simp]:
  "distinct (map fst d) \<Longrightarrow> distinct (map fst (dict_set k v d))"
  by (induction d) auto

lemma dict_set_fresh: "k \<notin> fst ` set d \<Longrightarrow> dict_set k v d = d @ [(k, v)]"
  by (induction d) auto

lemma foldl_dict_set_distinct:
  assumes "distinct (map fst ps)" and "fst ` set d \<inter> fst ` set ps = {}"
  shows "foldl (\<lambda>d (k, v). dict_set k v d) d ps = d @ ps"
  using assms
proof (induction ps arbitrary: d)
  case Nil
  then show ?case by simp
next
  case (Cons p ps)
  obtain k v where p: "p = (k, v)" by (cases p)
  with Cons.prems have "k \<notin> fst ` set d" by auto
  then have "dict_set k v d = d @ [(k, v)]" by (rule dict_set_fresh)
  moreover have "fst ` set (d @ [(k, v)]) \<inter> fst ` set ps = {}"
    using Cons.prems p by auto
  ultimately show ?case using Cons.IH [of "d @ [(k, v)]"] Cons.prems p by simp
qed

lemma dict_of_pairs_distinct [simp]: "distinct (map fst ps) \<Longrightarrow> dict_of_pairs ps = ps"
  unfolding dict_of_pairs_def by (simp add: foldl_dict_set_distinct)

subsection \<open>Truncation\<close>

lemma py_int_nonneg: "0 \<le> x \<Longrightarrow> py_int x = \<lfloor>x\<rfloor>"
  by (simp add: py_int_def)

lemma py_int_mono: "x \<le> y \<Longrightarrow> py_int x \<le> py_int y"
proof -
  assume xy: "x \<le> y"
  consider "y < 0" | "x < 0" "0 \<le> y" | "0 \<le> x" using xy by linarith
  then show ?thesis
  proof cases
    case 1
    with xy show ?thesis by (simp add: py_int_def floor_mono)
  next
    case 2
    then have "0 \<le> \<lfloor>- x\<rfloor>" and "0 \<le> \<lfloor>y\<rfloor>" by simp_all
    then have "- \<lfloor>- x\<rfloor> \<le> \<lfloor>y\<rfloor>" by linarith
    with 2 show ?thesis by (simp add: py_int_def)
  next
    case 3
    with xy show ?thesis by (simp add: py_int_def floor_mono)
  qed
qed

lemma py_int_of_int [simp]: "py_int (of_int n) = n"
  by (simp add: py_int_def flip: of_int_minus)

subsection \<open>Rows after a statement\<close>

lemma find_row_Some: "find_row p t = Some r \<Longrightarrow> r \<in> set t \<and> p r"
  unfolding find_row_def by (auto simp: find_Some_iff)

lemma find_row_None [simp]: "find_row p t = None \<longleftrightarrow> (\<forall>r \<in> set t. \<not> p r)"
  unfolding find_row_def by (auto simp: find_None_iff)

lemma find_row_ex: "r \<in> set t \<Longrightarrow> p r \<Longrightarrow> \<exists>r'. find_row p t = Some r'"
  by (metis find_row_None not_None_eq)

lemma find_row_Nil [simp]: "find_row p [] = None"
  by (simp add: find_row_def)

lemma find_row_Cons [simp]: "find_row p (r # t) = (if p r then Some r else find_row p t)"
  by (simp add: find_row_def)

lemma find_row_append:
  "find_row p (t @ u) = (case find_row p t of None \<Rightarrow> find_row p u | Some r \<Rightarrow> Some r)"
  by (induction t) auto

lemma unique_onD: "unique_on k t \<Longrightarrow> r \<in> set t \<Longrightarrow> r' \<in> set t \<Longrightarrow> k r = k r' \<Longrightarrow> r = r'"
  unfolding unique_on_def by (auto simp: distinct_map dest: inj_onD)

lemma find_row_key:
  assumes "unique_on k t" and "r \<in> set t"
  shows "find_row (\<lambda>x. k x = k r) t = Some r"
proof -
  obtain r' where r': "find_row (\<lambda>x. k x = k r) t = Some r'"
    using find_row_ex [of r t "\<lambda>x. k x = k r"] assms(2) by auto
  with find_row_Some [OF r'] show ?thesis
    using unique_onD [OF assms(1)] assms(2) by auto
qed

lemma set_update_where [table_simps]:
  "set (update_where p f t) = (\<lambda>r. if p r then f r else r) ` set t"
  by (simp add: update_where_def)

lemma update_where_cases:
  assumes "r \<in> set (update_where p f t)"
  obtains (changed) x where "x \<in> set t" "p x" "r = f x" | (kept) "r \<in> set t" "\<not> p r"
  using assms by (auto simp: update_where_def split: if_splits)

lemma update_where_Nil [simp]: "update_where p f [] = []"
  by (simp add: update_where_def)

lemma update_where_Cons [simp]:
  "update_where p f (r # t) = (if p r then f r else r) # update_where p f t"
  by (simp add: update_where_def)

lemma map_key_update_where [table_simps]:
  "(\<And>r. k (f r) = k r) \<Longrightarrow> map k (update_where p f t) = map k t"
  by (simp add: update_where_def)

lemma unique_on_update_where [table_simps]:
  "(\<And>r. k (f r) = k r) \<Longrightarrow> unique_on k (update_where p f t) = unique_on k t"
  by (simp add: unique_on_def map_key_update_where)

lemma find_row_update_where:
  assumes "\<And>r. q (f r) = q r"
  shows "find_row q (update_where p f t) = map_option (\<lambda>r. if p r then f r else r) (find_row q t)"
  using assms by (induction t) auto

lemma set_delete_where [table_simps]: "set (delete_where p t) = {r \<in> set t. \<not> p r}"
  by (auto simp: delete_where_def)

lemma unique_on_delete_where [table_simps]: "unique_on k t \<Longrightarrow> unique_on k (delete_where p t)"
  unfolding unique_on_def delete_where_def by (rule distinct_map_filter)

lemma unique_on_insert [table_simps]:
  "unique_on k (t @ [r]) \<longleftrightarrow> unique_on k t \<and> k r \<notin> k ` set t"
  by (auto simp: unique_on_def)

lemma find_row_update_kept:
  assumes "\<forall>r \<in> set t. p r \<longrightarrow> q (f r) = q r"
  shows "find_row q (update_where p f t) = map_option (\<lambda>r. if p r then f r else r) (find_row q t)"
  using assms by (induction t) auto

lemma next_id_fresh: "r \<in> set t \<Longrightarrow> k r < next_id k t"
  by (induction t) (auto simp: next_id_def)

lemma next_id_notin [simp]: "next_id k t \<notin> k ` set t"
  using next_id_fresh [of _ t k] by fastforce

lemma unique_on_next_id [table_simps]:
  "unique_on k t \<Longrightarrow> k r = next_id k t \<Longrightarrow> unique_on k (t @ [r])"
  by (simp add: unique_on_insert)

lemma count_where_zero: "count_where p t = 0 \<longleftrightarrow> (\<forall>r \<in> set t. \<not> p r)"
  by (auto simp: count_where_def filter_empty_conv)

lemma count_where_key:
  assumes "unique_on k t" and "r \<in> set t" and "p r" and "\<And>x. p x \<Longrightarrow> k x = k r"
  shows "count_where p t = 1"
  using assms
proof (induction t)
  case Nil
  then show ?case by simp
next
  case (Cons a t)
  have u: "unique_on k t" "k a \<notin> k ` set t"
    using Cons.prems(1) by (auto simp: unique_on_def)
  show ?case
  proof (cases "a = r")
    case True
    have "\<forall>x \<in> set t. \<not> p x"
    proof (rule ballI, rule notI)
      fix x assume "x \<in> set t" and "p x"
      from Cons.prems(4) [OF \<open>p x\<close>] True have "k x = k a" by simp
      with \<open>x \<in> set t\<close> u(2) show False by (metis imageI)
    qed
    with True Cons.prems(3) show ?thesis by (simp add: count_where_def)
  next
    case False
    with Cons.prems have "r \<in> set t" by simp
    then have "\<not> p a" using u(2) Cons.prems(4) [of a] by (metis imageI)
    then show ?thesis using Cons.IH [OF u(1) \<open>r \<in> set t\<close> Cons.prems(3,4)]
      by (simp add: count_where_def)
  qed
qed

end
