(* ===== verification/Base64.thy ===== *)
theory Base64
  imports Prelude
begin

text \<open>
  The Base64 coding of the Python standard library as the two ends of the ticket protocol use it:
  \<open>base64.urlsafe_b64encode\<close> on the issuing side and \<open>base64.b64decode(.., altchars=b"-_",
  validate=True)\<close> on the verifying side. \<open>b64encode\<close> emits the URL-safe alphabet and pads to a
  multiple of four. \<open>a2b_base64\<close> is the strict mode of \<open>binascii.a2b_base64\<close> as a state machine:
  the position in the current quad, the bits carried over from the previous character, the count
  of padding characters and whether padding has started. The decoder accepts both alphabets, as
  \<open>altchars\<close> only adds the translation of \<open>-\<close> and \<open>_\<close>.
  The main fact is \<open>b64decode_encode\<close>: decoding what was encoded gives the bytes back.
\<close>

definition b64_char :: "nat \<Rightarrow> char" where
  "b64_char v =
     (if v < 26 then char_of (65 + v)
      else if v < 52 then char_of (97 + (v - 26))
      else if v < 62 then char_of (48 + (v - 52))
      else if v = 62 then CHR ''-'' else CHR ''_'')"

definition b64_val :: "char \<Rightarrow> nat option" where
  "b64_val c =
     (let n = of_char c in
      if 65 \<le> n \<and> n \<le> 90 then Some (n - 65)
      else if 97 \<le> n \<and> n \<le> 122 then Some (n - 71)
      else if 48 \<le> n \<and> n \<le> 57 then Some (n + 4)
      else if n = 43 \<or> n = 45 then Some 62
      else if n = 47 \<or> n = 95 then Some 63
      else None)"

abbreviation (input) pad_char :: char where
  "pad_char \<equiv> CHR ''=''"

fun b64_quads :: "string \<Rightarrow> string" where
  "b64_quads [] = []"
| "b64_quads [a] =
     (let x = of_char a in [b64_char (x div 4), b64_char ((x mod 4) * 16)])"
| "b64_quads [a, b] =
     (let x = of_char a; y = of_char b in
      [b64_char (x div 4), b64_char ((x mod 4) * 16 + y div 16), b64_char ((y mod 16) * 4)])"
| "b64_quads (a # b # c # rest) =
     (let x = of_char a; y = of_char b; z = of_char c in
      [b64_char (x div 4), b64_char ((x mod 4) * 16 + y div 16),
       b64_char ((y mod 16) * 4 + z div 64), b64_char (z mod 64)] @ b64_quads rest)"

definition b64_padding :: "nat \<Rightarrow> string" where
  "b64_padding n = replicate ((4 - n mod 4) mod 4) pad_char"

definition urlsafe_b64encode :: "string \<Rightarrow> string" where
  "urlsafe_b64encode bs = b64_quads bs @ b64_padding (length (b64_quads bs))"

fun a2b_base64 :: "nat \<Rightarrow> nat \<Rightarrow> nat \<Rightarrow> bool \<Rightarrow> string \<Rightarrow> string option" where
  "a2b_base64 quad_pos left pads started [] = (if quad_pos = 0 then Some [] else None)"
| "a2b_base64 quad_pos left pads started (c # cs) =
     (if c = pad_char then
        (if 2 \<le> quad_pos then
           (if 4 \<le> quad_pos + (pads + 1) then (if cs = [] then Some [] else None)
            else a2b_base64 quad_pos left (pads + 1) True cs)
         else a2b_base64 quad_pos left pads True cs)
      else
        (case b64_val c of
           None \<Rightarrow> None
         | Some v \<Rightarrow>
             if started then None
             else if quad_pos = 0 then a2b_base64 1 v 0 started cs
             else if quad_pos = 1 then
               map_option ((#) (char_of (left * 4 + v div 16))) (a2b_base64 2 (v mod 16) 0 started cs)
             else if quad_pos = 2 then
               map_option ((#) (char_of (left * 16 + v div 4))) (a2b_base64 3 (v mod 4) 0 started cs)
             else
               map_option ((#) (char_of (left * 64 + v))) (a2b_base64 0 0 0 started cs)))"

definition b64decode_strict :: "string \<Rightarrow> string option" where
  "b64decode_strict s =
     (if s \<noteq> [] \<and> hd s = pad_char then None else a2b_base64 0 0 0 False s)"

section \<open>Alphabet\<close>

lemma b64_val_char [simp]: "v < 64 \<Longrightarrow> b64_val (b64_char v) = Some v"
  by (auto simp: b64_val_def b64_char_def Let_def)

lemma b64_char_not_pad [simp]: "v < 64 \<Longrightarrow> b64_char v \<noteq> pad_char"
proof -
  assume "v < 64"
  then have "of_char (b64_char v) \<noteq> (61 :: nat)"
    by (auto simp: b64_char_def)
  then show ?thesis by auto
qed

lemma b64_char_not_dot [simp]: "v < 64 \<Longrightarrow> b64_char v \<noteq> dot"
proof -
  assume "v < 64"
  then have "of_char (b64_char v) \<noteq> (46 :: nat)"
    by (auto simp: b64_char_def)
  then show ?thesis by auto
qed

lemma b64_char_ascii [simp]: "v < 64 \<Longrightarrow> (of_char (b64_char v) :: nat) < 128"
  by (auto simp: b64_char_def)

lemma of_char_lt_256 [simp]: "(of_char c :: nat) < 256"
  by simp

lemma sextet_bounds [simp]:
  "(of_char a :: nat) div 4 < 64"
  "(x :: nat) mod 4 * 16 < 64"
  "(x :: nat) mod 16 * 4 < 64"
  "(x :: nat) mod 4 * 16 + of_char b div 16 < 64"
  "(x :: nat) mod 16 * 4 + of_char b div 64 < 64"
proof -
  have a: "(of_char a :: nat) < 256" and b: "(of_char b :: nat) < 256" by simp_all
  show "(of_char a :: nat) div 4 < 64" using a by linarith
  show "x mod 4 * 16 < 64" by linarith
  show "x mod 16 * 4 < 64" by linarith
  show "x mod 4 * 16 + of_char b div 16 < 64" using b by linarith
  show "x mod 16 * 4 + of_char b div 64 < 64" using b by linarith
qed

section \<open>Round trip\<close>

lemma byte_high_bits [simp]:
  "(of_char b :: nat) div 16 mod 16 = of_char b div 16"
  "(of_char b :: nat) div 16 div 16 = 0"
  "(of_char b :: nat) div 64 mod 4 = of_char b div 64"
  "(of_char b :: nat) div 64 div 4 = 0"
proof -
  have b: "(of_char b :: nat) < 256" by simp
  then have "(of_char b :: nat) div 16 < 16" and "(of_char b :: nat) div 64 < 4" by linarith+
  then show "(of_char b :: nat) div 16 mod 16 = of_char b div 16"
    "(of_char b :: nat) div 16 div 16 = 0"
    "(of_char b :: nat) div 64 mod 4 = of_char b div 64"
    "(of_char b :: nat) div 64 div 4 = 0"
    by simp_all
qed

lemma sextet_join [simp]:
  "(x mod 4 * 16 + (of_char b :: nat) div 16) div 16 = x mod 4"
  "(x mod 4 * 16 + (of_char b :: nat) div 16) mod 16 = of_char b div 16"
  "(x mod 16 * 4 + (of_char b :: nat) div 64) div 4 = x mod 16"
  "(x mod 16 * 4 + (of_char b :: nat) div 64) mod 4 = of_char b div 64"
  by (simp_all add: div_add1_eq)

lemma a2b_quads:
  "a2b_base64 0 0 0 False (b64_quads bs @ b64_padding (length (b64_quads bs))) = Some bs"
proof (induction bs rule: b64_quads.induct)
  case 1
  show ?case by (simp add: b64_padding_def)
next
  case (2 a)
  show ?case by (simp add: b64_padding_def Let_def numeral_2_eq_2)
next
  case (3 a b)
  show ?case by (simp add: b64_padding_def Let_def)
next
  case (4 a b c rest)
  have "b64_padding (length (b64_quads (a # b # c # rest))) = b64_padding (length (b64_quads rest))"
    by (simp add: b64_padding_def Let_def)
  with 4 show ?case by (simp add: Let_def)
qed

lemma b64_quads_chars: "c \<in> set (b64_quads bs) \<Longrightarrow> c \<noteq> pad_char \<and> c \<noteq> dot \<and> (of_char c :: nat) < 128"
  by (induction bs rule: b64_quads.induct) (auto simp: Let_def)

lemma rstrip_urlsafe_b64encode [simp]:
  "rstrip_char pad_char (urlsafe_b64encode bs) = b64_quads bs"
  unfolding urlsafe_b64encode_def b64_padding_def
  by (rule rstrip_replicate) (metis b64_quads_chars last_in_set)

lemma b64_quads_length_mod: "length (b64_quads bs) mod 4 \<noteq> 1"
  by (induction bs rule: b64_quads.induct) (auto simp: Let_def)

lemma b64decode_encode:
  "b64decode_strict (b64_quads bs @ b64_padding (length (b64_quads bs))) = Some bs"
proof -
  have "hd (b64_quads bs @ b64_padding (length (b64_quads bs))) \<noteq> pad_char
      \<or> b64_quads bs @ b64_padding (length (b64_quads bs)) = []"
    using b64_quads_chars [of "hd (b64_quads bs)" bs]
    by (cases "b64_quads bs") (auto simp: b64_padding_def)
  then show ?thesis by (auto simp: b64decode_strict_def a2b_quads)
qed

section \<open>The standard alphabet\<close>

text \<open>\<open>base64.b64encode\<close> differs from the URL-safe form in the last two characters of the alphabet.\<close>

definition std_char :: "char \<Rightarrow> char" where
  "std_char c = (if c = CHR ''-'' then CHR ''+'' else if c = CHR ''_'' then CHR ''/'' else c)"

definition b64encode :: "string \<Rightarrow> string" where
  "b64encode bs = map std_char (urlsafe_b64encode bs)"

lemma b64_val_std_char [simp]: "b64_val (std_char c) = b64_val c"
  by (simp add: std_char_def b64_val_def)

lemma std_char_pad [simp]: "std_char c = pad_char \<longleftrightarrow> c = pad_char"
  by (auto simp: std_char_def)

lemma a2b_std_char: "a2b_base64 q l p st (map std_char s) = a2b_base64 q l p st s"
proof (induction s arbitrary: q l p st)
  case (Cons c s)
  then show ?case by (cases "b64_val c") simp_all
qed simp

lemma b64decode_b64encode: "b64decode_strict (b64encode bs) = Some bs"
proof -
  have "b64decode_strict (map std_char s) = b64decode_strict s" for s
    unfolding b64decode_strict_def a2b_std_char by (cases s) simp_all
  then show ?thesis
    using b64decode_encode [of bs] by (simp add: b64encode_def urlsafe_b64encode_def del: map_append)
qed

lemma b64encode_inj: "b64encode a = b64encode b \<Longrightarrow> a = b"
  by (metis b64decode_b64encode option.inject)

lemma b64encode_chars: "c \<in> set (b64encode bs) \<Longrightarrow> c \<noteq> CHR ''-'' \<and> c \<noteq> CHR ''_''"
  by (auto simp: b64encode_def std_char_def)

end
