(* ===== verification/Json.thy ===== *)
theory Json
  imports Prelude
begin

text \<open>
  JSON as the program exchanges it. \<open>json\<close> is the type of the values \<open>json.loads\<close> returns.
  \<open>json_dumps\<close> is \<open>json.dumps(.., separators=(",", ":"), sort_keys=True)\<close> on the objects the
  ticket issuer writes, flat objects whose members are text or integers; \<open>json_loads_flat\<close> reads
  that format back, with white space, every escape and the three literals. It is the fragment of
  \<open>json.loads\<close> on flat objects without floats: theories that call \<open>json.loads\<close> take the parser
  as an argument, so that their safety properties hold for whatever the parser returns, and this
  one is the instance that shows the round trip.
\<close>

datatype json =
    JNull
  | JBool bool
  | JInt int
  | JFloat pyfloat
  | JStr string
  | JArr "json list"
  | JObj "(string \<times> json) list"

text \<open>Python's \<open>==\<close> between a decoded value and the integer \<open>n\<close>: a boolean is the number 0 or 1,
  and a float with the same value is equal.\<close>

fun json_eq_int :: "json \<Rightarrow> int \<Rightarrow> bool" where
  "json_eq_int (JInt i) n = (i = n)"
| "json_eq_int (JBool b) n = ((if b then 1 else 0) = n)"
| "json_eq_int (JFloat (Fin q)) n = (q = of_int n)"
| "json_eq_int _ n = False"

section \<open>Strings\<close>

definition hex_char :: "nat \<Rightarrow> char" where
  "hex_char d = (if d < 10 then char_of (48 + d) else char_of (87 + d))"

definition hex_val :: "char \<Rightarrow> nat option" where
  "hex_val c =
     (let n = of_char c in
      if 48 \<le> n \<and> n \<le> 57 then Some (n - 48)
      else if 97 \<le> n \<and> n \<le> 102 then Some (n - 87)
      else if 65 \<le> n \<and> n \<le> 70 then Some (n - 55)
      else None)"

text \<open>The codes of the characters \<open>json\<close> treats specially: quote 34, backslash 92, line feed 10,
  carriage return 13, tab 9, form feed 12, backspace 8.\<close>

abbreviation (input) quote_char :: char where "quote_char \<equiv> CHR 0x22"
abbreviation (input) backslash :: char where "backslash \<equiv> CHR 0x5C"

definition json_escape :: "char \<Rightarrow> string" where
  "json_escape c =
     (if c = quote_char then [backslash, quote_char]
      else if c = backslash then [backslash, backslash]
      else if c = CHR 0x0A then [backslash, CHR ''n'']
      else if c = CHR 0x0D then [backslash, CHR ''r'']
      else if c = CHR 0x09 then [backslash, CHR ''t'']
      else if c = CHR 0x0C then [backslash, CHR ''f'']
      else if c = CHR 0x08 then [backslash, CHR ''b'']
      else if char_in 32 126 c then [c]
      else [backslash, CHR ''u'', CHR ''0'', CHR ''0'',
            hex_char (of_char c div 16), hex_char (of_char c mod 16)])"

definition json_string :: "string \<Rightarrow> string" where
  "json_string s = quote_char # concat (map json_escape s) @ [quote_char]"

fun unescape_simple :: "char \<Rightarrow> char option" where
  "unescape_simple c =
     (if c = quote_char \<or> c = backslash \<or> c = CHR ''/'' then Some c
      else if c = CHR ''n'' then Some (CHR 0x0A)
      else if c = CHR ''r'' then Some (CHR 0x0D)
      else if c = CHR ''t'' then Some (CHR 0x09)
      else if c = CHR ''f'' then Some (CHR 0x0C)
      else if c = CHR ''b'' then Some (CHR 0x08)
      else None)"

text \<open>The rest of a string literal after its opening quote: the text and what follows the closing
  quote. Control characters must be escaped; a code point above 255 has no \<open>char\<close>.\<close>

fun parse_string :: "string \<Rightarrow> (string \<times> string) option" where
  "parse_string [] = None"
| "parse_string (c # cs) =
     (if c = quote_char then Some ([], cs)
      else if c = backslash then
        (case cs of
           [] \<Rightarrow> None
         | e # ds \<Rightarrow>
             if e = CHR ''u'' then
               (case ds of
                  h1 # h2 # h3 # h4 # rest \<Rightarrow>
                    (case (hex_val h1, hex_val h2, hex_val h3, hex_val h4) of
                       (Some a, Some b, Some x, Some y) \<Rightarrow>
                         if a = 0 \<and> b = 0
                         then map_option (\<lambda>(s, r). (char_of (x * 16 + y) # s, r)) (parse_string rest)
                         else None
                     | _ \<Rightarrow> None)
                | _ \<Rightarrow> None)
             else
               (case unescape_simple e of
                  None \<Rightarrow> None
                | Some u \<Rightarrow> map_option (\<lambda>(s, r). (u # s, r)) (parse_string ds)))
      else if (of_char c :: nat) < 32 then None
      else map_option (\<lambda>(s, r). (c # s, r)) (parse_string cs))"

section \<open>Values and members\<close>

definition skip_ws :: "string \<Rightarrow> string" where
  "skip_ws s = dropWhile (\<lambda>c. c = CHR '' '' \<or> c = CHR 0x0A \<or> c = CHR 0x0D \<or> c = CHR 0x09) s"

text \<open>An integer literal: an optional sign and digits without a leading zero; what follows must not
  continue a number.\<close>

definition parse_nat :: "string \<Rightarrow> (nat \<times> string) option" where
  "parse_nat s =
     (let ds = takeWhile is_digit s; rest = dropWhile is_digit s in
      if ds = [] then None
      else if hd ds = CHR ''0'' \<and> 1 < length ds then None
      else if rest \<noteq> [] \<and> hd rest \<in> {dot, CHR ''e'', CHR ''E''} then None
      else Some (nat_of_digits ds, rest))"

definition parse_literal :: "string \<Rightarrow> json \<Rightarrow> string \<Rightarrow> (json \<times> string) option" where
  "parse_literal lit v s = (if startswith s lit then Some (v, drop (length lit) s) else None)"

definition parse_scalar :: "string \<Rightarrow> (json \<times> string) option" where
  "parse_scalar s =
     (case s of
        [] \<Rightarrow> None
      | c # cs \<Rightarrow>
          if c = quote_char then map_option (\<lambda>(t, r). (JStr t, r)) (parse_string cs)
          else if c = CHR ''-'' then map_option (\<lambda>(n, r). (JInt (- int n), r)) (parse_nat cs)
          else if is_digit c then map_option (\<lambda>(n, r). (JInt (int n), r)) (parse_nat s)
          else if c = CHR ''t'' then parse_literal ''true'' (JBool True) s
          else if c = CHR ''f'' then parse_literal ''false'' (JBool False) s
          else parse_literal ''null'' JNull s)"

lemma parse_string_length: "parse_string s = Some (t, r) \<Longrightarrow> length r < length s"
proof (induction s arbitrary: t r rule: parse_string.induct)
  case 1
  then show ?case by simp
next
  case (2 c cs)
  then show ?case
    by (fastforce split: if_splits option.splits list.splits prod.splits)
qed

lemma skip_ws_length: "length (skip_ws s) \<le> length s"
  by (simp add: skip_ws_def length_dropWhile_le)

lemma parse_nat_length: "parse_nat s = Some (n, r) \<Longrightarrow> length r \<le> length s"
  by (auto simp: parse_nat_def Let_def length_dropWhile_le split: if_splits)

lemma parse_literal_length: "parse_literal lit v s = Some (x, r) \<Longrightarrow> length r \<le> length s"
  by (auto simp: parse_literal_def split: if_splits)

lemma parse_scalar_length: "parse_scalar s = Some (v, r) \<Longrightarrow> length r \<le> length s"
  by (cases s)
    (fastforce simp: parse_scalar_def dest: parse_string_length parse_nat_length parse_literal_length
      split: if_splits)+

text \<open>The members after the opening brace of a non-empty object, up to and including the closing
  brace.\<close>

function parse_members :: "string \<Rightarrow> ((string \<times> json) list \<times> string) option" where
  "parse_members s =
     (case skip_ws s of
        [] \<Rightarrow> None
      | q # ks \<Rightarrow>
          if q \<noteq> quote_char then None
          else
            (case parse_string ks of
               None \<Rightarrow> None
             | Some (k, r1) \<Rightarrow>
                 (case skip_ws r1 of
                    [] \<Rightarrow> None
                  | c # r2 \<Rightarrow>
                      if c \<noteq> CHR '':'' then None
                      else
                        (case parse_scalar (skip_ws r2) of
                           None \<Rightarrow> None
                         | Some (v, r3) \<Rightarrow>
                             (case skip_ws r3 of
                                [] \<Rightarrow> None
                              | e # r4 \<Rightarrow>
                                  if e = CHR ''}'' then Some ([(k, v)], r4)
                                  else if e = CHR '','' then
                                    map_option (\<lambda>(ms, r). ((k, v) # ms, r)) (parse_members r4)
                                  else None)))))"
  by pat_completeness auto
termination
proof (relation "measure length")
  show "wf (measure length)" by simp
next
  fix s q ks k r1 c r2 v r3 e r4 kr vr
  assume *: "skip_ws s = q # ks" "parse_string ks = Some kr" "(k, r1) = kr" "skip_ws r1 = c # r2"
    "parse_scalar (skip_ws r2) = Some vr" "(v, r3) = vr" "skip_ws r3 = e # r4"
  have "length r4 < length r3" using *(7) skip_ws_length [of r3] by simp
  also have "length r3 \<le> length (skip_ws r2)" using *(5,6) parse_scalar_length by blast
  also have "\<dots> \<le> length r2" by (rule skip_ws_length)
  also have "\<dots> < length r1" using *(4) skip_ws_length [of r1] by simp
  also have "\<dots> < length ks" using *(2,3) parse_string_length by blast
  also have "\<dots> < length s" using *(1) skip_ws_length [of s] by simp
  finally show "(r4, s) \<in> measure length" by simp
qed

declare parse_members.simps [simp del]

definition json_loads_flat :: "string \<Rightarrow> json option" where
  "json_loads_flat s =
     (case skip_ws s of
        [] \<Rightarrow> None
      | c # cs \<Rightarrow>
          if c = CHR ''{'' then
            (case skip_ws cs of
               [] \<Rightarrow> None
             | d # ds \<Rightarrow>
                 if d = CHR ''}'' then (if skip_ws ds = [] then Some (JObj []) else None)
                 else
                   (case parse_members cs of
                      None \<Rightarrow> None
                    | Some (ms, r) \<Rightarrow> if skip_ws r = [] then Some (JObj (dict_of_pairs ms)) else None))
          else
            (case parse_scalar (skip_ws s) of
               None \<Rightarrow> None
             | Some (v, r) \<Rightarrow> if skip_ws r = [] then Some v else None))"

section \<open>Printing flat objects\<close>

fun json_scalar :: "json \<Rightarrow> string" where
  "json_scalar JNull = ''null''"
| "json_scalar (JBool b) = (if b then ''true'' else ''false'')"
| "json_scalar (JInt i) = int_str i"
| "json_scalar (JStr s) = json_string s"
| "json_scalar _ = []"

text \<open>The members the issuer writes: no floats and no nested values.\<close>

fun is_scalar :: "json \<Rightarrow> bool" where
  "is_scalar JNull = True"
| "is_scalar (JBool b) = True"
| "is_scalar (JInt i) = True"
| "is_scalar (JStr s) = True"
| "is_scalar _ = False"

definition json_member :: "string \<times> json \<Rightarrow> string" where
  "json_member kv = json_string (fst kv) @ CHR '':'' # json_scalar (snd kv)"

definition json_dumps :: "(string \<times> json) list \<Rightarrow> string" where
  "json_dumps kvs =
     CHR ''{'' # join_char (CHR '','') (map json_member (sort_key fst kvs)) @ [CHR ''}'']"

section \<open>Round trip\<close>

lemma hex_val_char [simp]: "d < 16 \<Longrightarrow> hex_val (hex_char d) = Some d"
  by (auto simp: hex_val_def hex_char_def Let_def)

lemma byte_div_16 [simp]: "(of_char c :: nat) div 16 < 16"
proof -
  have "(of_char c :: nat) < 256" by simp
  then show ?thesis by linarith
qed

lemma parse_string_escape:
  "parse_string (json_escape c @ cs) = map_option (\<lambda>(s, r). (c # s, r)) (parse_string cs)"
proof -
  have hex: "hex_val (CHR ''0'') = Some 0"
    by (simp add: hex_val_def)
  have "(of_char c :: nat) \<ge> 32" if "char_in 32 126 c"
    using that by (simp add: char_in_def)
  then show ?thesis
    by (auto simp: json_escape_def hex char_in_def)
qed

lemma parse_string_escaped:
  "parse_string (concat (map json_escape s) @ quote_char # r) = Some (s, r)"
  by (induction s) (simp_all add: parse_string_escape del: parse_string.simps(2), simp)

definition value_end :: "string \<Rightarrow> bool" where
  "value_end r \<longleftrightarrow> r = [] \<or> hd r \<in> {CHR '','', CHR ''}''}"

lemma value_end_not_digit:
  "value_end r \<Longrightarrow> r = [] \<or> (\<not> is_digit (hd r) \<and> hd r \<notin> {dot, CHR ''e'', CHR ''E''})"
  by (auto simp: value_end_def is_digit_def char_in_def)

lemma parse_nat_str:
  assumes "value_end r"
  shows "parse_nat (nat_str n @ r) = Some (n, r)"
proof -
  have all: "\<forall>x \<in> set (nat_str n). is_digit x"
    using nat_str_digits [of n] by (simp add: list_all_iff)
  have r: "r = [] \<or> \<not> is_digit (hd r)" "r \<noteq> [] \<Longrightarrow> hd r \<notin> {dot, CHR ''e'', CHR ''E''}"
    using value_end_not_digit [OF assms] by auto
  have "takeWhile is_digit r = []" and "dropWhile is_digit r = r"
    using r(1) by (cases r; simp)+
  then have tw: "takeWhile is_digit (nat_str n @ r) = nat_str n"
    and dw: "dropWhile is_digit (nat_str n @ r) = r"
    using all by (simp_all add: takeWhile_append2 dropWhile_append2)
  have "hd (nat_str n) = CHR ''0'' \<Longrightarrow> length (nat_str n) = 1"
    using nat_str_hd_zero [of n] by (subst nat_str.simps) auto
  then show ?thesis
    using r(2) by (auto simp: parse_nat_def Let_def tw dw)
qed

lemma nat_str_hd_digit: "is_digit (hd (nat_str n))"
  using nat_str_digits [of n] by (cases "nat_str n") auto

lemma parse_scalar_print:
  assumes "is_scalar v" and "value_end r"
  shows "parse_scalar (json_scalar v @ r) = Some (v, r)"
proof (cases v)
  case JNull
  then show ?thesis
    by (simp add: parse_scalar_def parse_literal_def startswith_def is_digit_def char_in_def)
next
  case (JBool b)
  then show ?thesis
    by (simp add: parse_scalar_def parse_literal_def startswith_def is_digit_def char_in_def)
next
  case (JInt i)
  show ?thesis
  proof (cases "i < 0")
    case True
    with JInt show ?thesis
      by (simp add: parse_scalar_def int_str_def parse_nat_str [OF assms(2)])
  next
    case False
    obtain d ds where d: "nat_str (nat i) = d # ds"
      by (meson nat_str_nonempty neq_Nil_conv)
    with nat_str_hd_digit [of "nat i"] have dig: "is_digit d" by simp
    then have "d \<noteq> quote_char" "d \<noteq> CHR ''-''"
      by (auto simp: is_digit_def char_in_def)
    with JInt False d dig parse_nat_str [OF assms(2), of "nat i"] show ?thesis
      by (simp add: parse_scalar_def int_str_def)
  qed
next
  case (JStr t)
  then show ?thesis
    by (simp add: parse_scalar_def json_string_def parse_string_escaped)
qed (use assms(1) in simp_all)

lemma skip_ws_nonspace:
  "c \<notin> {CHR '' '', CHR 0x0A, CHR 0x0D, CHR 0x09} \<Longrightarrow> skip_ws (c # cs) = c # cs"
  by (simp add: skip_ws_def)

lemma skip_ws_scalar: "is_scalar v \<Longrightarrow> skip_ws (json_scalar v @ r) = json_scalar v @ r"
proof (cases v)
  case (JInt i)
  obtain d ds where d: "nat_str (nat i) = d # ds"
    by (meson nat_str_nonempty neq_Nil_conv)
  with nat_str_hd_digit [of "nat i"] have "is_digit d" by simp
  then have "d \<notin> {CHR '' '', CHR 0x0A, CHR 0x0D, CHR 0x09}"
    by (auto simp: is_digit_def char_in_def)
  with JInt d show ?thesis by (simp add: int_str_def skip_ws_nonspace)
qed (simp_all add: json_string_def skip_ws_def)

lemma parse_members_step:
  assumes "is_scalar v" and "e = CHR '','' \<or> e = CHR ''}''"
  shows "parse_members (json_member (k, v) @ e # r) =
    (if e = CHR ''}'' then Some ([(k, v)], r)
     else map_option (\<lambda>(ms, r). ((k, v) # ms, r)) (parse_members r))"
proof -
  have ve: "value_end (e # r)" using assms(2) by (auto simp: value_end_def)
  have e: "skip_ws (e # r) = e # r" using assms(2) by (auto simp: skip_ws_def)
  show ?thesis
    using assms(2) parse_scalar_print [OF assms(1) ve] skip_ws_scalar [OF assms(1), of "e # r"]
    by (subst parse_members.simps)
      (auto simp: json_member_def json_string_def skip_ws_nonspace parse_string_escaped e)
qed

lemma parse_members_print:
  assumes "kvs \<noteq> []" and "\<forall>kv \<in> set kvs. is_scalar (snd kv)"
  shows "parse_members (join_char (CHR '','') (map json_member kvs) @ CHR ''}'' # r) = Some (kvs, r)"
  using assms
proof (induction kvs)
  case Nil
  then show ?case by simp
next
  case (Cons kv kvs)
  obtain k v where kv: "kv = (k, v)" by (cases kv)
  with Cons.prems have v: "is_scalar v" by simp
  show ?case
  proof (cases kvs)
    case Nil
    with kv v show ?thesis by (simp add: parse_members_step)
  next
    case (Cons kv2 rest)
    with Cons.IH Cons.prems have
      IH: "parse_members (join_char (CHR '','') (map json_member kvs) @ CHR ''}'' # r) = Some (kvs, r)"
      by simp
    from Cons have "join_char (CHR '','') (map json_member (kv # kvs)) @ CHR ''}'' # r =
      json_member (k, v) @ CHR '','' # (join_char (CHR '','') (map json_member kvs) @ CHR ''}'' # r)"
      by (simp add: kv)
    with v IH kv show ?thesis by (simp add: parse_members_step)
  qed
qed

lemma distinct_sort_key: "distinct (map fst kvs) \<Longrightarrow> distinct (map fst (sort_key fst kvs))"
  by (simp add: distinct_map)

lemma json_loads_dumps:
  assumes "kvs \<noteq> []" and "\<forall>kv \<in> set kvs. is_scalar (snd kv)" and "distinct (map fst kvs)"
  shows "json_loads_flat (json_dumps kvs) = Some (JObj (sort_key fst kvs))"
proof -
  let ?ks = "sort_key fst kvs"
  let ?body = "join_char (CHR '','') (map json_member ?ks) @ [CHR ''}'']"
  have ne: "?ks \<noteq> []" and sc: "\<forall>kv \<in> set ?ks. is_scalar (snd kv)"
    using assms(1,2) by (metis set_empty set_sort, simp)
  have pm: "parse_members ?body = Some (?ks, [])"
    using parse_members_print [OF ne sc, of "[]"] by simp
  obtain kv rest where "?ks = kv # rest" using ne by (cases ?ks) auto
  then obtain ys where body: "?body = quote_char # ys"
    by (cases rest) (auto simp: json_member_def json_string_def)
  have "skip_ws [] = []" by (simp add: skip_ws_def)
  then show ?thesis
    using pm body distinct_sort_key [OF assms(3)]
    by (simp add: json_loads_flat_def json_dumps_def skip_ws_nonspace)
qed

end
