(* ===== verification/Tickets.thy ===== *)
theory Tickets
  imports Prelude Base64 Json
begin

text \<open>
  Capability tickets: \<open>EdgeTicketIssuer\<close> of the control plane
  (\<open>cloudbrowser/edge_tickets.py\<close>) and \<open>TicketVerifier\<close> of the edge
  (\<open>edge_tunnel/tickets.py\<close>). A ticket is the Base64 text of a JSON object, a full stop and the
  Base64 text of an HMAC-SHA256 of the first half under the secret the two sides share.

  \<open>hmac_sha256 key message\<close> and the JSON parser are arguments of the definitions. \<open>verify_sound\<close>
  needs nothing of them; the round trip of \<open>issue\<close> and \<open>verify\<close> needs the law of the locale
  \<open>json_codec\<close>, which the codec of theory Json is shown to have.
\<close>

section \<open>The issuer\<close>

record issuer =
  iss_secret :: string
  iss_node_id :: string
  iss_max_ttl :: int

datatype issue_error = Bad_max_ttl | Lifetime_not_positive

definition new_issuer :: "string \<Rightarrow> string \<Rightarrow> int \<Rightarrow> issue_error + issuer" where
  "new_issuer secret node_id max_ttl =
     (if \<not> (0 < max_ttl \<and> max_ttl \<le> 60) then Inl Bad_max_ttl
      else Inr \<lparr>iss_secret = secret, iss_node_id = node_id, iss_max_ttl = max_ttl\<rparr>)"

definition encode_part :: "string \<Rightarrow> string" where
  "encode_part data = rstrip_char pad_char (urlsafe_b64encode data)"

definition ticket_payload ::
  "issuer \<Rightarrow> string \<Rightarrow> string \<Rightarrow> int \<Rightarrow> int \<Rightarrow> int \<Rightarrow> string \<Rightarrow> (string \<times> json) list" where
  "ticket_payload iss store host port issued_at lifetime jti =
     [(''v'', JInt 1), (''node'', JStr (iss_node_id iss)), (''store'', JStr store),
      (''host'', JStr host), (''port'', JInt port), (''iat'', JInt issued_at),
      (''exp'', JInt (issued_at + lifetime)), (''jti'', JStr jti)]"

definition ticket_lifetime :: "issuer \<Rightarrow> int option \<Rightarrow> int" where
  "ticket_lifetime iss ttl =
     (case ttl of None \<Rightarrow> iss_max_ttl iss | Some t \<Rightarrow> min t (iss_max_ttl iss))"

definition issue ::
  "(string \<Rightarrow> string \<Rightarrow> string) \<Rightarrow> ((string \<times> json) list \<Rightarrow> string) \<Rightarrow> issuer \<Rightarrow> rat \<Rightarrow> string \<Rightarrow>
   string \<Rightarrow> string \<Rightarrow> int \<Rightarrow> int option \<Rightarrow> issue_error + string" where
  "issue hmac_sha256 dumps iss clock jti store host port ttl =
     (let lifetime = ticket_lifetime iss ttl in
      if lifetime \<le> 0 then Inl Lifetime_not_positive
      else
        (let payload = ticket_payload iss store host port (py_int clock) lifetime jti;
             encoded = encode_part (dumps payload);
             signature = encode_part (hmac_sha256 (iss_secret iss) encoded)
         in Inr (encoded @ dot # signature)))"

section \<open>The verifier\<close>

record ticket =
  tk_node :: string
  tk_store :: string
  tk_host :: string
  tk_port :: int
  tk_issued_at :: int
  tk_expires_at :: int
  tk_jti :: string

record verifier =
  ver_secret :: string
  ver_node_id :: string
  ver_max_ttl :: int
  ver_future_skew :: int

datatype ticket_error =
    Malformed_ticket
  | Invalid_signature
  | Malformed_claims
  | Unsupported_version
  | Invalid_claim string
  | Wrong_node
  | Ticket_expired
  | Issued_in_future
  | Lifetime_exceeds_limit
  | Missing_bearer
  | Already_used

definition new_verifier :: "string \<Rightarrow> string \<Rightarrow> int \<Rightarrow> verifier" where
  "new_verifier secret node_id max_ttl =
     \<lparr>ver_secret = secret, ver_node_id = node_id, ver_max_ttl = max_ttl, ver_future_skew = 5\<rparr>"

definition decode_part :: "string \<Rightarrow> string option" where
  "decode_part value = b64decode_strict (value @ b64_padding (length value))"

definition required_claims :: "string list" where
  "required_claims = [''v'', ''node'', ''store'', ''host'', ''port'', ''iat'', ''exp'', ''jti'']"

definition claim :: "(string \<times> json) list \<Rightarrow> string \<Rightarrow> json" where
  "claim payload name = (case map_of payload name of None \<Rightarrow> JNull | Some v \<Rightarrow> v)"

fun nonempty_str :: "json \<Rightarrow> bool" where
  "nonempty_str (JStr s) = (s \<noteq> [])"
| "nonempty_str _ = False"

fun is_int :: "json \<Rightarrow> bool" where
  "is_int (JInt _) = True"
| "is_int _ = False"

fun str_of :: "json \<Rightarrow> string" where
  "str_of (JStr s) = s"
| "str_of _ = []"

fun int_of :: "json \<Rightarrow> int" where
  "int_of (JInt i) = i"
| "int_of _ = 0"

definition check_claims ::
  "verifier \<Rightarrow> rat \<Rightarrow> (string \<times> json) list \<Rightarrow> ticket_error + ticket" where
  "check_claims ver clock payload =
     (let get = claim payload; now = py_int clock in
      if \<not> list_all (\<lambda>n. n \<in> fst ` set payload) required_claims then Inl Malformed_claims
      else if \<not> json_eq_int (get ''v'') 1 then Inl Unsupported_version
      else
        (case find (\<lambda>n. \<not> nonempty_str (get n)) [''node'', ''store'', ''host'', ''jti''] of
           Some n \<Rightarrow> Inl (Invalid_claim n)
         | None \<Rightarrow>
             (case find (\<lambda>n. \<not> is_int (get n)) [''port'', ''iat'', ''exp''] of
                Some n \<Rightarrow> Inl (Invalid_claim n)
              | None \<Rightarrow>
                  if str_of (get ''node'') \<noteq> ver_node_id ver then Inl Wrong_node
                  else if int_of (get ''port'') \<notin> {80, 443} then Inl (Invalid_claim ''port'')
                  else if int_of (get ''exp'') \<le> now then Inl Ticket_expired
                  else if int_of (get ''iat'') > now + ver_future_skew ver then Inl Issued_in_future
                  else
                    (let lifetime = int_of (get ''exp'') - int_of (get ''iat'') in
                     if lifetime \<le> 0 \<or> lifetime > ver_max_ttl ver then Inl Lifetime_exceeds_limit
                     else
                       Inr \<lparr>tk_node = str_of (get ''node''), tk_store = str_of (get ''store''),
                            tk_host = str_of (get ''host''), tk_port = int_of (get ''port''),
                            tk_issued_at = int_of (get ''iat''), tk_expires_at = int_of (get ''exp''),
                            tk_jti = str_of (get ''jti'')\<rparr>))))"

definition verify ::
  "(string \<Rightarrow> string \<Rightarrow> string) \<Rightarrow> (string \<Rightarrow> json option) \<Rightarrow> verifier \<Rightarrow> rat \<Rightarrow> string \<Rightarrow>
   ticket_error + ticket" where
  "verify hmac_sha256 loads ver clock token =
     (case split_char dot token of
        [encoded, supplied_signature] \<Rightarrow>
          (case (decode_part encoded, decode_part supplied_signature) of
             (Some raw, Some signature) \<Rightarrow>
               (case loads raw of
                  None \<Rightarrow> Inl Malformed_ticket
                | Some payload \<Rightarrow>
                    if signature \<noteq> hmac_sha256 (ver_secret ver) encoded then Inl Invalid_signature
                    else
                      (case payload of
                         JObj kvs \<Rightarrow> check_claims ver clock kvs
                       | _ \<Rightarrow> Inl Malformed_claims))
           | _ \<Rightarrow> Inl Malformed_ticket)
      | _ \<Rightarrow> Inl Malformed_ticket)"

section \<open>What an accepted ticket guarantees\<close>

definition ticket_ok :: "verifier \<Rightarrow> rat \<Rightarrow> ticket \<Rightarrow> bool" where
  "ticket_ok ver clock t \<longleftrightarrow>
     tk_node t = ver_node_id ver \<and> tk_store t \<noteq> [] \<and> tk_host t \<noteq> [] \<and> tk_jti t \<noteq> [] \<and>
     tk_port t \<in> {80, 443} \<and> py_int clock < tk_expires_at t \<and>
     tk_issued_at t \<le> py_int clock + ver_future_skew ver \<and>
     tk_issued_at t < tk_expires_at t \<and> tk_expires_at t - tk_issued_at t \<le> ver_max_ttl ver"

lemma nonempty_str_str_of: "nonempty_str j \<Longrightarrow> str_of j \<noteq> []"
  by (cases j) auto

lemma check_claims_ok: "check_claims ver clock kvs = Inr t \<Longrightarrow> ticket_ok ver clock t"
  by (auto simp: check_claims_def ticket_ok_def Let_def nonempty_str_str_of
      split: if_splits)

lemma nonempty_str_eq: "nonempty_str j \<Longrightarrow> str_of j = s \<Longrightarrow> j = JStr s"
  by (cases j) auto

lemma is_int_eq: "is_int j \<Longrightarrow> int_of j = i \<Longrightarrow> j = JInt i"
  by (cases j) auto

lemma check_claims_reads:
  "check_claims ver clock kvs = Inr t \<Longrightarrow>
   claim kvs ''node'' = JStr (tk_node t) \<and> claim kvs ''store'' = JStr (tk_store t) \<and>
   claim kvs ''host'' = JStr (tk_host t) \<and> claim kvs ''port'' = JInt (tk_port t) \<and>
   claim kvs ''exp'' = JInt (tk_expires_at t) \<and> claim kvs ''iat'' = JInt (tk_issued_at t) \<and>
   claim kvs ''jti'' = JStr (tk_jti t)"
  by (auto simp: check_claims_def Let_def split: if_splits
      intro: nonempty_str_eq is_int_eq)

lemma verify_cases:
  assumes "verify hmac_sha256 loads ver clock token = Inr t"
  obtains encoded sig kvs raw where
    "token = encoded @ dot # sig" "decode_part encoded = Some raw"
    "decode_part sig = Some (hmac_sha256 (ver_secret ver) encoded)"
    "loads raw = Some (JObj kvs)" "check_claims ver clock kvs = Inr t"
proof -
  from assms obtain encoded sig raw kvs where
    split: "split_char dot token = [encoded, sig]" and
    rest: "decode_part encoded = Some raw"
    "decode_part sig = Some (hmac_sha256 (ver_secret ver) encoded)"
    "loads raw = Some (JObj kvs)" "check_claims ver clock kvs = Inr t"
    by (auto simp: verify_def split: list.splits option.splits json.splits if_splits)
  from split_char_pair [OF split] have "token = encoded @ dot # sig" by simp
  with rest show ?thesis by (intro that)
qed

section \<open>The issuer's and the verifier's codec agree\<close>

locale json_codec =
  fixes dumps :: "(string \<times> json) list \<Rightarrow> string"
    and loads :: "string \<Rightarrow> json option"
  assumes loads_dumps:
    "kvs \<noteq> [] \<Longrightarrow> \<forall>kv \<in> set kvs. is_scalar (snd kv) \<Longrightarrow> distinct (map fst kvs) \<Longrightarrow>
     \<exists>kvs'. loads (dumps kvs) = Some (JObj kvs') \<and> map_of kvs' = map_of kvs \<and>
            fst ` set kvs' = fst ` set kvs"
begin

lemma decode_encode_part: "decode_part (encode_part data) = Some data"
  by (simp add: decode_part_def encode_part_def b64decode_encode)

lemma dot_notin_encode_part: "dot \<notin> set (encode_part data)"
  by (auto simp: encode_part_def dest: b64_quads_chars)

lemma split_token: "split_char dot (encode_part a @ dot # encode_part b) = [encode_part a, encode_part b]"
  by (simp add: split_char_append split_char_no_sep dot_notin_encode_part)

lemma payload_roundtrip:
  "\<exists>kvs'. loads (dumps (ticket_payload iss store host port iat ttl jti)) = Some (JObj kvs') \<and>
     map_of kvs' = map_of (ticket_payload iss store host port iat ttl jti) \<and>
     fst ` set kvs' = fst ` set (ticket_payload iss store host port iat ttl jti)"
  by (rule loads_dumps) (auto simp: ticket_payload_def)

lemma check_payload:
  assumes "map_of kvs' = map_of (ticket_payload iss store host port iat ttl jti)"
    and "fst ` set kvs' = fst ` set (ticket_payload iss store host port iat ttl jti)"
    and "iss_node_id iss \<noteq> []" "store \<noteq> []" "host \<noteq> []" "jti \<noteq> []" "port \<in> {80, 443}"
    and "ver_node_id ver = iss_node_id iss"
    and "0 < ttl" "ttl \<le> ver_max_ttl ver"
    and "iat \<le> py_int clock + ver_future_skew ver" "py_int clock < iat + ttl"
  shows "check_claims ver clock kvs' =
    Inr \<lparr>tk_node = iss_node_id iss, tk_store = store, tk_host = host, tk_port = port,
         tk_issued_at = iat, tk_expires_at = iat + ttl, tk_jti = jti\<rparr>"
proof -
  have req: "list_all (\<lambda>n. n \<in> fst ` set kvs') required_claims"
    unfolding assms(2) by (simp add: required_claims_def ticket_payload_def)
  have get: "claim kvs' ''v'' = JInt 1" "claim kvs' ''node'' = JStr (iss_node_id iss)"
    "claim kvs' ''store'' = JStr store" "claim kvs' ''host'' = JStr host"
    "claim kvs' ''port'' = JInt port" "claim kvs' ''iat'' = JInt iat"
    "claim kvs' ''exp'' = JInt (iat + ttl)" "claim kvs' ''jti'' = JStr jti"
    by (simp_all add: claim_def assms(1) ticket_payload_def)
  show ?thesis
    using req assms(3-12) by (simp add: check_claims_def Let_def get)
qed

text \<open>A ticket the issuer signs for its node is accepted by that node's verifier while the clocks
  agree within the skew and the ticket has not expired, and the verifier reads back the claims.\<close>

lemma verify_issue:
  assumes "issue hmac_sha256 dumps iss c1 jti store host port ttl = Inr token"
    and "iss_node_id iss \<noteq> []" "store \<noteq> []" "host \<noteq> []" "jti \<noteq> []" "port \<in> {80, 443}"
    and "ver_node_id ver = iss_node_id iss" "ver_secret ver = iss_secret iss"
    and "ticket_lifetime iss ttl \<le> ver_max_ttl ver"
    and "py_int c1 \<le> py_int c2 + ver_future_skew ver"
    and "py_int c2 < py_int c1 + ticket_lifetime iss ttl"
  shows "verify hmac_sha256 loads ver c2 token =
    Inr \<lparr>tk_node = iss_node_id iss, tk_store = store, tk_host = host, tk_port = port,
         tk_issued_at = py_int c1, tk_expires_at = py_int c1 + ticket_lifetime iss ttl,
         tk_jti = jti\<rparr>"
proof -
  let ?pl = "ticket_payload iss store host port (py_int c1) (ticket_lifetime iss ttl) jti"
  let ?enc = "encode_part (dumps ?pl)"
  from assms(1) have pos: "0 < ticket_lifetime iss ttl"
    and token: "token = ?enc @ dot # encode_part (hmac_sha256 (iss_secret iss) ?enc)"
    by (auto simp: issue_def Let_def split: if_splits)
  obtain kvs' where kvs': "loads (dumps ?pl) = Some (JObj kvs')" "map_of kvs' = map_of ?pl"
    "fst ` set kvs' = fst ` set ?pl"
    using payload_roundtrip by blast
  have "check_claims ver c2 kvs' =
    Inr \<lparr>tk_node = iss_node_id iss, tk_store = store, tk_host = host, tk_port = port,
         tk_issued_at = py_int c1, tk_expires_at = py_int c1 + ticket_lifetime iss ttl,
         tk_jti = jti\<rparr>"
    by (rule check_payload [OF kvs'(2,3) assms(2-7) pos assms(9-11)])
  with kvs'(1) show ?thesis
    by (simp add: verify_def token split_token decode_encode_part assms(8))
qed

end

interpretation flat_json: json_codec json_dumps json_loads_flat
proof
  fix kvs :: "(string \<times> json) list"
  assume "kvs \<noteq> []" "\<forall>kv \<in> set kvs. is_scalar (snd kv)" and d: "distinct (map fst kvs)"
  then have "json_loads_flat (json_dumps kvs) = Some (JObj (sort_key fst kvs))"
    by (rule json_loads_dumps)
  moreover have "map_of (sort_key fst kvs) = map_of kvs"
    using d by (simp add: map_of_inject_set distinct_sort_key)
  ultimately show "\<exists>kvs'. json_loads_flat (json_dumps kvs) = Some (JObj kvs') \<and>
      map_of kvs' = map_of kvs \<and> fst ` set kvs' = fst ` set kvs"
    by simp
qed

section \<open>Properties\<close>

text \<open>C6. A ticket the verifier accepts is two Base64 halves joined by one full stop, the second
  the HMAC of the first under the verifier's secret; it names the verifier's node, a store, a host,
  a port of 80 or 443 and an identifier, has not expired, was not issued more than the skew ahead
  of the clock and lives no longer than the verifier's limit.\<close>

theorem verify_sound:
  assumes "verify hmac_sha256 loads ver clock token = Inr t"
  shows "ticket_ok ver clock t \<and>
    (\<exists>encoded sig raw kvs. token = encoded @ dot # sig \<and>
      decode_part sig = Some (hmac_sha256 (ver_secret ver) encoded) \<and>
      decode_part encoded = Some raw \<and> loads raw = Some (JObj kvs) \<and>
      claim kvs ''node'' = JStr (tk_node t) \<and> claim kvs ''store'' = JStr (tk_store t) \<and>
      claim kvs ''host'' = JStr (tk_host t) \<and> claim kvs ''port'' = JInt (tk_port t) \<and>
      claim kvs ''exp'' = JInt (tk_expires_at t) \<and> claim kvs ''iat'' = JInt (tk_issued_at t) \<and>
      claim kvs ''jti'' = JStr (tk_jti t))"
proof -
  from assms obtain encoded sig kvs raw where *:
    "token = encoded @ dot # sig" "decode_part encoded = Some raw"
    "decode_part sig = Some (hmac_sha256 (ver_secret ver) encoded)"
    "loads raw = Some (JObj kvs)" "check_claims ver clock kvs = Inr t"
    by (rule verify_cases)
  with check_claims_reads [OF *(5)] check_claims_ok [OF *(5)] show ?thesis by blast
qed

text \<open>A concrete issuer and verifier, with the concatenation of key and message in place of the
  MAC.\<close>

lemma issue_example:
  "\<exists>token. issue (\<lambda>k m. k @ m) json_dumps \<lparr>iss_secret = ''k'', iss_node_id = ''n'', iss_max_ttl = 60\<rparr>
     100 ''j'' ''s'' ''h'' 443 None = Inr token"
  by (simp add: issue_def ticket_lifetime_def Let_def)

theorem verify_sound_witness:
  "\<exists>token t. verify (\<lambda>k m. k @ m) json_loads_flat (new_verifier ''k'' ''n'' 60) 101 token = Inr t \<and>
     tk_host t = ''h'' \<and> ticket_ok (new_verifier ''k'' ''n'' 60) 101 t"
proof -
  obtain token where "issue (\<lambda>k m. k @ m) json_dumps \<lparr>iss_secret = ''k'', iss_node_id = ''n'', iss_max_ttl = 60\<rparr>
     100 ''j'' ''s'' ''h'' 443 None = Inr token"
    using issue_example by blast
  from flat_json.verify_issue [OF this, of "new_verifier ''k'' ''n'' 60" 101]
  obtain t where "verify (\<lambda>k m. k @ m) json_loads_flat (new_verifier ''k'' ''n'' 60) 101 token = Inr t"
    "tk_host t = ''h''"
    by (auto simp: new_verifier_def ticket_lifetime_def py_int_def)
  with verify_sound [OF this(1)] show ?thesis by blast
qed

text \<open>C7. A ticket the control plane signs for a node is accepted by that node's verifier under the
  shared secret, as long as the edge's clock is at most five seconds behind and the ticket has not
  expired, and the verifier reads back exactly the store, host, port, identifier and lifetime that
  were signed, with the JSON and Base64 codecs of both sides.\<close>

theorem issue_verify_roundtrip:
  assumes "issue hmac_sha256 json_dumps iss c1 jti store host port ttl = Inr token"
    and "iss_node_id iss \<noteq> []" "store \<noteq> []" "host \<noteq> []" "jti \<noteq> []" "port \<in> {80, 443}"
    and "ticket_lifetime iss ttl \<le> max_ttl"
    and "py_int c1 \<le> py_int c2 + 5"
    and "py_int c2 < py_int c1 + ticket_lifetime iss ttl"
  shows "verify hmac_sha256 json_loads_flat (new_verifier (iss_secret iss) (iss_node_id iss) max_ttl) c2 token =
    Inr \<lparr>tk_node = iss_node_id iss, tk_store = store, tk_host = host, tk_port = port,
         tk_issued_at = py_int c1, tk_expires_at = py_int c1 + ticket_lifetime iss ttl,
         tk_jti = jti\<rparr>"
  by (rule flat_json.verify_issue) (use assms in \<open>simp_all add: new_verifier_def\<close>)

theorem issue_verify_roundtrip_witness:
  "\<exists>token. issue (\<lambda>k m. k @ m) json_dumps \<lparr>iss_secret = ''k'', iss_node_id = ''n'', iss_max_ttl = 60\<rparr>
     100 ''j'' ''s'' ''h'' 443 None = Inr token \<and>
   verify (\<lambda>k m. k @ m) json_loads_flat (new_verifier ''k'' ''n'' 60) 159 token =
     Inr \<lparr>tk_node = ''n'', tk_store = ''s'', tk_host = ''h'', tk_port = 443,
          tk_issued_at = 100, tk_expires_at = 160, tk_jti = ''j''\<rparr>"
proof -
  obtain token where i: "issue (\<lambda>k m. k @ m) json_dumps
     \<lparr>iss_secret = ''k'', iss_node_id = ''n'', iss_max_ttl = 60\<rparr> 100 ''j'' ''s'' ''h'' 443 None = Inr token"
    using issue_example by blast
  from issue_verify_roundtrip [OF this, of 60 159] i show ?thesis
    by (simp add: ticket_lifetime_def py_int_def)
qed

text \<open>An issuer refuses a maximum lifetime above sixty seconds, and what it signs expires after
  its issue time and no more than that maximum later, whatever lifetime the caller asks for.\<close>

theorem issue_lifetime_bounded:
  assumes "new_issuer secret node_id max_ttl = Inr iss"
    and "issue hmac_sha256 dumps iss clock jti store host port ttl = Inr token"
  shows "\<exists>lifetime. 0 < lifetime \<and> lifetime \<le> max_ttl \<and> max_ttl \<le> 60 \<and>
      (\<forall>t. ttl = Some t \<longrightarrow> lifetime \<le> t) \<and>
      (\<exists>sig. token = encode_part (dumps (ticket_payload iss store host port (py_int clock) lifetime jti)) @ dot # sig)"
proof (intro exI [of _ "ticket_lifetime iss ttl"] conjI)
  show "\<exists>sig. token = encode_part (dumps (ticket_payload iss store host port (py_int clock)
      (ticket_lifetime iss ttl) jti)) @ dot # sig"
    using assms(2) by (auto simp: issue_def Let_def split: if_splits)
qed (use assms in \<open>auto simp: new_issuer_def issue_def ticket_lifetime_def Let_def split: if_splits option.splits\<close>)

theorem issue_lifetime_bounded_witness:
  "\<exists>lifetime. 0 < lifetime \<and> lifetime \<le> (30 :: int) \<and>
     issue (\<lambda>k m. k @ m) json_dumps \<lparr>iss_secret = ''k'', iss_node_id = ''n'', iss_max_ttl = 30\<rparr>
       100 ''j'' ''s'' ''h'' 443 (Some 45) \<noteq> Inl Lifetime_not_positive"
proof -
  have "new_issuer ''k'' ''n'' 30 = Inr \<lparr>iss_secret = ''k'', iss_node_id = ''n'', iss_max_ttl = 30\<rparr>"
    by (simp add: new_issuer_def)
  moreover obtain token where "issue (\<lambda>k m. k @ m) json_dumps
      \<lparr>iss_secret = ''k'', iss_node_id = ''n'', iss_max_ttl = 30\<rparr> 100 ''j'' ''s'' ''h'' 443 (Some 45) = Inr token"
    by (simp add: issue_def ticket_lifetime_def Let_def)
  ultimately show ?thesis using issue_lifetime_bounded by fastforce
qed

end
