(* ===== verification/Net_Address.thy ===== *)
theory Net_Address
  imports Prelude Json
begin

text \<open>
  The part of Python's \<open>ipaddress\<close> module that the target policies, the enrolment checks and the
  health probe call: parsing and printing of IPv4 and IPv6 addresses and the registry predicates
  \<open>is_private\<close>, \<open>is_global\<close>, \<open>is_loopback\<close>, \<open>is_link_local\<close>, \<open>is_multicast\<close>, \<open>is_reserved\<close> and
  \<open>is_unspecified\<close>, with the network lists of the Python 3.11 series the deployment installs.
  An address is its integer value, an IPv6 address also its scope identifier.
  \<open>ipv4_parse_str\<close> is the round trip of the dotted notation.
\<close>

datatype ip = V4 nat | V6 nat "string option"

section \<open>Parsing\<close>

definition parse_octet :: "string \<Rightarrow> nat option" where
  "parse_octet s =
     (if s = [] then None
      else if \<not> list_all is_digit s then None
      else if 3 < length s then None
      else if s \<noteq> ''0'' \<and> hd s = CHR ''0'' then None
      else if 255 < nat_of_digits s then None
      else Some (nat_of_digits s))"

definition ipv4_of_octets :: "nat \<Rightarrow> nat \<Rightarrow> nat \<Rightarrow> nat \<Rightarrow> nat" where
  "ipv4_of_octets a b c d = ((a * 256 + b) * 256 + c) * 256 + d"

definition ipv4_parse :: "string \<Rightarrow> nat option" where
  "ipv4_parse s =
     (case map parse_octet (split_char dot s) of
        [Some a, Some b, Some c, Some d] \<Rightarrow> Some (ipv4_of_octets a b c d)
      | _ \<Rightarrow> None)"

definition parse_hextet :: "string \<Rightarrow> nat option" where
  "parse_hextet s =
     (if \<not> list_all (\<lambda>c. hex_val c \<noteq> None) s then None
      else if 4 < length s then None
      else if s = [] then None
      else Some (foldl (\<lambda>acc c. 16 * acc + the (hex_val c)) 0 s))"

fun parse_hextets :: "nat \<Rightarrow> string list \<Rightarrow> nat option" where
  "parse_hextets acc [] = Some acc"
| "parse_hextets acc (p # ps) =
     (case parse_hextet p of None \<Rightarrow> None | Some h \<Rightarrow> parse_hextets (acc * 65536 + h) ps)"

fun hex_str :: "nat \<Rightarrow> string" where
  "hex_str n = (if n < 16 then [hex_char n] else hex_str (n div 16) @ [hex_char (n mod 16)])"

declare hex_str.simps [simp del]

text \<open>The indices of the empty parts strictly between the first and the last part.\<close>

definition inner_empty :: "string list \<Rightarrow> nat list" where
  "inner_empty parts = filter (\<lambda>i. parts ! i = []) [1 ..< length parts - 1]"

text \<open>An IPv4 suffix is replaced by its two hexadecimal parts.\<close>

definition expand_v4_suffix :: "string list \<Rightarrow> string list option" where
  "expand_v4_suffix parts =
     (if dot \<in> set (last parts) then
        (case ipv4_parse (last parts) of
           None \<Rightarrow> None
         | Some v \<Rightarrow> Some (butlast parts @ [hex_str (v div 65536), hex_str (v mod 65536)]))
      else Some parts)"

definition ipv6_int_from_parts :: "string list \<Rightarrow> nat option" where
  "ipv6_int_from_parts parts =
     (if 9 < length parts then None
      else
        (case inner_empty parts of
           [] \<Rightarrow>
             if length parts \<noteq> 8 \<or> hd parts = [] \<or> last parts = [] then None
             else parse_hextets 0 parts
         | [skip] \<Rightarrow>
             (let hi = (if hd parts = [] then skip - 1 else skip);
                  lo = (if last parts = [] then length parts - skip - 2 else length parts - skip - 1)
              in if hd parts = [] \<and> hi \<noteq> 0 then None
                 else if last parts = [] \<and> lo \<noteq> 0 then None
                 else if 8 \<le> hi + lo then None
                 else
                   (case parse_hextets 0 (take hi parts) of
                      None \<Rightarrow> None
                    | Some h \<Rightarrow>
                        parse_hextets (h * 65536 ^ (8 - (hi + lo))) (drop (length parts - lo) parts)))
         | _ \<Rightarrow> None))"

definition ipv6_int_from_string :: "string \<Rightarrow> nat option" where
  "ipv6_int_from_string s =
     (let parts = split_char (CHR '':'') s in
      if length parts < 3 then None
      else
        (case expand_v4_suffix parts of
           None \<Rightarrow> None
         | Some parts' \<Rightarrow> ipv6_int_from_parts parts'))"

definition ipv6_parse :: "string \<Rightarrow> ip option" where
  "ipv6_parse s =
     (if CHR ''/'' \<in> set s then None
      else
        (case partition_char (CHR ''%'') s of
           (addr, found, scope) \<Rightarrow>
             if found \<and> (scope = [] \<or> CHR ''%'' \<in> set scope) then None
             else map_option (\<lambda>n. V6 n (if found then Some scope else None)) (ipv6_int_from_string addr)))"

definition ip_address :: "string \<Rightarrow> ip option" where
  "ip_address s = (case ipv4_parse s of Some n \<Rightarrow> Some (V4 n) | None \<Rightarrow> ipv6_parse s)"

section \<open>Printing\<close>

definition ipv4_str :: "nat \<Rightarrow> string" where
  "ipv4_str n =
     join_char dot
       [nat_str (n div 16777216), nat_str (n div 65536 mod 256),
        nat_str (n div 256 mod 256), nat_str (n mod 256)]"

definition hextets :: "nat \<Rightarrow> string list" where
  "hextets n = map (\<lambda>i. hex_str (n div 65536 ^ (7 - i) mod 65536)) [0 ..< 8]"

text \<open>The longest run of zero parts: start and length of the best run, and of the current one.\<close>

fun best_zero_run :: "nat \<Rightarrow> nat \<times> nat \<Rightarrow> nat option \<times> nat \<Rightarrow> string list \<Rightarrow> nat \<times> nat" where
  "best_zero_run i best cur [] = best"
| "best_zero_run i (bs, bl) (st, l) (h # hs) =
     (if h = ''0'' then
        (let l' = l + 1; s' = (case st of None \<Rightarrow> i | Some x \<Rightarrow> x) in
         best_zero_run (Suc i) (if bl < l' then (s', l') else (bs, bl)) (Some s', l') hs)
      else best_zero_run (Suc i) (bs, bl) (None, 0) hs)"

definition compress_hextets :: "string list \<Rightarrow> string list" where
  "compress_hextets hs =
     (case best_zero_run 0 (0, 0) (None, 0) hs of
        (start, len) \<Rightarrow>
          if 1 < len then
            (if start = 0 then [[]] else []) @ take start hs @ [[]] @ drop (start + len) hs @
            (if start + len = length hs then [[]] else [])
          else hs)"

definition ipv6_str :: "nat \<Rightarrow> string" where
  "ipv6_str n = join_char (CHR '':'') (compress_hextets (hextets n))"

fun ip_str :: "ip \<Rightarrow> string" where
  "ip_str (V4 n) = ipv4_str n"
| "ip_str (V6 n None) = ipv6_str n"
| "ip_str (V6 n (Some scope)) = ipv6_str n @ CHR ''%'' # scope"

fun ip_version :: "ip \<Rightarrow> nat" where
  "ip_version (V4 _) = 4"
| "ip_version (V6 _ _) = 6"

section \<open>Registry predicates\<close>

definition in_net :: "nat \<Rightarrow> nat \<Rightarrow> nat \<times> nat \<Rightarrow> bool" where
  "in_net w a net = (a div 2 ^ (w - snd net) = fst net div 2 ^ (w - snd net))"

definition v4_private_networks :: "(nat \<times> nat) list" where
  "v4_private_networks =
     [(ipv4_of_octets 0 0 0 0, 8), (ipv4_of_octets 10 0 0 0, 8), (ipv4_of_octets 127 0 0 0, 8),
      (ipv4_of_octets 169 254 0 0, 16), (ipv4_of_octets 172 16 0 0, 12),
      (ipv4_of_octets 192 0 0 0, 24), (ipv4_of_octets 192 0 0 170, 31),
      (ipv4_of_octets 192 0 2 0, 24), (ipv4_of_octets 192 168 0 0, 16),
      (ipv4_of_octets 198 18 0 0, 15), (ipv4_of_octets 198 51 100 0, 24),
      (ipv4_of_octets 203 0 113 0, 24), (ipv4_of_octets 240 0 0 0, 4),
      (ipv4_of_octets 255 255 255 255, 32)]"

definition v4_private_exceptions :: "(nat \<times> nat) list" where
  "v4_private_exceptions = [(ipv4_of_octets 192 0 0 9, 32), (ipv4_of_octets 192 0 0 10, 32)]"

definition v4_shared_network :: "nat \<times> nat" where
  "v4_shared_network = (ipv4_of_octets 100 64 0 0, 10)"

definition v4_multicast_network :: "nat \<times> nat" where
  "v4_multicast_network = (ipv4_of_octets 224 0 0 0, 4)"

definition v4_is_private :: "nat \<Rightarrow> bool" where
  "v4_is_private n \<longleftrightarrow>
     list_ex (in_net 32 n) v4_private_networks \<and> \<not> list_ex (in_net 32 n) v4_private_exceptions"

definition v6_net :: "nat \<Rightarrow> nat \<Rightarrow> nat \<Rightarrow> nat \<times> nat" where
  "v6_net prefix bits plen = (prefix * 2 ^ (128 - bits), plen)"

definition v6_private_networks :: "(nat \<times> nat) list" where
  "v6_private_networks =
     [(1, 128), (0, 128), (0xFFFF00000000, 96), v6_net 0x0064FF9B0001 48 48, v6_net 0x0100 16 64,
      v6_net 0x2001 16 23, v6_net 0x20010DB8 32 32, v6_net 0x2002 16 16, v6_net 0xFC00 16 7,
      v6_net 0xFE80 16 10]"

definition v6_private_exceptions :: "(nat \<times> nat) list" where
  "v6_private_exceptions =
     [(0x20010001 * 2 ^ 96 + 1, 128), (0x20010001 * 2 ^ 96 + 2, 128), v6_net 0x20010003 32 32,
      v6_net 0x200100040112 48 48, v6_net 0x20010020 32 28, v6_net 0x20010030 32 28]"

definition v6_reserved_networks :: "(nat \<times> nat) list" where
  "v6_reserved_networks =
     [(0, 8), v6_net 0x0100 16 8, v6_net 0x0200 16 7, v6_net 0x0400 16 6, v6_net 0x0800 16 5,
      v6_net 0x1000 16 4, v6_net 0x4000 16 3, v6_net 0x6000 16 3, v6_net 0x8000 16 3,
      v6_net 0xA000 16 3, v6_net 0xC000 16 3, v6_net 0xE000 16 4, v6_net 0xF000 16 5,
      v6_net 0xF800 16 6, v6_net 0xFE00 16 9]"

definition v6_mapped :: "nat \<Rightarrow> bool" where
  "v6_mapped n \<longleftrightarrow> n div 2 ^ 32 = 0xFFFF"

fun is_private :: "ip \<Rightarrow> bool" where
  "is_private (V4 n) = v4_is_private n"
| "is_private (V6 n _) =
     (if v6_mapped n then v4_is_private (n mod 2 ^ 32)
      else list_ex (in_net 128 n) v6_private_networks \<and>
           \<not> list_ex (in_net 128 n) v6_private_exceptions)"

fun is_global :: "ip \<Rightarrow> bool" where
  "is_global (V4 n) = (\<not> in_net 32 n v4_shared_network \<and> \<not> is_private (V4 n))"
| "is_global (V6 n sc) = (\<not> is_private (V6 n sc))"

fun is_multicast :: "ip \<Rightarrow> bool" where
  "is_multicast (V4 n) = in_net 32 n v4_multicast_network"
| "is_multicast (V6 n _) = in_net 128 n (v6_net 0xFF00 16 8)"

fun is_loopback :: "ip \<Rightarrow> bool" where
  "is_loopback (V4 n) = in_net 32 n (ipv4_of_octets 127 0 0 0, 8)"
| "is_loopback (V6 n _) = (n = 1)"

fun is_link_local :: "ip \<Rightarrow> bool" where
  "is_link_local (V4 n) = in_net 32 n (ipv4_of_octets 169 254 0 0, 16)"
| "is_link_local (V6 n _) = in_net 128 n (v6_net 0xFE80 16 10)"

fun is_reserved :: "ip \<Rightarrow> bool" where
  "is_reserved (V4 n) = in_net 32 n (ipv4_of_octets 240 0 0 0, 4)"
| "is_reserved (V6 n _) = list_ex (in_net 128 n) v6_reserved_networks"

fun is_unspecified :: "ip \<Rightarrow> bool" where
  "is_unspecified (V4 n) = (n = 0)"
| "is_unspecified (V6 n _) = (n = 0)"

fun is_ipv4 :: "ip \<Rightarrow> bool" where
  "is_ipv4 (V4 _) = True"
| "is_ipv4 (V6 _ _) = False"

section \<open>Dotted notation\<close>

lemma parse_octet_Some:
  "parse_octet s = Some k \<Longrightarrow> k < 256 \<and> nat_str k = s"
  using nat_str_nat_of_digits [of s]
  by (cases s) (auto simp: parse_octet_def split: if_splits)

lemma nat_str_length: "n < 1000 \<Longrightarrow> length (nat_str n) \<le> 3"
  by (subst nat_str.simps, subst nat_str.simps, subst nat_str.simps) auto

lemma parse_octet_nat_str [simp]: "k < 256 \<Longrightarrow> parse_octet (nat_str k) = Some k"
  using nat_str_digits [of k] nat_str_length [of k] nat_str_hd_zero [of k]
  by (auto simp: parse_octet_def nat_str_small digit_char_def)

lemma dot_not_digit: "\<not> is_digit dot"
  by (simp add: is_digit_def char_in_def)

lemma dot_notin_nat_str [simp]: "dot \<notin> set (nat_str n)"
  using nat_str_digits [of n] dot_not_digit by (metis list_all_iff)

lemma split_ipv4_str:
  "split_char dot (ipv4_str n) =
     [nat_str (n div 16777216), nat_str (n div 65536 mod 256), nat_str (n div 256 mod 256),
      nat_str (n mod 256)]"
  by (simp add: ipv4_str_def split_char_append split_char_no_sep)

lemma ipv4_octets_join:
  "n < 2 ^ 32 \<Longrightarrow>
   ipv4_of_octets (n div 16777216) (n div 65536 mod 256) (n div 256 mod 256) (n mod 256) = n"
proof -
  assume "n < 2 ^ 32"
  have a: "n div 16777216 = n div 65536 div 256" and b: "n div 65536 = n div 256 div 256"
    by (simp_all flip: div_mult2_eq)
  have "n div 65536 div 256 * 256 + n div 65536 mod 256 = n div 65536"
    and "n div 256 div 256 * 256 + n div 256 mod 256 = n div 256"
    and "n div 256 * 256 + n mod 256 = n"
    by simp_all
  then show ?thesis by (simp add: ipv4_of_octets_def a b)
qed

lemma ipv4_parse_str: "n < 2 ^ 32 \<Longrightarrow> ipv4_parse (ipv4_str n) = Some n"
  by (simp add: ipv4_parse_def split_ipv4_str ipv4_octets_join)

lemma octet_snoc: "d < 256 \<Longrightarrow> (m * 256 + d) div 256 = m \<and> (m * 256 + d) mod 256 = (d :: nat)"
  by simp

lemma ipv4_octets_split:
  assumes "a < 256" "b < 256" "c < 256" "d < 256"
  shows "ipv4_of_octets a b c d div 16777216 = a" "ipv4_of_octets a b c d div 65536 mod 256 = b"
    "ipv4_of_octets a b c d div 256 mod 256 = c" "ipv4_of_octets a b c d mod 256 = d"
    "ipv4_of_octets a b c d < 2 ^ 32"
proof -
  define m1 where "m1 = a * 256 + b"
  define m2 where "m2 = m1 * 256 + c"
  define n where "n = m2 * 256 + d"
  have n': "ipv4_of_octets a b c d = n"
    by (simp add: ipv4_of_octets_def n_def m2_def m1_def)
  have d1: "n div 256 = m2" "n mod 256 = d" using octet_snoc [OF assms(4)] by (auto simp: n_def)
  have d2: "m2 div 256 = m1" "m2 mod 256 = c" using octet_snoc [OF assms(3)] by (auto simp: m2_def)
  have d3: "m1 div 256 = a" "m1 mod 256 = b" using octet_snoc [OF assms(2)] by (auto simp: m1_def)
  have e: "n div 65536 = n div 256 div 256" "n div 16777216 = n div 256 div 256 div 256"
    by (simp_all flip: div_mult2_eq)
  show "ipv4_of_octets a b c d div 16777216 = a" "ipv4_of_octets a b c d div 65536 mod 256 = b"
    "ipv4_of_octets a b c d div 256 mod 256 = c" "ipv4_of_octets a b c d mod 256 = d"
    unfolding n' using d1 d2 d3 e by simp_all
  show "ipv4_of_octets a b c d < 2 ^ 32"
    using assms by (simp add: ipv4_of_octets_def)
qed

lemma ipv4_parse_Some:
  assumes "ipv4_parse s = Some n"
  shows "n < 2 ^ 32 \<and> ipv4_str n = s"
proof -
  from assms obtain a b c d where
    parts: "map parse_octet (split_char dot s) = [Some a, Some b, Some c, Some d]"
    and n: "n = ipv4_of_octets a b c d"
    by (auto simp: ipv4_parse_def split: list.splits option.splits)
  then obtain p q r t where split: "split_char dot s = [p, q, r, t]"
    and "parse_octet p = Some a" "parse_octet q = Some b" "parse_octet r = Some c"
      "parse_octet t = Some d"
    by (auto simp: map_eq_Cons_conv)
  then have oct: "a < 256" "b < 256" "c < 256" "d < 256"
    and str: "nat_str a = p" "nat_str b = q" "nat_str c = r" "nat_str d = t"
    by (auto dest: parse_octet_Some)
  have "ipv4_str n = join_char dot (split_char dot s)"
    by (simp add: ipv4_str_def split str n ipv4_octets_split [OF oct])
  then show ?thesis using ipv4_octets_split(5) [OF oct] by (simp add: join_split_char n)
qed

text \<open>An IPv4 address is accepted in its canonical form only, so comparing the text of an address
  with the text it was parsed from is comparing addresses.\<close>

lemma ip_address_V4: "ip_address s = Some (V4 n) \<Longrightarrow> n < 2 ^ 32 \<and> ip_str (V4 n) = s"
  by (auto simp: ip_address_def ipv6_parse_def split: option.splits prod.splits if_splits
      dest: ipv4_parse_Some)

section \<open>How the predicates overlap on IPv4\<close>

lemmas v4_nets =
  v4_is_private_def v4_private_networks_def v4_private_exceptions_def v4_shared_network_def
  v4_multicast_network_def in_net_def ipv4_of_octets_def

lemma v4_loopback_private: "is_loopback (V4 n) \<Longrightarrow> is_private (V4 n)"
  by (auto simp: v4_nets)

lemma v4_link_local_private: "is_link_local (V4 n) \<Longrightarrow> is_private (V4 n)"
  by (auto simp: v4_nets)

lemma v4_reserved_private: "is_reserved (V4 n) \<Longrightarrow> is_private (V4 n)"
  by (auto simp: v4_nets)

lemma v4_unspecified_private: "is_unspecified (V4 n) \<Longrightarrow> is_private (V4 n)"
  by (auto simp: v4_nets)

lemmas v4_overlap = v4_loopback_private v4_link_local_private v4_reserved_private
  v4_unspecified_private

end
