(* ===== verification/Targets.thy ===== *)
theory Targets
  imports Prelude Net_Address
begin

text \<open>
  The outbound policy, in its two copies: \<open>PublicTargetPolicy\<close> of the edge
  (\<open>edge_tunnel/targets.py\<close>), which decides what a tunnel may connect to, and \<open>PublicTargetPolicy\<close>
  of the control plane (\<open>cloudbrowser/local_tunnel.py\<close>), which decides what a ticket may be issued
  for. Both normalise the host, resolve it and require every answer to be public.

  The resolver is an argument: \<open>None\<close> is its \<open>OSError\<close>, an answer is its address family and
  address, \<open>None\<close> an entry without them. \<open>punycode\<close> stands for the IDNA conversion of a host that
  is not ASCII. \<open>af_inet6\<close> is the platform's constant. The argument checks \<open>isinstance(port, bool)\<close>
  and \<open>isinstance(host, str)\<close> cannot fire on the types of the ticket's fields.

  The locale \<open>answer_vetting\<close> is the contract of the vetting loop both policies run; the two
  interpretations instantiate it with each policy's own test of an answer.
\<close>

section \<open>Host names\<close>

definition idna_ascii :: "string \<Rightarrow> string option" where
  "idna_ascii s =
     (let labels = split_char dot s in
      if s = [] then Some []
      else if \<not> list_all (\<lambda>l. 0 < length l \<and> length l < 64) (butlast labels) then None
      else if 64 \<le> length (last labels) then None
      else Some s)"

definition idna_encode :: "(string \<Rightarrow> string option) \<Rightarrow> string \<Rightarrow> string option" where
  "idna_encode punycode s = (if is_ascii s then idna_ascii s else punycode s)"

definition host_char :: "char \<Rightarrow> bool" where
  "host_char c \<longleftrightarrow> is_lower c \<or> is_digit c"

definition label_ok :: "string \<Rightarrow> bool" where
  "label_ok l \<longleftrightarrow>
     l \<noteq> [] \<and> length l \<le> 63 \<and> host_char (hd l) \<and> host_char (last l) \<and>
     list_all (\<lambda>c. host_char c \<or> c = CHR ''-'') l"

definition host_re :: "string \<Rightarrow> bool" where
  "host_re s \<longleftrightarrow> 1 \<le> length s \<and> length s \<le> 253 \<and> list_all label_ok (split_char dot s)"

definition normalize_host :: "string \<Rightarrow> string" where
  "normalize_host host = lower_str (rstrip_char dot host)"

definition local_host :: "string \<Rightarrow> bool" where
  "local_host h \<longleftrightarrow> h = [] \<or> h = ''localhost'' \<or> endswith h ''.localhost''"

section \<open>Vetting resolver answers\<close>

type_synonym answer = "(int \<times> string) option"
type_synonym resolver = "string \<Rightarrow> int \<Rightarrow> answer list option"

text \<open>The loop over the answers: an answer that fails raises, one that passes is appended unless
  it is already there.\<close>

fun vet_answers :: "('a \<Rightarrow> 'e + 'p) \<Rightarrow> 'p list \<Rightarrow> 'a list \<Rightarrow> 'e + 'p list" where
  "vet_answers check vetted [] = Inr vetted"
| "vet_answers check vetted (x # xs) =
     (case check x of
        Inl e \<Rightarrow> Inl e
      | Inr p \<Rightarrow> vet_answers check (if p \<in> set vetted then vetted else vetted @ [p]) xs)"

record resolved_target =
  rt_host :: string
  rt_port :: int
  rt_address :: string
  rt_family :: int

abbreviation (input) AF_INET :: int where
  "AF_INET \<equiv> 2"

section \<open>The edge policy\<close>

datatype target_denied =
    Port_denied
  | Local_hostname
  | Invalid_hostname
  | Resolution_failed
  | No_addresses
  | Invalid_address
  | Blocked_network

definition edge_public :: "ip \<Rightarrow> bool" where
  "edge_public a \<longleftrightarrow> is_global a \<and> \<not> is_multicast a"

definition edge_check_answer :: "int \<Rightarrow> answer \<Rightarrow> target_denied + (int \<times> string)" where
  "edge_check_answer af_inet6 entry =
     (case entry of
        None \<Rightarrow> Inl Invalid_address
      | Some (family, address) \<Rightarrow>
          (case ip_address address of
             None \<Rightarrow> Inl Invalid_address
           | Some parsed \<Rightarrow>
               if family \<noteq> (if ip_version parsed = 4 then AF_INET else af_inet6) \<or> \<not> edge_public parsed
               then Inl Blocked_network
               else Inr (family, ip_str parsed)))"

definition edge_resolve ::
  "(string \<Rightarrow> string option) \<Rightarrow> int \<Rightarrow> resolver \<Rightarrow> string \<Rightarrow> int \<Rightarrow> target_denied + resolved_target" where
  "edge_resolve punycode af_inet6 resolver host port =
     (let normalized = normalize_host host in
      if port \<notin> {80, 443} then Inl Port_denied
      else if local_host normalized then Inl Local_hostname
      else
        (case idna_encode punycode normalized of
           None \<Rightarrow> Inl Invalid_hostname
         | Some ascii_host \<Rightarrow>
             if \<not> host_re ascii_host \<and> ipv6_parse ascii_host = None then Inl Invalid_hostname
             else
               (case resolver ascii_host port of
                  None \<Rightarrow> Inl Resolution_failed
                | Some [] \<Rightarrow> Inl No_addresses
                | Some answers \<Rightarrow>
                    (case vet_answers (edge_check_answer af_inet6) [] answers of
                       Inl e \<Rightarrow> Inl e
                     | Inr vetted \<Rightarrow>
                         Inr \<lparr>rt_host = ascii_host, rt_port = port, rt_address = snd (hd vetted),
                              rt_family = fst (hd vetted)\<rparr>))))"

section \<open>The control plane policy\<close>

text \<open>\<open>Uncaught_value_error\<close> is the \<open>ValueError\<close> or \<open>IndexError\<close> this copy does not convert.\<close>

datatype tunnel_denied =
    Tunnel_port_denied
  | Tunnel_local_target
  | Tunnel_invalid_hostname
  | Tunnel_resolution_failed
  | Tunnel_no_addresses
  | Tunnel_blocked_network
  | Uncaught_value_error

definition control_public :: "ip \<Rightarrow> bool" where
  "control_public a \<longleftrightarrow>
     \<not> (is_private a \<or> is_loopback a \<or> is_link_local a \<or> is_multicast a \<or> is_reserved a \<or>
        is_unspecified a)"

definition control_check_answer :: "int \<Rightarrow> answer \<Rightarrow> tunnel_denied + (int \<times> string)" where
  "control_check_answer af_inet6 entry =
     (case entry of
        None \<Rightarrow> Inl Uncaught_value_error
      | Some (family, address) \<Rightarrow>
          if family \<notin> {AF_INET, af_inet6} then Inl Tunnel_blocked_network
          else
            (case ip_address address of
               None \<Rightarrow> Inl Uncaught_value_error
             | Some parsed \<Rightarrow>
                 if control_public parsed then Inr (family, address) else Inl Tunnel_blocked_network))"

definition control_resolve ::
  "(string \<Rightarrow> string option) \<Rightarrow> int \<Rightarrow> int list \<Rightarrow> resolver \<Rightarrow> string \<Rightarrow> int \<Rightarrow>
   tunnel_denied + resolved_target" where
  "control_resolve punycode af_inet6 allowed_ports resolver host port =
     (let normalized = normalize_host host in
      if port \<notin> set allowed_ports then Inl Tunnel_port_denied
      else if local_host normalized then Inl Tunnel_local_target
      else
        (case idna_encode punycode normalized of
           None \<Rightarrow> Inl Tunnel_invalid_hostname
         | Some ascii_host \<Rightarrow>
             (case resolver ascii_host port of
                None \<Rightarrow> Inl Tunnel_resolution_failed
              | Some [] \<Rightarrow> Inl Tunnel_no_addresses
              | Some answers \<Rightarrow>
                  (case vet_answers (control_check_answer af_inet6) [] answers of
                     Inl e \<Rightarrow> Inl e
                   | Inr vetted \<Rightarrow>
                       Inr \<lparr>rt_host = ascii_host, rt_port = port, rt_address = snd (hd vetted),
                            rt_family = fst (hd vetted)\<rparr>))))"

section \<open>The contract of the vetting loop\<close>

locale answer_vetting =
  fixes check :: "'a \<Rightarrow> 'e + 'p"
    and good :: "'a \<Rightarrow> 'p \<Rightarrow> bool"
  assumes check_good: "check x = Inr p \<Longrightarrow> good x p"
begin

lemma vet_all_good:
  "vet_answers check vetted xs = Inr out \<Longrightarrow> x \<in> set xs \<Longrightarrow> \<exists>p. check x = Inr p \<and> good x p"
  by (induction xs arbitrary: vetted) (auto split: sum.splits dest: check_good)

lemma vet_prefix:
  "vet_answers check vetted xs = Inr out \<Longrightarrow> \<exists>more. out = vetted @ more"
  by (induction xs arbitrary: vetted) (fastforce split: sum.splits if_splits)+

lemma vet_first:
  assumes "vet_answers check [] (x # xs) = Inr out"
  shows "out \<noteq> [] \<and> check x = Inr (hd out)"
proof -
  from assms obtain p where p: "check x = Inr p" and "vet_answers check [p] xs = Inr out"
    by (auto split: sum.splits)
  with vet_prefix [of "[p]" xs out] show ?thesis by auto
qed

text \<open>One answer that fails the test fails the whole request.\<close>

lemma vet_fails_closed:
  "x \<in> set xs \<Longrightarrow> check x = Inl e \<Longrightarrow> \<exists>e'. vet_answers check vetted xs = Inl e'"
  by (cases "vet_answers check vetted xs") (auto dest: vet_all_good)

end

definition edge_answer_good :: "answer \<Rightarrow> int \<times> string \<Rightarrow> bool" where
  "edge_answer_good x p \<longleftrightarrow>
     (\<exists>f addr a. x = Some (f, addr) \<and> ip_address addr = Some a \<and> is_global a \<and> \<not> is_multicast a \<and>
       p = (f, ip_str a))"

definition control_answer_good :: "answer \<Rightarrow> int \<times> string \<Rightarrow> bool" where
  "control_answer_good x p \<longleftrightarrow>
     (\<exists>f addr a. x = Some (f, addr) \<and> ip_address addr = Some a \<and> control_public a \<and> p = (f, addr))"

interpretation edge_vet: answer_vetting "edge_check_answer af_inet6" edge_answer_good for af_inet6
  by unfold_locales
    (auto simp: edge_check_answer_def edge_answer_good_def edge_public_def
      split: option.splits if_splits)

interpretation control_vet: answer_vetting "control_check_answer af_inet6" control_answer_good for af_inet6
  by unfold_locales
    (auto simp: control_check_answer_def control_answer_good_def split: option.splits if_splits)

section \<open>Properties\<close>

lemma edge_resolve_cases:
  assumes "edge_resolve punycode af_inet6 resolver host port = Inr t"
  obtains ascii_host x xs vetted where
    "port \<in> {80, 443}" "\<not> local_host (normalize_host host)"
    "idna_encode punycode (normalize_host host) = Some ascii_host"
    "resolver ascii_host port = Some (x # xs)"
    "vet_answers (edge_check_answer af_inet6) [] (x # xs) = Inr vetted"
    "t = \<lparr>rt_host = ascii_host, rt_port = port, rt_address = snd (hd vetted), rt_family = fst (hd vetted)\<rparr>"
  using assms
  by (auto simp: edge_resolve_def Let_def split: if_splits option.splits list.splits sum.splits)

lemma edge_resolve_first_public:
  assumes "edge_resolve punycode af_inet6 resolver host port = Inr t"
  shows "rt_port t = port \<and> (\<exists>a addr. ip_address addr = Some a \<and> edge_public a \<and> rt_address t = ip_str a)"
  using assms
proof (rule edge_resolve_cases)
  fix h x xs vetted
  assume v: "vet_answers (edge_check_answer af_inet6) [] (x # xs) = Inr vetted"
    and t: "t = \<lparr>rt_host = h, rt_port = port, rt_address = snd (hd vetted), rt_family = fst (hd vetted)\<rparr>"
  from edge_vet.vet_first [OF v] have "edge_answer_good x (hd vetted)"
    by (auto dest: edge_vet.check_good)
  with t show ?thesis by (auto simp: edge_answer_good_def edge_public_def)
qed

lemma control_resolve_cases:
  assumes "control_resolve punycode af_inet6 ports resolver host port = Inr t"
  obtains ascii_host x xs vetted where
    "port \<in> set ports" "\<not> local_host (normalize_host host)"
    "idna_encode punycode (normalize_host host) = Some ascii_host"
    "resolver ascii_host port = Some (x # xs)"
    "vet_answers (control_check_answer af_inet6) [] (x # xs) = Inr vetted"
    "t = \<lparr>rt_host = ascii_host, rt_port = port, rt_address = snd (hd vetted), rt_family = fst (hd vetted)\<rparr>"
  using assms
  by (auto simp: control_resolve_def Let_def split: if_splits option.splits list.splits sum.splits)

text \<open>A target the edge policy releases is on port 80 or 443, its host is not a local name, the
  address handed to the connector is a global unicast address, the first the resolver gave, and
  every address the resolver gave is global and not multicast: one private answer denies the
  target.\<close>

theorem edge_resolve_public:
  assumes "edge_resolve punycode af_inet6 resolver host port = Inr t"
  shows "rt_port t = port \<and> port \<in> {80, 443} \<and> \<not> local_host (normalize_host host) \<and>
    (\<exists>answers. resolver (rt_host t) port = Some answers \<and>
       (\<exists>f addr a. hd answers = Some (f, addr) \<and> ip_address addr = Some a \<and> edge_public a \<and>
          rt_address t = ip_str a \<and> rt_family t = f) \<and>
       (\<forall>x \<in> set answers. \<exists>f addr a. x = Some (f, addr) \<and> ip_address addr = Some a \<and> edge_public a))"
proof -
  from assms obtain h x xs vetted where r:
    "port \<in> {80, 443}" "\<not> local_host (normalize_host host)" "resolver h port = Some (x # xs)"
    "vet_answers (edge_check_answer af_inet6) [] (x # xs) = Inr vetted"
    "t = \<lparr>rt_host = h, rt_port = port, rt_address = snd (hd vetted), rt_family = fst (hd vetted)\<rparr>"
    by (rule edge_resolve_cases)
  have all: "\<exists>f addr a. y = Some (f, addr) \<and> ip_address addr = Some a \<and> edge_public a"
    if "y \<in> set (x # xs)" for y
    using edge_vet.vet_all_good [OF r(4) that] by (auto simp: edge_answer_good_def edge_public_def)
  from edge_vet.vet_first [OF r(4)] have "edge_answer_good x (hd vetted)"
    by (auto dest: edge_vet.check_good)
  then have "\<exists>f addr a. x = Some (f, addr) \<and> ip_address addr = Some a \<and> edge_public a \<and>
      rt_address t = ip_str a \<and> rt_family t = f"
    using r(5) by (auto simp: edge_answer_good_def edge_public_def)
  with all r show ?thesis by auto
qed

lemma parse_8888: "ip_address ''8.8.8.8'' = Some (V4 134744072)"
  by (simp add: ip_address_def ipv4_parse_def parse_octet_def is_digit_def char_in_def
      nat_of_digits_def digit_val_def ipv4_of_octets_def)

lemma public_8888: "edge_public (V4 134744072)" "control_public (V4 134744072)"
  by (simp_all add: edge_public_def control_public_def v4_nets)

lemma str_8888: "ip_str (V4 134744072) = ''8.8.8.8''"
  by (simp add: ipv4_str_def nat_str_small digit_char_def char_of_eq_iff take_bit_eq_mod)

lemma example_host:
  "normalize_host ''Example.COM.'' = ''example.com''" "host_re ''example.com''"
  "idna_encode p ''example.com'' = Some ''example.com''" "\<not> local_host ''example.com''"
  by (simp_all add: normalize_host_def rstrip_char_def lower_str_def lower_char_def is_upper_def
      is_lower_def is_digit_def char_in_def host_re_def label_ok_def host_char_def idna_encode_def
      is_ascii_def idna_ascii_def local_host_def endswith_def char_of_eq_iff take_bit_eq_mod)

theorem edge_resolve_public_witness:
  "edge_resolve (\<lambda>_. None) 10 (\<lambda>_ _. Some [Some (2, ''8.8.8.8''), Some (2, ''8.8.8.8'')]) ''Example.COM.'' 443 =
     Inr \<lparr>rt_host = ''example.com'', rt_port = 443, rt_address = ''8.8.8.8'', rt_family = 2\<rparr> \<and>
   (\<exists>a. ip_address ''8.8.8.8'' = Some a \<and> edge_public a)"
proof -
  have r: "edge_resolve (\<lambda>_. None) 10 (\<lambda>_ _. Some [Some (2, ''8.8.8.8''), Some (2, ''8.8.8.8'')]) ''Example.COM.'' 443 =
     Inr \<lparr>rt_host = ''example.com'', rt_port = 443, rt_address = ''8.8.8.8'', rt_family = 2\<rparr>"
    by (simp add: edge_resolve_def example_host edge_check_answer_def parse_8888 public_8888 str_8888
        del: ip_str.simps)
  with edge_resolve_public [OF r] show ?thesis by auto
qed

text \<open>The two copies of the policy agree on IPv4 except on the shared address space
  100.64.0.0/10: an IPv4 address is public for the edge exactly when it is public for the control
  plane and lies outside that block.\<close>

theorem policies_agree_on_ipv4:
  "edge_public (V4 n) \<longleftrightarrow> control_public (V4 n) \<and> \<not> in_net 32 n v4_shared_network"
  using v4_overlap [of n] unfolding edge_public_def control_public_def is_global.simps by blast

text \<open>The policies do disagree: the control plane releases a name that resolves into the shared
  address space of carrier networks, which the edge then refuses to connect to; the edge releases
  an IPv4-mapped address of that space, which the control plane refuses.\<close>

theorem policies_diverge:
  "control_public (V4 (ipv4_of_octets 100 64 0 1)) \<and> \<not> edge_public (V4 (ipv4_of_octets 100 64 0 1)) \<and>
   edge_public (V6 (0xFFFF * 2 ^ 32 + ipv4_of_octets 100 64 0 1) None) \<and>
   \<not> control_public (V6 (0xFFFF * 2 ^ 32 + ipv4_of_octets 100 64 0 1) None)"
  by (simp add: edge_public_def control_public_def v4_nets v6_mapped_def v6_net_def
      v6_reserved_networks_def)

end
