(* ===== verification/Edge_Config.thy ===== *)
theory Edge_Config
  imports Prelude Json
begin

text \<open>
  Configuration of the edge (\<open>edge_tunnel/config.py\<close>): the \<open>Settings\<close> read from the environment
  or from a JSON file, and the limits both are held to. The Windows loader, which checks the access
  to the file before it reads it, is in \<open>Windows_Acl\<close>.

  A \<open>RuntimeError\<close> is \<open>Config_error\<close> with its message; \<open>Overflow_error\<close> is what
  \<open>math.isfinite\<close> raises on an integer no float can hold. Arguments of the definitions: the
  conversion of a decimal numeral to a float and the JSON scanner (its tree has every member of an
  object in source order, and is \<open>None\<close> on a syntax error or on NaN and the infinities).
\<close>

datatype config_error = Config_error string | Overflow_error

section \<open>Settings\<close>

record settings =
  set_node_id :: string
  set_ticket_secret :: string
  set_max_connections :: int
  set_max_frame_bytes :: int
  set_max_bytes_per_connection :: int
  set_idle_timeout :: pyfloat
  set_max_connection_seconds :: pyfloat
  set_connect_timeout :: pyfloat
  set_ticket_max_ttl :: int

definition FIELDS :: "string list" where
  "FIELDS =
     [''schema_version'', ''node_id'', ''ticket_secret'', ''max_connections'', ''max_frame_bytes'',
      ''max_bytes_per_connection'', ''idle_timeout'', ''max_connection_seconds'',
      ''connect_timeout'', ''ticket_max_ttl'']"

definition INTEGER_LIMITS :: "(string \<times> int) list" where
  "INTEGER_LIMITS =
     [(''max_connections'', 65535), (''max_frame_bytes'', 64 * 1024 * 1024),
      (''max_bytes_per_connection'', 1024 ^ 4), (''ticket_max_ttl'', 300)]"

definition FLOAT_LIMITS :: "(string \<times> int) list" where
  "FLOAT_LIMITS =
     [(''idle_timeout'', 3600), (''max_connection_seconds'', 32400), (''connect_timeout'', 120)]"

definition node_id_char :: "char \<Rightarrow> bool" where
  "node_id_char c \<longleftrightarrow> is_alnum c \<or> c = CHR ''.'' \<or> c = CHR ''_'' \<or> c = CHR ''-''"

definition node_id_re :: "string \<Rightarrow> bool" where
  "node_id_re s \<longleftrightarrow> 1 \<le> length s \<and> length s \<le> 64 \<and> list_all node_id_char s"

definition validate_identity :: "json \<Rightarrow> string \<Rightarrow> bool \<Rightarrow> config_error + unit" where
  "validate_identity node secret env =
     (if \<not> (case node of JStr s \<Rightarrow> node_id_re s | _ \<Rightarrow> False)
      then Inl (Config_error (if env then ''EDGE_NODE_ID is missing or unsafe''
                              else ''invalid config field: node_id''))
      else if length secret < 32
      then Inl (Config_error (if env then ''EDGE_TICKET_SECRET must be at least 32 bytes''
                              else ''invalid config field: ticket_secret''))
      else Inr ())"

fun float_in :: "int \<Rightarrow> pyfloat \<Rightarrow> bool" where
  "float_in maximum (Fin q) = (\<not> (q \<le> 0 \<or> q > of_int maximum))"
| "float_in maximum _ = False"

definition int_in :: "int \<Rightarrow> int \<Rightarrow> bool" where
  "int_in maximum i \<longleftrightarrow> \<not> (i \<le> 0 \<or> i > maximum)"

definition validate_limits :: "settings \<Rightarrow> config_error + unit" where
  "validate_limits s =
     (if \<not> int_in 65535 (set_max_connections s) \<or>
         \<not> int_in (64 * 1024 * 1024) (set_max_frame_bytes s) \<or>
         \<not> int_in (1024 ^ 4) (set_max_bytes_per_connection s) \<or>
         \<not> int_in 300 (set_ticket_max_ttl s) \<or>
         \<not> float_in 3600 (set_idle_timeout s) \<or>
         \<not> float_in 32400 (set_max_connection_seconds s) \<or>
         \<not> float_in 120 (set_connect_timeout s)
      then Inl (Config_error ''invalid edge configuration limit'')
      else Inr ())"

subsection \<open>From the environment\<close>

definition getenv :: "(string \<Rightarrow> string option) \<Rightarrow> string \<Rightarrow> string \<Rightarrow> string" where
  "getenv env name dflt = (case env name of None \<Rightarrow> dflt | Some v \<Rightarrow> v)"

definition settings_from_env ::
  "(string \<Rightarrow> pyfloat option) \<Rightarrow> (string \<Rightarrow> string option) \<Rightarrow> config_error + settings" where
  "settings_from_env float_of_str env =
     (let secret = utf8_encode (getenv env ''EDGE_TICKET_SECRET'' []);
          node = getenv env ''EDGE_NODE_ID'' []
      in case validate_identity (JStr node) secret True of
           Inl e \<Rightarrow> Inl e
         | Inr _ \<Rightarrow>
             (case (int_of_str (getenv env ''EDGE_MAX_CONNECTIONS'' ''64''),
                    int_of_str (getenv env ''EDGE_MAX_FRAME_BYTES'' ''1048576''),
                    int_of_str (getenv env ''EDGE_MAX_BYTES'' ''67108864''),
                    float_of_str (getenv env ''EDGE_IDLE_TIMEOUT'' ''60''),
                    float_of_str (getenv env ''EDGE_MAX_DURATION'' ''600''),
                    float_of_str (getenv env ''EDGE_CONNECT_TIMEOUT'' ''10''),
                    int_of_str (getenv env ''EDGE_TICKET_MAX_TTL'' ''60'')) of
                (Some mc, Some mf, Some mb, Some it, Some md, Some ct, Some ttl) \<Rightarrow>
                  (let s = \<lparr>set_node_id = node, set_ticket_secret = secret, set_max_connections = mc,
                            set_max_frame_bytes = mf, set_max_bytes_per_connection = mb,
                            set_idle_timeout = it, set_max_connection_seconds = md,
                            set_connect_timeout = ct, set_ticket_max_ttl = ttl\<rparr>
                   in case validate_limits s of Inl e \<Rightarrow> Inl e | Inr _ \<Rightarrow> Inr s)
              | _ \<Rightarrow> Inl (Config_error ''invalid edge configuration value'')))"

subsection \<open>From a JSON file\<close>

text \<open>An integer that rounds to no finite double.\<close>

definition float_overflows :: "int \<Rightarrow> bool" where
  "float_overflows i \<longleftrightarrow> \<bar>i\<bar> \<ge> 2 ^ 1024 - 2 ^ 970"

definition member :: "(string \<times> json) list \<Rightarrow> string \<Rightarrow> json" where
  "member data k = (case map_of data k of None \<Rightarrow> JNull | Some v \<Rightarrow> v)"

definition int_field_ok :: "(string \<times> json) list \<Rightarrow> string \<times> int \<Rightarrow> bool" where
  "int_field_ok data fl =
     (case member data (fst fl) of JInt i \<Rightarrow> int_in (snd fl) i | _ \<Rightarrow> False)"

text \<open>The test of one float field; \<open>None\<close> is the overflow.\<close>

definition float_field_ok :: "(string \<times> json) list \<Rightarrow> string \<times> int \<Rightarrow> bool option" where
  "float_field_ok data fl =
     (case member data (fst fl) of
        JInt i \<Rightarrow> if float_overflows i then None else Some (int_in (snd fl) i)
      | JFloat q \<Rightarrow> Some (float_in (snd fl) q)
      | _ \<Rightarrow> Some False)"

fun check_float_fields :: "(string \<times> json) list \<Rightarrow> (string \<times> int) list \<Rightarrow> config_error + unit" where
  "check_float_fields data [] = Inr ()"
| "check_float_fields data (fl # fls) =
     (case float_field_ok data fl of
        None \<Rightarrow> Inl Overflow_error
      | Some ok \<Rightarrow>
          if ok then check_float_fields data fls
          else Inl (Config_error (''invalid config field: '' @ fst fl)))"

fun to_float :: "json \<Rightarrow> pyfloat" where
  "to_float (JInt i) = Fin (of_int i)"
| "to_float (JFloat q) = q"
| "to_float _ = NaN"

fun to_int :: "json \<Rightarrow> int" where
  "to_int (JInt i) = i"
| "to_int _ = 0"

fun to_str :: "json \<Rightarrow> string" where
  "to_str (JStr s) = s"
| "to_str _ = []"

fun is_str :: "json \<Rightarrow> bool" where
  "is_str (JStr _) = True"
| "is_str _ = False"

definition settings_from_mapping :: "(string \<times> json) list \<Rightarrow> config_error + settings" where
  "settings_from_mapping data =
     (let get = member data;
          unknown = filter (\<lambda>k. k \<notin> set FIELDS) (map fst data);
          missing = filter (\<lambda>k. k \<notin> fst ` set data) FIELDS
      in
      if unknown \<noteq> [] then Inl (Config_error (''unknown config field: '' @ hd (sort unknown)))
      else if missing \<noteq> [] then Inl (Config_error (''missing config field: '' @ hd (sort missing)))
      else if get ''schema_version'' \<noteq> JInt 1
      then Inl (Config_error ''invalid config field: schema_version'')
      else
        (case find (\<lambda>fl. \<not> int_field_ok data fl) INTEGER_LIMITS of
           Some fl \<Rightarrow> Inl (Config_error (''invalid config field: '' @ fst fl))
         | None \<Rightarrow>
             (case check_float_fields data FLOAT_LIMITS of
                Inl e \<Rightarrow> Inl e
              | Inr _ \<Rightarrow>
                  if \<not> is_str (get ''ticket_secret'')
                  then Inl (Config_error ''invalid config field: ticket_secret'')
                  else
                    (let secret = utf8_encode (to_str (get ''ticket_secret'')) in
                     case validate_identity (get ''node_id'') secret False of
                       Inl e \<Rightarrow> Inl e
                     | Inr _ \<Rightarrow>
                         Inr \<lparr>set_node_id = to_str (get ''node_id''), set_ticket_secret = secret,
                              set_max_connections = to_int (get ''max_connections''),
                              set_max_frame_bytes = to_int (get ''max_frame_bytes''),
                              set_max_bytes_per_connection = to_int (get ''max_bytes_per_connection''),
                              set_idle_timeout = to_float (get ''idle_timeout''),
                              set_max_connection_seconds = to_float (get ''max_connection_seconds''),
                              set_connect_timeout = to_float (get ''connect_timeout''),
                              set_ticket_max_ttl = to_int (get ''ticket_max_ttl'')\<rparr>))))"

text \<open>The hook on the members of one object.\<close>

fun pairs_hook :: "(string \<times> json) list \<Rightarrow> (string \<times> json) list \<Rightarrow> config_error + (string \<times> json) list" where
  "pairs_hook result [] = Inr result"
| "pairs_hook result ((k, v) # items) =
     (if k \<in> fst ` set result then Inl (Config_error (''duplicate config field: '' @ k))
      else pairs_hook (result @ [(k, v)]) items)"

text \<open>The decoder calls the hook on each object when its closing brace is read: inner objects
  first, in source order.\<close>

fun decode_tree :: "json \<Rightarrow> config_error + json"
  and decode_items :: "json list \<Rightarrow> config_error + json list"
  and decode_members :: "(string \<times> json) list \<Rightarrow> config_error + (string \<times> json) list" where
  "decode_tree (JObj ms) =
     (case decode_members ms of
        Inl e \<Rightarrow> Inl e
      | Inr ms' \<Rightarrow> (case pairs_hook [] ms' of Inl e \<Rightarrow> Inl e | Inr r \<Rightarrow> Inr (JObj r)))"
| "decode_tree (JArr xs) = (case decode_items xs of Inl e \<Rightarrow> Inl e | Inr xs' \<Rightarrow> Inr (JArr xs'))"
| "decode_tree j = Inr j"
| "decode_items [] = Inr []"
| "decode_items (x # xs) =
     (case decode_tree x of
        Inl e \<Rightarrow> Inl e
      | Inr x' \<Rightarrow> (case decode_items xs of Inl e \<Rightarrow> Inl e | Inr xs' \<Rightarrow> Inr (x' # xs')))"
| "decode_members [] = Inr []"
| "decode_members ((k, v) # ms) =
     (case decode_tree v of
        Inl e \<Rightarrow> Inl e
      | Inr v' \<Rightarrow> (case decode_members ms of Inl e \<Rightarrow> Inl e | Inr ms' \<Rightarrow> Inr ((k, v') # ms')))"

definition parse_json :: "(string \<Rightarrow> json option) \<Rightarrow> string \<Rightarrow> config_error + (string \<times> json) list" where
  "parse_json scan raw =
     (case scan raw of
        None \<Rightarrow> Inl (Config_error ''invalid JSON config'')
      | Some tree \<Rightarrow>
          (case decode_tree tree of
             Inl e \<Rightarrow> Inl e
           | Inr (JObj data) \<Rightarrow> Inr data
           | Inr _ \<Rightarrow> Inl (Config_error ''config root must be an object'')))"

section \<open>What every accepted configuration satisfies\<close>

definition settings_ok :: "settings \<Rightarrow> bool" where
  "settings_ok s \<longleftrightarrow>
     node_id_re (set_node_id s) \<and> 32 \<le> length (set_ticket_secret s) \<and>
     0 < set_max_connections s \<and> set_max_connections s \<le> 65535 \<and>
     0 < set_max_frame_bytes s \<and> set_max_frame_bytes s \<le> 67108864 \<and>
     0 < set_max_bytes_per_connection s \<and> set_max_bytes_per_connection s \<le> 1099511627776 \<and>
     0 < set_ticket_max_ttl s \<and> set_ticket_max_ttl s \<le> 300 \<and>
     (\<exists>idle dur conn. set_idle_timeout s = Fin idle \<and> 0 < idle \<and> idle \<le> 3600 \<and>
        set_max_connection_seconds s = Fin dur \<and> 0 < dur \<and> dur \<le> 32400 \<and>
        set_connect_timeout s = Fin conn \<and> 0 < conn \<and> conn \<le> 120)"

lemma float_in_iff: "float_in m q \<longleftrightarrow> (\<exists>r. q = Fin r \<and> 0 < r \<and> r \<le> of_int m)"
  by (cases q) auto

lemma validate_identity_ok:
  "validate_identity node secret env = Inr u \<Longrightarrow> \<exists>s. node = JStr s \<and> node_id_re s \<and> 32 \<le> length secret"
  by (auto simp: validate_identity_def split: if_splits json.splits)

lemma validate_limits_ok:
  "validate_limits s = Inr u \<Longrightarrow> node_id_re (set_node_id s) \<Longrightarrow> 32 \<le> length (set_ticket_secret s) \<Longrightarrow>
   settings_ok s"
  by (auto simp: validate_limits_def settings_ok_def int_in_def float_in_iff split: if_splits)

lemma settings_from_env_ok:
  "settings_from_env float_of_str env = Inr s \<Longrightarrow> settings_ok s"
  by (auto simp: settings_from_env_def Let_def split: sum.splits option.splits
      intro!: validate_limits_ok dest!: validate_identity_ok)

lemma int_field_ok_iff:
  "int_field_ok data (k, m) \<longleftrightarrow> (\<exists>i. member data k = JInt i \<and> 0 < i \<and> i \<le> m)"
  by (auto simp: int_field_ok_def int_in_def split: json.splits)

lemma float_field_ok_float:
  "float_field_ok data (k, m) = Some True \<Longrightarrow>
   \<exists>r. to_float (member data k) = Fin r \<and> 0 < r \<and> r \<le> of_int m"
  by (auto simp: float_field_ok_def int_in_def float_in_iff split: json.splits if_splits)

lemma check_float_fields_ok:
  "check_float_fields data fls = Inr u \<Longrightarrow> fl \<in> set fls \<Longrightarrow> float_field_ok data fl = Some True"
  by (induction fls) (auto split: option.splits if_splits)

lemma settings_from_mapping_ok:
  assumes "settings_from_mapping data = Inr s"
  shows "settings_ok s"
proof -
  from assms have ints: "\<forall>fl \<in> set INTEGER_LIMITS. int_field_ok data fl"
    and fl: "check_float_fields data FLOAT_LIMITS = Inr ()"
    and id: "validate_identity (member data ''node_id'') (utf8_encode (to_str (member data ''ticket_secret''))) False = Inr ()"
    and s: "s = \<lparr>set_node_id = to_str (member data ''node_id''),
              set_ticket_secret = utf8_encode (to_str (member data ''ticket_secret'')),
              set_max_connections = to_int (member data ''max_connections''),
              set_max_frame_bytes = to_int (member data ''max_frame_bytes''),
              set_max_bytes_per_connection = to_int (member data ''max_bytes_per_connection''),
              set_idle_timeout = to_float (member data ''idle_timeout''),
              set_max_connection_seconds = to_float (member data ''max_connection_seconds''),
              set_connect_timeout = to_float (member data ''connect_timeout''),
              set_ticket_max_ttl = to_int (member data ''ticket_max_ttl'')\<rparr>"
    by (auto simp: settings_from_mapping_def Let_def find_None_iff split: if_splits option.splits sum.splits)
  have f: "float_field_ok data (''idle_timeout'', 3600) = Some True"
    "float_field_ok data (''max_connection_seconds'', 32400) = Some True"
    "float_field_ok data (''connect_timeout'', 120) = Some True"
    using check_float_fields_ok [OF fl] by (auto simp: FLOAT_LIMITS_def)
  from f [THEN float_field_ok_float] ints validate_identity_ok [OF id] show ?thesis
    unfolding settings_ok_def s by (auto simp: INTEGER_LIMITS_def int_field_ok_iff)
qed

lemma pairs_hook_ok:
  "pairs_hook result items = Inr out \<Longrightarrow> distinct (map fst result) \<Longrightarrow>
   out = result @ items \<and> distinct (map fst (result @ items))"
proof (induction result items rule: pairs_hook.induct)
  case (1 result)
  then show ?case by simp
next
  case (2 result k v items)
  from "2.prems" have new: "k \<notin> fst ` set result"
    and rest: "pairs_hook (result @ [(k, v)]) items = Inr out"
    by (simp_all split: if_splits)
  from new "2.prems"(2) have "distinct (map fst (result @ [(k, v)]))" by simp
  from "2.IH" [OF new rest this] show ?case by simp
qed

lemma decode_members_keys: "decode_members ms = Inr ms' \<Longrightarrow> map fst ms' = map fst ms"
  by (induction ms arbitrary: ms') (auto split: sum.splits)

lemma parse_json_keys:
  assumes "parse_json scan raw = Inr data"
  obtains ms where "scan raw = Some (JObj ms)" "map fst ms = map fst data" "distinct (map fst data)"
proof -
  from assms obtain tree where t: "scan raw = Some tree" "decode_tree tree = Inr (JObj data)"
    by (auto simp: parse_json_def split: option.splits sum.splits json.splits)
  then obtain ms ms' where m: "tree = JObj ms" "decode_members ms = Inr ms'" "pairs_hook [] ms' = Inr data"
    by (cases tree) (auto split: sum.splits)
  from pairs_hook_ok [OF m(3)] decode_members_keys [OF m(2)] t m(1) that show ?thesis by simp
qed

lemma settings_from_mapping_keys:
  assumes "settings_from_mapping data = Inr s"
  shows "fst ` set data = set FIELDS"
proof -
  from assms have "filter (\<lambda>k. k \<notin> set FIELDS) (map fst data) = []"
    "filter (\<lambda>k. k \<notin> fst ` set data) FIELDS = []"
    unfolding settings_from_mapping_def Let_def by (meson Inl_Inr_False)+
  then show ?thesis unfolding filter_empty_conv by auto
qed

end
