(* ===== verification/Edge_Runtime.thy ===== *)
theory Edge_Runtime
  imports Prelude Tickets Targets Edge_Config
begin

text \<open>
  The edge server (\<open>edge_tunnel/app.py\<close>): the connection counter \<open>Runtime\<close>, the \<open>ReplayCache\<close> of
  used tickets, the cached public address, the relay loop with its byte limit, and the handler
  \<open>tunnel\<close>.

  The server is one event loop: a handler runs without interruption from one \<open>await\<close> to the next.
  \<open>tunnel\<close> is therefore a function \<open>tunnel_begin\<close> up to its first \<open>await\<close> and a function
  \<open>tunnel_resume\<close> from each later one, and \<open>server_step\<close> lets any request in flight take its next
  segment. What the environment answers at an \<open>await\<close> is an event. \<open>verify\<close> and \<open>claim\<close> read the
  clock separately, so \<open>tunnel_begin\<close> takes two readings.
\<close>

section \<open>Connection counter and replay cache\<close>

record runtime =
  max_connections :: int
  active :: int
  accepted :: int
  denied :: int

definition new_runtime :: "int \<Rightarrow> runtime" where
  "new_runtime n = \<lparr>max_connections = n, active = 0, accepted = 0, denied = 0\<rparr>"

definition acquire :: "runtime \<Rightarrow> bool \<times> runtime" where
  "acquire r =
     (if active r \<ge> max_connections r then (False, r) else (True, r\<lparr>active := active r + 1\<rparr>))"

definition release :: "runtime \<Rightarrow> runtime" where
  "release r = r\<lparr>active := active r - 1\<rparr>"

definition deny :: "runtime \<Rightarrow> runtime" where
  "deny r = r\<lparr>denied := denied r + 1\<rparr>"

type_synonym replay_cache = "(string \<times> int) list"

definition claim_ticket :: "rat \<Rightarrow> ticket \<Rightarrow> replay_cache \<Rightarrow> bool \<times> replay_cache" where
  "claim_ticket clock t cache =
     (let now = py_int clock; live = filter (\<lambda>(key, expiry). expiry > now) cache in
      if tk_jti t \<in> fst ` set live then (False, live)
      else (True, dict_set (tk_jti t) (tk_expires_at t) live))"

section \<open>The cached public address\<close>

record ipv4_cache =
  ca_ttl :: rat
  ca_value :: "string option"
  ca_expires_at :: rat

definition new_ipv4_cache :: "rat \<Rightarrow> ipv4_cache" where
  "new_ipv4_cache ttl = \<lparr>ca_ttl = ttl, ca_value = None, ca_expires_at = 0\<rparr>"

datatype 'e lookup_error = Fetch_failed 'e | Not_global_ipv4

definition cached_public_ipv4 ::
  "rat \<Rightarrow> ('e + string) \<Rightarrow> ipv4_cache \<Rightarrow> ('e lookup_error + string) \<times> ipv4_cache" where
  "cached_public_ipv4 now fetched c =
     (case (if now < ca_expires_at c then ca_value c else None) of
        Some v \<Rightarrow> (Inr v, c)
      | None \<Rightarrow>
          (case fetched of
             Inl e \<Rightarrow> (Inl (Fetch_failed e), c)
           | Inr text \<Rightarrow>
               (case ip_address (strip text) of
                  None \<Rightarrow> (Inl Not_global_ipv4, c)
                | Some address \<Rightarrow>
                    if \<not> is_ipv4 address \<or> \<not> is_global address then (Inl Not_global_ipv4, c)
                    else
                      (let value = ip_str address in
                       (Inr value, c\<lparr>ca_value := Some value, ca_expires_at := now + ca_ttl c\<rparr>)))))"

text \<open>\<open>_fetch_public_ipv4\<close> reads at most 65 bytes of the body of a successful response; \<open>None\<close> is a
  request that failed.\<close>

definition fetch_public_ipv4 :: "string option \<Rightarrow> unit + string" where
  "fetch_public_ipv4 response =
     (case response of
        None \<Rightarrow> Inl ()
      | Some content \<Rightarrow>
          (let body = take 65 content in
           if length body > 64 then Inl () else if \<not> is_ascii body then Inl () else Inr body))"

section \<open>The relay\<close>

text \<open>What the two tasks of \<open>_relay\<close> receive, in the order the event loop delivers it: a message or
  a chunk of the stream, a \<open>wait_for\<close> that times out, or another exception of the call. A task that
  has ended receives nothing more; the other one goes on until the waiter wakes up and cancels it.\<close>

datatype relay_event =
    Ws_binary string
  | Ws_closed
  | Ws_other
  | Ws_timeout
  | Ws_error
  | Tcp_data string
  | Tcp_timeout
  | Tcp_error

datatype task_end = Task_returned | Task_limit | Task_failed

record relay_state =
  transferred :: int
  to_tcp :: "string list"
  to_ws :: "string list"
  ws_task :: "task_end option"
  tcp_task :: "task_end option"
  close_code :: "int option"

definition new_relay :: relay_state where
  "new_relay = \<lparr>transferred = 0, to_tcp = [], to_ws = [], ws_task = None, tcp_task = None, close_code = None\<rparr>"

definition account :: "int \<Rightarrow> string \<Rightarrow> relay_state \<Rightarrow> bool \<times> relay_state" where
  "account max_bytes data r =
     (let r' = r\<lparr>transferred := transferred r + int (length data)\<rparr> in
      (\<not> transferred r' > max_bytes, r'))"

fun websocket_to_tcp :: "int \<Rightarrow> relay_event \<Rightarrow> relay_state \<Rightarrow> relay_state" where
  "websocket_to_tcp max_bytes (Ws_binary data) r =
     (case account max_bytes data r of
        (False, r') \<Rightarrow> r'\<lparr>ws_task := Some Task_limit\<rparr>
      | (True, r') \<Rightarrow> r'\<lparr>to_tcp := to_tcp r' @ [data]\<rparr>)"
| "websocket_to_tcp max_bytes Ws_closed r = r\<lparr>ws_task := Some Task_returned\<rparr>"
| "websocket_to_tcp max_bytes Ws_other r = r\<lparr>close_code := Some 1003, ws_task := Some Task_returned\<rparr>"
| "websocket_to_tcp max_bytes Ws_timeout r = r\<lparr>ws_task := Some Task_limit\<rparr>"
| "websocket_to_tcp max_bytes Ws_error r = r\<lparr>ws_task := Some Task_failed\<rparr>"
| "websocket_to_tcp max_bytes _ r = r"

fun tcp_to_websocket :: "int \<Rightarrow> relay_event \<Rightarrow> relay_state \<Rightarrow> relay_state" where
  "tcp_to_websocket max_bytes (Tcp_data data) r =
     (if data = [] then r\<lparr>tcp_task := Some Task_returned\<rparr>
      else
        (case account max_bytes data r of
           (False, r') \<Rightarrow> r'\<lparr>tcp_task := Some Task_limit\<rparr>
         | (True, r') \<Rightarrow> r'\<lparr>to_ws := to_ws r' @ [data]\<rparr>))"
| "tcp_to_websocket max_bytes Tcp_timeout r = r\<lparr>tcp_task := Some Task_limit\<rparr>"
| "tcp_to_websocket max_bytes Tcp_error r = r\<lparr>tcp_task := Some Task_failed\<rparr>"
| "tcp_to_websocket max_bytes _ r = r"

fun relay_step :: "int \<Rightarrow> relay_state \<Rightarrow> relay_event \<Rightarrow> relay_state" where
  "relay_step max_bytes r e =
     (let r1 = (if ws_task r = None then websocket_to_tcp max_bytes e r else r) in
      if tcp_task r1 = None then tcp_to_websocket max_bytes e r1 else r1)"

definition relay :: "int \<Rightarrow> relay_event list \<Rightarrow> relay_state" where
  "relay max_bytes es = foldl (relay_step max_bytes) new_relay es"

datatype relay_end = Relay_returned | Relay_raised

text \<open>After the wait: the results of the ended tasks are taken in the order \<open>done\<close> gives them. The
  first exception decides; a timeout or the byte limit closes the web socket with code 1008.\<close>

definition relay_finish :: "bool \<Rightarrow> relay_state \<Rightarrow> relay_end \<times> relay_state" where
  "relay_finish ws_first r =
     (let tasks = (if ws_first then [ws_task r, tcp_task r] else [tcp_task r, ws_task r]) in
      case find (\<lambda>t. t = Some Task_limit \<or> t = Some Task_failed) tasks of
        Some (Some Task_limit) \<Rightarrow> (Relay_returned, r\<lparr>close_code := Some 1008\<rparr>)
      | Some _ \<Rightarrow> (Relay_raised, r)
      | None \<Rightarrow> (Relay_returned, r))"

section \<open>The tunnel handler\<close>

datatype http_result = Unauthorized | Forbidden | Bad_gateway | Unavailable | Switched | Other_exception

record edge_app =
  app_settings :: settings
  app_runtime :: runtime
  app_verifier :: verifier
  app_replays :: replay_cache

definition create_app :: "settings \<Rightarrow> edge_app" where
  "create_app s =
     \<lparr>app_settings = s, app_runtime = new_runtime (set_max_connections s),
      app_verifier = new_verifier (set_ticket_secret s) (set_node_id s) (set_ticket_max_ttl s),
      app_replays = []\<rparr>"

definition bearer :: "string option \<Rightarrow> ticket_error + string" where
  "bearer header =
     (let value = (case header of None \<Rightarrow> [] | Some v \<Rightarrow> v) in
      if \<not> startswith value ''Bearer '' \<or> drop 7 value = [] then Inl Missing_bearer
      else Inr (drop 7 value))"

text \<open>\<open>health\<close> and \<open>status\<close>: the resource figures are what the provider of the platform returns.\<close>

definition edge_health :: "edge_app \<Rightarrow> (string \<times> json) list" where
  "edge_health app = [(''status'', JStr ''ok''), (''node'', JStr (set_node_id (app_settings app)))]"

definition edge_status ::
  "'e + string \<Rightarrow> 'f + (string \<times> json) list \<Rightarrow> edge_app \<Rightarrow> http_result + (string \<times> json) list" where
  "edge_status public_ipv4 resources app =
     (case (public_ipv4, resources) of
        (Inr address, Inr figures) \<Rightarrow>
          (let r = app_runtime app in
           Inr (foldl (\<lambda>d (k, v). dict_set k v d)
             [(''node'', JStr (set_node_id (app_settings app))), (''active_connections'', JInt (active r)),
              (''max_connections'', JInt (max_connections r)), (''accepted_connections'', JInt (accepted r)),
              (''denied_connections'', JInt (denied r)), (''public_ipv4'', JStr address)]
             (figures @ [(''agent_version'', JStr ''1.0.0'')])))
      | _ \<Rightarrow> Inl Unavailable)"

text \<open>The points where a request waits. \<open>Closing result\<close> waits in the final block for the writer to
  close before the slot is given back.\<close>

datatype phase =
    Resolving ticket
  | Connecting resolved_target
  | Preparing
  | Relaying
  | Closing http_result
  | Finished http_result

text \<open>What an \<open>await\<close> gives: its value, an \<open>OSError\<close> or \<open>TimeoutError\<close>, or another exception.\<close>

datatype 'v outcome = Returned 'v | Os_error | Raised

datatype event =
    Resolve_done "(target_denied + resolved_target) outcome"
  | Connect_done "unit outcome"
  | Prepare_done "unit outcome"
  | Relay_done "unit outcome"
  | Close_done "unit outcome"

definition tunnel_begin ::
  "(string \<Rightarrow> string \<Rightarrow> string) \<Rightarrow> (string \<Rightarrow> json option) \<Rightarrow> rat \<Rightarrow> rat \<Rightarrow> string option \<Rightarrow> edge_app \<Rightarrow>
   phase \<times> edge_app" where
  "tunnel_begin hmac_sha256 loads clock1 clock2 header app =
     (let refuse = (Finished Unauthorized, app\<lparr>app_runtime := deny (app_runtime app)\<rparr>) in
      case bearer header of
        Inl _ \<Rightarrow> refuse
      | Inr token \<Rightarrow>
          (case verify hmac_sha256 loads (app_verifier app) clock1 token of
             Inl _ \<Rightarrow> refuse
           | Inr t \<Rightarrow>
               (case claim_ticket clock2 t (app_replays app) of
                  (False, cache) \<Rightarrow>
                    (Finished Unauthorized,
                     app\<lparr>app_runtime := deny (app_runtime app), app_replays := cache\<rparr>)
                | (True, cache) \<Rightarrow>
                    (case acquire (app_runtime app) of
                       (False, _) \<Rightarrow> (Finished Unavailable, app\<lparr>app_replays := cache\<rparr>)
                     | (True, r) \<Rightarrow> (Resolving t, app\<lparr>app_runtime := r, app_replays := cache\<rparr>)))))"

text \<open>Leaving the handler before a writer exists, and after.\<close>

definition finish :: "http_result \<Rightarrow> runtime \<Rightarrow> phase \<times> runtime" where
  "finish result r = (Finished result, release r)"

fun tunnel_resume :: "phase \<Rightarrow> event \<Rightarrow> runtime \<Rightarrow> (phase \<times> runtime) option" where
  "tunnel_resume (Resolving t) (Resolve_done (Returned (Inr target))) r = Some (Connecting target, r)"
| "tunnel_resume (Resolving t) (Resolve_done (Returned (Inl e))) r = Some (finish Forbidden (deny r))"
| "tunnel_resume (Resolving t) (Resolve_done Os_error) r = Some (finish Bad_gateway (deny r))"
| "tunnel_resume (Resolving t) (Resolve_done Raised) r = Some (finish Other_exception r)"
| "tunnel_resume (Connecting target) (Connect_done (Returned _)) r = Some (Preparing, r)"
| "tunnel_resume (Connecting target) (Connect_done Os_error) r = Some (finish Bad_gateway (deny r))"
| "tunnel_resume (Connecting target) (Connect_done Raised) r = Some (finish Other_exception r)"
| "tunnel_resume Preparing (Prepare_done (Returned _)) r =
     Some (Relaying, r\<lparr>accepted := accepted r + 1\<rparr>)"
| "tunnel_resume Preparing (Prepare_done Os_error) r = Some (Closing Bad_gateway, deny r)"
| "tunnel_resume Preparing (Prepare_done Raised) r = Some (Closing Other_exception, r)"
| "tunnel_resume Relaying (Relay_done (Returned _)) r = Some (finish Switched r)"
| "tunnel_resume Relaying (Relay_done Os_error) r = Some (Closing Bad_gateway, deny r)"
| "tunnel_resume Relaying (Relay_done Raised) r = Some (Closing Other_exception, r)"
| "tunnel_resume (Closing result) (Close_done (Returned _)) r = Some (finish result r)"
| "tunnel_resume (Closing result) (Close_done _) r = Some (Finished Other_exception, r)"
| "tunnel_resume _ _ _ = None"

section \<open>The server\<close>

text \<open>The requests of a server in the order they arrived, and the tickets it let through.\<close>

record server =
  srv_app :: edge_app
  srv_requests :: "phase list"

definition new_server :: "settings \<Rightarrow> server" where
  "new_server s = \<lparr>srv_app = create_app s, srv_requests = []\<rparr>"

definition resume_request :: "nat \<Rightarrow> event \<Rightarrow> server \<Rightarrow> server option" where
  "resume_request i e s =
     (if i < length (srv_requests s) then
        map_option (\<lambda>(p, r). s\<lparr>srv_app := (srv_app s)\<lparr>app_runtime := r\<rparr>, srv_requests := (srv_requests s)[i := p]\<rparr>)
          (tunnel_resume (srv_requests s ! i) e (app_runtime (srv_app s)))
      else None)"

inductive server_step ::
  "(string \<Rightarrow> string \<Rightarrow> string) \<Rightarrow> (string \<Rightarrow> json option) \<Rightarrow> server \<Rightarrow> server \<Rightarrow> bool"
  for hmac_sha256 loads where
  Arrive: "tunnel_begin hmac_sha256 loads clock1 clock2 header (srv_app s) = (p, app) \<Longrightarrow>
    server_step hmac_sha256 loads s \<lparr>srv_app = app, srv_requests = srv_requests s @ [p]\<rparr>"
| Resume: "resume_request i e s = Some s' \<Longrightarrow> server_step hmac_sha256 loads s s'"

inductive reachable ::
  "(string \<Rightarrow> string \<Rightarrow> string) \<Rightarrow> (string \<Rightarrow> json option) \<Rightarrow> settings \<Rightarrow> server \<Rightarrow> bool"
  for hmac_sha256 loads cfg where
  Start: "reachable hmac_sha256 loads cfg (new_server cfg)"
| Step: "reachable hmac_sha256 loads cfg s \<Longrightarrow> server_step hmac_sha256 loads s s' \<Longrightarrow>
    reachable hmac_sha256 loads cfg s'"

section \<open>Replay\<close>

lemma claim_ticket_blocks:
  assumes "(tk_jti t, e) \<in> set cache" and "py_int clock < e"
  shows "fst (claim_ticket clock t cache) = False"
proof -
  have "(tk_jti t, e) \<in> set (filter (\<lambda>(key, expiry). expiry > py_int clock) cache)"
    using assms by simp
  then show ?thesis by (force simp: claim_ticket_def Let_def)
qed

lemma dict_set_mem: "(k, v) \<in> set (dict_set k v d)"
  by (induction d) auto

lemma dict_set_keeps: "(k', v') \<in> set d \<Longrightarrow> k' \<noteq> k \<Longrightarrow> (k', v') \<in> set (dict_set k v d)"
  by (induction d) auto

lemma claim_ticket_records:
  "claim_ticket clock t cache = (True, cache') \<Longrightarrow> (tk_jti t, tk_expires_at t) \<in> set cache'"
  by (auto simp: claim_ticket_def Let_def dict_set_mem split: if_splits)

lemma claim_ticket_keeps:
  assumes "claim_ticket clock t cache = (ok, cache')" and "(k, e) \<in> set cache" and "py_int clock < e"
  shows "(k, e) \<in> set cache'"
proof -
  have live: "(k, e) \<in> set (filter (\<lambda>(key, expiry). expiry > py_int clock) cache)"
    using assms by simp
  show ?thesis
  proof (cases "tk_jti t \<in> fst ` set (filter (\<lambda>(key, expiry). expiry > py_int clock) cache)")
    case True
    with assms(1) have "cache' = filter (\<lambda>(key, expiry). expiry > py_int clock) cache"
      unfolding claim_ticket_def Let_def by (simp only: if_True prod.inject)
    with live show ?thesis by simp
  next
    case False
    then have "k \<noteq> tk_jti t" using live by (metis fst_conv imageI)
    with False assms(1) dict_set_keeps [OF live] show ?thesis by (auto simp: claim_ticket_def Let_def)
  qed
qed

text \<open>Server runs under a clock that does not go back: each arrival reads it twice.\<close>

inductive timed_run ::
  "(string \<Rightarrow> string \<Rightarrow> string) \<Rightarrow> (string \<Rightarrow> json option) \<Rightarrow> rat \<Rightarrow> server \<Rightarrow> rat \<Rightarrow> server \<Rightarrow> bool"
  for hmac_sha256 loads now s where
  Now: "timed_run hmac_sha256 loads now s now s"
| Arrival: "timed_run hmac_sha256 loads now s now' s' \<Longrightarrow> now' \<le> clock1 \<Longrightarrow> clock1 \<le> clock2 \<Longrightarrow>
    tunnel_begin hmac_sha256 loads clock1 clock2 header (srv_app s') = (p, app) \<Longrightarrow>
    timed_run hmac_sha256 loads now s clock2 \<lparr>srv_app = app, srv_requests = srv_requests s' @ [p]\<rparr>"
| Resumed: "timed_run hmac_sha256 loads now s now' s' \<Longrightarrow> resume_request i e s' = Some s'' \<Longrightarrow>
    timed_run hmac_sha256 loads now s now' s''"

lemma tunnel_begin_cache:
  assumes "tunnel_begin hmac_sha256 loads c1 c2 header app = (p, app')"
    and "(k, e) \<in> set (app_replays app)" and "py_int c2 < e"
  shows "(k, e) \<in> set (app_replays app')"
  using assms claim_ticket_keeps [OF _ assms(2,3)]
  by (auto simp: tunnel_begin_def Let_def split: sum.splits prod.splits bool.splits)

lemma tunnel_begin_verifier:
  "tunnel_begin hmac_sha256 loads c1 c2 header app = (p, app') \<Longrightarrow> app_verifier app' = app_verifier app"
  by (auto simp: tunnel_begin_def Let_def split: sum.splits prod.splits bool.splits)

lemma resume_request_cache:
  "resume_request i e s = Some s' \<Longrightarrow>
   app_replays (srv_app s') = app_replays (srv_app s) \<and> app_verifier (srv_app s') = app_verifier (srv_app s)"
  by (auto simp: resume_request_def split: if_splits)

lemma timed_run_cache:
  assumes "timed_run hmac_sha256 loads now s now' s'" and "(k, e) \<in> set (app_replays (srv_app s))"
  shows "now \<le> now' \<and> app_verifier (srv_app s') = app_verifier (srv_app s) \<and>
    (py_int now' < e \<longrightarrow> (k, e) \<in> set (app_replays (srv_app s')))"
  using assms(1)
proof induction
  case Now
  with assms(2) show ?case by simp
next
  case (Arrival now' s' c1 c2 header p app)
  from Arrival.hyps(2,3) have "py_int now' \<le> py_int c2" by (intro py_int_mono) simp
  with Arrival tunnel_begin_cache [OF Arrival.hyps(4)] tunnel_begin_verifier [OF Arrival.hyps(4)]
  show ?case by auto
next
  case (Resumed now' s' i e' s'')
  with resume_request_cache [OF Resumed.hyps(2)] show ?case by simp
qed

lemma check_claims_unique:
  "check_claims ver c kvs = Inr t \<Longrightarrow> check_claims ver c' kvs = Inr t' \<Longrightarrow> t' = t"
  by (auto simp: check_claims_def Let_def split: if_splits)

lemma verify_unique:
  "verify hmac_sha256 loads ver c token = Inr t \<Longrightarrow> verify hmac_sha256 loads ver c' token = Inr t' \<Longrightarrow> t' = t"
  by (auto simp: verify_def split: list.splits option.splits if_splits json.splits
      dest: check_claims_unique)

lemma tunnel_begin_Resolving:
  assumes "tunnel_begin hmac_sha256 loads c1 c2 header app = (Resolving t, app')"
  obtains token where "bearer header = Inr token"
    "verify hmac_sha256 loads (app_verifier app) c1 token = Inr t"
    "claim_ticket c2 t (app_replays app) = (True, app_replays app')"
    "app_verifier app' = app_verifier app"
  using assms
  by (auto simp: tunnel_begin_def Let_def split: sum.splits prod.splits bool.splits)

lemma tunnel_begin_claimed:
  assumes "bearer header = Inr token" and "verify hmac_sha256 loads (app_verifier app) c1 token = Inr t"
    and "fst (claim_ticket c2 t (app_replays app)) = False"
  shows "fst (tunnel_begin hmac_sha256 loads c1 c2 header app) = Finished Unauthorized"
  using assms by (auto simp: tunnel_begin_def Let_def split: prod.splits bool.splits)

lemma tunnel_begin_invalid:
  assumes "bearer header = Inr token" and "verify hmac_sha256 loads (app_verifier app) c1 token = Inl e"
  shows "fst (tunnel_begin hmac_sha256 loads c1 c2 header app) = Finished Unauthorized"
  using assms by (simp add: tunnel_begin_def Let_def)

section \<open>Slots\<close>

fun holds_slot :: "phase \<Rightarrow> bool" where
  "holds_slot (Finished _) = False"
| "holds_slot _ = True"

definition in_flight :: "server \<Rightarrow> int" where
  "in_flight s = int (length (filter holds_slot (srv_requests s)))"

lemma count_update:
  assumes "i < length xs"
  shows "int (length (filter P (xs[i := x]))) =
    int (length (filter P xs)) - (if P (xs ! i) then 1 else 0) + (if P x then 1 else 0)"
proof -
  from assms have "xs = take i xs @ xs ! i # drop (Suc i) xs" by (simp add: id_take_nth_drop)
  then have "filter P xs = filter P (take i xs) @ filter P [xs ! i] @ filter P (drop (Suc i) xs)"
    by (metis append_Cons append_Nil filter_append)
  moreover have "filter P (xs[i := x]) = filter P (take i xs) @ filter P [x] @ filter P (drop (Suc i) xs)"
    using assms by (simp add: upd_conv_take_nth_drop)
  ultimately show ?thesis by simp
qed

lemma tunnel_resume_active:
  assumes "tunnel_resume p e r = Some (p', r')"
  shows "max_connections r' = max_connections r" "holds_slot p"
    "holds_slot p' \<Longrightarrow> active r' = active r"
    "\<not> holds_slot p' \<Longrightarrow> active r' = active r - 1 \<or> active r' = active r"
    "\<not> holds_slot p' \<Longrightarrow> active r' = active r \<Longrightarrow> \<exists>result. p = Closing result \<and> (e = Close_done Os_error \<or> e = Close_done Raised)"
  using assms
  by (cases rule: tunnel_resume.cases [of "(p, e, r)"]; auto simp: finish_def release_def deny_def)+

lemma tunnel_begin_active:
  assumes "tunnel_begin hmac_sha256 loads c1 c2 header app = (p, app')"
  shows "max_connections (app_runtime app') = max_connections (app_runtime app)"
    "active (app_runtime app') = active (app_runtime app) + (if holds_slot p then 1 else 0)"
    "holds_slot p \<Longrightarrow> active (app_runtime app) < max_connections (app_runtime app)"
    "app_verifier app' = app_verifier app" "app_settings app' = app_settings app"
  using assms
  by (auto simp: tunnel_begin_def Let_def acquire_def deny_def split: sum.splits prod.splits bool.splits if_splits)

text \<open>The counter of a reachable server: at least the requests in flight, at most the limit.\<close>

definition slots_ok :: "settings \<Rightarrow> server \<Rightarrow> bool" where
  "slots_ok cfg s \<longleftrightarrow>
     max_connections (app_runtime (srv_app s)) = set_max_connections cfg \<and>
     in_flight s \<le> active (app_runtime (srv_app s)) \<and>
     active (app_runtime (srv_app s)) \<le> set_max_connections cfg"

lemma resume_request_Some:
  assumes "resume_request i e s = Some s'"
  obtains p r where "i < length (srv_requests s)"
    "tunnel_resume (srv_requests s ! i) e (app_runtime (srv_app s)) = Some (p, r)"
    "s' = s\<lparr>srv_app := (srv_app s)\<lparr>app_runtime := r\<rparr>, srv_requests := (srv_requests s)[i := p]\<rparr>"
  using assms by (auto simp: resume_request_def split: if_splits)

lemma slots_ok_step:
  assumes "slots_ok cfg s" and "server_step hmac_sha256 loads s s'"
  shows "slots_ok cfg s'"
  using assms(2)
proof cases
  case (Arrive c1 c2 header p app)
  with tunnel_begin_active [OF Arrive(2)] assms(1) show ?thesis
    by (auto simp: slots_ok_def in_flight_def)
next
  case (Resume i e)
  then obtain p r where "i < length (srv_requests s)"
    and t: "tunnel_resume (srv_requests s ! i) e (app_runtime (srv_app s)) = Some (p, r)"
    and "s' = s\<lparr>srv_app := (srv_app s)\<lparr>app_runtime := r\<rparr>, srv_requests := (srv_requests s)[i := p]\<rparr>"
    by (rule resume_request_Some)
  with tunnel_resume_active [OF t] assms(1) show ?thesis
    by (cases "holds_slot p") (auto simp: slots_ok_def in_flight_def count_update)
qed

lemma slots_ok_reachable:
  assumes "reachable hmac_sha256 loads cfg s" and "0 \<le> set_max_connections cfg"
  shows "slots_ok cfg s"
  using assms(1)
proof induction
  case Start
  with assms(2) show ?case
    by (simp add: slots_ok_def new_server_def create_app_def new_runtime_def in_flight_def)
next
  case (Step s s')
  from Step.IH Step.hyps(2) show ?case by (rule slots_ok_step)
qed

definition leaked :: "server \<Rightarrow> int" where
  "leaked s = active (app_runtime (srv_app s)) - in_flight s"

section \<open>Bytes\<close>

definition forwarded :: "relay_state \<Rightarrow> int" where
  "forwarded r = int (length (concat (to_tcp r))) + int (length (concat (to_ws r)))"

fun ws_payload :: "relay_event \<Rightarrow> string list" where
  "ws_payload (Ws_binary data) = [data]"
| "ws_payload _ = []"

fun tcp_payload :: "relay_event \<Rightarrow> string list" where
  "tcp_payload (Tcp_data data) = (if data = [] then [] else [data])"
| "tcp_payload _ = []"

text \<open>While the sum of what was counted is within the limit, it is what was forwarded; a task that
  has not ended has forwarded all it received.\<close>

definition relay_ok :: "int \<Rightarrow> relay_event list \<Rightarrow> relay_state \<Rightarrow> bool" where
  "relay_ok max_bytes es r \<longleftrightarrow>
     forwarded r \<le> max_bytes \<and> forwarded r \<le> transferred r \<and>
     (\<exists>rest. concat (map ws_payload es) = to_tcp r @ rest \<and> (ws_task r = None \<longrightarrow> rest = [])) \<and>
     (\<exists>rest. concat (map tcp_payload es) = to_ws r @ rest \<and> (tcp_task r = None \<longrightarrow> rest = []))"

lemma relay_ok_new: "0 \<le> max_bytes \<Longrightarrow> relay_ok max_bytes [] new_relay"
  by (simp add: relay_ok_def new_relay_def forwarded_def)

lemma relay_ok_step:
  assumes "relay_ok max_bytes es r"
  shows "relay_ok max_bytes (es @ [e]) (relay_step max_bytes r e)"
proof -
  obtain rest1 rest2 where *: "forwarded r \<le> max_bytes" "forwarded r \<le> transferred r"
    "concat (map ws_payload es) = to_tcp r @ rest1" "ws_task r = None \<longrightarrow> rest1 = []"
    "concat (map tcp_payload es) = to_ws r @ rest2" "tcp_task r = None \<longrightarrow> rest2 = []"
    using assms unfolding relay_ok_def by (elim conjE exE)
  show ?thesis
    by (cases e; cases "ws_task r"; cases "tcp_task r")
      (use * in \<open>auto simp: relay_ok_def forwarded_def account_def Let_def split: bool.splits\<close>)
qed

lemma relay_ok_relay: "0 \<le> max_bytes \<Longrightarrow> relay_ok max_bytes es (relay max_bytes es)"
proof (induction es rule: rev_induct)
  case Nil
  then show ?case by (simp add: relay_def relay_ok_new)
next
  case (snoc e es)
  then have "relay_ok max_bytes es (relay max_bytes es)" by simp
  from relay_ok_step [OF this, of e] show ?case by (simp add: relay_def)
qed

section \<open>Properties\<close>

text \<open>C2. A ticket opens at most one tunnel: once a request with it was let through, every later
  request with the same header is refused, whatever other requests arrive and continue in between,
  under a clock that does not go back, provided the clock does not reach the expiry of the ticket
  between the reading of the verifier and the reading of the replay cache.\<close>

theorem no_replay:
  assumes "tunnel_begin hmac_sha256 loads c1 c2 header (srv_app s) = (Resolving t, app)"
    and "timed_run hmac_sha256 loads c2 \<lparr>srv_app = app, srv_requests = srv_requests s @ [Resolving t]\<rparr> now s'"
    and "now \<le> d1" and "py_int d1 < tk_expires_at t \<longrightarrow> py_int d2 < tk_expires_at t"
  shows "fst (tunnel_begin hmac_sha256 loads d1 d2 header (srv_app s')) = Finished Unauthorized"
proof -
  from assms(1) obtain token where tok: "bearer header = Inr token"
    "verify hmac_sha256 loads (app_verifier (srv_app s)) c1 token = Inr t"
    "claim_ticket c2 t (app_replays (srv_app s)) = (True, app_replays app)"
    "app_verifier app = app_verifier (srv_app s)"
    by (rule tunnel_begin_Resolving)
  from claim_ticket_records [OF tok(3)] timed_run_cache [OF assms(2)]
  have run: "app_verifier (srv_app s') = app_verifier (srv_app s)"
    "py_int now < tk_expires_at t \<longrightarrow> (tk_jti t, tk_expires_at t) \<in> set (app_replays (srv_app s'))"
    by (auto simp: tok(4))
  show ?thesis
  proof (cases "verify hmac_sha256 loads (app_verifier (srv_app s')) d1 token")
    case (Inl e)
    then show ?thesis by (rule tunnel_begin_invalid [OF tok(1)])
  next
    case (Inr t')
    with tok(2) run(1) have t': "t' = t" by (metis verify_unique)
    from Inr have "ticket_ok (app_verifier (srv_app s')) d1 t'"
      by (auto elim!: verify_cases dest: check_claims_ok)
    then have early: "py_int d1 < tk_expires_at t" by (simp add: ticket_ok_def t')
    with py_int_mono [OF assms(3)] run(2) assms(4)
    have "fst (claim_ticket d2 t (app_replays (srv_app s'))) = False"
      by (intro claim_ticket_blocks) auto
    with Inr t' show ?thesis by (intro tunnel_begin_claimed [OF tok(1)]) auto
  qed
qed

text \<open>An edge configuration, and a ticket for it that expires at second 160.\<close>

definition demo_settings :: "int \<Rightarrow> settings" where
  "demo_settings n =
     \<lparr>set_node_id = ''n'', set_ticket_secret = ''k'', set_max_connections = n, set_max_frame_bytes = 16,
      set_max_bytes_per_connection = 64, set_idle_timeout = Fin 60, set_max_connection_seconds = Fin 600,
      set_connect_timeout = Fin 10, set_ticket_max_ttl = 60\<rparr>"

definition demo_ticket :: ticket where
  "demo_ticket =
     \<lparr>tk_node = ''n'', tk_store = ''s'', tk_host = ''h'', tk_port = 443, tk_issued_at = 100,
      tk_expires_at = 160, tk_jti = ''j''\<rparr>"

lemma demo_clock: "py_int 101 = 101" "py_int 159 = 159" "py_int (159 + 99 / 100) = 159" "py_int 160 = 160"
  by (simp_all add: py_int_def floor_eq_iff)

lemma demo_token:
  "\<exists>token. token \<noteq> [] \<and> (\<forall>c. 95 \<le> py_int c \<longrightarrow> py_int c < 160 \<longrightarrow>
     verify (\<lambda>k m. k @ m) json_loads_flat (new_verifier ''k'' ''n'' 60) c token = Inr demo_ticket)"
proof -
  obtain token where i: "issue (\<lambda>k m. k @ m) json_dumps
      \<lparr>iss_secret = ''k'', iss_node_id = ''n'', iss_max_ttl = 60\<rparr> 100 ''j'' ''s'' ''h'' 443 None = Inr token"
    using issue_example by blast
  then have "token \<noteq> []" by (auto simp: issue_def Let_def ticket_lifetime_def)
  moreover have "py_int 100 = 100" by (simp add: py_int_def)
  then have "verify (\<lambda>k m. k @ m) json_loads_flat (new_verifier ''k'' ''n'' 60) c token = Inr demo_ticket"
    if "95 \<le> py_int c" "py_int c < 160" for c
    using flat_json.verify_issue [OF i, of "new_verifier ''k'' ''n'' 60" c] that
    by (simp add: new_verifier_def ticket_lifetime_def demo_ticket_def)
  ultimately show ?thesis by blast
qed

lemma demo_token_101:
  "\<exists>token. token \<noteq> [] \<and>
     verify (\<lambda>k m. k @ m) json_loads_flat (new_verifier ''k'' ''n'' 60) 101 token = Inr demo_ticket"
proof -
  from demo_token obtain token where "token \<noteq> []" and v: "\<And>c. 95 \<le> py_int c \<Longrightarrow> py_int c < 160 \<Longrightarrow>
      verify (\<lambda>k m. k @ m) json_loads_flat (new_verifier ''k'' ''n'' 60) c token = Inr demo_ticket"
    by blast
  moreover have "verify (\<lambda>k m. k @ m) json_loads_flat (new_verifier ''k'' ''n'' 60) 101 token = Inr demo_ticket"
    by (rule v) (simp_all add: demo_clock)
  ultimately show ?thesis by blast
qed

lemma demo_begin:
  assumes "verify (\<lambda>k m. k @ m) json_loads_flat (new_verifier ''k'' ''n'' 60) c1 token = Inr demo_ticket"
    and "token \<noteq> []" and "app_verifier app = new_verifier ''k'' ''n'' 60"
    and "\<forall>(k, e) \<in> set (app_replays app). e \<le> py_int c2"
    and "active (app_runtime app) < max_connections (app_runtime app)"
  shows "tunnel_begin (\<lambda>k m. k @ m) json_loads_flat c1 c2 (Some (''Bearer '' @ token)) app =
    (Resolving demo_ticket,
     app\<lparr>app_runtime := (app_runtime app)\<lparr>active := active (app_runtime app) + 1\<rparr>,
         app_replays := [(''j'', 160)]\<rparr>)"
proof -
  have b: "bearer (Some (''Bearer '' @ token)) = Inr token"
    using assms(2) by (simp add: bearer_def startswith_def)
  have live: "filter (\<lambda>(key, expiry). expiry > py_int c2) (app_replays app) = []"
    using assms(4) by (auto simp: filter_empty_conv)
  have "claim_ticket c2 demo_ticket (app_replays app) = (True, [(''j'', 160)])"
    unfolding claim_ticket_def Let_def live by (simp add: demo_ticket_def)
  with b assms show ?thesis by (simp add: tunnel_begin_def acquire_def)
qed

theorem no_replay_witness:
  "\<exists>header app. tunnel_begin (\<lambda>k m. k @ m) json_loads_flat 101 101 header (create_app (demo_settings 2)) =
       (Resolving demo_ticket, app) \<and>
     fst (tunnel_begin (\<lambda>k m. k @ m) json_loads_flat 159 159 header app) = Finished Unauthorized"
proof -
  obtain token where tok: "verify (\<lambda>k m. k @ m) json_loads_flat (new_verifier ''k'' ''n'' 60) 101 token = Inr demo_ticket"
    "token \<noteq> []"
    using demo_token_101 by blast
  let ?s = "new_server (demo_settings 2)"
  obtain app where b: "tunnel_begin (\<lambda>k m. k @ m) json_loads_flat 101 101 (Some (''Bearer '' @ token)) (srv_app ?s) =
      (Resolving demo_ticket, app)"
    using demo_begin [OF tok, of "srv_app ?s" 101]
    by (simp add: new_server_def create_app_def demo_settings_def new_runtime_def)
  from no_replay [OF b Now, of 159 159] b show ?thesis
    by (auto simp: new_server_def demo_clock demo_ticket_def)
qed

text \<open>The proviso on the clock is needed: a request whose ticket is verified in the last second
  of its life and claimed after the clock has moved on is let through again, because the cache
  has just dropped the expired entry.\<close>

theorem replay_at_expiry:
  "\<exists>header app app'.
     tunnel_begin (\<lambda>k m. k @ m) json_loads_flat 101 101 header (create_app (demo_settings 2)) =
       (Resolving demo_ticket, app) \<and>
     tunnel_begin (\<lambda>k m. k @ m) json_loads_flat (159 + 99 / 100) 160 header app = (Resolving demo_ticket, app')"
proof -
  obtain token where tok: "verify (\<lambda>k m. k @ m) json_loads_flat (new_verifier ''k'' ''n'' 60) 101 token = Inr demo_ticket"
    "verify (\<lambda>k m. k @ m) json_loads_flat (new_verifier ''k'' ''n'' 60) (159 + 99 / 100) token = Inr demo_ticket"
    "token \<noteq> []"
  proof -
    obtain token where "token \<noteq> []" and v: "\<And>c. 95 \<le> py_int c \<Longrightarrow> py_int c < 160 \<Longrightarrow>
        verify (\<lambda>k m. k @ m) json_loads_flat (new_verifier ''k'' ''n'' 60) c token = Inr demo_ticket"
      using demo_token by blast
    then show ?thesis by (intro that [of token] v) (simp_all only: demo_clock, simp_all)
  qed
  show ?thesis
    using demo_begin [OF tok(1,3), of "create_app (demo_settings 2)" 101]
      demo_begin [OF tok(2,3), of "(create_app (demo_settings 2))
         \<lparr>app_runtime := (new_runtime 2)\<lparr>active := 1\<rparr>, app_replays := [(''j'', 160)]\<rparr>" 160]
    by (intro exI [of _ "Some (''Bearer '' @ token)"])
      (simp add: create_app_def demo_settings_def new_runtime_def demo_clock)
qed

text \<open>C3. However requests arrive and interleave, the server never has more tunnels in flight than
  the configured maximum, and the counter it reports is never below the number in flight.\<close>

theorem capacity_respected:
  assumes "reachable hmac_sha256 loads cfg s" and "settings_ok cfg"
  shows "in_flight s \<le> active (app_runtime (srv_app s)) \<and>
    active (app_runtime (srv_app s)) \<le> set_max_connections cfg"
  using slots_ok_reachable [OF assms(1)] assms(2) by (simp add: settings_ok_def slots_ok_def)

theorem capacity_respected_witness:
  "in_flight (new_server ((demo_settings 64)\<lparr>set_ticket_secret := replicate 32 CHR ''k''\<rparr>)) \<le> 64"
proof -
  let ?cfg = "(demo_settings 64)\<lparr>set_ticket_secret := replicate 32 CHR ''k''\<rparr>"
  have "settings_ok ?cfg"
    by (simp add: settings_ok_def demo_settings_def node_id_re_def node_id_char_def is_alnum_def
        is_lower_def is_upper_def is_digit_def char_in_def)
  from capacity_respected [OF Start this] show ?thesis by (simp add: demo_settings_def)
qed

text \<open>Every segment of every request keeps the difference between the counter and the tunnels in
  flight, except one: a request that leaves its final block because closing the connection to the
  target failed is gone and its slot is not given back.\<close>

theorem slots_conserved:
  assumes "server_step hmac_sha256 loads s s'"
  shows "leaked s' = leaked s \<or>
    leaked s' = leaked s + 1 \<and>
    (\<exists>i result. i < length (srv_requests s) \<and> srv_requests s ! i = Closing result \<and>
       srv_requests s' = (srv_requests s)[i := Finished Other_exception])"
  using assms
proof cases
  case (Arrive c1 c2 header p app)
  with tunnel_begin_active(2) [OF Arrive(2)] show ?thesis
    by (simp add: leaked_def in_flight_def)
next
  case (Resume i e)
  then obtain p r where i: "i < length (srv_requests s)"
    and t: "tunnel_resume (srv_requests s ! i) e (app_runtime (srv_app s)) = Some (p, r)"
    and s': "s' = s\<lparr>srv_app := (srv_app s)\<lparr>app_runtime := r\<rparr>, srv_requests := (srv_requests s)[i := p]\<rparr>"
    by (rule resume_request_Some)
  note a = tunnel_resume_active [OF t]
  show ?thesis
  proof (cases "holds_slot p \<or> active r = active (app_runtime (srv_app s)) - 1")
    case True
    with a i s' show ?thesis by (cases "holds_slot p") (auto simp: leaked_def in_flight_def count_update)
  next
    case False
    with a(4) have stuck: "\<not> holds_slot p" "active r = active (app_runtime (srv_app s))" by auto
    then obtain result where res: "srv_requests s ! i = Closing result"
      "e = Close_done Os_error \<or> e = Close_done Raised"
      using a(5) by blast
    with t have "p = Finished Other_exception" by auto
    with stuck res i s' show ?thesis
      by (auto simp: leaked_def in_flight_def count_update)
  qed
qed

theorem slots_conserved_witness:
  "\<exists>s'. server_step (\<lambda>k m. k @ m) json_loads_flat (new_server (demo_settings 1)) s' \<and> leaked s' = 0"
proof -
  have step: "server_step (\<lambda>k m. k @ m) json_loads_flat (new_server (demo_settings 1))
    \<lparr>srv_app = (create_app (demo_settings 1))\<lparr>app_runtime := deny (new_runtime 1)\<rparr>,
     srv_requests = [] @ [Finished Unauthorized]\<rparr>"
    using Arrive [of "\<lambda>k m. k @ m" json_loads_flat 0 0 None "new_server (demo_settings 1)"]
    by (simp add: new_server_def tunnel_begin_def bearer_def startswith_def create_app_def demo_settings_def)
  have "leaked (new_server (demo_settings 1)) = 0"
    by (simp add: leaked_def in_flight_def new_server_def create_app_def new_runtime_def)
  with slots_conserved [OF step] step show ?thesis
    by (auto simp: new_server_def)
qed


text \<open>C5. Whatever the peers send and in whatever order, the relay forwards at most the configured
  number of bytes in both directions together, forwards in each direction a prefix of what it
  received, in order and unchanged, and all of it while the task of that direction runs.\<close>

theorem relay_within_limit:
  assumes "0 \<le> max_bytes" and "r = relay max_bytes es"
  shows "int (length (concat (to_tcp r))) + int (length (concat (to_ws r))) \<le> max_bytes \<and>
    (\<exists>rest. concat (map ws_payload es) = to_tcp r @ rest \<and> (ws_task r = None \<longrightarrow> rest = [])) \<and>
    (\<exists>rest. concat (map tcp_payload es) = to_ws r @ rest \<and> (tcp_task r = None \<longrightarrow> rest = []))"
  using relay_ok_relay [OF assms(1), of es] by (simp add: relay_ok_def forwarded_def assms(2))

theorem relay_within_limit_witness:
  "to_tcp (relay 4 [Ws_binary ''ab'', Tcp_data ''c'', Ws_binary ''de'', Tcp_data ''f'']) = [''ab''] \<and>
   int (length (concat (to_ws (relay 4 [Ws_binary ''ab'', Tcp_data ''c'', Ws_binary ''de'', Tcp_data ''f''])))) \<le> 2"
  using relay_within_limit [of 4 "relay 4 [Ws_binary ''ab'', Tcp_data ''c'', Ws_binary ''de'', Tcp_data ''f'']"
      "[Ws_binary ''ab'', Tcp_data ''c'', Ws_binary ''de'', Tcp_data ''f'']"]
  by (simp add: relay_def new_relay_def account_def)

definition ipv4_cache_ok :: "ipv4_cache \<Rightarrow> bool" where
  "ipv4_cache_ok c \<longleftrightarrow> (\<forall>v. ca_value c = Some v \<longrightarrow> (\<exists>n. ip_address v = Some (V4 n) \<and> is_global (V4 n)))"

lemma cached_public_ipv4_cases:
  assumes "cached_public_ipv4 now fetched c = (result, c')"
  obtains (Hit) v where "result = Inr v" "ca_value c = Some v" "c' = c"
    | (Error) e where "result = Inl e" "c' = c"
    | (Fresh) s n where "ip_address s = Some (V4 n)" "is_global (V4 n)" "result = Inr (ip_str (V4 n))"
        "ca_value c' = Some (ip_str (V4 n))"
proof (cases "if now < ca_expires_at c then ca_value c else None")
  case (Some v)
  then have v: "ca_value c = Some v" by (simp split: if_splits)
  from Some assms have "result = Inr v" "c' = c" by (simp_all add: cached_public_ipv4_def)
  with v show ?thesis by (intro Hit)
next
  case None
  note miss = this
  show ?thesis
  proof (cases fetched)
    case (Inl e)
    with miss assms have "result = Inl (Fetch_failed e)" "c' = c" by (simp_all add: cached_public_ipv4_def)
    then show ?thesis by (rule Error)
  next
    case (Inr body)
    show ?thesis
    proof (cases "\<exists>n. ip_address (strip body) = Some (V4 n) \<and> is_global (V4 n)")
      case True
      then obtain n where n: "ip_address (strip body) = Some (V4 n)" "is_global (V4 n)" by blast
      with miss Inr assms have "result = Inr (ip_str (V4 n))" "ca_value c' = Some (ip_str (V4 n))"
        by (auto simp: cached_public_ipv4_def Let_def simp del: ip_str.simps is_global.simps)
      with n Fresh show ?thesis by blast
    next
      case False
      then have "ip_address (strip body) = None \<or>
          (\<exists>a. ip_address (strip body) = Some a \<and> (\<not> is_ipv4 a \<or> \<not> is_global a))"
        by (metis ip.exhaust is_ipv4.simps(2) not_Some_eq)
      with miss Inr assms have "result = Inl Not_global_ipv4 \<and> c' = c"
        unfolding cached_public_ipv4_def by (elim disjE exE conjE) (simp_all del: is_global.simps)
      then show ?thesis using Error by blast
    qed
  qed
qed

lemma ip_address_ip_str_V4: "ip_address s = Some (V4 n) \<Longrightarrow> ip_address (ip_str (V4 n)) = Some (V4 n)"
  using ip_address_V4 [of s n] by simp

text \<open>The address the edge reports is always a global IPv4 address in canonical form; a look-up
  keeps that of the cache, and within the lifetime of a cached address the provider is not asked
  again.\<close>

theorem reported_address_global:
  assumes "ipv4_cache_ok c" and "cached_public_ipv4 now fetched c = (result, c')"
  shows "ipv4_cache_ok c' \<and>
    (\<forall>v. result = Inr v \<longrightarrow> (\<exists>n. ip_address v = Some (V4 n) \<and> is_global (V4 n) \<and> ip_str (V4 n) = v)) \<and>
    (\<forall>v later other. result = Inr v \<longrightarrow> later < ca_expires_at c' \<longrightarrow> ca_value c' = Some v \<longrightarrow>
       cached_public_ipv4 later other c' = (Inr v, c'))"
proof -
  have hit: "cached_public_ipv4 later other c' = (Inr v, c')"
    if "later < ca_expires_at c'" "ca_value c' = Some v" for later other v
    using that by (simp add: cached_public_ipv4_def)
  from assms(2) show ?thesis
  proof (cases rule: cached_public_ipv4_cases)
    case (Hit v)
    with assms(1) obtain n where "ip_address v = Some (V4 n)" "is_global (V4 n)"
      by (auto simp: ipv4_cache_ok_def)
    with Hit assms(1) ip_address_V4 [of v n] hit show ?thesis by auto
  next
    case (Error e)
    with assms(1) show ?thesis by simp
  next
    case (Fresh s n)
    from ip_address_ip_str_V4 [OF Fresh(1)] have "ip_address (ip_str (V4 n)) = Some (V4 n)" .
    with Fresh(2-4) hit show ?thesis by (auto simp: ipv4_cache_ok_def simp del: ip_str.simps)
  qed
qed

theorem reported_address_global_witness:
  "\<exists>c'. cached_public_ipv4 5 (Inr '' 8.8.8.8'' :: unit + string) (new_ipv4_cache 60) = (Inr ''8.8.8.8'', c') \<and>
     ipv4_cache_ok c' \<and> cached_public_ipv4 64 (Inl () :: unit + string) c' = (Inr ''8.8.8.8'', c')"
proof -
  let ?c' = "\<lparr>ca_ttl = 60, ca_value = Some ''8.8.8.8'', ca_expires_at = 65\<rparr>"
  have strip: "strip '' 8.8.8.8'' = ''8.8.8.8''" by (simp add: strip_def is_space_def char_in_def)
  have run: "cached_public_ipv4 5 (Inr '' 8.8.8.8'' :: unit + string) (new_ipv4_cache 60) = (Inr ''8.8.8.8'', ?c')"
    using public_8888(1) str_8888
    by (simp add: cached_public_ipv4_def new_ipv4_cache_def strip parse_8888 edge_public_def Let_def
        del: ip_str.simps is_global.simps)
  have "ipv4_cache_ok (new_ipv4_cache 60)" by (simp add: ipv4_cache_ok_def new_ipv4_cache_def)
  from reported_address_global [OF this run] run show ?thesis
    by (intro exI [of _ ?c']) (simp add: cached_public_ipv4_def)
qed

end
