(* ===== verification/Windows_Acl.thy ===== *)
theory Windows_Acl
  imports Prelude Edge_Config
begin

unbundle bit_operations_syntax

text \<open>
  The Windows loader of the edge configuration (\<open>edge_tunnel/config.py\<close>, from \<open>_dacl\<close> on): the
  reader of security descriptors, the policy for the file, its directory and the directories
  above, the bounded read of the file and \<open>_windows_settings_from_file\<close>, which opens and checks
  the file and every directory up to the root of the drive before it reads.

  The handle API is the argument \<open>look\<close>, what \<open>open\<close> and \<open>inspect\<close> give for a path (\<open>None\<close> an
  \<open>OSError\<close>): the loader opens each path once, so one function of the path and the flag is enough.
  \<open>pure_path\<close> is \<open>PureWindowsPath\<close>, the anchor and the parts below it. An identity is a pair, which
  is never false in Python, so the test \<open>not info.identity\<close> is not a branch of its own.
\<close>

section \<open>Security descriptors\<close>

fun find_sub :: "string \<Rightarrow> string \<Rightarrow> nat option" where
  "find_sub sub [] = (if sub = [] then Some 0 else None)"
| "find_sub sub (c # cs) =
     (if startswith (c # cs) sub then Some 0 else map_option Suc (find_sub sub cs))"

definition dacl :: "string \<Rightarrow> string option" where
  "dacl sddl =
     (case find_sub ''D:'' sddl of
        None \<Rightarrow> None
      | Some start \<Rightarrow>
          (case find_sub ''S:'' (drop (start + 2) sddl) of
             None \<Rightarrow> Some (drop start sddl)
           | Some n \<Rightarrow> Some (take (n + 2) (drop start sddl))))"

definition paren :: "char \<Rightarrow> bool" where
  "paren c \<longleftrightarrow> c = CHR ''('' \<or> c = CHR '')''"

text \<open>\<open>re.findall(r"\(([^()]*)\)", text)\<close>: the innermost groups from left to right.\<close>

function find_groups :: "string \<Rightarrow> string list" where
  "find_groups [] = []"
| "find_groups (c # cs) =
     (if c = CHR ''('' then
        (case dropWhile (\<lambda>x. \<not> paren x) cs of
           d # ds \<Rightarrow>
             if d = CHR '')'' then takeWhile (\<lambda>x. \<not> paren x) cs # find_groups ds
             else find_groups cs
         | [] \<Rightarrow> find_groups cs)
      else find_groups cs)"
  by pat_completeness auto
termination
proof (relation "measure length")
  fix c :: char and cs d ds
  assume "dropWhile (\<lambda>x. \<not> paren x) cs = d # ds"
  then have "length (d # ds) \<le> length cs" by (metis length_dropWhile_le)
  then show "(ds, c # cs) \<in> measure length" by simp
qed auto

definition aces :: "string \<Rightarrow> string list list option" where
  "aces sddl =
     (case dacl sddl of
        None \<Rightarrow> None
      | Some d \<Rightarrow>
          (let raw = find_groups d; items = map (split_char (CHR '';'')) raw in
           if raw \<noteq> [] \<and> list_all (\<lambda>item. length item = 6) items then Some items else None))"

text \<open>\<open>int(text, 16)\<close> on a text that starts with \<open>0x\<close>: one underscore may follow the prefix and
  single ones separate digits; white space may follow.\<close>

definition hex_int :: "string \<Rightarrow> nat option" where
  "hex_int lowered =
     (let body = drop 2 (strip lowered);
          body' = (if body \<noteq> [] \<and> hd body = CHR ''_'' then tl body else body)
      in map_option (foldl (\<lambda>acc c. 16 * acc + the (hex_val c)) 0)
           (digit_groups (\<lambda>c. hex_val c \<noteq> None) body'))"

definition rights_values :: "(string \<times> nat) list" where
  "rights_values =
     [(''GA'', 0x10000000), (''GW'', 0x40000000), (''GR'', 0x80000000), (''GX'', 0x20000000),
      (''FA'', 0x001F01FF), (''FW'', 0x00120116), (''FR'', 0x00120089), (''FX'', 0x001200A0),
      (''CC'', 0x00000001), (''DC'', 0x00000002), (''LC'', 0x00000004), (''SW'', 0x00000008),
      (''RP'', 0x00000010), (''WP'', 0x00000020), (''DT'', 0x00000040), (''LO'', 0x00000080),
      (''CR'', 0x00000100), (''SD'', 0x00010000), (''RC'', 0x00020000), (''WD'', 0x00040000),
      (''WO'', 0x00080000)]"

fun or_rights :: "nat \<Rightarrow> string \<Rightarrow> nat option" where
  "or_rights result (a # b # rest) =
     (case map_of rights_values (upper_str [a, b]) of
        None \<Rightarrow> None
      | Some v \<Rightarrow> or_rights (result OR v) rest)"
| "or_rights result _ = Some result"

definition rights_mask :: "string \<Rightarrow> nat option" where
  "rights_mask rights =
     (if startswith (lower_str rights) ''0x'' then hex_int (lower_str rights)
      else if length rights mod 2 \<noteq> 0 then None
      else or_rights 0 rights)"

section \<open>The three policies\<close>

definition SYSTEM_SIDS :: "string list" where
  "SYSTEM_SIDS = [''SY'', ''S-1-5-18'']"

definition ADMIN_SIDS :: "string list" where
  "ADMIN_SIDS = [''BA'', ''S-1-5-32-544'']"

definition TRUSTED_INSTALLER_SIDS :: "string list" where
  "TRUSTED_INSTALLER_SIDS = [''S-1-5-80-956008885-3418522649-1831038044-1853292631-2271478464'']"

definition LOCAL_SERVICE_SIDS :: "string list" where
  "LOCAL_SERVICE_SIDS = [''LS'', ''S-1-5-19'']"

definition WRITE_MASK :: nat where
  "WRITE_MASK = 0x10000000 OR 0x40000000 OR 0x000D0156"

definition REPLACE_MASK :: nat where
  "REPLACE_MASK = 0x10000000 OR 0x40000000 OR 0x000D0040"

text \<open>The loop over the entries of the file: \<open>None\<close> is the early \<open>return False\<close>.\<close>

fun file_ace_loop :: "bool \<Rightarrow> bool \<Rightarrow> string list list \<Rightarrow> (bool \<times> bool) option" where
  "file_ace_loop system local_service [] = Some (system, local_service)"
| "file_ace_loop system local_service (ace # rest) =
     (let rights = ace ! 2; trustee = ace ! 5; granted = rights_mask rights in
      if ace ! 0 \<noteq> ''A'' \<or> ace ! 1 \<noteq> [] \<or> ace ! 3 \<noteq> [] \<or> ace ! 4 \<noteq> [] then None
      else if trustee \<in> set SYSTEM_SIDS then
        (if upper_str rights \<notin> {''FA'', ''GA''} \<and> granted \<noteq> Some 0x001F01FF then None
         else file_ace_loop True local_service rest)
      else if trustee \<in> set LOCAL_SERVICE_SIDS then
        (if upper_str rights \<notin> {''FR'', ''GR''} \<and> granted \<noteq> Some 0x00120089 then None
         else file_ace_loop system True rest)
      else None)"

definition sddl_is_restricted :: "string \<Rightarrow> bool" where
  "sddl_is_restricted sddl =
     (case (dacl sddl, aces sddl) of
        (Some d, Some as) \<Rightarrow>
          if \<not> startswith d ''D:P'' \<or> length as \<noteq> 2 then False
          else (case file_ace_loop False False as of
                  None \<Rightarrow> False
                | Some (system, local_service) \<Rightarrow> system \<and> local_service)
      | _ \<Rightarrow> False)"

fun flag_parts :: "string \<Rightarrow> string list" where
  "flag_parts (a # b # rest) = [a, b] # flag_parts rest"
| "flag_parts [] = []"
| "flag_parts s = [s]"

definition known_flags :: "string list" where
  "known_flags = [''CI'', ''OI'', ''NP'', ''IO'', ''ID'', ''SA'', ''FA'']"

definition directory_ace_ok :: "nat \<Rightarrow> string list \<Rightarrow> bool" where
  "directory_ace_ok unsafe_mask ace =
     (let ace_type = ace ! 0; flags = ace ! 1; trustee = ace ! 5 in
      case rights_mask (ace ! 2) of
        None \<Rightarrow> False
      | Some m \<Rightarrow>
          if ace_type \<notin> {''A'', ''D''} \<or> length flags mod 2 \<noteq> 0 \<or>
             \<not> list_all (\<lambda>f. f \<in> set known_flags) (flag_parts flags) then False
          else if ace_type = ''A'' \<and> ''IO'' \<notin> set (flag_parts flags) \<and>
                  trustee \<notin> set (SYSTEM_SIDS @ ADMIN_SIDS) \<and> m AND unsafe_mask \<noteq> 0 then False
          else True)"

definition directory_sddl_respects_mask :: "string \<Rightarrow> nat \<Rightarrow> bool" where
  "directory_sddl_respects_mask sddl unsafe_mask =
     (case aces sddl of
        None \<Rightarrow> False
      | Some as \<Rightarrow> list_all (directory_ace_ok unsafe_mask) as)"

definition directory_sddl_is_restricted :: "string \<Rightarrow> bool" where
  "directory_sddl_is_restricted sddl = directory_sddl_respects_mask sddl WRITE_MASK"

definition ancestor_sddl_is_restricted :: "string \<Rightarrow> bool" where
  "ancestor_sddl_is_restricted sddl = directory_sddl_respects_mask sddl REPLACE_MASK"

section \<open>The bounded read\<close>

text \<open>\<open>read_file total capacity\<close> is \<open>ReadFile\<close> at the position \<open>total\<close>, the bytes it stored, \<open>None\<close>
  a failure. It stores at most \<open>capacity\<close> bytes; the loop ends because the total grows.\<close>

datatype read_error = Read_failed | File_too_large

function read_chunks :: "(nat \<Rightarrow> nat \<Rightarrow> string option) \<Rightarrow> nat \<Rightarrow> string \<Rightarrow> read_error + string" where
  "read_chunks read_file limit chunks =
     (let total = length chunks; capacity = min 8192 (limit + 1 - total) in
      case read_file total capacity of
        None \<Rightarrow> Inl Read_failed
      | Some buffer \<Rightarrow>
          (let data = take capacity buffer in
           if data = [] then Inr chunks
           else if limit < total + length data then Inl File_too_large
           else read_chunks read_file limit (chunks @ data)))"
  by pat_completeness auto
termination
proof (relation "measure (\<lambda>(read_file, limit, chunks). Suc limit - length chunks)")
  fix read_file :: "nat \<Rightarrow> nat \<Rightarrow> string option" and chunks buffer data :: string
    and limit total capacity
  assume "total = length chunks" "data = take capacity buffer" "data \<noteq> []"
    "\<not> limit < total + length data"
  then have "0 < length data" "length chunks + length data \<le> limit" by auto
  then show "((read_file, limit, chunks @ data), read_file, limit, chunks)
      \<in> measure (\<lambda>(read_file, limit, chunks). Suc limit - length chunks)"
    by (simp only: in_measure prod.case length_append)
qed simp

declare read_chunks.simps [simp del]

definition read_limited ::
  "int option \<Rightarrow> (nat \<Rightarrow> nat \<Rightarrow> string option) \<Rightarrow> nat \<Rightarrow> read_error + string" where
  "read_limited file_size read_file limit =
     (case file_size of
        None \<Rightarrow> Inl Read_failed
      | Some n \<Rightarrow> if int limit < n then Inl File_too_large else read_chunks read_file limit [])"

section \<open>The walk to the root\<close>

record object_info =
  oi_final_path :: string
  oi_identity :: "int \<times> int"
  oi_is_directory :: bool
  oi_is_reparse_point :: bool
  oi_owner_sid :: string
  oi_sddl :: string

definition MAX_CONFIG_BYTES :: nat where
  "MAX_CONFIG_BYTES = 65536"

definition windows_path_key :: "(string \<Rightarrow> string) \<Rightarrow> (string \<Rightarrow> string) \<Rightarrow> string \<Rightarrow> string" where
  "windows_path_key normpath casefold path =
     (let value = normpath path; bs = CHR 0x5C in
      casefold
        (if startswith value [bs, bs, CHR ''?'', bs, CHR ''U'', CHR ''N'', CHR ''C'', bs]
         then [bs, bs] @ drop 8 value
         else if startswith value [bs, bs, CHR ''?'', bs] then drop 4 value
         else value))"

text \<open>\<open>str(path)\<close> of an absolute \<open>PureWindowsPath\<close>.\<close>

definition path_str :: "string \<Rightarrow> string list \<Rightarrow> string" where
  "path_str anchor parts = anchor @ join_char (CHR 0x5C) parts"

definition unsafe_path :: "config_error" where
  "unsafe_path = Config_error ''unsafe config path''"

definition unsafe_parent :: "config_error" where
  "unsafe_parent = Config_error ''unsafe parent directory permissions''"

definition unavailable :: "config_error" where
  "unavailable = Config_error ''config file is unavailable''"

definition directory_shape_ok :: "(string \<Rightarrow> string) \<Rightarrow> string \<Rightarrow> (int \<times> int) list \<Rightarrow> object_info \<Rightarrow> bool" where
  "directory_shape_ok key path identities info \<longleftrightarrow>
     \<not> (\<not> oi_is_directory info \<or> oi_is_reparse_point info \<or> oi_identity info \<in> set identities \<or>
        key (oi_final_path info) \<noteq> key path)"

text \<open>\<open>walk_parents\<close> is the loop over the directories, innermost first: the parts of the current
  directory are reversed, so that taking the parent removes the head. The root comes last.\<close>

fun walk_parents ::
  "(string \<Rightarrow> string) \<Rightarrow> (string \<Rightarrow> bool \<Rightarrow> object_info option) \<Rightarrow> string \<Rightarrow> string list \<Rightarrow> bool \<Rightarrow>
   (int \<times> int) list \<Rightarrow> config_error + unit" where
  "walk_parents key look anchor [] immediate identities =
     (case look (path_str anchor []) True of
        None \<Rightarrow> Inl unavailable
      | Some info \<Rightarrow>
          if \<not> directory_shape_ok key (path_str anchor []) identities info then Inl unsafe_path
          else if oi_owner_sid info \<notin> set (SYSTEM_SIDS @ ADMIN_SIDS @ TRUSTED_INSTALLER_SIDS) \<or>
                  \<not> ancestor_sddl_is_restricted (oi_sddl info) then Inl unsafe_parent
          else Inr ())"
| "walk_parents key look anchor (p # up) immediate identities =
     (let path = path_str anchor (rev (p # up)) in
      case look path True of
        None \<Rightarrow> Inl unavailable
      | Some info \<Rightarrow>
          if \<not> directory_shape_ok key path identities info then Inl unsafe_path
          else if oi_owner_sid info \<notin>
                    set (SYSTEM_SIDS @ ADMIN_SIDS @ (if immediate then [] else TRUSTED_INSTALLER_SIDS)) \<or>
                  \<not> (if immediate then directory_sddl_is_restricted (oi_sddl info)
                     else ancestor_sddl_is_restricted (oi_sddl info)) then Inl unsafe_parent
          else walk_parents key look anchor up False (oi_identity info # identities))"

definition windows_settings_from_file ::
  "(string \<Rightarrow> string) \<Rightarrow> (string \<Rightarrow> string \<times> string list) \<Rightarrow> (string \<Rightarrow> json option) \<Rightarrow>
   (string \<Rightarrow> bool \<Rightarrow> object_info option) \<Rightarrow> (nat \<Rightarrow> read_error + string) \<Rightarrow> string \<Rightarrow>
   config_error + settings" where
  "windows_settings_from_file key pure_path scan look read path =
     (case look path False of
        None \<Rightarrow> Inl unavailable
      | Some leaf \<Rightarrow>
          if oi_is_directory leaf \<or> oi_is_reparse_point leaf \<or> key (oi_final_path leaf) \<noteq> key path
          then Inl unsafe_path
          else if oi_owner_sid leaf \<notin> set SYSTEM_SIDS \<or> \<not> sddl_is_restricted (oi_sddl leaf)
          then Inl (Config_error ''unsafe config permissions'')
          else
            (case pure_path (oi_final_path leaf) of
               (anchor, parts) \<Rightarrow>
                 (case walk_parents key look anchor (tl (rev parts)) True [oi_identity leaf] of
                    Inl e \<Rightarrow> Inl e
                  | Inr _ \<Rightarrow>
                      (case read MAX_CONFIG_BYTES of
                         Inl Read_failed \<Rightarrow> Inl unavailable
                       | Inl File_too_large \<Rightarrow> Inl (Config_error ''config file is too large'')
                       | Inr raw \<Rightarrow>
                           (case parse_json scan raw of
                              Inl e \<Rightarrow> Inl e
                            | Inr data \<Rightarrow> settings_from_mapping data)))))"

section \<open>What the policies guarantee\<close>

lemma upper_char_eq:
  assumes "upper_char c = d" and "is_upper d"
  shows "c = d \<or> c = char_of (of_char d + 32 :: nat)"
proof (cases "is_lower c")
  case True
  then have "of_char c = (of_char d :: nat) + 32"
    using assms by (auto simp: upper_char_def is_lower_def char_in_def)
  then show ?thesis by (metis char_of_char)
next
  case False
  with assms show ?thesis by (simp add: upper_char_def)
qed

lemma two_letter_rights:
  assumes "upper_str r = [a, b]" and "is_upper a" and "map_of rights_values [a, b] = Some v"
  shows "rights_mask r = Some v"
proof -
  from assms(1) obtain x y where r: "r = [x, y]" "upper_char x = a"
    by (auto simp: upper_str_def map_eq_Cons_conv)
  then have "x = a \<or> x = char_of (of_char a + 32 :: nat)"
    using upper_char_eq assms(2) by blast
  then have "65 \<le> (of_char x :: nat)"
    using assms(2) by (auto simp: is_upper_def char_in_def)
  then have "65 \<le> (of_char (lower_char x) :: nat)"
    by (auto simp: lower_char_def is_upper_def char_in_def)
  then have "lower_char x \<noteq> CHR ''0''" by auto
  with r assms show ?thesis
    by (simp add: rights_mask_def startswith_def lower_str_def)
qed

definition read_only_ace :: "string list \<Rightarrow> bool" where
  "read_only_ace ace \<longleftrightarrow> (\<exists>m. rights_mask (ace ! 2) = Some m \<and> m AND WRITE_MASK = 0)"

lemma read_only_rights:
  "upper_str (ace ! 2) = ''FR'' \<Longrightarrow> read_only_ace ace"
  "upper_str (ace ! 2) = ''GR'' \<Longrightarrow> read_only_ace ace"
  "rights_mask (ace ! 2) = Some 0x00120089 \<Longrightarrow> read_only_ace ace"
  using two_letter_rights [of "ace ! 2" "CHR ''F''" "CHR ''R''" "0x00120089"]
    two_letter_rights [of "ace ! 2" "CHR ''G''" "CHR ''R''" "0x80000000"]
  by (auto simp: read_only_ace_def rights_values_def is_upper_def char_in_def WRITE_MASK_def)

definition file_ace_safe :: "string list \<Rightarrow> bool" where
  "file_ace_safe ace \<longleftrightarrow>
     ace ! 0 = ''A'' \<and> ace ! 1 = [] \<and>
     (ace ! 5 \<in> set SYSTEM_SIDS \<or> ace ! 5 \<in> set LOCAL_SERVICE_SIDS \<and> read_only_ace ace)"

lemma file_ace_loop_safe:
  "file_ace_loop sys ls as = Some (sys', ls') \<Longrightarrow>
   (\<forall>ace \<in> set as. file_ace_safe ace) \<and>
   (sys' \<longrightarrow> sys \<or> (\<exists>ace \<in> set as. ace ! 5 \<in> set SYSTEM_SIDS)) \<and>
   (ls' \<longrightarrow> ls \<or> (\<exists>ace \<in> set as. ace ! 5 \<in> set LOCAL_SERVICE_SIDS))"
proof (induction sys ls as rule: file_ace_loop.induct)
  case (1 sys ls)
  then show ?case by simp
next
  case (2 sys ls ace rest)
  from "2.prems" have a: "ace ! 0 = ''A''" "ace ! 1 = []" "ace ! 3 = []" "ace ! 4 = []"
    by (auto simp: Let_def split: if_splits)
  show ?case
  proof (cases "ace ! 5 \<in> set SYSTEM_SIDS")
    case True
    with "2.prems" a have "file_ace_loop True ls rest = Some (sys', ls')"
      and ok: "\<not> (upper_str (ace ! 2) \<notin> {''FA'', ''GA''} \<and> rights_mask (ace ! 2) \<noteq> Some 0x001F01FF)"
      by (simp_all add: Let_def split: if_splits)
    with "2.IH"(1) a True show ?thesis by (auto simp: file_ace_safe_def)
  next
    case False
    with "2.prems" a have ls: "ace ! 5 \<in> set LOCAL_SERVICE_SIDS"
      and rest: "file_ace_loop sys True rest = Some (sys', ls')"
      and ok: "\<not> (upper_str (ace ! 2) \<notin> {''FR'', ''GR''} \<and> rights_mask (ace ! 2) \<noteq> Some 0x00120089)"
      by (simp_all add: Let_def split: if_splits)
    from ok read_only_rights [of ace] have "read_only_ace ace" by blast
    with "2.IH"(2) rest ok a False ls show ?thesis by (auto simp: file_ace_safe_def)
  qed
qed

lemma sids_disjoint: "x \<in> set SYSTEM_SIDS \<Longrightarrow> x \<notin> set LOCAL_SERVICE_SIDS"
  by (auto simp: SYSTEM_SIDS_def LOCAL_SERVICE_SIDS_def)

lemma sddl_is_restricted_cases:
  assumes "sddl_is_restricted sddl"
  obtains d a b where "dacl sddl = Some d" "startswith d ''D:P''" "aces sddl = Some [a, b]"
    "file_ace_safe a" "file_ace_safe b"
    "a ! 5 \<in> set SYSTEM_SIDS \<and> b ! 5 \<in> set LOCAL_SERVICE_SIDS \<or>
     a ! 5 \<in> set LOCAL_SERVICE_SIDS \<and> b ! 5 \<in> set SYSTEM_SIDS"
proof -
  from assms obtain d as where d: "dacl sddl = Some d" "startswith d ''D:P''" "aces sddl = Some as"
    "length as = 2" "file_ace_loop False False as = Some (True, True)"
    by (auto simp: sddl_is_restricted_def split: option.splits if_splits)
  from d(4) obtain a b where as: "as = [a, b]"
    by (metis (no_types, opaque_lifting) One_nat_def Suc_1 length_0_conv length_Suc_conv)
  from file_ace_loop_safe [OF d(5)] sids_disjoint show ?thesis
    using that d as by auto
qed

lemma directory_ace_safe:
  "directory_ace_ok unsafe ace \<Longrightarrow> ace ! 0 = ''A'' \<Longrightarrow> ''IO'' \<notin> set (flag_parts (ace ! 1)) \<Longrightarrow>
   ace ! 5 \<notin> set (SYSTEM_SIDS @ ADMIN_SIDS) \<Longrightarrow>
   \<exists>m. rights_mask (ace ! 2) = Some m \<and> m AND unsafe = 0"
  by (auto simp: directory_ace_ok_def Let_def split: option.splits if_splits)

lemma replace_subset_write: "m AND WRITE_MASK = 0 \<Longrightarrow> m AND REPLACE_MASK = 0"
proof -
  assume *: "m AND WRITE_MASK = 0"
  have "REPLACE_MASK = WRITE_MASK AND REPLACE_MASK" by (simp add: WRITE_MASK_def REPLACE_MASK_def)
  then have "m AND REPLACE_MASK = (m AND WRITE_MASK) AND REPLACE_MASK"
    by (metis and.assoc)
  with * show ?thesis by simp
qed

lemma read_chunks_bounded:
  "read_chunks read_file limit chunks = Inr raw \<Longrightarrow> length chunks \<le> limit \<Longrightarrow>
   length raw \<le> limit \<and> (\<exists>more. raw = chunks @ more)"
proof (induction read_file limit chunks rule: read_chunks.induct)
  case (1 read_file limit chunks)
  let ?cap = "min 8192 (limit + 1 - length chunks)"
  from "1.prems"(1) obtain buffer where b: "read_file (length chunks) ?cap = Some buffer"
    by (subst (asm) read_chunks.simps) (auto simp: Let_def split: option.splits)
  show ?case
  proof (cases "take ?cap buffer = []")
    case True
    with "1.prems" b show ?thesis
      by (subst (asm) read_chunks.simps) (simp add: Let_def)
  next
    case False
    with "1.prems"(1) b have "\<not> limit < length chunks + length (take ?cap buffer)"
      and "read_chunks read_file limit (chunks @ take ?cap buffer) = Inr raw"
      by (subst (asm) read_chunks.simps, simp add: Let_def split: if_splits)+
    with "1.IH" [OF refl refl b refl False] show ?thesis by auto
  qed
qed

definition vetted_directory ::
  "(string \<Rightarrow> string) \<Rightarrow> (string \<Rightarrow> bool \<Rightarrow> object_info option) \<Rightarrow> (int \<times> int) list \<Rightarrow> bool \<Rightarrow> string \<Rightarrow> bool" where
  "vetted_directory key look ids strict path \<longleftrightarrow>
     (\<exists>info. look path True = Some info \<and> oi_is_directory info \<and> \<not> oi_is_reparse_point info \<and>
        oi_identity info \<notin> set ids \<and> key (oi_final_path info) = key path \<and>
        (if strict then directory_sddl_is_restricted (oi_sddl info)
         else ancestor_sddl_is_restricted (oi_sddl info)))"

lemma vetted_directory_mono:
  "vetted_directory key look ids strict path \<Longrightarrow> set ids' \<subseteq> set ids \<Longrightarrow>
   vetted_directory key look ids' strict path"
  unfolding vetted_directory_def by auto

lemma walk_parents_sound:
  "walk_parents key look anchor up immediate ids = Inr u \<Longrightarrow> n \<le> length up \<Longrightarrow>
   vetted_directory key look ids (n = 0 \<and> immediate \<and> up \<noteq> []) (path_str anchor (rev (drop n up)))"
proof (induction up arbitrary: immediate ids n)
  case Nil
  then show ?case
    by (auto simp: directory_shape_ok_def vetted_directory_def split: option.splits if_splits)
next
  case (Cons p up)
  let ?path = "path_str anchor (rev (p # up))"
  from Cons.prems(1) obtain info where i: "look ?path True = Some info"
    "directory_shape_ok key ?path ids info"
    "if immediate then directory_sddl_is_restricted (oi_sddl info) else ancestor_sddl_is_restricted (oi_sddl info)"
    and rest: "walk_parents key look anchor up False (oi_identity info # ids) = Inr u"
    by (auto simp: Let_def split: option.splits if_splits)
  show ?case
  proof (cases n)
    case 0
    with i show ?thesis by (simp add: directory_shape_ok_def vetted_directory_def)
  next
    case (Suc k)
    with Cons.prems(2) Cons.IH [OF rest, of k] show ?thesis
      using vetted_directory_mono [of key look "oi_identity info # ids" _ _ ids] by auto
  qed
qed

lemma windows_settings_from_file_cases:
  assumes "windows_settings_from_file key pure_path scan look read path = Inr s"
  obtains leaf anchor parts raw data where
    "look path False = Some leaf" "\<not> oi_is_directory leaf" "\<not> oi_is_reparse_point leaf"
    "key (oi_final_path leaf) = key path" "oi_owner_sid leaf \<in> set SYSTEM_SIDS"
    "sddl_is_restricted (oi_sddl leaf)" "pure_path (oi_final_path leaf) = (anchor, parts)"
    "walk_parents key look anchor (tl (rev parts)) True [oi_identity leaf] = Inr ()"
    "read MAX_CONFIG_BYTES = Inr raw" "parse_json scan raw = Inr data"
    "settings_from_mapping data = Inr s"
proof -
  obtain leaf where leaf: "look path False = Some leaf"
    using assms by (cases "look path False") (simp_all add: windows_settings_from_file_def)
  obtain anchor parts where parts: "pure_path (oi_final_path leaf) = (anchor, parts)"
    by (cases "pure_path (oi_final_path leaf)")
  from assms leaf parts obtain raw where raw: "read MAX_CONFIG_BYTES = Inr raw"
    by (auto simp: windows_settings_from_file_def split: if_splits sum.splits read_error.splits)
  with assms leaf parts obtain data where data: "parse_json scan raw = Inr data"
    by (auto simp: windows_settings_from_file_def split: if_splits sum.splits)
  show ?thesis
    by (rule that [OF leaf _ _ _ _ _ parts _ raw data])
      (use assms leaf parts raw data in \<open>auto simp: windows_settings_from_file_def
         split: if_splits sum.splits\<close>)
qed

section \<open>Properties\<close>

text \<open>A file descriptor the loader accepts has a protected access list of exactly two entries,
  one for SYSTEM and one for LOCAL SERVICE, and the entry of LOCAL SERVICE allows none of the
  rights that write, delete or change the protection of the file.\<close>

theorem file_acl_sound:
  assumes "sddl_is_restricted sddl"
  shows "\<exists>d system service. dacl sddl = Some d \<and> startswith d ''D:P'' \<and>
     (aces sddl = Some [system, service] \<or> aces sddl = Some [service, system]) \<and>
     system ! 5 \<in> set SYSTEM_SIDS \<and> service ! 5 \<in> set LOCAL_SERVICE_SIDS \<and>
     (\<exists>m. rights_mask (service ! 2) = Some m \<and> m AND WRITE_MASK = 0)"
  using assms
proof (rule sddl_is_restricted_cases)
  fix d a b
  assume *: "dacl sddl = Some d" "startswith d ''D:P''" "aces sddl = Some [a, b]"
    "file_ace_safe a" "file_ace_safe b"
    "a ! 5 \<in> set SYSTEM_SIDS \<and> b ! 5 \<in> set LOCAL_SERVICE_SIDS \<or>
     a ! 5 \<in> set LOCAL_SERVICE_SIDS \<and> b ! 5 \<in> set SYSTEM_SIDS"
  then show ?thesis
    using sids_disjoint [of "a ! 5"] sids_disjoint [of "b ! 5"]
    unfolding file_ace_safe_def read_only_ace_def by metis
qed

lemma installed_file_sddl: "sddl_is_restricted ''O:SYG:SYD:P(A;;FA;;;SY)(A;;FR;;;LS)''"
  by (simp add: sddl_is_restricted_def aces_def dacl_def startswith_def paren_def Let_def
      SYSTEM_SIDS_def LOCAL_SERVICE_SIDS_def upper_str_def upper_char_def is_lower_def char_in_def)

theorem file_acl_sound_witness:
  "sddl_is_restricted ''O:SYG:SYD:P(A;;FA;;;SY)(A;;FR;;;LS)'' \<and>
   (\<exists>system service. aces ''O:SYG:SYD:P(A;;FA;;;SY)(A;;FR;;;LS)'' = Some [system, service] \<or>
      aces ''O:SYG:SYD:P(A;;FA;;;SY)(A;;FR;;;LS)'' = Some [service, system])"
  using file_acl_sound [OF installed_file_sddl] installed_file_sddl by blast

text \<open>A directory descriptor the loader accepts allows none of the unsafe rights in force on
  the directory itself to anyone but SYSTEM and the administrators, and the policy for the
  directory of the file is at least as strict as the one for the directories above it.\<close>

theorem directory_acl_sound:
  assumes "directory_sddl_respects_mask sddl unsafe" and "aces sddl = Some as" and "ace \<in> set as"
    and "ace ! 0 = ''A''" and "''IO'' \<notin> set (flag_parts (ace ! 1))"
    and "ace ! 5 \<notin> set (SYSTEM_SIDS @ ADMIN_SIDS)"
  shows "(\<exists>m. rights_mask (ace ! 2) = Some m \<and> m AND unsafe = 0) \<and>
    (unsafe = WRITE_MASK \<longrightarrow> (\<exists>m. rights_mask (ace ! 2) = Some m \<and> m AND REPLACE_MASK = 0))"
proof -
  from assms(1,2,3) have "directory_ace_ok unsafe ace"
    by (auto simp: directory_sddl_respects_mask_def list_all_iff)
  from directory_ace_safe [OF this assms(4-6)] replace_subset_write show ?thesis by auto
qed

lemma example_directory_sddl:
  "directory_sddl_respects_mask ''D:(A;OICI;FA;;;BA)(A;OICI;0x1200a9;;;BU)'' WRITE_MASK"
  "aces ''D:(A;OICI;FA;;;BA)(A;OICI;0x1200a9;;;BU)'' =
     Some [[''A'', ''OICI'', ''FA'', [], [], ''BA''], [''A'', ''OICI'', ''0x1200a9'', [], [], ''BU'']]"
  "directory_sddl_respects_mask ''D:(A;OICI;FA;;;BA)(A;OICI;0x1200a9;;;BU)'' REPLACE_MASK"
  by (simp_all add: directory_sddl_respects_mask_def aces_def dacl_def startswith_def paren_def
      Let_def directory_ace_ok_def rights_mask_def hex_int_def strip_def is_space_def char_in_def
      digit_groups_def hex_val_def lower_str_def lower_char_def is_upper_def upper_str_def
      upper_char_def is_lower_def rights_values_def known_flags_def WRITE_MASK_def REPLACE_MASK_def
      SYSTEM_SIDS_def ADMIN_SIDS_def char_of_eq_iff take_bit_eq_mod)

theorem directory_acl_sound_witness:
  "\<exists>m. rights_mask ''0x1200a9'' = Some m \<and> m AND WRITE_MASK = 0"
  using directory_acl_sound [OF example_directory_sddl(1,2), of "[''A'', ''OICI'', ''0x1200a9'', [], [], ''BU'']"]
  by (simp add: SYSTEM_SIDS_def ADMIN_SIDS_def)


text \<open>A drive with one directory that holds the file.\<close>

definition example_look :: "string \<Rightarrow> bool \<Rightarrow> object_info option" where
  "example_look path directory =
     (if directory then
        Some \<lparr>oi_final_path = path, oi_identity = (1, int (length path)), oi_is_directory = True,
              oi_is_reparse_point = False, oi_owner_sid = ''BA'',
              oi_sddl = ''D:(A;OICI;FA;;;BA)(A;OICI;0x1200a9;;;BU)''\<rparr>
      else
        Some \<lparr>oi_final_path = path, oi_identity = (2, 0), oi_is_directory = False,
              oi_is_reparse_point = False, oi_owner_sid = ''SY'',
              oi_sddl = ''O:SYG:SYD:P(A;;FA;;;SY)(A;;FR;;;LS)''\<rparr>)"

definition example_config :: "(string \<times> json) list" where
  "example_config =
     [(''schema_version'', JInt 1), (''node_id'', JStr ''edge-1''),
      (''ticket_secret'', JStr ''0123456789abcdef0123456789abcdef''), (''max_connections'', JInt 64),
      (''max_frame_bytes'', JInt 1048576), (''max_bytes_per_connection'', JInt 67108864),
      (''idle_timeout'', JInt 60), (''max_connection_seconds'', JInt 600),
      (''connect_timeout'', JFloat (Fin 10)), (''ticket_max_ttl'', JInt 60)]"

lemma example_mapping: "\<exists>s. settings_from_mapping example_config = Inr s"
proof -
  have fields: "map fst example_config = FIELDS" by (simp add: example_config_def FIELDS_def)
  then have keys: "fst ` set example_config = set FIELDS" by (metis set_map)
  have get: "member example_config ''schema_version'' = JInt 1"
    "member example_config ''node_id'' = JStr ''edge-1''"
    "member example_config ''ticket_secret'' = JStr ''0123456789abcdef0123456789abcdef''"
    "member example_config ''max_connections'' = JInt 64"
    "member example_config ''max_frame_bytes'' = JInt 1048576"
    "member example_config ''max_bytes_per_connection'' = JInt 67108864"
    "member example_config ''idle_timeout'' = JInt 60"
    "member example_config ''max_connection_seconds'' = JInt 600"
    "member example_config ''connect_timeout'' = JFloat (Fin 10)"
    "member example_config ''ticket_max_ttl'' = JInt 60"
    by (simp_all add: member_def example_config_def)
  have ints: "find (\<lambda>fl. \<not> int_field_ok example_config fl) INTEGER_LIMITS = None"
    by (simp add: INTEGER_LIMITS_def int_field_ok_def get int_in_def)
  have floats: "check_float_fields example_config FLOAT_LIMITS = Inr ()"
    by (simp add: FLOAT_LIMITS_def float_field_ok_def get int_in_def float_overflows_def)
  have secret: "length (utf8_encode ''0123456789abcdef0123456789abcdef'') = 32"
    by (simp add: utf8_encode_def utf8_char_def)
  have "validate_identity (JStr ''edge-1'') (utf8_encode ''0123456789abcdef0123456789abcdef'') False = Inr ()"
    using secret by (simp add: validate_identity_def node_id_re_def node_id_char_def is_alnum_def
        is_digit_def is_upper_def is_lower_def char_in_def)
  then show ?thesis
    unfolding settings_from_mapping_def by (simp add: fields keys get ints floats Let_def)
qed

lemma example_scan:
  "parse_json (\<lambda>_. Some (JObj example_config)) raw = Inr example_config"
  by (simp add: parse_json_def example_config_def)


text \<open>A configuration file with two members of the same name is refused, whatever the
  members are.\<close>

theorem duplicate_fields_refused:
  assumes "scan raw = Some (JObj ms)" and "\<not> distinct (map fst ms)"
  shows "\<exists>e. parse_json scan raw = Inl e"
proof (cases "parse_json scan raw")
  case (Inr data)
  with assms show ?thesis by (auto elim!: parse_json_keys)
qed simp

theorem duplicate_fields_refused_witness:
  "\<exists>e. parse_json (\<lambda>_. Some (JObj [(''node_id'', JStr ''a''), (''node_id'', JStr ''b'')])) [] = Inl e"
  by (rule duplicate_fields_refused [OF refl]) simp

text \<open>Reading the file always ends, and the bytes it returns are within the limit.\<close>

theorem read_limited_bounded:
  assumes "read_limited file_size read_file limit = Inr raw"
  shows "length raw \<le> limit"
  using assms read_chunks_bounded [of read_file limit "[]"]
  by (auto simp: read_limited_def split: option.splits if_splits)

theorem read_limited_bounded_witness:
  "read_limited (Some 2) (\<lambda>total capacity. Some (take capacity (drop total ''ab''))) 2 = Inr ''ab'' \<and>
   length ''ab'' \<le> 2"
proof -
  have "read_limited (Some 2) (\<lambda>total capacity. Some (take capacity (drop total ''ab''))) 2 = Inr ''ab''"
    by (simp add: read_limited_def read_chunks.simps)
  from read_limited_bounded [OF this] this show ?thesis by simp
qed

end
