(* ===== verification/Control_Model.thy ===== *)
theory Control_Model
  imports Prelude Json
begin

text \<open>
  The data of the control plane (\<open>cloudbrowser/models.py\<close>) and what every handler of
  \<open>cloudbrowser/app.py\<close> shares: the database as a record of tables, HTTP errors, response values and
  \<open>audit\<close>.

  A handler is a function from the committed database to an error or a response and the database it
  has committed: a handler that raises before \<open>db.commit()\<close> returns the database it was given, since
  the session is discarded. Clock readings are a function from the position of the reading in the
  handler to the instant it gives; identifiers and secrets drawn at random are arguments.

  The consistency predicate \<open>db_ok\<close> collects the key and uniqueness constraints of the tables.
\<close>

section \<open>Rows\<close>

record egress_profile =
  eg_id :: int
  eg_name :: string
  eg_kind :: string
  eg_config_json :: string

record workspace =
  ws_id :: int
  ws_name :: string
  ws_egress_profile_id :: int

record system_setting =
  ss_key :: string
  ss_value :: string

record user =
  us_id :: int
  us_username :: string
  us_password_hash :: string
  us_role :: string
  us_enabled :: bool
  us_token_version :: int
  us_workspace_id :: int
  us_created_at :: instant
  us_deleted_at :: "instant option"

record login_throttle =
  th_key_hash :: string
  th_failure_count :: int
  th_penalty_level :: int
  th_window_started_at :: instant
  th_blocked_until :: "instant option"
  th_updated_at :: instant

record device_session =
  dv_id :: string
  dv_user_id :: int
  dv_device_id :: string
  dv_device_name :: string
  dv_platform :: string
  dv_refresh_token_hash :: string
  dv_token_generation :: int
  dv_created_at :: instant
  dv_updated_at :: instant
  dv_last_seen_at :: instant
  dv_expires_at :: instant
  dv_revoked_at :: "instant option"

record edge_node =
  nd_id :: int
  nd_name :: string
  nd_endpoint :: string
  nd_shared_secret :: string
  nd_platform :: string
  nd_enabled :: bool
  nd_maintenance_mode :: bool
  nd_health_status :: string
  nd_last_seen_at :: "instant option"
  nd_latency_ms :: "int option"
  nd_active_connections :: int
  nd_max_connections :: int
  nd_accepted_connections :: int
  nd_denied_connections :: int
  nd_expected_public_ipv4 :: "string option"
  nd_actual_public_ipv4 :: "string option"
  nd_load_1m :: "pyfloat option"
  nd_memory_total_bytes :: "int option"
  nd_memory_available_bytes :: "int option"
  nd_disk_total_bytes :: "int option"
  nd_disk_free_bytes :: "int option"
  nd_uptime_seconds :: "pyfloat option"
  nd_agent_version :: "string option"
  nd_last_error :: "string option"
  nd_created_at :: instant

record node_enrollment =
  en_id :: string
  en_edge_node_id :: int
  en_created_by_user_id :: int
  en_token_hash :: string
  en_report_token_hash :: "string option"
  en_status :: string
  en_phase :: "string option"
  en_expires_at :: instant
  en_claimed_at :: "instant option"
  en_updated_at :: instant
  en_last_error :: "string option"
  en_claimed_public_ipv4 :: "string option"
  en_agent_version :: "string option"

record registration_request =
  rg_id :: string
  rg_status :: string
  rg_public_key_pem :: string
  rg_public_key_fingerprint :: string
  rg_machine_fingerprint :: string
  rg_reported_hostname :: string
  rg_platform :: string
  rg_actual_public_ipv4 :: string
  rg_os_name :: string
  rg_cpu_count :: int
  rg_memory_total_bytes :: int
  rg_disk_total_bytes :: int
  rg_agent_version :: string
  rg_challenge_hash :: "string option"
  rg_registration_token_hash :: "string option"
  rg_challenge_expires_at :: instant
  rg_created_at :: instant
  rg_updated_at :: instant
  rg_proved_at :: "instant option"
  rg_decided_at :: "instant option"
  rg_decided_by_user_id :: "int option"
  rg_edge_node_id :: "int option"
  rg_last_error :: "string option"
  rg_install_admin_ssh_key :: bool

record node_grant =
  gr_id :: int
  gr_user_id :: int
  gr_edge_node_id :: int
  gr_created_at :: instant

record edge_capability =
  cp_id :: int
  cp_edge_node_id :: int
  cp_name :: string
  cp_config_json :: string

record managed_store =
  st_id :: int
  st_label :: string
  st_owner_user_id :: "int option"
  st_edge_node_id :: int
  st_enabled :: bool
  st_created_at :: instant

record store_lease =
  ls_id :: string
  ls_store_id :: int
  ls_owner_user_id :: int
  ls_device_id :: "string option"
  ls_status :: string
  ls_created_at :: instant
  ls_expires_at :: instant
  ls_last_heartbeat_at :: "instant option"
  ls_disconnected_at :: "instant option"

record browser_session =
  bs_id :: string
  bs_user_id :: int
  bs_workspace_id :: int
  bs_profile_key :: string
  bs_status :: string
  bs_endpoint :: "string option"
  bs_created_at :: instant
  bs_updated_at :: instant

text \<open>Response values and the details of an audit event: JSON, with the times a handler prints by
  \<open>isoformat()\<close> kept as instants.\<close>

datatype val =
    VNull
  | VBool bool
  | VInt int
  | VFloat pyfloat
  | VStr string
  | VTime instant
  | VList "val list"
  | VObj "(string \<times> val) list"

type_synonym details = "(string \<times> val) list"

record audit_event =
  au_id :: int
  au_actor_user_id :: "int option"
  au_event_type :: string
  au_target_type :: "string option"
  au_target_id :: "string option"
  au_details :: details
  au_created_at :: instant

record history_entry =
  hs_id :: int
  hs_user_id :: int
  hs_url :: string
  hs_title :: string
  hs_last_visit_ms :: int
  hs_visit_count :: int

record tab_snapshot =
  tb_id :: int
  tb_user_id :: int
  tb_device_id :: string
  tb_tabs :: "(string \<times> string) list"
  tb_updated_at :: instant

record db =
  egress_profiles :: "egress_profile list"
  workspaces :: "workspace list"
  system_settings :: "system_setting list"
  users :: "user list"
  throttles :: "login_throttle list"
  devices :: "device_session list"
  nodes :: "edge_node list"
  enrollments :: "node_enrollment list"
  registrations :: "registration_request list"
  grants :: "node_grant list"
  capabilities :: "edge_capability list"
  stores :: "managed_store list"
  leases :: "store_lease list"
  sessions :: "browser_session list"
  audits :: "audit_event list"
  history :: "history_entry list"
  tabs :: "tab_snapshot list"

section \<open>Errors and clocks\<close>

datatype http_error =
    Http int string
  | Too_many_attempts int
  | Server_error

type_synonym 'a result = "(http_error + 'a) \<times> db"
type_synonym clock = "nat \<Rightarrow> instant"

text \<open>A handler that raises without a commit.\<close>

abbreviation fail :: "int \<Rightarrow> string \<Rightarrow> db \<Rightarrow> 'a result" where
  "fail code detail db \<equiv> (Inl (Http code detail), db)"

section \<open>Look-up by primary key\<close>

definition get_user :: "db \<Rightarrow> int \<Rightarrow> user option" where
  "get_user d i = find_row (\<lambda>r. us_id r = i) (users d)"

definition get_device :: "db \<Rightarrow> string \<Rightarrow> device_session option" where
  "get_device d i = find_row (\<lambda>r. dv_id r = i) (devices d)"

definition get_node :: "db \<Rightarrow> int \<Rightarrow> edge_node option" where
  "get_node d i = find_row (\<lambda>r. nd_id r = i) (nodes d)"

definition get_store :: "db \<Rightarrow> int \<Rightarrow> managed_store option" where
  "get_store d i = find_row (\<lambda>r. st_id r = i) (stores d)"

definition get_lease :: "db \<Rightarrow> string \<Rightarrow> store_lease option" where
  "get_lease d i = find_row (\<lambda>r. ls_id r = i) (leases d)"

definition get_enrollment :: "db \<Rightarrow> string \<Rightarrow> node_enrollment option" where
  "get_enrollment d i = find_row (\<lambda>r. en_id r = i) (enrollments d)"

definition get_registration :: "db \<Rightarrow> string \<Rightarrow> registration_request option" where
  "get_registration d i = find_row (\<lambda>r. rg_id r = i) (registrations d)"

definition get_session :: "db \<Rightarrow> string \<Rightarrow> browser_session option" where
  "get_session d i = find_row (\<lambda>r. bs_id r = i) (sessions d)"

section \<open>Audit\<close>

definition target_name :: "db \<Rightarrow> string option \<Rightarrow> string \<Rightarrow> string" where
  "target_name d target_type target_id =
     (case int_of_str target_id of
        None \<Rightarrow> target_id
      | Some n \<Rightarrow>
          if target_type = Some ''user'' then
            (case get_user d n of Some u \<Rightarrow> us_username u | None \<Rightarrow> target_id)
          else if target_type = Some ''managed_store'' then
            (case get_store d n of Some s \<Rightarrow> st_label s | None \<Rightarrow> target_id)
          else if target_type = Some ''edge_node'' then
            (case get_node d n of Some e \<Rightarrow> nd_name e | None \<Rightarrow> target_id)
          else target_id)"

definition audit_payload :: "db \<Rightarrow> int option \<Rightarrow> string option \<Rightarrow> string option \<Rightarrow> details \<Rightarrow> details" where
  "audit_payload d actor target_type target_id dts =
     (let p1 = (case actor of
                  None \<Rightarrow> dts
                | Some a \<Rightarrow>
                    (case get_user d a of
                       None \<Rightarrow> dts
                     | Some u \<Rightarrow> dict_setdefault ''_actor_username'' (VStr (us_username u)) dts))
      in case target_id of
           None \<Rightarrow> p1
         | Some t \<Rightarrow> dict_setdefault ''_target_name'' (VStr (target_name d target_type t)) p1)"

definition audit ::
  "string \<Rightarrow> int option \<Rightarrow> string option \<Rightarrow> string option \<Rightarrow> details \<Rightarrow> instant \<Rightarrow> db \<Rightarrow> db" where
  "audit event_type actor target_type target_id dts moment d =
     d\<lparr>audits := audits d @
        [\<lparr>au_id = next_id au_id (audits d), au_actor_user_id = actor, au_event_type = event_type,
          au_target_type = target_type, au_target_id = target_id,
          au_details = audit_payload d actor target_type target_id dts, au_created_at = moment\<rparr>]\<rparr>"

text \<open>The request facts a login is audited with.\<close>

record request_info =
  rq_client :: "string option"
  rq_user_agent :: "string option"

definition source_ip :: "request_info \<Rightarrow> string" where
  "source_ip rq = (case rq_client rq of None \<Rightarrow> ''unknown'' | Some h \<Rightarrow> h)"

definition request_audit_details :: "request_info \<Rightarrow> details" where
  "request_audit_details rq =
     [(''source_ip'', VStr (source_ip rq)),
      (''user_agent'', VStr (take 300 (case rq_user_agent rq of None \<Rightarrow> ''unknown'' | Some a \<Rightarrow> a)))]"

section \<open>Consistency\<close>

definition lease_active :: "store_lease \<Rightarrow> bool" where
  "lease_active l \<longleftrightarrow> ls_status l = ''active''"

text \<open>The partial unique index \<open>uq_active_store_user_device_lease\<close>: a missing device never conflicts.\<close>

definition lease_conflict :: "store_lease \<Rightarrow> store_lease \<Rightarrow> bool" where
  "lease_conflict a b \<longleftrightarrow>
     lease_active a \<and> lease_active b \<and> ls_store_id a = ls_store_id b \<and>
     ls_owner_user_id a = ls_owner_user_id b \<and> ls_device_id a = ls_device_id b \<and> ls_device_id a \<noteq> None"

definition leases_exclusive :: "store_lease list \<Rightarrow> bool" where
  "leases_exclusive t \<longleftrightarrow>
     (\<forall>a \<in> set t. \<forall>b \<in> set t. lease_conflict a b \<longrightarrow> ls_id a = ls_id b)"

definition db_ok :: "db \<Rightarrow> bool" where
  "db_ok d \<longleftrightarrow>
     unique_on us_id (users d) \<and> unique_on us_username (users d) \<and>
     unique_on dv_id (devices d) \<and> unique_on (\<lambda>r. (dv_user_id r, dv_device_id r)) (devices d) \<and>
     unique_on nd_id (nodes d) \<and> unique_on nd_name (nodes d) \<and> unique_on nd_endpoint (nodes d) \<and>
     unique_on (\<lambda>r. (gr_user_id r, gr_edge_node_id r)) (grants d) \<and>
     unique_on st_id (stores d) \<and> unique_on st_label (stores d) \<and>
     unique_on ls_id (leases d) \<and> leases_exclusive (leases d)"

subsection \<open>Auditing changes nothing else\<close>

lemma audit_tables [simp]:
  "users (audit e a tt ti dt tm d) = users d"
  "throttles (audit e a tt ti dt tm d) = throttles d"
  "devices (audit e a tt ti dt tm d) = devices d"
  "nodes (audit e a tt ti dt tm d) = nodes d"
  "enrollments (audit e a tt ti dt tm d) = enrollments d"
  "registrations (audit e a tt ti dt tm d) = registrations d"
  "grants (audit e a tt ti dt tm d) = grants d"
  "capabilities (audit e a tt ti dt tm d) = capabilities d"
  "stores (audit e a tt ti dt tm d) = stores d"
  "leases (audit e a tt ti dt tm d) = leases d"
  "sessions (audit e a tt ti dt tm d) = sessions d"
  "history (audit e a tt ti dt tm d) = history d"
  "tabs (audit e a tt ti dt tm d) = tabs d"
  "system_settings (audit e a tt ti dt tm d) = system_settings d"
  by (simp_all add: audit_def)

lemma audit_gets [simp]:
  "get_user (audit e a tt ti dt tm d) = get_user d"
  "get_device (audit e a tt ti dt tm d) = get_device d"
  "get_node (audit e a tt ti dt tm d) = get_node d"
  "get_store (audit e a tt ti dt tm d) = get_store d"
  "get_lease (audit e a tt ti dt tm d) = get_lease d"
  by (simp_all add: get_user_def get_device_def get_node_def get_store_def get_lease_def fun_eq_iff)

lemma db_ok_audit [simp]: "db_ok (audit e a tt ti dt tm d) = db_ok d"
  by (simp add: db_ok_def)

lemma audit_appends: "\<exists>row. audits (audit e a tt ti dt tm d) = audits d @ [row] \<and> au_event_type row = e \<and>
    au_actor_user_id row = a \<and> au_created_at row = tm"
  by (simp add: audit_def)

subsection \<open>Rows found by key\<close>

text \<open>The interface every table with a primary key has: its rows, how they are replaced, and the
  look-up. The laws of look-up after an update, an insertion and a deletion are proved once.\<close>

locale db_table =
  fixes key :: "'r \<Rightarrow> 'k"
    and rows :: "db \<Rightarrow> 'r list"
    and lookup :: "db \<Rightarrow> 'k \<Rightarrow> 'r option"
    and map_rows :: "('r list \<Rightarrow> 'r list) \<Rightarrow> db \<Rightarrow> db"
  assumes lookup_find: "lookup d k = find_row (\<lambda>r. key r = k) (rows d)"
    and rows_map_rows: "rows (map_rows f d) = f (rows d)"
begin

lemma lookup_Some: "lookup d k = Some r \<Longrightarrow> r \<in> set (rows d) \<and> key r = k"
  by (auto simp: lookup_find dest: find_row_Some)

lemma lookup_None: "lookup d k = None \<longleftrightarrow> k \<notin> key ` set (rows d)"
  by (auto simp: lookup_find)

lemma lookup_ex: "r \<in> set (rows d) \<Longrightarrow> key r = k \<Longrightarrow> \<exists>x. lookup d k = Some x"
  using lookup_None [of d k] by (cases "lookup d k") auto

lemma lookup_mem: "unique_on key (rows d) \<Longrightarrow> r \<in> set (rows d) \<Longrightarrow> lookup d (key r) = Some r"
  by (simp add: lookup_find find_row_key)

lemma lookup_update:
  assumes "\<And>r. key (f r) = key r"
  shows "lookup (map_rows (update_where p f) d) k = map_option (\<lambda>r. if p r then f r else r) (lookup d k)"
  using assms by (simp add: lookup_find rows_map_rows find_row_update_where)

lemma lookup_update_key:
  assumes "\<And>r. key (f r) = key r" and "lookup d k = Some r"
  shows "lookup (map_rows (update_where (\<lambda>x. key x = k) f) d) k = Some (f r)"
  using lookup_update [OF assms(1), of "\<lambda>x. key x = k" d k] lookup_Some [OF assms(2)] assms(2) by simp

lemma lookup_update_other:
  assumes "\<And>r. key (f r) = key r" and "j \<noteq> k"
  shows "lookup (map_rows (update_where (\<lambda>x. key x = k) f) d) j = lookup d j"
  using lookup_update [OF assms(1), of "\<lambda>x. key x = k" d j] lookup_Some [of d j] assms(2)
  by (cases "lookup d j") auto

lemma lookup_insert:
  "lookup (map_rows (\<lambda>t. t @ [r]) d) k =
     (case lookup d k of Some x \<Rightarrow> Some x | None \<Rightarrow> if key r = k then Some r else None)"
  by (simp add: lookup_find rows_map_rows find_row_append del: find_row_None split: option.split)

lemma lookup_delete: "lookup (map_rows (delete_where (\<lambda>x. key x = k)) d) k = None"
  by (simp add: lookup_find rows_map_rows set_delete_where)

end

interpretation user_table: db_table us_id users get_user users_update
  by unfold_locales (simp_all add: get_user_def)

interpretation device_table: db_table dv_id devices get_device devices_update
  by unfold_locales (simp_all add: get_device_def)

interpretation node_table: db_table nd_id nodes get_node nodes_update
  by unfold_locales (simp_all add: get_node_def)

interpretation store_table: db_table st_id stores get_store stores_update
  by unfold_locales (simp_all add: get_store_def)

interpretation lease_table: db_table ls_id leases get_lease leases_update
  by unfold_locales (simp_all add: get_lease_def)

interpretation enrollment_table: db_table en_id enrollments get_enrollment enrollments_update
  by unfold_locales (simp_all add: get_enrollment_def)

interpretation registration_table: db_table rg_id registrations get_registration registrations_update
  by unfold_locales (simp_all add: get_registration_def)

lemmas get_user_Some = user_table.lookup_Some
lemmas get_device_Some = device_table.lookup_Some
lemmas get_node_Some = node_table.lookup_Some
lemmas get_store_Some = store_table.lookup_Some
lemmas get_lease_Some = lease_table.lookup_Some

section \<open>Small databases\<close>

text \<open>Rows and databases the concrete instances of the properties are stated on.\<close>

definition empty_db :: db where
  "empty_db =
     \<lparr>egress_profiles = [], workspaces = [], system_settings = [], users = [], throttles = [], devices = [],
      nodes = [], enrollments = [], registrations = [], grants = [], capabilities = [], stores = [],
      leases = [], sessions = [], audits = [], history = [], tabs = []\<rparr>"

definition demo_user :: "int \<Rightarrow> string \<Rightarrow> string \<Rightarrow> user" where
  "demo_user i name role =
     \<lparr>us_id = i, us_username = name, us_password_hash = ''hash'', us_role = role, us_enabled = True,
      us_token_version = 1, us_workspace_id = 1, us_created_at = 0, us_deleted_at = None\<rparr>"

definition demo_device :: "string \<Rightarrow> int \<Rightarrow> string \<Rightarrow> device_session" where
  "demo_device i u hash =
     \<lparr>dv_id = i, dv_user_id = u, dv_device_id = ''dev'', dv_device_name = ''laptop'', dv_platform = ''macos'',
      dv_refresh_token_hash = hash, dv_token_generation = 1, dv_created_at = 0, dv_updated_at = 0,
      dv_last_seen_at = 0, dv_expires_at = 1000, dv_revoked_at = None\<rparr>"

definition demo_node :: "int \<Rightarrow> string \<Rightarrow> edge_node" where
  "demo_node i name =
     \<lparr>nd_id = i, nd_name = name, nd_endpoint = ''https://'' @ name, nd_shared_secret = ''k'',
      nd_platform = ''linux'', nd_enabled = True, nd_maintenance_mode = False, nd_health_status = ''online'',
      nd_last_seen_at = None, nd_latency_ms = None, nd_active_connections = 0, nd_max_connections = 0,
      nd_accepted_connections = 0, nd_denied_connections = 0, nd_expected_public_ipv4 = Some ''8.8.8.8'',
      nd_actual_public_ipv4 = None, nd_load_1m = None, nd_memory_total_bytes = None,
      nd_memory_available_bytes = None, nd_disk_total_bytes = None, nd_disk_free_bytes = None,
      nd_uptime_seconds = None, nd_agent_version = None, nd_last_error = None, nd_created_at = 0\<rparr>"

definition demo_store :: "int \<Rightarrow> int \<Rightarrow> managed_store" where
  "demo_store i n =
     \<lparr>st_id = i, st_label = ''shop'', st_owner_user_id = None, st_edge_node_id = n, st_enabled = True,
      st_created_at = 0\<rparr>"

definition demo_lease :: "string \<Rightarrow> int \<Rightarrow> int \<Rightarrow> string \<Rightarrow> instant \<Rightarrow> store_lease" where
  "demo_lease i s u dev expiry =
     \<lparr>ls_id = i, ls_store_id = s, ls_owner_user_id = u, ls_device_id = Some dev, ls_status = ''active'',
      ls_created_at = 0, ls_expires_at = expiry, ls_last_heartbeat_at = Some 0, ls_disconnected_at = None\<rparr>"

definition demo_grant :: "int \<Rightarrow> int \<Rightarrow> int \<Rightarrow> node_grant" where
  "demo_grant i u n = \<lparr>gr_id = i, gr_user_id = u, gr_edge_node_id = n, gr_created_at = 0\<rparr>"

text \<open>A member with one device, one node the member is granted, one store there and one lease.\<close>

definition demo_db :: db where
  "demo_db =
     empty_db\<lparr>users := [demo_user 1 ''root'' ''admin'', demo_user 2 ''ann'' ''member''],
              devices := [demo_device ''d1'' 2 ''d1.old''], nodes := [demo_node 5 ''n5''],
              grants := [demo_grant 1 2 5], stores := [demo_store 7 5],
              leases := [demo_lease ''l1'' 7 2 ''dev'' (hours 1)]\<rparr>"

lemmas demo_defs = demo_db_def empty_db_def demo_user_def demo_device_def demo_node_def demo_store_def
  demo_lease_def demo_grant_def

lemma demo_db_ok: "db_ok demo_db"
  by (simp add: db_ok_def demo_defs unique_on_def leases_exclusive_def)

lemma demo_gets:
  "get_user demo_db 1 = Some (demo_user 1 ''root'' ''admin'')"
  "get_user demo_db 2 = Some (demo_user 2 ''ann'' ''member'')"
  "get_device demo_db ''d1'' = Some (demo_device ''d1'' 2 ''d1.old'')"
  "get_node demo_db 5 = Some (demo_node 5 ''n5'')" "get_store demo_db 7 = Some (demo_store 7 5)"
  "get_lease demo_db ''l1'' = Some (demo_lease ''l1'' 7 2 ''dev'' (hours 1))"
  by (simp_all add: get_user_def get_device_def get_node_def get_store_def get_lease_def demo_db_def
      demo_user_def demo_device_def demo_node_def demo_store_def demo_lease_def)

end
