(* ===== verification/Auth.thy ===== *)
theory Auth
  imports Prelude Control_Model
begin

text \<open>
  Identity in the control plane (\<open>cloudbrowser/app.py\<close>): access tokens and the checks of
  \<open>bearer_user\<close>, \<open>current_user\<close>, \<open>admin\<close> and \<open>native_access_identity\<close>, the web login and logout, and
  the life of a device session: refresh with rotation of the token, listing, revocation and logout.

  The two token serialisers are arguments: \<open>loads\<close> gives the members of a signed payload, \<open>None\<close> is
  \<open>BadSignature\<close>. So are the password check and the SHA-256 digest \<open>refresh_hash\<close>. \<open>native_refresh\<close>
  reads the session and later updates it under a condition; \<open>other\<close> is what other requests commit in
  between.
\<close>

section \<open>Tokens\<close>

definition unix_seconds :: "instant \<Rightarrow> int" where
  "unix_seconds t = t div usec_per_sec"

type_synonym token_dumps = "(string \<times> json) list \<Rightarrow> string"
type_synonym token_loads = "string \<Rightarrow> (string \<times> json) list option"

definition payload_get :: "(string \<times> json) list \<Rightarrow> string \<Rightarrow> json" where
  "payload_get p k = (case map_of p k of None \<Rightarrow> JNull | Some v \<Rightarrow> v)"

definition issue_access :: "token_dumps \<Rightarrow> user \<Rightarrow> string" where
  "issue_access dumps u = dumps [(''uid'', JInt (us_id u)), (''ver'', JInt (us_token_version u))]"

definition issue_native_access :: "token_dumps \<Rightarrow> instant \<Rightarrow> user \<Rightarrow> device_session \<Rightarrow> string" where
  "issue_native_access dumps now u item =
     dumps [(''uid'', JInt (us_id u)), (''ver'', JInt (us_token_version u)), (''dsid'', JStr (dv_id item)),
            (''gen'', JInt (dv_token_generation item)),
            (''exp'', JInt (unix_seconds (now + minutes 15)))]"

text \<open>\<open>isinstance(value, int)\<close> holds of a boolean too.\<close>

fun int_value :: "json \<Rightarrow> int option" where
  "int_value (JInt i) = Some i"
| "int_value (JBool b) = Some (if b then 1 else 0)"
| "int_value _ = None"

definition user_of :: "db \<Rightarrow> json \<Rightarrow> user option" where
  "user_of d j = (case j of JInt i \<Rightarrow> get_user d i | _ \<Rightarrow> None)"

definition device_of :: "db \<Rightarrow> json \<Rightarrow> device_session option" where
  "device_of d j = (case j of JStr s \<Rightarrow> get_device d s | _ \<Rightarrow> None)"

definition native_access_identity ::
  "token_loads \<Rightarrow> instant \<Rightarrow> db \<Rightarrow> string \<Rightarrow> (user \<times> device_session) option" where
  "native_access_identity loads now d raw =
     (case loads raw of
        None \<Rightarrow> None
      | Some payload \<Rightarrow>
          (case int_value (payload_get payload ''exp'') of
             None \<Rightarrow> None
           | Some expiry \<Rightarrow>
               if expiry \<le> unix_seconds now then None
               else
                 (case (device_of d (payload_get payload ''dsid''), user_of d (payload_get payload ''uid'')) of
                    (Some item, Some u) \<Rightarrow>
                      if dv_user_id item \<noteq> us_id u
                         \<or> \<not> json_eq_int (payload_get payload ''gen'') (dv_token_generation item)
                         \<or> dv_revoked_at item \<noteq> None
                         \<or> dv_expires_at item \<le> now
                         \<or> \<not> us_enabled u
                         \<or> us_deleted_at u \<noteq> None
                         \<or> \<not> json_eq_int (payload_get payload ''ver'') (us_token_version u)
                      then None
                      else Some (u, item)
                  | _ \<Rightarrow> None)))"

definition bearer_user ::
  "token_loads \<Rightarrow> token_loads \<Rightarrow> instant \<Rightarrow> db \<Rightarrow> string option \<Rightarrow> user option" where
  "bearer_user api_loads native_loads now d authorization =
     (case authorization of
        None \<Rightarrow> None
      | Some a \<Rightarrow>
          if \<not> startswith a ''Bearer '' then None
          else
            (case api_loads (drop 7 a) of
               None \<Rightarrow> map_option fst (native_access_identity native_loads now d (drop 7 a))
             | Some payload \<Rightarrow>
                 (case user_of d (payload_get payload ''uid'') of
                    None \<Rightarrow> None
                  | Some u \<Rightarrow>
                      if \<not> us_enabled u \<or> us_deleted_at u \<noteq> None
                         \<or> \<not> json_eq_int (payload_get payload ''ver'') (us_token_version u)
                      then None else Some u)))"

definition current_user ::
  "token_loads \<Rightarrow> token_loads \<Rightarrow> instant \<Rightarrow> db \<Rightarrow> string option \<Rightarrow> http_error + user" where
  "current_user api_loads native_loads now d authorization =
     (case bearer_user api_loads native_loads now d authorization of
        None \<Rightarrow> Inl (Http 401 ''Invalid or revoked token'')
      | Some u \<Rightarrow> Inr u)"

definition current_native_identity ::
  "token_loads \<Rightarrow> instant \<Rightarrow> db \<Rightarrow> string option \<Rightarrow> http_error + (user \<times> device_session)" where
  "current_native_identity native_loads now d authorization =
     (let refuse = Inl (Http 401 ''Invalid or revoked native token'') in
      case authorization of
        None \<Rightarrow> refuse
      | Some a \<Rightarrow>
          if \<not> startswith a ''Bearer '' then refuse
          else (case native_access_identity native_loads now d (drop 7 a) of
                  None \<Rightarrow> refuse
                | Some identity \<Rightarrow> Inr identity))"

definition admin :: "user \<Rightarrow> http_error + user" where
  "admin u = (if us_role u \<noteq> ''admin'' then Inl (Http 403 ''Administrator required'') else Inr u)"

definition revoke_device_sessions :: "int \<Rightarrow> instant \<Rightarrow> db \<Rightarrow> nat \<times> db" where
  "revoke_device_sessions user_id revoked_at d =
     (let live = (\<lambda>r. dv_user_id r = user_id \<and> dv_revoked_at r = None) in
      (count_where live (devices d),
       d\<lparr>devices := update_where live
           (\<lambda>r. r\<lparr>dv_revoked_at := Some revoked_at, dv_updated_at := revoked_at,
                  dv_token_generation := dv_token_generation r + 1\<rparr>) (devices d)\<rparr>))"

section \<open>Web login and logout\<close>

definition login ::
  "(string \<Rightarrow> string \<Rightarrow> bool) \<Rightarrow> token_dumps \<Rightarrow> clock \<Rightarrow> request_info \<Rightarrow> string \<Rightarrow> string \<Rightarrow> db \<Rightarrow> details result" where
  "login verify_password dumps clk rq username password d =
     (let found = find_row (\<lambda>r. us_username r = username) (users d);
          valid = (case found of Some u \<Rightarrow> us_enabled u \<and> verify_password (us_password_hash u) password
                               | None \<Rightarrow> False)
      in case (valid, found) of
           (True, Some u) \<Rightarrow>
             (Inr [(''access_token'', VStr (issue_access dumps u)), (''token_type'', VStr ''bearer''),
                   (''role'', VStr (us_role u))],
              audit ''login.succeeded'' (Some (us_id u)) (Some ''user'') (Some (int_str (us_id u)))
                (dict_merge [(''username'', VStr (us_username u)), (''role'', VStr (us_role u))]
                   (request_audit_details rq)) (clk 0) d)
         | _ \<Rightarrow>
             (Inl (Http 401 ''Invalid credentials''),
              audit ''login.failed'' None (Some ''user'') (Some username)
                (dict_merge [(''username'', VStr username)] (request_audit_details rq)) (clk 0) d))"

definition logout :: "clock \<Rightarrow> request_info \<Rightarrow> user \<Rightarrow> db \<Rightarrow> details result" where
  "logout clk rq u d =
     (Inr [(''ok'', VBool True)],
      audit ''logout'' (Some (us_id u)) (Some ''user'') (Some (int_str (us_id u))) (request_audit_details rq) (clk 0)
        (d\<lparr>users := update_where (\<lambda>r. us_id r = us_id u)
             (\<lambda>r. r\<lparr>us_token_version := us_token_version r + 1\<rparr>) (users d)\<rparr>))"

section \<open>Device sessions\<close>

definition revoke_device :: "string \<Rightarrow> instant \<Rightarrow> db \<Rightarrow> db" where
  "revoke_device session_id now d =
     d\<lparr>devices := update_where (\<lambda>r. dv_id r = session_id)
        (\<lambda>r. r\<lparr>dv_revoked_at := Some now, dv_updated_at := now,
               dv_token_generation := dv_token_generation r + 1\<rparr>) (devices d)\<rparr>"

abbreviation invalid_refresh :: http_error where
  "invalid_refresh \<equiv> Http 401 ''Invalid or replayed refresh token''"

text \<open>A session whose token was replayed is revoked unless it already is.\<close>

definition replayed :: "instant \<Rightarrow> instant \<Rightarrow> device_session option \<Rightarrow> db \<Rightarrow> details result" where
  "replayed now logged found d =
     (case found of
        None \<Rightarrow> (Inl invalid_refresh, d)
      | Some item \<Rightarrow>
          if dv_revoked_at item = None
          then (Inl invalid_refresh,
                audit ''native.refresh_replayed'' (Some (dv_user_id item)) (Some ''device_session'') (Some (dv_id item)) []
                  logged (revoke_device (dv_id item) now d))
          else (Inl invalid_refresh, d))"

definition session_tokens :: "token_dumps \<Rightarrow> clock \<Rightarrow> user \<Rightarrow> device_session \<Rightarrow> string \<Rightarrow> details" where
  "session_tokens dumps clk u item raw =
     [(''access_token'', VStr (issue_native_access dumps (clk 2) u item)), (''refresh_token'', VStr raw),
      (''device_session_id'', VStr (dv_id item)), (''access_expires_at'', VTime (clk 3 + minutes 15)),
      (''refresh_expires_at'', VTime (dv_expires_at item)), (''token_type'', VStr ''bearer''),
      (''expires_in'', VInt (15 * 60)), (''refresh_expires_in'', VInt (30 * 24 * 60 * 60)),
      (''role'', VStr (us_role u))]"

definition rotate_where :: "string \<Rightarrow> string \<Rightarrow> int \<Rightarrow> device_session \<Rightarrow> bool" where
  "rotate_where session_id current_hash generation r \<longleftrightarrow>
     dv_id r = session_id \<and> dv_refresh_token_hash r = current_hash \<and>
     dv_token_generation r = generation \<and> dv_revoked_at r = None"

definition rotate_session :: "instant \<Rightarrow> string \<Rightarrow> int \<Rightarrow> device_session \<Rightarrow> device_session" where
  "rotate_session now new_hash generation r =
     r\<lparr>dv_refresh_token_hash := new_hash, dv_token_generation := generation, dv_updated_at := now,
       dv_last_seen_at := now, dv_expires_at := now + days 30\<rparr>"

definition native_refresh ::
  "(string \<Rightarrow> string) \<Rightarrow> token_dumps \<Rightarrow> clock \<Rightarrow> string \<Rightarrow> (db \<Rightarrow> db) \<Rightarrow> string option \<Rightarrow> db \<Rightarrow> details result" where
  "native_refresh refresh_hash dumps clk fresh other authorization d =
     (case authorization of
        None \<Rightarrow> (Inl invalid_refresh, d)
      | Some a \<Rightarrow>
          if \<not> startswith a ''Refresh '' then (Inl invalid_refresh, d)
          else
            (let raw = drop 8 a in
             case partition_char dot raw of
               (session_id, separator, secret) \<Rightarrow>
                 if \<not> separator \<or> session_id = [] \<or> secret = [] then (Inl invalid_refresh, d)
                 else
                   (case get_device d session_id of
                      None \<Rightarrow> (Inl invalid_refresh, d)
                    | Some item \<Rightarrow>
                        (let now = clk 0; current_hash = refresh_hash raw in
                         if dv_refresh_token_hash item \<noteq> current_hash
                         then replayed now (clk 1) (Some item) d
                         else
                           (case get_user d (dv_user_id item) of
                              None \<Rightarrow> (Inl invalid_refresh, d)
                            | Some u \<Rightarrow>
                                if dv_revoked_at item \<noteq> None \<or> dv_expires_at item \<le> now \<or>
                                   \<not> us_enabled u \<or> us_deleted_at u \<noteq> None
                                then (Inl invalid_refresh, d)
                                else
                                  (let new_raw = dv_id item @ dot # fresh;
                                       generation = dv_token_generation item + 1;
                                       cond = rotate_where (dv_id item) current_hash (dv_token_generation item);
                                       d1 = other d;
                                       d2 = d1\<lparr>devices := update_where cond
                                              (rotate_session now (refresh_hash new_raw) generation) (devices d1)\<rparr>
                                   in if count_where cond (devices d1) \<noteq> 1
                                      then replayed now (clk 1) (get_device d1 session_id) d1
                                      else
                                        (case get_device d2 session_id of
                                           None \<Rightarrow> (Inl Server_error, d2)
                                         | Some rotated_item \<Rightarrow>
                                             (Inr (session_tokens dumps clk u rotated_item new_raw), d2))))))))"

definition native_devices :: "user \<times> device_session \<Rightarrow> db \<Rightarrow> details result" where
  "native_devices identity d =
     (case identity of
        (u, current) \<Rightarrow>
          (Inr [(''devices'', VList (map (\<lambda>item. VObj
             [(''id'', VStr (dv_id item)), (''device_id'', VStr (dv_device_id item)),
              (''device_name'', VStr (dv_device_name item)), (''platform'', VStr (dv_platform item)),
              (''current'', VBool (dv_id item = dv_id current)), (''created_at'', VTime (dv_created_at item)),
              (''last_seen_at'', VTime (dv_last_seen_at item)), (''expires_at'', VTime (dv_expires_at item)),
              (''revoked_at'', (case dv_revoked_at item of None \<Rightarrow> VNull | Some t \<Rightarrow> VTime t))])
             (sort_key dv_created_at (sort_key dv_id (filter (\<lambda>r. dv_user_id r = us_id u) (devices d))))))],
           d))"

definition revoke_native_device :: "clock \<Rightarrow> string \<Rightarrow> user \<times> device_session \<Rightarrow> db \<Rightarrow> unit result" where
  "revoke_native_device clk session_id identity d =
     (case find_row (\<lambda>r. dv_id r = session_id \<and> dv_user_id r = us_id (fst identity)) (devices d) of
        None \<Rightarrow> fail 404 ''Device not found'' d
      | Some item \<Rightarrow>
          if dv_revoked_at item = None
          then (Inr (),
                audit ''native.device_revoked'' (Some (us_id (fst identity))) (Some ''device_session'')
                  (Some (dv_id item)) [] (clk 1) (revoke_device (dv_id item) (clk 0) d))
          else (Inr (), d))"

definition native_logout :: "clock \<Rightarrow> user \<times> device_session \<Rightarrow> db \<Rightarrow> details result" where
  "native_logout clk identity d =
     (Inr [(''ok'', VBool True)],
      audit ''native.logout'' (Some (us_id (fst identity))) (Some ''device_session'') (Some (dv_id (snd identity)))
        [] (clk 1) (revoke_device (dv_id (snd identity)) (clk 0) d))"

section \<open>What an identity guarantees\<close>

lemma native_access_identity_sound:
  assumes "native_access_identity loads now d raw = Some (u, item)"
  shows "u \<in> set (users d) \<and> item \<in> set (devices d) \<and> dv_user_id item = us_id u \<and> us_enabled u \<and>
    us_deleted_at u = None \<and> dv_revoked_at item = None \<and> now < dv_expires_at item"
  using assms
  by (auto simp: native_access_identity_def user_of_def device_of_def
      split: option.splits if_splits json.splits dest: get_user_Some get_device_Some)

lemma bearer_user_sound:
  assumes "bearer_user api_loads native_loads now d authorization = Some u"
  shows "u \<in> set (users d) \<and> us_enabled u \<and> us_deleted_at u = None"
  using assms
  by (auto simp: bearer_user_def user_of_def split: option.splits if_splits json.splits
      dest: get_user_Some native_access_identity_sound)

lemma get_device_update:
  assumes "\<And>r. dv_id (f r) = dv_id r"
  shows "get_device (d\<lparr>devices := update_where p f (devices d)\<rparr>) i =
    map_option (\<lambda>r. if p r then f r else r) (get_device d i)"
  unfolding get_device_def using assms by (simp add: find_row_update_where)

lemma get_device_revoke_device:
  "get_device (revoke_device i now d) i =
     map_option (\<lambda>r. r\<lparr>dv_revoked_at := Some now, dv_updated_at := now,
                        dv_token_generation := dv_token_generation r + 1\<rparr>) (get_device d i)"
  unfolding revoke_device_def
  by (subst get_device_update) (auto simp: option.map_comp dest: get_device_Some intro!: map_option_cong)

section \<open>Rotation\<close>

text \<open>The part of \<open>native_refresh\<close> after the header has been split and the session found.\<close>

lemma native_refresh_found:
  assumes "partition_char dot raw = (sid, True, secret)" "sid \<noteq> []" "secret \<noteq> []"
    and "get_device d sid = Some item"
  shows "native_refresh rh dumps clk fresh other (Some (''Refresh '' @ raw)) d =
    (if dv_refresh_token_hash item \<noteq> rh raw then replayed (clk 0) (clk 1) (Some item) d
     else
       (case get_user d (dv_user_id item) of
          None \<Rightarrow> (Inl invalid_refresh, d)
        | Some u \<Rightarrow>
            if dv_revoked_at item \<noteq> None \<or> dv_expires_at item \<le> clk 0 \<or> \<not> us_enabled u \<or> us_deleted_at u \<noteq> None
            then (Inl invalid_refresh, d)
            else
              (let cond = rotate_where sid (rh raw) (dv_token_generation item); d1 = other d;
                   d2 = d1\<lparr>devices := update_where cond
                       (rotate_session (clk 0) (rh (sid @ dot # fresh)) (dv_token_generation item + 1)) (devices d1)\<rparr>
               in if count_where cond (devices d1) \<noteq> 1 then replayed (clk 0) (clk 1) (get_device d1 sid) d1
                  else (case get_device d2 sid of
                          None \<Rightarrow> (Inl Server_error, d2)
                        | Some r \<Rightarrow> (Inr (session_tokens dumps clk u r (sid @ dot # fresh)), d2)))))"
proof -
  from assms(4) have "dv_id item = sid" by (auto dest: get_device_Some)
  with assms show ?thesis
    by (simp add: native_refresh_def startswith_def Let_def cong: option.case_cong if_cong)
qed

lemma native_refresh_parts:
  assumes "native_refresh rh dumps clk fresh other (Some (''Refresh '' @ raw)) d = (Inr resp, d')"
  obtains sid secret item where
    "partition_char dot raw = (sid, True, secret)" "sid \<noteq> []" "secret \<noteq> []" "get_device d sid = Some item"
proof -
  obtain sid sep secret where part: "partition_char dot raw = (sid, sep, secret)"
    by (cases "partition_char dot raw")
  with assms have *: "sep" "sid \<noteq> []" "secret \<noteq> []"
    by (auto simp: native_refresh_def startswith_def Let_def split: if_splits)
  show ?thesis
  proof (cases "get_device d sid")
    case None
    with assms part * show ?thesis by (simp add: native_refresh_def startswith_def)
  next
    case (Some item)
    with part * that show ?thesis by simp
  qed
qed

lemma replayed_Inl [simp]: "fst (replayed now logged found d) = Inl invalid_refresh"
  by (simp add: replayed_def split: option.split)

lemma replayed_not_Inr [simp]: "replayed now logged found d \<noteq> (Inr resp, d')"
  using replayed_Inl [of now logged found d] by (metis Inl_Inr_False fst_conv)

lemma replayed_revokes:
  assumes "get_device d sid = Some item"
  shows "\<exists>r. get_device (snd (replayed now logged (Some item) d)) sid = Some r \<and> dv_revoked_at r \<noteq> None"
proof -
  from assms have "dv_id item = sid" by (auto dest: get_device_Some)
  with assms show ?thesis by (auto simp: replayed_def get_device_revoke_device)
qed

lemma native_refresh_success:
  assumes "native_refresh rh dumps clk fresh other (Some (''Refresh '' @ raw)) d = (Inr resp, d')"
  obtains sid secret item u where
    "partition_char dot raw = (sid, True, secret)" "sid \<noteq> []" "secret \<noteq> []" "get_device d sid = Some item"
    "dv_refresh_token_hash item = rh raw" "dv_revoked_at item = None" "clk 0 < dv_expires_at item"
    "get_user d (dv_user_id item) = Some u" "us_enabled u" "us_deleted_at u = None"
    "count_where (rotate_where sid (rh raw) (dv_token_generation item)) (devices (other d)) = 1"
    "d' = (other d)\<lparr>devices := update_where (rotate_where sid (rh raw) (dv_token_generation item))
        (rotate_session (clk 0) (rh (sid @ dot # fresh)) (dv_token_generation item + 1)) (devices (other d))\<rparr>"
proof -
  from assms obtain sid secret item where part:
    "partition_char dot raw = (sid, True, secret)" "sid \<noteq> []" "secret \<noteq> []" and item: "get_device d sid = Some item"
    by (rule native_refresh_parts)
  note run = assms [unfolded native_refresh_found [OF part item]]
  have hash: "dv_refresh_token_hash item = rh raw"
    using run by (simp split: if_splits)
  from run hash obtain u where u: "get_user d (dv_user_id item) = Some u"
    by (auto split: option.splits)
  have rest: "dv_revoked_at item = None" "clk 0 < dv_expires_at item" "us_enabled u" "us_deleted_at u = None"
    using run hash u by (auto split: if_splits)
  have upd: "count_where (rotate_where sid (rh raw) (dv_token_generation item)) (devices (other d)) = 1"
    using run hash u rest by (simp add: Let_def split: if_splits)
  then have d': "d' = (other d)\<lparr>devices := update_where (rotate_where sid (rh raw) (dv_token_generation item))
        (rotate_session (clk 0) (rh (sid @ dot # fresh)) (dv_token_generation item + 1)) (devices (other d))\<rparr>"
    using run hash u rest by (auto simp: Let_def split: option.splits)
  show ?thesis by (rule that [OF part item hash rest(1,2) u rest(3,4) upd d'])
qed

lemma rotated_device:
  assumes "unique_on dv_id (devices d)"
    and "count_where (rotate_where sid h g) (devices d) = 1"
  shows "\<exists>r. get_device (d\<lparr>devices := update_where (rotate_where sid h g) (rotate_session now h' g') (devices d)\<rparr>) sid =
    Some (rotate_session now h' g' r) \<and> dv_revoked_at r = None"
proof -
  from assms(2) have "count_where (rotate_where sid h g) (devices d) \<noteq> 0" by simp
  then obtain r where r: "r \<in> set (devices d)" "rotate_where sid h g r"
    unfolding count_where_zero by blast
  then have id: "dv_id r = sid" by (simp add: rotate_where_def)
  from find_row_key [OF assms(1) r(1)] have "get_device d sid = Some r" by (simp add: get_device_def id)
  moreover have "get_device (d\<lparr>devices := update_where (rotate_where sid h g) (rotate_session now h' g') (devices d)\<rparr>) sid =
      map_option (\<lambda>r. if rotate_where sid h g r then rotate_session now h' g' r else r) (get_device d sid)"
    by (rule get_device_update) (simp add: rotate_session_def)
  ultimately show ?thesis using r(2) by (auto simp: rotate_where_def)
qed

lemma rotated_no_match:
  assumes "h' \<noteq> h"
  shows "count_where (rotate_where sid h g) (update_where (rotate_where sid h g) (rotate_session now h' g') t) \<noteq> 1"
proof -
  have "count_where (rotate_where sid h g) (update_where (rotate_where sid h g) (rotate_session now h' g') t) = 0"
    unfolding count_where_zero set_update_where
  proof (rule ballI, erule imageE)
    fix r r'
    assume r: "r = (if rotate_where sid h g r' then rotate_session now h' g' r' else r')"
    show "\<not> rotate_where sid h g r"
    proof (cases "rotate_where sid h g r'")
      case True
      with r have "dv_refresh_token_hash r = h'" by (simp add: rotate_session_def)
      with assms show ?thesis by (simp add: rotate_where_def)
    next
      case False
      with r show ?thesis by simp
    qed
  qed
  then show ?thesis by simp
qed

section \<open>Properties\<close>

text \<open>C9. A refresh token works once. After a refresh succeeded, presenting the same token again is
  refused and revokes the session; and of two requests that both read the session before either
  wrote it, the one that writes second is refused, because the update is conditional on the digest
  and the generation it read, and revokes the session unless it had expired by its own clock. The
  digests of the old and the new token are assumed different.\<close>

theorem refresh_single_use:
  assumes "native_refresh rh dumps clk fresh other (Some (''Refresh '' @ raw)) d = (Inr resp, d1)"
    and "unique_on dv_id (devices (other d))"
    and "rh (fst (partition_char dot raw) @ dot # fresh) \<noteq> rh raw"
  shows "fst (native_refresh rh dumps' clk' fresh' other' (Some (''Refresh '' @ raw)) d1) = Inl invalid_refresh \<and>
    (\<exists>r. get_device (snd (native_refresh rh dumps' clk' fresh' other' (Some (''Refresh '' @ raw)) d1))
           (fst (partition_char dot raw)) = Some r \<and> dv_revoked_at r \<noteq> None) \<and>
    fst (native_refresh rh dumps' clk' fresh' (\<lambda>_. d1) (Some (''Refresh '' @ raw)) d) = Inl invalid_refresh \<and>
    (\<forall>item. get_device d (fst (partition_char dot raw)) = Some item \<longrightarrow> clk' 0 < dv_expires_at item \<longrightarrow>
       (\<exists>r. get_device (snd (native_refresh rh dumps' clk' fresh' (\<lambda>_. d1) (Some (''Refresh '' @ raw)) d))
           (fst (partition_char dot raw)) = Some r \<and> dv_revoked_at r \<noteq> None))"
  using assms(1)
proof (rule native_refresh_success)
  fix sid secret item u
  assume part: "partition_char dot raw = (sid, True, secret)" "sid \<noteq> []" "secret \<noteq> []"
    and item: "get_device d sid = Some item"
    and first: "dv_refresh_token_hash item = rh raw" "dv_revoked_at item = None"
      "get_user d (dv_user_id item) = Some u" "us_enabled u" "us_deleted_at u = None"
    and one: "count_where (rotate_where sid (rh raw) (dv_token_generation item)) (devices (other d)) = 1"
    and d1: "d1 = (other d)\<lparr>devices := update_where (rotate_where sid (rh raw) (dv_token_generation item))
        (rotate_session (clk 0) (rh (sid @ dot # fresh)) (dv_token_generation item + 1)) (devices (other d))\<rparr>"
  from assms(3) part have new: "rh (sid @ dot # fresh) \<noteq> rh raw" by simp
  from rotated_device [OF assms(2) one] obtain r where
    r: "get_device d1 sid = Some (rotate_session (clk 0) (rh (sid @ dot # fresh)) (dv_token_generation item + 1) r)"
    unfolding d1 by blast
  have stale: "dv_refresh_token_hash (rotate_session (clk 0) (rh (sid @ dot # fresh)) (dv_token_generation item + 1) r) \<noteq> rh raw"
    using new by (simp add: rotate_session_def)
  have second: "count_where (rotate_where sid (rh raw) (dv_token_generation item)) (devices d1) \<noteq> 1"
    using rotated_no_match [OF new] by (simp add: d1)
  show ?thesis
    unfolding native_refresh_found [OF part r] native_refresh_found [OF part item] part(1) fst_conv
    using stale second first replayed_revokes [OF r] by (simp add: item r Let_def)
qed

lemma demo_refresh:
  "\<exists>resp d1. native_refresh (\<lambda>x. x) (\<lambda>_. []) (\<lambda>_. 0) ''new'' (\<lambda>d. d) (Some (''Refresh '' @ ''d1.old'')) demo_db =
     (Inr resp, d1)"
proof -
  have part: "partition_char dot ''d1.old'' = (''d1'', True, ''old'')"
    by (simp add: partition_char_def)
  have one: "count_where (rotate_where ''d1'' ''d1.old'' 1) (devices demo_db) = 1"
    by (simp add: count_where_def rotate_where_def demo_defs)
  have "unique_on dv_id (devices demo_db)" using demo_db_ok by (simp add: db_ok_def)
  from rotated_device [OF this one, of 0 "''d1.new''" 2] obtain r where
    "get_device (demo_db\<lparr>devices := update_where (rotate_where ''d1'' ''d1.old'' 1)
       (rotate_session 0 ''d1.new'' 2) (devices demo_db)\<rparr>) ''d1'' = Some (rotate_session 0 ''d1.new'' 2 r)"
    by blast
  with one show ?thesis
    unfolding native_refresh_found [OF part list.distinct(2) list.distinct(2) demo_gets(3)]
    by (simp add: demo_device_def demo_gets(2) demo_user_def Let_def)
qed

theorem refresh_single_use_witness:
  "\<exists>d1. fst (native_refresh (\<lambda>x. x) (\<lambda>_. []) (\<lambda>_. 0) ''new'' (\<lambda>d. d) (Some (''Refresh '' @ ''d1.old'')) d1) =
       Inl invalid_refresh \<and>
     fst (native_refresh (\<lambda>x. x) (\<lambda>_. []) (\<lambda>_. 0) ''x'' (\<lambda>_. d1) (Some (''Refresh '' @ ''d1.old'')) demo_db) =
       Inl invalid_refresh"
proof -
  obtain resp d1 where r: "native_refresh (\<lambda>x. x) (\<lambda>_. []) (\<lambda>_. 0) ''new'' (\<lambda>d. d) (Some (''Refresh '' @ ''d1.old'')) demo_db =
      (Inr resp, d1)"
    using demo_refresh by blast
  have u: "unique_on dv_id (devices demo_db)" using demo_db_ok by (simp add: db_ok_def)
  have "fst (partition_char dot ''d1.old'') @ dot # ''new'' \<noteq> ''d1.old''" by (simp add: partition_char_def)
  from refresh_single_use [OF r u this] show ?thesis by blast
qed

text \<open>A revoked device session is dead until its device logs in again: no access token that
  names it is accepted as a native identity, and no refresh token that names it is exchanged or
  changes a session.\<close>

theorem revoked_session_dead:
  assumes "get_device d sid = Some item" and "dv_revoked_at item \<noteq> None"
  shows "(\<forall>loads now raw u r. native_access_identity loads now d raw = Some (u, r) \<longrightarrow> dv_id r \<noteq> sid) \<and>
    (\<forall>rh dumps clk fresh other raw. fst (partition_char dot raw) = sid \<longrightarrow>
       native_refresh rh dumps clk fresh other (Some (''Refresh '' @ raw)) d = (Inl invalid_refresh, d))"
proof (intro conjI allI impI)
  fix loads now raw u r
  assume *: "native_access_identity loads now d raw = Some (u, r)"
  then obtain i where i: "get_device d i = Some r"
    by (auto simp: native_access_identity_def device_of_def split: option.splits if_splits json.splits)
  show "dv_id r \<noteq> sid"
  proof
    assume "dv_id r = sid"
    with get_device_Some [OF i] i assms(1) have "r = item" by simp
    with native_access_identity_sound [OF *] assms(2) show False by simp
  qed
next
  fix rh dumps clk fresh other raw
  assume sid: "fst (partition_char dot raw) = sid"
  obtain sep secret where part: "partition_char dot raw = (sid, sep, secret)"
    using sid by (cases "partition_char dot raw") auto
  show "native_refresh rh dumps clk fresh other (Some (''Refresh '' @ raw)) d = (Inl invalid_refresh, d)"
  proof (cases "sep \<and> sid \<noteq> [] \<and> secret \<noteq> []")
    case True
    with part have "partition_char dot raw = (sid, True, secret)" "sid \<noteq> []" "secret \<noteq> []" by auto
    from native_refresh_found [OF this assms(1)] assms(2) show ?thesis
      by (auto simp: replayed_def split: option.split)
  next
    case False
    with part show ?thesis by (auto simp: native_refresh_def startswith_def)
  qed
qed

theorem revoked_session_dead_witness:
  "native_refresh (\<lambda>x. x) (\<lambda>_. []) (\<lambda>_. 0) ''new'' (\<lambda>d. d) (Some (''Refresh '' @ ''d1.old''))
     (revoke_device ''d1'' 5 demo_db) = (Inl invalid_refresh, revoke_device ''d1'' 5 demo_db)"
proof -
  have "get_device (revoke_device ''d1'' 5 demo_db) ''d1'' =
      Some ((demo_device ''d1'' 2 ''d1.old'')\<lparr>dv_revoked_at := Some 5, dv_updated_at := 5,
             dv_token_generation := 2\<rparr>)"
    unfolding get_device_revoke_device demo_gets(3) by (simp add: demo_device_def)
  moreover have "fst (partition_char dot ''d1.old'') = ''d1''" by (simp add: partition_char_def)
  ultimately show ?thesis using revoked_session_dead by simp
qed

end
