(* ===== verification/Login_Throttle.thy ===== *)
theory Login_Throttle
  imports Prelude Control_Model Auth
begin

text \<open>
  \<open>POST /api/native/login\<close> (\<open>native_login\<close> of \<open>cloudbrowser/app.py\<close>): three failure counters per
  attempt, for the account at a source, the device at a source and the source, with escalating
  blocks; the password check outside any transaction; and the creation or renewal of the device
  session.

  The handler commits twice before the decisive transaction, so \<open>other 0\<close> and \<open>other 1\<close> are what
  other requests commit in between. \<open>hmac_hex\<close>, \<open>casefold\<close>, \<open>verify_password\<close> and \<open>refresh_hash\<close> stand
  for the library functions.
\<close>

section \<open>The counters\<close>

definition throttle_thresholds :: "int list" where
  "throttle_thresholds = [5, 5, 20]"

definition throttle_keys ::
  "(string \<Rightarrow> string \<Rightarrow> string) \<Rightarrow> (string \<Rightarrow> string) \<Rightarrow> string \<Rightarrow> string \<Rightarrow> string \<Rightarrow> string \<Rightarrow> string list" where
  "throttle_keys hmac_hex casefold secret_key username device source =
     map (\<lambda>parts. hmac_hex secret_key (join_char (CHR 0x00) parts))
       [[''account_source'', casefold (strip username), source],
        [''device_source'', device, source],
        [''source'', source]]"

definition initial_throttle :: "instant \<Rightarrow> string \<Rightarrow> login_throttle" where
  "initial_throttle moment key =
     \<lparr>th_key_hash = key, th_failure_count = 0, th_penalty_level = 0, th_window_started_at = moment,
      th_blocked_until = None, th_updated_at = moment\<rparr>"

text \<open>\<open>INSERT .. ON CONFLICT DO NOTHING\<close> for each key, then the rows in the order of the keys.\<close>

fun lock_throttles :: "instant \<Rightarrow> string list \<Rightarrow> login_throttle list \<Rightarrow> login_throttle list" where
  "lock_throttles moment [] t = t"
| "lock_throttles moment (k # ks) t =
     lock_throttles moment ks (if k \<in> th_key_hash ` set t then t else t @ [initial_throttle moment k])"

definition locked_rows :: "string list \<Rightarrow> login_throttle list \<Rightarrow> login_throttle list" where
  "locked_rows ks t =
     concat (map (\<lambda>k. case find_row (\<lambda>r. th_key_hash r = k) t of None \<Rightarrow> [] | Some r \<Rightarrow> [r]) ks)"

definition ceil_seconds :: "int \<Rightarrow> int" where
  "ceil_seconds us = - ((- us) div usec_per_sec)"

fun active_retry_after :: "instant \<Rightarrow> login_throttle list \<Rightarrow> int" where
  "active_retry_after moment [] = 0"
| "active_retry_after moment (r # rs) =
     (case th_blocked_until r of
        None \<Rightarrow> active_retry_after moment rs
      | Some b \<Rightarrow>
          if b > moment then max (ceil_seconds (b - moment)) (active_retry_after moment rs)
          else active_retry_after moment rs)"

definition penalties :: "int list" where
  "penalties = [300, 900, 1800]"

definition record_failure :: "instant \<Rightarrow> int \<Rightarrow> login_throttle \<Rightarrow> login_throttle \<times> int" where
  "record_failure failure_time threshold r =
     (let r1 = (if failure_time - th_window_started_at r \<ge> minutes 10
                then r\<lparr>th_failure_count := 0, th_window_started_at := failure_time\<rparr> else r);
          r2 = r1\<lparr>th_failure_count := th_failure_count r1 + 1, th_updated_at := failure_time\<rparr>
      in if th_failure_count r2 \<ge> threshold
         then (let level = min (th_penalty_level r2 + 1) 3; wait = penalties ! nat (level - 1)
               in (r2\<lparr>th_failure_count := 0, th_penalty_level := level,
                      th_blocked_until := Some (failure_time + seconds wait)\<rparr>, wait))
         else (r2, 0))"

fun record_failures ::
  "instant \<Rightarrow> (string \<times> int) list \<Rightarrow> login_throttle list \<Rightarrow> int \<Rightarrow> login_throttle list \<times> int" where
  "record_failures failure_time [] t wait = (t, wait)"
| "record_failures failure_time ((k, threshold) # ks) t wait =
     (case find_row (\<lambda>r. th_key_hash r = k) t of
        None \<Rightarrow> record_failures failure_time ks t wait
      | Some r \<Rightarrow>
          (case record_failure failure_time threshold r of
             (r', w) \<Rightarrow>
               record_failures failure_time ks (update_where (\<lambda>x. th_key_hash x = k) (\<lambda>_. r') t) (max wait w)))"

section \<open>The handler\<close>

record native_login_body =
  nl_username :: string
  nl_password :: string
  nl_device_id :: string
  nl_device_name :: string
  nl_platform :: string

definition login_failed ::
  "string list \<Rightarrow> clock \<Rightarrow> request_info \<Rightarrow> native_login_body \<Rightarrow> db \<Rightarrow> details result" where
  "login_failed keys clk rq body d =
     (let failure_time = clk 1;
          t = lock_throttles failure_time keys (throttles d);
          retry_after = active_retry_after failure_time (locked_rows keys t)
      in if retry_after > 0 then (Inl (Too_many_attempts retry_after), d\<lparr>throttles := t\<rparr>)
         else
           (case record_failures failure_time (zip keys throttle_thresholds) t 0 of
              (t', wait) \<Rightarrow>
                (let who = [(''username'', VStr (nl_username body))];
                     d1 = audit ''native.login_failed'' None (Some ''user'') (Some (nl_username body))
                            (dict_merge who (request_audit_details rq)) (clk 9) (d\<lparr>throttles := t'\<rparr>)
                 in if wait > 0
                    then (Inl (Too_many_attempts wait),
                          audit ''native.login_throttled'' None (Some ''user'') (Some (nl_username body))
                            (dict_merge (who @ [(''retry_after_seconds'', VInt wait)]) (request_audit_details rq))
                            (clk 9) d1)
                    else (Inl (Http 401 ''Invalid credentials''), d1))))"

definition new_device_session :: "clock \<Rightarrow> string \<Rightarrow> native_login_body \<Rightarrow> user \<Rightarrow> device_session" where
  "new_device_session clk uuid body u =
     \<lparr>dv_id = uuid, dv_user_id = us_id u, dv_device_id = nl_device_id body,
      dv_device_name = nl_device_name body, dv_platform = nl_platform body,
      dv_refresh_token_hash = replicate 64 CHR ''0'', dv_token_generation = 1, dv_created_at = clk 6,
      dv_updated_at = clk 7, dv_last_seen_at = clk 8, dv_expires_at = clk 2 + days 30, dv_revoked_at = None\<rparr>"

definition renew_device_session :: "instant \<Rightarrow> native_login_body \<Rightarrow> device_session \<Rightarrow> device_session" where
  "renew_device_session now body r =
     r\<lparr>dv_device_name := nl_device_name body, dv_platform := nl_platform body,
       dv_token_generation := dv_token_generation r + 1, dv_revoked_at := None, dv_updated_at := now,
       dv_last_seen_at := now, dv_expires_at := now + days 30\<rparr>"

definition login_succeeded ::
  "(string \<Rightarrow> string) \<Rightarrow> token_dumps \<Rightarrow> clock \<Rightarrow> string \<Rightarrow> string \<Rightarrow> string list \<Rightarrow> native_login_body \<Rightarrow> user \<Rightarrow> db \<Rightarrow>
   details result" where
  "login_succeeded refresh_hash dumps clk uuid fresh keys body u d =
     (let d1 = d\<lparr>throttles := delete_where (\<lambda>r. th_key_hash r \<in> set (take 2 keys)) (throttles d)\<rparr>;
          mine = (\<lambda>r. dv_user_id r = us_id u \<and> dv_device_id r = nl_device_id body);
          item = (case find_row mine (devices d1) of
                    None \<Rightarrow> new_device_session clk uuid body u
                  | Some r \<Rightarrow> renew_device_session (clk 2) body r);
          raw = dv_id item @ dot # fresh;
          item' = item\<lparr>dv_refresh_token_hash := refresh_hash raw\<rparr>;
          d2 = (case find_row mine (devices d1) of
                  None \<Rightarrow> d1\<lparr>devices := devices d1 @ [item']\<rparr>
                | Some r \<Rightarrow> d1\<lparr>devices := update_where (\<lambda>x. dv_id x = dv_id r) (\<lambda>_. item') (devices d1)\<rparr>)
      in (Inr (session_tokens dumps (\<lambda>i. clk (i + 2)) u item' raw),
          audit ''native.login_succeeded'' (Some (us_id u)) (Some ''device_session'') (Some (dv_id item')) [] (clk 3) d2))"

definition native_login ::
  "(string \<Rightarrow> string \<Rightarrow> string) \<Rightarrow> (string \<Rightarrow> string) \<Rightarrow> string \<Rightarrow> (string \<Rightarrow> string \<Rightarrow> bool) \<Rightarrow> (string \<Rightarrow> string) \<Rightarrow>
   token_dumps \<Rightarrow> clock \<Rightarrow> string \<Rightarrow> string \<Rightarrow> (nat \<Rightarrow> db \<Rightarrow> db) \<Rightarrow> request_info \<Rightarrow> native_login_body \<Rightarrow> db \<Rightarrow>
   details result" where
  "native_login hmac_hex casefold secret_key verify_password refresh_hash dumps clk uuid fresh other rq body d =
     (let now = clk 0;
          keys = throttle_keys hmac_hex casefold secret_key (nl_username body) (nl_device_id body) (source_ip rq);
          t = lock_throttles now keys (delete_where (\<lambda>r. th_updated_at r \<le> now - hours 24) (throttles d));
          retry_after = active_retry_after now (locked_rows keys t);
          d1 = d\<lparr>throttles := t\<rparr>
      in if retry_after > 0 then (Inl (Too_many_attempts retry_after), d1)
         else
           (let d2 = other 0 d1;
                found = find_row (\<lambda>r. us_username r = nl_username body) (users d2);
                password_hash = (case found of
                    None \<Rightarrow> None
                  | Some u \<Rightarrow> if us_enabled u \<and> us_deleted_at u = None then Some (us_password_hash u) else None);
                valid = (case password_hash of None \<Rightarrow> False | Some h \<Rightarrow> verify_password h (nl_password body));
                d3 = other 1 d2
            in case (valid, found) of
                 (True, Some seen) \<Rightarrow>
                   (case get_user d3 (us_id seen) of
                      None \<Rightarrow> (Inl (Http 401 ''Invalid credentials''), d3)
                    | Some u \<Rightarrow>
                        if \<not> us_enabled u \<or> us_deleted_at u \<noteq> None \<or> Some (us_password_hash u) \<noteq> password_hash \<or>
                           us_token_version u \<noteq> us_token_version seen
                        then (Inl (Http 401 ''Invalid credentials''), d3)
                        else login_succeeded refresh_hash dumps clk uuid fresh keys body u d3)
               | _ \<Rightarrow> login_failed keys clk rq body d3))"

section \<open>The counters stay in range\<close>

text \<open>What \<open>record_failure\<close> maintains: the penalty level is one of the four steps, and a block ends at
  most half an hour after the row was last written, so the daily purge never cuts a block short.\<close>

definition throttle_ok :: "login_throttle \<Rightarrow> bool" where
  "throttle_ok r \<longleftrightarrow>
     0 \<le> th_failure_count r \<and> 0 \<le> th_penalty_level r \<and> th_penalty_level r \<le> 3 \<and>
     (\<forall>b. th_blocked_until r = Some b \<longrightarrow> b \<le> th_updated_at r + seconds 1800)"

lemma penalties_nth:
  "0 \<le> level \<Longrightarrow> level \<le> 3 \<Longrightarrow>
   penalties ! nat (min (level + 1) 3 - 1) = (if level = 0 then 300 else if level = 1 then 900 else 1800)"
proof -
  assume "0 \<le> level" "level \<le> 3"
  then consider "level = 0" | "level = 1" | "level = 2" | "level = 3" by linarith
  then show ?thesis by cases (simp_all add: penalties_def)
qed

lemma record_failure_ok:
  assumes "throttle_ok r" and "th_updated_at r \<le> failure_time" and "record_failure failure_time threshold r = (r', wait)"
  shows "throttle_ok r' \<and> th_key_hash r' = th_key_hash r \<and> th_updated_at r' = failure_time"
  using assms penalties_nth [of "th_penalty_level r"]
  by (auto simp: record_failure_def throttle_ok_def Let_def duration_defs split: if_splits)

lemma throttle_ok_initial: "throttle_ok (initial_throttle moment k)"
  by (simp add: throttle_ok_def initial_throttle_def)

lemma lock_throttles_keeps: "r \<in> set t \<Longrightarrow> r \<in> set (lock_throttles moment ks t)"
  by (induction moment ks t rule: lock_throttles.induct) auto

lemma lock_throttles_unique:
  "unique_on th_key_hash t \<Longrightarrow> unique_on th_key_hash (lock_throttles moment ks t)"
  by (induction moment ks t rule: lock_throttles.induct)
    (auto simp: unique_on_insert initial_throttle_def)

lemma lock_throttles_has: "k \<in> set ks \<Longrightarrow> k \<in> th_key_hash ` set (lock_throttles moment ks t)"
proof (induction moment ks t rule: lock_throttles.induct)
  case (2 moment k' ks t)
  show ?case
  proof (cases "k = k'")
    case True
    let ?t = "if k' \<in> th_key_hash ` set t then t else t @ [initial_throttle moment k']"
    have "k \<in> th_key_hash ` set ?t" using True by (simp add: initial_throttle_def)
    then obtain r where "r \<in> set ?t" "th_key_hash r = k" by auto
    with lock_throttles_keeps [of r ?t moment ks] show ?thesis by auto
  next
    case False
    with 2 show ?thesis by simp
  qed
qed simp

lemma ceil_seconds_pos: "0 < us \<Longrightarrow> 0 < ceil_seconds us \<and> us \<le> seconds (ceil_seconds us)"
proof -
  assume "0 < us"
  have "- us div usec_per_sec * usec_per_sec + - us mod usec_per_sec = - us" by (rule div_mult_mod_eq)
  moreover have "0 \<le> - us mod usec_per_sec" by simp
  ultimately have "- us div usec_per_sec * usec_per_sec \<le> - us" by linarith
  with \<open>0 < us\<close> show ?thesis unfolding ceil_seconds_def seconds_def by linarith
qed

lemma active_retry_after_ge:
  "r \<in> set rs \<Longrightarrow> th_blocked_until r = Some b \<Longrightarrow> moment < b \<Longrightarrow>
   ceil_seconds (b - moment) \<le> active_retry_after moment rs"
  by (induction rs) (auto split: option.splits)

lemma locked_rows_mem:
  assumes "unique_on th_key_hash t" and "r \<in> set t" and "th_key_hash r \<in> set ks"
  shows "r \<in> set (locked_rows ks t)"
  using find_row_key [OF assms(1,2)] assms(3) by (force simp: locked_rows_def)

lemma window_purge:
  assumes "throttle_ok r" and "th_blocked_until r = Some b" and "now < b"
  shows "\<not> th_updated_at r \<le> now - hours 24"
  using assms by (auto simp: throttle_ok_def duration_defs)

section \<open>Properties\<close>


definition demo_login :: native_login_body where
  "demo_login = \<lparr>nl_username = ''ann'', nl_password = ''pw'', nl_device_id = ''dev'', nl_device_name = ''laptop'',
     nl_platform = ''macos''\<rparr>"

definition demo_request :: request_info where
  "demo_request = \<lparr>rq_client = Some ''1.2.3.4'', rq_user_agent = None\<rparr>"


text \<open>One counter over a series of failures.\<close>

fun fail_series :: "int \<Rightarrow> instant list \<Rightarrow> login_throttle \<Rightarrow> login_throttle \<times> int list" where
  "fail_series threshold [] r = (r, [])"
| "fail_series threshold (moment # ts) r =
     (case record_failure moment threshold r of
        (r', w) \<Rightarrow> (case fail_series threshold ts r' of (r'', ws) \<Rightarrow> (r'', w # ws)))"

lemma record_failure_below:
  assumes "moment < th_window_started_at r + minutes 10" and "th_failure_count r + 1 < threshold"
  shows "record_failure moment threshold r =
    (r\<lparr>th_failure_count := th_failure_count r + 1, th_updated_at := moment\<rparr>, 0)"
  using assms by (simp add: record_failure_def Let_def)

lemma fail_series_below:
  "\<forall>moment \<in> set ts. moment < th_window_started_at r + minutes 10 \<Longrightarrow>
   th_failure_count r + int (length ts) < threshold \<Longrightarrow>
   \<exists>u. fail_series threshold ts r =
     (r\<lparr>th_failure_count := th_failure_count r + int (length ts), th_updated_at := u\<rparr>, replicate (length ts) 0)"
proof (induction ts arbitrary: r)
  case Nil
  show ?case by (rule exI [of _ "th_updated_at r"]) simp
next
  case (Cons moment ts)
  let ?r = "r\<lparr>th_failure_count := th_failure_count r + 1, th_updated_at := moment\<rparr>"
  have "record_failure moment threshold r = (?r, 0)"
    using Cons.prems by (intro record_failure_below) auto
  moreover obtain u where "fail_series threshold ts ?r =
      (?r\<lparr>th_failure_count := th_failure_count ?r + int (length ts), th_updated_at := u\<rparr>, replicate (length ts) 0)"
    using Cons.IH [of ?r] Cons.prems by auto
  ultimately show ?case by (intro exI [of _ u]) (simp add: algebra_simps)
qed

lemma fail_series_append:
  "fail_series threshold (xs @ ys) r =
     (case fail_series threshold xs r of (r', ws) \<Rightarrow>
        (case fail_series threshold ys r' of (r'', vs) \<Rightarrow> (r'', ws @ vs)))"
  by (induction xs arbitrary: r) (auto split: prod.splits)

text \<open>A counter that starts a window blocks exactly at its threshold: the failures before it,
  within ten minutes of the start, leave it open, and the one that reaches the threshold blocks for
  five, fifteen and then thirty minutes, the step after that of the last block, and starts counting
  again from zero.\<close>

theorem blocks_at_threshold:
  assumes "throttle_ok r" and "th_failure_count r = 0"
    and "int (length ts) + 1 = threshold" and "\<forall>moment \<in> set (ts @ [t_last]). moment < th_window_started_at r + minutes 10"
  shows "\<exists>r'. fail_series threshold (ts @ [t_last]) r =
      (r', replicate (length ts) 0 @ [if th_penalty_level r = 0 then 300 else if th_penalty_level r = 1 then 900 else 1800]) \<and>
    th_failure_count r' = 0 \<and> th_penalty_level r' = min (th_penalty_level r + 1) 3 \<and>
    th_blocked_until r' =
      Some (t_last + seconds (if th_penalty_level r = 0 then 300 else if th_penalty_level r = 1 then 900 else 1800))"
proof -
  obtain u where u: "fail_series threshold ts r =
      (r\<lparr>th_failure_count := int (length ts), th_updated_at := u\<rparr>, replicate (length ts) 0)"
    using fail_series_below [of ts r threshold] assms(2-4) by auto
  have pen: "penalties ! nat (min (th_penalty_level r + 1) 3 - 1) =
      (if th_penalty_level r = 0 then 300 else if th_penalty_level r = 1 then 900 else 1800)"
    using assms(1) by (intro penalties_nth) (auto simp: throttle_ok_def)
  show ?thesis
    using assms(3,4) by (simp add: fail_series_append u record_failure_def Let_def pen)
qed

theorem blocks_at_threshold_witness:
  "\<exists>r'. fail_series 5 [1, 2, 3, 4, 5] (initial_throttle 0 ''k'') = (r', [0, 0, 0, 0, 300]) \<and>
     th_blocked_until r' = Some (5 + seconds 300)"
proof -
  have "th_penalty_level (initial_throttle 0 ''k'') = 0" "th_failure_count (initial_throttle 0 ''k'') = 0"
    "\<forall>moment \<in> set ([1, 2, 3, 4] @ [5]). moment < th_window_started_at (initial_throttle 0 ''k'') + minutes 10"
    by (simp_all add: initial_throttle_def duration_defs)
  with blocks_at_threshold [OF throttle_ok_initial, of 0 "''k''" "[1, 2, 3, 4]" 5 5] show ?thesis
    by (auto simp del: fail_series.simps simp: numeral_eq_Suc)
qed

lemma login_succeeded_session:
  assumes "login_succeeded refresh_hash dumps clk uuid fresh keys body u d = (Inr resp, d')"
  shows "\<exists>r \<in> set (devices d'). dv_user_id r = us_id u \<and> dv_device_id r = nl_device_id body \<and>
    dv_revoked_at r = None \<and> dv_expires_at r = clk 2 + days 30"
proof (cases "find_row (\<lambda>r. dv_user_id r = us_id u \<and> dv_device_id r = nl_device_id body) (devices d)")
  case None
  with assms show ?thesis
    by (auto simp: login_succeeded_def Let_def new_device_session_def simp del: find_row_None)
next
  case (Some r)
  then have r: "r \<in> set (devices d)" "dv_user_id r = us_id u" "dv_device_id r = nl_device_id body"
    by (auto dest: find_row_Some)
  let ?item = "(renew_device_session (clk 2) body r)\<lparr>dv_refresh_token_hash := refresh_hash (dv_id r @ dot # fresh)\<rparr>"
  have "devices d' = update_where (\<lambda>x. dv_id x = dv_id r) (\<lambda>_. ?item) (devices d)"
    using assms Some by (auto simp: login_succeeded_def Let_def renew_device_session_def)
  then have "?item \<in> set (devices d')" using r(1) by (auto simp: update_where_def)
  with r show ?thesis by (intro bexI [of _ ?item]) (simp_all add: renew_device_session_def)
qed

text \<open>A login that succeeds belongs to a user whose password was verified and who, in the
  transaction that creates the session, is enabled, not deleted and still has the password hash and
  the token version that were checked, whatever committed in between; the device then has a live
  session of that user for thirty days.\<close>

theorem login_rechecks_user:
  assumes "native_login hmac_hex casefold secret_key verify_password refresh_hash dumps clk uuid fresh other rq body d = (Inr resp, d')"
  shows "let keys = throttle_keys hmac_hex casefold secret_key (nl_username body) (nl_device_id body) (source_ip rq);
             d1 = d\<lparr>throttles := lock_throttles (clk 0) keys
                    (delete_where (\<lambda>r. th_updated_at r \<le> clk 0 - hours 24) (throttles d))\<rparr>;
             d2 = other 0 d1; d3 = other 1 d2
         in \<exists>seen u. seen \<in> set (users d2) \<and> us_username seen = nl_username body \<and>
              verify_password (us_password_hash seen) (nl_password body) \<and>
              get_user d3 (us_id seen) = Some u \<and> us_enabled u \<and> us_deleted_at u = None \<and>
              us_password_hash u = us_password_hash seen \<and> us_token_version u = us_token_version seen \<and>
              (\<exists>r \<in> set (devices d'). dv_user_id r = us_id u \<and> dv_device_id r = nl_device_id body \<and>
                 dv_revoked_at r = None \<and> dv_expires_at r = clk 2 + days 30)"
proof -
  let ?keys = "throttle_keys hmac_hex casefold secret_key (nl_username body) (nl_device_id body) (source_ip rq)"
  let ?d2 = "other 0 (d\<lparr>throttles := lock_throttles (clk 0) ?keys
      (delete_where (\<lambda>r. th_updated_at r \<le> clk 0 - hours 24) (throttles d))\<rparr>)"
  have never: "login_failed keys clk rq body x \<noteq> (Inr resp, d')" for keys x
    by (auto simp: login_failed_def Let_def split: prod.splits if_splits)
  from assms never obtain seen where seen: "find_row (\<lambda>r. us_username r = nl_username body) (users ?d2) = Some seen"
    by (auto simp: native_login_def Let_def split: if_splits option.splits bool.splits)
  with assms never have ok: "us_enabled seen \<and> us_deleted_at seen = None \<and> verify_password (us_password_hash seen) (nl_password body)"
    by (auto simp: native_login_def Let_def split: if_splits option.splits bool.splits)
  with assms seen obtain u where u: "get_user (other 1 ?d2) (us_id seen) = Some u" "us_enabled u" "us_deleted_at u = None"
    "us_password_hash u = us_password_hash seen" "us_token_version u = us_token_version seen"
    and run: "login_succeeded refresh_hash dumps clk uuid fresh ?keys body u (other 1 ?d2) = (Inr resp, d')"
    by (auto simp: native_login_def Let_def split: if_splits option.splits)
  from u ok find_row_Some [OF seen] login_succeeded_session [OF run] show ?thesis
    unfolding Let_def by blast
qed

theorem login_rechecks_user_witness:
  "\<exists>resp d'. native_login (\<lambda>k m. m) (\<lambda>u. u) ''key'' (\<lambda>h p. p = ''pw'') (\<lambda>x. x) (\<lambda>_. []) (\<lambda>_. 0) ''id'' ''x'' (\<lambda>_ d. d)
      demo_request demo_login demo_db = (Inr resp, d') \<and> (\<exists>u. get_user demo_db 2 = Some u \<and> us_enabled u)"
proof -
  have keys: "throttle_keys (\<lambda>k m. m) (\<lambda>u. u) ''key'' ''ann'' ''dev'' ''1.2.3.4'' =
      [join_char (CHR 0x00) [''account_source'', ''ann'', ''1.2.3.4''],
       join_char (CHR 0x00) [''device_source'', ''dev'', ''1.2.3.4''],
       join_char (CHR 0x00) [''source'', ''1.2.3.4'']]"
    by (simp add: throttle_keys_def strip_def is_space_def char_in_def)
  obtain t where retry: "lock_throttles 0 (throttle_keys (\<lambda>k m. m) (\<lambda>u. u) ''key'' ''ann'' ''dev'' ''1.2.3.4'')
      (delete_where (\<lambda>r. th_updated_at r \<le> 0 - hours 24) (throttles demo_db)) = t"
    "active_retry_after 0 (locked_rows (throttle_keys (\<lambda>k m. m) (\<lambda>u. u) ''key'' ''ann'' ''dev'' ''1.2.3.4'') t) = 0"
    by (simp add: keys demo_defs delete_where_def locked_rows_def initial_throttle_def)
  have found: "find_row (\<lambda>r. us_username r = ''ann'') (users (demo_db\<lparr>throttles := t\<rparr>)) = Some (demo_user 2 ''ann'' ''member'')"
    "get_user (demo_db\<lparr>throttles := t\<rparr>) 2 = Some (demo_user 2 ''ann'' ''member'')"
    by (simp_all add: demo_db_def demo_user_def get_user_def)
  obtain resp d' where run: "native_login (\<lambda>k m. m) (\<lambda>u. u) ''key'' (\<lambda>h p. p = ''pw'') (\<lambda>x. x) (\<lambda>_. []) (\<lambda>_. 0) ''id'' ''x''
      (\<lambda>_ d. d) demo_request demo_login demo_db = (Inr resp, d')"
    using retry found
    by (simp add: native_login_def demo_login_def demo_request_def source_ip_def demo_user_def login_succeeded_def Let_def)
  from login_rechecks_user [OF run] demo_gets(2) run show ?thesis by (auto simp: demo_user_def Let_def)
qed

end
