(* ===== verification/Users.thy ===== *)
theory Users
  imports Prelude Control_Model Auth
begin

text \<open>
  Administration of members (\<open>cloudbrowser/app.py\<close>): creation, listing, node grants, password
  change, enabling and disabling, and deletion. \<open>actor\<close> is the administrator the dependency \<open>admin\<close>
  let through. \<open>hash_password\<close> stands for Argon2 and \<open>uuid_hex\<close> for the random part of the name a
  deleted user gets. The identifiers of the browser sessions a handler asks the runner to stop are
  part of its result.
\<close>

section \<open>Operations\<close>

definition update_user :: "int \<Rightarrow> (user \<Rightarrow> user) \<Rightarrow> db \<Rightarrow> db" where
  "update_user i f d = d\<lparr>users := update_where (\<lambda>r. us_id r = i) f (users d)\<rparr>"

definition create_user ::
  "(string \<Rightarrow> string) \<Rightarrow> clock \<Rightarrow> user \<Rightarrow> string \<Rightarrow> string \<Rightarrow> db \<Rightarrow> details result" where
  "create_user hash_password clk actor username password d =
     (if find_row (\<lambda>r. us_username r = username) (users d) \<noteq> None then fail 409 ''Username already exists'' d
      else
        (let u = \<lparr>us_id = next_id us_id (users d), us_username = username,
                  us_password_hash = hash_password password, us_role = ''member'', us_enabled = True,
                  us_token_version = 1, us_workspace_id = us_workspace_id actor, us_created_at = clk 0,
                  us_deleted_at = None\<rparr>
         in (Inr [(''id'', VInt (us_id u)), (''username'', VStr (us_username u)), (''enabled'', VBool (us_enabled u))],
             audit ''workspace.user_assigned'' (Some (us_id actor)) (Some ''user'') (Some (int_str (us_id u))) [] (clk 1)
               (d\<lparr>users := users d @ [u]\<rparr>))))"

definition list_users :: "db \<Rightarrow> details list result" where
  "list_users d =
     (Inr (map (\<lambda>u. [(''id'', VInt (us_id u)), (''username'', VStr (us_username u)), (''role'', VStr (us_role u)),
                      (''enabled'', VBool (us_enabled u))])
            (sort_key us_id (filter (\<lambda>u. us_role u \<noteq> ''admin'' \<and> us_deleted_at u = None) (users d)))), d)"

definition member_user :: "db \<Rightarrow> int \<Rightarrow> http_error + user" where
  "member_user d user_id =
     (case get_user d user_id of
        None \<Rightarrow> Inl (Http 404 ''Member not found'')
      | Some u \<Rightarrow>
          if us_role u = ''admin'' \<or> us_deleted_at u \<noteq> None then Inl (Http 404 ''Member not found'') else Inr u)"

definition granted_node_ids :: "db \<Rightarrow> int \<Rightarrow> int list" where
  "granted_node_ids d user_id = sort (map gr_edge_node_id (filter (\<lambda>g. gr_user_id g = user_id) (grants d)))"

definition list_user_edge_nodes :: "int \<Rightarrow> db \<Rightarrow> details result" where
  "list_user_edge_nodes user_id d =
     (case member_user d user_id of
        Inl e \<Rightarrow> (Inl e, d)
      | Inr _ \<Rightarrow> (Inr [(''node_ids'', VList (map VInt (granted_node_ids d user_id)))], d))"

fun add_grants :: "clock \<Rightarrow> int \<Rightarrow> int list \<Rightarrow> node_grant list \<Rightarrow> node_grant list" where
  "add_grants clk user_id [] t = t"
| "add_grants clk user_id (n # ns) t =
     add_grants clk user_id ns
       (t @ [\<lparr>gr_id = next_id gr_id t, gr_user_id = user_id, gr_edge_node_id = n, gr_created_at = clk (length ns)\<rparr>])"

definition replace_user_edge_nodes :: "clock \<Rightarrow> user \<Rightarrow> int \<Rightarrow> int list \<Rightarrow> db \<Rightarrow> details result" where
  "replace_user_edge_nodes clk actor user_id requested d =
     (case member_user d user_id of
        Inl e \<Rightarrow> (Inl e, d)
      | Inr _ \<Rightarrow>
          (let node_ids = sort (remdups requested) in
           if node_ids \<noteq> [] \<and> \<not> list_all (\<lambda>n. n \<in> nd_id ` set (nodes d)) node_ids
           then fail 422 ''Valid edge nodes required'' d
           else
             (Inr [(''node_ids'', VList (map VInt node_ids))],
              audit ''user.edge_nodes_replaced'' (Some (us_id actor)) (Some ''user'') (Some (int_str user_id))
                [(''node_ids'', VList (map VInt node_ids))] (clk (length node_ids))
                (d\<lparr>grants := add_grants clk user_id node_ids
                     (delete_where (\<lambda>g. gr_user_id g = user_id) (grants d))\<rparr>))))"

definition disconnect_leases :: "(store_lease \<Rightarrow> bool) \<Rightarrow> instant \<Rightarrow> db \<Rightarrow> db" where
  "disconnect_leases p now d =
     d\<lparr>leases := update_where (\<lambda>l. p l \<and> lease_active l)
        (\<lambda>l. l\<lparr>ls_status := ''disconnected'', ls_disconnected_at := Some now\<rparr>) (leases d)\<rparr>"

definition change_user_password ::
  "(string \<Rightarrow> string) \<Rightarrow> clock \<Rightarrow> user \<Rightarrow> int \<Rightarrow> string \<Rightarrow> db \<Rightarrow> details result" where
  "change_user_password hash_password clk actor user_id password d =
     (case member_user d user_id of
        Inl e \<Rightarrow> (Inl e, d)
      | Inr target \<Rightarrow>
          (let now = clk 0;
               d1 = update_user user_id
                      (\<lambda>u. u\<lparr>us_password_hash := hash_password password, us_token_version := us_token_version u + 1\<rparr>) d;
               d2 = snd (revoke_device_sessions (us_id target) now d1);
               d3 = disconnect_leases (\<lambda>l. ls_owner_user_id l = us_id target) now d2
           in (Inr [(''id'', VInt (us_id target)), (''password_changed'', VBool True)],
               audit ''user.password_changed'' (Some (us_id actor)) (Some ''user'') (Some (int_str (us_id target)))
                 [(''tokens_revoked'', VBool True)] (clk 1) d3)))"

definition set_user_enabled :: "clock \<Rightarrow> user \<Rightarrow> int \<Rightarrow> bool \<Rightarrow> db \<Rightarrow> details result" where
  "set_user_enabled clk actor user_id flag d =
     (case member_user d user_id of
        Inl e \<Rightarrow> (Inl e, d)
      | Inr target \<Rightarrow>
          (case (if us_enabled target \<and> \<not> flag
                 then revoke_device_sessions (us_id target) (clk 0)
                        (update_user user_id (\<lambda>u. u\<lparr>us_token_version := us_token_version u + 1\<rparr>) d)
                 else (0, d)) of
             (revoked, d1) \<Rightarrow>
               (Inr [(''id'', VInt (us_id target)), (''enabled'', VBool flag)],
                audit ''user.enabled_changed'' (Some (us_id actor)) (Some ''user'') (Some (int_str (us_id target)))
                  [(''enabled'', VBool flag), (''revoked_device_sessions'', VInt (int revoked))] (clk 1)
                  (update_user user_id (\<lambda>u. u\<lparr>us_enabled := flag\<rparr>) d1))))"

definition live_session :: "int \<Rightarrow> browser_session \<Rightarrow> bool" where
  "live_session user_id s \<longleftrightarrow> bs_user_id s = user_id \<and> bs_status s \<in> {''starting'', ''running''}"

definition deleted_username :: "int \<Rightarrow> string \<Rightarrow> string" where
  "deleted_username user_id uuid_hex = ''deleted-user-'' @ int_str user_id @ ''-'' @ take 12 uuid_hex"

definition delete_user ::
  "clock \<Rightarrow> string \<Rightarrow> user \<Rightarrow> int \<Rightarrow> db \<Rightarrow> (string list) result" where
  "delete_user clk uuid_hex actor user_id d =
     (case member_user d user_id of
        Inl e \<Rightarrow> (Inl e, d)
      | Inr target \<Rightarrow>
          (let uid = us_id target; now = clk 0;
               stopped = map bs_id (filter (live_session uid) (sessions d));
               d1 = d\<lparr>grants := delete_where (\<lambda>g. gr_user_id g = uid) (grants d)\<rparr>;
               d2 = disconnect_leases (\<lambda>l. ls_owner_user_id l = uid) now d1;
               d3 = d2\<lparr>stores := update_where (\<lambda>s. st_owner_user_id s = Some uid)
                            (\<lambda>s. s\<lparr>st_owner_user_id := None\<rparr>) (stores d2),
                       history := delete_where (\<lambda>h. hs_user_id h = uid) (history d2),
                       tabs := delete_where (\<lambda>t. tb_user_id t = uid) (tabs d2),
                       sessions := update_where (live_session uid)
                            (\<lambda>s. s\<lparr>bs_status := ''stopped'', bs_endpoint := None, bs_updated_at := now\<rparr>) (sessions d2)\<rparr>;
               d4 = update_user user_id
                      (\<lambda>u. u\<lparr>us_username := deleted_username (us_id u) uuid_hex, us_password_hash := ''!deleted'',
                             us_enabled := False, us_token_version := us_token_version u + 1,
                             us_deleted_at := Some now\<rparr>) d3;
               d5 = snd (revoke_device_sessions uid now d4)
           in (Inr stopped,
               audit ''user.deleted'' (Some (us_id actor)) (Some ''user'') (Some (int_str uid))
                 [(''username'', VStr (us_username target)),
                  (''revoked_node_grants'', VInt (int (count_where (\<lambda>g. gr_user_id g = uid) (grants d)))),
                  (''disconnected_leases'',
                     VInt (int (count_where (\<lambda>l. ls_owner_user_id l = uid \<and> lease_active l) (leases d)))),
                  (''deleted_history_entries'', VInt (int (count_where (\<lambda>h. hs_user_id h = uid) (history d)))),
                  (''deleted_tab_snapshots'', VInt (int (count_where (\<lambda>t. tb_user_id t = uid) (tabs d)))),
                  (''revoked_device_sessions'', VInt (int (fst (revoke_device_sessions uid now d4))))]
                 (clk 1) d5)))"

text \<open>The older route \<open>POST /api/admin/users/{id}/disable\<close>.\<close>

definition disable_user :: "clock \<Rightarrow> user \<Rightarrow> int \<Rightarrow> db \<Rightarrow> (details \<times> string list) result" where
  "disable_user clk actor user_id d =
     (case get_user d user_id of
        None \<Rightarrow> fail 404 ''Member not found'' d
      | Some target \<Rightarrow>
          if us_role target = ''admin'' then fail 404 ''Member not found'' d
          else
            (let stopped = map bs_id (filter (live_session (us_id target)) (sessions d));
                 d1 = update_user user_id
                        (\<lambda>u. u\<lparr>us_enabled := False, us_token_version := us_token_version u + 1\<rparr>) d;
                 d2 = d1\<lparr>sessions := update_where (live_session (us_id target))
                            (\<lambda>s. s\<lparr>bs_status := ''stopped''\<rparr>) (sessions d1)\<rparr>
             in (Inr ([(''id'', VInt (us_id target)), (''enabled'', VBool False)], stopped),
                 audit ''user.disabled'' (Some (us_id actor)) (Some ''user'') (Some (int_str (us_id target))) [] (clk 0) d2)))"

section \<open>Facts on the pieces\<close>

lemma get_user_update_user:
  assumes "\<And>u. us_id (f u) = us_id u"
  shows "get_user (update_user i f d) j = map_option (\<lambda>u. if us_id u = i then f u else u) (get_user d j)"
  unfolding get_user_def update_user_def using assms by (simp add: find_row_update_where)

lemma get_user_update_same:
  assumes "\<And>u. us_id (f u) = us_id u" and "get_user d i = Some u"
  shows "get_user (update_user i f d) i = Some (f u)"
  using assms get_user_update_user [of f i d i] by (auto dest: get_user_Some)

lemma update_user_tables [simp]:
  "devices (update_user i f d) = devices d" "leases (update_user i f d) = leases d"
  "grants (update_user i f d) = grants d" "stores (update_user i f d) = stores d"
  "nodes (update_user i f d) = nodes d" "sessions (update_user i f d) = sessions d"
  by (simp_all add: update_user_def)

lemma revoke_device_sessions_tables [simp]:
  "users (snd (revoke_device_sessions i now d)) = users d"
  "get_user (snd (revoke_device_sessions i now d)) = get_user d"
  "leases (snd (revoke_device_sessions i now d)) = leases d"
  "grants (snd (revoke_device_sessions i now d)) = grants d"
  "stores (snd (revoke_device_sessions i now d)) = stores d"
  "nodes (snd (revoke_device_sessions i now d)) = nodes d"
  by (simp_all add: revoke_device_sessions_def get_user_def fun_eq_iff Let_def)

lemma revoke_device_sessions_all:
  assumes "r \<in> set (devices (snd (revoke_device_sessions i now d)))" and "dv_user_id r = i"
  shows "dv_revoked_at r \<noteq> None"
proof -
  from assms(1) have "r \<in> set (update_where (\<lambda>r. dv_user_id r = i \<and> dv_revoked_at r = None)
      (\<lambda>r. r\<lparr>dv_revoked_at := Some now, dv_updated_at := now, dv_token_generation := dv_token_generation r + 1\<rparr>) (devices d))"
    by (simp add: revoke_device_sessions_def Let_def)
  then show ?thesis by (cases rule: update_where_cases) (use assms(2) in simp_all)
qed

lemma disconnect_leases_tables [simp]:
  "users (disconnect_leases p now d) = users d" "devices (disconnect_leases p now d) = devices d"
  "get_user (disconnect_leases p now d) = get_user d" "grants (disconnect_leases p now d) = grants d"
  "nodes (disconnect_leases p now d) = nodes d" "stores (disconnect_leases p now d) = stores d"
  by (simp_all add: disconnect_leases_def get_user_def fun_eq_iff)

lemma disconnect_leases_all:
  assumes "\<And>l. p (l\<lparr>ls_status := ''disconnected'', ls_disconnected_at := Some now\<rparr>) = p l"
    and "l \<in> set (leases (disconnect_leases p now d))" and "p l"
  shows "\<not> lease_active l"
proof -
  from assms(2) have "l \<in> set (update_where (\<lambda>l. p l \<and> lease_active l)
      (\<lambda>l. l\<lparr>ls_status := ''disconnected'', ls_disconnected_at := Some now\<rparr>) (leases d))"
    by (simp add: disconnect_leases_def)
  then show ?thesis by (cases rule: update_where_cases) (use assms(3) in \<open>simp_all add: lease_active_def\<close>)
qed

lemma member_user_Inr:
  "member_user d i = Inr u \<longleftrightarrow> get_user d i = Some u \<and> us_role u \<noteq> ''admin'' \<and> us_deleted_at u = None"
  by (auto simp: member_user_def split: option.splits if_splits)

section \<open>Cutting off a user\<close>

text \<open>Nothing issued to the user up to a token version is accepted any more: neither an access token
  nor a refresh token.\<close>

definition cut_off :: "db \<Rightarrow> int \<Rightarrow> int \<Rightarrow> bool" where
  "cut_off d i version \<longleftrightarrow>
     (\<forall>u. get_user d i = Some u \<longrightarrow> version < us_token_version u) \<and>
     (\<forall>r \<in> set (devices d). dv_user_id r = i \<longrightarrow> dv_revoked_at r \<noteq> None)"

lemma cut_off_bearer:
  assumes "cut_off d i version" and "api_loads raw = Some payload"
    and "payload_get payload ''uid'' = JInt i" and "payload_get payload ''ver'' = JInt v" and "v \<le> version"
  shows "bearer_user api_loads native_loads now d (Some (''Bearer '' @ raw)) = None"
proof (cases "get_user d i")
  case None
  with assms show ?thesis by (simp add: bearer_user_def startswith_def user_of_def)
next
  case (Some u)
  with assms(1) have "version < us_token_version u" by (simp add: cut_off_def)
  with Some assms(2-5) show ?thesis by (simp add: bearer_user_def startswith_def user_of_def)
qed

lemma cut_off_native:
  assumes "cut_off d i version"
  shows "native_access_identity loads now d raw = Some (u, r) \<Longrightarrow> us_id u \<noteq> i"
  using assms native_access_identity_sound [of loads now d raw u r] by (auto simp: cut_off_def)

lemma cut_off_refresh:
  assumes "cut_off d i version" and "get_device d sid = Some r" and "dv_user_id r = i"
  shows "dv_revoked_at r \<noteq> None"
  using assms get_device_Some [OF assms(2)] by (auto simp: cut_off_def)

lemma cut_offI:
  assumes "get_user d' i = Some u" and "version < us_token_version u"
    and "\<And>r. r \<in> set (devices d') \<Longrightarrow> dv_user_id r = i \<Longrightarrow> dv_revoked_at r \<noteq> None"
  shows "cut_off d' i version"
  using assms by (simp add: cut_off_def)

lemma change_user_password_cut:
  assumes "change_user_password hash_password clk actor i password d = (Inr resp, d')" and "get_user d i = Some u"
  shows "cut_off d' i (us_token_version u) \<and> (\<forall>l \<in> set (leases d'). ls_owner_user_id l = i \<longrightarrow> \<not> lease_active l)"
proof -
  have id: "us_id u = i" using assms(2) by (auto dest: get_user_Some)
  have m: "member_user d i = Inr u"
    using assms by (auto simp: change_user_password_def member_user_def split: option.splits if_splits)
  let ?f = "\<lambda>u. u\<lparr>us_password_hash := hash_password password, us_token_version := us_token_version u + 1\<rparr>"
  let ?d2 = "snd (revoke_device_sessions i (clk 0) (update_user i ?f d))"
  let ?d3 = "disconnect_leases (\<lambda>l. ls_owner_user_id l = i) (clk 0) ?d2"
  obtain e tt ti dt tm where d': "d' = audit e tt ti dt tm (clk 1) ?d3"
    using assms(1) m id by (auto simp: change_user_password_def Let_def)
  have "get_user d' i = Some (?f u)"
    using get_user_update_same [OF _ assms(2), of ?f] by (simp add: d')
  then have "cut_off d' i (us_token_version u)"
    by (rule cut_offI) (auto simp: d' dest: revoke_device_sessions_all)
  moreover have "\<forall>l \<in> set (leases d'). ls_owner_user_id l = i \<longrightarrow> \<not> lease_active l"
    using disconnect_leases_all [of "\<lambda>l. ls_owner_user_id l = i" "clk 0" _ ?d2] by (auto simp: d')
  ultimately show ?thesis by blast
qed

lemma set_user_enabled_cut:
  assumes "set_user_enabled clk actor i False d = (Inr resp, d')" and "get_user d i = Some u" and "us_enabled u"
  shows "cut_off d' i (us_token_version u) \<and> (\<exists>u'. get_user d' i = Some u' \<and> \<not> us_enabled u')"
proof -
  have id: "us_id u = i" using assms(2) by (auto dest: get_user_Some)
  have m: "member_user d i = Inr u"
    using assms by (auto simp: set_user_enabled_def member_user_def split: option.splits if_splits)
  let ?f = "\<lambda>u. u\<lparr>us_token_version := us_token_version u + 1\<rparr>"
  let ?d1 = "snd (revoke_device_sessions i (clk 0) (update_user i ?f d))"
  let ?d2 = "update_user i (\<lambda>u. u\<lparr>us_enabled := False\<rparr>) ?d1"
  obtain e tt ti dt tm where d': "d' = audit e tt ti dt tm (clk 1) ?d2"
    using assms(1,3) m id by (auto simp: set_user_enabled_def split: prod.splits)
  have "get_user ?d1 i = Some (?f u)" using get_user_update_same [OF _ assms(2), of ?f] by simp
  from get_user_update_same [OF _ this, of "\<lambda>u. u\<lparr>us_enabled := False\<rparr>"]
  have "get_user d' i = Some ((?f u)\<lparr>us_enabled := False\<rparr>)" by (simp add: d')
  moreover from this have "cut_off d' i (us_token_version u)"
    by (rule cut_offI) (auto simp: d' dest: revoke_device_sessions_all)
  ultimately show ?thesis by simp
qed

lemma delete_user_cut:
  assumes "delete_user clk uuid_hex actor i d = (Inr stopped, d')" and "get_user d i = Some u"
  shows "cut_off d' i (us_token_version u) \<and> (\<exists>u'. get_user d' i = Some u' \<and> \<not> us_enabled u' \<and> us_deleted_at u' = Some (clk 0)) \<and>
    (\<forall>l \<in> set (leases d'). ls_owner_user_id l = i \<longrightarrow> \<not> lease_active l) \<and>
    (\<forall>g \<in> set (grants d'). gr_user_id g \<noteq> i) \<and> (\<forall>s \<in> set (stores d'). st_owner_user_id s \<noteq> Some i)"
proof -
  have id: "us_id u = i" using assms(2) by (auto dest: get_user_Some)
  have m: "member_user d i = Inr u"
    using assms by (auto simp: delete_user_def member_user_def split: option.splits if_splits)
  let ?d1 = "d\<lparr>grants := delete_where (\<lambda>g. gr_user_id g = i) (grants d)\<rparr>"
  let ?d2 = "disconnect_leases (\<lambda>l. ls_owner_user_id l = i) (clk 0) ?d1"
  let ?f = "\<lambda>u. u\<lparr>us_username := deleted_username (us_id u) uuid_hex, us_password_hash := ''!deleted'',
     us_enabled := False, us_token_version := us_token_version u + 1, us_deleted_at := Some (clk 0)\<rparr>"
  let ?st = "update_where (\<lambda>s. st_owner_user_id s = Some i) (\<lambda>s. s\<lparr>st_owner_user_id := None\<rparr>) (stores ?d2)"
  obtain h tb ss e tt ti dt tm where d': "d' = audit e tt ti dt tm (clk 1)
      (snd (revoke_device_sessions i (clk 0)
         (update_user i ?f (?d2\<lparr>stores := ?st, history := h, tabs := tb, sessions := ss\<rparr>))))"
    using assms(1) m id by (auto simp: delete_user_def Let_def)
  have g: "get_user (?d2\<lparr>stores := ?st, history := h, tabs := tb, sessions := ss\<rparr>) i = Some u"
    using assms(2) by (simp add: get_user_def)
  have new: "get_user d' i = Some (?f u)" using get_user_update_same [OF _ g, of ?f] by (simp add: d')
  then have "cut_off d' i (us_token_version u)"
    by (rule cut_offI) (auto simp: d' dest: revoke_device_sessions_all)
  moreover have "\<forall>l \<in> set (leases d'). ls_owner_user_id l = i \<longrightarrow> \<not> lease_active l"
    using disconnect_leases_all [of "\<lambda>l. ls_owner_user_id l = i" "clk 0" _ ?d1] by (auto simp: d')
  moreover have "\<forall>g \<in> set (grants d'). gr_user_id g \<noteq> i" by (simp add: d' set_delete_where)
  moreover have "\<forall>s \<in> set (stores d'). st_owner_user_id s \<noteq> Some i" by (auto simp: d' set_update_where)
  ultimately show ?thesis using new by simp
qed

section \<open>Grants\<close>

lemma add_grants_set:
  "map (\<lambda>g. (gr_user_id g, gr_edge_node_id g)) (add_grants clk i ns t) =
     map (\<lambda>g. (gr_user_id g, gr_edge_node_id g)) t @ map (\<lambda>n. (i, n)) ns"
  by (induction clk i ns t rule: add_grants.induct) simp_all

lemma filter_add_grants:
  "map gr_edge_node_id (filter (\<lambda>g. gr_user_id g = i) (add_grants clk i ns t)) =
     map gr_edge_node_id (filter (\<lambda>g. gr_user_id g = i) t) @ ns"
  by (induction clk i ns t rule: add_grants.induct) simp_all

lemma filter_add_grants_other:
  "j \<noteq> i \<Longrightarrow> filter (\<lambda>g. gr_user_id g = j) (add_grants clk i ns t) = filter (\<lambda>g. gr_user_id g = j) t"
  by (induction clk i ns t rule: add_grants.induct) simp_all

section \<open>Properties\<close>



text \<open>The older route that disables a user does not cut the user off: it leaves the device
  sessions alone, so a refresh token from before is exchanged for a new access token as soon as
  the user is enabled again.\<close>

theorem disable_keeps_refresh_tokens:
  "\<exists>resp d1 resp' d2 resp'' d3.
     disable_user (\<lambda>_. 9) (demo_user 1 ''root'' ''admin'') 2 demo_db = (Inr resp, d1) \<and>
     set_user_enabled (\<lambda>_. 10) (demo_user 1 ''root'' ''admin'') 2 True d1 = (Inr resp', d2) \<and>
     native_refresh (\<lambda>x. x) (\<lambda>_. []) (\<lambda>_. 11) ''new'' (\<lambda>d. d) (Some (''Refresh '' @ ''d1.old'')) d2 = (Inr resp'', d3)"
proof -
  let ?a = "demo_user 1 ''root'' ''admin''"
  let ?f = "\<lambda>u. u\<lparr>us_enabled := False, us_token_version := us_token_version u + 1\<rparr>"
  let ?u1 = "?f (demo_user 2 ''ann'' ''member'')"
  obtain resp d1 where d1: "disable_user (\<lambda>_. 9) ?a 2 demo_db = (Inr resp, d1)"
    and u1: "get_user d1 2 = Some ?u1" and dev1: "devices d1 = devices demo_db"
  proof -
    have role: "us_role (demo_user 2 ''ann'' ''member'') = ''member''" "us_id (demo_user 2 ''ann'' ''member'') = 2"
      by (simp_all add: demo_user_def)
    have "get_user (update_user 2 ?f demo_db) 2 = Some ?u1"
      by (rule get_user_update_same [OF _ demo_gets(2)]) simp
    then have "get_user (snd (disable_user (\<lambda>_. 9) ?a 2 demo_db)) 2 = Some ?u1"
      "devices (snd (disable_user (\<lambda>_. 9) ?a 2 demo_db)) = devices demo_db"
      "\<exists>resp. fst (disable_user (\<lambda>_. 9) ?a 2 demo_db) = Inr resp"
      by (simp_all add: disable_user_def demo_gets(2) role Let_def) (simp add: get_user_def)
    then show ?thesis using that by (metis prod.collapse)
  qed
  have m: "member_user d1 2 = Inr ?u1" by (simp add: member_user_Inr u1) (simp add: demo_user_def)
  obtain resp' d2 where d2: "set_user_enabled (\<lambda>_. 10) ?a 2 True d1 = (Inr resp', d2)"
    and u2: "get_user d2 2 = Some (?u1\<lparr>us_enabled := True\<rparr>)" and dev2: "devices d2 = devices demo_db"
  proof -
    have "get_user (update_user 2 (\<lambda>u. u\<lparr>us_enabled := True\<rparr>) d1) 2 = Some (?u1\<lparr>us_enabled := True\<rparr>)"
      by (rule get_user_update_same [OF _ u1]) simp
    then have "get_user (snd (set_user_enabled (\<lambda>_. 10) ?a 2 True d1)) 2 = Some (?u1\<lparr>us_enabled := True\<rparr>)"
      "devices (snd (set_user_enabled (\<lambda>_. 10) ?a 2 True d1)) = devices demo_db"
      "\<exists>resp. fst (set_user_enabled (\<lambda>_. 10) ?a 2 True d1) = Inr resp"
      using m dev1 by (simp_all add: set_user_enabled_def)
    then show ?thesis using that by (metis prod.collapse)
  qed
  have part: "partition_char dot ''d1.old'' = (''d1'', True, ''old'')" by (simp add: partition_char_def)
  have item: "get_device d2 ''d1'' = Some (demo_device ''d1'' 2 ''d1.old'')"
    using demo_gets(3) by (simp add: get_device_def dev2)
  have one: "count_where (rotate_where ''d1'' ''d1.old'' 1) (devices d2) = 1"
    by (simp add: dev2 count_where_def rotate_where_def demo_defs)
  have "unique_on dv_id (devices d2)" using demo_db_ok by (simp add: dev2 db_ok_def)
  from rotated_device [OF this one, of 11 "''d1.new''" 2] obtain r where
    "get_device (d2\<lparr>devices := update_where (rotate_where ''d1'' ''d1.old'' 1)
       (rotate_session 11 ''d1.new'' 2) (devices d2)\<rparr>) ''d1'' = Some (rotate_session 11 ''d1.new'' 2 r)"
    by blast
  with one have "\<exists>resp'' d3. native_refresh (\<lambda>x. x) (\<lambda>_. []) (\<lambda>_. 11) ''new'' (\<lambda>d. d) (Some (''Refresh '' @ ''d1.old'')) d2 =
      (Inr resp'', d3)"
    unfolding native_refresh_found [OF part list.distinct(2) list.distinct(2) item]
    by (simp add: demo_device_def u2 Let_def) (simp add: demo_user_def)
  with d1 d2 show ?thesis by blast
qed

text \<open>Replacing a member's node grants leaves exactly the requested nodes, each once and sorted,
  all of them existing, and every other user's grants as they were.\<close>

theorem grants_replaced:
  assumes "replace_user_edge_nodes clk actor i requested d = (Inr resp, d')"
  shows "granted_node_ids d' i = sort (remdups requested) \<and>
    (\<forall>n \<in> set requested. n \<in> nd_id ` set (nodes d')) \<and>
    (\<forall>j. j \<noteq> i \<longrightarrow> granted_node_ids d' j = granted_node_ids d j)"
proof -
  obtain e tt ti dt tm tm' where d': "d' = audit e tt ti dt tm tm'
      (d\<lparr>grants := add_grants clk i (sort (remdups requested)) (delete_where (\<lambda>g. gr_user_id g = i) (grants d))\<rparr>)"
    using assms by (auto simp: replace_user_edge_nodes_def Let_def split: sum.splits if_splits)
  have "sort (remdups requested) = [] \<or> list_all (\<lambda>n. n \<in> nd_id ` set (nodes d)) (sort (remdups requested))"
    using assms by (auto simp: replace_user_edge_nodes_def Let_def split: sum.splits if_splits)
  then have all: "\<forall>n \<in> set requested. n \<in> nd_id ` set (nodes d)"
    by (metis empty_iff list.set(1) list_all_iff set_remdups set_sort)
  have none: "filter (\<lambda>g. gr_user_id g = i) (delete_where (\<lambda>g. gr_user_id g = i) (grants d)) = []"
    by (simp add: delete_where_def filter_empty_conv)
  have other: "filter (\<lambda>g. gr_user_id g = j) (delete_where (\<lambda>g. gr_user_id g = i) (grants d)) =
      filter (\<lambda>g. gr_user_id g = j) (grants d)" if "j \<noteq> i" for j
    using that by (auto simp: delete_where_def intro!: filter_cong)
  show ?thesis
    using all none other by (simp add: d' granted_node_ids_def filter_add_grants filter_add_grants_other sorted_sort_id)
qed

theorem grants_replaced_witness:
  "\<exists>resp d'. replace_user_edge_nodes (\<lambda>_. 9) (demo_user 1 ''root'' ''admin'') 2 [5, 5] demo_db = (Inr resp, d') \<and>
     granted_node_ids d' 2 = [5]"
proof -
  have "member_user demo_db 2 = Inr (demo_user 2 ''ann'' ''member'')"
    by (simp add: member_user_Inr demo_gets) (simp add: demo_user_def)
  moreover have "5 \<in> nd_id ` set (nodes demo_db)" by (simp add: demo_db_def demo_node_def)
  ultimately obtain resp d' where
    r: "replace_user_edge_nodes (\<lambda>_. 9) (demo_user 1 ''root'' ''admin'') 2 [5, 5] demo_db = (Inr resp, d')"
    by (simp add: replace_user_edge_nodes_def Let_def)
  from grants_replaced [OF r] r show ?thesis by auto
qed

text \<open>A deleted member is gone from everything that gives access: the member is disabled and
  marked deleted, has no node grant, no active lease and owns no store, and every browser session
  that was starting or running was handed to the runner to be stopped.\<close>

theorem deletion_complete:
  assumes "delete_user clk uuid_hex actor i d = (Inr stopped, d')"
  shows "(\<exists>u'. get_user d' i = Some u' \<and> \<not> us_enabled u' \<and> us_deleted_at u' = Some (clk 0)) \<and>
    (\<forall>l \<in> set (leases d'). ls_owner_user_id l = i \<longrightarrow> \<not> lease_active l) \<and>
    granted_node_ids d' i = [] \<and> (\<forall>s \<in> set (stores d'). st_owner_user_id s \<noteq> Some i) \<and>
    set stopped = bs_id ` {s \<in> set (sessions d). live_session i s} \<and>
    (\<forall>s \<in> set (sessions d'). \<not> live_session i s)"
proof -
  from assms obtain u where u: "get_user d i = Some u"
    by (auto simp: delete_user_def member_user_def split: option.splits if_splits)
  then have id: "us_id u = i" by (auto dest: get_user_Some)
  have m: "member_user d i = Inr u"
    using assms u by (auto simp: delete_user_def member_user_def split: if_splits)
  from delete_user_cut [OF assms u] have rest:
    "\<forall>l \<in> set (leases d'). ls_owner_user_id l = i \<longrightarrow> \<not> lease_active l"
    "\<forall>g \<in> set (grants d'). gr_user_id g \<noteq> i" "\<forall>s \<in> set (stores d'). st_owner_user_id s \<noteq> Some i"
    by auto
  have g: "granted_node_ids d' i = []" using rest(2) by (simp add: granted_node_ids_def filter_empty_conv)
  have st: "set stopped = bs_id ` {s \<in> set (sessions d). live_session i s}"
    using assms m id by (auto simp: delete_user_def Let_def)
  have ss: "\<forall>s \<in> set (sessions d'). \<not> live_session i s"
    using assms m id
    by (auto simp: delete_user_def Let_def revoke_device_sessions_def update_user_def disconnect_leases_def
        set_update_where live_session_def)
  from delete_user_cut [OF assms u]
  have "\<exists>u'. get_user d' i = Some u' \<and> \<not> us_enabled u' \<and> us_deleted_at u' = Some (clk 0)" by blast
  with rest g st ss show ?thesis by blast
qed

theorem deletion_complete_witness:
  "\<exists>stopped d'. delete_user (\<lambda>_. 9) ''abc'' (demo_user 1 ''root'' ''admin'') 2 demo_db = (Inr stopped, d') \<and>
     granted_node_ids d' 2 = []"
proof -
  have "member_user demo_db 2 = Inr (demo_user 2 ''ann'' ''member'')"
    by (simp add: member_user_Inr demo_gets) (simp add: demo_user_def)
  then obtain stopped d' where
    r: "delete_user (\<lambda>_. 9) ''abc'' (demo_user 1 ''root'' ''admin'') 2 demo_db = (Inr stopped, d')"
    by (simp add: delete_user_def Let_def)
  from deletion_complete [OF r] r show ?thesis by blast
qed

end
