(* ===== verification/Urls.thy ===== *)
theory Urls
  imports Net_Address
begin

text \<open>
  URLs as the control plane reads them: the parts of \<open>urllib.parse.urlsplit\<close> (and of \<open>urlparse\<close>,
  which only splits the path further) that it asks for, the scheme, the host name and the user
  information; \<open>NetworkPolicy.is_url_allowed\<close> of \<open>cloudbrowser/security.py\<close>; and
  \<open>validate_edge_node_network\<close>, which every handler that names an edge node calls.

  \<open>None\<close> as the result of \<open>urlsplit\<close> is its \<open>ValueError\<close>, which neither caller catches. The text is
  Latin-1, where the compatibility normalisation of \<open>_checknetloc\<close> produces no reserved character.
\<close>

record split_result =
  sp_scheme :: string
  sp_netloc :: string

section \<open>Splitting\<close>

definition is_alpha :: "char \<Rightarrow> bool" where
  "is_alpha c \<longleftrightarrow> is_upper c \<or> is_lower c"

definition scheme_char :: "char \<Rightarrow> bool" where
  "scheme_char c \<longleftrightarrow> is_alnum c \<or> c \<in> set ''+-.''"

text \<open>Leading control characters and spaces go, and tabs and line ends wherever they are.\<close>

definition clean_url :: "string \<Rightarrow> string" where
  "clean_url url =
     filter (\<lambda>c. c \<notin> {CHR 0x09, CHR 0x0D, CHR 0x0A}) (dropWhile (\<lambda>c. of_char c \<le> (32 :: nat)) url)"

definition split_scheme :: "string \<Rightarrow> string \<times> string" where
  "split_scheme url =
     (case partition_char (CHR '':'') url of
        (before, found, rest) \<Rightarrow>
          if found \<and> before \<noteq> [] \<and> is_alpha (hd url) \<and> list_all scheme_char before
          then (lower_str before, rest) else ([], url))"

definition rpartition_char :: "char \<Rightarrow> string \<Rightarrow> string \<times> bool \<times> string" where
  "rpartition_char c s =
     (case partition_char c (rev s) of
        (a, found, b) \<Rightarrow> if found then (rev b, True, rev a) else ([], False, s))"

definition is_hex :: "char \<Rightarrow> bool" where
  "is_hex c \<longleftrightarrow> is_digit c \<or> char_in 65 70 c \<or> char_in 97 102 c"

definition future_address :: "string \<Rightarrow> bool" where
  "future_address h \<longleftrightarrow>
     (case partition_char dot (tl h) of
        (digits, found, rest) \<Rightarrow> found \<and> digits \<noteq> [] \<and> list_all is_hex digits \<and> rest \<noteq> [])"

definition bracketed_host_ok :: "string \<Rightarrow> bool" where
  "bracketed_host_ok h =
     (if startswith h ''v'' then future_address h
      else (case ip_address h of None \<Rightarrow> False | Some a \<Rightarrow> \<not> is_ipv4 a))"

text \<open>Host and port text, as \<open>_hostinfo\<close> splits them: the text before an opening bracket, the host and
  what follows it.\<close>

definition host_split :: "string \<Rightarrow> string \<times> string \<times> string" where
  "host_split netloc =
     (let hostinfo = snd (snd (rpartition_char (CHR ''@'') netloc)) in
      case partition_char (CHR ''['') hostinfo of
        (before, have_open, bracketed) \<Rightarrow>
          if have_open
          then (case partition_char (CHR '']'') bracketed of (h, _, port) \<Rightarrow> (before, h, port))
          else (case partition_char (CHR '':'') hostinfo of (h, _, port) \<Rightarrow> ([], h, port)))"

definition bracketed_netloc_ok :: "string \<Rightarrow> bool" where
  "bracketed_netloc_ok netloc =
     (case host_split netloc of
        (before, h, port) \<Rightarrow>
          (if CHR ''['' \<in> set (snd (snd (rpartition_char (CHR ''@'') netloc)))
           then before = [] \<and> (port = [] \<or> hd port = CHR '':'') else True) \<and>
          bracketed_host_ok h)"

definition urlsplit :: "string \<Rightarrow> split_result option" where
  "urlsplit url =
     (case split_scheme (clean_url url) of
        (scheme, rest) \<Rightarrow>
          if startswith rest ''//'' then
            (let netloc = takeWhile (\<lambda>c. c \<notin> set ''/?#'') (drop 2 rest);
                 opened = (CHR ''['' \<in> set netloc); closed = (CHR '']'' \<in> set netloc)
             in if opened \<noteq> closed then None
                else if opened \<and> \<not> bracketed_netloc_ok netloc then None
                else Some \<lparr>sp_scheme = scheme, sp_netloc = netloc\<rparr>)
          else Some \<lparr>sp_scheme = scheme, sp_netloc = []\<rparr>)"

definition url_hostname :: "split_result \<Rightarrow> string option" where
  "url_hostname p =
     (case host_split (sp_netloc p) of
        (_, h, _) \<Rightarrow>
          if h = [] then None
          else (case partition_char (CHR ''%'') h of
                  (name, found, zone) \<Rightarrow> Some (lower_str name @ (if found then CHR ''%'' # zone else []))))"

text \<open>\<open>parsed.username is not None or parsed.password is not None\<close>: the user name is there as soon as
  there is an at sign.\<close>

definition url_userinfo :: "split_result \<Rightarrow> string option" where
  "url_userinfo p =
     (case rpartition_char (CHR ''@'') (sp_netloc p) of
        (userinfo, found, _) \<Rightarrow> if found then Some (fst (partition_char (CHR '':'') userinfo)) else None)"

section \<open>The control plane's tests\<close>

text \<open>\<open>NetworkPolicy.is_url_allowed\<close>.\<close>

definition private_address :: "ip \<Rightarrow> bool" where
  "private_address a \<longleftrightarrow>
     is_private a \<or> is_loopback a \<or> is_link_local a \<or> is_multicast a \<or> is_reserved a \<or> is_unspecified a"

definition is_url_allowed :: "string \<Rightarrow> bool option" where
  "is_url_allowed url =
     (case urlsplit url of
        None \<Rightarrow> None
      | Some parsed \<Rightarrow>
          (if sp_scheme parsed \<notin> {''http'', ''https''} then Some False
           else
             (case url_hostname parsed of
                None \<Rightarrow> Some False
              | Some h \<Rightarrow>
                  (let hostname = lower_str (rstrip_char dot h) in
                   if hostname = ''localhost'' \<or> endswith hostname ''.localhost'' then Some False
                   else
                     (case ip_address hostname of
                        None \<Rightarrow> Some True
                      | Some address \<Rightarrow> Some (\<not> private_address address))))))"

datatype network_check = Network_ok | Https_required | Global_ipv4_required | Url_error

definition validate_edge_node_network :: "string option \<Rightarrow> string option \<Rightarrow> network_check" where
  "validate_edge_node_network endpoint expected =
     (case endpoint of
        None \<Rightarrow> Https_required
      | Some e \<Rightarrow>
          (case urlsplit e of
             None \<Rightarrow> Url_error
           | Some parsed \<Rightarrow>
               if sp_scheme parsed \<noteq> ''https'' \<or> url_hostname parsed = None \<or> url_userinfo parsed \<noteq> None
               then Https_required
               else
                 (case expected of
                    None \<Rightarrow> Network_ok
                  | Some x \<Rightarrow>
                      (case ip_address x of
                         None \<Rightarrow> Global_ipv4_required
                       | Some a \<Rightarrow> if is_ipv4 a \<and> is_global a then Network_ok else Global_ipv4_required))))"

section \<open>What an accepted endpoint looks like\<close>

lemma validate_network_ok:
  assumes "validate_edge_node_network endpoint expected = Network_ok"
  obtains e parsed h where "endpoint = Some e" "urlsplit e = Some parsed" "sp_scheme parsed = ''https''"
    "url_hostname parsed = Some h" "url_userinfo parsed = None"
    "\<And>x. expected = Some x \<Longrightarrow> \<exists>n. ip_address x = Some (V4 n) \<and> is_global (V4 n) \<and> x = ip_str (V4 n)"
proof -
  from assms obtain e parsed where e: "endpoint = Some e" "urlsplit e = Some parsed" "sp_scheme parsed = ''https''"
    "url_hostname parsed \<noteq> None" "url_userinfo parsed = None"
    by (auto simp: validate_edge_node_network_def split: option.splits if_splits)
  moreover have "\<exists>n. ip_address x = Some (V4 n) \<and> is_global (V4 n) \<and> x = ip_str (V4 n)" if "expected = Some x" for x
  proof -
    from assms that e obtain a where a: "ip_address x = Some a" "is_ipv4 a" "is_global a"
      by (auto simp: validate_edge_node_network_def simp del: is_global.simps split: option.splits if_splits)
    then obtain n where "a = V4 n" by (cases a) auto
    with a ip_address_V4 [of x n] show ?thesis by auto
  qed
  ultimately show ?thesis using that by blast
qed

text \<open>A plain \<open>https://host\<close> endpoint is accepted.\<close>

lemma takeWhile_all: "list_all p s \<Longrightarrow> takeWhile p s = s"
  by (induction s) auto

definition plain_host :: "string \<Rightarrow> bool" where
  "plain_host h \<longleftrightarrow> h \<noteq> [] \<and> list_all (\<lambda>c. is_lower c \<or> is_digit c \<or> c = CHR ''-'' \<or> c = dot) h"

lemma plain_char:
  assumes "is_lower c \<or> is_digit c \<or> c = CHR ''-'' \<or> c = dot"
  shows "c \<notin> {CHR 0x09, CHR 0x0D, CHR 0x0A}" "c \<notin> set ''/?#[]@:%''" "lower_char c = c"
  using assms by (auto simp: is_lower_def is_digit_def is_upper_def char_in_def lower_char_def)

lemma plain_https:
  assumes "plain_host h"
  shows "urlsplit (''https://'' @ h) = Some \<lparr>sp_scheme = ''https'', sp_netloc = h\<rparr>"
    and "url_hostname \<lparr>sp_scheme = ''https'', sp_netloc = h\<rparr> = Some h"
    and "url_userinfo \<lparr>sp_scheme = ''https'', sp_netloc = h\<rparr> = None"
proof -
  have c: "c \<notin> {CHR 0x09, CHR 0x0D, CHR 0x0A}" "c \<notin> set ''/?#[]@:%''" "lower_char c = c" if "c \<in> set h" for c
    using assms that plain_char [of c] by (auto simp: plain_host_def list_all_iff)
  have f: "filter (\<lambda>c. c \<notin> {CHR 0x09, CHR 0x0D, CHR 0x0A}) h = h"
    using c(1) by (simp add: filter_id_conv)
  have clean: "clean_url (''https://'' @ h) = ''https://'' @ h"
    using f by (simp add: clean_url_def)
  have scheme: "split_scheme (''https://'' @ h) = (''https'', ''//'' @ h)"
    using partition_char_found [of "CHR '':''" "''https''" "''//'' @ h"]
    by (simp add: split_scheme_def is_alpha_def scheme_char_def is_alnum_def is_lower_def is_upper_def
        is_digit_def char_in_def lower_str_def lower_char_def)
  have tw: "takeWhile (\<lambda>c. c \<noteq> CHR ''/'' \<and> c \<noteq> CHR ''?'' \<and> c \<noteq> CHR ''#'') h = h"
    using c(2) by (intro takeWhile_all) (auto simp: list_all_iff)
  have no: "CHR ''['' \<notin> set h" "CHR '']'' \<notin> set h" "CHR ''@'' \<notin> set h" "CHR '':'' \<notin> set h" "CHR ''%'' \<notin> set h"
    using c(2) by auto
  show "urlsplit (''https://'' @ h) = Some \<lparr>sp_scheme = ''https'', sp_netloc = h\<rparr>"
    unfolding urlsplit_def clean scheme by (simp add: startswith_def Let_def tw no)
  have rp: "rpartition_char (CHR ''@'') h = ([], False, h)"
    using no(3) by (simp add: rpartition_char_def partition_char_absent)
  have hs: "host_split h = ([], h, [])"
    using no by (simp add: host_split_def rp partition_char_absent)
  have "lower_str h = h" using c(3) by (simp add: lower_str_def map_idI)
  then show "url_hostname \<lparr>sp_scheme = ''https'', sp_netloc = h\<rparr> = Some h"
    using assms no(5) by (simp add: url_hostname_def hs partition_char_absent plain_host_def)
  show "url_userinfo \<lparr>sp_scheme = ''https'', sp_netloc = h\<rparr> = None"
    by (simp add: url_userinfo_def rp)
qed

end
