(* ===== verification/Edge_Nodes.thy ===== *)
theory Edge_Nodes
  imports Prelude Control_Model Urls
begin

text \<open>
  Administration of edge nodes and their capabilities (\<open>cloudbrowser/app.py\<close>).

  A field of an update body is \<open>None\<close> when it was not sent and \<open>Some None\<close> when it was sent as null; a
  null in a column that may not be null fails at the commit (\<open>Server_error\<close>). The deletion of a node
  reads, deletes what it read, and commits: \<open>other\<close> is what other transactions commit in between,
  and \<open>fk\<close> says whether the database enforces foreign keys (MySQL does, SQLite as configured does
  not). Error texts the source has in Chinese are given in English.
\<close>

section \<open>Responses\<close>

definition opt_val :: "('a \<Rightarrow> val) \<Rightarrow> 'a option \<Rightarrow> val" where
  "opt_val f x = (case x of None \<Rightarrow> VNull | Some v \<Rightarrow> f v)"

definition serialize_edge_health :: "edge_node \<Rightarrow> details" where
  "serialize_edge_health n =
     [(''health_status'', VStr (nd_health_status n)), (''last_seen_at'', opt_val VTime (nd_last_seen_at n)),
      (''latency_ms'', opt_val VInt (nd_latency_ms n)), (''active_connections'', VInt (nd_active_connections n)),
      (''max_connections'', VInt (nd_max_connections n)),
      (''accepted_connections'', VInt (nd_accepted_connections n)),
      (''denied_connections'', VInt (nd_denied_connections n)),
      (''expected_public_ipv4'', opt_val VStr (nd_expected_public_ipv4 n)),
      (''actual_public_ipv4'', opt_val VStr (nd_actual_public_ipv4 n)),
      (''load_1m'', opt_val VFloat (nd_load_1m n)),
      (''memory_total_bytes'', opt_val VInt (nd_memory_total_bytes n)),
      (''memory_available_bytes'', opt_val VInt (nd_memory_available_bytes n)),
      (''disk_total_bytes'', opt_val VInt (nd_disk_total_bytes n)),
      (''disk_free_bytes'', opt_val VInt (nd_disk_free_bytes n)),
      (''uptime_seconds'', opt_val VFloat (nd_uptime_seconds n)),
      (''agent_version'', opt_val VStr (nd_agent_version n)), (''last_error'', opt_val VStr (nd_last_error n))]"

definition serialize_edge_node :: "edge_node \<Rightarrow> details" where
  "serialize_edge_node n =
     [(''id'', VInt (nd_id n)), (''name'', VStr (nd_name n)), (''platform'', VStr (nd_platform n)),
      (''endpoint'', VStr (nd_endpoint n)), (''enabled'', VBool (nd_enabled n)),
      (''maintenance_mode'', VBool (nd_maintenance_mode n))] @ serialize_edge_health n"

section \<open>Rows\<close>

text \<open>A new row, with the defaults of the columns a handler does not set.\<close>

definition new_edge_node ::
  "int \<Rightarrow> string \<Rightarrow> string \<Rightarrow> string \<Rightarrow> string \<Rightarrow> bool \<Rightarrow> bool \<Rightarrow> string \<Rightarrow> string option \<Rightarrow> string option \<Rightarrow> instant \<Rightarrow> edge_node" where
  "new_edge_node i name endpoint secret platform enabled maintenance health expected actual created =
     \<lparr>nd_id = i, nd_name = name, nd_endpoint = endpoint, nd_shared_secret = secret, nd_platform = platform,
      nd_enabled = enabled, nd_maintenance_mode = maintenance, nd_health_status = health,
      nd_last_seen_at = None, nd_latency_ms = None, nd_active_connections = 0, nd_max_connections = 0,
      nd_accepted_connections = 0, nd_denied_connections = 0, nd_expected_public_ipv4 = expected,
      nd_actual_public_ipv4 = actual, nd_load_1m = None, nd_memory_total_bytes = None,
      nd_memory_available_bytes = None, nd_disk_total_bytes = None, nd_disk_free_bytes = None,
      nd_uptime_seconds = None, nd_agent_version = None, nd_last_error = None, nd_created_at = created\<rparr>"

definition node_exists :: "string \<Rightarrow> string \<Rightarrow> db \<Rightarrow> bool" where
  "node_exists name endpoint d \<longleftrightarrow> find_row (\<lambda>n. nd_name n = name \<or> nd_endpoint n = endpoint) (nodes d) \<noteq> None"

definition network_error :: "network_check \<Rightarrow> http_error option" where
  "network_error c =
     (case c of
        Network_ok \<Rightarrow> None
      | Https_required \<Rightarrow> Some (Http 422 ''HTTPS endpoint required'')
      | Global_ipv4_required \<Rightarrow> Some (Http 422 ''Global IPv4 address required'')
      | Url_error \<Rightarrow> Some Server_error)"

section \<open>Nodes\<close>

record edge_node_create_body =
  nc_name :: string
  nc_endpoint :: string
  nc_shared_secret :: string
  nc_expected_public_ipv4 :: "string option"
  nc_enabled :: bool
  nc_maintenance_mode :: bool

definition create_edge_node :: "clock \<Rightarrow> user \<Rightarrow> edge_node_create_body \<Rightarrow> db \<Rightarrow> details result" where
  "create_edge_node clk actor body d =
     (case network_error (validate_edge_node_network (Some (nc_endpoint body)) (nc_expected_public_ipv4 body)) of
        Some e \<Rightarrow> (Inl e, d)
      | None \<Rightarrow>
          if node_exists (nc_name body) (nc_endpoint body) d then fail 409 ''Edge node already exists'' d
          else
            (let health = (if nc_maintenance_mode body then ''maintenance''
                           else if \<not> nc_enabled body then ''disabled'' else ''unknown'');
                 n = new_edge_node (next_id nd_id (nodes d)) (nc_name body) (nc_endpoint body) (nc_shared_secret body)
                       ''linux'' (nc_enabled body) (nc_maintenance_mode body) health (nc_expected_public_ipv4 body)
                       None (clk 0)
             in (Inr (serialize_edge_node n),
                 audit ''edge_node.created'' (Some (us_id actor)) (Some ''edge_node'') (Some (int_str (nd_id n))) []
                   (clk 1) (d\<lparr>nodes := nodes d @ [n]\<rparr>))))"

definition admin_edge_nodes :: "db \<Rightarrow> details list result" where
  "admin_edge_nodes d = (Inr (map serialize_edge_node (sort_key nd_id (nodes d))), d)"

record edge_node_update_body =
  nu_name :: "string option option"
  nu_endpoint :: "string option option"
  nu_shared_secret :: "string option option"
  nu_expected_public_ipv4 :: "string option option"
  nu_enabled :: "bool option option"
  nu_maintenance_mode :: "bool option option"

text \<open>\<open>changes.get(field, current)\<close>, where the current value is never null; a null for such a column.\<close>

definition changed_to :: "'a option option \<Rightarrow> 'a \<Rightarrow> 'a option" where
  "changed_to field current = (case field of None \<Rightarrow> Some current | Some v \<Rightarrow> v)"

definition nulled :: "'a option option \<Rightarrow> bool" where
  "nulled field \<longleftrightarrow> field = Some None"

definition sent :: "string \<Rightarrow> 'a option \<Rightarrow> string list" where
  "sent name field = (case field of None \<Rightarrow> [] | Some _ \<Rightarrow> [name])"

definition apply_edge_node_update :: "edge_node_update_body \<Rightarrow> edge_node \<Rightarrow> edge_node" where
  "apply_edge_node_update b n =
     (let n1 = n\<lparr>nd_name := the (changed_to (nu_name b) (nd_name n)),
                 nd_endpoint := the (changed_to (nu_endpoint b) (nd_endpoint n)),
                 nd_shared_secret := the (changed_to (nu_shared_secret b) (nd_shared_secret n)),
                 nd_expected_public_ipv4 :=
                   (case nu_expected_public_ipv4 b of None \<Rightarrow> nd_expected_public_ipv4 n | Some v \<Rightarrow> v),
                 nd_enabled := the (changed_to (nu_enabled b) (nd_enabled n)),
                 nd_maintenance_mode := the (changed_to (nu_maintenance_mode b) (nd_maintenance_mode n))\<rparr>
      in n1\<lparr>nd_health_status :=
              (if nd_maintenance_mode n1 then ''maintenance''
               else if \<not> nd_enabled n1 then ''disabled''
               else if nu_maintenance_mode b \<noteq> None \<or> nu_enabled b \<noteq> None then ''unknown''
               else nd_health_status n1)\<rparr>)"

definition update_edge_node :: "clock \<Rightarrow> user \<Rightarrow> int \<Rightarrow> edge_node_update_body \<Rightarrow> db \<Rightarrow> details result" where
  "update_edge_node clk actor node_id body d =
     (case get_node d node_id of
        None \<Rightarrow> fail 404 ''Edge node not found'' d
      | Some n \<Rightarrow>
          (let name = changed_to (nu_name body) (nd_name n);
               endpoint = changed_to (nu_endpoint body) (nd_endpoint n);
               expected = (case nu_expected_public_ipv4 body of None \<Rightarrow> nd_expected_public_ipv4 n | Some v \<Rightarrow> v)
           in if find_row (\<lambda>x. nd_id x \<noteq> nd_id n \<and> (Some (nd_name x) = name \<or> Some (nd_endpoint x) = endpoint))
                   (nodes d) \<noteq> None
              then fail 409 ''Edge node already exists'' d
              else
                (case network_error (validate_edge_node_network endpoint expected) of
                   Some e \<Rightarrow> (Inl e, d)
                 | None \<Rightarrow>
                     if nulled (nu_name body) \<or> nulled (nu_shared_secret body) \<or> nulled (nu_enabled body) \<or>
                        nulled (nu_maintenance_mode body)
                     then (Inl Server_error, d)
                     else
                       (let n' = apply_edge_node_update body n;
                            safe_fields = sort (sent ''name'' (nu_name body) @ sent ''endpoint'' (nu_endpoint body) @
                              sent ''expected_public_ipv4'' (nu_expected_public_ipv4 body) @
                              sent ''enabled'' (nu_enabled body) @ sent ''maintenance_mode'' (nu_maintenance_mode body));
                            dts = (''changed_fields'', VList (map VStr safe_fields)) #
                              (if nu_shared_secret body \<noteq> None then [(''credential_rotated'', VBool True)] else [])
                        in (Inr (serialize_edge_node n'),
                            audit ''edge_node.updated'' (Some (us_id actor)) (Some ''edge_node'')
                              (Some (int_str (nd_id n))) dts (clk 0)
                              (d\<lparr>nodes := update_where (\<lambda>x. nd_id x = node_id) (\<lambda>_. n') (nodes d)\<rparr>))))))"

text \<open>What is left that refers to a node.\<close>

definition node_referenced :: "int \<Rightarrow> db \<Rightarrow> bool" where
  "node_referenced i d \<longleftrightarrow>
     list_ex (\<lambda>s. st_edge_node_id s = i) (stores d) \<or> list_ex (\<lambda>g. gr_edge_node_id g = i) (grants d) \<or>
     list_ex (\<lambda>c. cp_edge_node_id c = i) (capabilities d) \<or> list_ex (\<lambda>e. en_edge_node_id e = i) (enrollments d) \<or>
     list_ex (\<lambda>r. rg_edge_node_id r = Some i) (registrations d)"

definition delete_edge_node :: "bool \<Rightarrow> (db \<Rightarrow> db) \<Rightarrow> clock \<Rightarrow> user \<Rightarrow> int \<Rightarrow> db \<Rightarrow> unit result" where
  "delete_edge_node fk other clk actor node_id d =
     (case get_node d node_id of
        None \<Rightarrow> fail 404 ''Edge node not found'' d
      | Some n \<Rightarrow>
          (case find_row (\<lambda>s. st_edge_node_id s = nd_id n) (sort_key st_id (stores d)) of
             Some s \<Rightarrow> fail 409 (''The node is still bound to store '' @ st_label s) d
           | None \<Rightarrow>
               (let gs = filter (\<lambda>g. gr_edge_node_id g = nd_id n) (grants d);
                    cs = filter (\<lambda>c. cp_edge_node_id c = nd_id n) (capabilities d);
                    es = filter (\<lambda>e. en_edge_node_id e = nd_id n) (enrollments d);
                    rs = filter (\<lambda>r. rg_edge_node_id r = Some (nd_id n)) (registrations d);
                    w = other d;
                    d1 = w\<lparr>grants := delete_where (\<lambda>g. gr_id g \<in> gr_id ` set gs) (grants w),
                           capabilities := delete_where (\<lambda>c. cp_id c \<in> cp_id ` set cs) (capabilities w),
                           enrollments := delete_where (\<lambda>e. en_id e \<in> en_id ` set es) (enrollments w),
                           registrations := update_where (\<lambda>r. rg_id r \<in> rg_id ` set rs)
                             (\<lambda>r. r\<lparr>rg_edge_node_id := None\<rparr>) (registrations w)\<rparr>
                in if \<not> list_all (\<lambda>r. rg_id r \<in> rg_id ` set (registrations w)) rs then (Inl Server_error, w)
                   else if fk \<and> node_referenced (nd_id n) d1
                   then fail 409 ''The node changed meanwhile, reload and retry'' w
                   else
                     (let d2 = audit ''edge_node.deleted'' (Some (us_id actor)) (Some ''edge_node'')
                                 (Some (int_str (nd_id n)))
                                 [(''revoked_node_grants'', VInt (int (length gs))),
                                  (''deleted_capabilities'', VInt (int (length cs))),
                                  (''deleted_enrollments'', VInt (int (length es))),
                                  (''detached_registration_requests'', VInt (int (length rs)))] (clk 0) d1
                      in (Inr (), d2\<lparr>nodes := delete_where (\<lambda>x. nd_id x = nd_id n) (nodes d2)\<rparr>)))))"

section \<open>Capabilities\<close>

record edge_capability_body =
  cb_name :: string
  cb_config :: val

definition get_capability :: "db \<Rightarrow> int \<Rightarrow> edge_capability option" where
  "get_capability d i = find_row (\<lambda>c. cp_id c = i) (capabilities d)"

definition serialize_capability :: "(string \<Rightarrow> val) \<Rightarrow> edge_capability \<Rightarrow> val" where
  "serialize_capability loads c =
     VObj [(''id'', VInt (cp_id c)), (''edge_node_id'', VInt (cp_edge_node_id c)), (''name'', VStr (cp_name c)),
           (''config'', loads (cp_config_json c))]"

definition create_edge_capability ::
  "(val \<Rightarrow> string) \<Rightarrow> (string \<Rightarrow> val) \<Rightarrow> clock \<Rightarrow> user \<Rightarrow> int \<Rightarrow> edge_capability_body \<Rightarrow> db \<Rightarrow> val result" where
  "create_edge_capability dumps loads clk actor node_id body d =
     (if get_node d node_id = None then fail 404 ''Edge node not found'' d
      else if find_row (\<lambda>c. cp_edge_node_id c = node_id \<and> cp_name c = cb_name body) (capabilities d) \<noteq> None
      then fail 409 ''Capability already exists'' d
      else
        (let c = \<lparr>cp_id = next_id cp_id (capabilities d), cp_edge_node_id = node_id, cp_name = cb_name body,
                  cp_config_json = dumps (cb_config body)\<rparr>
         in (Inr (serialize_capability loads c),
             audit ''edge_capability.created'' (Some (us_id actor)) (Some ''edge_capability'')
               (Some (int_str (cp_id c))) [] (clk 0) (d\<lparr>capabilities := capabilities d @ [c]\<rparr>))))"

definition list_edge_capabilities :: "(string \<Rightarrow> val) \<Rightarrow> int \<Rightarrow> db \<Rightarrow> val list result" where
  "list_edge_capabilities loads node_id d =
     (if get_node d node_id = None then fail 404 ''Edge node not found'' d
      else (Inr (map (serialize_capability loads)
                  (sort_key cp_id (filter (\<lambda>c. cp_edge_node_id c = node_id) (capabilities d)))), d))"

definition update_edge_capability ::
  "(val \<Rightarrow> string) \<Rightarrow> (string \<Rightarrow> val) \<Rightarrow> clock \<Rightarrow> user \<Rightarrow> int \<Rightarrow> edge_capability_body \<Rightarrow> db \<Rightarrow> val result" where
  "update_edge_capability dumps loads clk actor capability_id body d =
     (case get_capability d capability_id of
        None \<Rightarrow> fail 404 ''Capability not found'' d
      | Some c \<Rightarrow>
          if find_row (\<lambda>x. cp_edge_node_id x = cp_edge_node_id c \<and> cp_name x = cb_name body \<and> cp_id x \<noteq> cp_id c)
               (capabilities d) \<noteq> None
          then fail 409 ''Capability already exists'' d
          else
            (let c' = c\<lparr>cp_name := cb_name body, cp_config_json := dumps (cb_config body)\<rparr>
             in (Inr (serialize_capability loads c'),
                 audit ''edge_capability.updated'' (Some (us_id actor)) (Some ''edge_capability'')
                   (Some (int_str (cp_id c))) [] (clk 0)
                   (d\<lparr>capabilities := update_where (\<lambda>x. cp_id x = capability_id) (\<lambda>_. c') (capabilities d)\<rparr>))))"

definition delete_edge_capability :: "clock \<Rightarrow> user \<Rightarrow> int \<Rightarrow> db \<Rightarrow> unit result" where
  "delete_edge_capability clk actor capability_id d =
     (case get_capability d capability_id of
        None \<Rightarrow> fail 404 ''Capability not found'' d
      | Some c \<Rightarrow>
          (let d1 = audit ''edge_capability.deleted'' (Some (us_id actor)) (Some ''edge_capability'')
                      (Some (int_str (cp_id c))) [] (clk 0) d
           in (Inr (), d1\<lparr>capabilities := delete_where (\<lambda>x. cp_id x = cp_id c) (capabilities d1)\<rparr>)))"

end
