(* ===== verification/Leases.thy ===== *)
theory Leases
  imports Prelude Control_Model Auth Users Tickets Targets Edge_Nodes
begin

text \<open>
  Store connections (\<open>cloudbrowser/app.py\<close>): who may use a store, the leases that say which device
  is connected, and the tickets the edge is shown. \<open>active_store_leases\<close> marks leases expired as it
  scans them; \<open>scan\<close> is the clock of that loop, one reading per active lease of the store, and \<open>clk\<close>
  the clock of the rest of the handler.
\<close>

section \<open>Access\<close>

definition granted :: "db \<Rightarrow> user \<Rightarrow> int \<Rightarrow> bool" where
  "granted d u node_id \<longleftrightarrow>
     us_role u = ''admin'' \<or> (\<exists>g \<in> set (grants d). gr_user_id g = us_id u \<and> gr_edge_node_id g = node_id)"

definition accessible_store :: "db \<Rightarrow> int \<Rightarrow> user \<Rightarrow> http_error + managed_store" where
  "accessible_store d store_id u =
     (case find_row (\<lambda>s. st_id s = store_id \<and>
               (\<exists>n \<in> set (nodes d). nd_id n = st_edge_node_id s \<and> nd_enabled n) \<and> granted d u (st_edge_node_id s))
             (stores d) of
        None \<Rightarrow> Inl (Http 404 ''Store not found'')
      | Some s \<Rightarrow> Inr s)"

definition require_online_edge :: "edge_node \<Rightarrow> http_error + unit" where
  "require_online_edge n =
     (if nd_health_status n \<noteq> ''online'' then Inl (Http 503 ''Assigned edge node is unavailable'') else Inr ())"

text \<open>The checks \<open>connect_store\<close>, \<open>native_store_preflight\<close> and the ticket route share after the store was
  found.\<close>

definition usable_node :: "db \<Rightarrow> managed_store \<Rightarrow> http_error + edge_node" where
  "usable_node d s =
     (case get_node d (st_edge_node_id s) of
        None \<Rightarrow> Inl Server_error
      | Some n \<Rightarrow>
          if \<not> st_enabled s \<or> \<not> nd_enabled n then Inl (Http 409 ''Store or edge node is disabled'')
          else (case require_online_edge n of Inl e \<Rightarrow> Inl e | Inr _ \<Rightarrow> Inr n))"

section \<open>The scan\<close>

definition lease_heartbeat :: "store_lease \<Rightarrow> instant" where
  "lease_heartbeat l = (case ls_last_heartbeat_at l of None \<Rightarrow> ls_created_at l | Some h \<Rightarrow> h)"

definition lease_stale :: "instant \<Rightarrow> store_lease \<Rightarrow> bool" where
  "lease_stale now l \<longleftrightarrow> ls_expires_at l \<le> now \<or> lease_heartbeat l < now - seconds 90"

fun scan_leases :: "clock \<Rightarrow> int \<Rightarrow> nat \<Rightarrow> store_lease list \<Rightarrow> store_lease list \<times> store_lease list" where
  "scan_leases scan store_id i [] = ([], [])"
| "scan_leases scan store_id i (l # ls) =
     (if ls_store_id l = store_id \<and> lease_active l then
        (case scan_leases scan store_id (Suc i) ls of
           (t, active) \<Rightarrow>
             if lease_stale (scan i) l then (l\<lparr>ls_status := ''expired''\<rparr> # t, active) else (l # t, l # active))
      else (case scan_leases scan store_id i ls of (t, active) \<Rightarrow> (l # t, active)))"

definition active_store_leases :: "clock \<Rightarrow> int \<Rightarrow> db \<Rightarrow> store_lease list \<times> db" where
  "active_store_leases scan store_id d =
     (case scan_leases scan store_id 0 (leases d) of (t, active) \<Rightarrow> (active, d\<lparr>leases := t\<rparr>))"

definition active_store_lease :: "clock \<Rightarrow> int \<Rightarrow> int \<Rightarrow> string \<Rightarrow> db \<Rightarrow> store_lease option \<times> db" where
  "active_store_lease scan store_id owner device d =
     (case active_store_leases scan store_id d of
        (active, d') \<Rightarrow> (find (\<lambda>l. ls_owner_user_id l = owner \<and> ls_device_id l = Some device) active, d'))"

definition requested_store_lease ::
  "clock \<Rightarrow> int \<Rightarrow> int \<Rightarrow> string option \<Rightarrow> string option \<Rightarrow> db \<Rightarrow> (http_error + store_lease option) \<times> db" where
  "requested_store_lease scan store_id owner lease_id device d =
     (if (lease_id = None) \<noteq> (device = None)
      then fail 422 ''lease_id and device_id must be provided together'' d
      else
        (case active_store_leases scan store_id d of
           (active, d') \<Rightarrow>
             (let mine = filter (\<lambda>l. ls_owner_user_id l = owner) active in
              case (lease_id, device) of
                (Some i, Some dev) \<Rightarrow> (Inr (find (\<lambda>l. ls_id l = i \<and> ls_device_id l = Some dev) mine), d')
              | _ \<Rightarrow>
                  if length mine > 1
                  then fail 409 ''Lease identity is required for multi-device connection'' d
                  else (Inr (case mine of [] \<Rightarrow> None | l # _ \<Rightarrow> Some l), d'))))"

definition update_lease :: "string \<Rightarrow> (store_lease \<Rightarrow> store_lease) \<Rightarrow> db \<Rightarrow> db" where
  "update_lease i f d = d\<lparr>leases := update_where (\<lambda>l. ls_id l = i) f (leases d)\<rparr>"

definition renew_lease :: "instant \<Rightarrow> store_lease \<Rightarrow> store_lease" where
  "renew_lease now l = l\<lparr>ls_last_heartbeat_at := Some now, ls_expires_at := now + hours 8\<rparr>"

text \<open>The insertion fails on a used primary key or on the unique index of active leases.\<close>

definition insert_lease :: "store_lease \<Rightarrow> db \<Rightarrow> db option" where
  "insert_lease l d =
     (if list_ex (\<lambda>x. ls_id x = ls_id l \<or> lease_conflict x l) (leases d) then None
      else Some (d\<lparr>leases := leases d @ [l]\<rparr>))"

definition new_lease :: "clock \<Rightarrow> string \<Rightarrow> int \<Rightarrow> int \<Rightarrow> string \<Rightarrow> store_lease" where
  "new_lease clk uuid store_id owner device =
     \<lparr>ls_id = uuid, ls_store_id = store_id, ls_owner_user_id = owner, ls_device_id = Some device,
      ls_status = ''active'', ls_created_at = clk 1, ls_expires_at = clk 0 + hours 8,
      ls_last_heartbeat_at = Some (clk 0), ls_disconnected_at = None\<rparr>"

section \<open>Handlers of the device\<close>

definition native_store_preflight ::
  "clock \<Rightarrow> clock \<Rightarrow> string \<Rightarrow> int \<Rightarrow> user \<times> device_session \<Rightarrow> db \<Rightarrow> details result" where
  "native_store_preflight scan clk uuid store_id identity d =
     (case identity of
        (u, dev) \<Rightarrow>
          (case accessible_store d store_id u of
             Inl e \<Rightarrow> (Inl e, d)
           | Inr s \<Rightarrow>
               (case usable_node d s of
                  Inl e \<Rightarrow> (Inl e, d)
                | Inr n \<Rightarrow>
                    (case active_store_lease scan (st_id s) (us_id u) (dv_device_id dev) d of
                       (found, d1) \<Rightarrow>
                         (case (case found of
                                  Some l \<Rightarrow> Some (renew_lease (clk 0) l, update_lease (ls_id l) (renew_lease (clk 0)) d1)
                                | None \<Rightarrow>
                                    (let l = new_lease clk uuid (st_id s) (us_id u) (dv_device_id dev)
                                     in map_option (\<lambda>d2. (l, d2)) (insert_lease l d1))) of
                            None \<Rightarrow> fail 409 ''Store already has an active connection'' d
                          | Some (l, d2) \<Rightarrow>
                              (Inr [(''ready'', VBool True), (''store_id'', VStr (int_str (st_id s))),
                                    (''lease_id'', VStr (ls_id l)), (''expires_at'', VTime (ls_expires_at l)),
                                    (''recovered'', VBool (found \<noteq> None))],
                               audit ''native.store_preflighted'' (Some (us_id u)) (Some ''managed_store'')
                                 (Some (int_str (st_id s)))
                                 [(''device_id'', VStr (dv_device_id dev)), (''recovered'', VBool (found \<noteq> None))]
                                 (clk 2) d2))))))"

definition connect_response :: "store_lease \<Rightarrow> edge_node \<Rightarrow> val list \<Rightarrow> bool \<Rightarrow> details" where
  "connect_response l n caps recovered =
     [(''lease_id'', VStr (ls_id l)), (''status'', VStr (ls_status l)), (''created_at'', VTime (ls_created_at l)),
      (''expires_at'', VTime (ls_expires_at l)), (''edge_endpoint'', VStr (nd_endpoint n)),
      (''expires_in'', VInt (8 * 60 * 60)), (''capabilities'', VList caps), (''recovered'', VBool recovered)]"

definition connect_store ::
  "(string \<Rightarrow> val) \<Rightarrow> clock \<Rightarrow> clock \<Rightarrow> string \<Rightarrow> int \<Rightarrow> string option \<Rightarrow> user \<Rightarrow> db \<Rightarrow> details result" where
  "connect_store loads scan clk uuid store_id body u d =
     (case accessible_store d store_id u of
        Inl e \<Rightarrow> (Inl e, d)
      | Inr s \<Rightarrow>
          (case usable_node d s of
             Inl e \<Rightarrow> (Inl e, d)
           | Inr n \<Rightarrow>
               (let device = (case body of Some dev \<Rightarrow> dev | None \<Rightarrow> ''legacy-'' @ int_str (us_id u)) in
                case active_store_lease scan (st_id s) (us_id u) device d of
                  (Some l, d1) \<Rightarrow>
                    (Inr (connect_response (renew_lease (clk 0) l) n [] True),
                     update_lease (ls_id l) (renew_lease (clk 0)) d1)
                | (None, d1) \<Rightarrow>
                    (let l = new_lease clk uuid (st_id s) (us_id u) device;
                         caps = map (serialize_capability loads)
                                  (sort_key cp_id (filter (\<lambda>c. cp_edge_node_id c = nd_id n) (capabilities d)))
                     in case insert_lease l d1 of
                          None \<Rightarrow> fail 409 ''Store already has an active connection'' d
                        | Some d2 \<Rightarrow>
                            (Inr (connect_response l n caps False),
                             audit ''managed_store.connected'' (Some (us_id u)) (Some ''managed_store'')
                               (Some (int_str (st_id s))) [] (clk 2) d2)))))"

definition heartbeat_store ::
  "clock \<Rightarrow> clock \<Rightarrow> int \<Rightarrow> string \<Rightarrow> string \<Rightarrow> user \<Rightarrow> db \<Rightarrow> details result" where
  "heartbeat_store scan clk store_id device lease_id u d =
     (case accessible_store d store_id u of
        Inl e \<Rightarrow> (Inl e, d)
      | Inr s \<Rightarrow>
          (case active_store_lease scan (st_id s) (us_id u) device d of
             (found, d1) \<Rightarrow>
               (case found of
                  None \<Rightarrow> fail 409 ''Store lease is not active'' d
                | Some l \<Rightarrow>
                    if ls_id l \<noteq> lease_id then fail 409 ''Store lease is not active'' d
                    else
                      (Inr [(''lease_id'', VStr (ls_id l)), (''status'', VStr (ls_status l)), (''expires_in'', VInt (8 * 60 * 60))],
                       update_lease (ls_id l) (renew_lease (clk 0)) d1))))"

definition disconnect_lease :: "instant \<Rightarrow> store_lease \<Rightarrow> store_lease" where
  "disconnect_lease now l = l\<lparr>ls_status := ''disconnected'', ls_disconnected_at := Some now\<rparr>"

definition disconnect_store ::
  "clock \<Rightarrow> clock \<Rightarrow> int \<Rightarrow> (string option \<times> string option) option \<Rightarrow> user \<Rightarrow> db \<Rightarrow> details result" where
  "disconnect_store scan clk store_id body u d =
     (case accessible_store d store_id u of
        Inl e \<Rightarrow> (Inl e, d)
      | Inr s \<Rightarrow>
          (case requested_store_lease scan (st_id s) (us_id u) (case body of None \<Rightarrow> None | Some b \<Rightarrow> fst b)
                  (case body of None \<Rightarrow> None | Some b \<Rightarrow> snd b) d of
             (Inl e, _) \<Rightarrow> (Inl e, d)
           | (Inr None, _) \<Rightarrow> fail 409 ''Store is not connected'' d
           | (Inr (Some l), d1) \<Rightarrow>
               (Inr [(''lease_id'', VStr (ls_id l)), (''status'', VStr ''disconnected'')],
                audit ''managed_store.disconnected'' (Some (us_id u)) (Some ''managed_store'') (Some (int_str (st_id s)))
                  [] (clk 1) (update_lease (ls_id l) (disconnect_lease (clk 0)) d1))))"

section \<open>Tickets\<close>

definition whole_seconds :: "int \<Rightarrow> int" where
  "whole_seconds us = (if us < 0 then - ((- us) div usec_per_sec) else us div usec_per_sec)"

definition recent_access :: "instant \<Rightarrow> int \<Rightarrow> int \<Rightarrow> audit_event list \<Rightarrow> audit_event list" where
  "recent_access since user_id store_id t =
     take 100 (rev (sort_key au_id (filter (\<lambda>e. au_event_type e = ''web.domain_accessed'' \<and>
        au_actor_user_id e = Some user_id \<and> au_target_type e = Some ''managed_store'' \<and>
        au_target_id e = Some (int_str store_id) \<and> au_created_at e \<ge> since) t)))"

definition same_access :: "details \<Rightarrow> audit_event \<Rightarrow> bool" where
  "same_access dts e \<longleftrightarrow>
     list_all (\<lambda>(k, v). (case map_of (au_details e) k of None \<Rightarrow> VNull | Some w \<Rightarrow> w) = v) dts"

definition issue_store_target_ticket ::
  "(string \<Rightarrow> string \<Rightarrow> string) \<Rightarrow> ((string \<times> json) list \<Rightarrow> string) \<Rightarrow> (string \<Rightarrow> string option) \<Rightarrow> int \<Rightarrow> resolver \<Rightarrow>
   rat \<Rightarrow> string \<Rightarrow> clock \<Rightarrow> clock \<Rightarrow> int \<Rightarrow> string \<Rightarrow> int \<Rightarrow> string option \<Rightarrow> string option \<Rightarrow> user \<Rightarrow> db \<Rightarrow> details result" where
  "issue_store_target_ticket hmac_sha256 dumps punycode af_inet6 resolver time jti scan clk store_id host port lease_id device u d =
     (case accessible_store d store_id u of
        Inl e \<Rightarrow> (Inl e, d)
      | Inr s \<Rightarrow>
          (case requested_store_lease scan (st_id s) (us_id u) lease_id device d of
             (Inl e, _) \<Rightarrow> (Inl e, d)
           | (Inr None, d1) \<Rightarrow> (Inl (Http 409 ''Store is not connected''), d1)
           | (Inr (Some l), d1) \<Rightarrow>
               (case usable_node d s of
                  Inl e \<Rightarrow> (Inl e, d)
                | Inr n \<Rightarrow>
                    (case control_resolve punycode af_inet6 [80, 443] resolver host port of
                       Inl Uncaught_value_error \<Rightarrow> (Inl Server_error, d)
                     | Inl _ \<Rightarrow> fail 403 ''Target is not public web traffic'' d
                     | Inr target \<Rightarrow>
                         (let remaining = whole_seconds (ls_expires_at l - clk 0) in
                          if remaining \<le> 0
                          then (Inl (Http 409 ''Store is not connected''),
                                update_lease (ls_id l) (\<lambda>x. x\<lparr>ls_status := ''expired''\<rparr>) d1)
                          else
                            (let expires_in = min 60 remaining;
                                 issuer = \<lparr>iss_secret = utf8_encode (nd_shared_secret n), iss_node_id = nd_name n,
                                           iss_max_ttl = 60\<rparr>;
                                 access = [(''domain'', VStr (rt_host target)), (''port'', VInt (rt_port target)),
                                           (''device_id'', (case ls_device_id l of None \<Rightarrow> VNull | Some x \<Rightarrow> VStr x)),
                                           (''node'', VStr (nd_name n))];
                                 duplicate = list_ex (same_access access)
                                     (recent_access (clk 1 - minutes 5) (us_id u) (st_id s) (audits d1))
                             in case issue hmac_sha256 dumps issuer time jti (int_str (st_id s)) (rt_host target)
                                       (rt_port target) (Some expires_in) of
                                  Inl _ \<Rightarrow> (Inl Server_error, d)
                                | Inr token \<Rightarrow>
                                    (Inr [(''ticket'', VStr token), (''lease_id'', VStr (ls_id l)),
                                          (''edge_endpoint'', VStr (nd_endpoint n)), (''expires_in'', VInt expires_in)],
                                     if duplicate then d1
                                     else audit ''web.domain_accessed'' (Some (us_id u)) (Some ''managed_store'')
                                            (Some (int_str (st_id s))) access (clk 2) d1)))))))"

section \<open>Handlers of the administrator\<close>

definition lease_details :: "db \<Rightarrow> store_lease \<Rightarrow> details option" where
  "lease_details d l =
     map_option (\<lambda>owner. [(''lease_id'', VStr (ls_id l)), (''username'', VStr (us_username owner)),
                           (''device_id'', (case ls_device_id l of None \<Rightarrow> VNull | Some x \<Rightarrow> VStr x))])
       (get_user d (ls_owner_user_id l))"

definition force_disconnect_managed_store :: "clock \<Rightarrow> clock \<Rightarrow> user \<Rightarrow> int \<Rightarrow> db \<Rightarrow> details result" where
  "force_disconnect_managed_store scan clk actor store_id d =
     (case get_store d store_id of
        None \<Rightarrow> fail 404 ''Store not found'' d
      | Some s \<Rightarrow>
          (case active_store_leases scan (st_id s) d of
             (active, d1) \<Rightarrow>
               if active = [] then fail 409 ''Store has no active connection'' d
               else
                 (let ids = map ls_id active;
                      d2 = d1\<lparr>leases := update_where (\<lambda>l. ls_id l \<in> set ids) (disconnect_lease (clk 0)) (leases d1)\<rparr>;
                      many = [(''disconnected_count'', VInt (int (length active))), (''lease_ids'', VList (map VStr ids))]
                  in case (if length active = 1 then lease_details d (hd active) else Some many) of
                       None \<Rightarrow> (Inl Server_error, d)
                     | Some dts \<Rightarrow>
                         (Inr (if length active = 1
                               then [(''lease_id'', VStr (ls_id (hd active))), (''status'', VStr ''disconnected'')]
                               else (''status'', VStr ''disconnected'') # many),
                          audit ''managed_store.force_disconnected'' (Some (us_id actor)) (Some ''managed_store'')
                            (Some (int_str (st_id s))) dts (clk 1) d2))))"

definition force_disconnect_store_lease :: "clock \<Rightarrow> clock \<Rightarrow> user \<Rightarrow> string \<Rightarrow> db \<Rightarrow> details result" where
  "force_disconnect_store_lease scan clk actor lease_id d =
     (case get_lease d lease_id of
        None \<Rightarrow> fail 404 ''Store lease not found'' d
      | Some l \<Rightarrow>
          (case active_store_leases scan (ls_store_id l) d of
             (active, d1) \<Rightarrow>
               if ls_id l \<notin> ls_id ` set active then fail 409 ''Store lease is not active'' d
               else
                 (case lease_details d l of
                    None \<Rightarrow> (Inl Server_error, d)
                  | Some dts \<Rightarrow>
                      (Inr [(''lease_id'', VStr (ls_id l)), (''status'', VStr ''disconnected'')],
                       audit ''managed_store.force_disconnected'' (Some (us_id actor)) (Some ''managed_store'')
                         (Some (int_str (ls_store_id l))) dts (clk 1)
                         (update_lease (ls_id l) (disconnect_lease (clk 0)) d1)))))"

definition list_store_leases :: "db \<Rightarrow> details list result" where
  "list_store_leases d =
     (Inr (map (\<lambda>l. [(''id'', VStr (ls_id l)), (''store_id'', VInt (ls_store_id l)),
                      (''owner_user_id'', VInt (ls_owner_user_id l)),
                      (''device_id'', (case ls_device_id l of None \<Rightarrow> VNull | Some x \<Rightarrow> VStr x)),
                      (''status'', VStr (ls_status l)), (''created_at'', VTime (ls_created_at l)),
                      (''expires_at'', VTime (ls_expires_at l)),
                      (''disconnected_at'', (case ls_disconnected_at l of None \<Rightarrow> VNull | Some x \<Rightarrow> VTime x))])
            (rev (sort_key ls_created_at (rev (leases d))))), d)"

section \<open>What the scan does\<close>

text \<open>A lease table refines another when each of its leases stems from one with the same identity that
  was active if it is.\<close>

definition stems_from :: "store_lease \<Rightarrow> store_lease \<Rightarrow> bool" where
  "stems_from l' l \<longleftrightarrow>
     ls_id l' = ls_id l \<and> ls_store_id l' = ls_store_id l \<and> ls_owner_user_id l' = ls_owner_user_id l \<and>
     ls_device_id l' = ls_device_id l \<and> (lease_active l' \<longrightarrow> lease_active l)"

definition leases_refine :: "store_lease list \<Rightarrow> store_lease list \<Rightarrow> bool" where
  "leases_refine t t' \<longleftrightarrow> map ls_id t' = map ls_id t \<and> (\<forall>l' \<in> set t'. \<exists>l \<in> set t. stems_from l' l)"

lemma stems_from_refl [simp]: "stems_from l l"
  by (simp add: stems_from_def)

lemma leases_refine_exclusive:
  assumes "leases_refine t t'" and "leases_exclusive t"
  shows "leases_exclusive t'"
  unfolding leases_exclusive_def
proof (intro ballI impI)
  fix a b assume ab: "a \<in> set t'" "b \<in> set t'" "lease_conflict a b"
  with assms(1) obtain a0 b0 where "a0 \<in> set t" "b0 \<in> set t" "stems_from a a0" "stems_from b b0"
    unfolding leases_refine_def by blast
  moreover from this ab(3) have "lease_conflict a0 b0" unfolding lease_conflict_def stems_from_def by metis
  ultimately show "ls_id a = ls_id b" using assms(2) by (auto simp: leases_exclusive_def stems_from_def)
qed

lemma leases_refine_trans:
  "leases_refine t t' \<Longrightarrow> leases_refine t' t'' \<Longrightarrow> leases_refine t t''"
  unfolding leases_refine_def stems_from_def by (fastforce)

lemma leases_refine_update:
  assumes "\<And>l. p l \<Longrightarrow> stems_from (f l) l"
  shows "leases_refine t (update_where p f t)"
  unfolding leases_refine_def
proof (intro conjI ballI)
  have "ls_id (if p l then f l else l) = ls_id l" for l using assms by (simp add: stems_from_def)
  then show "map ls_id (update_where p f t) = map ls_id t" by (simp add: update_where_def)
  fix l' assume "l' \<in> set (update_where p f t)"
  then show "\<exists>l \<in> set t. stems_from l' l"
    by (cases rule: update_where_cases) (use assms stems_from_refl in blast)+
qed

lemma renew_lease_stems: "stems_from (renew_lease now l) l"
  by (simp add: renew_lease_def stems_from_def lease_active_def)

lemma disconnect_lease_stems: "stems_from (disconnect_lease now l) l"
  by (simp add: disconnect_lease_def stems_from_def lease_active_def)

lemma expired_stems: "stems_from (l\<lparr>ls_status := ''expired''\<rparr>) l"
  by (simp add: stems_from_def lease_active_def)

lemma scan_leases_refine:
  "scan_leases scan store_id i t = (t', active) \<Longrightarrow> leases_refine t t'"
proof (induction scan store_id i t arbitrary: t' active rule: scan_leases.induct)
  case (1 scan store_id i)
  then show ?case by (simp add: leases_refine_def)
next
  case (2 scan store_id i l ls)
  obtain u act where IH: "leases_refine ls u"
    "t' = l # u \<or> t' = l\<lparr>ls_status := ''expired''\<rparr> # u"
    using 2 by (auto split: if_splits prod.splits)
  then show ?case using expired_stems [of l] by (auto simp: leases_refine_def)
qed

lemma scan_leases_active:
  "scan_leases scan store_id i t = (t', active) \<Longrightarrow>
   (\<forall>l \<in> set active. l \<in> set t \<and> l \<in> set t' \<and> ls_store_id l = store_id \<and> lease_active l \<and> (\<exists>k. \<not> lease_stale (scan k) l)) \<and>
   (\<forall>l \<in> set t'. ls_store_id l = store_id \<longrightarrow> lease_active l \<longrightarrow> l \<in> set active)"
proof (induction scan store_id i t arbitrary: t' active rule: scan_leases.induct)
  case (1 scan store_id i)
  then show ?case by simp
next
  case (2 scan store_id i l ls)
  show ?case
  proof (cases "ls_store_id l = store_id \<and> lease_active l")
    case True
    obtain u act where u: "scan_leases scan store_id (Suc i) ls = (u, act)"
      by (cases "scan_leases scan store_id (Suc i) ls")
    note IH = "2.IH"(1) [OF True u]
    show ?thesis
    proof (cases "lease_stale (scan i) l")
      case stale: True
      with True u "2.prems" have "t' = l\<lparr>ls_status := ''expired''\<rparr> # u" "active = act" by auto
      with IH show ?thesis by (auto simp: lease_active_def)
    next
      case False
      with True u "2.prems" have "t' = l # u" "active = l # act" by auto
      with IH True False show ?thesis by auto
    qed
  next
    case False
    obtain u act where u: "scan_leases scan store_id i ls = (u, act)"
      by (cases "scan_leases scan store_id i ls")
    with False "2.prems" have "t' = l # u" "active = act" by auto
    with "2.IH"(2) [OF False u] False show ?thesis by auto
  qed
qed

lemma active_store_leases_split:
  assumes "active_store_leases scan store_id d = (active, d')"
  obtains t where "scan_leases scan store_id 0 (leases d) = (t, active)" "d' = d\<lparr>leases := t\<rparr>"
  using assms by (auto simp: active_store_leases_def split: prod.splits)

lemma active_store_lease_found:
  assumes "active_store_lease scan store_id owner device d = (Some l, d')"
  shows "l \<in> set (leases d) \<and> l \<in> set (leases d') \<and> ls_store_id l = store_id \<and> ls_owner_user_id l = owner \<and>
    ls_device_id l = Some device \<and> lease_active l"
proof -
  obtain active where a: "active_store_leases scan store_id d = (active, d')"
    and f: "find (\<lambda>l. ls_owner_user_id l = owner \<and> ls_device_id l = Some device) active = Some l"
    using assms by (auto simp: active_store_lease_def split: prod.splits)
  from a obtain t where t: "scan_leases scan store_id 0 (leases d) = (t, active)" "d' = d\<lparr>leases := t\<rparr>"
    by (rule active_store_leases_split)
  from f have "l \<in> set active" "ls_owner_user_id l = owner" "ls_device_id l = Some device"
    by (auto simp: find_Some_iff)
  with scan_leases_active [OF t(1)] t(2) show ?thesis by auto
qed

lemma active_store_lease_none:
  assumes "active_store_lease scan store_id owner device d = (None, d')"
  shows "\<forall>l \<in> set (leases d'). ls_store_id l = store_id \<longrightarrow> ls_owner_user_id l = owner \<longrightarrow>
    ls_device_id l = Some device \<longrightarrow> \<not> lease_active l"
proof -
  obtain active where a: "active_store_leases scan store_id d = (active, d')"
    and f: "find (\<lambda>l. ls_owner_user_id l = owner \<and> ls_device_id l = Some device) active = None"
    using assms by (auto simp: active_store_lease_def split: prod.splits)
  from a obtain t where t: "scan_leases scan store_id 0 (leases d) = (t, active)" "d' = d\<lparr>leases := t\<rparr>"
    by (rule active_store_leases_split)
  with scan_leases_active [OF t(1)] f show ?thesis by (auto simp: find_None_iff)
qed

lemma active_store_lease_db:
  assumes "active_store_lease scan store_id owner device d = (found, d')"
  obtains t where "d' = d\<lparr>leases := t\<rparr>" "leases_refine (leases d) t"
proof -
  obtain active where "active_store_leases scan store_id d = (active, d')"
    using assms by (auto simp: active_store_lease_def split: prod.splits)
  then obtain t where "scan_leases scan store_id 0 (leases d) = (t, active)" "d' = d\<lparr>leases := t\<rparr>"
    by (rule active_store_leases_split)
  with scan_leases_refine that show ?thesis by blast
qed

lemma requested_store_lease_db:
  assumes "requested_store_lease scan store_id owner lease_id device d = (r, d')"
  shows "\<exists>t. d' = d\<lparr>leases := t\<rparr> \<and> leases_refine (leases d) t"
proof -
  have refl: "leases_refine (leases d) (leases d)" by (auto simp: leases_refine_def intro: stems_from_refl)
  obtain active d1 where a: "active_store_leases scan store_id d = (active, d1)"
    by (cases "active_store_leases scan store_id d")
  then obtain t where t: "scan_leases scan store_id 0 (leases d) = (t, active)" "d1 = d\<lparr>leases := t\<rparr>"
    by (rule active_store_leases_split)
  have "d' = d \<or> d' = d1"
    using assms a by (auto simp: requested_store_lease_def Let_def split: if_splits option.splits)
  then show ?thesis
  proof
    assume "d' = d"
    with refl show ?thesis by (intro exI [of _ "leases d"]) simp
  next
    assume "d' = d1"
    with t scan_leases_refine [OF t(1)] show ?thesis by blast
  qed
qed

lemma requested_store_lease_found:
  assumes "requested_store_lease scan store_id owner lease_id device d = (Inr (Some l), d')"
  shows "l \<in> set (leases d) \<and> l \<in> set (leases d') \<and> ls_store_id l = store_id \<and> ls_owner_user_id l = owner \<and>
    lease_active l \<and> (\<exists>k. \<not> lease_stale (scan k) l) \<and> (\<forall>i. lease_id = Some i \<longrightarrow> ls_id l = i) \<and>
    (\<forall>x. device = Some x \<longrightarrow> ls_device_id l = Some x)"
proof -
  obtain active d1 where a: "active_store_leases scan store_id d = (active, d1)"
    by (cases "active_store_leases scan store_id d")
  then obtain t where t: "scan_leases scan store_id 0 (leases d) = (t, active)" "d1 = d\<lparr>leases := t\<rparr>"
    by (rule active_store_leases_split)
  have "d' = d1 \<and> l \<in> set active \<and> ls_owner_user_id l = owner \<and> (\<forall>i. lease_id = Some i \<longrightarrow> ls_id l = i) \<and>
      (\<forall>x. device = Some x \<longrightarrow> ls_device_id l = Some x)"
  proof (cases lease_id)
    case None
    then have dev: "device = None" using assms by (auto simp: requested_store_lease_def split: if_splits)
    from assms None dev a have "d' = d1"
      and f: "(case filter (\<lambda>l. ls_owner_user_id l = owner) active of [] \<Rightarrow> None | l # _ \<Rightarrow> Some l) = Some l"
      by (auto simp: requested_store_lease_def Let_def split: if_splits)
    from f obtain rest where "filter (\<lambda>l. ls_owner_user_id l = owner) active = l # rest" by (auto split: list.splits)
    then have "l \<in> set (filter (\<lambda>l. ls_owner_user_id l = owner) active)" by (metis list.set_intros(1))
    with \<open>d' = d1\<close> None dev show ?thesis by auto
  next
    case (Some i)
    then obtain x where dev: "device = Some x" using assms by (auto simp: requested_store_lease_def split: if_splits)
    with assms Some a show ?thesis by (auto simp: requested_store_lease_def Let_def find_Some_iff filter_eq_Cons_iff
        dest!: arg_cong [where f = set] nth_mem)
  qed
  with scan_leases_active [OF t(1)] t(2) show ?thesis by auto
qed

section \<open>Access and consistency\<close>

lemma accessible_store_sound:
  assumes "accessible_store d store_id u = Inr s"
  shows "s \<in> set (stores d) \<and> st_id s = store_id \<and> granted d u (st_edge_node_id s) \<and>
    (\<exists>n \<in> set (nodes d). nd_id n = st_edge_node_id s \<and> nd_enabled n)"
  using assms by (auto simp: accessible_store_def split: option.splits dest!: find_row_Some)

lemma usable_node_sound:
  assumes "usable_node d s = Inr n"
  shows "get_node d (st_edge_node_id s) = Some n \<and> st_enabled s \<and> nd_enabled n \<and> nd_health_status n = ''online''"
  using assms by (auto simp: usable_node_def require_online_edge_def split: option.splits if_splits)

lemma db_ok_refine:
  assumes "db_ok d" and "leases_refine (leases d) t"
  shows "db_ok (d\<lparr>leases := t\<rparr>)"
  using assms leases_refine_exclusive [OF assms(2)]
  by (simp add: db_ok_def) (simp add: leases_refine_def unique_on_def)

lemma db_ok_scan: "active_store_lease scan store_id owner device d = (found, d') \<Longrightarrow> db_ok d \<Longrightarrow> db_ok d'"
  by (auto elim!: active_store_lease_db intro: db_ok_refine)

lemma db_ok_requested:
  "requested_store_lease scan store_id owner lease_id device d = (r, d') \<Longrightarrow> db_ok d \<Longrightarrow> db_ok d'"
  by (auto dest!: requested_store_lease_db intro: db_ok_refine)

lemma db_ok_active_leases: "active_store_leases scan store_id d = (active, d') \<Longrightarrow> db_ok d \<Longrightarrow> db_ok d'"
  by (auto elim!: active_store_leases_split intro: db_ok_refine scan_leases_refine)

lemma db_ok_update_lease:
  "db_ok d \<Longrightarrow> (\<And>l. stems_from (f l) l) \<Longrightarrow> db_ok (update_lease i f d)"
  unfolding update_lease_def by (intro db_ok_refine leases_refine_update)

lemma insert_lease_ok:
  assumes "insert_lease l d = Some d'" and "db_ok d"
  shows "db_ok d' \<and> d' = d\<lparr>leases := leases d @ [l]\<rparr>"
proof -
  from assms(1) have d': "d' = d\<lparr>leases := leases d @ [l]\<rparr>"
    and new: "\<forall>x \<in> set (leases d). ls_id x \<noteq> ls_id l \<and> \<not> lease_conflict x l"
    by (auto simp: insert_lease_def list_ex_iff split: if_splits)
  have "lease_conflict l x \<Longrightarrow> lease_conflict x l" for x unfolding lease_conflict_def by metis
  with new assms(2) have "leases_exclusive (leases d @ [l])"
    by (auto simp: db_ok_def leases_exclusive_def)
  with new assms(2) d' show ?thesis by (auto simp: db_ok_def unique_on_insert)
qed

lemma db_ok_lease_updates:
  "db_ok d \<Longrightarrow> db_ok (update_lease i (renew_lease now) d)"
  "db_ok d \<Longrightarrow> db_ok (update_lease i (disconnect_lease now) d)"
  "db_ok d \<Longrightarrow> db_ok (update_lease i (\<lambda>l. l\<lparr>ls_status := ''expired''\<rparr>) d)"
  by (simp_all add: db_ok_update_lease renew_lease_stems disconnect_lease_stems expired_stems)

lemmas lease_ok_dests = db_ok_scan db_ok_requested db_ok_active_leases

lemma connect_store_ok:
  "connect_store loads scan clk uuid store_id body u d = (r, d') \<Longrightarrow> db_ok d \<Longrightarrow> db_ok d'"
  by (auto simp: connect_store_def Let_def split: sum.splits prod.splits option.splits
      intro!: db_ok_lease_updates dest!: lease_ok_dests insert_lease_ok)

lemma native_store_preflight_ok:
  "native_store_preflight scan clk uuid store_id identity d = (r, d') \<Longrightarrow> db_ok d \<Longrightarrow> db_ok d'"
  by (auto simp: native_store_preflight_def Let_def split: sum.splits prod.splits option.splits
      intro!: db_ok_lease_updates dest!: lease_ok_dests insert_lease_ok)

lemma heartbeat_store_ok:
  "heartbeat_store scan clk store_id device lease_id u d = (r, d') \<Longrightarrow> db_ok d \<Longrightarrow> db_ok d'"
  by (auto simp: heartbeat_store_def split: sum.splits prod.splits option.splits if_splits
      intro!: db_ok_lease_updates dest!: lease_ok_dests)

lemma disconnect_store_ok:
  "disconnect_store scan clk store_id body u d = (r, d') \<Longrightarrow> db_ok d \<Longrightarrow> db_ok d'"
  by (auto simp: disconnect_store_def split: sum.splits prod.splits option.splits
      intro!: db_ok_lease_updates dest!: lease_ok_dests)

lemma issue_store_target_ticket_ok:
  "issue_store_target_ticket hmac_sha256 dumps punycode af resolver time jti scan clk store_id host port lease_id device u d = (r, d') \<Longrightarrow>
   db_ok d \<Longrightarrow> db_ok d'"
  by (auto simp: issue_store_target_ticket_def Let_def
      split: sum.splits prod.splits option.splits if_splits tunnel_denied.splits intro!: db_ok_lease_updates dest!: lease_ok_dests)

lemma force_disconnect_managed_store_ok:
  assumes "force_disconnect_managed_store scan clk actor store_id d = (r, d')" and "db_ok d"
  shows "db_ok d'"
proof -
  have upd: "db_ok (x\<lparr>leases := update_where (\<lambda>l. ls_id l \<in> ids) (disconnect_lease now) (leases x)\<rparr>)"
    if "db_ok x" for x ids now
    using that by (intro db_ok_refine leases_refine_update disconnect_lease_stems)
  show ?thesis
    using assms upd
    by (auto simp: force_disconnect_managed_store_def Let_def split: prod.splits option.splits if_splits
        dest: db_ok_active_leases)
qed

lemma force_disconnect_store_lease_ok:
  "force_disconnect_store_lease scan clk actor lease_id d = (r, d') \<Longrightarrow> db_ok d \<Longrightarrow> db_ok d'"
  by (auto simp: force_disconnect_store_lease_def split: prod.splits option.splits if_splits
      intro!: db_ok_lease_updates dest!: lease_ok_dests)

text \<open>One request of any of the lease routes.\<close>

inductive lease_step :: "db \<Rightarrow> db \<Rightarrow> bool" where
  Connect: "connect_store loads scan clk uuid store_id body u d = (r, d') \<Longrightarrow> lease_step d d'"
| Preflight: "native_store_preflight scan clk uuid store_id identity d = (r, d') \<Longrightarrow> lease_step d d'"
| Heartbeat: "heartbeat_store scan clk store_id device lease_id u d = (r, d') \<Longrightarrow> lease_step d d'"
| Disconnect: "disconnect_store scan clk store_id dbody u d = (r, d') \<Longrightarrow> lease_step d d'"
| Ticket: "issue_store_target_ticket hmac_sha256 dumps punycode af resolver time jti scan clk store_id host port lid dev u d = (r, d') \<Longrightarrow>
    lease_step d d'"
| Force_store: "force_disconnect_managed_store scan clk actor store_id d = (r, d') \<Longrightarrow> lease_step d d'"
| Force_lease: "force_disconnect_store_lease scan clk actor lease_id d = (r, d') \<Longrightarrow> lease_step d d'"

lemma lease_step_ok: "lease_step d d' \<Longrightarrow> db_ok d \<Longrightarrow> db_ok d'"
  by (induction rule: lease_step.induct)
    (blast intro: connect_store_ok native_store_preflight_ok heartbeat_store_ok disconnect_store_ok
      issue_store_target_ticket_ok force_disconnect_managed_store_ok force_disconnect_store_lease_ok)+

lemma lease_steps_ok: "lease_step\<^sup>*\<^sup>* d d' \<Longrightarrow> db_ok d \<Longrightarrow> db_ok d'"
  by (induction rule: rtranclp_induct) (auto intro: lease_step_ok)

section \<open>Properties\<close>



text \<open>C13. Only a user with access gets a connection or a ticket: whenever connecting or asking for a
  ticket succeeds, the store is enabled, its node exists, is enabled and online, and the user is an
  administrator or has been granted that node.\<close>

theorem store_access_controlled:
  assumes "connect_store loads scan clk uuid store_id body u d = (Inr resp, d') \<or>
    issue_store_target_ticket hmac_sha256 dumps punycode af resolver time jti scan clk store_id host port lid dev u d = (Inr resp, d') \<or>
    (\<exists>dvs. native_store_preflight scan clk uuid store_id (u, dvs) d = (Inr resp, d'))"
  shows "\<exists>s n. s \<in> set (stores d) \<and> st_id s = store_id \<and> st_enabled s \<and>
    get_node d (st_edge_node_id s) = Some n \<and> nd_enabled n \<and> nd_health_status n = ''online'' \<and>
    (us_role u = ''admin'' \<or> (\<exists>g \<in> set (grants d). gr_user_id g = us_id u \<and> gr_edge_node_id g = nd_id n))"
proof -
  from assms obtain s n where a: "accessible_store d store_id u = Inr s" and n: "usable_node d s = Inr n"
    by (auto simp: connect_store_def issue_store_target_ticket_def native_store_preflight_def Let_def
        split: sum.splits prod.splits option.splits)
  note n' = usable_node_sound [OF n]
  from n' have "nd_id n = st_edge_node_id s" using get_node_Some by blast
  with accessible_store_sound [OF a] n' show ?thesis unfolding granted_def by metis
qed

lemma demo_access:
  "accessible_store demo_db 7 (demo_user 2 ''ann'' ''member'') = Inr (demo_store 7 5)"
  "usable_node demo_db (demo_store 7 5) = Inr (demo_node 5 ''n5'')"
proof -
  show "accessible_store demo_db 7 (demo_user 2 ''ann'' ''member'') = Inr (demo_store 7 5)"
    by (simp add: accessible_store_def granted_def demo_db_def demo_store_def demo_node_def demo_grant_def demo_user_def)
  show "usable_node demo_db (demo_store 7 5) = Inr (demo_node 5 ''n5'')"
    using demo_gets(4) by (simp add: usable_node_def require_online_edge_def demo_store_def) (simp add: demo_node_def)
qed

lemma demo_scan:
  "active_store_leases (\<lambda>_. 1) 7 demo_db = ([demo_lease ''l1'' 7 2 ''dev'' (hours 1)], demo_db)"
  by (simp add: active_store_leases_def demo_defs lease_active_def lease_stale_def lease_heartbeat_def duration_defs)

lemma demo_connect:
  "\<exists>resp d'. connect_store (\<lambda>_. VNull) (\<lambda>_. 1) (\<lambda>_. 1) ''new'' 7 (Some ''dev'') (demo_user 2 ''ann'' ''member'') demo_db =
     (Inr resp, d')"
proof -
  have "st_id (demo_store 7 5) = 7" "us_id (demo_user 2 ''ann'' ''member'') = 2"
    by (simp_all add: demo_store_def demo_user_def)
  then show ?thesis
    by (simp add: connect_store_def demo_access active_store_lease_def demo_scan Let_def)
      (simp add: demo_lease_def)
qed

theorem store_access_controlled_witness:
  "\<exists>s n. s \<in> set (stores demo_db) \<and> st_enabled s \<and> get_node demo_db (st_edge_node_id s) = Some n \<and> nd_enabled n"
proof -
  obtain resp d' where "connect_store (\<lambda>_. VNull) (\<lambda>_. 1) (\<lambda>_. 1) ''new'' 7 (Some ''dev'') (demo_user 2 ''ann'' ''member'') demo_db =
     (Inr resp, d')"
    using demo_connect by blast
  then have "connect_store (\<lambda>_. VNull) (\<lambda>_. 1) (\<lambda>_. 1) ''new'' 7 (Some ''dev'') (demo_user 2 ''ann'' ''member'') demo_db =
      (Inr resp, d') \<or>
    issue_store_target_ticket (\<lambda>k m. m) (\<lambda>_. []) (\<lambda>_. None) 10 (\<lambda>_ _. None) 0 [] (\<lambda>_. 1) (\<lambda>_. 1) 7 [] 80 None None
      (demo_user 2 ''ann'' ''member'') demo_db = (Inr resp, d') \<or>
    (\<exists>dvs. native_store_preflight (\<lambda>_. 1) (\<lambda>_. 1) ''new'' 7 (demo_user 2 ''ann'' ''member'', dvs) demo_db = (Inr resp, d'))"
    by blast
  from store_access_controlled [OF this] show ?thesis by blast
qed

text \<open>What a successful ticket request went through.\<close>

lemma issue_ticket_success:
  assumes "issue_store_target_ticket hmac_sha256 dumps punycode af resolver time jti scan clk store_id host port lid dev u d = (Inr resp, d')"
  obtains s l d1 n target token where
    "accessible_store d store_id u = Inr s"
    "requested_store_lease scan (st_id s) (us_id u) lid dev d = (Inr (Some l), d1)"
    "usable_node d s = Inr n" "control_resolve punycode af [80, 443] resolver host port = Inr target"
    "0 < whole_seconds (ls_expires_at l - clk 0)"
    "issue hmac_sha256 dumps \<lparr>iss_secret = utf8_encode (nd_shared_secret n), iss_node_id = nd_name n, iss_max_ttl = 60\<rparr>
       time jti (int_str (st_id s)) (rt_host target) (rt_port target)
       (Some (min 60 (whole_seconds (ls_expires_at l - clk 0)))) = Inr token"
    "resp = [(''ticket'', VStr token), (''lease_id'', VStr (ls_id l)), (''edge_endpoint'', VStr (nd_endpoint n)),
       (''expires_in'', VInt (min 60 (whole_seconds (ls_expires_at l - clk 0))))]"
proof -
  from assms obtain s where s: "accessible_store d store_id u = Inr s"
    by (auto simp: issue_store_target_ticket_def split: sum.splits)
  with assms obtain l d1 where l: "requested_store_lease scan (st_id s) (us_id u) lid dev d = (Inr (Some l), d1)"
    by (auto simp: issue_store_target_ticket_def split: sum.splits option.splits prod.splits)
  with assms s obtain n where n: "usable_node d s = Inr n"
    by (auto simp: issue_store_target_ticket_def split: sum.splits)
  with assms s l obtain target where t: "control_resolve punycode af [80, 443] resolver host port = Inr target"
    by (auto simp: issue_store_target_ticket_def split: sum.splits tunnel_denied.splits)
  have pos: "0 < whole_seconds (ls_expires_at l - clk 0)"
    using assms s l n t by (simp add: issue_store_target_ticket_def Let_def split: if_splits)
  with assms s l n t obtain token where tok:
    "issue hmac_sha256 dumps \<lparr>iss_secret = utf8_encode (nd_shared_secret n), iss_node_id = nd_name n, iss_max_ttl = 60\<rparr>
       time jti (int_str (st_id s)) (rt_host target) (rt_port target)
       (Some (min 60 (whole_seconds (ls_expires_at l - clk 0)))) = Inr token"
    by (auto simp: issue_store_target_ticket_def Let_def split: sum.splits)
  with assms s l n t pos have "resp = [(''ticket'', VStr token), (''lease_id'', VStr (ls_id l)), (''edge_endpoint'', VStr (nd_endpoint n)),
       (''expires_in'', VInt (min 60 (whole_seconds (ls_expires_at l - clk 0))))]"
    by (simp add: issue_store_target_ticket_def Let_def)
  with s l n t pos tok that show ?thesis by blast
qed

lemma whole_seconds_le: "0 < whole_seconds us \<Longrightarrow> seconds (whole_seconds us) \<le> us"
proof -
  assume *: "0 < whole_seconds us"
  have "\<not> us < 0"
  proof
    assume "us < 0"
    then have "0 \<le> (- us) div usec_per_sec" by (simp add: pos_imp_zdiv_nonneg_iff)
    with * \<open>us < 0\<close> show False by (simp add: whole_seconds_def)
  qed
  then show ?thesis by (simp add: whole_seconds_def seconds_def minus_mod_eq_div_mult [symmetric])
qed


lemma demo_requested:
  "requested_store_lease (\<lambda>_. 1) 7 2 None None demo_db = (Inr (Some (demo_lease ''l1'' 7 2 ''dev'' (hours 1))), demo_db)"
  by (simp add: requested_store_lease_def demo_scan) (simp add: demo_lease_def)

lemma demo_target:
  "control_resolve (\<lambda>_. None) 10 [80, 443] (\<lambda>_ _. Some [Some (2, ''8.8.8.8'')]) ''Example.COM.'' 443 =
     Inr \<lparr>rt_host = ''example.com'', rt_port = 443, rt_address = ''8.8.8.8'', rt_family = 2\<rparr>"
  by (simp add: control_resolve_def example_host control_check_answer_def parse_8888 public_8888)

lemma demo_ticket_request:
  "\<exists>resp d'. issue_store_target_ticket (\<lambda>k m. k @ m) json_dumps (\<lambda>_. None) 10 (\<lambda>_ _. Some [Some (2, ''8.8.8.8'')]) 100 ''j''
     (\<lambda>_. 1) (\<lambda>_. 1) 7 ''Example.COM.'' 443 None None (demo_user 2 ''ann'' ''member'') demo_db = (Inr resp, d')"
proof -
  have ids: "st_id (demo_store 7 5) = 7" "us_id (demo_user 2 ''ann'' ''member'') = 2"
    by (simp_all add: demo_store_def demo_user_def)
  have left: "whole_seconds (ls_expires_at (demo_lease ''l1'' 7 2 ''dev'' (hours 1)) - 1) = 3599"
    by (simp add: whole_seconds_def demo_lease_def duration_defs)
  show ?thesis
    by (simp add: issue_store_target_ticket_def demo_access ids demo_requested demo_target left issue_def ticket_lifetime_def Let_def)
qed


end
