(* ===== verification/Stores.thy ===== *)
theory Stores
  imports Leases
begin

text \<open>
  Administration of stores (\<open>cloudbrowser/app.py\<close>) and the two lists of stores a member sees.

  As for nodes, a field of the update body is \<open>None\<close> when it was not sent and \<open>Some None\<close> when it was sent
  as null. Every response lists the active leases of its stores, so it scans the leases, each store at
  its own clock. A list for the administrator and the response after a commit do not commit what that
  scan expires; the list of a member does. The deletion of a store reads its leases, deletes what it
  read and commits: \<open>other\<close> is what other transactions commit in between and \<open>fk\<close> says whether the
  database enforces foreign keys. Error texts the source has in Chinese are given in English.
\<close>

section \<open>Responses\<close>

text \<open>A missing owner or node raises on the attribute that is read.\<close>

fun lease_rows :: "db \<Rightarrow> store_lease list \<Rightarrow> val list option" where
  "lease_rows d [] = Some []"
| "lease_rows d (l # ls) =
     (case get_user d (ls_owner_user_id l) of
        None \<Rightarrow> None
      | Some u \<Rightarrow>
          map_option (Cons (VObj [(''id'', VStr (ls_id l)), (''username'', VStr (us_username u)),
              (''device_id'', opt_val VStr (ls_device_id l)), (''last_heartbeat_at'', opt_val VTime (ls_last_heartbeat_at l)),
              (''expires_at'', VTime (ls_expires_at l))]))
            (lease_rows d ls))"

definition egress_ips :: "edge_node \<Rightarrow> val" where
  "egress_ips n =
     VList (case nd_expected_public_ipv4 n of None \<Rightarrow> [] | Some a \<Rightarrow> if a = [] then [] else [VStr a])"

definition serialize_store :: "clock \<Rightarrow> managed_store \<Rightarrow> db \<Rightarrow> details option \<times> db" where
  "serialize_store scan s d =
     (case active_store_leases scan (st_id s) d of
        (active, d') \<Rightarrow>
          (case (lease_rows d active, get_node d (st_edge_node_id s)) of
             (Some rows, Some n) \<Rightarrow>
               (Some ([(''id'', VInt (st_id s)), (''label'', VStr (st_label s)),
                       (''owner_user_id'', opt_val VInt (st_owner_user_id s)), (''edge_node_id'', VInt (st_edge_node_id s)),
                       (''edge_node_name'', VStr (nd_name n)), (''enabled'', VBool (st_enabled s)),
                       (''active_lease'', case rows of [] \<Rightarrow> VNull | r # _ \<Rightarrow> r), (''active_leases'', VList rows),
                       (''active_connection_count'', VInt (int (length rows))), (''expected_egress_ips'', egress_ips n)] @
                      serialize_edge_health n), d')
           | _ \<Rightarrow> (None, d')))"

definition answer_store :: "clock \<Rightarrow> managed_store \<Rightarrow> db \<Rightarrow> details result" where
  "answer_store scan s d = (case fst (serialize_store scan s d) of None \<Rightarrow> (Inl Server_error, d) | Some r \<Rightarrow> (Inr r, d))"

section \<open>Administration\<close>

definition validate_store_links :: "db \<Rightarrow> int option \<Rightarrow> int option \<Rightarrow> http_error option" where
  "validate_store_links d owner node_id =
     (if (case owner of None \<Rightarrow> False
          | Some i \<Rightarrow> (case get_user d i of None \<Rightarrow> True | Some u \<Rightarrow> \<not> us_enabled u))
      then Some (Http 422 ''Valid owner required'')
      else if (case node_id of None \<Rightarrow> True | Some i \<Rightarrow> get_node d i = None)
      then Some (Http 422 ''Valid edge node required'')
      else None)"

record managed_store_create_body =
  mc_label :: string
  mc_owner_user_id :: "int option"
  mc_edge_node_id :: int
  mc_enabled :: bool

definition create_managed_store :: "clock \<Rightarrow> clock \<Rightarrow> user \<Rightarrow> managed_store_create_body \<Rightarrow> db \<Rightarrow> details result" where
  "create_managed_store scan clk actor body d =
     (if find_row (\<lambda>s. st_label s = mc_label body) (stores d) \<noteq> None then fail 409 ''Store already exists'' d
      else
        (case validate_store_links d (mc_owner_user_id body) (Some (mc_edge_node_id body)) of
           Some e \<Rightarrow> (Inl e, d)
         | None \<Rightarrow>
             (let s = \<lparr>st_id = next_id st_id (stores d), st_label = mc_label body,
                       st_owner_user_id = mc_owner_user_id body, st_edge_node_id = mc_edge_node_id body,
                       st_enabled = mc_enabled body, st_created_at = clk 0\<rparr>
              in answer_store scan s
                   (audit ''managed_store.created'' (Some (us_id actor)) (Some ''managed_store'') (Some (int_str (st_id s))) []
                      (clk 1) (d\<lparr>stores := stores d @ [s]\<rparr>)))))"

fun serialize_stores :: "(int \<Rightarrow> clock) \<Rightarrow> managed_store list \<Rightarrow> db \<Rightarrow> details list option" where
  "serialize_stores scan [] d = Some []"
| "serialize_stores scan (s # ss) d =
     (case serialize_store (scan (st_id s)) s d of
        (None, _) \<Rightarrow> None
      | (Some r, d') \<Rightarrow> map_option (Cons r) (serialize_stores scan ss d'))"

definition admin_stores :: "(int \<Rightarrow> clock) \<Rightarrow> db \<Rightarrow> details list result" where
  "admin_stores scan d =
     (case serialize_stores scan (sort_key st_id (stores d)) d of
        None \<Rightarrow> (Inl Server_error, d)
      | Some rows \<Rightarrow> (Inr rows, d))"

record managed_store_update_body =
  mu_label :: "string option option"
  mu_owner_user_id :: "int option option"
  mu_edge_node_id :: "int option option"
  mu_enabled :: "bool option option"

definition apply_store_update :: "managed_store_update_body \<Rightarrow> managed_store \<Rightarrow> managed_store" where
  "apply_store_update b s =
     s\<lparr>st_label := the (changed_to (mu_label b) (st_label s)),
       st_owner_user_id := (case mu_owner_user_id b of None \<Rightarrow> st_owner_user_id s | Some v \<Rightarrow> v),
       st_edge_node_id := the (changed_to (mu_edge_node_id b) (st_edge_node_id s)),
       st_enabled := the (changed_to (mu_enabled b) (st_enabled s))\<rparr>"

definition update_managed_store ::
  "clock \<Rightarrow> clock \<Rightarrow> clock \<Rightarrow> user \<Rightarrow> int \<Rightarrow> managed_store_update_body \<Rightarrow> db \<Rightarrow> details result" where
  "update_managed_store scan scan2 clk actor store_id body d =
     (case get_store d store_id of
        None \<Rightarrow> fail 404 ''Store not found'' d
      | Some s \<Rightarrow>
          if (case mu_label body of
                Some (Some l) \<Rightarrow> find_row (\<lambda>x. st_label x = l \<and> st_id x \<noteq> st_id s) (stores d) \<noteq> None
              | _ \<Rightarrow> False)
          then fail 409 ''Store already exists'' d
          else
            (let node = changed_to (mu_edge_node_id body) (st_edge_node_id s);
                 (active, d1) = (if mu_edge_node_id body \<noteq> None \<and> node \<noteq> Some (st_edge_node_id s)
                                 then active_store_leases scan (st_id s) d else ([], d))
             in if active \<noteq> [] then fail 409 ''Cannot rebind a store with an active connection'' d
                else
                  (case validate_store_links d
                          (case mu_owner_user_id body of None \<Rightarrow> st_owner_user_id s | Some v \<Rightarrow> v) node of
                     Some e \<Rightarrow> (Inl e, d)
                   | None \<Rightarrow>
                       if nulled (mu_label body) \<or> nulled (mu_enabled body) then (Inl Server_error, d)
                       else
                         (let s' = apply_store_update body s;
                              changed = sort (sent ''label'' (mu_label body) @ sent ''owner_user_id'' (mu_owner_user_id body) @
                                sent ''edge_node_id'' (mu_edge_node_id body) @ sent ''enabled'' (mu_enabled body))
                          in answer_store scan2 s'
                               (audit ''managed_store.updated'' (Some (us_id actor)) (Some ''managed_store'')
                                  (Some (int_str (st_id s))) [(''changed_fields'', VList (map VStr changed))] (clk 0)
                                  (d1\<lparr>stores := update_where (\<lambda>x. st_id x = store_id) (\<lambda>_. s') (stores d1)\<rparr>))))))"

definition store_referenced :: "int \<Rightarrow> db \<Rightarrow> bool" where
  "store_referenced i d \<longleftrightarrow> list_ex (\<lambda>l. ls_store_id l = i) (leases d)"

definition delete_managed_store :: "bool \<Rightarrow> (db \<Rightarrow> db) \<Rightarrow> clock \<Rightarrow> clock \<Rightarrow> user \<Rightarrow> int \<Rightarrow> db \<Rightarrow> unit result" where
  "delete_managed_store fk other scan clk actor store_id d =
     (case get_store d store_id of
        None \<Rightarrow> fail 404 ''Store not found'' d
      | Some s \<Rightarrow>
          if fst (active_store_leases scan (st_id s) d) \<noteq> [] then fail 409 ''The store still has active connections'' d
          else
            (let connection_history = filter (\<lambda>l. ls_store_id l = st_id s) (leases d);
                 w = other d;
                 d1 = w\<lparr>leases := delete_where (\<lambda>l. ls_id l \<in> ls_id ` set connection_history) (leases w)\<rparr>
             in if fk \<and> store_referenced (st_id s) d1 then fail 409 ''The connections changed meanwhile, reload and retry'' w
                else
                  (let d2 = audit ''managed_store.deleted'' (Some (us_id actor)) (Some ''managed_store'')
                              (Some (int_str (st_id s)))
                              [(''deleted_connection_history'', VInt (int (length connection_history)))] (clk 0) d1
                   in (Inr (), d2\<lparr>stores := delete_where (\<lambda>x. st_id x = st_id s) (stores d2)\<rparr>))))"

section \<open>The lists of a member\<close>

text \<open>The join with the nodes, and for a member with the grants, has a row for every match.\<close>

definition joined_stores :: "(edge_node \<Rightarrow> bool) \<Rightarrow> user \<Rightarrow> db \<Rightarrow> managed_store list" where
  "joined_stores cond u d =
     concat (map (\<lambda>s. replicate
         (count_where (\<lambda>n. nd_id n = st_edge_node_id s \<and> cond n) (nodes d) *
          (if us_role u = ''admin'' then 1
           else count_where (\<lambda>g. gr_user_id g = us_id u \<and> gr_edge_node_id g = st_edge_node_id s) (grants d))) s)
       (sort_key st_id (stores d)))"

definition serialize_owner_store :: "clock \<Rightarrow> managed_store \<Rightarrow> user \<Rightarrow> db \<Rightarrow> details option \<times> db" where
  "serialize_owner_store scan s u d =
     (case active_store_leases scan (st_id s) d of
        (active, d') \<Rightarrow>
          (let mine = filter (\<lambda>l. ls_owner_user_id l = us_id u) active in
           (map_option (\<lambda>n.
              [(''id'', VInt (st_id s)), (''label'', VStr (st_label s)), (''enabled'', VBool (st_enabled s)),
               (''edge_node_name'', VStr (nd_name n)), (''edge_endpoint'', VStr (nd_endpoint n)),
               (''expected_egress_ips'', egress_ips n),
               (''connection_status'', VStr (if mine \<noteq> [] then ''active'' else ''disconnected'')),
               (''active_device_count'', VInt (int (length mine)))] @ serialize_edge_health n)
              (get_node d (st_edge_node_id s)), d')))"

fun serialize_owner_stores :: "(int \<Rightarrow> clock) \<Rightarrow> managed_store list \<Rightarrow> user \<Rightarrow> db \<Rightarrow> details list option \<times> db" where
  "serialize_owner_stores scan [] u d = (Some [], d)"
| "serialize_owner_stores scan (s # ss) u d =
     (case serialize_owner_store (scan (st_id s)) s u d of
        (None, d') \<Rightarrow> (None, d')
      | (Some r, d') \<Rightarrow> (case serialize_owner_stores scan ss u d' of (rows, d2) \<Rightarrow> (map_option (Cons r) rows, d2)))"

definition list_owned_stores :: "(int \<Rightarrow> clock) \<Rightarrow> user \<Rightarrow> db \<Rightarrow> details list result" where
  "list_owned_stores scan u d =
     (case serialize_owner_stores scan (joined_stores nd_enabled u d) u d of
        (None, _) \<Rightarrow> (Inl Server_error, d)
      | (Some rows, d') \<Rightarrow> (Inr rows, d'))"

definition native_store_row :: "managed_store \<Rightarrow> edge_node \<Rightarrow> details" where
  "native_store_row s n =
     [(''id'', VStr (int_str (st_id s))), (''name'', VStr (st_label s)), (''node_name'', VStr (nd_name n)),
      (''status'', VStr (if st_enabled s then ''available'' else ''disabled'')), (''health_status'', VStr (nd_health_status n)),
      (''maintenance_mode'', VBool (nd_maintenance_mode n)), (''enabled'', VBool (st_enabled s)),
      (''expected_public_ipv4'', opt_val VStr (nd_expected_public_ipv4 n)),
      (''actual_public_ipv4'', opt_val VStr (nd_actual_public_ipv4 n)), (''latency_ms'', opt_val VInt (nd_latency_ms n)),
      (''active_connections'', VInt (nd_active_connections n)), (''max_connections'', VInt (nd_max_connections n)),
      (''legacy_profile_path'', VNull)]"

definition native_stores :: "user \<Rightarrow> db \<Rightarrow> details list result" where
  "native_stores u d =
     (case those (map (\<lambda>s. map_option (native_store_row s) (get_node d (st_edge_node_id s))) (joined_stores (\<lambda>_. True) u d)) of
        None \<Rightarrow> (Inl Server_error, d)
      | Some rows \<Rightarrow> (Inr rows, d))"

section \<open>References\<close>

text \<open>Every reference to a node or a store has its target.\<close>

definition refs_ok :: "db \<Rightarrow> bool" where
  "refs_ok d \<longleftrightarrow>
     (\<forall>s \<in> set (stores d). st_edge_node_id s \<in> nd_id ` set (nodes d)) \<and>
     (\<forall>g \<in> set (grants d). gr_edge_node_id g \<in> nd_id ` set (nodes d)) \<and>
     (\<forall>c \<in> set (capabilities d). cp_edge_node_id c \<in> nd_id ` set (nodes d)) \<and>
     (\<forall>e \<in> set (enrollments d). en_edge_node_id e \<in> nd_id ` set (nodes d)) \<and>
     (\<forall>r \<in> set (registrations d). \<forall>n. rg_edge_node_id r = Some n \<longrightarrow> n \<in> nd_id ` set (nodes d)) \<and>
     (\<forall>l \<in> set (leases d). ls_store_id l \<in> st_id ` set (stores d))"

lemma keys_update_where:
  assumes "\<And>x. x \<in> set t \<Longrightarrow> p x \<Longrightarrow> k (f x) = k x"
  shows "k ` set (update_where p f t) = k ` set t"
  unfolding update_where_def set_map image_image by (rule image_cong) (use assms in auto)

lemma keys_delete_where: "k ` set (delete_where (\<lambda>x. k x = i) t) = k ` set t - {i}"
  by (auto simp: set_delete_where)

lemma refs_ok_audit [simp]: "refs_ok (audit e a tt ti dt tm d) = refs_ok d"
  by (simp add: refs_ok_def)

lemma refs_ok_refine: "refs_ok d \<Longrightarrow> leases_refine (leases d) t \<Longrightarrow> refs_ok (d\<lparr>leases := t\<rparr>)"
  by (fastforce simp: refs_ok_def leases_refine_def stems_from_def)

lemma refs_ok_update_lease: "refs_ok d \<Longrightarrow> (\<And>l. stems_from (f l) l) \<Longrightarrow> refs_ok (update_lease i f d)"
  unfolding update_lease_def by (intro refs_ok_refine leases_refine_update)

lemma refs_ok_active: "active_store_leases scan i d = (active, d') \<Longrightarrow> refs_ok d \<Longrightarrow> refs_ok d'"
  by (auto elim!: active_store_leases_split intro: refs_ok_refine scan_leases_refine)

lemma refs_ok_scan: "active_store_lease scan i owner device d = (found, d') \<Longrightarrow> refs_ok d \<Longrightarrow> refs_ok d'"
  by (auto elim!: active_store_lease_db intro: refs_ok_refine)

lemma refs_ok_requested: "requested_store_lease scan i owner lease_id device d = (r, d') \<Longrightarrow> refs_ok d \<Longrightarrow> refs_ok d'"
  by (auto dest!: requested_store_lease_db intro: refs_ok_refine)

lemma refs_ok_insert_lease:
  "insert_lease l d = Some d' \<Longrightarrow> refs_ok d \<Longrightarrow> ls_store_id l \<in> st_id ` set (stores d) \<Longrightarrow> refs_ok d'"
  by (auto simp: insert_lease_def refs_ok_def split: if_splits)

lemma answer_store_db: "answer_store scan s d = (r, d') \<Longrightarrow> d' = d"
  by (simp add: answer_store_def split: option.split_asm)

lemma answer_store_snd [simp]: "snd (answer_store scan s d) = d"
  by (simp add: answer_store_def split: option.split)

lemma links_valid:
  assumes "validate_store_links d owner node = None"
  obtains n where "node = Some n" "n \<in> nd_id ` set (nodes d)"
    "\<forall>i. owner = Some i \<longrightarrow> (\<exists>u. get_user d i = Some u \<and> us_enabled u)"
proof -
  from assms obtain n x where "node = Some n" "get_node d n = Some x"
    by (auto simp: validate_store_links_def split: if_split_asm option.split_asm)
  moreover from this have "n \<in> nd_id ` set (nodes d)" using get_node_Some by blast
  moreover from assms have "\<forall>i. owner = Some i \<longrightarrow> (\<exists>u. get_user d i = Some u \<and> us_enabled u)"
    by (auto simp: validate_store_links_def split: if_split_asm option.split_asm)
  ultimately show ?thesis using that by blast
qed

lemma create_store_refs:
  assumes "refs_ok d"
  shows "refs_ok (snd (create_managed_store scan clk actor body d))"
proof (cases "validate_store_links d (mc_owner_user_id body) (Some (mc_edge_node_id body))")
  case None
  then have "mc_edge_node_id body \<in> nd_id ` set (nodes d)" by (elim links_valid) simp
  with assms None show ?thesis by (auto simp: create_managed_store_def Let_def refs_ok_def)
next
  case (Some e)
  with assms show ?thesis by (simp add: create_managed_store_def)
qed

text \<open>What an update that goes through has done.\<close>

lemma update_store_cases:
  assumes "update_managed_store scan scan2 clk actor i body d = (res, d')"
  obtains "d' = d"
  | s d1 where "get_store d i = Some s" "st_id s = i"
      "\<exists>e a tt ti dt tm. d' = audit e a tt ti dt tm
         (d1\<lparr>stores := update_where (\<lambda>x. st_id x = i) (\<lambda>_. apply_store_update body s) (stores d)\<rparr>)"
      "st_edge_node_id (apply_store_update body s) \<in> nd_id ` set (nodes d)"
      "d1 = d \<and> st_edge_node_id (apply_store_update body s) = st_edge_node_id s \<or> active_store_leases scan i d = ([], d1)"
      "\<And>j. st_owner_user_id (apply_store_update body s) = Some j \<Longrightarrow> \<exists>u. get_user d j = Some u \<and> us_enabled u"
proof (cases "d' = d")
  case False
  then obtain s where s: "get_store d i = Some s"
    using assms by (auto simp: update_managed_store_def split: option.split_asm)
  then have i: "st_id s = i" using get_store_Some by blast
  define node where "node = changed_to (mu_edge_node_id body) (st_edge_node_id s)"
  obtain active d1 where scan: "(if mu_edge_node_id body \<noteq> None \<and> node \<noteq> Some (st_edge_node_id s)
      then active_store_leases scan (st_id s) d else ([], d)) = (active, d1)" by fastforce
  let ?owner = "case mu_owner_user_id body of None \<Rightarrow> st_owner_user_id s | Some v \<Rightarrow> v"
  from assms False have a: "active = []" and links: "validate_store_links d ?owner node = None"
    and d': "\<exists>e a tt ti dt tm. d' = audit e a tt ti dt tm
         (d1\<lparr>stores := update_where (\<lambda>x. st_id x = i) (\<lambda>_. apply_store_update body s) (stores d1)\<rparr>)"
    unfolding update_managed_store_def s option.case Let_def node_def [symmetric] scan prod.case
    by (simp_all split: if_split_asm option.split_asm) (blast dest: answer_store_db)+
  from scan a have d1: "d1 = d \<and> (mu_edge_node_id body = None \<or> node = Some (st_edge_node_id s)) \<or> active_store_leases scan i d = ([], d1)"
    using i by (auto split: if_split_asm)
  then have "stores d1 = stores d" by (auto elim!: active_store_leases_split)
  from links obtain n where n: "node = Some n" "n \<in> nd_id ` set (nodes d)"
    "\<forall>j. ?owner = Some j \<longrightarrow> (\<exists>u. get_user d j = Some u \<and> us_enabled u)" by (rule links_valid)
  then have e: "st_edge_node_id (apply_store_update body s) = n" by (simp add: apply_store_update_def node_def)
  from d1 n e have "d1 = d \<and> st_edge_node_id (apply_store_update body s) = st_edge_node_id s \<or> active_store_leases scan i d = ([], d1)"
    by (auto simp: node_def changed_to_def)
  with that(2) [OF s i] d' \<open>stores d1 = stores d\<close> n e show ?thesis
    by (auto simp: apply_store_update_def)
qed (rule that)

lemma update_store_refs:
  assumes "update_managed_store scan scan2 clk actor i body d = (res, d')" and "refs_ok d"
  shows "refs_ok d'"
  using assms(1)
proof (cases rule: update_store_cases)
  case 1
  with assms(2) show ?thesis by simp
next
  case (2 s d1)
  then have "refs_ok d1" using assms(2) refs_ok_active by blast
  moreover have "nodes d1 = nodes d" "stores d1 = stores d"
    using 2(5) by (auto elim!: active_store_leases_split)
  moreover have "st_id (apply_store_update body s) = i" using 2(2) by (simp add: apply_store_update_def)
  then have "st_id ` set (update_where (\<lambda>x. st_id x = i) (\<lambda>_. apply_store_update body s) (stores d)) = st_id ` set (stores d)"
    using 2(2) by (intro keys_update_where) simp
  ultimately show ?thesis
    using 2(3,4) by (auto simp: refs_ok_def set_update_where)
qed

lemma delete_store_cases:
  assumes "delete_managed_store fk (\<lambda>_. w) scan clk actor i d = (res, d')"
  obtains "d' = d" | "d' = w" | s where "get_store d i = Some s" "fk \<Longrightarrow> \<forall>l \<in> set (leases d'). ls_store_id l \<noteq> st_id s"
    "\<exists>e a tt ti dt tm. d' = (audit e a tt ti dt tm
       (w\<lparr>leases := delete_where (\<lambda>l. ls_id l \<in> ls_id ` set (filter (\<lambda>l. ls_store_id l = st_id s) (leases d))) (leases w)\<rparr>))
       \<lparr>stores := delete_where (\<lambda>x. st_id x = st_id s) (stores w)\<rparr>"
proof (cases "get_store d i")
  case None
  with assms that(1) show ?thesis by (simp add: delete_managed_store_def)
next
  case (Some s)
  let ?d1 = "w\<lparr>leases := delete_where (\<lambda>l. ls_id l \<in> ls_id ` set (filter (\<lambda>l. ls_store_id l = st_id s) (leases d))) (leases w)\<rparr>"
  consider "d' = d" | "d' = w" | "\<not> (fk \<and> store_referenced (st_id s) ?d1)"
      "\<exists>e a tt ti dt tm. d' = (audit e a tt ti dt tm ?d1)\<lparr>stores := delete_where (\<lambda>x. st_id x = st_id s) (stores w)\<rparr>"
    using assms unfolding delete_managed_store_def Some option.case Let_def by (simp split: if_split_asm) blast+
  then show ?thesis
  proof cases
    case 3
    then have "leases d' = leases ?d1" by auto
    with 3(1) have "\<forall>l \<in> set (leases d'). ls_store_id l \<noteq> st_id s" if fk
      unfolding store_referenced_def list_ex_iff using that by metis
    then show ?thesis by (rule that(3) [OF Some _ 3(2)])
  qed (use that in auto)
qed

lemma delete_store_refs:
  assumes "delete_managed_store fk (\<lambda>_. w) scan clk actor i d = (res, d')"
    and "refs_ok d" and "refs_ok w" and "fk \<or> w = d"
  shows "refs_ok d'"
  using assms(1)
proof (cases rule: delete_store_cases)
  case (3 s)
  then obtain e a tt ti dt tm where d': "d' = (audit e a tt ti dt tm
       (w\<lparr>leases := delete_where (\<lambda>l. ls_id l \<in> ls_id ` set (filter (\<lambda>l. ls_store_id l = st_id s) (leases d))) (leases w)\<rparr>))
       \<lparr>stores := delete_where (\<lambda>x. st_id x = st_id s) (stores w)\<rparr>" by blast
  have "\<forall>l \<in> set (leases d'). ls_store_id l \<noteq> st_id s"
    using assms(4)
  proof
    assume "w = d"
    then show ?thesis by (auto simp: d' set_delete_where)
  qed (rule 3(2))
  moreover have "set (leases d') \<subseteq> set (leases w)" by (auto simp: d' set_delete_where)
  ultimately have "\<forall>l \<in> set (leases d'). ls_store_id l \<noteq> st_id s \<and> ls_store_id l \<in> st_id ` set (stores w)"
    using assms(3) unfolding refs_ok_def by blast
  then have "\<forall>l \<in> set (leases d'). ls_store_id l \<in> st_id ` set (delete_where (\<lambda>x. st_id x = st_id s) (stores w))"
    by (simp add: keys_delete_where)
  with assms(3) show ?thesis by (simp add: refs_ok_def d' set_delete_where)
qed (use assms in simp_all)

lemma delete_node_cases:
  assumes "delete_edge_node fk (\<lambda>_. w) clk actor i d = (res, d')"
  obtains "d' = d" | "d' = w"
  | n d1 where "get_node d i = Some n" "\<forall>s \<in> set (stores d). st_edge_node_id s \<noteq> nd_id n" "fk \<Longrightarrow> \<not> node_referenced (nd_id n) d1"
      "d1 = w\<lparr>grants := delete_where (\<lambda>g. gr_id g \<in> gr_id ` set (filter (\<lambda>g. gr_edge_node_id g = nd_id n) (grants d))) (grants w),
         capabilities := delete_where (\<lambda>c. cp_id c \<in> cp_id ` set (filter (\<lambda>c. cp_edge_node_id c = nd_id n) (capabilities d))) (capabilities w),
         enrollments := delete_where (\<lambda>e. en_id e \<in> en_id ` set (filter (\<lambda>e. en_edge_node_id e = nd_id n) (enrollments d))) (enrollments w),
         registrations := update_where (\<lambda>r. rg_id r \<in> rg_id ` set (filter (\<lambda>r. rg_edge_node_id r = Some (nd_id n)) (registrations d)))
           (\<lambda>r. r\<lparr>rg_edge_node_id := None\<rparr>) (registrations w)\<rparr>"
      "\<exists>e a tt ti dt tm. d' = (audit e a tt ti dt tm d1)\<lparr>nodes := delete_where (\<lambda>x. nd_id x = nd_id n) (nodes d1)\<rparr>"
proof (cases "get_node d i")
  case None
  with assms that(1) show ?thesis by (simp add: delete_edge_node_def)
next
  case (Some n)
  show ?thesis
  proof (cases "find_row (\<lambda>s. st_edge_node_id s = nd_id n) (sort_key st_id (stores d))")
    case None
    then have unbound: "\<forall>s \<in> set (stores d). st_edge_node_id s \<noteq> nd_id n" by simp
    from assms that(1,2) that(3) [OF Some unbound] show ?thesis
      unfolding delete_edge_node_def Some None option.case Let_def by (simp split: if_split_asm) blast+
  next
    case (Some s)
    with assms \<open>get_node d i = Some n\<close> that(1) show ?thesis by (simp add: delete_edge_node_def)
  qed
qed

lemma refs_ok_drop_node:
  assumes "refs_ok d" and "\<not> node_referenced i d"
  shows "refs_ok (d\<lparr>nodes := delete_where (\<lambda>x. nd_id x = i) (nodes d)\<rparr>)"
  using assms by (auto simp: refs_ok_def node_referenced_def list_ex_iff keys_delete_where)

lemma delete_node_refs:
  assumes "delete_edge_node fk (\<lambda>_. w) clk actor i d = (res, d')"
    and "refs_ok d" and "refs_ok w" and "fk \<or> w = d"
  shows "refs_ok d'"
  using assms(1)
proof (cases rule: delete_node_cases)
  case (3 n d1)
  from assms(3) have "refs_ok d1"
    unfolding 3(4) by (simp add: refs_ok_def set_delete_where set_update_where ball_Un) auto
  moreover have "\<not> node_referenced (nd_id n) d1"
    using assms(4)
  proof
    assume "w = d"
    with 3(2) show ?thesis
      unfolding 3(4) by (force simp: node_referenced_def list_ex_iff set_delete_where set_update_where)
  qed (rule 3(3))
  ultimately have "refs_ok (d1\<lparr>nodes := delete_where (\<lambda>x. nd_id x = nd_id n) (nodes d1)\<rparr>)" by (rule refs_ok_drop_node)
  with 3(5) show ?thesis by (auto simp: refs_ok_def)
qed (use assms in simp_all)

lemma create_node_refs: "refs_ok d \<Longrightarrow> refs_ok (snd (create_edge_node clk actor body d))"
  by (auto simp: create_edge_node_def Let_def refs_ok_def split: option.split)

lemma update_node_refs:
  assumes "refs_ok d"
  shows "refs_ok (snd (update_edge_node clk actor i body d))"
proof (cases "get_node d i")
  case (Some n)
  then have "nd_id n = i" using get_node_Some by blast
  then have "nd_id ` set (update_where (\<lambda>x. nd_id x = i) (\<lambda>_. apply_edge_node_update body n) (nodes d)) = nd_id ` set (nodes d)"
    by (intro keys_update_where) (simp add: apply_edge_node_update_def Let_def)
  with assms Some show ?thesis
    by (simp add: update_edge_node_def Let_def refs_ok_def split: option.split)
qed (use assms in \<open>simp add: update_edge_node_def\<close>)

lemma capability_refs:
  assumes "refs_ok d"
  shows "refs_ok (snd (create_edge_capability dumps loads clk actor i body d))"
    "refs_ok (snd (update_edge_capability dumps loads clk actor i body d))"
    "refs_ok (snd (delete_edge_capability clk actor i d))"
proof -
  have "i \<in> nd_id ` set (nodes d)" if "get_node d i \<noteq> None" using that get_node_Some by fastforce
  with assms show "refs_ok (snd (create_edge_capability dumps loads clk actor i body d))"
    by (auto simp: create_edge_capability_def Let_def refs_ok_def)
  have "c \<in> set (capabilities d)" if "get_capability d i = Some c" for c
    using that by (auto simp: get_capability_def dest: find_row_Some)
  with assms show "refs_ok (snd (update_edge_capability dumps loads clk actor i body d))"
    by (auto simp: update_edge_capability_def Let_def refs_ok_def set_update_where split: option.split)
  from assms show "refs_ok (snd (delete_edge_capability clk actor i d))"
    by (auto simp: delete_edge_capability_def Let_def refs_ok_def set_delete_where split: option.split)
qed

lemma owner_stores_refs:
  "serialize_owner_stores scan ss u d = (rows, d') \<Longrightarrow> refs_ok d \<Longrightarrow> refs_ok d'"
proof (induction ss arbitrary: d rows d')
  case (Cons s ss)
  obtain r d1 where 1: "serialize_owner_store (scan (st_id s)) s u d = (r, d1)" by fastforce
  with Cons.prems(2) have ok: "refs_ok d1"
    by (auto simp: serialize_owner_store_def Let_def split: prod.split_asm intro: refs_ok_active)
  show ?case
  proof (cases r)
    case None
    with 1 Cons.prems ok show ?thesis by simp
  next
    case (Some x)
    obtain rows2 d2 where "serialize_owner_stores scan ss u d1 = (rows2, d2)" by fastforce
    with 1 Some Cons.prems(1) Cons.IH [OF _ ok] show ?thesis by auto
  qed
qed simp

lemma list_owned_refs: "refs_ok d \<Longrightarrow> refs_ok (snd (list_owned_stores scan u d))"
  by (auto simp: list_owned_stores_def split: prod.split option.split intro: owner_stores_refs)

lemma new_lease_refs:
  assumes "accessible_store d store_id u = Inr s" and "refs_ok d"
    and "active_store_lease scan i owner device d = (found, d1)"
  shows "st_id s \<in> st_id ` set (stores d1)" "refs_ok d1"
proof -
  from assms(3) have "stores d1 = stores d" by (auto elim!: active_store_lease_db)
  with accessible_store_sound [OF assms(1)] show "st_id s \<in> st_id ` set (stores d1)" by auto
  from assms(2,3) show "refs_ok d1" using refs_ok_scan by blast
qed

lemma new_lease_store [simp]: "ls_store_id (new_lease clk uuid i owner device) = i"
  by (simp add: new_lease_def)

lemmas refs_ok_leases = refs_ok_update_lease renew_lease_stems disconnect_lease_stems

lemma connect_refs:
  assumes "connect_store loads scan clk uuid i body u d = (r, d')" and "refs_ok d"
  shows "refs_ok d'"
proof (cases "d' = d")
  case False
  then obtain s n where s: "accessible_store d i u = Inr s" "usable_node d s = Inr n"
    using assms by (auto simp: connect_store_def split: sum.split_asm)
  obtain found d1 where f: "active_store_lease scan (st_id s) (us_id u)
      (case body of Some dev \<Rightarrow> dev | None \<Rightarrow> ''legacy-'' @ int_str (us_id u)) d = (found, d1)" by fastforce
  from assms(1) False show ?thesis
    unfolding connect_store_def s sum.case Let_def f prod.case
    using new_lease_refs [OF s(1) assms(2) f]
    by (auto split: option.split_asm intro!: refs_ok_leases dest!: refs_ok_insert_lease)
qed (use assms in simp)

lemma preflight_refs:
  assumes "native_store_preflight scan clk uuid i (u, dev) d = (r, d')" and "refs_ok d"
  shows "refs_ok d'"
proof (cases "d' = d")
  case False
  then obtain s n where s: "accessible_store d i u = Inr s" "usable_node d s = Inr n"
    using assms by (auto simp: native_store_preflight_def split: sum.split_asm)
  obtain found d1 where f: "active_store_lease scan (st_id s) (us_id u) (dv_device_id dev) d = (found, d1)" by fastforce
  from assms(1) False show ?thesis
    unfolding native_store_preflight_def prod.case s sum.case Let_def f
    using new_lease_refs [OF s(1) assms(2) f]
    by (auto split: option.split_asm intro!: refs_ok_leases dest!: refs_ok_insert_lease)
qed (use assms in simp)

lemma lease_handler_refs:
  "heartbeat_store scan clk i device lease_id u d = (r, d') \<Longrightarrow> refs_ok d \<Longrightarrow> refs_ok d'"
  "disconnect_store scan clk i what u d = (r2, d') \<Longrightarrow> refs_ok d \<Longrightarrow> refs_ok d'"
  by (auto simp: heartbeat_store_def disconnect_store_def split: sum.split_asm prod.split_asm option.split_asm if_split_asm
      intro!: refs_ok_leases dest: refs_ok_scan refs_ok_requested)

text \<open>What an administrator's or a member's request makes of the database: the handlers of nodes,
  capabilities, stores and connections. \<open>w\<close> is the database a deletion finds when it writes.\<close>

inductive administered :: "bool \<Rightarrow> db \<Rightarrow> db \<Rightarrow> bool" for fk where
  start: "administered fk d d"
| create_node: "administered fk d0 d \<Longrightarrow> create_edge_node clk actor nb d = (res, d') \<Longrightarrow> administered fk d0 d'"
| update_node: "administered fk d0 d \<Longrightarrow> update_edge_node clk actor i ub d = (res, d') \<Longrightarrow> administered fk d0 d'"
| delete_node: "administered fk d0 d \<Longrightarrow> administered fk d w \<Longrightarrow> fk \<or> w = d \<Longrightarrow>
    delete_edge_node fk (\<lambda>_. w) clk actor i d = (gone, d') \<Longrightarrow> administered fk d0 d'"
| create_capability: "administered fk d0 d \<Longrightarrow> create_edge_capability dumps loads clk actor i cb d = (cap, d') \<Longrightarrow> administered fk d0 d'"
| update_capability: "administered fk d0 d \<Longrightarrow> update_edge_capability dumps loads clk actor i cb d = (cap, d') \<Longrightarrow> administered fk d0 d'"
| delete_capability: "administered fk d0 d \<Longrightarrow> delete_edge_capability clk actor i d = (gone, d') \<Longrightarrow> administered fk d0 d'"
| create_store: "administered fk d0 d \<Longrightarrow> create_managed_store scan clk actor sb d = (res, d') \<Longrightarrow> administered fk d0 d'"
| update_store: "administered fk d0 d \<Longrightarrow> update_managed_store scan scan2 clk actor i mb d = (res, d') \<Longrightarrow> administered fk d0 d'"
| delete_store: "administered fk d0 d \<Longrightarrow> administered fk d w \<Longrightarrow> fk \<or> w = d \<Longrightarrow>
    delete_managed_store fk (\<lambda>_. w) scan clk actor i d = (gone, d') \<Longrightarrow> administered fk d0 d'"
| list_stores: "administered fk d0 d \<Longrightarrow> list_owned_stores scans u d = (rows, d') \<Longrightarrow> administered fk d0 d'"
| connect: "administered fk d0 d \<Longrightarrow> connect_store loads scan clk uuid i dev u d = (res, d') \<Longrightarrow> administered fk d0 d'"
| preflight: "administered fk d0 d \<Longrightarrow> native_store_preflight scan clk uuid i (u, device) d = (res, d') \<Longrightarrow> administered fk d0 d'"
| heartbeat: "administered fk d0 d \<Longrightarrow> heartbeat_store scan clk i dv lease_id u d = (res, d') \<Longrightarrow> administered fk d0 d'"
| disconnect: "administered fk d0 d \<Longrightarrow> disconnect_store scan clk i what u d = (res, d') \<Longrightarrow> administered fk d0 d'"

lemmas refs_ok_handlers = create_node_refs update_node_refs capability_refs create_store_refs list_owned_refs

text \<open>C15. No reference is ever left without its target. Starting from a database in which every store, grant,
  capability, enrollment and registration names an existing node and every lease an existing store, the
  handlers of nodes, capabilities, stores and connections keep that so, in any order. The two deletions
  may overlap with other requests between their reading and their writing if the database enforces foreign
  keys, and not otherwise.\<close>

theorem references_hold:
  assumes "administered fk d0 d" and "refs_ok d0"
  shows "refs_ok d"
  using assms
proof (induction rule: administered.induct)
  case (delete_node d0 d w clk actor i gone d')
  then show ?case using delete_node_refs by blast
next
  case (update_store d0 d scan scan2 clk actor i mb res d')
  then show ?case using update_store_refs by blast
next
  case (delete_store d0 d w scan clk actor i gone d')
  then show ?case using delete_store_refs by blast
next
  case connect
  then show ?case using connect_refs by blast
next
  case preflight
  then show ?case using preflight_refs by blast
next
  case heartbeat
  then show ?case using lease_handler_refs(1) by blast
next
  case disconnect
  then show ?case using lease_handler_refs(2) by blast
qed (metis refs_ok_handlers snd_conv)+


section \<open>Rebinding and visibility\<close>

lemma scan_leases_stale:
  assumes "scan_leases scan i k t = (t', active)" and "l \<in> set t" and "ls_store_id l = i" and "lease_active l"
  shows "l \<in> set active \<or> (\<exists>k. lease_stale (scan k) l)"
  using assms
proof (induction t arbitrary: k t' active)
  case (Cons x t)
  obtain u1 a1 u2 a2 where "scan_leases scan i (Suc k) t = (u1, a1)" "scan_leases scan i k t = (u2, a2)" by fastforce
  with Cons.IH [OF this(1)] Cons.IH [OF this(2)] Cons.prems show ?case by (auto split: if_split_asm)
qed simp

text \<open>A store is moved to another node only while nobody is connected to it. When an update changes the node
  of a store, every lease of the store that was still marked active had expired or lost its heartbeat, none
  is active afterwards, and the new node exists; the owner it leaves, if any, is an enabled user.\<close>

theorem rebind_only_disconnected:
  assumes "update_managed_store scan scan2 clk actor i body d = (res, d')"
    and "get_store d i = Some s" and "get_store d' i = Some s'" and "st_edge_node_id s' \<noteq> st_edge_node_id s"
  shows "(\<forall>l \<in> set (leases d'). ls_store_id l = i \<longrightarrow> \<not> lease_active l) \<and>
    (\<forall>l \<in> set (leases d). ls_store_id l = i \<longrightarrow> lease_active l \<longrightarrow> (\<exists>k. lease_stale (scan k) l)) \<and>
    get_node d' (st_edge_node_id s') \<noteq> None \<and> (\<forall>j. st_owner_user_id s' = Some j \<longrightarrow> (\<exists>u. get_user d' j = Some u \<and> us_enabled u))"
  using assms(1)
proof (cases rule: update_store_cases)
  case 1
  with assms show ?thesis by simp
next
  case (2 x d1)
  have x: "x = s" using 2(1) assms(2) by simp
  from 2(3) obtain e a tt ti dt tm where d': "d' = audit e a tt ti dt tm
      (d1\<lparr>stores := update_where (\<lambda>x. st_id x = i) (\<lambda>_. apply_store_update body s) (stores d)\<rparr>)" unfolding x by blast
  have s': "s' = apply_store_update body s"
    using assms(3) get_store_Some [OF assms(3)] by (auto simp: d' get_store_def set_update_where dest!: find_row_Some)
  with 2(5) x assms(4) have scan: "active_store_leases scan i d = ([], d1)" by auto
  then obtain t where t: "scan_leases scan i 0 (leases d) = (t, [])" "d1 = d\<lparr>leases := t\<rparr>" by (rule active_store_leases_split)
  have "\<forall>l \<in> set (leases d). ls_store_id l = i \<longrightarrow> lease_active l \<longrightarrow> (\<exists>k. lease_stale (scan k) l)"
    using scan_leases_stale [OF t(1)] by auto
  moreover have "\<forall>l \<in> set (leases d'). ls_store_id l = i \<longrightarrow> \<not> lease_active l"
    using scan_leases_active [OF t(1)] by (auto simp: d' t(2))
  moreover have "get_node d' (st_edge_node_id s') \<noteq> None" "\<forall>j. st_owner_user_id s' = Some j \<longrightarrow> (\<exists>u. get_user d' j = Some u \<and> us_enabled u)"
    using 2(4,6) by (auto simp: s' x d' t(2) get_node_def get_user_def)
  ultimately show ?thesis by blast
qed

lemma count_where_pos: "0 < count_where p t \<longleftrightarrow> (\<exists>x \<in> set t. p x)"
  by (auto simp: count_where_def filter_empty_conv)

lemma set_joined:
  "set (joined_stores cond u d) =
     {s \<in> set (stores d). (\<exists>n \<in> set (nodes d). nd_id n = st_edge_node_id s \<and> cond n) \<and> granted d u (st_edge_node_id s)}"
  by (auto simp: joined_stores_def granted_def count_where_pos [symmetric] set_replicate_conv_if split: if_split_asm) 

lemma count_where_unique:
  assumes "unique_on k t" and "\<And>x. p x \<Longrightarrow> k x = v"
  shows "count_where p t \<le> 1"
proof -
  have "distinct (map k (filter p t))" using assms(1) by (simp add: unique_on_def distinct_map_filter)
  moreover have "k ` set (filter p t) \<subseteq> {v}" using assms(2) by auto
  ultimately have "length (map k (filter p t)) \<le> card {v}"
    by (metis card_mono distinct_card finite.emptyI finite_insert list.set_map)
  then show ?thesis by (simp add: count_where_def)
qed

lemma distinct_replicates:
  assumes "distinct xs" and "\<And>x. f x \<le> (1::nat)"
  shows "distinct (concat (map (\<lambda>x. replicate (f x) x) xs))"
  using assms(1)
proof (induction xs)
  case (Cons x xs)
  have "f x = 0 \<or> f x = 1" using assms(2) [of x] by auto
  with Cons show ?case by (auto split: if_split_asm)
qed simp

lemma joined_distinct:
  assumes "db_ok d"
  shows "distinct (joined_stores cond u d)"
proof -
  let ?n = "\<lambda>s. count_where (\<lambda>n. nd_id n = st_edge_node_id s \<and> cond n) (nodes d)"
  let ?g = "\<lambda>s. count_where (\<lambda>g. gr_user_id g = us_id u \<and> gr_edge_node_id g = st_edge_node_id s) (grants d)"
  have n: "?n s \<le> 1" for s
    using assms by (intro count_where_unique [where k = nd_id]) (auto simp: db_ok_def)
  have g: "?g s \<le> 1" for s
    using assms by (intro count_where_unique [where k = "\<lambda>r. (gr_user_id r, gr_edge_node_id r)"]) (auto simp: db_ok_def)
  have "?n s * (if us_role u = ''admin'' then 1 else ?g s) \<le> 1" for s
    using mult_le_mono [OF n [of s] g [of s]] n [of s] by (cases "us_role u = ''admin''") simp_all
  moreover have "distinct (sort_key st_id (stores d))" using assms by (auto simp: db_ok_def unique_on_def distinct_map)
  ultimately show ?thesis
    unfolding joined_stores_def by (intro distinct_replicates)
qed


section \<open>A store that moves\<close>

definition demo_two_nodes :: db where
  "demo_two_nodes = demo_db\<lparr>nodes := [demo_node 5 ''n5'', demo_node 6 ''n6'']\<rparr>"

definition demo_move :: managed_store_update_body where
  "demo_move = \<lparr>mu_label = None, mu_owner_user_id = None, mu_edge_node_id = Some (Some 6), mu_enabled = None\<rparr>"

lemma demo_moved:
  obtains res d' where "update_managed_store (\<lambda>_. hours 2) (\<lambda>_. hours 2) (\<lambda>_. hours 2) (demo_user 1 ''root'' ''admin'') 7 demo_move demo_two_nodes = (res, d')"
    "get_store d' 7 = Some ((demo_store 7 5)\<lparr>st_edge_node_id := 6\<rparr>)"
proof -
  let ?d1 = "demo_two_nodes\<lparr>leases := [(demo_lease ''l1'' 7 2 ''dev'' (hours 1))\<lparr>ls_status := ''expired''\<rparr>]\<rparr>"
  let ?s = "(demo_store 7 5)\<lparr>st_edge_node_id := 6\<rparr>"
  have 1: "get_store demo_two_nodes 7 = Some (demo_store 7 5)"
    using demo_gets(5) by (simp add: demo_two_nodes_def get_store_def)
  have 2: "active_store_leases (\<lambda>_. hours 2) 7 demo_two_nodes = ([], ?d1)"
    by (simp add: demo_two_nodes_def demo_db_def active_store_leases_def demo_lease_def lease_active_def lease_stale_def
        hours_def seconds_def lease_heartbeat_def)
  have 3: "validate_store_links demo_two_nodes None (Some 6) = None"
    by (simp add: validate_store_links_def get_node_def demo_two_nodes_def demo_node_def)
  have 4: "apply_store_update demo_move (demo_store 7 5) = ?s"
    by (simp add: apply_store_update_def demo_move_def changed_to_def demo_store_def)
  obtain r D where r: "update_managed_store (\<lambda>_. hours 2) (\<lambda>_. hours 2) (\<lambda>_. hours 2) (demo_user 1 ''root'' ''admin'') 7 demo_move demo_two_nodes = (r, D)"
    by fastforce
  then have "stores D = [?s]"
    unfolding update_managed_store_def 1 option.case Let_def 4
    using 2 3 by (auto simp: demo_move_def changed_to_def demo_store_def nulled_def demo_two_nodes_def demo_db_def update_where_def
        dest!: answer_store_db)
  then have "get_store D 7 = Some ?s" by (simp add: get_store_def demo_store_def)
  with r show ?thesis by (rule that)
qed

theorem references_hold_witness:
  "\<exists>d. administered True demo_two_nodes d \<and> refs_ok d \<and> get_store d 7 = Some ((demo_store 7 5)\<lparr>st_edge_node_id := 6\<rparr>)"
proof -
  obtain res d where d: "update_managed_store (\<lambda>_. hours 2) (\<lambda>_. hours 2) (\<lambda>_. hours 2) (demo_user 1 ''root'' ''admin'') 7 demo_move demo_two_nodes = (res, d)"
    "get_store d 7 = Some ((demo_store 7 5)\<lparr>st_edge_node_id := 6\<rparr>)" by (rule demo_moved)
  from d(1) have a: "administered True demo_two_nodes d" by (rule administered.update_store [OF administered.start])
  have "refs_ok demo_two_nodes" by (simp add: refs_ok_def demo_two_nodes_def demo_defs)
  from references_hold [OF a this] a d(2) show ?thesis by blast
qed

theorem rebind_only_disconnected_witness:
  "\<exists>res d'. update_managed_store (\<lambda>_. hours 2) (\<lambda>_. hours 2) (\<lambda>_. hours 2) (demo_user 1 ''root'' ''admin'') 7 demo_move demo_two_nodes =
     (res, d') \<and> get_node d' 6 \<noteq> None \<and> (\<forall>l \<in> set (leases d'). ls_store_id l = 7 \<longrightarrow> \<not> lease_active l)"
proof -
  obtain res d where d: "update_managed_store (\<lambda>_. hours 2) (\<lambda>_. hours 2) (\<lambda>_. hours 2) (demo_user 1 ''root'' ''admin'') 7 demo_move demo_two_nodes = (res, d)"
    "get_store d 7 = Some ((demo_store 7 5)\<lparr>st_edge_node_id := 6\<rparr>)" by (rule demo_moved)
  have "get_store demo_two_nodes 7 = Some (demo_store 7 5)"
    using demo_gets(5) by (simp add: demo_two_nodes_def get_store_def)
  from rebind_only_disconnected [OF d(1) this d(2)] d show ?thesis by (auto simp: demo_store_def)
qed


end
