(* ===== verification/Releases.thy ===== *)
theory Releases
  imports Prelude Json Base64 Control_Model
begin

text \<open>
  The software the control plane hands to new nodes (\<open>cloudbrowser/app.py\<close>): the signed manifest of the
  Windows package, the checksum of the Linux package, and the bytes that are streamed.

  The file system is a function from paths to files; \<open>None\<close> is any \<open>OSError\<close>, the refusal to follow a
  symbolic link included. \<open>fl_data\<close> is what reading the open file gives when it is hashed and
  \<open>fl_again\<close> when it is read a second time for streaming. SHA-256, Ed25519 and the JSON scanner are
  arguments. Every exception the source catches becomes the same 503, so the model keeps only
  whether one occurs.
\<close>

record os_file =
  fl_regular :: bool
  fl_size :: int
  fl_data :: string
  fl_again :: string

type_synonym file_system = "string \<Rightarrow> os_file option"

definition unavailable :: http_error where
  "unavailable = Http 503 ''Edge package unavailable''"

section \<open>Reading\<close>

text \<open>A second \<open>object_pairs_hook\<close>, on one object and on the whole document.\<close>

fun strict_json_object :: "(string \<times> json) list \<Rightarrow> (string \<times> json) list \<Rightarrow> (string \<times> json) list option" where
  "strict_json_object result [] = Some result"
| "strict_json_object result ((k, v) # pairs) =
     (if k \<in> fst ` set result then None else strict_json_object (result @ [(k, v)]) pairs)"

fun strict_tree :: "json \<Rightarrow> json option"
  and strict_items :: "json list \<Rightarrow> json list option"
  and strict_members :: "(string \<times> json) list \<Rightarrow> (string \<times> json) list option" where
  "strict_tree (JObj ms) =
     (case strict_members ms of
        None \<Rightarrow> None
      | Some ms' \<Rightarrow> map_option JObj (strict_json_object [] ms'))"
| "strict_tree (JArr xs) = map_option JArr (strict_items xs)"
| "strict_tree j = Some j"
| "strict_items [] = Some []"
| "strict_items (x # xs) =
     (case strict_tree x of None \<Rightarrow> None | Some x' \<Rightarrow> map_option ((#) x') (strict_items xs))"
| "strict_members [] = Some []"
| "strict_members ((k, v) # ms) =
     (case strict_tree v of None \<Rightarrow> None | Some v' \<Rightarrow> map_option ((#) (k, v')) (strict_members ms))"

definition read_small_regular_file :: "file_system \<Rightarrow> string \<Rightarrow> nat \<Rightarrow> string option" where
  "read_small_regular_file fs path limit =
     (case fs path of
        None \<Rightarrow> None
      | Some f \<Rightarrow>
          if \<not> fl_regular f \<or> \<not> (0 \<le> fl_size f \<and> fl_size f \<le> int limit) then None
          else
            (let data = take (limit + 1) (fl_data f) in
             if int (length data) \<noteq> fl_size f then None else Some data))"

text \<open>The chunks a loop \<open>while chunk := os.read(descriptor, n)\<close> sees.\<close>

function chunks_of :: "nat \<Rightarrow> string \<Rightarrow> string list" where
  "chunks_of n s = (if s = [] \<or> n = 0 then [] else take n s # chunks_of n (drop n s))"
  by pat_completeness auto
termination by (relation "measure (\<lambda>(n, s). length s)") auto

declare chunks_of.simps [simp del]

definition STREAM_CHUNK_BYTES :: nat where
  "STREAM_CHUNK_BYTES = 1048576"

definition file_digest :: "(string \<Rightarrow> string) \<Rightarrow> string \<Rightarrow> string" where
  "file_digest sha256_hex data = sha256_hex (foldl (@) [] (chunks_of STREAM_CHUNK_BYTES data))"

definition stream_descriptor :: "string \<Rightarrow> string list" where
  "stream_descriptor data = chunks_of STREAM_CHUNK_BYTES data"

section \<open>The Windows release\<close>

record windows_release =
  wr_package_path :: string
  wr_checksum :: string
  wr_route :: string
  wr_size :: int
  wr_manifest_raw :: string
  wr_signature_raw :: string

definition release_dir :: string where
  "release_dir = ''/data/dist/''"

definition MANIFEST_PATH :: string where
  "MANIFEST_PATH = release_dir @ ''release-manifest.json''"

definition SIGNATURE_PATH :: string where
  "SIGNATURE_PATH = release_dir @ ''release-manifest.json.sig''"

definition PUBLIC_KEY_BASE64 :: string where
  "PUBLIC_KEY_BASE64 = ''Wf/s6zRs0+FjSCqM1BQb5vXIpyv4Ivxm5nAS2wWZGxk=''"

definition WINDOWS_PACKAGE_MAX_BYTES :: int where
  "WINDOWS_PACKAGE_MAX_BYTES = 8 * 1024 ^ 3"

text \<open>\<open>base64.b64decode(.., validate=True)\<close> with the standard alphabet.\<close>

definition b64decode_std :: "string \<Rightarrow> string option" where
  "b64decode_std s =
     (if CHR ''-'' \<in> set s \<or> CHR ''_'' \<in> set s then None else b64decode_strict s)"

definition package_prefix :: string where
  "package_prefix = ''IdenGrid-Edge-Windows-Server-2025-x64-v''"

definition lower_hex :: "string \<Rightarrow> bool" where
  "lower_hex s \<longleftrightarrow> list_all (\<lambda>c. is_digit c \<or> char_in 97 102 c) s"

definition version_re :: "string \<Rightarrow> bool" where
  "version_re v \<longleftrightarrow>
     (case partition_char (CHR ''-'') v of
        (core, found, suffix) \<Rightarrow>
          (let parts = split_char dot core in
           length parts = 3 \<and> list_all (\<lambda>p. p \<noteq> [] \<and> list_all is_digit p) parts) \<and>
          (found \<longrightarrow> suffix \<noteq> [] \<and> list_all (\<lambda>c. is_alnum c \<or> c = dot \<or> c = CHR ''-'') suffix))"

text \<open>\<open>Path(p).name\<close>.\<close>

definition path_name :: "string \<Rightarrow> string" where
  "path_name p =
     (case rev (filter (\<lambda>c. c \<noteq> [] \<and> c \<noteq> ''.'') (split_char (CHR ''/'') p)) of [] \<Rightarrow> [] | c # _ \<Rightarrow> c)"

fun as_str :: "json option \<Rightarrow> string option" where
  "as_str (Some (JStr s)) = Some s"
| "as_str _ = None"

fun as_int :: "json option \<Rightarrow> int option" where
  "as_int (Some (JInt i)) = Some i"
| "as_int _ = None"

fun as_obj :: "json option \<Rightarrow> (string \<times> json) list option" where
  "as_obj (Some (JObj ms)) = Some ms"
| "as_obj _ = None"

definition package_ok :: "string \<Rightarrow> string \<Rightarrow> int \<Rightarrow> string \<Rightarrow> bool" where
  "package_ok filename sha256 size_v version \<longleftrightarrow>
     startswith filename package_prefix \<and> endswith filename ''.zip'' \<and> path_name filename = filename \<and>
     length sha256 = 64 \<and> lower_hex sha256 \<and> 0 < size_v \<and> size_v \<le> WINDOWS_PACKAGE_MAX_BYTES \<and>
     version_re version \<and> filename = package_prefix @ version @ ''.zip''"

definition manifest_package :: "json \<Rightarrow> (string \<times> string \<times> int) option" where
  "manifest_package document =
     (case as_obj (Some document) of
        None \<Rightarrow> None
      | Some doc \<Rightarrow>
          (case as_obj (map_of doc ''package'') of
             None \<Rightarrow> None
           | Some package \<Rightarrow>
               if fst ` set doc \<noteq> {''schema_version'', ''package''} \<or>
                  map_of doc ''schema_version'' \<noteq> Some (JInt 1) \<or>
                  fst ` set package \<noteq> {''filename'', ''sha256'', ''size'', ''version''}
               then None
               else
                 (case (as_str (map_of package ''filename''), as_str (map_of package ''sha256''),
                        as_int (map_of package ''size''), as_str (map_of package ''version'')) of
                    (Some filename, Some sha256, Some size_v, Some version) \<Rightarrow>
                      if package_ok filename sha256 size_v version then Some (filename, sha256, size_v) else None
                  | _ \<Rightarrow> None)))"

definition signature_ok :: "(string \<Rightarrow> string \<Rightarrow> string \<Rightarrow> bool) \<Rightarrow> string \<Rightarrow> string \<Rightarrow> bool" where
  "signature_ok ed25519_verify manifest_raw signature_raw =
     (if \<not> is_ascii signature_raw then False
      else
        (case (b64decode_std (strip signature_raw), b64decode_std PUBLIC_KEY_BASE64) of
           (Some signature, Some public_key_raw) \<Rightarrow>
             length signature = 64 \<and> length public_key_raw = 32 \<and>
             ed25519_verify public_key_raw signature manifest_raw
         | _ \<Rightarrow> False))"

definition verified_windows_release ::
  "(string \<Rightarrow> string \<Rightarrow> string \<Rightarrow> bool) \<Rightarrow> (string \<Rightarrow> json option) \<Rightarrow> file_system \<Rightarrow> http_error + windows_release" where
  "verified_windows_release ed25519_verify scan fs =
     (case (read_small_regular_file fs MANIFEST_PATH 4096, read_small_regular_file fs SIGNATURE_PATH 256) of
        (Some manifest_raw, Some signature_raw) \<Rightarrow>
          if \<not> signature_ok ed25519_verify manifest_raw signature_raw \<or> \<not> is_ascii manifest_raw then Inl unavailable
          else
            (case scan manifest_raw of
               None \<Rightarrow> Inl unavailable
             | Some tree \<Rightarrow>
                 (case strict_tree tree of
                    None \<Rightarrow> Inl unavailable
                  | Some document \<Rightarrow>
                      (case manifest_package document of
                         None \<Rightarrow> Inl unavailable
                       | Some (filename, sha256, size_v) \<Rightarrow>
                           Inr \<lparr>wr_package_path = release_dir @ filename, wr_checksum = sha256,
                                wr_route = ''/edge-package/'' @ filename, wr_size = size_v,
                                wr_manifest_raw = manifest_raw, wr_signature_raw = signature_raw\<rparr>)))
      | _ \<Rightarrow> Inl unavailable)"

definition open_verified_windows_package ::
  "(string \<Rightarrow> string) \<Rightarrow> file_system \<Rightarrow> windows_release \<Rightarrow> http_error + os_file" where
  "open_verified_windows_package sha256_hex fs release =
     (case fs (wr_package_path release) of
        None \<Rightarrow> Inl unavailable
      | Some f \<Rightarrow>
          if \<not> fl_regular f \<or> fl_size f \<noteq> wr_size release \<or>
             \<not> (0 < fl_size f \<and> fl_size f \<le> WINDOWS_PACKAGE_MAX_BYTES)
          then Inl unavailable
          else if file_digest sha256_hex (fl_data f) \<noteq> wr_checksum release then Inl unavailable
          else Inr f)"

section \<open>The Linux package\<close>

definition LINUX_PACKAGE_PATH :: string where
  "LINUX_PACKAGE_PATH = release_dir @ ''edge-tunnel.tar.gz''"

definition LINUX_PACKAGE_MAX_BYTES :: int where
  "LINUX_PACKAGE_MAX_BYTES = 2 * 1024 ^ 3"

definition LINUX_PACKAGE_ROUTE :: string where
  "LINUX_PACKAGE_ROUTE = ''/edge-package/edge-tunnel.tar.gz''"

definition open_verified_linux_package ::
  "(string \<Rightarrow> string) \<Rightarrow> file_system \<Rightarrow> http_error + os_file \<times> string \<times> int" where
  "open_verified_linux_package sha256_hex fs =
     (case fs (LINUX_PACKAGE_PATH @ ''.sha256'') of
        None \<Rightarrow> Inl unavailable
      | Some c \<Rightarrow>
          if \<not> is_ascii (fl_data c) then Inl unavailable
          else
            (case split_space (fl_data c) of
               [expected, filename] \<Rightarrow>
                 if length expected \<noteq> 64 \<or> \<not> lower_hex expected \<or> filename \<noteq> path_name LINUX_PACKAGE_PATH
                 then Inl unavailable
                 else
                   (case fs LINUX_PACKAGE_PATH of
                      None \<Rightarrow> Inl unavailable
                    | Some f \<Rightarrow>
                        if \<not> fl_regular f \<or> \<not> (0 < fl_size f \<and> fl_size f \<le> LINUX_PACKAGE_MAX_BYTES) then Inl unavailable
                        else
                          (let actual = file_digest sha256_hex (fl_data f) in
                           if expected \<noteq> actual then Inl unavailable else Inr (f, actual, fl_size f)))
             | _ \<Rightarrow> Inl unavailable))"

section \<open>Handlers\<close>

definition verified_edge_package ::
  "(string \<Rightarrow> string) \<Rightarrow> (string \<Rightarrow> string \<Rightarrow> string \<Rightarrow> bool) \<Rightarrow> (string \<Rightarrow> json option) \<Rightarrow> file_system \<Rightarrow> string \<Rightarrow>
   http_error + string \<times> string" where
  "verified_edge_package sha256_hex ed25519_verify scan fs platform =
     (if platform = ''windows'' then
        (case verified_windows_release ed25519_verify scan fs of
           Inl e \<Rightarrow> Inl e
         | Inr release \<Rightarrow>
             (case open_verified_windows_package sha256_hex fs release of
                Inl e \<Rightarrow> Inl e
              | Inr _ \<Rightarrow> Inr (wr_checksum release, wr_route release)))
      else if platform \<noteq> ''linux'' then Inl unavailable
      else
        (case open_verified_linux_package sha256_hex fs of
           Inl e \<Rightarrow> Inl e
         | Inr (_, actual, _) \<Rightarrow> Inr (actual, LINUX_PACKAGE_ROUTE)))"

definition edge_package :: "(string \<Rightarrow> string) \<Rightarrow> file_system \<Rightarrow> http_error + string list" where
  "edge_package sha256_hex fs =
     (case open_verified_linux_package sha256_hex fs of
        Inl e \<Rightarrow> Inl e
      | Inr (f, _, _) \<Rightarrow> Inr (stream_descriptor (fl_again f)))"

definition windows_edge_release_manifest ::
  "(string \<Rightarrow> string \<Rightarrow> string \<Rightarrow> bool) \<Rightarrow> (string \<Rightarrow> json option) \<Rightarrow> file_system \<Rightarrow> http_error + string" where
  "windows_edge_release_manifest ed25519_verify scan fs =
     map_sum id wr_manifest_raw (verified_windows_release ed25519_verify scan fs)"

definition windows_edge_release_signature ::
  "(string \<Rightarrow> string \<Rightarrow> string \<Rightarrow> bool) \<Rightarrow> (string \<Rightarrow> json option) \<Rightarrow> file_system \<Rightarrow> http_error + string" where
  "windows_edge_release_signature ed25519_verify scan fs =
     map_sum id wr_signature_raw (verified_windows_release ed25519_verify scan fs)"

definition windows_edge_versioned_package ::
  "(string \<Rightarrow> string) \<Rightarrow> (string \<Rightarrow> string \<Rightarrow> string \<Rightarrow> bool) \<Rightarrow> (string \<Rightarrow> json option) \<Rightarrow> file_system \<Rightarrow> string \<Rightarrow>
   http_error + string list" where
  "windows_edge_versioned_package sha256_hex ed25519_verify scan fs filename =
     (case verified_windows_release ed25519_verify scan fs of
        Inl e \<Rightarrow> Inl e
      | Inr release \<Rightarrow>
          if wr_route release \<noteq> ''/edge-package/'' @ filename then Inl (Http 404 ''Release package not found'')
          else
            (case open_verified_windows_package sha256_hex fs release of
               Inl e \<Rightarrow> Inl e
             | Inr f \<Rightarrow> Inr (stream_descriptor (fl_again f))))"

section \<open>What is handed out was signed\<close>

lemma concat_chunks_of: "0 < n \<Longrightarrow> concat (chunks_of n s) = s"
proof (induction n s rule: chunks_of.induct)
  case (1 n s)
  then show ?case by (subst chunks_of.simps) auto
qed

lemma foldl_append: "foldl (@) a xs = a @ concat xs"
  by (induction xs arbitrary: a) auto

lemma concat_stream [simp]: "concat (stream_descriptor data) = data"
  by (simp add: stream_descriptor_def STREAM_CHUNK_BYTES_def concat_chunks_of)

lemma file_digest_data [simp]: "file_digest h data = h data"
  by (simp add: file_digest_def foldl_append concat_chunks_of STREAM_CHUNK_BYTES_def)

lemma read_small_bounded: "read_small_regular_file fs path limit = Some data \<Longrightarrow> length data \<le> limit"
  by (auto simp: read_small_regular_file_def Let_def split: option.splits if_splits)

lemma path_name_plain: "path_name p = p \<Longrightarrow> CHR ''/'' \<notin> set p"
proof -
  assume *: "path_name p = p"
  have part: "c \<in> set (filter q (split_char (CHR ''/'') p)) \<Longrightarrow> CHR ''/'' \<notin> set c" for c q
    using split_char_parts by auto
  show ?thesis
  proof (cases "rev (filter (\<lambda>c. c \<noteq> [] \<and> c \<noteq> ''.'') (split_char (CHR ''/'') p))")
    case Nil
    with * show ?thesis by (simp add: path_name_def)
  next
    case (Cons c cs)
    then have "c \<in> set (filter (\<lambda>c. c \<noteq> [] \<and> c \<noteq> ''.'') (split_char (CHR ''/'') p))"
      by (metis list.set_intros(1) set_rev)
    then have "CHR ''/'' \<notin> set c" by (rule part)
    with * Cons show ?thesis by (simp add: path_name_def)
  qed
qed

lemma manifest_package_ok:
  assumes "manifest_package document = Some (filename, sha256, size_v)"
  shows "CHR ''/'' \<notin> set filename \<and> startswith filename package_prefix \<and> length sha256 = 64 \<and> 0 < size_v"
proof -
  from assms have "\<exists>version. package_ok filename sha256 size_v version"
    by (auto simp: manifest_package_def simp del: image_eqI split: option.split_asm if_split_asm)
  then show ?thesis by (auto simp: package_ok_def dest: path_name_plain)
qed

lemma verified_windows_release_cases:
  assumes "verified_windows_release ed25519_verify scan fs = Inr release"
  obtains pk sg tree document filename where "scan (wr_manifest_raw release) = Some tree" "strict_tree tree = Some document"
    "b64decode_std PUBLIC_KEY_BASE64 = Some pk" "length pk = 32" "length sg = 64"
    "ed25519_verify pk sg (wr_manifest_raw release)"
    "manifest_package document = Some (filename, wr_checksum release, wr_size release)"
    "wr_package_path release = release_dir @ filename" "wr_route release = ''/edge-package/'' @ filename"
  using assms
  by (auto simp: verified_windows_release_def signature_ok_def split: option.splits if_splits prod.splits)

lemma open_windows_cases:
  assumes "open_verified_windows_package sha256_hex fs release = Inr f"
  shows "fs (wr_package_path release) = Some f \<and> sha256_hex (fl_data f) = wr_checksum release \<and>
    fl_size f = wr_size release \<and> fl_regular f"
  using assms by (auto simp: open_verified_windows_package_def split: option.splits if_splits)

lemma open_linux_cases:
  assumes "open_verified_linux_package sha256_hex fs = Inr (f, actual, n)"
  shows "fs LINUX_PACKAGE_PATH = Some f \<and> sha256_hex (fl_data f) = actual \<and> fl_regular f \<and> length actual = 64 \<and>
    (\<exists>c rest. fs (LINUX_PACKAGE_PATH @ ''.sha256'') = Some c \<and> split_space (fl_data c) = actual # rest)"
  using assms
  by (auto simp: open_verified_linux_package_def Let_def split: option.splits if_splits list.splits)

text \<open>C17. The Windows package that is served is the one the release key signed: the manifest carries an
  Ed25519 signature by the built-in key, the file is a plain file directly in the release directory,
  its SHA-256 is the one in the manifest, and the bytes sent are the bytes that were hashed, unless
  the file is changed in place while it is open.\<close>

theorem windows_package_signed:
  assumes "windows_edge_versioned_package sha256_hex ed25519_verify scan fs filename = Inr chunks"
  shows "\<exists>release pk sg tree document f. verified_windows_release ed25519_verify scan fs = Inr release \<and>
    scan (wr_manifest_raw release) = Some tree \<and> strict_tree tree = Some document \<and>
    b64decode_std PUBLIC_KEY_BASE64 = Some pk \<and> ed25519_verify pk sg (wr_manifest_raw release) \<and>
    length sg = 64 \<and> manifest_package document = Some (filename, wr_checksum release, wr_size release) \<and>
    CHR ''/'' \<notin> set filename \<and> fs (release_dir @ filename) = Some f \<and> fl_regular f \<and>
    sha256_hex (fl_data f) = wr_checksum release \<and> concat chunks = fl_again f \<and>
    (fl_again f = fl_data f \<longrightarrow> sha256_hex (concat chunks) = wr_checksum release)"
proof -
  from assms obtain release f where r: "verified_windows_release ed25519_verify scan fs = Inr release"
    and route: "wr_route release = ''/edge-package/'' @ filename"
    and f: "open_verified_windows_package sha256_hex fs release = Inr f"
    and c: "chunks = stream_descriptor (fl_again f)"
    by (auto simp: windows_edge_versioned_package_def split: sum.splits if_splits)
  from r obtain pk sg tree document name where t: "scan (wr_manifest_raw release) = Some tree" "strict_tree tree = Some document"
    and pk: "b64decode_std PUBLIC_KEY_BASE64 = Some pk" "length sg = 64"
      "ed25519_verify pk sg (wr_manifest_raw release)"
    and m: "manifest_package document = Some (name, wr_checksum release, wr_size release)"
    and p: "wr_package_path release = release_dir @ name" "wr_route release = ''/edge-package/'' @ name"
    by (rule verified_windows_release_cases)
  from p(2) route have "name = filename" by simp
  with m manifest_package_ok [OF m] open_windows_cases [OF f] p c r pk t show ?thesis by auto
qed

text \<open>A release that passes: the signature is the text of 64 zero bytes.\<close>

definition demo_version :: string where
  "demo_version = ''1.0.0''"

definition demo_manifest :: json where
  "demo_manifest =
     JObj [(''schema_version'', JInt 1),
           (''package'', JObj [(''filename'', JStr (package_prefix @ demo_version @ ''.zip'')),
                              (''sha256'', JStr (replicate 64 (CHR ''a''))), (''size'', JInt 3),
                              (''version'', JStr demo_version)])]"

definition demo_signature :: string where
  "demo_signature = urlsafe_b64encode (replicate 64 (CHR 0x00))"

definition demo_fs :: file_system where
  "demo_fs path =
     (if path = MANIFEST_PATH then Some \<lparr>fl_regular = True, fl_size = 1, fl_data = ''m'', fl_again = ''m''\<rparr>
      else if path = SIGNATURE_PATH
      then Some \<lparr>fl_regular = True, fl_size = int (length demo_signature), fl_data = demo_signature, fl_again = []\<rparr>
      else Some \<lparr>fl_regular = True, fl_size = 3, fl_data = ''zip'', fl_again = ''zip''\<rparr>)"

lemma demo_key: "\<exists>pk. b64decode_std PUBLIC_KEY_BASE64 = Some pk \<and> length pk = 32"
  by (simp add: b64decode_std_def PUBLIC_KEY_BASE64_def b64decode_strict_def b64_val_def)

lemma b64_quads_zero: "\<forall>c \<in> set bs. c = CHR 0x00 \<Longrightarrow> set (b64_quads bs) \<subseteq> {CHR ''A''}"
  by (induction bs rule: b64_quads.induct) (auto simp: b64_char_def char_of_eq_iff take_bit_eq_mod)

lemma demo_signature_chars: "set demo_signature \<subseteq> {CHR ''A'', pad_char}"
  using b64_quads_zero [of "replicate 64 (CHR 0x00)"]
  by (auto simp: demo_signature_def urlsafe_b64encode_def b64_padding_def)

lemma b64_quads_length: "length (b64_quads bs) \<le> 2 * length bs"
proof (induction bs rule: b64_quads.induct)
  case (4 a b c rest)
  then have "length (b64_quads rest) \<le> 2 * length rest" by simp
  then show ?case by (simp add: Let_def)
qed (auto simp: Let_def)

lemma demo_signature_length: "length demo_signature \<le> 256"
proof -
  have "length (b64_padding n) \<le> 3" for n
    by (simp add: b64_padding_def)
  from this [of "length (b64_quads (replicate 64 (CHR 0x00)))"] show ?thesis
    using b64_quads_length [of "replicate 64 (CHR 0x00)"]
    by (simp add: demo_signature_def urlsafe_b64encode_def del: b64_quads.simps)
qed

lemma dropWhile_none: "\<forall>c \<in> set s. \<not> p c \<Longrightarrow> dropWhile p s = s"
  by (cases s) auto

lemma demo_signature_ok: "signature_ok (\<lambda>_ _ _. True) m demo_signature"
proof -
  have sp: "\<not> is_space c \<and> (of_char c :: nat) < 128 \<and> c \<noteq> CHR ''-'' \<and> c \<noteq> CHR ''_''" if "c \<in> set demo_signature" for c
    using demo_signature_chars that by (auto simp: is_space_def char_in_def)
  have "strip demo_signature = demo_signature"
    using sp by (simp add: strip_def dropWhile_none)
  moreover have "b64decode_std demo_signature = Some (replicate 64 (CHR 0x00))"
    using sp b64decode_encode [of "replicate 64 (CHR 0x00)"] by (auto simp: b64decode_std_def demo_signature_def urlsafe_b64encode_def)
  moreover have "is_ascii demo_signature" using sp by (simp add: is_ascii_def list_all_iff)
  ultimately show ?thesis using demo_key by (auto simp: signature_ok_def)
qed

lemma demo_manifest_package:
  "strict_tree demo_manifest = Some demo_manifest"
  "manifest_package demo_manifest = Some (package_prefix @ demo_version @ ''.zip'', replicate 64 (CHR ''a''), 3)"
proof -
  have "path_name (package_prefix @ demo_version @ ''.zip'') = package_prefix @ demo_version @ ''.zip''"
    "version_re demo_version" "startswith (package_prefix @ demo_version @ ''.zip'') package_prefix"
    "endswith (package_prefix @ demo_version @ ''.zip'') ''.zip''"
    by code_simp+
  then show "manifest_package demo_manifest = Some (package_prefix @ demo_version @ ''.zip'', replicate 64 (CHR ''a''), 3)"
    by (simp add: demo_manifest_def manifest_package_def package_ok_def lower_hex_def WINDOWS_PACKAGE_MAX_BYTES_def
        list_all_iff is_digit_def char_in_def)
qed (simp add: demo_manifest_def)

theorem windows_package_signed_witness:
  "\<exists>chunks. windows_edge_versioned_package (\<lambda>_. replicate 64 (CHR ''a'')) (\<lambda>_ _ _. True) (\<lambda>_. Some demo_manifest) demo_fs
       (package_prefix @ demo_version @ ''.zip'') = Inr chunks \<and> concat chunks = ''zip''"
proof -
  let ?name = "package_prefix @ demo_version @ ''.zip''"
  have paths: "MANIFEST_PATH \<noteq> SIGNATURE_PATH" "release_dir @ ?name \<noteq> MANIFEST_PATH" "release_dir @ ?name \<noteq> SIGNATURE_PATH"
    by code_simp+
  have reads: "read_small_regular_file demo_fs MANIFEST_PATH 4096 = Some ''m''"
    "read_small_regular_file demo_fs SIGNATURE_PATH 256 = Some demo_signature"
    using demo_signature_length paths by (simp_all add: read_small_regular_file_def demo_fs_def)
  obtain chunks where run: "windows_edge_versioned_package (\<lambda>_. replicate 64 (CHR ''a'')) (\<lambda>_ _ _. True)
      (\<lambda>_. Some demo_manifest) demo_fs ?name = Inr chunks"
    using reads paths demo_signature_ok [of "''m''"] demo_manifest_package
    by (simp add: windows_edge_versioned_package_def verified_windows_release_def open_verified_windows_package_def
        is_ascii_def demo_fs_def WINDOWS_PACKAGE_MAX_BYTES_def del: append_assoc)
  from windows_package_signed [OF run] run paths show ?thesis by (auto simp: demo_fs_def)
qed
end
