(* ===== verification/Enrollment.thy ===== *)
theory Enrollment
  imports Prelude Control_Model Urls Edge_Nodes Releases
begin

text \<open>
  Enrollment of an edge node by token (\<open>cloudbrowser/app.py\<close>): an administrator creates a node with a
  token, the installer claims it once, reports its progress with a second token, and the administrator
  can revoke or renew it. Registration, where the node asks first, is in \<open>Registration\<close>.

  \<open>hash\<close> is SHA-256 in hexadecimal, \<open>package\<close> the verification of the package of a platform
  (\<open>verified_edge_package\<close>). The claim updates its row on the condition that it is still pending with
  the token it read; \<open>other\<close> is what other transactions commit between the reading and that statement.
  \<open>hmac.compare_digest\<close> on two texts raises when one of them is not ASCII.
\<close>

section \<open>Where a request comes from\<close>

record source_request =
  sr_client :: "string option"
  sr_forwarded_for :: string

definition trusted_claim_source ::
  "(source_request \<Rightarrow> string option) option \<Rightarrow> source_request \<Rightarrow> string option" where
  "trusted_claim_source enrollment_source_ip rq =
     (let candidate =
            (case enrollment_source_ip of
               Some f \<Rightarrow> f rq
             | None \<Rightarrow>
                 (case sr_client rq of
                    None \<Rightarrow> None
                  | Some host \<Rightarrow>
                      (case (if host = [] then None else ip_address host) of
                         Some peer \<Rightarrow>
                           if is_loopback peer then
                             (let forwarded = strip (fst (partition_char (CHR '','') (sr_forwarded_for rq))) in
                              if forwarded = [] then Some host else Some forwarded)
                           else Some host
                       | None \<Rightarrow> Some host)))
      in case candidate of
           None \<Rightarrow> None
         | Some c \<Rightarrow>
             if c = [] then None
             else (case ip_address c of
                     None \<Rightarrow> None
                   | Some a \<Rightarrow> if is_loopback a then None else Some (ip_str a)))"

text \<open>\<open>hmac.compare_digest\<close>: \<open>None\<close> is the \<open>TypeError\<close>.\<close>

definition compare_digest :: "string \<Rightarrow> string \<Rightarrow> bool option" where
  "compare_digest a b = (if is_ascii a \<and> is_ascii b then Some (a = b) else None)"

text \<open>The comparison of the trusted source with an address, false when the source is unknown.\<close>

definition source_matches :: "string option \<Rightarrow> string \<Rightarrow> bool option" where
  "source_matches source address = (case source of None \<Rightarrow> Some False | Some s \<Rightarrow> compare_digest s address)"

text \<open>\<open>" ".join(text.replace("\0", " ").split())[:500]\<close>.\<close>

definition clean_text :: "string \<Rightarrow> string" where
  "clean_text s =
     take 500 (join_char (CHR '' '') (split_space (map (\<lambda>c. if c = CHR 0x00 then CHR '' '' else c) s)))"

section \<open>The token and the command\<close>

definition shell_safe :: "char \<Rightarrow> bool" where
  "shell_safe c \<longleftrightarrow> is_alnum c \<or> c \<in> set ''_@%+=:,./-''"

definition shlex_quote :: "string \<Rightarrow> string" where
  "shlex_quote s =
     (let q = CHR 0x27; dq = CHR 0x22 in
      if s = [] then [q, q]
      else if list_all shell_safe s then s
      else [q] @ concat (map (\<lambda>c. if c = q then [q, dq, q, dq, q] else [c]) s) @ [q])"

definition install_origin :: "string option \<Rightarrow> string" where
  "install_origin public_origin =
     rstrip_char (CHR ''/'')
       (case public_origin of None \<Rightarrow> ''https://api.example.com''
        | Some origin \<Rightarrow> if origin = [] then ''https://api.example.com'' else origin)"

definition install_command :: "string option \<Rightarrow> string \<Rightarrow> string \<Rightarrow> string" where
  "install_command public_origin node_name raw =
     (let origin = install_origin public_origin; q = CHR 0x27; dq = CHR 0x22 in
      ''p=$(mktemp) && trap '' @ [q] @ ''rm -f '' @ [dq] @ ''$p'' @ [dq, q] @ '' EXIT && curl --proto '' @ [q] @ ''=https'' @ [q] @
      '' --tlsv1.2 -fsS '' @ shlex_quote (origin @ ''/install-edge.sh'') @ '' -o '' @ [dq] @ ''$p'' @ [dq] @ '' && sudo bash '' @
      [dq] @ ''$p'' @ [dq] @ '' --server '' @ shlex_quote origin @ '' --node-name '' @ shlex_quote node_name @
      '' --token '' @ shlex_quote raw)"

definition enrollment_raw :: "string \<Rightarrow> string \<Rightarrow> string" where
  "enrollment_raw item_id fresh = item_id @ dot # fresh"

section \<open>Rows\<close>

definition update_enrollment :: "string \<Rightarrow> (node_enrollment \<Rightarrow> node_enrollment) \<Rightarrow> db \<Rightarrow> db" where
  "update_enrollment i f d = d\<lparr>enrollments := update_where (\<lambda>e. en_id e = i) f (enrollments d)\<rparr>"

definition update_node :: "int \<Rightarrow> (edge_node \<Rightarrow> edge_node) \<Rightarrow> db \<Rightarrow> db" where
  "update_node i f d = d\<lparr>nodes := update_where (\<lambda>n. nd_id n = i) f (nodes d)\<rparr>"

text \<open>The partial unique index \<open>uq_active_node_enrollment\<close>.\<close>

definition enrollment_live :: "node_enrollment \<Rightarrow> bool" where
  "enrollment_live e \<longleftrightarrow> en_status e \<in> {''pending'', ''claimed'', ''installing'', ''ready''}"

definition enrollment_clash :: "node_enrollment \<Rightarrow> node_enrollment list \<Rightarrow> bool" where
  "enrollment_clash e t \<longleftrightarrow>
     enrollment_live e \<and>
     list_ex (\<lambda>x. en_id x \<noteq> en_id e \<and> en_edge_node_id x = en_edge_node_id e \<and> enrollment_live x) t"

text \<open>The two partial unique indexes of registrations, on the machine and on the key.\<close>

definition registration_live :: "registration_request \<Rightarrow> bool" where
  "registration_live r \<longleftrightarrow>
     rg_status r \<in> {''pending_proof'', ''pending_approval'', ''approved'', ''installing'', ''ready''}"

definition registration_clash :: "registration_request \<Rightarrow> registration_request list \<Rightarrow> bool" where
  "registration_clash r t \<longleftrightarrow>
     registration_live r \<and>
     list_ex (\<lambda>x. rg_id x \<noteq> rg_id r \<and> registration_live x \<and>
                (rg_machine_fingerprint x = rg_machine_fingerprint r \<or>
                 rg_public_key_fingerprint x = rg_public_key_fingerprint r)) t"

text \<open>A pending enrollment past its time is marked expired as it is read.\<close>

definition expire_pending :: "instant \<Rightarrow> node_enrollment \<Rightarrow> node_enrollment" where
  "expire_pending now e =
     (if en_status e = ''pending'' \<and> en_expires_at e \<le> now
      then e\<lparr>en_status := ''expired'', en_updated_at := now\<rparr> else e)"

definition enrollment_details :: "node_enrollment \<Rightarrow> edge_node \<Rightarrow> details" where
  "enrollment_details e n =
     [(''id'', VStr (en_id e)), (''edge_node_id'', VInt (en_edge_node_id e)), (''node_name'', VStr (nd_name n)),
      (''endpoint'', VStr (nd_endpoint n)), (''expected_public_ipv4'', opt_val VStr (nd_expected_public_ipv4 n)),
      (''status'', VStr (en_status e)), (''phase'', opt_val VStr (en_phase e)),
      (''expires_at'', VTime (en_expires_at e)), (''claimed_at'', opt_val VTime (en_claimed_at e)),
      (''updated_at'', VTime (en_updated_at e)), (''last_error'', opt_val VStr (en_last_error e)),
      (''claimed_public_ipv4'', opt_val VStr (en_claimed_public_ipv4 e)),
      (''agent_version'', opt_val VStr (en_agent_version e))]"

definition serialize_enrollment :: "instant \<Rightarrow> db \<Rightarrow> node_enrollment \<Rightarrow> (http_error + details) \<times> node_enrollment" where
  "serialize_enrollment now d e =
     (let e' = expire_pending now e in
      case get_node d (en_edge_node_id e) of
        None \<Rightarrow> (Inl Server_error, e')
      | Some n \<Rightarrow> (Inr (enrollment_details e' n), e'))"

section \<open>Handlers of the administrator\<close>

record enrollment_create_body =
  eb_node_name :: string
  eb_endpoint :: string
  eb_expected_public_ipv4 :: string

text \<open>The row is serialized after the commit, on a later clock reading; the response alone shows what
  that reading makes of it.\<close>

definition issued :: "string option \<Rightarrow> instant \<Rightarrow> string \<Rightarrow> node_enrollment \<Rightarrow> edge_node \<Rightarrow> details" where
  "issued public_origin now raw e n =
     enrollment_details (expire_pending now e) n @
     [(''enrollment_token'', VStr raw), (''install_command'', VStr (install_command public_origin (nd_name n) raw))]"

definition create_edge_enrollment ::
  "(string \<Rightarrow> string) \<Rightarrow> string option \<Rightarrow> clock \<Rightarrow> string \<Rightarrow> string \<Rightarrow> string \<Rightarrow> user \<Rightarrow> enrollment_create_body \<Rightarrow> db \<Rightarrow>
   details result" where
  "create_edge_enrollment hash public_origin clk secret uuid fresh actor body d =
     (case network_error (validate_edge_node_network (Some (eb_endpoint body)) (Some (eb_expected_public_ipv4 body))) of
        Some e \<Rightarrow> (Inl e, d)
      | None \<Rightarrow>
          if node_exists (eb_node_name body) (eb_endpoint body) d then fail 409 ''Edge node already exists'' d
          else
            (let n = new_edge_node (next_id nd_id (nodes d)) (eb_node_name body) (eb_endpoint body) secret ''linux''
                       False False ''disabled'' (Some (eb_expected_public_ipv4 body)) None (clk 0);
                 raw = enrollment_raw uuid fresh;
                 e = \<lparr>en_id = uuid, en_edge_node_id = nd_id n, en_created_by_user_id = us_id actor,
                      en_token_hash = hash raw, en_report_token_hash = None, en_status = ''pending'', en_phase = None,
                      en_expires_at = clk 1 + minutes 15, en_claimed_at = None, en_updated_at = clk 2,
                      en_last_error = None, en_claimed_public_ipv4 = None, en_agent_version = None\<rparr>
             in if list_ex (\<lambda>x. en_id x = uuid \<or> (en_edge_node_id x = nd_id n \<and> enrollment_live x)) (enrollments d)
                then fail 409 ''Edge enrollment already exists'' d
                else
                  (Inr (issued public_origin (clk 4) raw e n),
                   audit ''edge_enrollment.created'' (Some (us_id actor)) (Some ''node_enrollment'') (Some uuid) [] (clk 3)
                     (d\<lparr>nodes := nodes d @ [n], enrollments := enrollments d @ [e]\<rparr>))))"

text \<open>The list: every row is expired as needed, and a row whose node is gone makes the request fail.\<close>

fun serialize_all :: "clock \<Rightarrow> nat \<Rightarrow> db \<Rightarrow> node_enrollment list \<Rightarrow> details list option \<times> node_enrollment list" where
  "serialize_all clk i d [] = (Some [], [])"
| "serialize_all clk i d (e # es) =
     (case (serialize_enrollment (clk i) d e, serialize_all clk (Suc i) d es) of
        ((Inr r, e'), (Some rs, es')) \<Rightarrow> (Some (r # rs), e' # es')
      | ((_, e'), (_, es')) \<Rightarrow> (None, e' # es'))"

definition list_edge_enrollments :: "clock \<Rightarrow> db \<Rightarrow> details list result" where
  "list_edge_enrollments clk d =
     (case serialize_all clk 0 d (rev (sort_key en_updated_at (enrollments d))) of
        (None, _) \<Rightarrow> (Inl Server_error, d)
      | (Some rs, es) \<Rightarrow>
          (Inr rs, d\<lparr>enrollments := map (\<lambda>e. case find_row (\<lambda>x. en_id x = en_id e) es of
                                              None \<Rightarrow> e | Some e' \<Rightarrow> e') (enrollments d)\<rparr>))"

definition revoke_edge_enrollment ::
  "(string \<Rightarrow> string) \<Rightarrow> clock \<Rightarrow> string \<Rightarrow> user \<Rightarrow> string \<Rightarrow> db \<Rightarrow> details result" where
  "revoke_edge_enrollment hash clk fresh actor enrollment_id d =
     (case get_enrollment d enrollment_id of
        None \<Rightarrow> fail 409 ''Enrollment cannot be revoked'' d
      | Some e \<Rightarrow>
          if en_status e \<in> {''revoked'', ''online''} then fail 409 ''Enrollment cannot be revoked'' d
          else
            (let e' = e\<lparr>en_status := ''revoked'', en_token_hash := hash fresh, en_report_token_hash := None,
                        en_updated_at := clk 0\<rparr>
             in case get_node d (en_edge_node_id e) of
                  None \<Rightarrow> (Inl Server_error, d)
                | Some n \<Rightarrow>
                    (let n' = n\<lparr>nd_enabled := False, nd_health_status := ''disabled''\<rparr> in
                     (Inr (enrollment_details e' n'),
                      audit ''edge_enrollment.revoked'' (Some (us_id actor)) (Some ''node_enrollment'') (Some (en_id e)) []
                        (clk 1)
                        (update_node (nd_id n) (\<lambda>_. n') (update_enrollment (en_id e) (\<lambda>_. e') d))))))"

definition regenerate_edge_enrollment ::
  "(string \<Rightarrow> string) \<Rightarrow> string option \<Rightarrow> clock \<Rightarrow> string \<Rightarrow> user \<Rightarrow> string \<Rightarrow> db \<Rightarrow> details result" where
  "regenerate_edge_enrollment hash public_origin clk fresh actor enrollment_id d =
     (case get_enrollment d enrollment_id of
        None \<Rightarrow> fail 409 ''Enrollment cannot be regenerated'' d
      | Some e \<Rightarrow>
          if en_status e \<notin> {''pending'', ''expired'', ''revoked''} then fail 409 ''Enrollment cannot be regenerated'' d
          else
            (case get_node d (en_edge_node_id e) of
               None \<Rightarrow> (Inl Server_error, d)
             | Some n \<Rightarrow>
                 (let raw = enrollment_raw (en_id e) fresh;
                      e' = e\<lparr>en_status := ''pending'', en_phase := None, en_claimed_at := None,
                             en_claimed_public_ipv4 := None, en_agent_version := None, en_last_error := None,
                             en_report_token_hash := None, en_expires_at := clk 0 + minutes 15, en_updated_at := clk 1,
                             en_token_hash := hash raw\<rparr>;
                      d1 = update_enrollment (en_id e) (\<lambda>_. e') d
                  in if enrollment_clash e' (enrollments d) then (Inl Server_error, d)
                     else
                       (Inr (issued public_origin (clk 3) raw e' n),
                        audit ''edge_enrollment.regenerated'' (Some (us_id actor)) (Some ''node_enrollment'')
                          (Some (en_id e)) [] (clk 2) d1))))"

section \<open>Handlers of the installer\<close>

abbreviation invalid_enrollment :: http_error where
  "invalid_enrollment \<equiv> Http 401 ''Invalid or expired enrollment''"

record enrollment_claim_body =
  ec_node_name :: string
  ec_public_ipv4 :: string
  ec_agent_version :: string

text \<open>The token of an \<open>Authorization\<close> header: the identifier before the first full stop and the whole
  token.\<close>

definition token_of_header :: "string \<Rightarrow> nat \<Rightarrow> string option \<Rightarrow> (string \<times> string) option" where
  "token_of_header scheme limit authorization =
     (case authorization of
        None \<Rightarrow> None
      | Some h \<Rightarrow>
          if \<not> startswith h scheme then None
          else
            (let raw = drop (length scheme) h in
             case partition_char dot raw of
               (token_id, separator, secret) \<Rightarrow>
                 if \<not> separator \<or> secret = [] \<or> limit < length raw then None else Some (token_id, raw)))"

definition resources :: details where
  "resources =
     [(''max_connections'', VInt 256), (''max_frame_bytes'', VInt 1048576), (''max_bytes'', VInt 2147483648),
      (''idle_timeout'', VInt 300), (''max_duration'', VInt 28800), (''connect_timeout'', VInt 10),
      (''ticket_max_ttl'', VInt 60)]"

definition node_domain :: "edge_node \<Rightarrow> val option" where
  "node_domain n = map_option (\<lambda>p. opt_val VStr (url_hostname p)) (urlsplit (nd_endpoint n))"

text \<open>Every comparison of the tuple is evaluated; one that raises makes the request fail.\<close>

definition claim_valid ::
  "(string \<Rightarrow> string) \<Rightarrow> instant \<Rightarrow> string option \<Rightarrow> string \<Rightarrow> enrollment_claim_body \<Rightarrow> node_enrollment \<Rightarrow> edge_node \<Rightarrow> bool option" where
  "claim_valid hash now source raw body e n =
     (case (compare_digest (hash raw) (en_token_hash e), compare_digest (ec_node_name body) (nd_name n),
            compare_digest (ec_public_ipv4 body) (case nd_expected_public_ipv4 n of None \<Rightarrow> [] | Some x \<Rightarrow> x),
            (case source of None \<Rightarrow> Some True | Some s \<Rightarrow> compare_digest s (ec_public_ipv4 body))) of
        (Some a, Some b, Some c, Some s) \<Rightarrow>
          Some (a \<and> en_status e = ''pending'' \<and> en_claimed_at e = None \<and> now < en_expires_at e \<and> b \<and> c \<and> s \<and>
                (case ip_address (ec_public_ipv4 body) of None \<Rightarrow> False | Some x \<Rightarrow> is_ipv4 x \<and> is_global x))
      | _ \<Rightarrow> None)"

definition claim_where :: "node_enrollment \<Rightarrow> node_enrollment \<Rightarrow> bool" where
  "claim_where item e \<longleftrightarrow>
     en_id e = en_id item \<and> en_status e = ''pending'' \<and> en_claimed_at e = None \<and> en_token_hash e = en_token_hash item"

definition claimed :: "(string \<Rightarrow> string) \<Rightarrow> instant \<Rightarrow> string \<Rightarrow> enrollment_claim_body \<Rightarrow> node_enrollment \<Rightarrow> node_enrollment" where
  "claimed hash now fresh body e =
     e\<lparr>en_status := ''claimed'', en_claimed_at := Some now, en_updated_at := now,
       en_claimed_public_ipv4 := Some (ec_public_ipv4 body), en_agent_version := Some (ec_agent_version body),
       en_expires_at := now + minutes 30, en_token_hash := hash fresh\<rparr>"

definition claim_response :: "string option \<Rightarrow> edge_node \<Rightarrow> val \<Rightarrow> string \<times> string \<Rightarrow> string \<Rightarrow> details" where
  "claim_response public_origin n domain pkg report_token =
     [(''node_id'', VInt (nd_id n)), (''node_name'', VStr (nd_name n)), (''domain'', domain),
      (''edge_ticket_secret'', VStr (nd_shared_secret n)), (''resources'', VObj resources),
      (''package_url'', VStr (install_origin public_origin @ snd pkg)), (''package_sha256'', VStr (fst pkg)),
      (''report_token'', VStr report_token)]"

definition claim_edge_enrollment ::
  "(string \<Rightarrow> string) \<Rightarrow> (string \<Rightarrow> http_error + string \<times> string) \<Rightarrow> string option \<Rightarrow> clock \<Rightarrow> string \<Rightarrow> string \<Rightarrow>
   (db \<Rightarrow> db) \<Rightarrow> string option \<Rightarrow> string option \<Rightarrow> enrollment_claim_body \<Rightarrow> db \<Rightarrow> details result" where
  "claim_edge_enrollment hash package public_origin clk fresh report other source authorization body d =
     (case token_of_header ''Enrollment '' 200 authorization of
        None \<Rightarrow> (Inl invalid_enrollment, d)
      | Some (token_id, raw) \<Rightarrow>
          if 64 < length token_id then (Inl invalid_enrollment, d)
          else
            (case get_enrollment d token_id of
               None \<Rightarrow> (Inl invalid_enrollment, d)
             | Some e \<Rightarrow>
                 (case get_node d (en_edge_node_id e) of
                    None \<Rightarrow> (Inl Server_error, d)
                  | Some n \<Rightarrow>
                      (case claim_valid hash (clk 0) source raw body e n of
                         None \<Rightarrow> (Inl Server_error, d)
                       | Some False \<Rightarrow>
                           (Inl invalid_enrollment,
                            if en_status e = ''pending'' \<and> en_expires_at e \<le> clk 0
                            then update_enrollment (en_id e) (\<lambda>_. expire_pending (clk 0) e) d else d)
                       | Some True \<Rightarrow>
                           (case package (nd_platform n) of
                              Inl x \<Rightarrow> (Inl x, d)
                            | Inr pkg \<Rightarrow>
                                (let w = other d in
                                 if count_where (claim_where e) (enrollments w) \<noteq> 1 then (Inl invalid_enrollment, w)
                                 else
                                   (let token = enrollment_raw (en_id e) report;
                                        d1 = w\<lparr>enrollments :=
                                               update_where (\<lambda>x. en_id x = en_id e)
                                                 (\<lambda>x. x\<lparr>en_report_token_hash := Some (hash token)\<rparr>)
                                                 (update_where (claim_where e) (claimed hash (clk 0) fresh body)
                                                    (enrollments w))\<rparr>
                                    in case node_domain n of
                                         None \<Rightarrow> (Inl Server_error, d1)
                                       | Some domain \<Rightarrow> (Inr (claim_response public_origin n domain pkg token), d1))))))))"

record enrollment_report_body =
  er_phase :: string
  er_error :: "string option"

definition report_status :: "string \<Rightarrow> string" where
  "report_status phase =
     (if phase = ''failed'' then ''failed'' else if phase = ''ready'' then ''ready'' else ''installing'')"

text \<open>The registration the node came from follows its enrollment; the second component is a violation of
  its unique indexes.\<close>

definition report_registration :: "instant \<Rightarrow> int \<Rightarrow> string \<Rightarrow> string option \<Rightarrow> db \<Rightarrow> db \<times> bool" where
  "report_registration now node_id status last_error d =
     (case find_row (\<lambda>r. rg_edge_node_id r = Some node_id) (registrations d) of
        None \<Rightarrow> (d, False)
      | Some r \<Rightarrow>
          (let r' = r\<lparr>rg_status := status, rg_updated_at := now, rg_last_error := last_error\<rparr> in
           (d\<lparr>registrations := update_where (\<lambda>x. rg_id x = rg_id r) (\<lambda>_. r') (registrations d)\<rparr>,
            registration_clash r' (registrations d))))"

definition report_edge_enrollment ::
  "(string \<Rightarrow> string) \<Rightarrow> clock \<Rightarrow> string option \<Rightarrow> enrollment_report_body \<Rightarrow> db \<Rightarrow> details result" where
  "report_edge_enrollment hash clk authorization body d =
     (case token_of_header ''Report '' 200 authorization of
        None \<Rightarrow> (Inl invalid_enrollment, d)
      | Some (token_id, raw) \<Rightarrow>
          (case get_enrollment d token_id of
             None \<Rightarrow> (Inl invalid_enrollment, d)
           | Some e \<Rightarrow>
               if (case en_report_token_hash e of None \<Rightarrow> True | Some h \<Rightarrow> h = [] \<or> hash raw \<noteq> h) \<or>
                  en_status e \<in> {''revoked'', ''expired'', ''online''} \<or> en_expires_at e \<le> clk 0
               then (Inl invalid_enrollment, d)
               else
                 (let clean_error = (case er_error body of None \<Rightarrow> None
                        | Some x \<Rightarrow> if x = [] then None else Some (clean_text x));
                      e' = e\<lparr>en_phase := Some (er_phase body), en_updated_at := clk 0,
                             en_last_error := (if er_phase body = ''failed'' then clean_error else None),
                             en_status := report_status (er_phase body)\<rparr>;
                      d1 = update_enrollment (en_id e) (\<lambda>_. e') d
                  in if er_phase body = ''ready'' \<and> get_node d (en_edge_node_id e) = None then (Inl Server_error, d)
                     else
                       (let d2 = (if er_phase body = ''ready''
                                  then update_node (en_edge_node_id e)
                                         (\<lambda>n. n\<lparr>nd_enabled := True, nd_health_status := ''unknown'', nd_last_error := None\<rparr>) d1
                                  else d1);
                            (d3, clash) = report_registration (clk 0) (en_edge_node_id e) (en_status e') (en_last_error e') d2
                        in if clash \<or> enrollment_clash e' (enrollments d) then (Inl Server_error, d)
                           else (Inr [(''status'', VStr (en_status e')), (''phase'', opt_val VStr (en_phase e'))], d3)))))"

section \<open>What each handler does to the tables\<close>

lemma token_of_header_eq:
  "token_of_header scheme limit (Some (scheme @ raw)) =
     (case partition_char dot raw of
        (i, found, s) \<Rightarrow> if \<not> found \<or> s = [] \<or> limit < length raw then None else Some (i, raw))"
  by (simp add: token_of_header_def)

lemma token_of_header_Some:
  assumes "token_of_header scheme limit (Some (scheme @ raw)) = Some (i, raw')"
  shows "raw' = raw \<and> i = fst (partition_char dot raw)"
  using assms by (auto simp: token_of_header_eq split: prod.splits if_splits)

lemma compare_digest_True [simp]: "compare_digest a b = Some True \<longleftrightarrow> is_ascii a \<and> is_ascii b \<and> a = b"
  by (auto simp: compare_digest_def)

lemma claim_valid_True:
  assumes "claim_valid hash now source raw body e n = Some True"
  shows "hash raw = en_token_hash e \<and> en_status e = ''pending'' \<and> en_claimed_at e = None \<and> now < en_expires_at e \<and>
    ec_node_name body = nd_name n \<and> nd_expected_public_ipv4 n = Some (ec_public_ipv4 body) \<and>
    (\<exists>a. ip_address (ec_public_ipv4 body) = Some (V4 a) \<and> is_global (V4 a)) \<and>
    (\<forall>s. source = Some s \<longrightarrow> s = ec_public_ipv4 body)"
proof -
  have none: "ip_address [] = None" by code_simp
  from assms have
    *: "compare_digest (hash raw) (en_token_hash e) = Some True" "compare_digest (ec_node_name body) (nd_name n) = Some True"
    "compare_digest (ec_public_ipv4 body) (case nd_expected_public_ipv4 n of None \<Rightarrow> [] | Some x \<Rightarrow> x) = Some True"
    "(case source of None \<Rightarrow> Some True | Some s \<Rightarrow> compare_digest s (ec_public_ipv4 body)) = Some True"
    "en_status e = ''pending''" "en_claimed_at e = None" "now < en_expires_at e"
    and a: "case ip_address (ec_public_ipv4 body) of None \<Rightarrow> False | Some x \<Rightarrow> is_ipv4 x \<and> is_global x"
    unfolding claim_valid_def by (auto simp del: compare_digest_True is_global.simps split: option.splits prod.splits)
  from a obtain m where "ip_address (ec_public_ipv4 body) = Some (V4 m)" "is_global (V4 m)"
    by (auto simp del: is_global.simps split: option.splits elim: is_ipv4.elims)
  with * none show ?thesis by (auto simp del: is_global.simps split: option.splits)
qed

lemma claim_Inr:
  assumes "claim_edge_enrollment hash package po clk fresh report other source (Some (''Enrollment '' @ raw)) body d = (Inr resp, d')"
  obtains e n pkg domain where "get_enrollment d (fst (partition_char dot raw)) = Some e"
    "get_node d (en_edge_node_id e) = Some n" "claim_valid hash (clk 0) source raw body e n = Some True"
    "package (nd_platform n) = Inr pkg" "count_where (claim_where e) (enrollments (other d)) = 1"
    "d' = (other d)\<lparr>enrollments := update_where (\<lambda>x. en_id x = en_id e)
              (\<lambda>x. x\<lparr>en_report_token_hash := Some (hash (enrollment_raw (en_id e) report))\<rparr>)
              (update_where (claim_where e) (claimed hash (clk 0) fresh body) (enrollments (other d)))\<rparr>"
    "resp = claim_response po n domain pkg (enrollment_raw (en_id e) report)"
proof -
  from assms obtain i raw' where h: "token_of_header ''Enrollment '' 200 (Some (''Enrollment '' @ raw)) = Some (i, raw')"
    by (auto simp: claim_edge_enrollment_def split: option.splits)
  with token_of_header_Some [OF h] have i: "raw' = raw" "i = fst (partition_char dot raw)" by auto
  from assms show ?thesis
    unfolding claim_edge_enrollment_def h
    by (auto simp: Let_def i split: option.split_asm if_split_asm bool.split_asm sum.split_asm intro: that)
qed

lemma report_Inr:
  assumes "report_edge_enrollment hash clk (Some (''Report '' @ raw)) body d = (Inr resp, d')"
  obtains e where "get_enrollment d (fst (partition_char dot raw)) = Some e"
    "en_report_token_hash e = Some (hash raw)" "en_status e \<notin> {''revoked'', ''expired'', ''online''}"
    "clk 0 < en_expires_at e"
proof -
  from assms obtain i raw' where h: "token_of_header ''Report '' 200 (Some (''Report '' @ raw)) = Some (i, raw')"
    by (auto simp: report_edge_enrollment_def split: option.splits)
  with token_of_header_Some [OF h] have i: "raw' = raw" "i = fst (partition_char dot raw)" by auto
  from assms obtain e where e: "get_enrollment d (fst (partition_char dot raw)) = Some e"
    unfolding report_edge_enrollment_def h by (auto simp: i split: option.split_asm)
  with assms show ?thesis
    unfolding report_edge_enrollment_def h
    by (intro that [of e]) (auto simp: Let_def i split: if_split_asm option.split_asm)
qed

lemma claimed_fields [simp]:
  "en_id (claimed hash now fresh body e) = en_id e" "en_status (claimed hash now fresh body e) = ''claimed''"
  "en_token_hash (claimed hash now fresh body e) = hash fresh"
  "en_edge_node_id (claimed hash now fresh body e) = en_edge_node_id e"
  by (simp_all add: claimed_def)

lemma claim_pending:
  assumes "claim_edge_enrollment hash package po clk fresh report other source (Some (''Enrollment '' @ raw)) body d = (Inr resp, d')"
  shows "\<exists>e. get_enrollment d (fst (partition_char dot raw)) = Some e \<and> en_status e = ''pending''"
  using assms by (rule claim_Inr) (use claim_valid_True in blast)

lemma report_not_revoked:
  assumes "report_edge_enrollment hash clk (Some (''Report '' @ raw)) body d = (Inr resp, d')"
  shows "\<exists>e. get_enrollment d (fst (partition_char dot raw)) = Some e \<and> en_status e \<noteq> ''revoked''"
  using assms by (rule report_Inr) auto

text \<open>The row a claim consumed.\<close>

lemma claim_consumed:
  assumes "claim_edge_enrollment hash package po clk fresh report other source (Some (''Enrollment '' @ raw)) body d = (Inr resp, d')"
    and "unique_on en_id (enrollments (other d))"
  obtains e where "get_enrollment d (fst (partition_char dot raw)) = Some e" "en_id e = fst (partition_char dot raw)"
    "en_token_hash e = hash raw"
    "\<And>x. x \<in> set (enrollments d') \<Longrightarrow> en_id x = en_id e \<Longrightarrow> en_status x = ''claimed'' \<and> en_token_hash x = hash fresh"
proof -
  from assms(1) obtain e n pkg domain where c: "get_enrollment d (fst (partition_char dot raw)) = Some e"
    "claim_valid hash (clk 0) source raw body e n = Some True"
    "count_where (claim_where e) (enrollments (other d)) = 1"
    "d' = (other d)\<lparr>enrollments := update_where (\<lambda>x. en_id x = en_id e)
              (\<lambda>x. x\<lparr>en_report_token_hash := Some (hash (enrollment_raw (en_id e) report))\<rparr>)
              (update_where (claim_where e) (claimed hash (clk 0) fresh body) (enrollments (other d)))\<rparr>"
    by (rule claim_Inr)
  obtain y where y: "y \<in> set (enrollments (other d))" "claim_where e y"
    using c(3) count_where_zero [of "claim_where e" "enrollments (other d)"] by auto
  have row: "en_status x = ''claimed'' \<and> en_token_hash x = hash fresh"
    if "x \<in> set (enrollments d')" "en_id x = en_id e" for x
  proof -
    from that c(4) obtain z where z: "z \<in> set (enrollments (other d))"
      "x = (let z' = (if claim_where e z then claimed hash (clk 0) fresh body z else z)
            in if en_id z' = en_id e then z'\<lparr>en_report_token_hash := Some (hash (enrollment_raw (en_id e) report))\<rparr> else z')"
      by (auto simp: update_where_def Let_def)
    with that(2) have "en_id z = en_id e" by (auto simp: Let_def split: if_splits)
    with y z(1) assms(2) have "z = y" by (auto simp: claim_where_def dest: unique_onD)
    with z y that(2) show ?thesis by (auto simp: Let_def split: if_splits)
  qed
  have "en_id e = fst (partition_char dot raw)" using enrollment_table.lookup_Some [OF c(1)] by simp
  moreover have "en_token_hash e = hash raw" using claim_valid_True [OF c(2)] by simp
  ultimately show ?thesis using c(1) row by (intro that [of e]) auto
qed

text \<open>C18. An enrollment token opens one installation. A claim succeeds only for a pending enrollment in
  its time, with its token, for the node's name and its expected public address, a global IPv4
  address the request comes from when the source is known. Afterwards the same token is refused,
  and so is a second claim that had read the enrollment before the first one wrote it.\<close>

theorem enrollment_single_use:
  assumes "claim_edge_enrollment hash package po clk fresh report other source (Some (''Enrollment '' @ raw)) body d = (Inr resp, d')"
    and "unique_on en_id (enrollments (other d))" and "hash fresh \<noteq> hash raw"
  shows "(\<exists>e n a. get_enrollment d (fst (partition_char dot raw)) = Some e \<and> get_node d (en_edge_node_id e) = Some n \<and>
      en_token_hash e = hash raw \<and> en_status e = ''pending'' \<and> clk 0 < en_expires_at e \<and>
      ec_node_name body = nd_name n \<and> nd_expected_public_ipv4 n = Some (ec_public_ipv4 body) \<and>
      ip_address (ec_public_ipv4 body) = Some (V4 a) \<and> is_global (V4 a) \<and>
      (\<forall>s. source = Some s \<longrightarrow> s = ec_public_ipv4 body)) \<and>
    (\<forall>package2 po2 clk2 fresh2 report2 other2 source2 body2 resp2 d2.
      claim_edge_enrollment hash package2 po2 clk2 fresh2 report2 other2 source2 (Some (''Enrollment '' @ raw)) body2 d' \<noteq> (Inr resp2, d2) \<and>
      claim_edge_enrollment hash package2 po2 clk2 fresh2 report2 (\<lambda>_. d') source2 (Some (''Enrollment '' @ raw)) body2 d \<noteq> (Inr resp2, d2))"
proof (intro conjI allI)
  from assms(1) obtain e n pkg domain where c: "get_enrollment d (fst (partition_char dot raw)) = Some e"
    "get_node d (en_edge_node_id e) = Some n" "claim_valid hash (clk 0) source raw body e n = Some True"
    by (rule claim_Inr)
  with claim_valid_True [OF c(3)] show "\<exists>e n a. get_enrollment d (fst (partition_char dot raw)) = Some e \<and> get_node d (en_edge_node_id e) = Some n \<and>
      en_token_hash e = hash raw \<and> en_status e = ''pending'' \<and> clk 0 < en_expires_at e \<and>
      ec_node_name body = nd_name n \<and> nd_expected_public_ipv4 n = Some (ec_public_ipv4 body) \<and>
      ip_address (ec_public_ipv4 body) = Some (V4 a) \<and> is_global (V4 a) \<and>
      (\<forall>s. source = Some s \<longrightarrow> s = ec_public_ipv4 body)" by metis
next
  fix package2 po2 clk2 fresh2 report2 other2 source2 body2 resp2 d2
  obtain e where e: "get_enrollment d (fst (partition_char dot raw)) = Some e" "en_id e = fst (partition_char dot raw)"
    "en_token_hash e = hash raw"
    and row: "\<And>x. x \<in> set (enrollments d') \<Longrightarrow> en_id x = en_id e \<Longrightarrow> en_status x = ''claimed'' \<and> en_token_hash x = hash fresh"
    using claim_consumed [OF assms(1,2)] by blast
  show "claim_edge_enrollment hash package2 po2 clk2 fresh2 report2 other2 source2 (Some (''Enrollment '' @ raw)) body2 d' \<noteq> (Inr resp2, d2)"
  proof
    assume "claim_edge_enrollment hash package2 po2 clk2 fresh2 report2 other2 source2 (Some (''Enrollment '' @ raw)) body2 d' = (Inr resp2, d2)"
    then obtain e2 n2 pkg2 domain2 where "get_enrollment d' (fst (partition_char dot raw)) = Some e2"
      "claim_valid hash (clk2 0) source2 raw body2 e2 n2 = Some True"
      by (rule claim_Inr)
    then show False
      using row [of e2] e(2) claim_valid_True enrollment_table.lookup_Some [of d' "fst (partition_char dot raw)" e2] by fastforce
  qed
  show "claim_edge_enrollment hash package2 po2 clk2 fresh2 report2 (\<lambda>_. d') source2 (Some (''Enrollment '' @ raw)) body2 d \<noteq> (Inr resp2, d2)"
  proof
    assume "claim_edge_enrollment hash package2 po2 clk2 fresh2 report2 (\<lambda>_. d') source2 (Some (''Enrollment '' @ raw)) body2 d = (Inr resp2, d2)"
    then obtain e2 where "get_enrollment d (fst (partition_char dot raw)) = Some e2" "count_where (claim_where e2) (enrollments d') = 1"
      by (rule claim_Inr)
    with e(1) have "count_where (claim_where e) (enrollments d') = 1" by simp
    then obtain x where "x \<in> set (enrollments d')" "claim_where e x"
      using count_where_zero [of "claim_where e" "enrollments d'"] by auto
    with row [of x] show False by (simp add: claim_where_def)
  qed
qed

text \<open>Revoking an enrollment ends it: the node is disabled, and neither an installation token nor a
  report token of that enrollment is accepted until the administrator renews it.\<close>

theorem enrollment_revocation:
  assumes "revoke_edge_enrollment hash clk fresh actor i d = (Inr resp, d')"
  shows "(\<exists>e n. get_enrollment d' i = Some e \<and> en_status e = ''revoked'' \<and>
      get_node d' (en_edge_node_id e) = Some n \<and> \<not> nd_enabled n) \<and>
    (\<forall>raw package po clk2 fresh2 report other source body resp2 d2. fst (partition_char dot raw) = i \<longrightarrow>
      claim_edge_enrollment hash package po clk2 fresh2 report other source (Some (''Enrollment '' @ raw)) body d' \<noteq> (Inr resp2, d2)) \<and>
    (\<forall>raw clk2 body resp2 d2. fst (partition_char dot raw) = i \<longrightarrow>
      report_edge_enrollment hash clk2 (Some (''Report '' @ raw)) body d' \<noteq> (Inr resp2, d2))"
proof -
  let ?f = "\<lambda>e. e\<lparr>en_status := ''revoked'', en_token_hash := hash fresh, en_report_token_hash := None, en_updated_at := clk 0\<rparr>"
  let ?g = "\<lambda>n. n\<lparr>nd_enabled := False, nd_health_status := ''disabled''\<rparr>"
  from assms(1) obtain e n where e: "get_enrollment d i = Some e" and n: "get_node d (en_edge_node_id e) = Some n"
    and d': "enrollments d' = update_where (\<lambda>x. en_id x = en_id e) (\<lambda>_. ?f e) (enrollments d)"
      "nodes d' = update_where (\<lambda>x. nd_id x = nd_id n) (\<lambda>_. ?g n) (nodes d)"
    by (auto simp: revoke_edge_enrollment_def update_enrollment_def update_node_def Let_def split: option.splits if_splits)
  have ids: "en_id e = i" "nd_id n = en_edge_node_id e"
    using enrollment_table.lookup_Some [OF e] get_node_Some [OF n] by auto
  have row: "en_status x = ''revoked''" if "get_enrollment d' i = Some x" for x
    using enrollment_table.lookup_Some [OF that] ids d'(1) by (auto simp: update_where_def split: if_splits)
  have "?f e \<in> set (enrollments d')" using enrollment_table.lookup_Some [OF e] d'(1) by (auto simp: update_where_def)
  then obtain x where x: "get_enrollment d' i = Some x"
    using enrollment_table.lookup_ex [of "?f e" d' i] ids(1) by auto
  with d'(1) have ex: "en_edge_node_id x = en_edge_node_id e"
    using enrollment_table.lookup_Some [OF x] ids by (auto simp: update_where_def split: if_splits)
  have "?g n \<in> set (nodes d')" using get_node_Some [OF n] d'(2) by (auto simp: update_where_def)
  then obtain m where m: "get_node d' (en_edge_node_id e) = Some m"
    using node_table.lookup_ex [of "?g n" d' "en_edge_node_id e"] ids(2) by auto
  then have "\<not> nd_enabled m"
    using get_node_Some [OF m] d'(2) ids(2) by (auto simp: update_where_def split: if_splits)
  with x ex m row [OF x] have "\<exists>e n. get_enrollment d' i = Some e \<and> en_status e = ''revoked'' \<and>
      get_node d' (en_edge_node_id e) = Some n \<and> \<not> nd_enabled n" by auto
  moreover have "claim_edge_enrollment hash package po clk2 fresh2 report other source (Some (''Enrollment '' @ raw)) body d' \<noteq> (Inr resp2, d2)"
    if "fst (partition_char dot raw) = i" for raw package po clk2 fresh2 report other source body resp2 d2
    using row that claim_pending [of hash package po clk2 fresh2 report other source raw body d' resp2 d2] by auto
  moreover have "report_edge_enrollment hash clk2 (Some (''Report '' @ raw)) body d' \<noteq> (Inr resp2, d2)"
    if "fst (partition_char dot raw) = i" for raw clk2 body resp2 d2
    using row that report_not_revoked [of hash clk2 raw body d' resp2 d2] by auto
  ultimately show ?thesis by blast
qed

section \<open>An enrollment and its claim\<close>

definition demo_enrollment :: node_enrollment where
  "demo_enrollment =
     \<lparr>en_id = ''e1'', en_edge_node_id = 5, en_created_by_user_id = 1, en_token_hash = ''e1.s'',
      en_report_token_hash = None, en_status = ''pending'', en_phase = None, en_expires_at = 1000, en_claimed_at = None,
      en_updated_at = 0, en_last_error = None, en_claimed_public_ipv4 = None, en_agent_version = None\<rparr>"

definition demo_claim :: enrollment_claim_body where
  "demo_claim = \<lparr>ec_node_name = ''n5'', ec_public_ipv4 = ''8.8.8.8'', ec_agent_version = ''1''\<rparr>"

definition demo_enroll_db :: db where
  "demo_enroll_db = demo_db\<lparr>enrollments := [demo_enrollment]\<rparr>"

lemma demo_enroll_gets:
  "get_enrollment demo_enroll_db ''e1'' = Some demo_enrollment" "get_node demo_enroll_db 5 = Some (demo_node 5 ''n5'')"
  by (simp_all add: demo_enroll_db_def get_enrollment_def demo_enrollment_def get_node_def demo_db_def demo_node_def)

lemma demo_node_domain: "node_domain (demo_node 5 ''n5'') = Some (VStr ''n5'')"
proof -
  have "plain_host ''n5''" by (simp add: plain_host_def is_lower_def is_digit_def char_in_def)
  from plain_https [OF this] show ?thesis by (simp add: node_domain_def demo_node_def opt_val_def)
qed

lemma demo_ip: "ip_address ''8.8.8.8'' = Some (V4 134744072)" "is_global (V4 134744072)"
  by (simp_all add: ip_address_def ipv4_parse_def parse_octet_def is_digit_def char_in_def nat_of_digits_def digit_val_def
      v4_nets)

theorem enrollment_single_use_witness:
  "\<exists>resp d'. claim_edge_enrollment (\<lambda>x. x) (\<lambda>_. Inr (''sum'', ''/pkg'')) None (\<lambda>_. 10) ''x'' ''r'' (\<lambda>d. d) None
      (Some (''Enrollment '' @ ''e1.s'')) demo_claim demo_enroll_db = (Inr resp, d') \<and>
    (\<forall>resp2 d2. claim_edge_enrollment (\<lambda>x. x) (\<lambda>_. Inr (''sum'', ''/pkg'')) None (\<lambda>_. 11) ''y'' ''q'' (\<lambda>d. d) None
      (Some (''Enrollment '' @ ''e1.s'')) demo_claim d' \<noteq> (Inr resp2, d2))"
proof -
  have p: "partition_char dot ''e1.s'' = (''e1'', True, ''s'')" by (simp add: partition_char_def)
  have t: "token_of_header ''Enrollment '' 200 (Some (''Enrollment '' @ ''e1.s'')) = Some (''e1'', ''e1.s'')"
    by (subst token_of_header_eq) (simp add: p)
  have v: "claim_valid (\<lambda>x. x) 10 None ''e1.s'' demo_claim demo_enrollment (demo_node 5 ''n5'') = Some True"
    using demo_ip by (simp add: claim_valid_def demo_claim_def demo_enrollment_def demo_node_def compare_digest_def is_ascii_def)
  have c: "count_where (claim_where demo_enrollment) (enrollments demo_enroll_db) = 1"
    by (simp add: count_where_def claim_where_def demo_enroll_db_def demo_enrollment_def)
  have n: "get_node demo_enroll_db (en_edge_node_id demo_enrollment) = Some (demo_node 5 ''n5'')"
    using demo_enroll_gets(2) by (simp add: demo_enrollment_def)
  obtain resp d' where run: "claim_edge_enrollment (\<lambda>x. x) (\<lambda>_. Inr (''sum'', ''/pkg'')) None (\<lambda>_. 10) ''x'' ''r'' (\<lambda>d. d) None
      (Some (''Enrollment '' @ ''e1.s'')) demo_claim demo_enroll_db = (Inr resp, d')"
    unfolding claim_edge_enrollment_def t using demo_enroll_gets(1) n v c demo_node_domain by (simp add: Let_def)
  have "unique_on en_id (enrollments demo_enroll_db)" "(\<lambda>x. x) ''x'' \<noteq> (\<lambda>x. x) ''e1.s''"
    by (simp_all add: unique_on_def demo_enroll_db_def)
  note single = enrollment_single_use [OF run this]
  show ?thesis by (intro exI conjI, rule run) (use single in simp)
qed

theorem enrollment_revocation_witness:
  "\<exists>resp d' e n. revoke_edge_enrollment (\<lambda>x. x) (\<lambda>_. 10) ''x'' (demo_user 1 ''root'' ''admin'') ''e1'' demo_enroll_db = (Inr resp, d') \<and>
    get_enrollment d' ''e1'' = Some e \<and> get_node d' (en_edge_node_id e) = Some n \<and> \<not> nd_enabled n"
proof -
  obtain resp d' where run: "revoke_edge_enrollment (\<lambda>x. x) (\<lambda>_. 10) ''x'' (demo_user 1 ''root'' ''admin'') ''e1'' demo_enroll_db =
      (Inr resp, d')"
    using demo_enroll_gets by (simp add: revoke_edge_enrollment_def demo_enrollment_def Let_def)
  from enrollment_revocation [OF run] run show ?thesis by blast
qed

end
