(* ===== verification/Registration.thy ===== *)
theory Registration
  imports Enrollment
begin

text \<open>
  Registration of an edge node by its own request (\<open>cloudbrowser/app.py\<close>): the node presents a key, proves
  that it holds it by signing a challenge, an administrator accepts or rejects it, and the accepted
  node signs a second challenge to fetch its credentials. Each move of the state machine is one
  \<open>UPDATE\<close> on the condition that the row still has the state that was read; \<open>other\<close> is what other
  transactions commit between the reading and that statement.

  \<open>hash\<close> is SHA-256 in hexadecimal, \<open>mac\<close> HMAC-SHA256, and the record \<open>key_ops\<close> the operations of the
  \<open>cryptography\<close> package: loading a PEM text, the canonical PEM and DER forms, and the verification of
  a signature.
\<close>

datatype pem_result = Pem_ed25519 string | Pem_other | Pem_invalid | Pem_unsupported

record key_ops =
  ko_load :: "string \<Rightarrow> pem_result"
  ko_pem :: "string \<Rightarrow> string"
  ko_der :: "string \<Rightarrow> string"
  ko_verify :: "string \<Rightarrow> string \<Rightarrow> string \<Rightarrow> bool"

abbreviation invalid_registration :: http_error where
  "invalid_registration \<equiv> Http 401 ''Invalid registration''"

section \<open>Tokens and challenges\<close>

definition node_registration_source :: "string option \<Rightarrow> http_error + string" where
  "node_registration_source source =
     (case source of
        None \<Rightarrow> Inl invalid_registration
      | Some s \<Rightarrow>
          (case ip_address s of
             None \<Rightarrow> Inl invalid_registration
           | Some a \<Rightarrow> if is_ipv4 a \<and> is_global a then Inr (ip_str a) else Inl invalid_registration))"

definition registration_token_parts ::
  "(string \<Rightarrow> string) \<Rightarrow> string \<Rightarrow> string option \<Rightarrow> db \<Rightarrow> registration_request option" where
  "registration_token_parts hash request_id authorization d =
     (case token_of_header ''Registration '' 240 authorization of
        None \<Rightarrow> None
      | Some (token_id, raw) \<Rightarrow>
          if token_id \<noteq> request_id then None
          else
            (case get_registration d request_id of
               None \<Rightarrow> None
             | Some r \<Rightarrow>
                 (case rg_registration_token_hash r of
                    None \<Rightarrow> None
                  | Some h \<Rightarrow> if h = [] \<or> hash raw \<noteq> h then None else Some r)))"

definition registration_claim_challenge :: "(string \<Rightarrow> string \<Rightarrow> string) \<Rightarrow> string \<Rightarrow> registration_request \<Rightarrow> string" where
  "registration_claim_challenge mac secret_key r =
     rstrip_char pad_char (urlsafe_b64encode (mac (utf8_encode secret_key)
       (utf8_encode (''node-claim-challenge-v1:'' @ rg_id r @ '':'' @
          (case rg_registration_token_hash r of None \<Rightarrow> [] | Some h \<Rightarrow> h)))))"

text \<open>\<open>f"{item.registration_token_hash}"\<close> prints a missing digest as \<open>None\<close>.\<close>

definition derived_report_token ::
  "(string \<Rightarrow> string \<Rightarrow> string) \<Rightarrow> string \<Rightarrow> registration_request \<Rightarrow> string \<Rightarrow> string" where
  "derived_report_token mac secret_key r enrollment_id =
     enrollment_id @ dot #
     rstrip_char pad_char (urlsafe_b64encode (mac (utf8_encode secret_key)
       (utf8_encode (''node-report-v1:'' @ (case rg_registration_token_hash r of None \<Rightarrow> ''None'' | Some h \<Rightarrow> h) @
          '':'' @ enrollment_id))))"

section \<open>The request\<close>

record registration_create_body =
  rb_public_key_pem :: string
  rb_platform :: string
  rb_machine_fingerprint :: string
  rb_reported_hostname :: string
  rb_public_ipv4 :: string
  rb_os_name :: string
  rb_cpu_count :: int
  rb_memory_total_bytes :: int
  rb_disk_total_bytes :: int
  rb_agent_version :: string

definition new_registration ::
  "(string \<Rightarrow> string) \<Rightarrow> key_ops \<Rightarrow> string \<Rightarrow> instant \<Rightarrow> string \<Rightarrow> string \<Rightarrow> string \<Rightarrow> registration_create_body \<Rightarrow>
   registration_request" where
  "new_registration hash keys key now request_id challenge token_secret body =
     \<lparr>rg_id = request_id, rg_status = ''pending_proof'', rg_public_key_pem = ko_pem keys key,
      rg_public_key_fingerprint = hash (ko_der keys key), rg_machine_fingerprint = rb_machine_fingerprint body,
      rg_reported_hostname = rb_reported_hostname body, rg_platform = rb_platform body,
      rg_actual_public_ipv4 = rb_public_ipv4 body, rg_os_name = rb_os_name body, rg_cpu_count = rb_cpu_count body,
      rg_memory_total_bytes = rb_memory_total_bytes body, rg_disk_total_bytes = rb_disk_total_bytes body,
      rg_agent_version = rb_agent_version body, rg_challenge_hash = Some (hash challenge),
      rg_registration_token_hash = Some (hash (enrollment_raw request_id token_secret)),
      rg_challenge_expires_at = now + minutes 15, rg_created_at = now, rg_updated_at = now, rg_proved_at = None,
      rg_decided_at = None, rg_decided_by_user_id = None, rg_edge_node_id = None, rg_last_error = None,
      rg_install_admin_ssh_key = False\<rparr>"

definition create_node_registration ::
  "(string \<Rightarrow> string) \<Rightarrow> key_ops \<Rightarrow> clock \<Rightarrow> string \<Rightarrow> string \<Rightarrow> string \<Rightarrow> string option \<Rightarrow> registration_create_body \<Rightarrow> db \<Rightarrow>
   details result" where
  "create_node_registration hash keys clk uuid challenge token_secret source body d =
     (case ip_address (rb_public_ipv4 body) of
        None \<Rightarrow> (Inl invalid_registration, d)
      | Some a \<Rightarrow>
          if source = None \<or> \<not> is_ipv4 a \<or> \<not> is_global a \<or> source_matches source (rb_public_ipv4 body) = Some False
          then (Inl invalid_registration, d)
          else if source_matches source (rb_public_ipv4 body) = None then (Inl Server_error, d)
          else
            (case ko_load keys (rb_public_key_pem body) of
               Pem_unsupported \<Rightarrow> (Inl Server_error, d)
             | Pem_invalid \<Rightarrow> fail 422 ''Invalid registration data'' d
             | Pem_other \<Rightarrow> fail 422 ''Invalid registration data'' d
             | Pem_ed25519 key \<Rightarrow>
                 (let r = new_registration hash keys key (clk 0) uuid challenge token_secret body in
                  if rg_id r \<in> rg_id ` set (registrations d) \<or> registration_clash r (registrations d)
                  then fail 409 ''Registration already pending'' d
                  else
                    (Inr [(''request_id'', VStr uuid), (''challenge'', VStr challenge),
                          (''registration_token'', VStr token_secret), (''expires_at'', VTime (rg_challenge_expires_at r))],
                     d\<lparr>registrations := registrations d @ [r]\<rparr>))))"

section \<open>The proof\<close>

record signed_challenge =
  sc_challenge :: string
  sc_signature :: string

definition registration_message :: "string \<Rightarrow> registration_request \<Rightarrow> string \<Rightarrow> string" where
  "registration_message purpose r challenge =
     (let nl = [CHR 0x0A] in
      utf8_encode (purpose @ nl @ rg_id r @ nl @ challenge @ nl @ rg_actual_public_ipv4 r @ nl @
        rg_machine_fingerprint r @ nl))"

text \<open>The signature part of both checks: \<open>None\<close> is an exception that is not caught.\<close>

definition signature_valid :: "key_ops \<Rightarrow> string \<Rightarrow> registration_request \<Rightarrow> signed_challenge \<Rightarrow> bool option" where
  "signature_valid keys purpose r body =
     (case b64decode_std (sc_signature body) of
        None \<Rightarrow> Some False
      | Some signature \<Rightarrow>
          (case ko_load keys (rg_public_key_pem r) of
             Pem_ed25519 key \<Rightarrow> Some (ko_verify keys key signature (registration_message purpose r (sc_challenge body)))
           | Pem_unsupported \<Rightarrow> None
           | _ \<Rightarrow> Some False))"

definition challenge_matches :: "(string \<Rightarrow> string) \<Rightarrow> registration_request \<Rightarrow> signed_challenge \<Rightarrow> bool" where
  "challenge_matches hash r body \<longleftrightarrow>
     (case rg_challenge_hash r of None \<Rightarrow> False | Some h \<Rightarrow> h \<noteq> [] \<and> hash (sc_challenge body) = h)"

definition prove_where :: "registration_request \<Rightarrow> registration_request \<Rightarrow> bool" where
  "prove_where item r \<longleftrightarrow>
     rg_id r = rg_id item \<and> rg_status r = ''pending_proof'' \<and> rg_challenge_hash r = rg_challenge_hash item"

definition proved :: "instant \<Rightarrow> registration_request \<Rightarrow> registration_request" where
  "proved now r =
     r\<lparr>rg_status := ''pending_approval'', rg_challenge_hash := None, rg_challenge_expires_at := now + hours 24,
       rg_proved_at := Some now, rg_updated_at := now\<rparr>"

definition expire_registration :: "instant \<Rightarrow> registration_request \<Rightarrow> registration_request" where
  "expire_registration now r = r\<lparr>rg_status := ''expired'', rg_challenge_hash := None, rg_updated_at := now\<rparr>"

definition update_registration :: "string \<Rightarrow> (registration_request \<Rightarrow> registration_request) \<Rightarrow> db \<Rightarrow> db" where
  "update_registration i f d = d\<lparr>registrations := update_where (\<lambda>r. rg_id r = i) f (registrations d)\<rparr>"

definition prove_node_registration ::
  "(string \<Rightarrow> string) \<Rightarrow> key_ops \<Rightarrow> clock \<Rightarrow> (db \<Rightarrow> db) \<Rightarrow> string option \<Rightarrow> string option \<Rightarrow> string \<Rightarrow> signed_challenge \<Rightarrow> db \<Rightarrow>
   details result" where
  "prove_node_registration hash keys clk other source authorization request_id body d =
     (case registration_token_parts hash request_id authorization d of
        None \<Rightarrow> (Inl invalid_registration, d)
      | Some r \<Rightarrow>
          if source_matches source (rg_actual_public_ipv4 r) = None then (Inl Server_error, d)
          else if source_matches source (rg_actual_public_ipv4 r) = Some False then (Inl invalid_registration, d)
          else if rg_challenge_expires_at r \<le> clk 0
          then (Inl invalid_registration,
                if rg_status r = ''pending_proof'' then update_registration (rg_id r) (expire_registration (clk 0)) d else d)
          else
            (case signature_valid keys ''hermes-node-registration-v1'' r body of
               None \<Rightarrow> (Inl Server_error, d)
             | Some valid \<Rightarrow>
                 if rg_status r \<noteq> ''pending_proof'' \<or> \<not> challenge_matches hash r body \<or> \<not> valid
                 then (Inl invalid_registration, d)
                 else
                   (let w = other d in
                    if count_where (prove_where r) (registrations w) \<noteq> 1 then (Inl invalid_registration, w)
                    else (Inr [(''status'', VStr ''pending_approval'')],
                          w\<lparr>registrations := update_where (prove_where r) (proved (clk 0)) (registrations w)\<rparr>))))"

definition node_registration_status ::
  "(string \<Rightarrow> string) \<Rightarrow> (string \<Rightarrow> string \<Rightarrow> string) \<Rightarrow> string \<Rightarrow> string option \<Rightarrow> string \<Rightarrow> db \<Rightarrow> details result" where
  "node_registration_status hash mac secret_key authorization request_id d =
     (case registration_token_parts hash request_id authorization d of
        None \<Rightarrow> (Inl invalid_registration, d)
      | Some r \<Rightarrow>
          (Inr ([(''status'', VStr (rg_status r)), (''phase'', VNull), (''error'', opt_val VStr (rg_last_error r)),
                 (''decision'', if rg_status r \<in> {''approved'', ''installing'', ''ready'', ''online''} then VStr ''accepted''
                               else if rg_status r = ''rejected'' then VStr ''rejected'' else VNull)] @
                (if rg_status r = ''approved'' \<and> rg_challenge_hash r \<notin> {None, Some []}
                 then [(''claim_challenge'', VStr (registration_claim_challenge mac secret_key r))] else [])), d))"

section \<open>The decision\<close>

record registration_accept_body =
  ab_node_name :: string
  ab_endpoint :: string
  ab_expected_public_ipv4 :: string
  ab_install_admin_ssh_key :: bool

definition accept_where :: "registration_request \<Rightarrow> registration_request \<Rightarrow> bool" where
  "accept_where item r \<longleftrightarrow> rg_id r = rg_id item \<and> rg_status r = ''pending_approval'' \<and> rg_proved_at r \<noteq> None"

definition approved ::
  "instant \<Rightarrow> int \<Rightarrow> bool \<Rightarrow> string \<Rightarrow> int \<Rightarrow> registration_request \<Rightarrow> registration_request" where
  "approved now actor ssh challenge_hash node_id r =
     r\<lparr>rg_status := ''approved'', rg_decided_at := Some now, rg_decided_by_user_id := Some actor, rg_updated_at := now,
       rg_install_admin_ssh_key := ssh, rg_challenge_hash := Some challenge_hash,
       rg_challenge_expires_at := now + minutes 15, rg_edge_node_id := Some node_id\<rparr>"

definition accepted_enrollment ::
  "(string \<Rightarrow> string) \<Rightarrow> instant \<Rightarrow> string \<Rightarrow> string \<Rightarrow> string \<Rightarrow> int \<Rightarrow> int \<Rightarrow> registration_request \<Rightarrow> node_enrollment" where
  "accepted_enrollment hash now uuid fresh report node_id actor r =
     \<lparr>en_id = uuid, en_edge_node_id = node_id, en_created_by_user_id = actor, en_token_hash = hash fresh,
      en_report_token_hash = Some (hash report), en_status = ''claimed'', en_phase = None,
      en_expires_at = now + hours 2, en_claimed_at = Some now, en_updated_at = now, en_last_error = None,
      en_claimed_public_ipv4 = Some (rg_actual_public_ipv4 r), en_agent_version = Some (rg_agent_version r)\<rparr>"

definition accept_node_registration ::
  "(string \<Rightarrow> string) \<Rightarrow> (string \<Rightarrow> string \<Rightarrow> string) \<Rightarrow> string \<Rightarrow> clock \<Rightarrow> string \<Rightarrow> string \<Rightarrow> string \<Rightarrow> (db \<Rightarrow> db) \<Rightarrow> user \<Rightarrow> string \<Rightarrow>
   registration_accept_body \<Rightarrow> db \<Rightarrow> details result" where
  "accept_node_registration hash mac secret_key clk secret uuid fresh other actor request_id body d =
     (case get_registration d request_id of
        None \<Rightarrow> fail 409 ''Registration cannot be accepted'' d
      | Some r \<Rightarrow>
          if rg_status r \<noteq> ''pending_approval'' \<or> rg_proved_at r = None
          then fail 409 ''Registration cannot be accepted'' d
          else
            (case network_error (validate_edge_node_network (Some (ab_endpoint body)) (Some (ab_expected_public_ipv4 body))) of
               Some e \<Rightarrow> (Inl e, d)
             | None \<Rightarrow>
                 if ab_expected_public_ipv4 body \<noteq> rg_actual_public_ipv4 r then fail 422 ''Public IPv4 mismatch'' d
                 else if node_exists (ab_node_name body) (ab_endpoint body) d then fail 409 ''Edge node already exists'' d
                 else
                   (let now = clk 0; w = other d in
                    if count_where (accept_where r) (registrations w) \<noteq> 1
                    then fail 409 ''Registration cannot be accepted'' w
                    else
                      (let n = new_edge_node (next_id nd_id (nodes w)) (ab_node_name body) (ab_endpoint body) secret
                                 (rg_platform r) False False ''disabled'' (Some (rg_actual_public_ipv4 r))
                                 (Some (rg_actual_public_ipv4 r)) (clk 1);
                           report = derived_report_token mac secret_key r uuid;
                           e = accepted_enrollment hash now uuid fresh report (nd_id n) (us_id actor) r;
                           d1 = w\<lparr>registrations := update_where (accept_where r)
                                    (approved now (us_id actor) (ab_install_admin_ssh_key body)
                                       (hash (registration_claim_challenge mac secret_key r)) (nd_id n)) (registrations w),
                                  nodes := nodes w @ [n], enrollments := enrollments w @ [e]\<rparr>
                       in if node_exists (ab_node_name body) (ab_endpoint body) w \<or> uuid \<in> en_id ` set (enrollments w) \<or>
                             enrollment_clash e (enrollments w)
                          then fail 409 ''Registration cannot be accepted'' w
                          else
                            (Inr [(''id'', VStr (rg_id r)), (''status'', VStr ''approved''), (''edge_node_id'', VInt (nd_id n))],
                             audit ''node_registration.accepted'' (Some (us_id actor)) (Some ''node_registration_request'')
                               (Some (rg_id r))
                               [(''node_name'', VStr (nd_name n)), (''actual_public_ipv4'', VStr (rg_actual_public_ipv4 r))]
                               (clk 2) d1)))))"

definition reject_where :: "registration_request \<Rightarrow> registration_request \<Rightarrow> bool" where
  "reject_where item r \<longleftrightarrow> rg_id r = rg_id item \<and> rg_status r = ''pending_approval''"

definition rejected :: "instant \<Rightarrow> int \<Rightarrow> string \<Rightarrow> registration_request \<Rightarrow> registration_request" where
  "rejected now actor reason r =
     r\<lparr>rg_status := ''rejected'', rg_challenge_hash := None, rg_last_error := Some reason, rg_decided_at := Some now,
       rg_decided_by_user_id := Some actor, rg_updated_at := now\<rparr>"

definition reject_node_registration ::
  "clock \<Rightarrow> (db \<Rightarrow> db) \<Rightarrow> user \<Rightarrow> string \<Rightarrow> string \<Rightarrow> db \<Rightarrow> details result" where
  "reject_node_registration clk other actor request_id reason_text d =
     (case get_registration d request_id of
        None \<Rightarrow> fail 409 ''Registration cannot be rejected'' d
      | Some r \<Rightarrow>
          (let reason = clean_text reason_text; w = other d in
           if count_where (reject_where r) (registrations w) \<noteq> 1 then fail 409 ''Registration cannot be rejected'' w
           else
             (Inr [(''id'', VStr (rg_id r)), (''status'', VStr ''rejected'')],
              audit ''node_registration.rejected'' (Some (us_id actor)) (Some ''node_registration_request'') (Some (rg_id r))
                [(''reason'', VStr reason)] (clk 1)
                (w\<lparr>registrations := update_where (reject_where r) (rejected (clk 0) (us_id actor) reason) (registrations w)\<rparr>))))"

section \<open>The administrator's list\<close>

definition serialize_registration_request :: "registration_request \<Rightarrow> details" where
  "serialize_registration_request r =
     [(''id'', VStr (rg_id r)), (''status'', VStr (rg_status r)),
      (''public_key_fingerprint'', VStr (rg_public_key_fingerprint r)),
      (''machine_fingerprint'', VStr (rg_machine_fingerprint r)), (''reported_hostname'', VStr (rg_reported_hostname r)),
      (''platform'', VStr (rg_platform r)), (''actual_public_ipv4'', VStr (rg_actual_public_ipv4 r)),
      (''os_name'', VStr (rg_os_name r)), (''cpu_count'', VInt (rg_cpu_count r)),
      (''memory_total_bytes'', VInt (rg_memory_total_bytes r)), (''disk_total_bytes'', VInt (rg_disk_total_bytes r)),
      (''agent_version'', VStr (rg_agent_version r)), (''created_at'', VTime (rg_created_at r)),
      (''updated_at'', VTime (rg_updated_at r)), (''proved_at'', opt_val VTime (rg_proved_at r)),
      (''decided_at'', opt_val VTime (rg_decided_at r)), (''decided_by_user_id'', opt_val VInt (rg_decided_by_user_id r)),
      (''edge_node_id'', opt_val VInt (rg_edge_node_id r)), (''last_error'', opt_val VStr (rg_last_error r)),
      (''install_admin_ssh_key'', VBool (rg_install_admin_ssh_key r))]"

definition sweep_registration :: "instant \<Rightarrow> registration_request \<Rightarrow> registration_request" where
  "sweep_registration now r =
     (if rg_status r \<in> {''pending_proof'', ''pending_approval''} \<and> rg_challenge_expires_at r \<le> now
      then expire_registration now r else r)"

definition history_expired :: "instant \<Rightarrow> registration_request \<Rightarrow> bool" where
  "history_expired now r \<longleftrightarrow> rg_status r = ''expired'' \<and> rg_updated_at r \<le> now - days 7"

text \<open>When the enrollment of a node that is online finished: the latest update of one.\<close>

definition completion_of :: "registration_request list \<Rightarrow> db \<Rightarrow> registration_request \<Rightarrow> instant" where
  "completion_of items d r =
     (let online = map rg_edge_node_id (filter (\<lambda>x. rg_status x = ''online'') items);
          done = filter (\<lambda>e. Some (en_edge_node_id e) \<in> set online \<and> en_status e = ''online'')
                   (rev (sort_key en_updated_at (enrollments d)))
      in case rg_edge_node_id r of
           None \<Rightarrow> rg_updated_at r
         | Some n \<Rightarrow>
             (case find_row (\<lambda>e. en_edge_node_id e = n) done of None \<Rightarrow> rg_updated_at r | Some e \<Rightarrow> en_updated_at e))"

definition list_node_registration_requests :: "instant \<Rightarrow> db \<Rightarrow> details list result" where
  "list_node_registration_requests now d =
     (let items = rev (sort_key rg_created_at (registrations d));
          swept = map (sweep_registration now) items;
          visible = filter (\<lambda>r. \<not> (rg_status r = ''online'' \<and> completion_of items d r \<le> now - days 7))
                      (filter (\<lambda>r. \<not> history_expired now r) swept)
      in (Inr (map serialize_registration_request visible),
          d\<lparr>registrations := delete_where (history_expired now) (map (sweep_registration now) (registrations d))\<rparr>))"

section \<open>The claim\<close>

definition claim_approved_where :: "registration_request \<Rightarrow> registration_request \<Rightarrow> bool" where
  "claim_approved_where item r \<longleftrightarrow>
     rg_id r = rg_id item \<and> rg_status r = ''approved'' \<and>
     rg_registration_token_hash r = rg_registration_token_hash item \<and> rg_challenge_hash r = rg_challenge_hash item"

definition installing :: "instant \<Rightarrow> registration_request \<Rightarrow> registration_request" where
  "installing now r =
     r\<lparr>rg_status := ''installing'', rg_registration_token_hash := None, rg_challenge_hash := None, rg_updated_at := now\<rparr>"

definition claim_approved_node_registration ::
  "(string \<Rightarrow> string) \<Rightarrow> (string \<Rightarrow> string \<Rightarrow> string) \<Rightarrow> string \<Rightarrow> key_ops \<Rightarrow> (string \<Rightarrow> http_error + string \<times> string) \<Rightarrow>
   string option \<Rightarrow> clock \<Rightarrow> (db \<Rightarrow> db) \<Rightarrow> string option \<Rightarrow> string option \<Rightarrow> string \<Rightarrow> signed_challenge \<Rightarrow> db \<Rightarrow> details result" where
  "claim_approved_node_registration hash mac secret_key keys package public_origin clk other source authorization request_id body d =
     (case registration_token_parts hash request_id authorization d of
        None \<Rightarrow> (Inl invalid_registration, d)
      | Some r \<Rightarrow>
          (case rg_edge_node_id r of
             None \<Rightarrow> (Inl invalid_registration, d)
           | Some node_id \<Rightarrow>
               if rg_status r \<noteq> ''approved'' \<or> rg_proved_at r = None then (Inl invalid_registration, d)
               else
                 (case signature_valid keys ''hermes-node-claim-v1'' r body of
                    None \<Rightarrow> (Inl Server_error, d)
                  | Some valid \<Rightarrow>
                      if source_matches source (rg_actual_public_ipv4 r) = None then (Inl Server_error, d)
                      else if source_matches source (rg_actual_public_ipv4 r) = Some False \<or>
                         rg_challenge_expires_at r \<le> clk 0 \<or> \<not> challenge_matches hash r body \<or> \<not> valid
                      then (Inl invalid_registration, d)
                      else
                        (case get_node d node_id of
                           None \<Rightarrow> (Inl Server_error, d)
                         | Some n \<Rightarrow>
                             (case find_row (\<lambda>e. en_edge_node_id e = nd_id n \<and> en_status e = ''claimed'') (enrollments d) of
                                None \<Rightarrow> (Inl invalid_registration, d)
                              | Some e \<Rightarrow>
                                  (case package (nd_platform n) of
                                     Inl x \<Rightarrow> (Inl x, d)
                                   | Inr pkg \<Rightarrow>
                                       (let w = other d; report = derived_report_token mac secret_key r (en_id e) in
                                        if count_where (claim_approved_where r) (registrations w) \<noteq> 1
                                        then (Inl invalid_registration, w)
                                        else
                                          (let now = clk 0;
                                               d1 = update_enrollment (en_id e)
                                                      (\<lambda>x. x\<lparr>en_status := ''installing'', en_phase := Some ''installing'',
                                                            en_updated_at := now, en_expires_at := now + hours 2\<rparr>)
                                                      (w\<lparr>registrations := update_where (claim_approved_where r) (installing now)
                                                            (registrations w)\<rparr>)
                                           in case node_domain n of
                                                None \<Rightarrow> (Inl Server_error, d1)
                                              | Some domain \<Rightarrow>
                                                  (Inr (claim_response public_origin n domain pkg report @
                                                        [(''enrollment_id'', VStr (en_id e)),
                                                         (''install_admin_ssh_key'', VBool (rg_install_admin_ssh_key r))]),
                                                   d1)))))))))"

section \<open>What a successful claim has checked\<close>

lemma token_parts_Some:
  assumes "registration_token_parts hash i (Some (''Registration '' @ raw)) d = Some r"
  shows "get_registration d i = Some r \<and> rg_id r = i \<and> fst (partition_char dot raw) = i \<and>
    rg_registration_token_hash r = Some (hash raw)"
proof -
  from assms obtain t raw' where h: "token_of_header ''Registration '' 240 (Some (''Registration '' @ raw)) = Some (t, raw')"
    by (auto simp: registration_token_parts_def split: option.splits)
  with token_of_header_Some [OF h] assms show ?thesis
    unfolding registration_token_parts_def h
    by (auto split: option.split_asm if_split_asm dest: registration_table.lookup_Some)
qed

lemma source_matches_True: "source_matches s a = Some True \<Longrightarrow> s = Some a"
  by (auto simp: source_matches_def split: option.splits)

lemma signature_valid_True:
  assumes "signature_valid keys purpose r body = Some True"
  obtains key sg where "ko_load keys (rg_public_key_pem r) = Pem_ed25519 key" "b64decode_std (sc_signature body) = Some sg"
    "ko_verify keys key sg (registration_message purpose r (sc_challenge body))"
  using assms by (auto simp: signature_valid_def split: option.splits pem_result.splits)

lemma challenge_matches_iff:
  "challenge_matches hash r body \<longleftrightarrow>
     rg_challenge_hash r = Some (hash (sc_challenge body)) \<and> hash (sc_challenge body) \<noteq> []"
  by (auto simp: challenge_matches_def split: option.splits)

lemma claim_approved_Inr:
  assumes "claim_approved_node_registration hash mac sk keys package po clk other source (Some (''Registration '' @ raw)) i body d = (Inr resp, d')"
  obtains r n e pkg where "registration_token_parts hash i (Some (''Registration '' @ raw)) d = Some r"
    "rg_status r = ''approved''" "rg_proved_at r \<noteq> None" "source = Some (rg_actual_public_ipv4 r)"
    "clk 0 < rg_challenge_expires_at r" "challenge_matches hash r body"
    "signature_valid keys ''hermes-node-claim-v1'' r body = Some True"
    "rg_edge_node_id r = Some (nd_id n)" "get_node d (nd_id n) = Some n"
    "count_where (claim_approved_where r) (registrations (other d)) = 1"
    "map_of resp ''edge_ticket_secret'' = Some (VStr (nd_shared_secret n))"
    "registrations d' = update_where (claim_approved_where r) (installing (clk 0)) (registrations (other d))"
proof -
  from assms obtain r where r: "registration_token_parts hash i (Some (''Registration '' @ raw)) d = Some r"
    by (auto simp: claim_approved_node_registration_def split: option.splits)
  with assms obtain node where node: "rg_edge_node_id r = Some node" and st: "rg_status r = ''approved''" "rg_proved_at r \<noteq> None"
    by (auto simp: claim_approved_node_registration_def split: option.splits if_splits)
  with assms r obtain valid where v: "signature_valid keys ''hermes-node-claim-v1'' r body = Some valid"
    by (auto simp: claim_approved_node_registration_def split: option.splits if_splits)
  have chk: "source_matches source (rg_actual_public_ipv4 r) = Some True \<and> clk 0 < rg_challenge_expires_at r \<and>
      challenge_matches hash r body \<and> valid"
    using assms r node st v
    by (cases "source_matches source (rg_actual_public_ipv4 r)")
      (auto simp: claim_approved_node_registration_def not_le split: if_splits)
  from assms r node st v chk obtain n e pkg where n: "get_node d node = Some n"
    and "find_row (\<lambda>e. en_edge_node_id e = nd_id n \<and> en_status e = ''claimed'') (enrollments d) = Some e"
    and "package (nd_platform n) = Inr pkg"
    by (auto simp: claim_approved_node_registration_def simp del: find_row_None split: option.splits sum.splits)
  with assms r node st v chk
  have fin: "count_where (claim_approved_where r) (registrations (other d)) = 1"
    "map_of resp ''edge_ticket_secret'' = Some (VStr (nd_shared_secret n))"
    "registrations d' = update_where (claim_approved_where r) (installing (clk 0)) (registrations (other d))"
    by (auto simp: claim_approved_node_registration_def Let_def claim_response_def update_enrollment_def
        simp del: find_row_None split: option.splits if_splits)
  have "node = nd_id n" using get_node_Some [OF n] by simp
  with r st chk v node n fin show ?thesis
    using source_matches_True by (intro that [of r n]) auto
qed

lemma claim_approved_consumed:
  assumes "claim_approved_node_registration hash mac sk keys package po clk other source (Some (''Registration '' @ raw)) i body d = (Inr resp, d')"
    and "unique_on rg_id (registrations (other d))" and "x \<in> set (registrations d')" and "rg_id x = i"
  shows "rg_status x = ''installing'' \<and> rg_registration_token_hash x = None"
proof -
  from assms(1) obtain r where c: "registration_token_parts hash i (Some (''Registration '' @ raw)) d = Some r"
    "count_where (claim_approved_where r) (registrations (other d)) = 1"
    "registrations d' = update_where (claim_approved_where r) (installing (clk 0)) (registrations (other d))"
    by (rule claim_approved_Inr)
  obtain y where y: "y \<in> set (registrations (other d))" "claim_approved_where r y"
    using c(2) count_where_zero [of "claim_approved_where r" "registrations (other d)"] by auto
  from assms(3) show ?thesis unfolding c(3)
  proof (cases rule: update_where_cases)
    case (changed z)
    then show ?thesis by (simp add: installing_def)
  next
    case kept
    with y token_parts_Some [OF c(1)] assms(2,4) have "x = y" by (auto simp: claim_approved_where_def dest: unique_onD)
    with kept y show ?thesis by simp
  qed
qed

lemma claim_approved_not_again:
  assumes "claim_approved_node_registration hash mac sk keys package po clk other source (Some (''Registration '' @ raw)) i body d = (Inr resp, d')"
    and "unique_on rg_id (registrations (other d))"
  shows "claim_approved_node_registration hash mac2 sk2 keys2 package2 po2 clk2 other2 source2 (Some (''Registration '' @ raw2)) i body2 d' \<noteq> (Inr resp2, d2)"
    and "claim_approved_node_registration hash mac2 sk2 keys2 package2 po2 clk2 (\<lambda>_. d') source2 (Some (''Registration '' @ raw2)) i body2 d \<noteq> (Inr resp2, d2)"
proof -
  note row = claim_approved_consumed [OF assms]
  show "claim_approved_node_registration hash mac2 sk2 keys2 package2 po2 clk2 other2 source2 (Some (''Registration '' @ raw2)) i body2 d' \<noteq> (Inr resp2, d2)"
  proof
    assume "claim_approved_node_registration hash mac2 sk2 keys2 package2 po2 clk2 other2 source2 (Some (''Registration '' @ raw2)) i body2 d' = (Inr resp2, d2)"
    then obtain r2 where "registration_token_parts hash i (Some (''Registration '' @ raw2)) d' = Some r2"
      by (rule claim_approved_Inr)
    with token_parts_Some [OF this] row [of r2] show False
      using registration_table.lookup_Some [of d' i r2] by auto
  qed
  show "claim_approved_node_registration hash mac2 sk2 keys2 package2 po2 clk2 (\<lambda>_. d') source2 (Some (''Registration '' @ raw2)) i body2 d \<noteq> (Inr resp2, d2)"
  proof
    assume "claim_approved_node_registration hash mac2 sk2 keys2 package2 po2 clk2 (\<lambda>_. d') source2 (Some (''Registration '' @ raw2)) i body2 d = (Inr resp2, d2)"
    then obtain r2 where r2: "registration_token_parts hash i (Some (''Registration '' @ raw2)) d = Some r2"
      "count_where (claim_approved_where r2) (registrations d') = 1"
      by (rule claim_approved_Inr)
    then obtain x where "x \<in> set (registrations d')" "claim_approved_where r2 x"
      using count_where_zero [of "claim_approved_where r2" "registrations d'"] by auto
    with row [of x] token_parts_Some [OF r2(1)] show False by (auto simp: claim_approved_where_def)
  qed
qed

text \<open>C19. The credentials of a registered node go to the node that asked, once. A claim succeeds only for a
  request an administrator has approved and whose key was proved, with the request's own token, from
  the address recorded with it, within the deadline, and with a signature by the recorded key over
  the challenge of the approval. Afterwards neither the same token nor a claim that had read the
  request before is accepted again.\<close>

theorem registration_claim_sound:
  assumes "claim_approved_node_registration hash mac sk keys package po clk other source (Some (''Registration '' @ raw)) i body d = (Inr resp, d')"
    and "unique_on rg_id (registrations (other d))"
  shows "(\<exists>r n key sg. get_registration d i = Some r \<and> rg_status r = ''approved'' \<and> rg_proved_at r \<noteq> None \<and>
      rg_registration_token_hash r = Some (hash raw) \<and> source = Some (rg_actual_public_ipv4 r) \<and>
      clk 0 < rg_challenge_expires_at r \<and> rg_challenge_hash r = Some (hash (sc_challenge body)) \<and>
      ko_load keys (rg_public_key_pem r) = Pem_ed25519 key \<and> b64decode_std (sc_signature body) = Some sg \<and>
      ko_verify keys key sg (registration_message ''hermes-node-claim-v1'' r (sc_challenge body)) \<and>
      rg_edge_node_id r = Some (nd_id n) \<and> get_node d (nd_id n) = Some n \<and>
      map_of resp ''edge_ticket_secret'' = Some (VStr (nd_shared_secret n))) \<and>
    (\<forall>mac2 sk2 keys2 package2 po2 clk2 other2 source2 raw2 body2 resp2 d2.
      claim_approved_node_registration hash mac2 sk2 keys2 package2 po2 clk2 other2 source2 (Some (''Registration '' @ raw2)) i body2 d' \<noteq> (Inr resp2, d2) \<and>
      claim_approved_node_registration hash mac2 sk2 keys2 package2 po2 clk2 (\<lambda>_. d') source2 (Some (''Registration '' @ raw2)) i body2 d \<noteq> (Inr resp2, d2))"
    (is "?checked \<and> _")
proof -
  from assms(1) obtain r n where c: "registration_token_parts hash i (Some (''Registration '' @ raw)) d = Some r"
    "rg_status r = ''approved''" "rg_proved_at r \<noteq> None" "source = Some (rg_actual_public_ipv4 r)"
    "clk 0 < rg_challenge_expires_at r" "challenge_matches hash r body"
    "signature_valid keys ''hermes-node-claim-v1'' r body = Some True"
    "rg_edge_node_id r = Some (nd_id n)" "get_node d (nd_id n) = Some n"
    "map_of resp ''edge_ticket_secret'' = Some (VStr (nd_shared_secret n))"
    by (rule claim_approved_Inr)
  from signature_valid_True [OF c(7)] obtain key sg where k: "ko_load keys (rg_public_key_pem r) = Pem_ed25519 key"
    "b64decode_std (sc_signature body) = Some sg"
    "ko_verify keys key sg (registration_message ''hermes-node-claim-v1'' r (sc_challenge body))" by blast
  from token_parts_Some [OF c(1)] c k challenge_matches_iff [of hash r body] have ?checked by blast
  with claim_approved_not_again [OF assms] show ?thesis by auto
qed

lemma claim_after_deadline:
  assumes "registration_token_parts hash i authorization d = Some r" and "rg_challenge_expires_at r \<le> clk 0"
  shows "\<exists>err. claim_approved_node_registration hash mac sk keys package po clk other source authorization i body d = (Inl err, d)"
proof (cases "rg_edge_node_id r")
  case None
  with assms show ?thesis by (simp add: claim_approved_node_registration_def)
next
  case (Some n)
  then show ?thesis
    unfolding claim_approved_node_registration_def assms(1) option.case
    by (cases "signature_valid keys ''hermes-node-claim-v1'' r body") (simp_all add: assms(2))
qed


section \<open>A request and its claim\<close>

definition demo_registration :: registration_request where
  "demo_registration =
     \<lparr>rg_id = ''r1'', rg_status = ''approved'', rg_public_key_pem = ''pem'', rg_public_key_fingerprint = ''fp'',
      rg_machine_fingerprint = ''m'', rg_reported_hostname = ''h'', rg_platform = ''linux'',
      rg_actual_public_ipv4 = ''8.8.8.8'', rg_os_name = ''os'', rg_cpu_count = 1, rg_memory_total_bytes = 1,
      rg_disk_total_bytes = 1, rg_agent_version = ''1'', rg_challenge_hash = Some ''c'',
      rg_registration_token_hash = Some ''r1.s'', rg_challenge_expires_at = 1000, rg_created_at = 0, rg_updated_at = 0,
      rg_proved_at = Some 0, rg_decided_at = Some 0, rg_decided_by_user_id = Some 1, rg_edge_node_id = Some 5,
      rg_last_error = None, rg_install_admin_ssh_key = False\<rparr>"

definition demo_keys :: key_ops where
  "demo_keys = \<lparr>ko_load = (\<lambda>_. Pem_ed25519 ''k''), ko_pem = (\<lambda>_. ''pem''), ko_der = (\<lambda>_. ''der''), ko_verify = (\<lambda>_ _ _. True)\<rparr>"

definition demo_registration_db :: db where
  "demo_registration_db =
     demo_enroll_db\<lparr>enrollments := [demo_enrollment\<lparr>en_status := ''claimed''\<rparr>], registrations := [demo_registration]\<rparr>"

lemma demo_registration_gets:
  "get_registration demo_registration_db ''r1'' = Some demo_registration"
  "get_node demo_registration_db 5 = Some (demo_node 5 ''n5'')"
  by (simp_all add: demo_registration_db_def demo_enroll_db_def get_registration_def demo_registration_def
      get_node_def demo_db_def demo_node_def)

theorem registration_claim_sound_witness:
  "\<exists>resp d'. claim_approved_node_registration (\<lambda>x. x) (\<lambda>_ _. []) [] demo_keys (\<lambda>_. Inr (''sum'', ''/pkg'')) None (\<lambda>_. 10)
      (\<lambda>d. d) (Some ''8.8.8.8'') (Some (''Registration '' @ ''r1.s'')) ''r1'' \<lparr>sc_challenge = ''c'', sc_signature = []\<rparr>
      demo_registration_db = (Inr resp, d') \<and> map_of resp ''edge_ticket_secret'' = Some (VStr ''k'')"
proof -
  have "partition_char dot ''r1.s'' = (''r1'', True, ''s'')" by (simp add: partition_char_def)
  then have t: "token_of_header ''Registration '' 240 (Some (''Registration '' @ ''r1.s'')) = Some (''r1'', ''r1.s'')"
    by (subst token_of_header_eq) simp
  have p: "registration_token_parts (\<lambda>x. x) ''r1'' (Some (''Registration '' @ ''r1.s'')) demo_registration_db = Some demo_registration"
    unfolding registration_token_parts_def t using demo_registration_gets(1) by (simp add: demo_registration_def)
  obtain resp d' where run: "claim_approved_node_registration (\<lambda>x. x) (\<lambda>_ _. []) [] demo_keys (\<lambda>_. Inr (''sum'', ''/pkg'')) None (\<lambda>_. 10)
      (\<lambda>d. d) (Some ''8.8.8.8'') (Some (''Registration '' @ ''r1.s'')) ''r1'' \<lparr>sc_challenge = ''c'', sc_signature = []\<rparr>
      demo_registration_db = (Inr resp, d')"
    unfolding claim_approved_node_registration_def p using demo_registration_gets(2) demo_node_domain
    by (simp add: demo_registration_def signature_valid_def b64decode_std_def b64decode_strict_def demo_keys_def
        source_matches_def compare_digest_def is_ascii_def challenge_matches_def demo_registration_db_def
        demo_enroll_db_def demo_enrollment_def demo_node_def count_where_def claim_approved_where_def Let_def)
  have "unique_on rg_id (registrations demo_registration_db)" by (simp add: unique_on_def demo_registration_db_def)
  from registration_claim_sound [OF run this] obtain n where
    "map_of resp ''edge_ticket_secret'' = Some (VStr (nd_shared_secret n))" "get_node demo_registration_db (nd_id n) = Some n"
    "get_registration demo_registration_db ''r1'' = Some demo_registration" "rg_edge_node_id demo_registration = Some (nd_id n)"
    using demo_registration_gets(1) by auto
  with run demo_registration_gets(2) show ?thesis by (auto simp: demo_registration_def demo_node_def)
qed


end
