(* ===== verification/Edge_Health.thy ===== *)
theory Edge_Health
  imports Prelude Json Net_Address Control_Model Enrollment
begin

text \<open>
  The health monitor (\<open>cloudbrowser/edge_health.py\<close>): every enabled node is probed several times, the
  samples are validated and combined, and the node, its enrollment and its registration are updated.

  A probe is what the HTTP client gave: a transport error, a body that is not JSON, a decoded body, or
  an exception the code does not catch; the two timer readings around it are a duration. \<open>None\<close> as the
  result of a validation, a probe or a sweep is an exception that leaves it. Durations and the latency
  are exact rationals.
\<close>

section \<open>Validation of a status body\<close>

definition metric_fields :: "string list" where
  "metric_fields = [''active_connections'', ''max_connections'', ''accepted_connections'', ''denied_connections'']"

definition resource_fields :: "string list" where
  "resource_fields = [''memory_total_bytes'', ''memory_available_bytes'', ''disk_total_bytes'', ''disk_free_bytes'']"

fun natural_field :: "json option \<Rightarrow> bool" where
  "natural_field (Some (JInt i)) = (0 \<le> i)"
| "natural_field _ = False"

definition int_at :: "(string \<times> json) list \<Rightarrow> string \<Rightarrow> int" where
  "int_at p k = (case map_of p k of Some (JInt i) \<Rightarrow> i | _ \<Rightarrow> 0)"

text \<open>\<open>ipaddress.ip_address\<close> of a decoded value: text, or a number, which a boolean is too.\<close>

fun ip_of_json :: "json option \<Rightarrow> ip option" where
  "ip_of_json (Some (JStr s)) = ip_address s"
| "ip_of_json (Some (JInt i)) =
     (if i < 0 then None else if i < 2 ^ 32 then Some (V4 (nat i)) else if i < 2 ^ 128 then Some (V6 (nat i) None) else None)"
| "ip_of_json (Some (JBool b)) = Some (V4 (if b then 1 else 0))"
| "ip_of_json _ = None"

text \<open>\<open>math.isfinite\<close> raises for an integer beyond the range of a double.\<close>

definition double_overflow :: "int \<Rightarrow> bool" where
  "double_overflow i \<longleftrightarrow> \<bar>i\<bar> \<ge> 2 ^ 1024 - 2 ^ 970"

fun gauge_field :: "json option \<Rightarrow> bool option" where
  "gauge_field (Some (JInt i)) = (if double_overflow i then None else Some (0 \<le> i))"
| "gauge_field (Some (JFloat (Fin q))) = Some (0 \<le> q)"
| "gauge_field _ = Some False"

datatype payload_check = Payload_ok | Payload_error string

fun version_field :: "json option \<Rightarrow> bool" where
  "version_field (Some (JStr v)) = (v \<noteq> [] \<and> length v \<le> 100)"
| "version_field _ = False"

definition validate_payload :: "json \<Rightarrow> string \<Rightarrow> payload_check option" where
  "validate_payload payload expected_node =
     (case payload of
        JObj p \<Rightarrow>
          if map_of p ''node'' \<noteq> Some (JStr expected_node) then Some (Payload_error ''health probe node identity mismatch'')
          else if \<not> list_all (\<lambda>k. natural_field (map_of p k)) metric_fields \<or> int_at p ''max_connections'' \<le> 0 \<or>
                  int_at p ''max_connections'' < int_at p ''active_connections''
          then Some (Payload_error ''health probe returned invalid metrics'')
          else if (case ip_of_json (map_of p ''public_ipv4'') of None \<Rightarrow> True | Some a \<Rightarrow> \<not> is_ipv4 a \<or> \<not> is_global a)
          then Some (Payload_error ''health probe returned invalid public IPv4'')
          else if \<not> list_all (\<lambda>k. natural_field (map_of p k)) resource_fields \<or> int_at p ''memory_total_bytes'' \<le> 0 \<or>
                  int_at p ''memory_total_bytes'' < int_at p ''memory_available_bytes'' \<or>
                  int_at p ''disk_total_bytes'' \<le> 0 \<or> int_at p ''disk_total_bytes'' < int_at p ''disk_free_bytes''
          then Some (Payload_error ''health probe returned invalid resources'')
          else
            (case gauge_field (map_of p ''load_1m'') of
               None \<Rightarrow> None
             | Some False \<Rightarrow> Some (Payload_error ''health probe returned invalid resources'')
             | Some True \<Rightarrow>
                 (case gauge_field (map_of p ''uptime_seconds'') of
                    None \<Rightarrow> None
                  | Some False \<Rightarrow> Some (Payload_error ''health probe returned invalid resources'')
                  | Some True \<Rightarrow>
                      if version_field (map_of p ''agent_version'') then Some Payload_ok
                      else Some (Payload_error ''health probe returned invalid agent version'')))
      | _ \<Rightarrow> Some (Payload_error ''health probe returned invalid status''))"

section \<open>Samples\<close>

datatype fetch = Transport_error | Not_json | Body json | Uncaught

datatype sample =
    Good "(string \<times> json) list" rat
  | Bad string bool

definition probe_sample :: "fetch \<times> rat \<Rightarrow> string \<Rightarrow> sample option" where
  "probe_sample probe expected_node =
     (case probe of
        (Transport_error, _) \<Rightarrow> Some (Bad ''health probe request failed'' False)
      | (Not_json, _) \<Rightarrow> Some (Bad ''health probe returned invalid JSON'' True)
      | (Uncaught, _) \<Rightarrow> None
      | (Body payload, elapsed) \<Rightarrow>
          (case validate_payload payload expected_node of
             None \<Rightarrow> None
           | Some (Payload_error msg) \<Rightarrow> Some (Bad msg True)
           | Some Payload_ok \<Rightarrow> Some (Good (case payload of JObj p \<Rightarrow> p | _ \<Rightarrow> []) (max 0 elapsed))))"

fun collect_samples :: "(fetch \<times> rat) list \<Rightarrow> string \<Rightarrow> sample list option" where
  "collect_samples [] node = Some []"
| "collect_samples (f # fs) node =
     (case probe_sample f node of
        None \<Rightarrow> None
      | Some s \<Rightarrow> map_option ((#) s) (collect_samples fs node))"

definition good_samples :: "sample list \<Rightarrow> ((string \<times> json) list \<times> rat) list" where
  "good_samples ss = concat (map (\<lambda>s. case s of Good p t \<Rightarrow> [(p, t)] | Bad _ _ \<Rightarrow> []) ss)"

definition sample_errors :: "sample list \<Rightarrow> string list" where
  "sample_errors ss = concat (map (\<lambda>s. case s of Good _ _ \<Rightarrow> [] | Bad e _ \<Rightarrow> [e]) ss)"

definition fatal_errors :: "sample list \<Rightarrow> string list" where
  "fatal_errors ss = concat (map (\<lambda>s. case s of Bad e True \<Rightarrow> [e] | _ \<Rightarrow> []) ss)"

text \<open>\<open>round(x)\<close>: to the nearest integer, halves to the even one.\<close>

definition py_round :: "rat \<Rightarrow> int" where
  "py_round x =
     (let f = \<lfloor>x\<rfloor>; r = x - of_int f in
      if r < 1 / 2 then f else if 1 / 2 < r then f + 1 else if even f then f else f + 1)"

definition trimmed :: "rat list \<Rightarrow> rat list" where
  "trimmed ts = butlast (tl (sort ts))"

definition latency_of :: "rat list \<Rightarrow> int" where
  "latency_of ts =
     max 0 (py_round (sum_list (trimmed ts) / of_nat (length (trimmed ts)) * 1000))"

definition health_status :: "(string \<times> json) list \<Rightarrow> string option \<Rightarrow> string" where
  "health_status p expected =
     (if (case expected of None \<Rightarrow> False | Some x \<Rightarrow> x \<noteq> [] \<and> map_of p ''public_ipv4'' \<noteq> Some (JStr x)) then ''quarantined''
      else if int_at p ''memory_available_bytes'' < 128 * 1024 * 1024 \<or>
              int_at p ''disk_free_bytes'' < 2 * 1024 * 1024 * 1024 \<or>
              int_at p ''max_connections'' * 4 \<le> int_at p ''active_connections'' * 5
      then ''degraded''
      else ''online'')"

section \<open>One node\<close>

datatype probe_result =
    Reached string int "(string \<times> json) list"
  | Unreached string string

record monitor =
  mo_central_node_name :: string
  mo_central_status_url :: string
  mo_sample_count :: nat
  mo_min_success :: nat

definition new_monitor :: "string \<Rightarrow> string \<Rightarrow> int \<Rightarrow> int \<Rightarrow> rat \<Rightarrow> monitor option" where
  "new_monitor central_node central_url sample_count min_success interval =
     (if sample_count < 3 \<or> \<not> (3 \<le> min_success \<and> min_success \<le> sample_count) then None
      else if interval < 0 then None
      else Some \<lparr>mo_central_node_name = central_node, mo_central_status_url = central_url,
                 mo_sample_count = nat sample_count, mo_min_success = nat min_success\<rparr>)"

definition status_url :: "monitor \<Rightarrow> edge_node \<Rightarrow> string" where
  "status_url m n =
     (if nd_name n = mo_central_node_name m then mo_central_status_url m
      else rstrip_char (CHR ''/'') (nd_endpoint n) @ ''/status'')"

text \<open>\<open>web i url k\<close> is what the \<open>k\<close>-th request for node \<open>i\<close> gives.\<close>

definition probe :: "monitor \<Rightarrow> (int \<Rightarrow> string \<Rightarrow> nat \<Rightarrow> fetch \<times> rat) \<Rightarrow> edge_node \<Rightarrow> probe_result option" where
  "probe m web n =
     (case collect_samples (map (web (nd_id n) (status_url m n)) [0 ..< mo_sample_count m]) (nd_name n) of
        None \<Rightarrow> None
      | Some ss \<Rightarrow>
          (let good = good_samples ss in
           if fatal_errors ss \<noteq> [] then Some (Unreached ''offline'' (hd (fatal_errors ss)))
           else if length good < mo_min_success m
           then Some (Unreached ''offline''
                  (if sample_errors ss \<noteq> [] then last (sample_errors ss) else ''health probe request failed''))
           else if length (remdups (map (\<lambda>(p, t). map_of p ''public_ipv4'') good)) \<noteq> 1
           then Some (Unreached ''quarantined'' ''health probe public IPv4 inconsistent between samples'')
           else
             (let payload = fst (last good) in
              Some (Reached (health_status payload (nd_expected_public_ipv4 n)) (latency_of (map snd good)) payload))))"

section \<open>The sweep\<close>

fun stored_text :: "json option \<Rightarrow> string option" where
  "stored_text (Some (JStr s)) = Some s"
| "stored_text (Some (JInt i)) = Some (int_str i)"
| "stored_text _ = None"

fun stored_float :: "json option \<Rightarrow> pyfloat option" where
  "stored_float (Some (JFloat q)) = Some q"
| "stored_float (Some (JInt i)) = Some (Fin (of_int i))"
| "stored_float _ = None"

fun stored_int :: "json option \<Rightarrow> int option" where
  "stored_int (Some (JInt i)) = Some i"
| "stored_int _ = None"

definition record_reached :: "string \<Rightarrow> instant \<Rightarrow> int \<Rightarrow> (string \<times> json) list \<Rightarrow> edge_node \<Rightarrow> edge_node" where
  "record_reached status seen latency p n =
     n\<lparr>nd_health_status := status, nd_last_seen_at := Some seen, nd_latency_ms := Some latency,
       nd_active_connections := int_at p ''active_connections'', nd_max_connections := int_at p ''max_connections'',
       nd_accepted_connections := int_at p ''accepted_connections'',
       nd_denied_connections := int_at p ''denied_connections'',
       nd_actual_public_ipv4 := stored_text (map_of p ''public_ipv4''), nd_load_1m := stored_float (map_of p ''load_1m''),
       nd_memory_total_bytes := stored_int (map_of p ''memory_total_bytes''),
       nd_memory_available_bytes := stored_int (map_of p ''memory_available_bytes''),
       nd_disk_total_bytes := stored_int (map_of p ''disk_total_bytes''),
       nd_disk_free_bytes := stored_int (map_of p ''disk_free_bytes''),
       nd_uptime_seconds := stored_float (map_of p ''uptime_seconds''),
       nd_agent_version := stored_text (map_of p ''agent_version''), nd_last_error := None\<rparr>"

definition record_unreached :: "string \<Rightarrow> string \<Rightarrow> edge_node \<Rightarrow> edge_node" where
  "record_unreached status error n =
     n\<lparr>nd_health_status := status, nd_latency_ms := None, nd_last_error := Some error\<rparr>"

definition monitored_enrollment :: "int \<Rightarrow> node_enrollment \<Rightarrow> bool" where
  "monitored_enrollment node_id e \<longleftrightarrow>
     en_edge_node_id e = node_id \<and> en_status e \<in> {''ready'', ''installing'', ''claimed'', ''failed''}"

definition monitored_registration :: "int \<Rightarrow> registration_request \<Rightarrow> bool" where
  "monitored_registration node_id r \<longleftrightarrow>
     rg_edge_node_id r = Some node_id \<and> rg_status r \<in> {''installing'', ''ready'', ''failed'', ''online''}"

definition marked :: "string \<Rightarrow> string" where
  "marked status = ''monitor marked node '' @ status"

definition sweep_enrollment :: "instant \<Rightarrow> int \<Rightarrow> string \<Rightarrow> db \<Rightarrow> db" where
  "sweep_enrollment now node_id status d =
     (case find_row (monitored_enrollment node_id) (enrollments d) of
        None \<Rightarrow> d
      | Some e \<Rightarrow>
          if status = ''online'' then
            update_enrollment (en_id e)
              (\<lambda>x. x\<lparr>en_status := ''online'', en_phase := Some ''ready'', en_updated_at := now, en_report_token_hash := None,
                    en_last_error := None\<rparr>) d
          else if status \<in> {''offline'', ''quarantined''} then
            update_enrollment (en_id e)
              (\<lambda>x. x\<lparr>en_status := ''failed'', en_phase := Some ''failed'', en_updated_at := now,
                    en_last_error := Some (marked status)\<rparr>) d
          else d)"

definition sweep_registration_row :: "instant \<Rightarrow> int \<Rightarrow> string \<Rightarrow> db \<Rightarrow> db" where
  "sweep_registration_row now node_id status d =
     (case find_row (monitored_registration node_id) (registrations d) of
        None \<Rightarrow> d
      | Some r \<Rightarrow>
          if status = ''online'' \<and> rg_status r \<noteq> ''online'' then
            d\<lparr>registrations := update_where (\<lambda>x. rg_id x = rg_id r)
                (\<lambda>x. x\<lparr>rg_status := ''online'', rg_updated_at := now, rg_last_error := None\<rparr>) (registrations d)\<rparr>
          else if status \<in> {''offline'', ''quarantined''} then
            d\<lparr>registrations := update_where (\<lambda>x. rg_id x = rg_id r)
                (\<lambda>x. x\<lparr>rg_status := ''failed'', rg_updated_at := now, rg_last_error := Some (marked status)\<rparr>)
                (registrations d)\<rparr>
          else d)"

definition effective_status :: "edge_node \<Rightarrow> probe_result \<Rightarrow> string" where
  "effective_status n result =
     (if nd_maintenance_mode n then ''maintenance''
      else (case result of Reached status _ _ \<Rightarrow> status | Unreached status _ \<Rightarrow> status))"

definition record_probe :: "clock \<Rightarrow> edge_node \<Rightarrow> probe_result \<Rightarrow> db \<Rightarrow> db" where
  "record_probe clk n result d =
     (let status = effective_status n result in
      update_node (nd_id n)
        (case result of
           Reached _ latency p \<Rightarrow> record_reached status (clk 0) latency p
         | Unreached _ error \<Rightarrow> record_unreached status error) d)"

fun sweep_nodes ::
  "monitor \<Rightarrow> (int \<Rightarrow> string \<Rightarrow> nat \<Rightarrow> fetch \<times> rat) \<Rightarrow> (int \<Rightarrow> clock) \<Rightarrow> edge_node list \<Rightarrow> db \<Rightarrow> ((string \<times> string) list \<times> db) option" where
  "sweep_nodes m web clk [] d = Some ([], d)"
| "sweep_nodes m web clk (n # ns) d =
     (case probe m web n of
        None \<Rightarrow> None
      | Some result \<Rightarrow>
          (let status = effective_status n result;
               d1 = record_probe (clk (nd_id n)) n result d;
               d2 = sweep_enrollment (clk (nd_id n) 1) (nd_id n) status d1;
               d3 = sweep_registration_row (clk (nd_id n) 2) (nd_id n) status d2
           in map_option (\<lambda>(rs, d'). ((nd_name n, status) # rs, d')) (sweep_nodes m web clk ns d3)))"

text \<open>The session is committed once, at the end: an exception on the way loses the whole sweep.\<close>

definition run_once ::
  "monitor \<Rightarrow> (int \<Rightarrow> string \<Rightarrow> nat \<Rightarrow> fetch \<times> rat) \<Rightarrow> (int \<Rightarrow> clock) \<Rightarrow> db \<Rightarrow> (string \<times> string) list option \<times> db" where
  "run_once m web clk d =
     (case sweep_nodes m web clk (sort_key nd_id (filter nd_enabled (nodes d))) d of
        None \<Rightarrow> (None, d)
      | Some (results, d') \<Rightarrow> (Some results, d'))"

section \<open>What a probe that succeeds has seen\<close>

definition validated :: "string \<Rightarrow> fetch \<times> rat \<Rightarrow> bool" where
  "validated node f \<longleftrightarrow> (case fst f of Body payload \<Rightarrow> validate_payload payload node = Some Payload_ok | _ \<Rightarrow> False)"

fun body_of :: "fetch \<times> rat \<Rightarrow> (string \<times> json) list" where
  "body_of (Body (JObj p), _) = p"
| "body_of _ = []"

lemma validate_payload_obj: "validate_payload payload node = Some Payload_ok \<Longrightarrow> \<exists>p. payload = JObj p"
  by (cases payload) (auto simp: validate_payload_def)

lemma probe_sample_Good:
  "probe_sample f node = Some (Good p t) \<longleftrightarrow> validated node f \<and> p = body_of f \<and> t = max 0 (snd f)"
  by (cases f; cases "fst f")
    (auto simp: probe_sample_def validated_def split: option.splits payload_check.splits dest: validate_payload_obj)

lemma probe_sample_Bad_False:
  "probe_sample f node = Some (Bad e False) \<Longrightarrow> fst f = Transport_error"
  by (cases f; cases "fst f") (auto simp: probe_sample_def split: option.splits payload_check.splits)

lemma collect_good:
  "collect_samples fs node = Some ss \<Longrightarrow>
   good_samples ss = map (\<lambda>f. (body_of f, max 0 (snd f))) (filter (validated node) fs)"
proof (induction fs arbitrary: ss)
  case Nil
  then show ?case by (simp add: good_samples_def)
next
  case (Cons f fs)
  then obtain s ss' where s: "probe_sample f node = Some s" "collect_samples fs node = Some ss'" "ss = s # ss'"
    by (auto split: option.splits)
  have "validated node f \<longleftrightarrow> (\<exists>p t. s = Good p t)"
    using s(1) probe_sample_Good [of f node] by (cases s) auto
  with s Cons.IH [OF s(2)] probe_sample_Good [of f node] show ?case
    by (cases s) (auto simp: good_samples_def)
qed

lemma collect_no_fatal:
  "collect_samples fs node = Some ss \<Longrightarrow> fatal_errors ss = [] \<Longrightarrow> f \<in> set fs \<Longrightarrow> validated node f \<or> fst f = Transport_error"
proof (induction fs arbitrary: ss)
  case Nil
  then show ?case by simp
next
  case (Cons g fs)
  then obtain s ss' where s: "probe_sample g node = Some s" "collect_samples fs node = Some ss'" "ss = s # ss'"
    by (auto split: option.splits)
  have tail: "fatal_errors ss' = []" and hd: "\<And>e. s \<noteq> Bad e True"
    using Cons.prems(2) s(3) by (auto simp: fatal_errors_def split: sample.splits bool.splits)
  show ?case
  proof (cases "f = g")
    case True
    show ?thesis
    proof (cases s)
      case (Good p t)
      with s(1) True show ?thesis using probe_sample_Good [of g node] by auto
    next
      case (Bad e b)
      with hd have "b = False" by (cases b) auto
      with Bad s(1) True show ?thesis using probe_sample_Bad_False [of g node e] by simp
    qed
  next
    case False
    with Cons.prems Cons.IH [OF s(2) tail] show ?thesis by simp
  qed
qed

lemma collect_None: "f \<in> set fs \<Longrightarrow> probe_sample f node = None \<Longrightarrow> collect_samples fs node = None"
  by (induction fs) (auto split: option.splits)

lemma remdups_one: "length (remdups xs) = 1 \<Longrightarrow> x \<in> set xs \<Longrightarrow> y \<in> set xs \<Longrightarrow> x = y"
  by (metis One_nat_def length_0_conv length_Suc_conv list.set_cases set_ConsD set_remdups empty_iff list.set(1))

abbreviation answers :: "monitor \<Rightarrow> (int \<Rightarrow> string \<Rightarrow> nat \<Rightarrow> fetch \<times> rat) \<Rightarrow> edge_node \<Rightarrow> (fetch \<times> rat) list" where
  "answers m web n \<equiv> map (web (nd_id n) (status_url m n)) [0 ..< mo_sample_count m]"

lemma probe_Reached:
  assumes "probe m web n = Some (Reached st latency p)"
  obtains ss where "collect_samples (answers m web n) (nd_name n) = Some ss" "fatal_errors ss = []"
    "mo_min_success m \<le> length (filter (validated (nd_name n)) (answers m web n))"
    "\<forall>f \<in> set (filter (validated (nd_name n)) (answers m web n)).
       \<forall>g \<in> set (filter (validated (nd_name n)) (answers m web n)).
         map_of (body_of f) ''public_ipv4'' = map_of (body_of g) ''public_ipv4''"
    "filter (validated (nd_name n)) (answers m web n) \<noteq> []"
    "p = body_of (last (filter (validated (nd_name n)) (answers m web n)))"
    "st = health_status p (nd_expected_public_ipv4 n)"
    "latency = latency_of (map (\<lambda>f. max 0 (snd f)) (filter (validated (nd_name n)) (answers m web n)))"
proof -
  let ?good = "filter (validated (nd_name n)) (answers m web n)"
  from assms obtain ss where ss: "collect_samples (answers m web n) (nd_name n) = Some ss"
    by (auto simp: probe_def split: option.splits)
  note good = collect_good [OF ss]
  from assms ss good have f: "fatal_errors ss = []" and q: "mo_min_success m \<le> length ?good"
    and one: "length (remdups (map (\<lambda>f. map_of (body_of f) ''public_ipv4'') ?good)) = 1"
    and last: "p = fst (last (map (\<lambda>f. (body_of f, max 0 (snd f))) ?good))"
    and st: "st = health_status p (nd_expected_public_ipv4 n)"
    and lat: "latency = latency_of (map (\<lambda>f. max 0 (snd f)) ?good)"
    by (auto simp: probe_def Let_def comp_def split: if_split_asm)
  have ne: "?good \<noteq> []" using one by (auto simp del: filter_map)
  show ?thesis
  proof (rule that [OF ss f q _ ne _ st lat])
    show "\<forall>f \<in> set ?good. \<forall>g \<in> set ?good. map_of (body_of f) ''public_ipv4'' = map_of (body_of g) ''public_ipv4''"
      using remdups_one [OF one] by (simp del: filter_map set_filter)
    show "p = body_of (last ?good)" using last ne by (simp add: last_map del: filter_map)
  qed
qed

section \<open>The latency\<close>

lemma py_round_near: "x - 1 / 2 \<le> of_int (py_round x)" "of_int (py_round x) \<le> x + 1 / 2"
proof -
  define f where "f = \<lfloor>x\<rfloor>"
  have f: "of_int f \<le> x" "x < of_int f + 1" unfolding f_def by linarith+
  have r: "py_round x = (if x - of_int f < 1 / 2 then f else if 1 / 2 < x - of_int f then f + 1 else if even f then f else f + 1)"
    by (simp add: py_round_def Let_def f_def)
  show "x - 1 / 2 \<le> of_int (py_round x)" unfolding r using f by (auto split: if_split; linarith)
  show "of_int (py_round x) \<le> x + 1 / 2" unfolding r using f by (auto split: if_split; linarith)
qed

lemma mean_between:
  fixes xs :: "rat list"
  assumes "xs \<noteq> []" and "\<forall>x \<in> set xs. lo \<le> x \<and> x \<le> hi"
  shows "lo \<le> sum_list xs / of_nat (length xs) \<and> sum_list xs / of_nat (length xs) \<le> hi"
proof -
  have "of_nat (length xs) * lo \<le> sum_list xs \<and> sum_list xs \<le> of_nat (length xs) * hi"
    using assms(2) by (induction xs) (auto simp: algebra_simps)
  moreover have "0 < (of_nat (length xs) :: rat)" using assms(1) by simp
  ultimately show ?thesis by (simp add: pos_le_divide_eq pos_divide_le_eq mult.commute)
qed

lemma trimmed_between:
  assumes "3 \<le> length ts" and "x \<in> set (trimmed ts)"
  shows "sort ts ! 1 \<le> x \<and> x \<le> sort ts ! (length ts - 2)"
proof -
  let ?s = "sort ts"
  from assms(2) obtain j where j: "j < length (trimmed ts)" "x = trimmed ts ! j" by (auto simp: in_set_conv_nth)
  then have len: "j < length ts - 2" by (simp add: trimmed_def)
  have "x = tl ?s ! j" using j by (simp add: trimmed_def nth_butlast)
  also have "\<dots> = ?s ! Suc j" using len by (simp add: nth_tl)
  finally show ?thesis using len assms(1) by (auto intro!: sorted_nth_mono)
qed

lemma latency_of_between:
  assumes "3 \<le> length ts" and "\<forall>t \<in> set ts. 0 \<le> t"
  shows "1000 * sort ts ! 1 - 1 / 2 \<le> of_int (latency_of ts) \<and>
    of_int (latency_of ts) \<le> 1000 * sort ts ! (length ts - 2) + 1 / 2"
proof -
  let ?mean = "sum_list (trimmed ts) / of_nat (length (trimmed ts))"
  have ne: "trimmed ts \<noteq> []" using assms(1) by (auto simp: trimmed_def simp flip: length_0_conv)
  from mean_between [OF ne, of "sort ts ! 1" "sort ts ! (length ts - 2)"] trimmed_between [OF assms(1)]
  have mean: "sort ts ! 1 \<le> ?mean" "?mean \<le> sort ts ! (length ts - 2)" by auto
  have "sort ts ! 1 \<in> set ts" using assms(1) by (metis One_nat_def Suc_le_lessD length_sort nth_mem numeral_3_eq_3 set_sort le_trans Suc_le_mono le0)
  then have "0 \<le> sort ts ! 1" using assms(2) by blast
  then have "0 \<le> sort ts ! (length ts - 2)" using mean by linarith
  with mean py_round_near [of "?mean * 1000"] show ?thesis by (auto simp: latency_of_def max_def)
qed

text \<open>The latency of a node that was reached is the mean of its samples without the fastest and the
  slowest: up to rounding it lies between the second fastest and the second slowest, and the
  division is never by zero, because a monitor demands at least three samples.\<close>

theorem latency_robust:
  assumes "new_monitor central url sample_count min_success interval = Some m"
    and "probe m web n = Some (Reached status latency p)"
  shows "let ts = sort (map (\<lambda>f. max 0 (snd f)) (filter (validated (nd_name n)) (answers m web n)))
    in 3 \<le> length ts \<and> trimmed ts \<noteq> [] \<and> 1000 * ts ! 1 - 1 / 2 \<le> of_int latency \<and>
       of_int latency \<le> 1000 * ts ! (length ts - 2) + 1 / 2"
proof -
  let ?ts = "map (\<lambda>f. max 0 (snd f)) (filter (validated (nd_name n)) (answers m web n))"
  from assms(1) have "3 \<le> mo_min_success m" by (auto simp: new_monitor_def split: if_splits)
  moreover obtain ss where "mo_min_success m \<le> length (filter (validated (nd_name n)) (answers m web n))"
    and lat: "latency = latency_of ?ts"
    using assms(2) by (rule probe_Reached)
  ultimately have len: "3 \<le> length ?ts" unfolding length_map by linarith
  then have "length (trimmed (sort ?ts)) \<noteq> 0" unfolding trimmed_def length_butlast length_tl length_sort by linarith
  then have ne: "trimmed (sort ?ts) \<noteq> []" by (simp only: length_0_conv not_False_eq_True)
  have nonneg: "\<forall>t \<in> set ?ts. 0 \<le> t" by auto
  show ?thesis unfolding Let_def lat
    using len ne latency_of_between [OF len nonneg] by (simp only: length_sort simp_thms)
qed

section \<open>The sweep\<close>

lemma validate_payload_ok:
  assumes "validate_payload (JObj p) node = Some Payload_ok"
  shows "map_of p ''node'' = Some (JStr node) \<and>
    (\<exists>a k. map_of p ''public_ipv4'' = Some a \<and> ip_of_json (Some a) = Some (V4 k) \<and> is_global (V4 k))"
proof -
  from assms have "map_of p ''node'' = Some (JStr node)"
    and ip: "\<not> (case ip_of_json (map_of p ''public_ipv4'') of None \<Rightarrow> True | Some a \<Rightarrow> \<not> is_ipv4 a \<or> \<not> is_global a)"
    by (simp_all add: validate_payload_def del: is_global.simps split: if_split_asm)
  moreover from ip obtain x where x: "ip_of_json (map_of p ''public_ipv4'') = Some x" "is_ipv4 x" "is_global x"
    by (simp del: is_global.simps split: option.split_asm)
  moreover obtain k where "x = V4 k" using x(2) by (cases x) auto
  ultimately show ?thesis by (cases "map_of p ''public_ipv4''") (auto simp del: is_global.simps)
qed

lemma validated_body: "validated node f \<Longrightarrow> validate_payload (JObj (body_of f)) node = Some Payload_ok"
proof -
  assume "validated node f"
  then obtain payload t where f: "f = (Body payload, t)" "validate_payload payload node = Some Payload_ok"
    by (cases f) (auto simp: validated_def split: fetch.splits)
  with validate_payload_obj [OF f(2)] show ?thesis by auto
qed

lemma probe_Unreached: "probe m web n = Some (Unreached st e) \<Longrightarrow> st \<noteq> ''online''"
  by (auto simp: probe_def Let_def split: option.split_asm if_split_asm)

lemma health_online:
  assumes "health_status p expected = ''online''"
  shows "(\<forall>e. expected = Some e \<longrightarrow> e \<noteq> [] \<longrightarrow> map_of p ''public_ipv4'' = Some (JStr e)) \<and>
    134217728 \<le> int_at p ''memory_available_bytes'' \<and> 2147483648 \<le> int_at p ''disk_free_bytes'' \<and>
    int_at p ''active_connections'' * 5 < int_at p ''max_connections'' * 4"
  using assms by (auto simp: health_status_def split: if_split_asm option.split_asm)

lemma nodes_sweep_enrollment [simp]: "nodes (sweep_enrollment now i st d) = nodes d"
  by (simp add: sweep_enrollment_def update_enrollment_def split: option.split)

lemma nodes_sweep_registration_row [simp]: "nodes (sweep_registration_row now i st d) = nodes d"
  by (simp add: sweep_registration_row_def split: option.split)

definition probed :: "clock \<Rightarrow> edge_node \<Rightarrow> probe_result \<Rightarrow> edge_node \<Rightarrow> edge_node" where
  "probed clk n result =
     (case result of
        Reached _ latency p \<Rightarrow> record_reached (effective_status n result) (clk 0) latency p
      | Unreached _ error \<Rightarrow> record_unreached (effective_status n result) error)"

lemma probed_fields [simp]:
  "nd_id (probed clk n r x) = nd_id x" "nd_enabled (probed clk n r x) = nd_enabled x"
  "nd_health_status (probed clk n r x) = effective_status n r"
  by (auto simp: probed_def record_reached_def record_unreached_def split: probe_result.split)

lemma record_probe_nodes: "nodes (record_probe clk n r d) = update_where (\<lambda>x. nd_id x = nd_id n) (probed clk n r) (nodes d)"
  by (simp add: record_probe_def update_node_def probed_def Let_def split: probe_result.split)

lemma sweep_nodes_rows:
  assumes "sweep_nodes m web clk ns d = Some (rs, d')" and "distinct (map nd_id ns)" and "x \<in> set (nodes d')"
  shows "(x \<in> set (nodes d) \<and> nd_id x \<notin> nd_id ` set ns) \<or>
    (\<exists>n \<in> set ns. \<exists>y \<in> set (nodes d). \<exists>r. probe m web n = Some r \<and> nd_id y = nd_id n \<and> x = probed (clk (nd_id n)) n r y)"
  using assms
proof (induction ns arbitrary: d rs)
  case Nil
  then show ?case by simp
next
  case (Cons n ns)
  then obtain r rs' d3 where r: "probe m web n = Some r" and s: "sweep_nodes m web clk ns d3 = Some (rs', d')"
    and d3: "nodes d3 = update_where (\<lambda>x. nd_id x = nd_id n) (probed (clk (nd_id n)) n r) (nodes d)"
    by (auto simp: Let_def record_probe_nodes split: option.splits)
  from Cons.prems(2) have fresh: "nd_id n \<notin> nd_id ` set ns" and dist: "distinct (map nd_id ns)" by auto
  from Cons.IH [OF s dist Cons.prems(3)] show ?case
  proof
    assume x: "x \<in> set (nodes d3) \<and> nd_id x \<notin> nd_id ` set ns"
    then have "x \<in> set (nodes d3)" by simp
    then show ?thesis unfolding d3
    proof (cases rule: update_where_cases)
      case (changed y)
      with r show ?thesis by auto
    next
      case kept
      with x show ?thesis by auto
    qed
  next
    assume "\<exists>k\<in>set ns. \<exists>y\<in>set (nodes d3). \<exists>r. probe m web k = Some r \<and> nd_id y = nd_id k \<and> x = probed (clk (nd_id k)) k r y"
    then obtain k y r' where k: "k \<in> set ns" "y \<in> set (nodes d3)" "probe m web k = Some r'" "nd_id y = nd_id k"
      "x = probed (clk (nd_id k)) k r' y" by blast
    from k(2) have "y \<in> set (nodes d)" unfolding d3
    proof (cases rule: update_where_cases)
      case (changed z)
      with k(1,4) fresh show ?thesis by auto
    qed simp
    with k show ?thesis by (intro disjI2 bexI [of _ k] bexI [of _ y] exI [of _ r']) simp_all
  qed
qed

lemma sweep_aborts:
  "n \<in> set ns \<Longrightarrow> probe m web n = None \<Longrightarrow> sweep_nodes m web clk ns d = None"
  by (induction ns arbitrary: d) (auto simp: Let_def split: option.splits)

text \<open>C31. A node the sweep leaves online is the node it claims to be, at the address it is expected at: at
  least the required number of probes came back with a status under the node's own name, no probe
  returned anything else that could be read, all of them reported one and the same global IPv4
  address, which is the expected one if there is one, and the last had memory, disk and connections
  to spare.\<close>

theorem online_node_verified:
  assumes "run_once m web clk d = (Some results, d')" and "unique_on nd_id (nodes d)"
    and "x \<in> set (nodes d')" and "nd_enabled x" and "nd_health_status x = ''online''"
  shows "\<exists>n p a k. n \<in> set (nodes d) \<and> nd_id n = nd_id x \<and> \<not> nd_maintenance_mode n \<and>
    mo_min_success m \<le> length (filter (validated (nd_name n)) (answers m web n)) \<and>
    (\<forall>f \<in> set (answers m web n). validated (nd_name n) f \<or> fst f = Transport_error) \<and>
    (\<forall>f \<in> set (answers m web n). validated (nd_name n) f \<longrightarrow> map_of (body_of f) ''public_ipv4'' = Some a) \<and>
    ip_of_json (Some a) = Some (V4 k) \<and> is_global (V4 k) \<and>
    (\<forall>e. nd_expected_public_ipv4 n = Some e \<longrightarrow> e \<noteq> [] \<longrightarrow> a = JStr e) \<and>
    p = body_of (last (filter (validated (nd_name n)) (answers m web n))) \<and>
    map_of p ''node'' = Some (JStr (nd_name n)) \<and> 134217728 \<le> int_at p ''memory_available_bytes'' \<and>
    2147483648 \<le> int_at p ''disk_free_bytes'' \<and> int_at p ''active_connections'' * 5 < int_at p ''max_connections'' * 4"
proof -
  let ?ns = "sort_key nd_id (filter nd_enabled (nodes d))"
  from assms(1) have s: "sweep_nodes m web clk ?ns d = Some (results, d')"
    by (auto simp: run_once_def split: option.splits prod.splits)
  have "distinct (map nd_id ?ns)"
    using assms(2) by (simp add: unique_on_def distinct_map inj_on_def)
  from sweep_nodes_rows [OF s this assms(3)] assms(4) obtain n y r where n: "n \<in> set (nodes d)" "probe m web n = Some r"
    "y \<in> set (nodes d)" "nd_id y = nd_id n" "x = probed (clk (nd_id n)) n r y"
    by auto
  with assms(5) have eff: "effective_status n r = ''online''" by simp
  then have maint: "\<not> nd_maintenance_mode n" by (auto simp: effective_status_def split: if_splits)
  with eff n(2) probe_Unreached [of m web n] obtain latency p where r: "r = Reached ''online'' latency p"
    by (cases r) (auto simp: effective_status_def)
  let ?good = "filter (validated (nd_name n)) (answers m web n)"
  obtain ss where ss: "collect_samples (answers m web n) (nd_name n) = Some ss" "fatal_errors ss = []"
    and q: "mo_min_success m \<le> length ?good"
    and same: "\<forall>f \<in> set ?good. \<forall>g \<in> set ?good.
       map_of (body_of f) ''public_ipv4'' = map_of (body_of g) ''public_ipv4''"
    and ne: "?good \<noteq> []" and p: "p = body_of (last ?good)" and st: "''online'' = health_status p (nd_expected_public_ipv4 n)"
    using n(2) unfolding r by (rule probe_Reached)
  have last: "last ?good \<in> set ?good" using ne by (rule last_in_set)
  then have "validated (nd_name n) (last ?good)" by (simp only: set_filter mem_Collect_eq)
  then obtain a k where a: "map_of p ''public_ipv4'' = Some a" "ip_of_json (Some a) = Some (V4 k)" "is_global (V4 k)"
    and node: "map_of p ''node'' = Some (JStr (nd_name n))"
    using validate_payload_ok [OF validated_body] unfolding p by blast
  have "map_of (body_of f) ''public_ipv4'' = Some a" if "f \<in> set (answers m web n)" "validated (nd_name n) f" for f
    using bspec [OF bspec [OF same, of f] last] that a(1) unfolding p by (simp only: set_filter mem_Collect_eq simp_thms)
  moreover have "\<forall>f \<in> set (answers m web n). validated (nd_name n) f \<or> fst f = Transport_error"
    using collect_no_fatal [OF ss] by blast
  moreover have "nd_id x = nd_id n" using n(4,5) by simp
  ultimately show ?thesis
    using n(1) maint q a node p health_online [OF st [symmetric]] by (intro exI [of _ n] exI [of _ p] exI [of _ a] exI [of _ k]) simp
qed

text \<open>One node can stop the monitoring of all: a status whose load is an integer too large for a
  floating-point number makes the validation raise an error that nothing catches, the sweep is
  abandoned, and no node is updated, however healthy the others are.\<close>

theorem one_node_aborts_sweep:
  assumes "n \<in> set (nodes d)" and "nd_enabled n" and "j < mo_sample_count m"
    and "web (nd_id n) (status_url m n) j = (Body payload, t)" and "validate_payload payload (nd_name n) = None"
  shows "run_once m web clk d = (None, d)"
proof -
  have "(Body payload, t) \<in> set (answers m web n)"
    using assms(3,4) by (auto simp: image_iff intro!: bexI [of _ j])
  moreover have "probe_sample (Body payload, t) (nd_name n) = None" using assms(5) by (simp add: probe_sample_def)
  ultimately have "collect_samples (answers m web n) (nd_name n) = None" by (rule collect_None)
  then have "probe m web n = None" by (simp add: probe_def)
  then have "sweep_nodes m web clk (sort_key nd_id (filter nd_enabled (nodes d))) d = None"
    using assms(1,2) by (intro sweep_aborts [of n]) auto
  then show ?thesis by (simp add: run_once_def)
qed

section \<open>Example statuses\<close>

definition demo_payload :: "json \<Rightarrow> (string \<times> json) list" where
  "demo_payload load =
     [(''node'', JStr ''n5''), (''active_connections'', JInt 0), (''max_connections'', JInt 2), (''accepted_connections'', JInt 0),
      (''denied_connections'', JInt 0), (''public_ipv4'', JStr ''8.8.8.8''), (''load_1m'', load),
      (''memory_total_bytes'', JInt 1000000000), (''memory_available_bytes'', JInt 500000000),
      (''disk_total_bytes'', JInt 10000000000), (''disk_free_bytes'', JInt 5000000000), (''uptime_seconds'', JInt 9),
      (''agent_version'', JStr ''1.0.0'')]"

definition demo_monitor :: monitor where
  "demo_monitor = \<lparr>mo_central_node_name = ''c'', mo_central_status_url = ''u'', mo_sample_count = 3, mo_min_success = 3\<rparr>"

lemma demo_payload_ok: "validate_payload (JObj (demo_payload (JInt 1))) ''n5'' = Some Payload_ok"
  using demo_ip
  by (simp add: validate_payload_def demo_payload_def metric_fields_def resource_fields_def int_at_def double_overflow_def
      del: is_global.simps)

lemma demo_payload_overflow: "validate_payload (JObj (demo_payload (JInt (2 ^ 1024)))) ''n5'' = None"
  using demo_ip
  by (simp add: validate_payload_def demo_payload_def metric_fields_def resource_fields_def int_at_def double_overflow_def
      del: is_global.simps)

lemma demo_answers: "answers demo_monitor (\<lambda>_ _ _. f) (demo_node 5 ''n5'') = [f, f, f]"
  by (simp add: demo_monitor_def upt_rec numeral_eq_Suc)

lemma demo_probe:
  "probe demo_monitor (\<lambda>_ _ _. (Body (JObj (demo_payload (JInt 1))), 1)) (demo_node 5 ''n5'') =
     Some (Reached ''online'' 1000 (demo_payload (JInt 1)))"
proof -
  have one: "probe_sample (Body (JObj (demo_payload (JInt 1))), 1) ''n5'' = Some (Good (demo_payload (JInt 1)) 1)"
    using demo_payload_ok by (simp add: probe_sample_def)
  have h: "health_status (demo_payload (JInt 1)) (Some ''8.8.8.8'') = ''online''"
    by (simp add: health_status_def demo_payload_def int_at_def)
  have l: "latency_of [1, 1, 1] = 1000" by (simp add: latency_of_def trimmed_def py_round_def)
  show ?thesis
    unfolding probe_def demo_answers using one h l
    by (simp add: demo_node_def good_samples_def fatal_errors_def sample_errors_def Let_def demo_monitor_def)
qed

theorem latency_robust_witness:
  "\<exists>m. new_monitor ''c'' ''u'' 3 3 0 = Some m \<and>
     probe m (\<lambda>_ _ _. (Body (JObj (demo_payload (JInt 1))), 1)) (demo_node 5 ''n5'') = Some (Reached ''online'' 1000 (demo_payload (JInt 1))) \<and>
     trimmed (sort (map (\<lambda>f. max 0 (snd f)) (filter (validated (nd_name (demo_node 5 ''n5'')))
       (answers m (\<lambda>_ _ _. (Body (JObj (demo_payload (JInt 1))), 1)) (demo_node 5 ''n5''))))) \<noteq> []"
proof -
  have m: "new_monitor ''c'' ''u'' 3 3 0 = Some demo_monitor" by (simp add: new_monitor_def demo_monitor_def)
  from latency_robust [OF m demo_probe] m demo_probe show ?thesis unfolding Let_def by blast
qed

definition demo_sweep_db :: db where
  "demo_sweep_db = empty_db\<lparr>nodes := [demo_node 5 ''n5'']\<rparr>"

theorem online_node_verified_witness:
  "\<exists>results d' x. run_once demo_monitor (\<lambda>_ _ _. (Body (JObj (demo_payload (JInt 1))), 1)) (\<lambda>_ _. 0) demo_sweep_db = (Some results, d') \<and>
     x \<in> set (nodes d') \<and> nd_health_status x = ''online'' \<and> (\<exists>n \<in> set (nodes demo_sweep_db). nd_id n = nd_id x)"
proof -
  let ?web = "\<lambda>(_ :: int) (_ :: string) (_ :: nat). (Body (JObj (demo_payload (JInt 1))), 1 :: rat)"
  have n: "nd_id (demo_node 5 ''n5'') = 5" "nd_enabled (demo_node 5 ''n5'')" "\<not> nd_maintenance_mode (demo_node 5 ''n5'')"
    by (simp_all add: demo_node_def)
  obtain results d' where run: "run_once demo_monitor ?web (\<lambda>_ _. 0) demo_sweep_db = (Some results, d')"
    and nodes: "nodes d' = [probed (\<lambda>_. 0) (demo_node 5 ''n5'') (Reached ''online'' 1000 (demo_payload (JInt 1))) (demo_node 5 ''n5'')]"
    using demo_probe n by (simp add: run_once_def demo_sweep_db_def empty_db_def Let_def record_probe_nodes)
  let ?x = "probed (\<lambda>_. 0) (demo_node 5 ''n5'') (Reached ''online'' 1000 (demo_payload (JInt 1))) (demo_node 5 ''n5'')"
  have x: "?x \<in> set (nodes d')" "nd_enabled ?x" "nd_health_status ?x = ''online''"
    using nodes n by (simp_all add: effective_status_def)
  have "unique_on nd_id (nodes demo_sweep_db)" by (simp add: unique_on_def demo_sweep_db_def)
  from online_node_verified [OF run this x] run x show ?thesis by blast
qed

theorem one_node_aborts_sweep_witness:
  "run_once demo_monitor (\<lambda>_ _ _. (Body (JObj (demo_payload (JInt (2 ^ 1024)))), 1)) (\<lambda>_ _. 0) demo_sweep_db = (None, demo_sweep_db)"
  by (rule one_node_aborts_sweep [of "demo_node 5 ''n5''" _ 0, OF _ _ _ refl])
    (use demo_payload_overflow in \<open>simp_all add: demo_sweep_db_def demo_node_def demo_monitor_def\<close>)

end
