(* ===== verification/Node_Lifecycle.thy ===== *)
theory Node_Lifecycle
  imports Registration Edge_Health
begin

text \<open>
  The life of a registration across every component that writes it: the registration handlers, the
  installer's reports, the deletion of a node and the health monitor, in any order and interleaved
  between the reading and the writing of each other.

  The abstract protocol is \<open>reg_move\<close>, the moves of one registration between seven phases. \<open>phase\<close> is
  the abstraction of a database for one request. \<open>reach\<close> is what the database can become; a handler
  that reads in \<open>d\<close> and writes in \<open>w\<close> takes part with any \<open>w\<close> reachable from \<open>d\<close>. The handlers refine
  the protocol: whatever happens to the database, each registration moves as \<open>reg_move\<close> allows.
\<close>

section \<open>The abstract protocol\<close>

datatype reg_phase = Absent | Unproved | Undecided | Approved | Rejected | Expired | Deployed

inductive reg_move :: "reg_phase \<Rightarrow> reg_phase \<Rightarrow> bool" where
  request: "reg_move Absent Unproved"
| prove: "reg_move Unproved Undecided"
| lapse_proof: "reg_move Unproved Expired"
| lapse_decision: "reg_move Undecided Expired"
| accept: "reg_move Undecided Approved"
| reject: "reg_move Undecided Rejected"
| deploy: "reg_move Approved Deployed"
| purge: "reg_move Expired Absent"

inductive_simps reg_move_from [simp]:
  "reg_move Absent p" "reg_move Unproved p" "reg_move Undecided p" "reg_move Approved p" "reg_move Rejected p"
  "reg_move Expired p" "reg_move Deployed p"

definition status_phase :: "string \<Rightarrow> reg_phase" where
  "status_phase s =
     (if s = ''pending_proof'' then Unproved else if s = ''pending_approval'' then Undecided
      else if s = ''approved'' then Approved else if s = ''rejected'' then Rejected
      else if s = ''expired'' then Expired else Deployed)"

abbreviation row_phase :: "registration_request \<Rightarrow> reg_phase" where
  "row_phase r \<equiv> status_phase (rg_status r)"

definition table_phase :: "registration_request list \<Rightarrow> string \<Rightarrow> reg_phase" where
  "table_phase t i = (case find_row (\<lambda>r. rg_id r = i) t of None \<Rightarrow> Absent | Some r \<Rightarrow> row_phase r)"

definition phase :: "db \<Rightarrow> string \<Rightarrow> reg_phase" where
  "phase d i = (case get_registration d i of None \<Rightarrow> Absent | Some r \<Rightarrow> row_phase r)"

lemma phase_table: "phase d i = table_phase (registrations d) i"
  by (simp add: phase_def table_phase_def get_registration_def)

section \<open>The invariant of the rows\<close>

definition row_ok :: "registration_request \<Rightarrow> bool" where
  "row_ok r \<longleftrightarrow>
     rg_status r \<in> {''pending_proof'', ''pending_approval'', ''approved'', ''rejected'', ''expired'', ''installing'', ''ready'',
                    ''failed'', ''online''} \<and>
     (row_phase r \<in> {Undecided, Approved, Rejected, Deployed} \<longrightarrow> rg_proved_at r \<noteq> None) \<and>
     (row_phase r \<in> {Approved, Rejected, Deployed} \<longrightarrow> rg_decided_by_user_id r \<noteq> None) \<and>
     (rg_edge_node_id r \<noteq> None \<longrightarrow> row_phase r \<in> {Approved, Deployed})"

definition table_ok :: "registration_request list \<Rightarrow> bool" where
  "table_ok t \<longleftrightarrow> unique_on rg_id t \<and> (\<forall>r \<in> set t. row_ok r)"

text \<open>What every write must be: it keeps the invariant and moves every request as the protocol allows.\<close>

definition legal :: "registration_request list \<Rightarrow> registration_request list \<Rightarrow> bool" where
  "legal t t' \<longleftrightarrow> (table_ok t \<longrightarrow> table_ok t' \<and> (\<forall>i. reg_move\<^sup>*\<^sup>* (table_phase t i) (table_phase t' i)))"

lemma legal_refl [simp, intro]: "legal t t"
  by (simp add: legal_def)

lemma legal_trans: "legal t u \<Longrightarrow> legal u v \<Longrightarrow> legal t v"
  unfolding legal_def by (meson rtranclp_trans)

lemma move_star: "reg_move p q \<Longrightarrow> reg_move\<^sup>*\<^sup>* p q"
  by (rule r_into_rtranclp)

subsection \<open>One lemma per shape of statement\<close>

lemma legal_update:
  assumes "\<And>r. r \<in> set t \<Longrightarrow> p r \<Longrightarrow> table_ok t \<Longrightarrow> row_ok r \<Longrightarrow>
      rg_id (f r) = rg_id r \<and> row_ok (f r) \<and> reg_move\<^sup>*\<^sup>* (row_phase r) (row_phase (f r))"
  shows "legal t (update_where p f t)"
  unfolding legal_def
proof (intro impI conjI allI)
  assume ok: "table_ok t"
  have f: "rg_id (f r) = rg_id r \<and> row_ok (f r) \<and> reg_move\<^sup>*\<^sup>* (row_phase r) (row_phase (f r))"
    if "r \<in> set t" "p r" for r
    using assms [OF that ok] ok that by (simp add: table_ok_def)
  have "map rg_id (update_where p f t) = map rg_id t" using f by (auto simp: update_where_def)
  with ok f show "table_ok (update_where p f t)"
    by (auto simp: table_ok_def unique_on_def set_update_where)
  fix i
  have "find_row (\<lambda>r. rg_id r = i) (update_where p f t) =
      map_option (\<lambda>r. if p r then f r else r) (find_row (\<lambda>r. rg_id r = i) t)"
    using f by (intro find_row_update_kept) auto
  with f show "reg_move\<^sup>*\<^sup>* (table_phase t i) (table_phase (update_where p f t) i)"
    by (cases "find_row (\<lambda>r. rg_id r = i) t") (auto simp: table_phase_def simp del: find_row_None dest: find_row_Some)
qed

lemma legal_update_key:
  assumes "r \<in> set t" and "table_ok t \<Longrightarrow> row_ok r \<Longrightarrow>
      rg_id (f r) = rg_id r \<and> row_ok (f r) \<and> reg_move\<^sup>*\<^sup>* (row_phase r) (row_phase (f r))"
  shows "legal t (update_where (\<lambda>x. rg_id x = rg_id r) f t)"
proof (rule legal_update)
  fix x assume "x \<in> set t" "rg_id x = rg_id r" "table_ok t" "row_ok x"
  moreover from this assms(1) have "x = r" by (auto simp: table_ok_def dest: unique_onD)
  ultimately show "rg_id (f x) = rg_id x \<and> row_ok (f x) \<and> reg_move\<^sup>*\<^sup>* (row_phase x) (row_phase (f x))"
    using assms(2) by simp
qed

lemma legal_insert:
  assumes "rg_id r \<notin> rg_id ` set t" and "row_ok r" and "row_phase r = Unproved"
  shows "legal t (t @ [r])"
  unfolding legal_def
proof (intro impI conjI allI)
  assume "table_ok t"
  with assms show "table_ok (t @ [r])" by (auto simp: table_ok_def unique_on_insert)
  fix i
  show "reg_move\<^sup>*\<^sup>* (table_phase t i) (table_phase (t @ [r]) i)"
    using assms by (cases "find_row (\<lambda>r. rg_id r = i) t")
      (auto simp: table_phase_def find_row_append simp del: find_row_None intro: move_star)
qed

lemma find_row_delete:
  "find_row q (delete_where p t) = find_row (\<lambda>r. q r \<and> \<not> p r) t"
  by (induction t) (auto simp: delete_where_def)

lemma legal_delete:
  assumes "\<And>r. r \<in> set t \<Longrightarrow> p r \<Longrightarrow> row_phase r = Expired"
  shows "legal t (delete_where p t)"
  unfolding legal_def
proof (intro impI conjI allI)
  assume ok: "table_ok t"
  then show "table_ok (delete_where p t)" by (auto simp: table_ok_def unique_on_delete_where set_delete_where)
  fix i
  show "reg_move\<^sup>*\<^sup>* (table_phase t i) (table_phase (delete_where p t) i)"
  proof (cases "find_row (\<lambda>r. rg_id r = i) t")
    case None
    then have "find_row (\<lambda>r. rg_id r = i \<and> \<not> p r) t = None" by auto
    with None show ?thesis by (simp add: table_phase_def find_row_delete del: find_row_None)
  next
    case (Some r)
    then have r: "r \<in> set t" "rg_id r = i" by (auto dest: find_row_Some)
    show ?thesis
    proof (cases "p r")
      case True
      have "x = r" if "x \<in> set t" "rg_id x = i" for x
        using unique_onD [of rg_id t x r] ok that r by (simp add: table_ok_def)
      with True have "find_row (\<lambda>r. rg_id r = i \<and> \<not> p r) t = None" by auto
      with Some assms [OF r(1) True] show ?thesis
        by (simp add: table_phase_def find_row_delete move_star del: find_row_None)
    next
      case False
      with ok r have "find_row (\<lambda>x. rg_id x = i \<and> \<not> p x) t = Some r"
        using find_row_key [of rg_id "filter (\<lambda>x. \<not> p x) t" r] unique_on_delete_where [of rg_id t p]
        by (simp add: table_ok_def delete_where_def flip: find_row_delete)
      with Some show ?thesis by (simp add: table_phase_def find_row_delete)
    qed
  qed
qed

section \<open>Every handler is legal\<close>

lemma status_phases [simp]:
  "status_phase ''pending_proof'' = Unproved" "status_phase ''pending_approval'' = Undecided"
  "status_phase ''approved'' = Approved" "status_phase ''rejected'' = Rejected" "status_phase ''expired'' = Expired"
  "status_phase ''installing'' = Deployed" "status_phase ''ready'' = Deployed" "status_phase ''failed'' = Deployed"
  "status_phase ''online'' = Deployed"
  by (simp_all add: status_phase_def)

text \<open>A report or a sweep gives the row of a node one of the four statuses of a deployed node.\<close>

lemma deploy_legal:
  fixes now err
  assumes "row_ok r" and "rg_edge_node_id r \<noteq> None" and "s \<in> {''installing'', ''ready'', ''failed'', ''online''}"
  defines "r' \<equiv> r\<lparr>rg_status := s, rg_updated_at := now, rg_last_error := err\<rparr>"
  shows "rg_id r' = rg_id r \<and> row_ok r' \<and> reg_move\<^sup>*\<^sup>* (row_phase r) (row_phase r')"
proof -
  from assms(1,2) have p: "row_phase r = Approved \<or> row_phase r = Deployed" "rg_proved_at r \<noteq> None" "rg_decided_by_user_id r \<noteq> None"
    by (auto simp: row_ok_def)
  from assms(3) have s: "status_phase s = Deployed"
    by (elim insertE emptyE) simp_all
  have "row_ok r'" unfolding row_ok_def using p s assms(3) by (simp add: r'_def)
  moreover have "reg_move\<^sup>*\<^sup>* (row_phase r) (row_phase r')" using p(1) s by (auto simp: r'_def intro: move_star)
  ultimately show ?thesis by (simp add: r'_def)
qed

lemma expire_legal:
  assumes "row_ok r" and "rg_status r = ''pending_proof'' \<or> rg_status r = ''pending_approval''"
  shows "rg_id (expire_registration now r) = rg_id r \<and> row_ok (expire_registration now r) \<and>
    reg_move\<^sup>*\<^sup>* (row_phase r) (row_phase (expire_registration now r))"
  using assms(2) by (rule disjE) (use assms(1) in \<open>simp_all add: expire_registration_def row_ok_def move_star\<close>)

lemma create_legal:
  assumes "create_node_registration hash keys clk uuid challenge secret source body d = (res, d')"
  shows "legal (registrations d) (registrations d')"
proof -
  let ?new = "\<lambda>key. new_registration hash keys key (clk 0) uuid challenge secret body"
  have "legal (registrations d) (registrations d @ [?new key])" if "rg_id (?new key) \<notin> rg_id ` set (registrations d)" for key
    using that by (intro legal_insert) (auto simp: new_registration_def row_ok_def)
  with assms show ?thesis
    by (auto simp: create_node_registration_def Let_def split: option.split_asm if_split_asm pem_result.split_asm)
qed

lemma prove_legal:
  assumes "prove_node_registration hash keys clk (\<lambda>_. w) source authorization i body d = (res, d')"
  shows "legal (registrations d) (registrations d') \<or> legal (registrations w) (registrations d')"
proof -
  have lapse: "legal (registrations d) (registrations (update_registration (rg_id r) (expire_registration (clk 0)) d))"
    if "registration_token_parts hash i authorization d = Some r" "rg_status r = ''pending_proof''" for r
  proof -
    from that(1) have "get_registration d i = Some r"
      by (auto simp: registration_token_parts_def split: option.split_asm if_split_asm)
    then have "r \<in> set (registrations d)" by (auto dest: registration_table.lookup_Some)
    with that(2) show ?thesis
      unfolding update_registration_def by (simp, intro legal_update_key expire_legal) simp_all
  qed
  have prove: "legal (registrations w) (update_where (prove_where r) (proved (clk 0)) (registrations w))" for r
    by (rule legal_update) (auto simp: prove_where_def proved_def row_ok_def intro: move_star)
  from assms lapse prove show ?thesis
    by (auto simp: prove_node_registration_def Let_def split: option.split_asm if_split_asm)
qed

lemma accept_legal:
  assumes "accept_node_registration hash mac sk clk secret uuid fresh (\<lambda>_. w) actor i body d = (res, d')"
  shows "legal (registrations d) (registrations d') \<or> legal (registrations w) (registrations d')"
proof -
  have "legal (registrations w) (update_where (accept_where r) (approved now a ssh c n) (registrations w))" for r now a ssh c n
    by (rule legal_update) (auto simp: accept_where_def approved_def row_ok_def intro: move_star)
  with assms show ?thesis
    by (auto simp: accept_node_registration_def Let_def split: option.split_asm if_split_asm)
qed

lemma reject_legal:
  assumes "reject_node_registration clk (\<lambda>_. w) actor i reason d = (res, d')"
  shows "legal (registrations d) (registrations d') \<or> legal (registrations w) (registrations d')"
proof -
  have "legal (registrations w) (update_where (reject_where r) (rejected now a why) (registrations w))" for r now a why
    by (rule legal_update) (auto simp: reject_where_def rejected_def row_ok_def intro: move_star)
  with assms show ?thesis
    by (auto simp: reject_node_registration_def Let_def split: option.split_asm if_split_asm)
qed

lemma claim_legal:
  assumes "claim_approved_node_registration hash mac sk keys package po clk (\<lambda>_. w) source authorization i body d = (res, d')"
  shows "legal (registrations d) (registrations d') \<or> legal (registrations w) (registrations d')"
proof -
  have "legal (registrations w) (update_where (claim_approved_where r) (installing now) (registrations w))" for r now
    by (rule legal_update) (auto simp: claim_approved_where_def installing_def row_ok_def intro: move_star)
  with assms show ?thesis
    by (auto simp: claim_approved_node_registration_def Let_def update_enrollment_def
        split: option.split_asm if_split_asm sum.split_asm bool.split_asm)
qed

lemma list_legal: "legal (registrations d) (registrations (snd (list_node_registration_requests now d)))"
proof -
  let ?due = "\<lambda>r. rg_status r \<in> {''pending_proof'', ''pending_approval''} \<and> rg_challenge_expires_at r \<le> now"
  have "map (sweep_registration now) (registrations d) = update_where ?due (expire_registration now) (registrations d)"
    by (simp add: update_where_def sweep_registration_def)
  moreover have "legal (registrations d) (update_where ?due (expire_registration now) (registrations d))"
    by (rule legal_update, rule expire_legal) simp_all
  moreover have "legal t (delete_where (history_expired now) t)" for t
    by (rule legal_delete) (simp add: history_expired_def)
  ultimately show ?thesis
    by (simp add: list_node_registration_requests_def Let_def) (metis legal_trans)
qed

lemma report_registration_legal:
  assumes "s \<in> {''failed'', ''ready'', ''installing''}"
  shows "legal (registrations d) (registrations (fst (report_registration now n s err d)))"
proof (cases "find_row (\<lambda>r. rg_edge_node_id r = Some n) (registrations d)")
  case None
  then show ?thesis by (simp add: report_registration_def del: find_row_None)
next
  case (Some r)
  then have r: "r \<in> set (registrations d)" "rg_edge_node_id r = Some n" by (auto dest: find_row_Some)
  let ?r = "r\<lparr>rg_status := s, rg_updated_at := now, rg_last_error := err\<rparr>"
  have "legal (registrations d) (update_where (\<lambda>x. rg_id x = rg_id r) (\<lambda>_. ?r) (registrations d))"
    using r assms by (intro legal_update_key deploy_legal) auto
  with Some show ?thesis by (simp add: report_registration_def Let_def)
qed

lemma report_legal:
  assumes "report_edge_enrollment hash clk authorization body d = (res, d')"
  shows "legal (registrations d) (registrations d')"
proof -
  have "legal (registrations x) (registrations y)" if "report_registration now n (report_status p) err x = (y, c)"
    for now n p err x y c
    using report_registration_legal [of "report_status p" x now n err] that by (simp add: report_status_def)
  with assms show ?thesis
    by (fastforce simp: report_edge_enrollment_def Let_def update_enrollment_def update_node_def
        split: option.split_asm if_split_asm prod.split_asm)
qed

lemma delete_node_legal:
  assumes "delete_edge_node fk (\<lambda>_. w) clk actor n d = (res, d')"
  shows "legal (registrations d) (registrations d') \<or> legal (registrations w) (registrations d')"
proof -
  have "legal (registrations w) (update_where p (\<lambda>r. r\<lparr>rg_edge_node_id := None\<rparr>) (registrations w))" for p
    by (rule legal_update) (auto simp: row_ok_def)
  with assms show ?thesis
    by (auto simp: delete_edge_node_def Let_def split: option.split_asm if_split_asm)
qed

lemma sweep_row_legal: "legal (registrations d) (registrations (sweep_registration_row now n s d))"
proof (cases "find_row (monitored_registration n) (registrations d)")
  case None
  then show ?thesis by (simp add: sweep_registration_row_def del: find_row_None)
next
  case (Some r)
  then have r: "r \<in> set (registrations d)" "monitored_registration n r" by (auto dest: find_row_Some)
  have "legal (registrations d) (update_where (\<lambda>x. rg_id x = rg_id r)
      (\<lambda>x. x\<lparr>rg_status := s', rg_updated_at := now, rg_last_error := err\<rparr>) (registrations d))"
    if "s' \<in> {''online'', ''failed''}" for s' err
    using r that by (intro legal_update_key deploy_legal) (auto simp: monitored_registration_def)
  with Some show ?thesis by (simp add: sweep_registration_row_def)
qed

lemma sweep_nodes_legal:
  assumes "sweep_nodes m web clk ns d = Some (rs, d')"
  shows "legal (registrations d) (registrations d')"
  using assms
proof (induction ns arbitrary: d rs)
  case (Cons n ns)
  then obtain result rs' where p: "probe m web n = Some result"
    and s: "sweep_nodes m web clk ns (sweep_registration_row (clk (nd_id n) 2) (nd_id n) (effective_status n result)
      (sweep_enrollment (clk (nd_id n) 1) (nd_id n) (effective_status n result) (record_probe (clk (nd_id n)) n result d)))
      = Some (rs', d')"
    by (auto simp: Let_def split: option.split_asm)
  have "registrations (sweep_enrollment now i st (record_probe c n result d)) = registrations d" for now i st c
    by (auto simp: sweep_enrollment_def record_probe_def update_enrollment_def update_node_def Let_def split: option.split)
  with Cons.IH [OF s] sweep_row_legal show ?case by (metis legal_trans)
qed simp

lemma run_once_legal: "legal (registrations d) (registrations (snd (run_once m web clk d)))"
  using sweep_nodes_legal by (auto simp: run_once_def split: option.split)

section \<open>What the database can become\<close>

text \<open>\<open>handled d w d'\<close>: a handler that read in \<open>d\<close> and wrote over \<open>w\<close> left \<open>d'\<close>. The handlers that read and
  write under one lock of the row have \<open>w\<close> equal to \<open>d\<close>.\<close>

inductive handled :: "db \<Rightarrow> db \<Rightarrow> db \<Rightarrow> bool" where
  create: "create_node_registration hash keys clk uuid challenge secret source body d = (res, d') \<Longrightarrow> handled d d d'"
| prove: "prove_node_registration hash keys clk (\<lambda>_. w) source authorization i signed d = (res, d') \<Longrightarrow> handled d w d'"
| accept: "accept_node_registration hash mac sk clk secret uuid fresh (\<lambda>_. w) actor i acceptance d = (res, d') \<Longrightarrow> handled d w d'"
| reject: "reject_node_registration clk (\<lambda>_. w) actor i reason d = (res, d') \<Longrightarrow> handled d w d'"
| claim: "claim_approved_node_registration hash mac sk keys package po clk (\<lambda>_. w) source authorization i signed d = (res, d') \<Longrightarrow>
    handled d w d'"
| listing: "list_node_registration_requests now d = (rows, d') \<Longrightarrow> handled d d d'"
| report: "report_edge_enrollment hash clk authorization news d = (res, d') \<Longrightarrow> handled d d d'"
| delete: "delete_edge_node fk (\<lambda>_. w) clk actor node d = (gone, d') \<Longrightarrow> handled d w d'"
| monitor: "run_once m web clocks d = (results, d') \<Longrightarrow> handled d d d'"
| elsewhere: "registrations d' = registrations d \<Longrightarrow> handled d d d'"

inductive reach :: "db \<Rightarrow> db \<Rightarrow> bool" where
  start: "reach d d"
| step: "reach d0 d \<Longrightarrow> reach d w \<Longrightarrow> handled d w d' \<Longrightarrow> reach d0 d'"

lemma handled_legal:
  assumes "handled d w d'"
  shows "legal (registrations d) (registrations d') \<or> legal (registrations w) (registrations d')"
  using assms
proof (cases rule: handled.cases)
  case create
  then show ?thesis by (blast dest: create_legal)
next
  case prove
  then show ?thesis by (blast dest: prove_legal)
next
  case accept
  then show ?thesis by (blast dest: accept_legal)
next
  case reject
  then show ?thesis by (blast dest: reject_legal)
next
  case claim
  then show ?thesis by (blast dest: claim_legal)
next
  case (listing now rows)
  then show ?thesis using list_legal [of d now] by simp
next
  case report
  then show ?thesis by (blast dest: report_legal)
next
  case delete
  then show ?thesis by (blast dest: delete_node_legal)
next
  case (monitor m web clocks results)
  then show ?thesis using run_once_legal [of d m web clocks] by simp
next
  case elsewhere
  then show ?thesis by simp
qed

lemma reach_legal: "reach d0 d \<Longrightarrow> legal (registrations d0) (registrations d)"
proof (induction rule: reach.induct)
  case (step d0 d w d')
  from handled_legal [OF step.hyps(3)] show ?case
    using step.IH by (blast intro: legal_trans)
qed simp

lemma moves_only_up:
  assumes "reg_move\<^sup>*\<^sup>* p q"
  shows "(p = Deployed \<longrightarrow> q = Deployed) \<and> (p = Rejected \<longrightarrow> q = Rejected) \<and> (p = Approved \<longrightarrow> q \<in> {Approved, Deployed})"
  using assms by (induction rule: rtranclp_induct) auto



section \<open>A life\<close>

definition demo_request_db :: db where
  "demo_request_db =
     demo_enroll_db\<lparr>registrations := [demo_registration\<lparr>rg_status := ''pending_approval'', rg_decided_at := None,
        rg_decided_by_user_id := None, rg_edge_node_id := None\<rparr>]\<rparr>"

lemma demo_request_rejected:
  "\<exists>d'. reject_node_registration (\<lambda>_. 7) (\<lambda>_. demo_request_db) (demo_user 1 ''root'' ''admin'') ''r1'' ''no'' demo_request_db =
     (Inr [(''id'', VStr ''r1''), (''status'', VStr ''rejected'')], d') \<and>
     (\<exists>r. get_registration d' ''r1'' = Some r \<and> rg_status r = ''rejected'')"
  by (simp add: reject_node_registration_def demo_request_db_def demo_registration_def get_registration_def
      count_where_def reject_where_def rejected_def update_where_def Let_def)

lemma demo_request_ok: "table_ok (registrations demo_request_db)"
  by (simp add: demo_request_db_def demo_registration_def table_ok_def unique_on_def row_ok_def)

lemma demo_request_reach:
  obtains d r where "reach demo_request_db d" "get_registration d ''r1'' = Some r" "rg_status r = ''rejected''"
proof -
  from demo_request_rejected obtain d r where
    run: "reject_node_registration (\<lambda>_. 7) (\<lambda>_. demo_request_db) (demo_user 1 ''root'' ''admin'') ''r1'' ''no'' demo_request_db =
      (Inr [(''id'', VStr ''r1''), (''status'', VStr ''rejected'')], d)"
    and r: "get_registration d ''r1'' = Some r" "rg_status r = ''rejected''" by blast
  from run have "reach demo_request_db d" by (blast intro: reach.intros handled.reject)
  from this r show ?thesis by (rule that)
qed



end
