(* ===== verification/Local_Sync.thy ===== *)
theory Local_Sync
  imports Control_Model Urls
begin

text \<open>
  The synchronisation of browsing history and open tabs between the devices of a user
  (\<open>local_browser_sync\<close> in \<open>cloudbrowser/app.py\<close>). The session flushes before each query, so an item sees
  the rows the items before it have added. \<open>json.dumps\<close> followed by \<open>json.loads\<close> gives the tabs back, so the
  stored text is represented by the list of tabs.
\<close>

section \<open>The handler\<close>

record history_item =
  hi_url :: string
  hi_title :: string
  hi_last_visit_ms :: int
  hi_visit_count :: int

record local_sync_body =
  sy_device_id :: string
  sy_history :: "history_item list"
  sy_tabs :: "(string \<times> string) list"

text \<open>The test of every URL in order: \<open>None\<close> is the exception of the parser.\<close>

fun urls_allowed :: "string list \<Rightarrow> bool option" where
  "urls_allowed [] = Some True"
| "urls_allowed (u # us) =
     (case is_url_allowed u of None \<Rightarrow> None | Some False \<Rightarrow> Some False | Some True \<Rightarrow> urls_allowed us)"

definition history_key :: "int \<Rightarrow> string \<Rightarrow> history_entry \<Rightarrow> bool" where
  "history_key user_id url h \<longleftrightarrow> hs_user_id h = user_id \<and> hs_url h = url"

definition merge_entry :: "history_item \<Rightarrow> history_entry \<Rightarrow> history_entry" where
  "merge_entry item h =
     (let h1 = (if hi_last_visit_ms item \<ge> hs_last_visit_ms h
                then h\<lparr>hs_title := hi_title item, hs_last_visit_ms := hi_last_visit_ms item\<rparr> else h)
      in h1\<lparr>hs_visit_count := max (hs_visit_count h1) (hi_visit_count item)\<rparr>)"

definition merge_history_item :: "int \<Rightarrow> history_item \<Rightarrow> history_entry list \<Rightarrow> history_entry list" where
  "merge_history_item user_id item t =
     (case find_row (history_key user_id (hi_url item)) t of
        None \<Rightarrow> t @ [\<lparr>hs_id = next_id hs_id t, hs_user_id = user_id, hs_url = hi_url item, hs_title = hi_title item,
                     hs_last_visit_ms = hi_last_visit_ms item, hs_visit_count = hi_visit_count item\<rparr>]
      | Some h \<Rightarrow> update_where (\<lambda>x. hs_id x = hs_id h) (\<lambda>_. merge_entry item h) t)"

definition merge_history :: "int \<Rightarrow> history_item list \<Rightarrow> history_entry list \<Rightarrow> history_entry list" where
  "merge_history user_id items t = fold (merge_history_item user_id) items t"

definition tab_key :: "int \<Rightarrow> string \<Rightarrow> tab_snapshot \<Rightarrow> bool" where
  "tab_key user_id device_id s \<longleftrightarrow> tb_user_id s = user_id \<and> tb_device_id s = device_id"

definition store_tabs :: "instant \<Rightarrow> int \<Rightarrow> string \<Rightarrow> (string \<times> string) list \<Rightarrow> tab_snapshot list \<Rightarrow> tab_snapshot list" where
  "store_tabs now user_id device_id ts t =
     (case find_row (tab_key user_id device_id) t of
        None \<Rightarrow> t @ [\<lparr>tb_id = next_id tb_id t, tb_user_id = user_id, tb_device_id = device_id, tb_tabs = ts, tb_updated_at = now\<rparr>]
      | Some s \<Rightarrow> update_where (\<lambda>x. tb_id x = tb_id s) (\<lambda>x. x\<lparr>tb_tabs := ts, tb_updated_at := now\<rparr>) t)"

record sync_response =
  sr_history :: "history_item list"
  sr_tabs_by_device :: "(string \<times> (string \<times> string) list) list"

definition sync_response_of :: "user \<Rightarrow> db \<Rightarrow> sync_response" where
  "sync_response_of u d =
     \<lparr>sr_history = map (\<lambda>h. \<lparr>hi_url = hs_url h, hi_title = hs_title h, hi_last_visit_ms = hs_last_visit_ms h,
                              hi_visit_count = hs_visit_count h\<rparr>)
        (take 1000 (sort_key (\<lambda>h. - hs_last_visit_ms h) (filter (\<lambda>h. hs_user_id h = us_id u) (history d)))),
      sr_tabs_by_device = dict_of_pairs (map (\<lambda>s. (tb_device_id s, tb_tabs s))
        (sort_key tb_device_id (filter (\<lambda>s. tb_user_id s = us_id u) (tabs d))))\<rparr>"

definition local_browser_sync :: "clock \<Rightarrow> user \<Rightarrow> local_sync_body \<Rightarrow> db \<Rightarrow> sync_response result" where
  "local_browser_sync clk u body d =
     (case urls_allowed (map hi_url (sy_history body) @ map fst (sy_tabs body)) of
        None \<Rightarrow> (Inl Server_error, d)
      | Some False \<Rightarrow> fail 400 ''Unsafe URL in sync payload'' d
      | Some True \<Rightarrow>
          (let d1 = d\<lparr>history := merge_history (us_id u) (sy_history body) (history d),
                      tabs := store_tabs (clk 0) (us_id u) (sy_device_id body) (sy_tabs body) (tabs d)\<rparr>;
               d2 = audit ''local_browser.synced'' (Some (us_id u)) (Some ''device'') (Some (sy_device_id body)) [] (clk 1) d1
           in (Inr (sync_response_of u d2), d2)))"

section \<open>What is known of a page\<close>

text \<open>The title, the time of the last visit and the number of visits a user has for a page.\<close>

definition page :: "history_entry list \<Rightarrow> int \<Rightarrow> string \<Rightarrow> (string \<times> int \<times> int) option" where
  "page t user_id url =
     map_option (\<lambda>h. (hs_title h, hs_last_visit_ms h, hs_visit_count h)) (find_row (history_key user_id url) t)"

fun visit :: "history_item \<Rightarrow> (string \<times> int \<times> int) option \<Rightarrow> (string \<times> int \<times> int) option" where
  "visit x None = Some (hi_title x, hi_last_visit_ms x, hi_visit_count x)"
| "visit x (Some (t, l, c)) =
     Some (if hi_last_visit_ms x \<ge> l then (hi_title x, hi_last_visit_ms x, max c (hi_visit_count x))
           else (t, l, max c (hi_visit_count x)))"

definition history_unique :: "history_entry list \<Rightarrow> bool" where
  "history_unique t \<longleftrightarrow> unique_on hs_id t \<and> unique_on (\<lambda>h. (hs_user_id h, hs_url h)) t"

lemma merge_entry_fields [simp]:
  "hs_id (merge_entry x h) = hs_id h" "hs_user_id (merge_entry x h) = hs_user_id h" "hs_url (merge_entry x h) = hs_url h"
  by (simp_all add: merge_entry_def Let_def)

lemma history_key_unique:
  assumes "history_unique t" and "h \<in> set t" and "h' \<in> set t" and "history_key u url h" and "history_key u url h'"
  shows "h' = h"
  using assms unique_onD [of "\<lambda>h. (hs_user_id h, hs_url h)" t h' h] by (simp add: history_unique_def history_key_def)

text \<open>On a table with its keys, the update of the found row by its primary key changes that row alone.\<close>

lemma merge_history_item_unique:
  assumes "history_unique t"
  shows "history_unique (merge_history_item u x t)"
proof (cases "find_row (history_key u (hi_url x)) t")
  case None
  then have "(u, hi_url x) \<notin> (\<lambda>h. (hs_user_id h, hs_url h)) ` set t" by (auto simp: history_key_def)
  with None assms show ?thesis
    by (simp add: merge_history_item_def history_unique_def unique_on_insert next_id_fresh del: find_row_None)
next
  case (Some h)
  then have h: "h \<in> set t" by (auto dest: find_row_Some)
  have same: "x' = h" if "x' \<in> set t" "hs_id x' = hs_id h" for x'
    using assms that h unique_onD [of hs_id t x' h] by (simp add: history_unique_def)
  have "map k (update_where (\<lambda>x'. hs_id x' = hs_id h) (\<lambda>_. merge_entry x h) t) = map k t"
    if "k (merge_entry x h) = k h" for k :: "history_entry \<Rightarrow> 'a"
    unfolding update_where_def map_map using same that by (intro map_cong) auto
  from this [of hs_id] this [of "\<lambda>h. (hs_user_id h, hs_url h)"] assms Some show ?thesis
    by (simp add: merge_history_item_def history_unique_def unique_on_def)
qed

lemma page_merge_item:
  assumes "history_unique t"
  shows "page (merge_history_item u x t) v url = (if v = u \<and> url = hi_url x then visit x (page t v url) else page t v url)"
proof (cases "find_row (history_key u (hi_url x)) t")
  case None
  show ?thesis
  proof (cases "v = u \<and> url = hi_url x")
    case True
    with None show ?thesis
      by (simp add: page_def merge_history_item_def find_row_append history_key_def del: find_row_None)
  next
    case False
    with None show ?thesis
      by (cases "find_row (history_key v url) t")
        (auto simp: page_def merge_history_item_def find_row_append history_key_def simp del: find_row_None)
  qed
next
  case (Some h)
  then have h: "h \<in> set t" "history_key u (hi_url x) h" by (auto dest: find_row_Some)
  have same: "x' = h" if "x' \<in> set t" "hs_id x' = hs_id h" for x'
    using assms that h unique_onD [of hs_id t x' h] by (simp add: history_unique_def)
  have "find_row (history_key v url) (update_where (\<lambda>x'. hs_id x' = hs_id h) (\<lambda>_. merge_entry x h) t) =
      map_option (\<lambda>r. if hs_id r = hs_id h then merge_entry x h else r) (find_row (history_key v url) t)"
    using same by (intro find_row_update_kept) (auto simp: history_key_def)
  then have p: "page (merge_history_item u x t) v url =
      map_option (\<lambda>r. (\<lambda>h. (hs_title h, hs_last_visit_ms h, hs_visit_count h)) (if hs_id r = hs_id h then merge_entry x h else r))
        (find_row (history_key v url) t)"
    using Some by (simp add: page_def merge_history_item_def option.map_comp comp_def)
  show ?thesis
  proof (cases "v = u \<and> url = hi_url x")
    case True
    with Some p show ?thesis by (auto simp: page_def merge_entry_def Let_def)
  next
    case False
    with h(2) have "hs_id r \<noteq> hs_id h" if "find_row (history_key v url) t = Some r" for r
      using that same [of r] by (auto simp: history_key_def dest!: find_row_Some)
    with False p show ?thesis by (cases "find_row (history_key v url) t") (auto simp: page_def simp del: find_row_None)
  qed
qed

lemma page_merge:
  assumes "history_unique t"
  shows "page (merge_history u items t) v url =
      (if v = u then fold visit (filter (\<lambda>x. hi_url x = url) items) (page t v url) else page t v url) \<and>
    history_unique (merge_history u items t)"
  using assms
proof (induction items arbitrary: t)
  case (Cons x items)
  from Cons.IH [OF merge_history_item_unique [OF Cons.prems]] page_merge_item [OF Cons.prems] show ?case
    by (simp add: merge_history_def)
qed (simp add: merge_history_def)

subsection \<open>Visits are joined\<close>

text \<open>The visits of a page in one body: the last time and the count are the maxima, and the title is that
  of the last item with the greatest time, or the old one when that is later than every item.\<close>

definition title_at :: "int \<Rightarrow> history_item list \<Rightarrow> string \<Rightarrow> string" where
  "title_at l xs t =
     (let ys = filter (\<lambda>x. hi_last_visit_ms x = l) xs in if ys = [] then t else hi_title (last ys))"

definition joined_visits :: "history_item list \<Rightarrow> (string \<times> int \<times> int) option \<Rightarrow> string \<times> int \<times> int \<Rightarrow> bool" where
  "joined_visits xs old p \<longleftrightarrow>
     (case p of (t, l, c) \<Rightarrow>
        (\<forall>x \<in> set xs. hi_last_visit_ms x \<le> l \<and> hi_visit_count x \<le> c) \<and>
        (\<forall>t0 l0 c0. old = Some (t0, l0, c0) \<longrightarrow> l0 \<le> l \<and> c0 \<le> c) \<and>
        ((\<exists>x \<in> set xs. hi_last_visit_ms x = l) \<or> (\<exists>c0. old = Some (t, l, c0))) \<and>
        ((\<exists>x \<in> set xs. hi_visit_count x = c) \<or> (\<exists>t0 l0. old = Some (t0, l0, c))) \<and>
        t = title_at l xs t)"

lemma title_at_snoc:
  "title_at l (xs @ [x]) t = (if hi_last_visit_ms x = l then hi_title x else title_at l xs t)"
  by (simp add: title_at_def Let_def)

lemma title_at_late: "\<forall>x \<in> set xs. hi_last_visit_ms x < l \<Longrightarrow> title_at l xs t = t"
  by (auto simp: title_at_def Let_def filter_empty_conv)

lemma visits_joined:
  assumes "xs \<noteq> [] \<or> old \<noteq> None"
  shows "\<exists>p. fold visit xs old = Some p \<and> joined_visits xs old p"
  using assms
proof (induction xs rule: rev_induct)
  case Nil
  then show ?case by (auto simp: joined_visits_def title_at_def)
next
  case (snoc x xs)
  show ?case
  proof (cases "xs = [] \<and> old = None")
    case True
    then show ?thesis by (simp add: joined_visits_def title_at_def)
  next
    case False
    with snoc.IH obtain t l c where p: "fold visit xs old = Some (t, l, c)" and j: "joined_visits xs old (t, l, c)"
      by (metis prod_cases3)
    show ?thesis
    proof (cases "l \<le> hi_last_visit_ms x")
      case True
      with p j show ?thesis by (auto simp: joined_visits_def title_at_snoc max_def)
    next
      case False
      with p j show ?thesis by (auto simp: joined_visits_def title_at_snoc max_def)
    qed
  qed
qed

lemma visits_absorb:
  assumes "\<forall>x \<in> set xs. hi_last_visit_ms x \<le> l \<and> hi_visit_count x \<le> c"
  shows "fold visit xs (Some (t, l, c)) = Some (title_at l xs t, l, c)"
  using assms
proof (induction xs rule: rev_induct)
  case (snoc x xs)
  then show ?case by (auto simp: title_at_snoc)
qed (simp add: title_at_def)

lemma visits_idem: "fold visit xs (fold visit xs old) = fold visit xs old"
proof (cases "xs \<noteq> [] \<or> old \<noteq> None")
  case True
  then obtain t l c where p: "fold visit xs old = Some (t, l, c)" "joined_visits xs old (t, l, c)"
    using visits_joined by (metis prod_cases3)
  with visits_absorb [of xs l c t] show ?thesis by (auto simp: joined_visits_def)
qed simp

section \<open>Synchronisation\<close>

lemma urls_allowed_True: "urls_allowed us = Some True \<longleftrightarrow> (\<forall>u \<in> set us. is_url_allowed u = Some True)"
  by (induction us) (auto split: option.split bool.split)

lemma sync_Inr:
  assumes "local_browser_sync clk u body d = (Inr resp, d')"
  shows "urls_allowed (map hi_url (sy_history body) @ map fst (sy_tabs body)) = Some True"
    "history d' = merge_history (us_id u) (sy_history body) (history d)"
    "tabs d' = store_tabs (clk 0) (us_id u) (sy_device_id body) (sy_tabs body) (tabs d)"
  using assms by (auto simp: local_browser_sync_def Let_def split: option.split_asm bool.split_asm)

text \<open>C40. Synchronising the history is a join. After a sync every page of the body has the latest time of the
  last visit and the greatest count among what was stored and what was sent, with the title of a latest
  visit; all other pages and all pages of other users are as they were; only URLs the network policy allows
  were sent. Sending the same body again changes no page.\<close>

theorem history_sync_joins:
  assumes "local_browser_sync clk u body d = (Inr resp, d')" and "history_unique (history d)"
  shows "(\<forall>x \<in> set (sy_history body). is_url_allowed (hi_url x) = Some True) \<and>
    (\<forall>url. url \<in> hi_url ` set (sy_history body) \<longrightarrow>
       (\<exists>p. page (history d') (us_id u) url = Some p \<and>
          joined_visits (filter (\<lambda>x. hi_url x = url) (sy_history body)) (page (history d) (us_id u) url) p)) \<and>
    (\<forall>v url. v \<noteq> us_id u \<or> url \<notin> hi_url ` set (sy_history body) \<longrightarrow> page (history d') v url = page (history d) v url) \<and>
    (\<forall>clk2 resp2 d2 v url. local_browser_sync clk2 u body d' = (Inr resp2, d2) \<longrightarrow>
       page (history d2) v url = page (history d') v url)"
proof -
  let ?xs = "\<lambda>url. filter (\<lambda>x. hi_url x = url) (sy_history body)"
  have p: "page (history d') v url = (if v = us_id u then fold visit (?xs url) (page (history d) v url) else page (history d) v url)"
    "history_unique (history d')" for v url
    using page_merge [OF assms(2), of "us_id u" "sy_history body"] by (simp_all add: sync_Inr(2) [OF assms(1)])
  have again: "page (history d2) v url = page (history d') v url"
    if "local_browser_sync clk2 u body d' = (Inr resp2, d2)" for clk2 resp2 d2 v url
    using page_merge [OF p(2), of "us_id u" "sy_history body" v url] p(1) [of v url] visits_idem
    by (cases "v = us_id u") (simp_all add: sync_Inr(2) [OF that])
  have new: "\<exists>q. page (history d') (us_id u) url = Some q \<and> joined_visits (?xs url) (page (history d) (us_id u) url) q"
    if "url \<in> hi_url ` set (sy_history body)" for url
  proof -
    from that have "?xs url \<noteq> []" by (auto simp: filter_empty_conv)
    with visits_joined p(1) [of "us_id u" url] show ?thesis by simp
  qed
  have old: "page (history d') v url = page (history d) v url"
    if "v \<noteq> us_id u \<or> url \<notin> hi_url ` set (sy_history body)" for v url
  proof -
    have "?xs url = []" if "url \<notin> hi_url ` set (sy_history body)" using that by (auto simp: filter_empty_conv)
    with that p(1) [of v url] show ?thesis by auto
  qed
  from sync_Inr(1) [OF assms(1)] have "\<forall>x \<in> set (sy_history body). is_url_allowed (hi_url x) = Some True"
    by (auto simp: urls_allowed_True)
  with new old again show ?thesis by blast
qed

theorem history_sync_joins_witness:
  "\<exists>resp d'. local_browser_sync (\<lambda>_. 5) (demo_user 2 ''ann'' ''member'')
      \<lparr>sy_device_id = ''dev'',
       sy_history = [\<lparr>hi_url = ''https://a.b/'', hi_title = ''new'', hi_last_visit_ms = 9, hi_visit_count = 1\<rparr>], sy_tabs = []\<rparr>
      (demo_db\<lparr>history := [\<lparr>hs_id = 1, hs_user_id = 2, hs_url = ''https://a.b/'', hs_title = ''old'', hs_last_visit_ms = 4,
         hs_visit_count = 3\<rparr>]\<rparr>) = (Inr resp, d') \<and>
     page (history d') 2 ''https://a.b/'' = Some (''new'', 9, 3)"
proof -
  let ?d = "demo_db\<lparr>history := [\<lparr>hs_id = 1, hs_user_id = 2, hs_url = ''https://a.b/'', hs_title = ''old'', hs_last_visit_ms = 4,
         hs_visit_count = 3\<rparr>]\<rparr>"
  let ?b = "\<lparr>sy_device_id = ''dev'',
       sy_history = [\<lparr>hi_url = ''https://a.b/'', hi_title = ''new'', hi_last_visit_ms = 9, hi_visit_count = 1\<rparr>], sy_tabs = []\<rparr> :: local_sync_body"
  let ?u = "demo_user 2 ''ann'' ''member''"
  have "is_url_allowed ''https://a.b/'' = Some True" by code_simp
  then obtain resp d' where r: "local_browser_sync (\<lambda>_. 5) ?u ?b ?d = (Inr resp, d')"
    by (simp add: local_browser_sync_def Let_def)
  have "history_unique (history ?d)" by (simp add: history_unique_def unique_on_def)
  from history_sync_joins [OF r this] obtain t l c where
    "page (history d') (us_id ?u) ''https://a.b/'' = Some (t, l, c)"
    "joined_visits [\<lparr>hi_url = ''https://a.b/'', hi_title = ''new'', hi_last_visit_ms = 9, hi_visit_count = 1\<rparr>]
       (page (history ?d) (us_id ?u) ''https://a.b/'') (t, l, c)"
    by auto
  with r show ?thesis by (auto simp: demo_user_def joined_visits_def page_def history_key_def title_at_def Let_def)
qed

end
