(* ===== verification/Gateway.thy ===== *)
theory Gateway
  imports Control_Model
begin

text \<open>
  The middleware in front of every route (\<open>disable_cloud_video\<close> in \<open>cloudbrowser/app.py\<close>): it limits the size
  of the bodies of the unauthenticated routes and how often one address may use them, and hides the routes
  of the cloud browser when that is switched off. The rate limits keep, for each key, the times of the requests
  that were let through. Between the reading of such a list and its replacement there is no \<open>await\<close>, so a
  step is atomic. \<open>source_of\<close> is the function \<open>enrollment_source_ip\<close> the application may be given; a time
  is kept in microseconds.
\<close>

record http_request =
  hr_path :: string
  hr_method :: string
  hr_content_length :: "string option"
  hr_body_length :: nat
  hr_client :: "string option"

type_synonym 'k rates = "('k \<times> instant list) list"

record gate_state =
  registration_rate :: "string rates"
  enrollment_rate :: "(string \<times> string) rates"

definition seen_at :: "'k rates \<Rightarrow> 'k \<Rightarrow> instant list" where
  "seen_at rates key = (case map_of rates key of None \<Rightarrow> [] | Some l \<Rightarrow> l)"

text \<open>\<open>None\<close> is the answer 429.\<close>

definition record_rate :: "nat \<Rightarrow> int \<Rightarrow> instant \<Rightarrow> 'k \<Rightarrow> 'k rates \<Rightarrow> 'k rates option" where
  "record_rate limit period now key rates =
     (let recent = filter (\<lambda>seen. seen > now - period) (seen_at rates key) in
      if length recent \<ge> limit then None else Some (dict_set key (recent @ [now]) rates))"

definition declared_length :: "int \<Rightarrow> http_request \<Rightarrow> int" where
  "declared_length otherwise req =
     (case hr_content_length req of
        None \<Rightarrow> 0
      | Some s \<Rightarrow> (case int_of_str s of None \<Rightarrow> otherwise | Some n \<Rightarrow> n))"

abbreviation too_large :: "int \<times> string" where
  "too_large \<equiv> (413, ''Request body too large'')"

abbreviation too_often :: "int \<times> string" where
  "too_often \<equiv> (429, ''Rate limit exceeded'')"

definition client_host :: "http_request \<Rightarrow> string" where
  "client_host req = (case hr_client req of None \<Rightarrow> ''unknown'' | Some h \<Rightarrow> h)"

text \<open>\<open>str(candidate)\<close>: a missing address is the key \<open>None\<close>.\<close>

definition registration_key :: "(http_request \<Rightarrow> string option) option \<Rightarrow> http_request \<Rightarrow> string" where
  "registration_key source_of req =
     (case source_of of
        Some f \<Rightarrow> (case f req of None \<Rightarrow> ''None'' | Some s \<Rightarrow> s)
      | None \<Rightarrow> client_host req)"

definition registers :: "http_request \<Rightarrow> bool" where
  "registers req \<longleftrightarrow> hr_path req = ''/api/node-registration-requests'' \<and> hr_method req = ''POST''"

definition gate_registration ::
  "(http_request \<Rightarrow> string option) option \<Rightarrow> instant \<Rightarrow> http_request \<Rightarrow> gate_state \<Rightarrow> (int \<times> string) + gate_state" where
  "gate_registration source_of now req st =
     (if \<not> startswith (hr_path req) ''/api/node-registration-requests'' then Inr st
      else if declared_length 8193 req > 8192 then Inl too_large
      else if hr_method req \<in> {''POST'', ''PUT'', ''PATCH''} \<and> hr_body_length req > 8192 then Inl too_large
      else if registers req then
        (case record_rate 3 (seconds 3600) now (registration_key source_of req) (registration_rate st) of
           None \<Rightarrow> Inl too_often
         | Some rates \<Rightarrow> Inr (st\<lparr>registration_rate := rates\<rparr>))
      else Inr st)"

definition enrollment_limit :: "string \<Rightarrow> nat" where
  "enrollment_limit path = (if endswith path ''/claim'' then 20 else 120)"

definition enrolls :: "http_request \<Rightarrow> bool" where
  "enrolls req \<longleftrightarrow> hr_path req \<in> {''/api/edge-enrollments/claim'', ''/api/edge-enrollments/report''}"

definition gate_enrollment :: "instant \<Rightarrow> http_request \<Rightarrow> gate_state \<Rightarrow> (int \<times> string) + gate_state" where
  "gate_enrollment now req st =
     (if \<not> enrolls req then Inr st
      else if declared_length 4097 req > 4096 then Inl too_large
      else
        (case record_rate (enrollment_limit (hr_path req)) (seconds 60) now (hr_path req, client_host req) (enrollment_rate st) of
           None \<Rightarrow> Inl too_often
         | Some rates \<Rightarrow> Inr (st\<lparr>enrollment_rate := rates\<rparr>)))"

definition video_path :: "string \<Rightarrow> bool" where
  "video_path path \<longleftrightarrow>
     startswith path ''/api/sessions/'' \<or> startswith path ''/api/admin/sessions/'' \<or> startswith path ''/viewer/'' \<or>
     path \<in> {''/api/sessions'', ''/api/admin/sessions'', ''/api/diagnostics/egress''}"

text \<open>\<open>None\<close> as the answer of the gateway: the request goes on to its route.\<close>

definition disable_cloud_video ::
  "bool \<Rightarrow> (http_request \<Rightarrow> string option) option \<Rightarrow> instant \<Rightarrow> http_request \<Rightarrow> gate_state \<Rightarrow> (int \<times> string) option \<times> gate_state" where
  "disable_cloud_video cloud_video_enabled source_of now req st =
     (case gate_registration source_of now req st of
        Inl e \<Rightarrow> (Some e, st)
      | Inr st1 \<Rightarrow>
          (case gate_enrollment now req st1 of
             Inl e \<Rightarrow> (Some e, st1)
           | Inr st2 \<Rightarrow>
               if \<not> cloud_video_enabled \<and> video_path (hr_path req) then (Some (410, ''Cloud video is disabled''), st2)
               else (None, st2)))"

section \<open>Sliding windows\<close>

text \<open>What a store of request times promises: a request under a key is recorded only when fewer than the
  key's limit lie in the window before it; then its time is added and times outside the window may go.\<close>

locale sliding_window =
  fixes limit :: "'k \<Rightarrow> nat"
    and period :: int
    and seen :: "'s \<Rightarrow> 'k \<Rightarrow> instant list"
    and store :: "instant \<Rightarrow> 'k \<Rightarrow> 's \<Rightarrow> 's option"
  assumes store_below: "store now k s = Some s' \<Longrightarrow> length (filter (\<lambda>t. t > now - period) (seen s k)) < limit k"
    and store_adds: "store now k s = Some s' \<Longrightarrow> seen s' k = filter (\<lambda>t. t > now - period) (seen s k) @ [now]"
    and store_other: "store now k s = Some s' \<Longrightarrow> j \<noteq> k \<Longrightarrow> seen s' j = seen s j"
begin

definition times :: "'k \<Rightarrow> ('k \<times> instant) list \<Rightarrow> instant list" where
  "times k evs = map snd (filter (\<lambda>e. fst e = k) evs)"

definition in_window :: "instant \<Rightarrow> instant \<Rightarrow> bool" where
  "in_window w t \<longleftrightarrow> w - period < t \<and> t \<le> w"

text \<open>The invariant of a log in time order: the store has every time a later request can still count, and
  no window holds more than the limit.\<close>

definition window_inv :: "('k \<times> instant) list \<Rightarrow> instant \<Rightarrow> 's \<Rightarrow> bool" where
  "window_inv evs now s \<longleftrightarrow>
     (\<forall>e \<in> set evs. snd e \<le> now) \<and>
     (\<forall>k t. now \<le> t \<longrightarrow> filter (\<lambda>x. x > t - period) (seen s k) = filter (\<lambda>x. x > t - period) (times k evs)) \<and>
     (\<forall>k w. length (filter (in_window w) (times k evs)) \<le> limit k)"

lemma window_inv_later: "window_inv evs now s \<Longrightarrow> now \<le> later \<Longrightarrow> window_inv evs later s"
  unfolding window_inv_def by fastforce

lemma window_inv_start: "(\<And>k. seen s k = []) \<Longrightarrow> window_inv [] now s"
  by (simp add: window_inv_def times_def)

lemma times_snoc: "times k (evs @ [(j, t)]) = (if j = k then times k evs @ [t] else times k evs)"
  by (simp add: times_def)

lemma window_inv_store:
  assumes "window_inv evs now s" and "store now k s = Some s'"
  shows "window_inv (evs @ [(k, now)]) now s'"
proof -
  have kept: "filter (\<lambda>x. x > t - period) (seen s' j) = filter (\<lambda>x. x > t - period) (times j (evs @ [(k, now)]))"
    if "now \<le> t" for j t
  proof (cases "j = k")
    case True
    have "filter (\<lambda>x. x > t - period) (filter (\<lambda>x. x > now - period) (seen s k)) = filter (\<lambda>x. x > t - period) (seen s k)"
      using that by (auto simp: filter_filter intro: filter_cong)
    with True that assms(1) store_adds [OF assms(2)] show ?thesis by (simp add: window_inv_def times_snoc)
  next
    case False
    with that assms(1) store_other [OF assms(2)] show ?thesis by (simp add: window_inv_def times_snoc)
  qed
  have "length (filter (in_window w) (times j (evs @ [(k, now)]))) \<le> limit j" for j w
  proof (cases "j = k \<and> in_window w now")
    case True
    have "filter (in_window w) (times k evs) = filter (in_window w) (filter (\<lambda>x. x > now - period) (times k evs))"
      using True by (auto simp: filter_filter in_window_def intro: filter_cong)
    then have "length (filter (in_window w) (times k evs)) \<le> length (filter (\<lambda>x. x > now - period) (seen s k))"
      using assms(1) by (simp add: window_inv_def del: filter_filter)
    with True store_below [OF assms(2)] show ?thesis by (simp add: times_snoc)
  next
    case False
    with assms(1) show ?thesis by (auto simp: window_inv_def times_snoc)
  qed
  with kept assms(1) show ?thesis by (auto simp: window_inv_def)
qed

end

lemma seen_at_Nil [simp]: "seen_at [] k = []"
  by (simp add: seen_at_def)

lemma record_rate_Some:
  assumes "record_rate limit period now k rates = Some rates'"
  shows "length (filter (\<lambda>t. t > now - period) (seen_at rates k)) < limit"
    "seen_at rates' k = filter (\<lambda>t. t > now - period) (seen_at rates k) @ [now]"
    "j \<noteq> k \<Longrightarrow> seen_at rates' j = seen_at rates j"
  using assms by (auto simp: record_rate_def Let_def seen_at_def split: if_split_asm)

interpretation registration_window: sliding_window "\<lambda>_. 3" "seconds 3600" seen_at "record_rate 3 (seconds 3600)"
  by unfold_locales (auto dest: record_rate_Some)

interpretation enrollment_window: sliding_window "\<lambda>k. enrollment_limit (fst k)" "seconds 60" seen_at
    "\<lambda>now k. record_rate (enrollment_limit (fst k)) (seconds 60) now k"
  by unfold_locales (auto dest: record_rate_Some)

section \<open>The requests an application has seen\<close>

record gate_event =
  ev_now :: instant
  ev_request :: http_request
  ev_answer :: "(int \<times> string) option"

text \<open>The events of one process, in the order of its clock.\<close>

inductive gate_log :: "bool \<Rightarrow> (http_request \<Rightarrow> string option) option \<Rightarrow> gate_event list \<Rightarrow> instant \<Rightarrow> gate_state \<Rightarrow> bool"
  for video source_of where
  start: "gate_log video source_of [] now \<lparr>registration_rate = [], enrollment_rate = []\<rparr>"
| step: "gate_log video source_of evs now st \<Longrightarrow> now \<le> later \<Longrightarrow>
    disable_cloud_video video source_of later req st = (answer, st') \<Longrightarrow>
    gate_log video source_of (evs @ [\<lparr>ev_now = later, ev_request = req, ev_answer = answer\<rparr>]) later st'"

definition registrations_of :: "(http_request \<Rightarrow> string option) option \<Rightarrow> gate_event list \<Rightarrow> (string \<times> instant) list" where
  "registrations_of source_of evs =
     map (\<lambda>e. (registration_key source_of (ev_request e), ev_now e))
       (filter (\<lambda>e. ev_answer e = None \<and> registers (ev_request e)) evs)"

definition enrollments_of :: "gate_event list \<Rightarrow> ((string \<times> string) \<times> instant) list" where
  "enrollments_of evs =
     map (\<lambda>e. ((hr_path (ev_request e), client_host (ev_request e)), ev_now e))
       (filter (\<lambda>e. ev_answer e = None \<and> enrolls (ev_request e)) evs)"

lemma registers_path: "registers req \<Longrightarrow> startswith (hr_path req) ''/api/node-registration-requests'' \<and> \<not> enrolls req \<and> \<not> video_path (hr_path req)"
  by (auto simp: registers_def enrolls_def video_path_def startswith_def)

lemma enrolls_path: "enrolls req \<Longrightarrow> \<not> startswith (hr_path req) ''/api/node-registration-requests'' \<and> \<not> video_path (hr_path req)"
  by (auto simp: enrolls_def video_path_def startswith_def)

text \<open>What one request does to the two tables.\<close>

lemma gate_registration_rates:
  assumes "disable_cloud_video video source_of now req st = (answer, st')"
  shows "if answer = None \<and> registers req
    then record_rate 3 (seconds 3600) now (registration_key source_of req) (registration_rate st) = Some (registration_rate st')
    else registration_rate st' = registration_rate st"
  using assms registers_path [of req]
  by (auto simp: disable_cloud_video_def gate_registration_def gate_enrollment_def
      split: if_split_asm option.split_asm sum.split_asm)

lemma gate_enrollment_rates:
  assumes "disable_cloud_video video source_of now req st = (answer, st')"
  shows "if answer = None \<and> enrolls req
    then record_rate (enrollment_limit (hr_path req)) (seconds 60) now (hr_path req, client_host req) (enrollment_rate st) =
      Some (enrollment_rate st')
    else enrollment_rate st' = enrollment_rate st"
  using assms enrolls_path [of req]
  by (auto simp: disable_cloud_video_def gate_registration_def gate_enrollment_def
      split: if_split_asm option.split_asm sum.split_asm)

lemma gate_log_windows:
  assumes "gate_log video source_of evs now st"
  shows "registration_window.window_inv (registrations_of source_of evs) now (registration_rate st) \<and>
    enrollment_window.window_inv (enrollments_of evs) now (enrollment_rate st)"
  using assms
proof (induction rule: gate_log.induct)
  case (start now)
  show ?case
    using registration_window.window_inv_start [of "[]" now] enrollment_window.window_inv_start [of "[]" now]
    by (simp add: registrations_of_def enrollments_of_def)
next
  case (step evs now st later req answer st')
  have r: "registration_window.window_inv (registrations_of source_of evs) later (registration_rate st)"
    and e: "enrollment_window.window_inv (enrollments_of evs) later (enrollment_rate st)"
    using step.IH step.hyps(2) registration_window.window_inv_later enrollment_window.window_inv_later by blast+
  let ?evs = "evs @ [\<lparr>ev_now = later, ev_request = req, ev_answer = answer\<rparr>]"
  have "registration_window.window_inv (registrations_of source_of ?evs) later (registration_rate st')"
    using gate_registration_rates [OF step.hyps(3)] r registration_window.window_inv_store [OF r]
    by (auto simp: registrations_of_def split: if_split_asm)
  moreover have "enrollment_window.window_inv (enrollments_of ?evs) later (enrollment_rate st')"
    using gate_enrollment_rates [OF step.hyps(3)] e enrollment_window.window_inv_store [OF e]
    by (auto simp: enrollments_of_def split: if_split_asm)
  ultimately show ?case by simp
qed

text \<open>C32. The rate limits hold. Whatever requests a process has served, in the order of its clock, no address got
  more than three registration requests to the route in any hour, and none got more than twenty claims or more than
  a hundred and twenty reports of enrollments in any minute.\<close>

theorem rate_limits_hold:
  assumes "gate_log video source_of evs now st"
  shows "length (filter (\<lambda>e. ev_answer e = None \<and> registers (ev_request e) \<and> registration_key source_of (ev_request e) = key \<and>
        w - seconds 3600 < ev_now e \<and> ev_now e \<le> w) evs) \<le> 3 \<and>
    length (filter (\<lambda>e. ev_answer e = None \<and> enrolls (ev_request e) \<and> hr_path (ev_request e) = path \<and>
        client_host (ev_request e) = host \<and> w - seconds 60 < ev_now e \<and> ev_now e \<le> w) evs) \<le> enrollment_limit path"
proof -
  have "filter (registration_window.in_window w) (registration_window.times key (registrations_of source_of evs)) =
      map ev_now (filter (\<lambda>e. ev_answer e = None \<and> registers (ev_request e) \<and> registration_key source_of (ev_request e) = key \<and>
        w - seconds 3600 < ev_now e \<and> ev_now e \<le> w) evs)"
    by (simp add: registration_window.times_def registrations_of_def filter_map comp_def conj_ac registration_window.in_window_def)
  moreover have "filter (enrollment_window.in_window w) (enrollment_window.times (path, host) (enrollments_of evs)) =
      map ev_now (filter (\<lambda>e. ev_answer e = None \<and> enrolls (ev_request e) \<and> hr_path (ev_request e) = path \<and>
        client_host (ev_request e) = host \<and> w - seconds 60 < ev_now e \<and> ev_now e \<le> w) evs)"
    by (simp add: enrollment_window.times_def enrollments_of_def filter_map comp_def conj_ac enrollment_window.in_window_def)
  moreover have "length (filter (registration_window.in_window w) (registration_window.times key (registrations_of source_of evs))) \<le> 3"
    "length (filter (enrollment_window.in_window w) (enrollment_window.times (path, host) (enrollments_of evs))) \<le>
      enrollment_limit (fst (path, host))"
    using gate_log_windows [OF assms] unfolding registration_window.window_inv_def enrollment_window.window_inv_def by blast+
  ultimately show ?thesis by (simp only: length_map fst_conv)
qed

text \<open>A body sent without a declared length is not limited on the enrollment routes.\<close>

lemma undeclared_body_passes:
  assumes "enrolls req" and "hr_content_length req = None"
  shows "fst (disable_cloud_video video source_of now req \<lparr>registration_rate = [], enrollment_rate = []\<rparr>) = None"
  using assms enrolls_path [OF assms(1)]
  by (simp add: disable_cloud_video_def gate_registration_def gate_enrollment_def declared_length_def record_rate_def
      seen_at_def enrollment_limit_def)

text \<open>The size limits of the middleware: a registration request that reaches its route has a body of at most
  8192 bytes, whatever its headers say; and with the cloud browser switched off no request reaches one of its routes.\<close>

theorem gate_blocks:
  assumes "disable_cloud_video video source_of now req st = (None, st')"
  shows "(startswith (hr_path req) ''/api/node-registration-requests'' \<and> hr_method req \<in> {''POST'', ''PUT'', ''PATCH''} \<longrightarrow>
      hr_body_length req \<le> 8192) \<and> (video_path (hr_path req) \<longrightarrow> video)"
  using assms
  by (auto simp: disable_cloud_video_def gate_registration_def split: if_split_asm sum.split_asm)

definition demo_post :: http_request where
  "demo_post = \<lparr>hr_path = ''/api/node-registration-requests'', hr_method = ''POST'', hr_content_length = Some ''10'',
     hr_body_length = 10, hr_client = Some ''8.8.8.8''\<rparr>"

lemma demo_post_passes:
  "\<exists>st'. disable_cloud_video False None 5 demo_post \<lparr>registration_rate = [], enrollment_rate = []\<rparr> = (None, st')"
proof -
  have "int_of_str ''10'' = Some 10" by code_simp
  then show ?thesis
    by (simp add: disable_cloud_video_def gate_registration_def gate_enrollment_def demo_post_def startswith_def
        declared_length_def registers_def record_rate_def seen_at_def enrolls_def video_path_def)
qed

theorem rate_limits_hold_witness:
  "\<exists>st. gate_log False None [\<lparr>ev_now = 5, ev_request = demo_post, ev_answer = None\<rparr>] 5 st \<and>
     length (filter (\<lambda>e. ev_answer e = None \<and> registers (ev_request e) \<and> registration_key None (ev_request e) = ''8.8.8.8'' \<and>
        6 - seconds 3600 < ev_now e \<and> ev_now e \<le> 6) [\<lparr>ev_now = 5, ev_request = demo_post, ev_answer = None\<rparr>]) \<le> 3"
proof -
  from demo_post_passes obtain st where
    "disable_cloud_video False None 5 demo_post \<lparr>registration_rate = [], enrollment_rate = []\<rparr> = (None, st)" by blast
  then have "gate_log False None ([] @ [\<lparr>ev_now = 5, ev_request = demo_post, ev_answer = None\<rparr>]) 5 st"
    by (intro gate_log.step [OF gate_log.start [of _ _ 0]]) simp_all
  then have g: "gate_log False None [\<lparr>ev_now = 5, ev_request = demo_post, ev_answer = None\<rparr>] 5 st" by simp
  from g rate_limits_hold [OF g, of "''8.8.8.8''" 6 "[]" "[]"] show ?thesis by blast
qed

theorem gate_blocks_witness:
  "\<exists>st'. disable_cloud_video False None 5 demo_post \<lparr>registration_rate = [], enrollment_rate = []\<rparr> = (None, st') \<and>
     hr_body_length demo_post \<le> 8192"
proof -
  from demo_post_passes obtain st where
    r: "disable_cloud_video False None 5 demo_post \<lparr>registration_rate = [], enrollment_rate = []\<rparr> = (None, st)" by blast
  from gate_blocks [OF r] r show ?thesis by (auto simp: demo_post_def startswith_def)
qed

end
