(* ===== verification/Bootstrap.thy ===== *)
theory Bootstrap
  imports Edge_Nodes
begin

text \<open>
  What the application writes when it starts (\<open>create_app\<close> in \<open>cloudbrowser/app.py\<close>, after the schema is in place):
  the default egress profile and workspace, the first administrator, and once in the life of the
  database the topology of a configuration file. All of it is one transaction; \<open>None\<close> is an exception, which
  leaves the database as it was. A key that an item of the file lacks is \<open>None\<close>; \<open>secret\<close> gives the random
  secrets, by the position of the node in the file.
\<close>

record topology_node =
  tn_name :: "string option"
  tn_endpoint :: "string option"
  tn_expected_public_ipv4 :: "string option"
  tn_enabled :: bool

record topology_store =
  ts_node :: "string option"
  ts_name :: "string option"
  ts_enabled :: bool

record topology =
  tp_nodes :: "topology_node list"
  tp_stores :: "topology_store list"

definition bootstrap_key :: string where
  "bootstrap_key = ''bootstrap_topology_applied_v1''"

definition get_setting :: "db \<Rightarrow> string \<Rightarrow> system_setting option" where
  "get_setting d k = find_row (\<lambda>s. ss_key s = k) (system_settings d)"

section \<open>Profile, workspace and administrator\<close>

definition ensure_egress :: "db \<Rightarrow> egress_profile \<times> db" where
  "ensure_egress d =
     (case find_row (\<lambda>e. eg_name e = ''local-host-egress'') (egress_profiles d) of
        Some e \<Rightarrow> (e, d)
      | None \<Rightarrow>
          (let e = \<lparr>eg_id = next_id eg_id (egress_profiles d), eg_name = ''local-host-egress'', eg_kind = ''host'',
                    eg_config_json = ''{}''\<rparr>
           in (e, d\<lparr>egress_profiles := egress_profiles d @ [e]\<rparr>)))"

definition ensure_workspace :: "egress_profile \<Rightarrow> db \<Rightarrow> workspace \<times> db" where
  "ensure_workspace e d =
     (case find_row (\<lambda>w. ws_name w = ''default-store'') (workspaces d) of
        Some w \<Rightarrow> (w, d)
      | None \<Rightarrow>
          (let w = \<lparr>ws_id = next_id ws_id (workspaces d), ws_name = ''default-store'', ws_egress_profile_id = eg_id e\<rparr>
           in (w, d\<lparr>workspaces := workspaces d @ [w]\<rparr>)))"

definition ensure_admin :: "(string \<Rightarrow> string) \<Rightarrow> instant \<Rightarrow> (string \<times> string) option \<Rightarrow> workspace \<Rightarrow> db \<Rightarrow> db" where
  "ensure_admin password_hash now bootstrap_admin w d =
     (case bootstrap_admin of
        None \<Rightarrow> d
      | Some (username, password) \<Rightarrow>
          if find_row (\<lambda>u. us_username u = username) (users d) \<noteq> None then d
          else d\<lparr>users := users d @ [\<lparr>us_id = next_id us_id (users d), us_username = username,
                   us_password_hash = password_hash password, us_role = ''admin'', us_enabled = True, us_token_version = 1,
                   us_workspace_id = ws_id w, us_created_at = now, us_deleted_at = None\<rparr>]\<rparr>)"

section \<open>The topology\<close>

fun apply_nodes ::
  "instant \<Rightarrow> (nat \<Rightarrow> string) \<Rightarrow> nat \<Rightarrow> topology_node list \<Rightarrow> (string \<times> int) list \<Rightarrow> db \<Rightarrow> ((string \<times> int) list \<times> db) option" where
  "apply_nodes now secret i [] named d = Some (named, d)"
| "apply_nodes now secret i (x # xs) named d =
     (case tn_name x of
        None \<Rightarrow> None
      | Some name \<Rightarrow>
          (case find_row (\<lambda>n. nd_name n = name) (nodes d) of
             Some n \<Rightarrow> apply_nodes now secret (Suc i) xs (dict_set name (nd_id n) named) d
           | None \<Rightarrow>
               (case (tn_endpoint x, tn_expected_public_ipv4 x) of
                  (Some endpoint, Some expected) \<Rightarrow>
                    if find_row (\<lambda>n. nd_endpoint n = endpoint) (nodes d) \<noteq> None then None
                    else
                      (let n = new_edge_node (next_id nd_id (nodes d)) name endpoint (secret i) ''linux'' (tn_enabled x) False
                                 ''unknown'' (Some expected) None now
                       in apply_nodes now secret (Suc i) xs (dict_set name (nd_id n) named) (d\<lparr>nodes := nodes d @ [n]\<rparr>))
                | _ \<Rightarrow> None)))"

definition pilot_owner :: "db \<Rightarrow> int option" where
  "pilot_owner d = map_option us_id (find_row (\<lambda>u. us_role u = ''admin'') (sort_key us_id (users d)))"

fun apply_stores :: "instant \<Rightarrow> topology_store list \<Rightarrow> (string \<times> int) list \<Rightarrow> db \<Rightarrow> db option" where
  "apply_stores now [] named d = Some d"
| "apply_stores now (x # xs) named d =
     (case (ts_node x, ts_name x) of
        (Some node, Some name) \<Rightarrow>
          (case map_of named node of
             None \<Rightarrow> None
           | Some node_id \<Rightarrow>
               if find_row (\<lambda>s. st_label s = name) (stores d) \<noteq> None then apply_stores now xs named d
               else apply_stores now xs named
                      (d\<lparr>stores := stores d @ [\<lparr>st_id = next_id st_id (stores d), st_label = name,
                          st_owner_user_id = pilot_owner d, st_edge_node_id = node_id, st_enabled = ts_enabled x,
                          st_created_at = now\<rparr>]\<rparr>))
      | _ \<Rightarrow> None)"

definition apply_topology :: "instant \<Rightarrow> (nat \<Rightarrow> string) \<Rightarrow> topology option \<Rightarrow> db \<Rightarrow> db option" where
  "apply_topology now secret t d =
     (case t of
        None \<Rightarrow> Some d
      | Some tp \<Rightarrow>
          if get_setting d bootstrap_key \<noteq> None then Some d
          else
            (case apply_nodes now secret 0 (tp_nodes tp) [] d of
               None \<Rightarrow> None
             | Some (named, d1) \<Rightarrow>
                 map_option (\<lambda>d2. d2\<lparr>system_settings := system_settings d2 @ [\<lparr>ss_key = bootstrap_key, ss_value = ''complete''\<rparr>]\<rparr>)
                   (apply_stores now (tp_stores tp) named d1)))"

definition bootstrap ::
  "(string \<Rightarrow> string) \<Rightarrow> instant \<Rightarrow> (nat \<Rightarrow> string) \<Rightarrow> (string \<times> string) option \<Rightarrow> topology option \<Rightarrow> db \<Rightarrow> db option" where
  "bootstrap password_hash now secret bootstrap_admin t d =
     (case ensure_egress d of
        (e, d1) \<Rightarrow>
          (case ensure_workspace e d1 of
             (w, d2) \<Rightarrow> apply_topology now secret t (ensure_admin password_hash now bootstrap_admin w d2)))"

section \<open>Starting again\<close>

lemma ensure_egress_again:
  assumes "ensure_egress d = (e, d1)" and "egress_profiles d2 = egress_profiles d1"
  shows "ensure_egress d2 = (e, d2)"
proof (cases "find_row (\<lambda>e. eg_name e = ''local-host-egress'') (egress_profiles d)")
  case None
  with assms show ?thesis by (auto simp: ensure_egress_def Let_def find_row_append simp del: find_row_None)
next
  case (Some x)
  with assms show ?thesis by (auto simp: ensure_egress_def)
qed

lemma ensure_workspace_again:
  assumes "ensure_workspace e d = (w, d1)" and "workspaces d2 = workspaces d1"
  shows "ensure_workspace e d2 = (w, d2)"
proof (cases "find_row (\<lambda>w. ws_name w = ''default-store'') (workspaces d)")
  case None
  with assms show ?thesis by (auto simp: ensure_workspace_def Let_def find_row_append simp del: find_row_None)
next
  case (Some x)
  with assms show ?thesis by (auto simp: ensure_workspace_def)
qed

lemma ensure_admin_again:
  assumes "users d2 = users (ensure_admin h now a w d)"
  shows "ensure_admin h2 now2 a w2 d2 = d2"
proof (cases a)
  case (Some p)
  then show ?thesis
    using assms by (cases p) (auto simp: ensure_admin_def split: if_split_asm)
qed (simp add: ensure_admin_def)

lemma apply_nodes_kept:
  assumes "apply_nodes now secret i xs named d = Some (named', d')"
  shows "\<exists>t. d' = d\<lparr>nodes := t\<rparr>"
  using assms
proof (induction xs arbitrary: i named d)
  case Nil
  then have "d' = d\<lparr>nodes := nodes d\<rparr>" by simp
  then show ?case by blast
next
  case (Cons x xs)
  then show ?case
    by (fastforce simp: Let_def split: option.split_asm if_split_asm)
qed

lemma apply_stores_kept:
  assumes "apply_stores now xs named d = Some d'"
  shows "\<exists>t. d' = d\<lparr>stores := t\<rparr>"
  using assms
proof (induction xs arbitrary: d)
  case Nil
  then have "d' = d\<lparr>stores := stores d\<rparr>" by simp
  then show ?case by blast
next
  case (Cons x xs)
  then show ?case
    by (fastforce split: option.split_asm if_split_asm)
qed

lemma apply_topology_kept:
  assumes "apply_topology now secret t d = Some d'"
  shows "egress_profiles d' = egress_profiles d" "workspaces d' = workspaces d" "users d' = users d"
    "t \<noteq> None \<Longrightarrow> get_setting d' bootstrap_key \<noteq> None"
proof -
  consider "d' = d" "t \<noteq> None \<longrightarrow> get_setting d bootstrap_key \<noteq> None"
    | tp named d1 d2 where "t = Some tp" "apply_nodes now secret 0 (tp_nodes tp) [] d = Some (named, d1)"
        "apply_stores now (tp_stores tp) named d1 = Some d2"
        "d' = d2\<lparr>system_settings := system_settings d2 @ [\<lparr>ss_key = bootstrap_key, ss_value = ''complete''\<rparr>]\<rparr>"
    using assms by (auto simp: apply_topology_def split: option.split_asm if_split_asm)
  then have "egress_profiles d' = egress_profiles d \<and> workspaces d' = workspaces d \<and> users d' = users d \<and>
      (t \<noteq> None \<longrightarrow> get_setting d' bootstrap_key \<noteq> None)"
  proof cases
    case 2
    with apply_nodes_kept [OF 2(2)] apply_stores_kept [OF 2(3)] show ?thesis by (auto simp: get_setting_def)
  qed simp
  then show "egress_profiles d' = egress_profiles d" "workspaces d' = workspaces d" "users d' = users d"
    "t \<noteq> None \<Longrightarrow> get_setting d' bootstrap_key \<noteq> None" by auto
qed

lemma bootstrap_settled:
  assumes "bootstrap h now secret a t d = Some d1" and "egress_profiles d2 = egress_profiles d1"
    and "workspaces d2 = workspaces d1" and "users d2 = users d1"
    and "t \<noteq> None \<longrightarrow> get_setting d2 bootstrap_key \<noteq> None"
  shows "bootstrap h2 now2 secret2 a t d2 = Some d2"
proof -
  obtain e x w y where e: "ensure_egress d = (e, x)" and w: "ensure_workspace e x = (w, y)" by fastforce
  let ?z = "ensure_admin h now a w y"
  from assms(1) e w have t: "apply_topology now secret t ?z = Some d1" by (simp add: bootstrap_def)
  have "egress_profiles d1 = egress_profiles x" "workspaces d1 = workspaces y" "users d1 = users ?z"
    using apply_topology_kept [OF t] w
    by (auto simp: ensure_admin_def ensure_workspace_def Let_def split: option.split_asm option.split prod.split)
  with assms(2-4) have "ensure_egress d2 = (e, d2)" "ensure_workspace e d2 = (w, d2)" "ensure_admin h2 now2 a w d2 = d2"
    using ensure_egress_again [OF e] ensure_workspace_again [OF w] ensure_admin_again by metis+
  with assms(5) show ?thesis by (auto simp: bootstrap_def apply_topology_def split: option.split)
qed

text \<open>Starting again changes nothing. Once the application has started with an administrator and a topology,
  every later start with them leaves the database as it is, also after nodes, stores and anything else
  but the profiles, workspaces and users were edited: the topology file never overwrites what an
  administrator has changed or deleted.\<close>

theorem bootstrap_once:
  assumes "bootstrap h now secret a t d = Some d1"
  shows "bootstrap h2 now2 secret2 a t d1 = Some d1 \<and>
    (\<forall>d2. egress_profiles d2 = egress_profiles d1 \<and> workspaces d2 = workspaces d1 \<and> users d2 = users d1 \<and>
       system_settings d2 = system_settings d1 \<longrightarrow> bootstrap h2 now2 secret2 a t d2 = Some d2)"
proof -
  obtain e x w y where "ensure_egress d = (e, x)" "ensure_workspace e x = (w, y)" by fastforce
  with assms have "apply_topology now secret t (ensure_admin h now a w y) = Some d1" by (simp add: bootstrap_def)
  note set = apply_topology_kept(4) [OF this]
  have "bootstrap h2 now2 secret2 a t d2 = Some d2"
    if "egress_profiles d2 = egress_profiles d1 \<and> workspaces d2 = workspaces d1 \<and> users d2 = users d1 \<and>
       system_settings d2 = system_settings d1" for d2
    using that set by (intro bootstrap_settled [OF assms]) (auto simp: get_setting_def)
  then show ?thesis by blast
qed

definition demo_topology :: topology where
  "demo_topology =
     \<lparr>tp_nodes = [\<lparr>tn_name = Some ''n1'', tn_endpoint = Some ''https://n1'', tn_expected_public_ipv4 = Some ''8.8.8.8'', tn_enabled = True\<rparr>],
      tp_stores = [\<lparr>ts_node = Some ''n1'', ts_name = Some ''shop'', ts_enabled = True\<rparr>]\<rparr>"

theorem bootstrap_once_witness:
  "\<exists>d. bootstrap (\<lambda>p. p) 1 (\<lambda>_. ''s'') (Some (''root'', ''pw'')) (Some demo_topology) empty_db = Some d \<and>
     length (nodes d) = 1 \<and> length (stores d) = 1 \<and> length (users d) = 1 \<and>
     bootstrap (\<lambda>p. p) 2 (\<lambda>_. ''t'') (Some (''root'', ''pw'')) (Some demo_topology) d = Some d"
proof -
  obtain d where d: "bootstrap (\<lambda>p. p) 1 (\<lambda>_. ''s'') (Some (''root'', ''pw'')) (Some demo_topology) empty_db = Some d"
    "length (nodes d) = 1" "length (stores d) = 1" "length (users d) = 1"
    by (simp add: bootstrap_def ensure_egress_def ensure_workspace_def ensure_admin_def apply_topology_def empty_db_def Let_def
        get_setting_def demo_topology_def bootstrap_key_def)
  from bootstrap_once [OF d(1), of "\<lambda>p. p" 2 "\<lambda>_. ''t''"] d show ?thesis by blast
qed

end
