(* ===== verification/Browser_Sessions.thy ===== *)
theory Browser_Sessions
  imports Auth Urls "HOL-Library.Countable"
begin

text \<open>
  Sessions of the cloud browser: the tickets of \<open>cloudbrowser/security.py\<close> (\<open>SessionTicketSigner\<close>), the reading
  of the address bar in \<open>cloudbrowser/browser_control.py\<close> (\<open>normalize_address_input\<close>) and the session routes of
  \<open>cloudbrowser/app.py\<close>.

  The browser runner is an argument: what \<open>status\<close>, \<open>start\<close>, \<open>stop\<close> and the control operations do, \<open>None\<close>
  or an error value for an exception. So is the signed serializer: \<open>dumps salt payload\<close> and \<open>loads salt token\<close>,
  where \<open>None\<close> is \<open>BadSignature\<close>.
\<close>

section \<open>Tickets\<close>

type_synonym signed_dumps = "string \<Rightarrow> (string \<times> json) list \<Rightarrow> string"
type_synonym signed_loads = "string \<Rightarrow> string \<Rightarrow> (string \<times> json) list option"

record ticket_signer =
  sn_salt :: string
  sn_ttl_seconds :: int

definition session_ticket_signer :: ticket_signer where
  "session_ticket_signer = \<lparr>sn_salt = ''browser-session-ticket'', sn_ttl_seconds = 60\<rparr>"

definition viewer_signer :: ticket_signer where
  "viewer_signer = \<lparr>sn_salt = ''browser-viewer-grant'', sn_ttl_seconds = 8 * 60 * 60\<rparr>"

definition issue_session_ticket :: "signed_dumps \<Rightarrow> ticket_signer \<Rightarrow> rat \<Rightarrow> int \<Rightarrow> string \<Rightarrow> string" where
  "issue_session_ticket dumps signer time user_id session_id =
     dumps (sn_salt signer)
       [(''user_id'', JInt user_id), (''session_id'', JStr session_id),
        (''expires_at'', JFloat (Fin (time + of_int (sn_ttl_seconds signer))))]"

text \<open>\<open>float(value) > time.time()\<close>; \<open>parse_float\<close> reads a text, and \<open>None\<close> is an exception.\<close>

fun float_after :: "(string \<Rightarrow> pyfloat option) \<Rightarrow> json \<Rightarrow> rat \<Rightarrow> bool option" where
  "float_after parse_float (JInt i) now = Some (of_int i > now)"
| "float_after parse_float (JBool b) now = Some ((if b then 1 else 0) > now)"
| "float_after parse_float (JFloat f) now = Some (case f of Fin q \<Rightarrow> q > now | PosInf \<Rightarrow> True | _ \<Rightarrow> False)"
| "float_after parse_float (JStr s) now =
     map_option (\<lambda>f. case f of Fin q \<Rightarrow> q > now | PosInf \<Rightarrow> True | _ \<Rightarrow> False) (parse_float s)"
| "float_after parse_float _ now = None"

definition verify_session_ticket ::
  "signed_loads \<Rightarrow> (string \<Rightarrow> pyfloat option) \<Rightarrow> ticket_signer \<Rightarrow> rat \<Rightarrow> string \<Rightarrow> int \<Rightarrow> string \<Rightarrow> bool option" where
  "verify_session_ticket loads parse_float signer now token user_id session_id =
     (case loads (sn_salt signer) token of
        None \<Rightarrow> Some False
      | Some payload \<Rightarrow>
          if json_eq_int (payload_get payload ''user_id'') user_id \<and> payload_get payload ''session_id'' = JStr session_id
          then float_after parse_float
                 (case map_of payload ''expires_at'' of None \<Rightarrow> JInt 0 | Some v \<Rightarrow> v) now
          else Some False)"

section \<open>The address bar\<close>

definition quote_char_ok :: "char \<Rightarrow> bool" where
  "quote_char_ok c \<longleftrightarrow> is_alnum c \<or> c \<in> set ''_.-~''"

definition upper_hex :: "nat \<Rightarrow> char" where
  "upper_hex d = (if d < 10 then char_of (48 + d) else char_of (55 + d))"

definition percent :: "char \<Rightarrow> string" where
  "percent c = [CHR ''%'', upper_hex (of_char c div 16), upper_hex (of_char c mod 16)]"

text \<open>\<open>urllib.parse.quote_plus\<close>.\<close>

definition quote_plus :: "string \<Rightarrow> string" where
  "quote_plus s =
     concat (map (\<lambda>c. if c = CHR '' '' then ''+'' else if quote_char_ok c then [c] else percent c) (utf8_encode s))"

datatype address_error = Blocked | Unparsable

definition explicit_scheme :: "string \<Rightarrow> bool" where
  "explicit_scheme lowered =
     (case partition_char (CHR '':'') lowered of
        (s, found, _) \<Rightarrow>
          found \<and> s \<noteq> [] \<and> is_lower (hd s) \<and> list_all (\<lambda>c. is_lower c \<or> is_digit c \<or> c \<in> set ''+.-'') s \<and>
          (s \<in> {''http'', ''https''} \<or> CHR ''.'' \<notin> set s \<and> s \<noteq> ''localhost''))"

definition address_candidate :: "string \<Rightarrow> string" where
  "address_candidate txt =
     (if explicit_scheme (lower_str txt) then txt
      else if CHR '' '' \<notin> set txt \<and> (CHR ''.'' \<in> set txt \<or> startswith txt ''localhost'') then ''https://'' @ txt
      else ''https://www.google.com/search?q='' @ quote_plus txt)"

definition normalize_address_input :: "string \<Rightarrow> address_error + string" where
  "normalize_address_input value =
     (let txt = strip value in
      if txt = [] then Inr ''https://www.google.com/''
      else
        (case is_url_allowed (address_candidate txt) of
           None \<Rightarrow> Inl Unparsable
         | Some False \<Rightarrow> Inl Blocked
         | Some True \<Rightarrow> Inr (address_candidate txt)))"

section \<open>Sessions\<close>

definition session_active :: "browser_session \<Rightarrow> bool" where
  "session_active b \<longleftrightarrow> bs_status b \<in> {''starting'', ''running''}"

definition owned_session :: "db \<Rightarrow> string \<Rightarrow> user \<Rightarrow> http_error + browser_session" where
  "owned_session d session_id u =
     (case find_row (\<lambda>b. bs_id b = session_id \<and> bs_user_id b = us_id u) (sessions d) of
        None \<Rightarrow> Inl (Http 404 ''Session not found'')
      | Some b \<Rightarrow> Inr b)"

definition running_browser_session :: "db \<Rightarrow> string \<Rightarrow> user \<Rightarrow> http_error + string" where
  "running_browser_session d session_id u =
     (case owned_session d session_id u of
        Inl e \<Rightarrow> Inl e
      | Inr b \<Rightarrow> if bs_status b \<noteq> ''running'' then Inl (Http 409 ''Session is not running'') else Inr (bs_id b))"

text \<open>The exceptions of the control channel; \<open>Other_exception\<close> is one that is not caught.\<close>

datatype control_error = Target_not_found string | Last_tab string | Control_failed | Other_exception

definition browser_result :: "control_error + 'a \<Rightarrow> http_error + 'a" where
  "browser_result r =
     (case r of
        Inl (Target_not_found m) \<Rightarrow> Inl (Http 404 m)
      | Inl (Last_tab m) \<Rightarrow> Inl (Http 409 m)
      | Inl Control_failed \<Rightarrow> Inl (Http 502 ''Browser control channel unavailable'')
      | Inl Other_exception \<Rightarrow> Inl Server_error
      | Inr x \<Rightarrow> Inr x)"

definition serialize_session :: "browser_session \<Rightarrow> details" where
  "serialize_session b =
     [(''id'', VStr (bs_id b)), (''status'', VStr (bs_status b)), (''profile_key'', VStr (bs_profile_key b)),
      (''viewer_url'', VStr (''/viewer/'' @ bs_id b)), (''created_at'', VTime (bs_created_at b))]"

definition update_session :: "string \<Rightarrow> (browser_session \<Rightarrow> browser_session) \<Rightarrow> db \<Rightarrow> db" where
  "update_session i f d = d\<lparr>sessions := update_where (\<lambda>b. bs_id b = i) f (sessions d)\<rparr>"

definition get_workspace :: "db \<Rightarrow> int \<Rightarrow> workspace option" where
  "get_workspace d i = find_row (\<lambda>w. ws_id w = i) (workspaces d)"

definition get_egress :: "db \<Rightarrow> int \<Rightarrow> egress_profile option" where
  "get_egress d i = find_row (\<lambda>e. eg_id e = i) (egress_profiles d)"

text \<open>What \<open>runner.start\<close> gives: the name of the exception, or the status and the endpoint. A missing profile
  raises inside the same block.\<close>

definition start_outcome ::
  "(string \<Rightarrow> json option) \<Rightarrow> (string \<Rightarrow> string \<Rightarrow> string \<Rightarrow> json \<Rightarrow> string + string \<times> string) \<Rightarrow> string \<Rightarrow> string \<Rightarrow>
   egress_profile option \<Rightarrow> string + string \<times> string" where
  "start_outcome loads run session_id profile_key egress =
     (case egress of
        None \<Rightarrow> Inl ''AttributeError''
      | Some e \<Rightarrow>
          (case loads (eg_config_json e) of
             None \<Rightarrow> Inl ''JSONDecodeError''
           | Some config \<Rightarrow> run session_id profile_key (eg_kind e) config))"

definition begin_session ::
  "(string \<Rightarrow> json option) \<Rightarrow> (string \<Rightarrow> string \<Rightarrow> string \<Rightarrow> json \<Rightarrow> string + string \<times> string) \<Rightarrow> clock \<Rightarrow> string \<Rightarrow> user \<Rightarrow> db \<Rightarrow>
   details result" where
  "begin_session loads run clk session_id u d =
     (case get_workspace d (us_workspace_id u) of
        None \<Rightarrow> (Inl Server_error, d)
      | Some w \<Rightarrow>
          (let profile_key = ''user-'' @ int_str (us_id u);
               b = \<lparr>bs_id = session_id, bs_user_id = us_id u, bs_workspace_id = us_workspace_id u, bs_profile_key = profile_key,
                    bs_status = ''starting'', bs_endpoint = None, bs_created_at = clk 0, bs_updated_at = clk 1\<rparr>;
               d1 = d\<lparr>sessions := sessions d @ [b]\<rparr>
           in if session_id \<in> bs_id ` set (sessions d) then (Inl Server_error, d)
              else
                (case start_outcome loads run session_id profile_key (get_egress d (ws_egress_profile_id w)) of
                   Inl exception \<Rightarrow>
                     (Inl (Http 503 ''Browser failed to start''),
                      audit ''session.start_failed'' (Some (us_id u)) (Some ''session'') (Some session_id)
                        [(''error'', VStr exception)] (clk 2)
                        (update_session session_id (\<lambda>x. x\<lparr>bs_status := ''error''\<rparr>) d1))
                 | Inr (st, endpoint) \<Rightarrow>
                     (let b' = b\<lparr>bs_status := st, bs_endpoint := Some endpoint, bs_updated_at := clk 2\<rparr> in
                      (Inr (serialize_session b'),
                       audit ''session.started'' (Some (us_id u)) (Some ''session'') (Some session_id) [] (clk 3)
                         (update_session session_id (\<lambda>_. b') d1))))))"

definition start_session ::
  "(string \<Rightarrow> string option) \<Rightarrow> (string \<Rightarrow> json option) \<Rightarrow>
   (string \<Rightarrow> string \<Rightarrow> string \<Rightarrow> json \<Rightarrow> string + string \<times> string) \<Rightarrow> clock \<Rightarrow> string \<Rightarrow> user \<Rightarrow> db \<Rightarrow> details result" where
  "start_session status loads run clk uuid u d =
     (case find_row (\<lambda>b. bs_user_id b = us_id u \<and> session_active b) (sessions d) of
        None \<Rightarrow> begin_session loads run clk uuid u d
      | Some b \<Rightarrow>
          (case status (bs_id b) of
             None \<Rightarrow> (Inl Server_error, d)
           | Some s \<Rightarrow>
               (let d1 = update_session (bs_id b) (\<lambda>x. x\<lparr>bs_status := s\<rparr>) d in
                if s = ''running'' then (Inr (serialize_session (b\<lparr>bs_status := s\<rparr>)), d1)
                else begin_session loads run clk uuid u d1)))"

definition get_session_route :: "(string \<Rightarrow> string option) \<Rightarrow> string \<Rightarrow> user \<Rightarrow> db \<Rightarrow> details result" where
  "get_session_route status session_id u d =
     (case owned_session d session_id u of
        Inl e \<Rightarrow> (Inl e, d)
      | Inr b \<Rightarrow>
          if bs_status b = ''running'' then
            (case status (bs_id b) of
               None \<Rightarrow> (Inl Server_error, d)
             | Some s \<Rightarrow> (Inr (serialize_session (b\<lparr>bs_status := s\<rparr>)), update_session (bs_id b) (\<lambda>x. x\<lparr>bs_status := s\<rparr>) d))
          else (Inr (serialize_session b), d))"

text \<open>The routes of the tabs: their operation runs on the caller's own running session.\<close>

definition browser_operation :: "(string \<Rightarrow> control_error + 'a) \<Rightarrow> string \<Rightarrow> user \<Rightarrow> db \<Rightarrow> http_error + 'a" where
  "browser_operation operation session_id u d =
     (case running_browser_session d session_id u of
        Inl e \<Rightarrow> Inl e
      | Inr owned_id \<Rightarrow> browser_result (operation owned_id))"

text \<open>\<open>message\<close> is the text of the parser's exception.\<close>

definition browser_address ::
  "(string \<Rightarrow> string) \<Rightarrow> (string \<Rightarrow> string \<Rightarrow> control_error + 'a) \<Rightarrow> string \<Rightarrow> string \<Rightarrow> user \<Rightarrow> db \<Rightarrow> http_error + 'a" where
  "browser_address message operation input session_id u d =
     (case running_browser_session d session_id u of
        Inl e \<Rightarrow> Inl e
      | Inr owned_id \<Rightarrow>
          (case normalize_address_input input of
             Inl Blocked \<Rightarrow> Inl (Http 422 ''Address is blocked by network policy'')
           | Inl Unparsable \<Rightarrow> Inl (Http 422 (message input))
           | Inr url \<Rightarrow> browser_result (operation owned_id url)))"

record 'a browser_controls =
  bc_state :: "string \<Rightarrow> control_error + 'a"
  bc_new_tab :: "string \<Rightarrow> string \<Rightarrow> control_error + 'a"
  bc_activate :: "string \<Rightarrow> string \<Rightarrow> control_error + 'a"
  bc_close :: "string \<Rightarrow> string \<Rightarrow> control_error + 'a"
  bc_navigate :: "string \<Rightarrow> string \<Rightarrow> string \<Rightarrow> control_error + 'a"
  bc_history :: "string \<Rightarrow> string \<Rightarrow> int \<Rightarrow> control_error + 'a"
  bc_reload :: "string \<Rightarrow> string \<Rightarrow> control_error + 'a"

definition browser_tabs :: "'a browser_controls \<Rightarrow> string \<Rightarrow> user \<Rightarrow> db \<Rightarrow> http_error + 'a" where
  "browser_tabs controls session_id u d = browser_operation (bc_state controls) session_id u d"

definition browser_new_tab ::
  "(string \<Rightarrow> string) \<Rightarrow> 'a browser_controls \<Rightarrow> string \<Rightarrow> string \<Rightarrow> user \<Rightarrow> db \<Rightarrow> http_error + 'a" where
  "browser_new_tab message controls session_id input u d =
     browser_address message (bc_new_tab controls) input session_id u d"

definition browser_activate_tab :: "'a browser_controls \<Rightarrow> string \<Rightarrow> string \<Rightarrow> user \<Rightarrow> db \<Rightarrow> http_error + 'a" where
  "browser_activate_tab controls session_id target_id u d =
     browser_operation (\<lambda>s. bc_activate controls s target_id) session_id u d"

definition browser_close_tab :: "'a browser_controls \<Rightarrow> string \<Rightarrow> string \<Rightarrow> user \<Rightarrow> db \<Rightarrow> http_error + 'a" where
  "browser_close_tab controls session_id target_id u d =
     browser_operation (\<lambda>s. bc_close controls s target_id) session_id u d"

definition browser_navigate_tab ::
  "(string \<Rightarrow> string) \<Rightarrow> 'a browser_controls \<Rightarrow> string \<Rightarrow> string \<Rightarrow> string \<Rightarrow> user \<Rightarrow> db \<Rightarrow> http_error + 'a" where
  "browser_navigate_tab message controls session_id target_id input u d =
     browser_address message (\<lambda>s. bc_navigate controls s target_id) input session_id u d"

definition browser_back :: "'a browser_controls \<Rightarrow> string \<Rightarrow> string \<Rightarrow> user \<Rightarrow> db \<Rightarrow> http_error + 'a" where
  "browser_back controls session_id target_id u d =
     browser_operation (\<lambda>s. bc_history controls s target_id (- 1)) session_id u d"

definition browser_forward :: "'a browser_controls \<Rightarrow> string \<Rightarrow> string \<Rightarrow> user \<Rightarrow> db \<Rightarrow> http_error + 'a" where
  "browser_forward controls session_id target_id u d =
     browser_operation (\<lambda>s. bc_history controls s target_id 1) session_id u d"

definition browser_reload :: "'a browser_controls \<Rightarrow> string \<Rightarrow> string \<Rightarrow> user \<Rightarrow> db \<Rightarrow> http_error + 'a" where
  "browser_reload controls session_id target_id u d =
     browser_operation (\<lambda>s. bc_reload controls s target_id) session_id u d"

definition stop_session :: "(string \<Rightarrow> bool) \<Rightarrow> clock \<Rightarrow> string \<Rightarrow> user \<Rightarrow> db \<Rightarrow> details result" where
  "stop_session stop clk session_id u d =
     (case owned_session d session_id u of
        Inl e \<Rightarrow> (Inl e, d)
      | Inr b \<Rightarrow>
          if \<not> stop (bs_id b) then (Inl Server_error, d)
          else
            (Inr (serialize_session (b\<lparr>bs_status := ''stopped'', bs_updated_at := clk 0\<rparr>)),
             audit ''session.stopped'' (Some (us_id u)) (Some ''session'') (Some (bs_id b)) [] (clk 1)
               (update_session (bs_id b) (\<lambda>x. x\<lparr>bs_status := ''stopped'', bs_updated_at := clk 0\<rparr>) d)))"

definition session_ticket :: "signed_dumps \<Rightarrow> rat \<Rightarrow> string \<Rightarrow> user \<Rightarrow> db \<Rightarrow> http_error + string" where
  "session_ticket dumps time session_id u d =
     (case owned_session d session_id u of
        Inl e \<Rightarrow> Inl e
      | Inr b \<Rightarrow>
          if bs_status b \<noteq> ''running'' then Inl (Http 409 ''Session is not running'')
          else Inr (issue_session_ticket dumps session_ticket_signer time (us_id u) (bs_id b)))"

text \<open>The value of the cookie the route sets.\<close>

definition establish_viewer_session ::
  "signed_dumps \<Rightarrow> signed_loads \<Rightarrow> (string \<Rightarrow> pyfloat option) \<Rightarrow> rat \<Rightarrow> rat \<Rightarrow> string \<Rightarrow> string \<Rightarrow> user \<Rightarrow> db \<Rightarrow> http_error + string" where
  "establish_viewer_session dumps loads parse_float now time session_id ticket u d =
     (case owned_session d session_id u of
        Inl e \<Rightarrow> Inl e
      | Inr b \<Rightarrow>
          if bs_status b \<noteq> ''running'' then Inl (Http 401 ''Invalid or expired viewer ticket'')
          else
            (case verify_session_ticket loads parse_float session_ticket_signer now ticket (us_id u) (bs_id b) of
               None \<Rightarrow> Inl Server_error
             | Some False \<Rightarrow> Inl (Http 401 ''Invalid or expired viewer ticket'')
             | Some True \<Rightarrow> Inr (issue_session_ticket dumps viewer_signer time (us_id u) (bs_id b))))"

definition authorize_viewer ::
  "signed_loads \<Rightarrow> (string \<Rightarrow> pyfloat option) \<Rightarrow> rat \<Rightarrow> string \<Rightarrow> string option \<Rightarrow> db \<Rightarrow> http_error + browser_session" where
  "authorize_viewer loads parse_float now session_id ticket d =
     (let refuse = Inl (Http 401 ''Viewer authorization required'') in
      case get_session d session_id of
        None \<Rightarrow> refuse
      | Some b \<Rightarrow>
          if bs_status b \<noteq> ''running'' then refuse
          else
            (case ticket of
               None \<Rightarrow> refuse
             | Some t \<Rightarrow>
                 if t = [] then refuse
                 else
                   (case verify_session_ticket loads parse_float viewer_signer now t (bs_user_id b) (bs_id b) of
                      None \<Rightarrow> Inl Server_error
                    | Some False \<Rightarrow> refuse
                    | Some True \<Rightarrow> Inr b)))"

text \<open>What \<open>viewer_http\<close> checks before it forwards the request to the browser.\<close>

definition viewer_endpoint ::
  "signed_loads \<Rightarrow> (string \<Rightarrow> pyfloat option) \<Rightarrow> rat \<Rightarrow> string \<Rightarrow> string option \<Rightarrow> db \<Rightarrow> http_error + string" where
  "viewer_endpoint loads parse_float now session_id ticket d =
     (case authorize_viewer loads parse_float now session_id ticket d of
        Inl e \<Rightarrow> Inl e
      | Inr b \<Rightarrow>
          (case bs_endpoint b of
             None \<Rightarrow> Inl (Http 502 ''Browser endpoint unavailable'')
           | Some endpoint \<Rightarrow>
               if startswith endpoint ''http://127.0.0.1:'' then Inr endpoint
               else Inl (Http 502 ''Browser endpoint unavailable'')))"

definition egress_diagnostic :: "(string \<Rightarrow> string option) \<Rightarrow> user \<Rightarrow> db \<Rightarrow> http_error + details" where
  "egress_diagnostic egress_ip u d =
     (case find_row (\<lambda>b. bs_user_id b = us_id u \<and> bs_status b = ''running'') (sessions d) of
        None \<Rightarrow> Inl (Http 409 ''No running browser'')
      | Some b \<Rightarrow>
          (case egress_ip (bs_id b) of
             None \<Rightarrow> Inl Server_error
           | Some ip \<Rightarrow> Inr [(''ip'', VStr ip), (''session_id'', VStr (bs_id b))]))"

text \<open>The administrator's list refreshes the status of every live session whose user exists and commits.\<close>

definition admin_sessions :: "(string \<Rightarrow> string option) \<Rightarrow> db \<Rightarrow> details list result" where
  "admin_sessions status d =
     (let listed = filter (\<lambda>b. get_user d (bs_user_id b) \<noteq> None) (rev (sort_key bs_created_at (rev (sessions d))));
          fresh = (\<lambda>b. if session_active b \<and> get_user d (bs_user_id b) \<noteq> None then b\<lparr>bs_status := the (status (bs_id b))\<rparr> else b)
      in if list_ex (\<lambda>b. session_active b \<and> status (bs_id b) = None) listed then (Inl Server_error, d)
         else
           (Inr (map (\<lambda>b. [(''id'', VStr (bs_id b)), (''user_id'', VInt (bs_user_id b)),
                           (''username'', VStr (us_username (the (get_user d (bs_user_id b))))), (''status'', VStr (bs_status (fresh b))),
                           (''profile_key'', VStr (bs_profile_key b)), (''created_at'', VTime (bs_created_at b)),
                           (''updated_at'', VTime (bs_updated_at b))]) listed),
            d\<lparr>sessions := map fresh (sessions d)\<rparr>))"

definition force_stop :: "(string \<Rightarrow> bool) \<Rightarrow> clock \<Rightarrow> user \<Rightarrow> string \<Rightarrow> db \<Rightarrow> details result" where
  "force_stop stop clk actor session_id d =
     (case get_session d session_id of
        None \<Rightarrow> fail 404 ''Session not found'' d
      | Some b \<Rightarrow>
          if \<not> stop (bs_id b) then (Inl Server_error, d)
          else
            (Inr (serialize_session (b\<lparr>bs_status := ''stopped''\<rparr>)),
             audit ''session.force_stopped'' (Some (us_id actor)) (Some ''session'') (Some (bs_id b)) [] (clk 0)
               (update_session (bs_id b) (\<lambda>x. x\<lparr>bs_status := ''stopped''\<rparr>) d)))"

instance pyfloat :: countable by countable_datatype
instance json :: countable by countable_datatype

section \<open>Who sees a session\<close>

lemma home_allowed: "is_url_allowed ''https://www.google.com/'' = Some True"
  by code_simp

lemma normalize_allowed:
  assumes "normalize_address_input value = Inr url"
  shows "is_url_allowed url = Some True"
  using assms home_allowed
  by (auto simp: normalize_address_input_def Let_def split: if_split_asm option.split_asm bool.split_asm)

lemma owned_session_Inr: "owned_session d i u = Inr b \<Longrightarrow> b \<in> set (sessions d) \<and> bs_id b = i \<and> bs_user_id b = us_id u"
  by (auto simp: owned_session_def split: option.split_asm dest: find_row_Some)

lemma browser_result_Inr [simp]: "browser_result r = Inr x \<longleftrightarrow> r = Inr x"
  by (auto simp: browser_result_def split: sum.split control_error.split)

text \<open>C35. The address bar drives only the caller's own browser and only to allowed addresses: whenever opening a tab
  or navigating succeeds, the operation ran on a running session of the caller, with a URL the network
  policy allows, whatever was typed.\<close>

theorem address_bar_safe:
  assumes "browser_address message operation input i u d = Inr x"
  shows "\<exists>b url. b \<in> set (sessions d) \<and> bs_id b = i \<and> bs_user_id b = us_id u \<and> bs_status b = ''running'' \<and>
    is_url_allowed url = Some True \<and> normalize_address_input input = Inr url \<and> operation i url = Inr x"
proof -
  from assms obtain url where r: "running_browser_session d i u = Inr i" and n: "normalize_address_input input = Inr url"
    and x: "operation i url = Inr x"
    by (auto simp: browser_address_def running_browser_session_def split: sum.split_asm if_split_asm address_error.split_asm
        dest: owned_session_Inr)
  from r obtain b where "owned_session d i u = Inr b" "bs_status b = ''running''"
    by (auto simp: running_browser_session_def split: sum.split_asm if_split_asm)
  with owned_session_Inr n x normalize_allowed [OF n] show ?thesis by blast
qed

lemma get_session_own:
  assumes "unique_on bs_id (sessions d)" and "owned_session d i u = Inr b"
  shows "get_session d i = Some b"
  using owned_session_Inr [OF assms(2)] find_row_key [OF assms(1), of b] by (simp add: get_session_def)

lemma fresh_ticket_verifies:
  assumes "\<And>p. loads (sn_salt signer) (dumps (sn_salt signer) p) = Some p" and "now < time + of_int (sn_ttl_seconds signer)"
  shows "verify_session_ticket loads pf signer now (issue_session_ticket dumps signer time uid sid) uid sid = Some True"
  using assms by (simp add: verify_session_ticket_def issue_session_ticket_def payload_get_def)

text \<open>Tickets and grants of the viewer, for a serializer that reads back what it signed and only under the salt
  it was signed with. The ticket of a running session is exchanged for a grant during its sixty seconds, and the
  grant opens the viewer of that session for eight hours; the ticket itself does not open it, neither does
  any grant once it has lapsed.\<close>

theorem viewer_exchange:
  assumes "\<And>s p. loads s (dumps s p) = Some p" and "\<forall>s s' p. s \<noteq> s' \<longrightarrow> loads s' (dumps s p) = None"
    and "\<And>s p. dumps s p \<noteq> []" and "unique_on bs_id (sessions d)" and "session_ticket dumps t0 i u d = Inr ticket"
  shows "(\<forall>now t1. now < t0 + 60 \<longrightarrow>
      (\<exists>grant. establish_viewer_session dumps loads pf now t1 i ticket u d = Inr grant \<and>
        (\<forall>t. t < t1 + 28800 \<longrightarrow> (\<exists>b. authorize_viewer loads pf t i (Some grant) d = Inr b \<and> bs_user_id b = us_id u)) \<and>
        (\<forall>t. t1 + 28800 \<le> t \<longrightarrow> authorize_viewer loads pf t i (Some grant) d = Inl (Http 401 ''Viewer authorization required'')))) \<and>
    (\<forall>now t1. t0 + 60 \<le> now \<longrightarrow>
      establish_viewer_session dumps loads pf now t1 i ticket u d = Inl (Http 401 ''Invalid or expired viewer ticket'')) \<and>
    (\<forall>t. authorize_viewer loads pf t i (Some ticket) d = Inl (Http 401 ''Viewer authorization required''))"
proof -
  from assms(5) obtain b where b: "owned_session d i u = Inr b" "bs_status b = ''running''"
    and ticket: "ticket = issue_session_ticket dumps session_ticket_signer t0 (us_id u) (bs_id b)"
    by (auto simp: session_ticket_def split: sum.split_asm if_split_asm)
  from owned_session_Inr [OF b(1)] have own: "bs_id b = i" "bs_user_id b = us_id u" by auto
  note get = get_session_own [OF assms(4) b(1)]
  have v: "verify_session_ticket loads pf signer now (issue_session_ticket dumps signer time (us_id u) i) (us_id u) i =
      Some (now < time + of_int (sn_ttl_seconds signer))" for signer now time
    using assms(1) by (simp add: verify_session_ticket_def issue_session_ticket_def payload_get_def)
  have w: "loads ''browser-viewer-grant'' ticket = None"
    unfolding ticket issue_session_ticket_def session_ticket_signer_def using assms(2) by simp
  have ne: "issue_session_ticket dumps signer time (us_id u) i \<noteq> []" for signer time
    using assms(3) by (simp add: issue_session_ticket_def)
  have grant: "authorize_viewer loads pf t i (Some (issue_session_ticket dumps viewer_signer t1 (us_id u) i)) d =
      (if t < t1 + 28800 then Inr b else Inl (Http 401 ''Viewer authorization required''))" for t t1
    using v [of viewer_signer t t1] ne by (simp add: authorize_viewer_def get b own viewer_signer_def)
  have est: "establish_viewer_session dumps loads pf now t1 i ticket u d =
      (if now < t0 + 60 then Inr (issue_session_ticket dumps viewer_signer t1 (us_id u) i)
       else Inl (Http 401 ''Invalid or expired viewer ticket''))" for now t1
    using v [of session_ticket_signer now t0] by (simp add: establish_viewer_session_def b own ticket session_ticket_signer_def)
  have "authorize_viewer loads pf t i (Some ticket) d = Inl (Http 401 ''Viewer authorization required'')" for t
    using w by (simp add: authorize_viewer_def Let_def get b verify_session_ticket_def viewer_signer_def)
  with grant est own show ?thesis by simp
qed

definition demo_session :: browser_session where
  "demo_session = \<lparr>bs_id = ''s1'', bs_user_id = 2, bs_workspace_id = 1, bs_profile_key = ''user-2'', bs_status = ''running'',
     bs_endpoint = Some ''http://127.0.0.1:81'', bs_created_at = 0, bs_updated_at = 0\<rparr>"

definition demo_sessions_db :: db where
  "demo_sessions_db = demo_db\<lparr>sessions := [demo_session]\<rparr>"

lemma demo_owned: "owned_session demo_sessions_db ''s1'' (demo_user 2 ''ann'' ''member'') = Inr demo_session"
  by (simp add: owned_session_def demo_sessions_db_def demo_session_def demo_user_def)

theorem address_bar_safe_witness:
  "\<exists>x. browser_address (\<lambda>x. x) (\<lambda>s url. Inr (s, url)) ''example.com'' ''s1'' (demo_user 2 ''ann'' ''member'') demo_sessions_db =
     Inr x \<and> x = (''s1'', ''https://example.com'') \<and> is_url_allowed (snd x) = Some True"
proof -
  have "normalize_address_input ''example.com'' = Inr ''https://example.com''" by code_simp
  then have r: "browser_address (\<lambda>x. x) (\<lambda>s url. Inr (s, url)) ''example.com'' ''s1'' (demo_user 2 ''ann'' ''member'') demo_sessions_db =
     Inr (''s1'', ''https://example.com'')"
    using demo_owned by (simp add: browser_address_def running_browser_session_def demo_session_def)
  from address_bar_safe [OF r] r show ?thesis by auto
qed

text \<open>A serializer with the laws the exchange relies on: the salt is part of what is encoded.\<close>

definition demo_dumps :: signed_dumps where
  "demo_dumps s p = nat_str (to_nat (s, p))"

definition demo_loads :: signed_loads where
  "demo_loads s token = (case from_nat (nat_of_digits token) of (s', p) \<Rightarrow> if s' = s then Some p else None)"

theorem viewer_exchange_witness:
  "\<exists>ticket grant. session_ticket demo_dumps 0 ''s1'' (demo_user 2 ''ann'' ''member'') demo_sessions_db = Inr ticket \<and>
     establish_viewer_session demo_dumps demo_loads (\<lambda>_. None) 1 1 ''s1'' ticket (demo_user 2 ''ann'' ''member'') demo_sessions_db = Inr grant \<and>
     (\<exists>b. authorize_viewer demo_loads (\<lambda>_. None) 2 ''s1'' (Some grant) demo_sessions_db = Inr b \<and> bs_user_id b = 2)"
proof -
  let ?u = "demo_user 2 ''ann'' ''member''"
  have laws: "demo_loads s (demo_dumps s p) = Some p" "\<forall>s s' p. s \<noteq> s' \<longrightarrow> demo_loads s' (demo_dumps s p) = None" "demo_dumps s p \<noteq> []" for s p
    by (simp_all add: demo_loads_def demo_dumps_def)
  have u: "unique_on bs_id (sessions demo_sessions_db)" by (simp add: unique_on_def demo_sessions_db_def)
  obtain ticket where t: "session_ticket demo_dumps 0 ''s1'' ?u demo_sessions_db = Inr ticket"
    using demo_owned by (simp add: session_ticket_def demo_session_def)
  have "(1 :: rat) < 0 + 60" by simp
  from viewer_exchange [OF laws u t, of "\<lambda>_. None", THEN conjunct1, rule_format, OF this, of 1]
  obtain grant where g: "establish_viewer_session demo_dumps demo_loads (\<lambda>_. None) 1 1 ''s1'' ticket ?u demo_sessions_db = Inr grant"
    "\<And>t. t < 1 + 28800 \<Longrightarrow> \<exists>b. authorize_viewer demo_loads (\<lambda>_. None) t ''s1'' (Some grant) demo_sessions_db = Inr b \<and> bs_user_id b = us_id ?u"
    by blast
  from t g(1) g(2) [of 2] show ?thesis by (auto simp: demo_user_def)
qed

end
