(* ===== verification/Browser_Runner.thy ===== *)
theory Browser_Runner
  imports Browser_Sessions
begin

text \<open>
  \<open>FakeBrowserRunner\<close> of \<open>cloudbrowser/runner.py\<close>, which keeps its browsers in memory; its tabs are a list of
  dictionaries that the operations update in place, the first one with the wanted identifier. The runner of
  containers is in \<open>Podman_Runner\<close>.
\<close>

section \<open>The runner in memory\<close>

record fake_tab =
  ft_target_id :: string
  ft_title :: string
  ft_url :: string
  ft_loading :: bool
  ft_history :: "string list"
  ft_index :: int

record runner_session =
  rs_endpoint :: string
  rs_status :: string

record fake_runner =
  fr_egress_ip :: string
  fr_sessions :: "string \<rightharpoonup> runner_session"
  fr_profiles :: "string \<rightharpoonup> (string \<rightharpoonup> string)"
  fr_session_profiles :: "string \<rightharpoonup> string"
  fr_tabs :: "string \<rightharpoonup> fake_tab list"
  fr_active :: "string \<rightharpoonup> string"
  fr_reloads :: "string \<rightharpoonup> int"

datatype runner_error = Key_error | Stop_iteration | Last_tab_error

definition new_fake_runner :: "string \<Rightarrow> fake_runner" where
  "new_fake_runner ip =
     \<lparr>fr_egress_ip = ip, fr_sessions = Map.empty, fr_profiles = Map.empty, fr_session_profiles = Map.empty,
      fr_tabs = Map.empty, fr_active = Map.empty, fr_reloads = Map.empty\<rparr>"

text \<open>\<open>url.split("//", 1)[-1].split("/", 1)[0]\<close>.\<close>

fun after_slashes :: "string \<Rightarrow> string option" where
  "after_slashes (a # b # s) = (if a = CHR ''/'' \<and> b = CHR ''/'' then Some s else after_slashes (b # s))"
| "after_slashes _ = None"

definition url_title :: "string \<Rightarrow> string" where
  "url_title url =
     fst (partition_char (CHR ''/'') (case after_slashes url of None \<Rightarrow> url | Some s \<Rightarrow> s))"

definition tab_id :: "string \<Rightarrow> nat \<Rightarrow> string" where
  "tab_id session_id n = ''tab-'' @ take 8 session_id @ ''-'' @ nat_str n"

definition new_tab_at :: "string \<Rightarrow> string \<Rightarrow> string \<Rightarrow> fake_tab" where
  "new_tab_at target_id title url =
     \<lparr>ft_target_id = target_id, ft_title = title, ft_url = url, ft_loading = False, ft_history = [url], ft_index = 0\<rparr>"

definition fake_start :: "string \<Rightarrow> string \<Rightarrow> fake_runner \<Rightarrow> runner_session \<times> fake_runner" where
  "fake_start session_id profile_key r =
     (let result = \<lparr>rs_endpoint = ''fake://'' @ session_id, rs_status = ''running''\<rparr>;
          target_id = tab_id session_id 1
      in (result,
          r\<lparr>fr_profiles := (if fr_profiles r profile_key = None then (fr_profiles r)(profile_key \<mapsto> Map.empty) else fr_profiles r),
            fr_session_profiles := (fr_session_profiles r)(session_id \<mapsto> profile_key),
            fr_sessions := (fr_sessions r)(session_id \<mapsto> result),
            fr_tabs := (fr_tabs r)(session_id \<mapsto> [new_tab_at target_id ''example.com'' ''https://example.com'']),
            fr_active := (fr_active r)(session_id \<mapsto> target_id)\<rparr>))"

definition fake_stop :: "string \<Rightarrow> fake_runner \<Rightarrow> fake_runner" where
  "fake_stop session_id r =
     (case fr_sessions r session_id of
        None \<Rightarrow> r
      | Some s \<Rightarrow> r\<lparr>fr_sessions := (fr_sessions r)(session_id \<mapsto> s\<lparr>rs_status := ''stopped''\<rparr>)\<rparr>)"

definition fake_status :: "string \<Rightarrow> fake_runner \<Rightarrow> string" where
  "fake_status session_id r = (case fr_sessions r session_id of None \<Rightarrow> ''stopped'' | Some s \<Rightarrow> rs_status s)"

definition write_profile_marker :: "string \<Rightarrow> string \<Rightarrow> string \<Rightarrow> fake_runner \<Rightarrow> (runner_error + unit) \<times> fake_runner" where
  "write_profile_marker session_id key value r =
     (case fr_session_profiles r session_id of
        None \<Rightarrow> (Inl Key_error, r)
      | Some p \<Rightarrow>
          (case fr_profiles r p of
             None \<Rightarrow> (Inl Key_error, r)
           | Some markers \<Rightarrow> (Inr (), r\<lparr>fr_profiles := (fr_profiles r)(p \<mapsto> markers(key \<mapsto> value))\<rparr>)))"

definition read_profile_marker :: "string \<Rightarrow> string \<Rightarrow> fake_runner \<Rightarrow> runner_error + string option" where
  "read_profile_marker session_id key r =
     (case fr_session_profiles r session_id of
        None \<Rightarrow> Inl Key_error
      | Some p \<Rightarrow> (case fr_profiles r p of None \<Rightarrow> Inl Key_error | Some markers \<Rightarrow> Inr (markers key)))"

record tab_state =
  ts_target_id :: string
  ts_title :: string
  ts_url :: string
  ts_loading :: bool
  ts_can_go_back :: bool
  ts_can_go_forward :: bool
  ts_active :: bool

definition tab_state_of :: "string \<Rightarrow> fake_tab \<Rightarrow> tab_state" where
  "tab_state_of active t =
     \<lparr>ts_target_id = ft_target_id t, ts_title = ft_title t, ts_url = ft_url t, ts_loading = ft_loading t,
      ts_can_go_back = (ft_index t > 0), ts_can_go_forward = (ft_index t < int (length (ft_history t)) - 1),
      ts_active = (ft_target_id t = active)\<rparr>"

type_synonym 'a fake_result = "(runner_error + 'a) \<times> fake_runner"

definition fake_browser_state :: "string \<Rightarrow> fake_runner \<Rightarrow> (tab_state list \<times> string) fake_result" where
  "fake_browser_state session_id r =
     (case (fr_active r session_id, fr_tabs r session_id) of
        (Some active, Some items) \<Rightarrow> (Inr (map (tab_state_of active) items, active), r)
      | _ \<Rightarrow> (Inl Key_error, r))"

definition fake_new_tab :: "string \<Rightarrow> string \<Rightarrow> fake_runner \<Rightarrow> (tab_state list \<times> string) fake_result" where
  "fake_new_tab session_id url r =
     (case fr_tabs r session_id of
        None \<Rightarrow> (Inl Key_error, r)
      | Some items \<Rightarrow>
          (let target_id = tab_id session_id (length items + 1) in
           fake_browser_state session_id
             (r\<lparr>fr_tabs := (fr_tabs r)(session_id \<mapsto> items @ [new_tab_at target_id (url_title url) url]),
                fr_active := (fr_active r)(session_id \<mapsto> target_id)\<rparr>)))"

text \<open>\<open>_tab\<close>: the first tab with the identifier; \<open>next\<close> without a default raises \<open>StopIteration\<close>.\<close>

definition fake_tab_of :: "string \<Rightarrow> string \<Rightarrow> fake_runner \<Rightarrow> runner_error + fake_tab" where
  "fake_tab_of session_id target_id r =
     (case fr_tabs r session_id of
        None \<Rightarrow> Inl Key_error
      | Some items \<Rightarrow>
          (case find (\<lambda>t. ft_target_id t = target_id) items of None \<Rightarrow> Inl Stop_iteration | Some t \<Rightarrow> Inr t))"

definition fake_activate :: "string \<Rightarrow> string \<Rightarrow> fake_runner \<Rightarrow> (tab_state list \<times> string) fake_result" where
  "fake_activate session_id target_id r =
     (case fake_tab_of session_id target_id r of
        Inl e \<Rightarrow> (Inl e, r)
      | Inr _ \<Rightarrow> fake_browser_state session_id (r\<lparr>fr_active := (fr_active r)(session_id \<mapsto> target_id)\<rparr>))"

fun remove_first :: "('a \<Rightarrow> bool) \<Rightarrow> 'a list \<Rightarrow> 'a list" where
  "remove_first p [] = []"
| "remove_first p (x # xs) = (if p x then xs else x # remove_first p xs)"

fun update_first :: "('a \<Rightarrow> bool) \<Rightarrow> ('a \<Rightarrow> 'a) \<Rightarrow> 'a list \<Rightarrow> 'a list" where
  "update_first p f [] = []"
| "update_first p f (x # xs) = (if p x then f x # xs else x # update_first p f xs)"

definition fake_close :: "string \<Rightarrow> string \<Rightarrow> fake_runner \<Rightarrow> (tab_state list \<times> string) fake_result" where
  "fake_close session_id target_id r =
     (case fr_tabs r session_id of
        None \<Rightarrow> (Inl Key_error, r)
      | Some items \<Rightarrow>
          if length items \<le> 1 then (Inl Last_tab_error, r)
          else
            (case fake_tab_of session_id target_id r of
               Inl e \<Rightarrow> (Inl e, r)
             | Inr _ \<Rightarrow>
                 (let items' = remove_first (\<lambda>t. ft_target_id t = target_id) items;
                      r1 = r\<lparr>fr_tabs := (fr_tabs r)(session_id \<mapsto> items')\<rparr>
                  in case fr_active r session_id of
                       None \<Rightarrow> (Inl Key_error, r1)
                     | Some active \<Rightarrow>
                         fake_browser_state session_id
                           (if active = target_id
                            then r1\<lparr>fr_active := (fr_active r)(session_id \<mapsto> ft_target_id (last items'))\<rparr> else r1))))"

definition navigate_tab :: "string \<Rightarrow> fake_tab \<Rightarrow> fake_tab" where
  "navigate_tab url t =
     t\<lparr>ft_history := take (nat (ft_index t + 1)) (ft_history t) @ [url], ft_index := ft_index t + 1, ft_url := url,
       ft_title := url_title url\<rparr>"

definition move_tab :: "int \<Rightarrow> fake_tab \<Rightarrow> fake_tab" where
  "move_tab delta t =
     (let i = max 0 (min (int (length (ft_history t)) - 1) (ft_index t + delta)); url = ft_history t ! nat i
      in t\<lparr>ft_index := i, ft_url := url, ft_title := url_title url\<rparr>)"

definition change_tab :: "(fake_tab \<Rightarrow> fake_tab) \<Rightarrow> string \<Rightarrow> string \<Rightarrow> fake_runner \<Rightarrow> (tab_state list \<times> string) fake_result" where
  "change_tab f session_id target_id r =
     (case fake_tab_of session_id target_id r of
        Inl e \<Rightarrow> (Inl e, r)
      | Inr _ \<Rightarrow>
          fake_browser_state session_id
            (r\<lparr>fr_tabs := (fr_tabs r)(session_id \<mapsto>
                 update_first (\<lambda>t. ft_target_id t = target_id) f (the (fr_tabs r session_id)))\<rparr>))"

definition fake_navigate :: "string \<Rightarrow> string \<Rightarrow> string \<Rightarrow> fake_runner \<Rightarrow> (tab_state list \<times> string) fake_result" where
  "fake_navigate session_id target_id url r = change_tab (navigate_tab url) session_id target_id r"

definition fake_history :: "string \<Rightarrow> string \<Rightarrow> int \<Rightarrow> fake_runner \<Rightarrow> (tab_state list \<times> string) fake_result" where
  "fake_history session_id target_id delta r = change_tab (move_tab delta) session_id target_id r"

definition fake_reload :: "string \<Rightarrow> string \<Rightarrow> fake_runner \<Rightarrow> (tab_state list \<times> string) fake_result" where
  "fake_reload session_id target_id r =
     (case fake_tab_of session_id target_id r of
        Inl e \<Rightarrow> (Inl e, r)
      | Inr _ \<Rightarrow>
          fake_browser_state session_id
            (r\<lparr>fr_reloads := (fr_reloads r)(target_id \<mapsto> (case fr_reloads r target_id of None \<Rightarrow> 0 | Some n \<Rightarrow> n) + 1)\<rparr>))"

definition reload_count :: "string \<Rightarrow> fake_runner \<Rightarrow> int" where
  "reload_count target_id r = (case fr_reloads r target_id of None \<Rightarrow> 0 | Some n \<Rightarrow> n)"

section \<open>The invariant of the tabs\<close>

definition tab_ok :: "fake_tab \<Rightarrow> bool" where
  "tab_ok t \<longleftrightarrow> 0 \<le> ft_index t \<and> ft_index t < int (length (ft_history t)) \<and> ft_url t = ft_history t ! nat (ft_index t)"

definition runner_ok :: "fake_runner \<Rightarrow> bool" where
  "runner_ok r \<longleftrightarrow>
     (\<forall>s items. fr_tabs r s = Some items \<longrightarrow>
        items \<noteq> [] \<and> (\<forall>t \<in> set items. tab_ok t) \<and> (\<exists>t \<in> set items. fr_active r s = Some (ft_target_id t)))"

inductive fake_reach :: "fake_runner \<Rightarrow> bool" where
  new: "fake_reach (new_fake_runner ip)"
| start: "fake_reach r \<Longrightarrow> fake_reach (snd (fake_start s p r))"
| stop: "fake_reach r \<Longrightarrow> fake_reach (fake_stop s r)"
| marker: "fake_reach r \<Longrightarrow> fake_reach (snd (write_profile_marker s k v r))"
| new_tab: "fake_reach r \<Longrightarrow> fake_reach (snd (fake_new_tab s url r))"
| activate: "fake_reach r \<Longrightarrow> fake_reach (snd (fake_activate s t r))"
| close: "fake_reach r \<Longrightarrow> fake_reach (snd (fake_close s t r))"
| navigate: "fake_reach r \<Longrightarrow> fake_reach (snd (fake_navigate s t url r))"
| history: "fake_reach r \<Longrightarrow> fake_reach (snd (fake_history s t delta r))"
| reload: "fake_reach r \<Longrightarrow> fake_reach (snd (fake_reload s t r))"

lemma state_keeps [simp]: "snd (fake_browser_state s r) = r"
  by (simp add: fake_browser_state_def split: option.split)

lemma tab_ok_new [simp]: "tab_ok (new_tab_at i t url)"
  by (simp add: tab_ok_def new_tab_at_def)

lemma tab_ok_navigate: "tab_ok t \<Longrightarrow> tab_ok (navigate_tab url t)"
  by (auto simp: tab_ok_def navigate_tab_def nth_append nat_add_distrib)

lemma tab_ok_move: "tab_ok t \<Longrightarrow> tab_ok (move_tab delta t)"
  by (auto simp: tab_ok_def move_tab_def Let_def)

lemma set_update_first: "set (update_first p f xs) \<subseteq> set xs \<union> f ` {x \<in> set xs. p x}"
  by (induction xs) auto

lemma set_remove_first: "set (remove_first p xs) \<subseteq> set xs" "\<forall>x \<in> set xs. \<not> p x \<longrightarrow> x \<in> set (remove_first p xs)"
  by (induction xs) auto

lemma map_update_first: "(\<And>x. k (f x) = k x) \<Longrightarrow> map k (update_first p f xs) = map k xs"
  by (induction xs) auto

lemma length_remove_first: "\<exists>x \<in> set xs. p x \<Longrightarrow> Suc (length (remove_first p xs)) = length xs"
  by (induction xs) auto

lemma fake_tab_of_Inr:
  assumes "fake_tab_of s i r = Inr t"
  obtains items where "fr_tabs r s = Some items" "t \<in> set items" "ft_target_id t = i"
  using assms by (auto simp: fake_tab_of_def find_Some_iff split: option.split_asm)

lemma runner_ok_put:
  assumes "runner_ok r" and "items \<noteq> []" and "\<forall>t \<in> set items. tab_ok t" and "t \<in> set items" and "a s = Some (ft_target_id t)"
    and "\<forall>j. j \<noteq> s \<longrightarrow> a j = fr_active r j"
  shows "runner_ok (r\<lparr>fr_tabs := (fr_tabs r)(s \<mapsto> items), fr_active := a\<rparr>)"
  using assms unfolding runner_ok_def by auto

lemma runner_ok_tabs:
  assumes "runner_ok r" and "items \<noteq> []" and "\<forall>t \<in> set items. tab_ok t" and "\<exists>t \<in> set items. fr_active r s = Some (ft_target_id t)"
  shows "runner_ok (r\<lparr>fr_tabs := (fr_tabs r)(s \<mapsto> items)\<rparr>)"
  using assms unfolding runner_ok_def by auto

lemma start_ok: "runner_ok r \<Longrightarrow> runner_ok (snd (fake_start s p r))"
  by (auto simp: fake_start_def Let_def runner_ok_def new_tab_at_def tab_ok_def)

lemma stop_ok: "runner_ok r \<Longrightarrow> runner_ok (fake_stop s r)"
  by (auto simp: fake_stop_def runner_ok_def split: option.split)

lemma marker_ok: "runner_ok r \<Longrightarrow> runner_ok (snd (write_profile_marker s k v r))"
  by (auto simp: write_profile_marker_def runner_ok_def split: option.split)

lemma new_tab_ok: "runner_ok r \<Longrightarrow> runner_ok (snd (fake_new_tab s url r))"
  by (auto simp: fake_new_tab_def Let_def runner_ok_def new_tab_at_def tab_ok_def split: option.split)

lemma activate_ok:
  assumes "runner_ok r"
  shows "runner_ok (snd (fake_activate s i r))"
proof (cases "fake_tab_of s i r")
  case (Inl e)
  with assms show ?thesis by (simp add: fake_activate_def)
next
  case (Inr t)
  then obtain items where "fr_tabs r s = Some items" "t \<in> set items" "ft_target_id t = i" by (rule fake_tab_of_Inr)
  with assms Inr show ?thesis by (auto simp: fake_activate_def runner_ok_def)
qed

lemma change_ok:
  assumes "runner_ok r" and "\<And>t. tab_ok t \<Longrightarrow> tab_ok (f t)" and "\<And>t. ft_target_id (f t) = ft_target_id t"
  shows "runner_ok (snd (change_tab f s i r))"
proof (cases "fake_tab_of s i r")
  case (Inl e)
  with assms(1) show ?thesis by (simp add: change_tab_def)
next
  case (Inr t)
  then obtain items where items: "fr_tabs r s = Some items" by (rule fake_tab_of_Inr)
  let ?u = "update_first (\<lambda>t. ft_target_id t = i) f items"
  from assms(1) items have ok: "items \<noteq> []" "\<forall>t \<in> set items. tab_ok t" "\<exists>t \<in> set items. fr_active r s = Some (ft_target_id t)"
    by (auto simp: runner_ok_def)
  have ids: "map ft_target_id ?u = map ft_target_id items" by (rule map_update_first) (rule assms(3))
  then have "?u \<noteq> []" using ok(1) by auto
  moreover have "\<forall>t \<in> set ?u. tab_ok t"
    using set_update_first [of "\<lambda>t. ft_target_id t = i" f items] ok(2) assms(2) by fastforce
  moreover have "ft_target_id ` set ?u = ft_target_id ` set items" using arg_cong [OF ids, of set] by simp
  then have "\<exists>t \<in> set ?u. fr_active r s = Some (ft_target_id t)" using ok(3) by (metis imageE imageI)
  ultimately have "runner_ok (r\<lparr>fr_tabs := (fr_tabs r)(s \<mapsto> ?u)\<rparr>)" by (rule runner_ok_tabs [OF assms(1)])
  with Inr items show ?thesis by (simp add: change_tab_def)
qed

lemma close_ok:
  assumes "runner_ok r"
  shows "runner_ok (snd (fake_close s i r))"
proof (cases "\<exists>items t. fr_tabs r s = Some items \<and> 1 < length items \<and> fake_tab_of s i r = Inr t")
  case False
  then have "\<not> 1 < length items \<or> (\<exists>e. fake_tab_of s i r = Inl e)" if "fr_tabs r s = Some items" for items
    using that by (cases "fake_tab_of s i r") auto
  with assms show ?thesis
    by (cases "fr_tabs r s") (force simp: fake_close_def not_less)+
next
  case True
  then obtain items t where items: "fr_tabs r s = Some items" "1 < length items" and t: "fake_tab_of s i r = Inr t" by blast
  let ?u = "remove_first (\<lambda>t. ft_target_id t = i) items"
  from assms items have ok: "\<forall>t \<in> set items. tab_ok t" and "\<exists>a \<in> set items. fr_active r s = Some (ft_target_id a)"
    unfolding runner_ok_def by fastforce+
  then obtain a where a: "a \<in> set items" "fr_active r s = Some (ft_target_id a)" by blast
  from t items(1) have "\<exists>x \<in> set items. ft_target_id x = i" by (auto elim!: fake_tab_of_Inr)
  from length_remove_first [OF this] items(2) have ne: "?u \<noteq> []" by (auto simp del: remove_first.simps)
  have oku: "\<forall>t \<in> set ?u. tab_ok t" using set_remove_first(1) ok by fastforce
  show ?thesis
  proof (cases "ft_target_id a = i")
    case True
    have "runner_ok (r\<lparr>fr_tabs := (fr_tabs r)(s \<mapsto> ?u), fr_active := (fr_active r)(s \<mapsto> ft_target_id (last ?u))\<rparr>)"
      using ne by (intro runner_ok_put [OF assms ne oku, of "last ?u"]) auto
    with True items a(2) t show ?thesis by (simp add: fake_close_def Let_def)
  next
    case False
    with a set_remove_first(2) [of items "\<lambda>t. ft_target_id t = i"] have "a \<in> set ?u" by simp
    with a(2) have "runner_ok (r\<lparr>fr_tabs := (fr_tabs r)(s \<mapsto> ?u)\<rparr>)" by (intro runner_ok_tabs [OF assms ne oku]) auto
    with False items a(2) t show ?thesis by (simp add: fake_close_def Let_def)
  qed
qed

lemma reload_ok: "runner_ok r \<Longrightarrow> runner_ok (snd (fake_reload s i r))"
  by (auto simp: fake_reload_def runner_ok_def split: sum.split)

lemma tab_ids [simp]: "ft_target_id (navigate_tab url t) = ft_target_id t" "ft_target_id (move_tab delta t) = ft_target_id t"
  by (simp_all add: navigate_tab_def move_tab_def Let_def)

lemma fake_reach_ok: "fake_reach r \<Longrightarrow> runner_ok r"
proof (induction rule: fake_reach.induct)
  case (new ip)
  then show ?case by (simp add: runner_ok_def new_fake_runner_def)
qed (simp_all add: start_ok stop_ok marker_ok new_tab_ok activate_ok close_ok reload_ok fake_navigate_def fake_history_def
    change_ok tab_ok_navigate tab_ok_move)

text \<open>Whatever is done to the runner in memory, a started session has at least one tab, its active tab is one
  of them, and every tab shows the entry of its own history that its index points to.\<close>

theorem fake_state_consistent:
  assumes "fake_reach r" and "fake_browser_state s r = (Inr (items, active), r')"
  shows "items \<noteq> [] \<and> r' = r \<and> (\<exists>t \<in> set items. ts_target_id t = active \<and> ts_active t) \<and>
    (\<exists>ft. fr_tabs r s = Some ft \<and> list_all2 (\<lambda>t f. ts_url t = ft_history f ! nat (ft_index f) \<and> 0 \<le> ft_index f \<and>
       ft_index f < int (length (ft_history f)) \<and> ts_target_id t = ft_target_id f) items ft)"
proof -
  from assms(2) obtain ft where ft: "fr_active r s = Some active" "fr_tabs r s = Some ft" "items = map (tab_state_of active) ft" "r' = r"
    by (auto simp: fake_browser_state_def split: option.split_asm)
  with fake_reach_ok [OF assms(1)] have "ft \<noteq> []" "\<forall>t \<in> set ft. tab_ok t" "\<exists>t \<in> set ft. active = ft_target_id t"
    unfolding runner_ok_def by fastforce+
  with ft show ?thesis
    by (auto simp: tab_state_of_def tab_ok_def list_all2_conv_all_nth)
qed

text \<open>The identifier of a new tab is taken from the number of tabs, so after a tab was closed it can be that of a
  tab that is still open, which then cannot be reached.\<close>

lemma tab_ids_collide:
  "\<exists>r. fake_reach r \<and> (\<exists>a b. fr_tabs r ''s'' = Some [a, b] \<and> ft_target_id a = ft_target_id b \<and> ft_url a \<noteq> ft_url b)"
proof -
  let ?r1 = "snd (fake_start ''s'' ''p'' (new_fake_runner ''ip''))"
  let ?r2 = "snd (fake_new_tab ''s'' ''https://a'' ?r1)"
  let ?r3 = "snd (fake_close ''s'' (tab_id ''s'' 1) ?r2)"
  let ?r4 = "snd (fake_new_tab ''s'' ''https://b'' ?r3)"
  have "fake_reach ?r4" by (intro fake_reach.intros)
  moreover have d: "tab_id ''s'' 1 \<noteq> tab_id ''s'' 2" by (simp add: tab_id_def nat_str_small digit_char_def)
  have 2: "fr_tabs ?r2 ''s'' = Some [new_tab_at (tab_id ''s'' 1) ''example.com'' ''https://example.com'',
      new_tab_at (tab_id ''s'' 2) (url_title ''https://a'') ''https://a'']" "fr_active ?r2 ''s'' = Some (tab_id ''s'' 2)"
    by (simp_all add: fake_new_tab_def Let_def fake_start_def numeral_2_eq_2)
  have 3: "fr_tabs ?r3 ''s'' = Some [new_tab_at (tab_id ''s'' 2) (url_title ''https://a'') ''https://a'']"
    using 2 d by (simp add: fake_close_def fake_tab_of_def Let_def new_tab_at_def)
  have "fr_tabs ?r4 ''s'' = Some [new_tab_at (tab_id ''s'' 2) (url_title ''https://a'') ''https://a'',
      new_tab_at (tab_id ''s'' 2) (url_title ''https://b'') ''https://b'']"
    using 3 by (simp add: fake_new_tab_def Let_def numeral_2_eq_2)
  ultimately show ?thesis by (fastforce simp: new_tab_at_def)
qed

end
