(* ===== verification/Podman_Runner.thy ===== *)
theory Podman_Runner
  imports Browser_Sessions "HOL-Library.Sublist"
begin

text \<open>
  \<open>PodmanBrowserRunner\<close> of \<open>cloudbrowser/runner.py\<close>: the command line of a container, its start under the lock
  of the profile, stop, status and the endpoint of its control channel.

  A path is the list of its components; \<open>resolve\<close> is \<open>Path.resolve\<close>. The runner's state has the commands that
  were run and the locks it holds, the profile by the session. \<open>run\<close> says how the next command ends and
  \<open>time\<close> what the clock shows after so many commands. A lock file that is closed or no longer referred to is
  unlocked, so only the locks the runner keeps are in the state; \<open>busy\<close> says that another process holds the
  lock of the profile. The two waiting loops take fuel: with the pause of a quarter of a second between
  attempts they make at most one attempt for each quarter of a second before their deadline.
\<close>

datatype podman_error = Value_error string | Runtime_error string | Other_error | Out_of_fuel

type_synonym path = "string list"

definition path_str :: "path \<Rightarrow> string" where
  "path_str p = concat (map (\<lambda>c. CHR ''/'' # c) p)"

definition name_char :: "char \<Rightarrow> bool" where
  "name_char c \<longleftrightarrow> is_alnum c \<or> c = CHR ''_'' \<or> c = CHR ''-''"

text \<open>\<open>re.fullmatch(r"[a-zA-Z0-9][a-zA-Z0-9_-]{1,63}", value)\<close>.\<close>

definition valid_name :: "string \<Rightarrow> bool" where
  "valid_name s \<longleftrightarrow> 2 \<le> length s \<and> length s \<le> 64 \<and> is_alnum (hd s) \<and> list_all name_char s"

definition container_name :: "string \<Rightarrow> string" where
  "container_name session_id = ''cloud-browser-'' @ session_id"

section \<open>The command line\<close>

record egress_arg =
  ea_kind :: string
  ea_config :: json

definition config_get :: "json \<Rightarrow> string \<Rightarrow> json option" where
  "config_get c k = (case c of JObj members \<Rightarrow> Some (payload_get members k) | _ \<Rightarrow> None)"

fun json_truthy :: "json \<Rightarrow> bool" where
  "json_truthy JNull = False"
| "json_truthy (JBool b) = b"
| "json_truthy (JInt i) = (i \<noteq> 0)"
| "json_truthy (JFloat f) = (case f of Fin q \<Rightarrow> q \<noteq> 0 | _ \<Rightarrow> True)"
| "json_truthy (JStr s) = (s \<noteq> [])"
| "json_truthy (JArr a) = (a \<noteq> [])"
| "json_truthy (JObj m) = (m \<noteq> [])"

definition container_options :: "string \<Rightarrow> string \<Rightarrow> path \<Rightarrow> string list" where
  "container_options session_id profile_key profile_dir =
     [''podman'', ''run'', ''-d'', ''--name='' @ container_name session_id, ''--label=cloudbrowser.session='' @ session_id,
      ''--label=cloudbrowser.profile='' @ profile_key, ''--label=com.open-cloud-browser.video=true'', ''--cap-drop=all'',
      ''--security-opt=no-new-privileges'', ''--read-only'', ''--memory=1536m'', ''--cpus=2'', ''--pids-limit=384'',
      ''--stop-timeout=20'', ''--network=slirp4netns:allow_host_loopback=false'',
      ''--tmpfs=/tmp:rw,nosuid,nodev,size=512m,mode=1777'', ''--tmpfs=/run:rw,nosuid,nodev,size=32m,mode=0755'',
      ''-p'', ''127.0.0.1::8080'', ''-p'', ''127.0.0.1::9223'', ''-v'', path_str profile_dir @ '':/home/ubuntu/profile:Z'',
      ''-e'', ''SELKIES_MODE=webrtc'', ''-e'', ''SELKIES_ENABLE_DUAL_MODE=true'', ''-e'', ''SELKIES_ENABLE_BASIC_AUTH=false'']"

text \<open>A start URL that is not a text raises in the parser; so does one the parser cannot split.\<close>

definition start_url_args :: "json \<Rightarrow> podman_error + string list" where
  "start_url_args start_url =
     (if \<not> json_truthy start_url then Inr []
      else
        (case start_url of
           JStr url \<Rightarrow>
             (case is_url_allowed url of
                None \<Rightarrow> Inl Other_error
              | Some allowed \<Rightarrow>
                  if \<not> allowed then Inl (Value_error ''start URL is blocked by network policy'')
                  else Inr [''-e'', ''START_URL='' @ url])
         | _ \<Rightarrow> Inl Other_error))"

text \<open>\<open>display\<close> is how a proxy that is not a text is printed.\<close>

definition proxy_args :: "(json \<Rightarrow> string) \<Rightarrow> string \<Rightarrow> json \<Rightarrow> string list" where
  "proxy_args display kind proxy =
     (if kind = ''proxy'' \<and> json_truthy proxy
      then [''-e'', ''EGRESS_PROXY='' @ (case proxy of JStr p \<Rightarrow> p | _ \<Rightarrow> display proxy)] else [])"

definition build_start_command ::
  "(path \<Rightarrow> path) \<Rightarrow> (json \<Rightarrow> string) \<Rightarrow> path \<Rightarrow> string \<Rightarrow> string \<Rightarrow> string \<Rightarrow> egress_arg \<Rightarrow> podman_error + string list" where
  "build_start_command resolve display data_dir img session_id profile_key egress =
     (let profile_dir = resolve (data_dir @ [''profiles'', profile_key]); root = resolve (data_dir @ [''profiles'']) in
      if \<not> valid_name session_id then Inl (Value_error ''invalid session id'')
      else if \<not> valid_name profile_key then Inl (Value_error ''invalid profile key'')
      else if ea_kind egress \<notin> {''host'', ''proxy''} then Inl (Value_error ''unsupported egress profile'')
      else if \<not> strict_prefix root profile_dir then Inl (Value_error ''profile escapes data directory'')
      else
        (case (config_get (ea_config egress) ''start_url'', config_get (ea_config egress) ''proxy_url'') of
           (Some start_url, Some proxy) \<Rightarrow>
             (case start_url_args start_url of
                Inl e \<Rightarrow> Inl e
              | Inr start_args \<Rightarrow>
                  Inr (container_options session_id profile_key profile_dir @ start_args @
                       proxy_args display (ea_kind egress) proxy @ [img]))
         | _ \<Rightarrow> Inl Other_error))"

section \<open>Running commands\<close>

datatype run_result = Ran string | Run_failed string | Run_raised

record podman_state =
  pd_commands :: "string list list"
  pd_locks :: "string \<rightharpoonup> string"

type_synonym 'a podman = "podman_state \<Rightarrow> (podman_error + 'a) \<times> podman_state"
type_synonym runs = "nat \<Rightarrow> string list \<Rightarrow> run_result"

definition podman_run :: "runs \<Rightarrow> string list \<Rightarrow> string podman" where
  "podman_run run command st =
     ((case run (length (pd_commands st)) command of
         Ran out \<Rightarrow> Inr out | Run_failed m \<Rightarrow> Inl (Runtime_error m) | Run_raised \<Rightarrow> Inl Other_error),
      st\<lparr>pd_commands := pd_commands st @ [command]\<rparr>)"

definition and_then :: "'a podman \<Rightarrow> ('a \<Rightarrow> 'b podman) \<Rightarrow> 'b podman" where
  "and_then m f st = (case m st of (Inl e, st1) \<Rightarrow> (Inl e, st1) | (Inr x, st1) \<Rightarrow> f x st1)"

definition give :: "podman_error + 'a \<Rightarrow> 'a podman" where
  "give r st = (r, st)"

text \<open>\<open>endpoint.rsplit(":", 1)\<close> and \<open>int(port_text)\<close>.\<close>

definition host_port :: "string \<Rightarrow> podman_error + string \<times> int" where
  "host_port endpoint =
     (case rpartition_char (CHR '':'') endpoint of
        (host, found, port) \<Rightarrow>
          if \<not> found then Inl (Value_error ''not enough values to unpack'')
          else (case int_of_str port of None \<Rightarrow> Inl (Value_error ''invalid literal for int()'') | Some p \<Rightarrow> Inr (host, p)))"

definition local_url :: "string \<Rightarrow> int \<Rightarrow> string" where
  "local_url host port = ''http://'' @ host @ '':'' @ int_str port"

text \<open>The host is tested before the port is read.\<close>

definition cdp_endpoint :: "runs \<Rightarrow> string \<Rightarrow> string podman" where
  "cdp_endpoint run session_id =
     (if \<not> valid_name session_id then give (Inl (Value_error ''invalid session id''))
      else
        and_then (podman_run run [''podman'', ''port'', container_name session_id, ''9223/tcp'']) (\<lambda>endpoint.
          give
            (case rpartition_char (CHR '':'') endpoint of
               (host, found, port) \<Rightarrow>
                 if \<not> found then Inl (Value_error ''not enough values to unpack'')
                 else if host \<noteq> ''127.0.0.1'' then Inl (Runtime_error ''CDP port is not bound to loopback'')
                 else
                   (case int_of_str port of
                      None \<Rightarrow> Inl (Value_error ''invalid literal for int()'')
                    | Some p \<Rightarrow>
                        if 1 \<le> p \<and> p \<le> 65535 then Inr (local_url ''127.0.0.1'' p)
                        else Inl (Runtime_error ''invalid CDP port'')))))"

definition container_exists :: "runs \<Rightarrow> string \<Rightarrow> bool podman" where
  "container_exists run session_id =
     and_then (podman_run run [''podman'', ''ps'', ''-aq'', ''--filter'', ''name=^'' @ container_name session_id @ ''$''])
       (\<lambda>out. give (Inr (out \<noteq> [])))"

text \<open>\<open>while time.monotonic() < deadline\<close>: whether the command has succeeded in time.\<close>

fun wait_ready :: "nat \<Rightarrow> runs \<Rightarrow> (nat \<Rightarrow> rat) \<Rightarrow> rat \<Rightarrow> string list \<Rightarrow> bool podman" where
  "wait_ready 0 run time deadline command st = (Inl Out_of_fuel, st)"
| "wait_ready (Suc fuel) run time deadline command st =
     (if \<not> time (length (pd_commands st)) < deadline then (Inr False, st)
      else
        (case podman_run run command st of
           (Inr _, st1) \<Rightarrow> (Inr True, st1)
         | (Inl (Runtime_error _), st1) \<Rightarrow> wait_ready fuel run time deadline command st1
         | (Inl e, st1) \<Rightarrow> (Inl e, st1)))"

definition wait_until :: "runs \<Rightarrow> (nat \<Rightarrow> rat) \<Rightarrow> nat \<Rightarrow> string list \<Rightarrow> bool podman" where
  "wait_until run time secs command st =
     wait_ready (4 * secs + 1) run time (time (length (pd_commands st)) + of_nat secs) command st"

definition curl :: "string \<Rightarrow> string list" where
  "curl url = [''curl'', ''-fsS'', ''--max-time'', ''1'', url]"

definition run_container :: "runs \<Rightarrow> (nat \<Rightarrow> rat) \<Rightarrow> string list \<Rightarrow> string \<Rightarrow> string podman" where
  "run_container run time command session_id =
     and_then (podman_run run command) (\<lambda>_.
     and_then (podman_run run [''podman'', ''port'', container_name session_id, ''8080/tcp'']) (\<lambda>endpoint.
     and_then (give (host_port endpoint)) (\<lambda>(host, port).
     and_then (wait_until run time 30 (curl (local_url ''127.0.0.1'' port @ ''/''))) (\<lambda>ready.
       if \<not> ready then
         and_then (podman_run run [''podman'', ''logs'', container_name session_id])
           (\<lambda>logs. give (Inl (Runtime_error (''Selkies did not become ready: '' @ drop (length logs - 1000) logs))))
       else
         and_then (cdp_endpoint run session_id) (\<lambda>cdp.
         and_then (wait_until run time 20 (curl (cdp @ ''/json/version''))) (\<lambda>ready2.
           if \<not> ready2 then give (Inl (Runtime_error ''Chromium control channel did not become ready''))
           else give (Inr (local_url host port))))))))"

text \<open>The handler of every exception removes the container, suppresses the failure of that and raises again.\<close>

definition remove_container :: "runs \<Rightarrow> string \<Rightarrow> unit podman" where
  "remove_container run session_id st =
     (case podman_run run [''podman'', ''rm'', ''-f'', container_name session_id] st of
        (Inl (Runtime_error _), st1) \<Rightarrow> (Inr (), st1)
      | (Inl e, st1) \<Rightarrow> (Inl e, st1)
      | (Inr _, st1) \<Rightarrow> (Inr (), st1))"

definition podman_start ::
  "(path \<Rightarrow> path) \<Rightarrow> (json \<Rightarrow> string) \<Rightarrow> path \<Rightarrow> string \<Rightarrow> runs \<Rightarrow> (nat \<Rightarrow> rat) \<Rightarrow> bool \<Rightarrow> bool \<Rightarrow> string \<Rightarrow> string \<Rightarrow> egress_arg \<Rightarrow>
   string podman" where
  "podman_start resolve display data_dir img run time files_ok busy session_id profile_key egress =
     and_then (give (build_start_command resolve display data_dir img session_id profile_key egress)) (\<lambda>command st.
       if \<not> files_ok then (Inl Other_error, st)
       else if busy \<or> profile_key \<in> ran (pd_locks st) then (Inl (Runtime_error ''browser profile is already in use''), st)
       else
         and_then (podman_run run [''podman'', ''ps'', ''-q'', ''--filter'', ''label=cloudbrowser.profile='' @ profile_key]) (\<lambda>existing.
           if existing \<noteq> [] then give (Inl (Runtime_error ''browser profile already has a running container''))
           else
             and_then (container_exists run session_id) (\<lambda>old.
             and_then (if old then podman_run run [''podman'', ''rm'', ''-f'', container_name session_id] else give (Inr [])) (\<lambda>_ st1.
               case run_container run time command session_id st1 of
                 (Inl e, st2) \<Rightarrow> and_then (remove_container run session_id) (\<lambda>_. give (Inl e)) st2
               | (Inr endpoint, st2) \<Rightarrow> (Inr endpoint, st2\<lparr>pd_locks := (pd_locks st2)(session_id \<mapsto> profile_key)\<rparr>)))) st)"

definition podman_stop :: "runs \<Rightarrow> string \<Rightarrow> unit podman" where
  "podman_stop run session_id =
     (if \<not> valid_name session_id then give (Inl (Value_error ''invalid session id''))
      else
        and_then (container_exists run session_id) (\<lambda>there.
        and_then
          (if there then
             and_then (podman_run run [''podman'', ''stop'', ''--time'', ''20'', container_name session_id])
               (\<lambda>_. podman_run run [''podman'', ''rm'', container_name session_id])
           else give (Inr []))
          (\<lambda>_ st. (Inr (), st\<lparr>pd_locks := (pd_locks st)(session_id := None)\<rparr>))))"

definition podman_status :: "runs \<Rightarrow> string \<Rightarrow> string podman" where
  "podman_status run session_id =
     (if \<not> valid_name session_id then give (Inl (Value_error ''invalid session id''))
      else
        and_then (container_exists run session_id) (\<lambda>there.
          if \<not> there then give (Inr ''stopped'')
          else
            and_then (podman_run run [''podman'', ''inspect'', ''--format'', ''{{.State.Status}}'', container_name session_id])
              (\<lambda>s. give (Inr (if s = ''running'' then ''running'' else ''error'')))))"

definition podman_egress_ip :: "runs \<Rightarrow> string \<Rightarrow> string podman" where
  "podman_egress_ip run session_id =
     (if \<not> valid_name session_id then give (Inl (Value_error ''invalid session id''))
      else podman_run run [''podman'', ''exec'', container_name session_id, ''curl'', ''-fsS'', ''--max-time'', ''10'',
             ''https://api.ipify.org''])"

section \<open>Waiting ends\<close>

lemma podman_run_state [simp]:
  "snd (podman_run run c st) = st\<lparr>pd_commands := pd_commands st @ [c]\<rparr>"
  "fst (podman_run run c st) \<noteq> Inl Out_of_fuel"
  by (auto simp: podman_run_def split: run_result.split)

lemma wait_ready_ends:
  assumes "\<forall>n. time n + 1 / 4 \<le> time (Suc n)" and "deadline - time (length (pd_commands st)) \<le> of_nat k / 4" and "k < fuel"
  shows "fst (wait_ready fuel run time deadline c st) \<noteq> Inl Out_of_fuel"
  using assms(2,3)
proof (induction fuel arbitrary: k st)
  case (Suc fuel)
  show ?case
  proof (cases "time (length (pd_commands st)) < deadline")
    case True
    with Suc.prems(1) have "k \<noteq> 0" by (cases k) auto
    then obtain j where k: "k = Suc j" by (cases k) auto
    obtain r st1 where r: "podman_run run c st = (r, st1)" by fastforce
    then have st1: "length (pd_commands st1) = Suc (length (pd_commands st))" and ne: "r \<noteq> Inl Out_of_fuel"
      using podman_run_state [of run c st] by auto
    have "deadline - time (length (pd_commands st1)) \<le> of_nat j / 4"
      using Suc.prems(1) assms(1) [rule_format, of "length (pd_commands st)"] by (simp add: k st1 field_simps)
    with Suc.IH [of st1 j] Suc.prems(2) k have "fst (wait_ready fuel run time deadline c st1) \<noteq> Inl Out_of_fuel" by simp
    with True r ne show ?thesis by (auto split: sum.split podman_error.split)
  qed simp
qed simp

lemma wait_until_ends:
  assumes "\<forall>n. time n + 1 / 4 \<le> time (Suc n)"
  shows "fst (wait_until run time secs c st) \<noteq> Inl Out_of_fuel"
  unfolding wait_until_def by (rule wait_ready_ends [of time _ _ "4 * secs"]) (use assms in simp_all)

section \<open>Locks\<close>

definition no_fuel_out :: "'a podman \<Rightarrow> bool" where
  "no_fuel_out m \<longleftrightarrow> (\<forall>st. fst (m st) \<noteq> Inl Out_of_fuel)"

lemma no_fuel_and_then [intro]:
  "no_fuel_out m \<Longrightarrow> (\<And>x. no_fuel_out (f x)) \<Longrightarrow> no_fuel_out (and_then m f)"
  unfolding no_fuel_out_def and_then_def by (auto split: prod.split sum.split) (metis fst_conv)+

lemma no_fuel_basic [intro, simp]:
  "no_fuel_out (podman_run run c)" "r \<noteq> Inl Out_of_fuel \<Longrightarrow> no_fuel_out (give r)"
  by (simp_all add: no_fuel_out_def give_def)

text \<open>What running commands leaves as it is: a reflexive and transitive relation of states that a command alone
  respects is respected by everything built from commands.\<close>

locale command_frame =
  fixes R :: "podman_state \<Rightarrow> podman_state \<Rightarrow> bool"
  assumes R_refl: "R st st"
    and R_trans: "R st1 st2 \<Longrightarrow> R st2 st3 \<Longrightarrow> R st1 st3"
    and R_run: "R st (st\<lparr>pd_commands := pd_commands st @ [c]\<rparr>)"
begin

definition keeps :: "'a podman \<Rightarrow> bool" where
  "keeps m \<longleftrightarrow> (\<forall>st. R st (snd (m st)))"

lemma keepsD: "keeps m \<Longrightarrow> m st = (r, st') \<Longrightarrow> R st st'"
  unfolding keeps_def by (metis snd_conv)

lemma keeps_and_then:
  assumes "keeps m" and "\<And>x. keeps (f x)"
  shows "keeps (and_then m f)"
  unfolding keeps_def
proof
  fix st
  obtain r st1 where m: "m st = (r, st1)" by fastforce
  show "R st (snd (and_then m f st))"
  proof (cases r)
    case (Inl e)
    with m keepsD [OF assms(1) m] show ?thesis by (simp add: and_then_def)
  next
    case (Inr x)
    have "R st1 (snd (f x st1))" using assms(2) by (simp add: keeps_def)
    with m Inr keepsD [OF assms(1) m] R_trans show ?thesis by (auto simp: and_then_def)
  qed
qed

lemma keeps_wait_ready: "R st (snd (wait_ready fuel run time deadline c st))"
proof (induction fuel arbitrary: st)
  case 0
  show ?case by (simp add: R_refl)
next
  case (Suc fuel)
  obtain r st1 where r: "podman_run run c st = (r, st1)" by fastforce
  then have "R st st1" using podman_run_state(1) [of run c st] R_run [of st c] by auto
  with Suc.IH [of st1] r R_refl R_trans show ?case by (auto split: sum.split podman_error.split)
qed

lemma keeps_basic: "keeps (podman_run run c)" "keeps (give r)" "keeps (wait_until run time secs c)"
  using R_refl R_run keeps_wait_ready by (simp_all add: keeps_def give_def wait_until_def del: wait_ready.simps)

lemma keeps_if: "\<lbrakk>b \<Longrightarrow> keeps x; \<not> b \<Longrightarrow> keeps y\<rbrakk> \<Longrightarrow> keeps (if b then x else y)"
  by simp

lemma keeps_prod: "(\<And>a b. keeps (f a b)) \<Longrightarrow> keeps (case p of (a, b) \<Rightarrow> f a b)"
  by (cases p) simp

lemmas keeps_intros = keeps_and_then keeps_if keeps_prod keeps_basic

lemma keeps_parts:
  "keeps (cdp_endpoint run s)" "keeps (container_exists run s)" "keeps (podman_status run s)" "keeps (podman_egress_ip run s)"
  unfolding cdp_endpoint_def container_exists_def podman_status_def podman_egress_ip_def
  by (intro keeps_intros)+

lemma keeps_container: "keeps (run_container run time c s)"
  unfolding run_container_def by (intro keeps_intros keeps_parts)

lemma keeps_remove: "keeps (remove_container run s)"
  using R_run by (simp add: keeps_def remove_container_def podman_run_def split: run_result.split)

end

interpretation locks: command_frame "\<lambda>a b. pd_locks b = pd_locks a"
  by unfold_locales simp_all

interpretation trail: command_frame "\<lambda>a b. prefix (pd_commands a) (pd_commands b)"
  by unfold_locales (auto simp: prefix_def)

text \<open>What a start does to the locks: an error changes nothing, a success takes the profile for the session.\<close>

definition locks_on_success :: "((string \<rightharpoonup> string) \<Rightarrow> (string \<rightharpoonup> string)) \<Rightarrow> 'a podman \<Rightarrow> bool" where
  "locks_on_success change m \<longleftrightarrow>
     (\<forall>st. pd_locks (snd (m st)) = (case fst (m st) of Inl _ \<Rightarrow> pd_locks st | Inr _ \<Rightarrow> change (pd_locks st)))"

lemma locks_and_then [intro]:
  assumes "locks.keeps m" and "\<And>x. locks_on_success change (f x)"
  shows "locks_on_success change (and_then m f)"
  unfolding locks_on_success_def
proof
  fix st
  obtain r st1 where m: "m st = (r, st1)" by fastforce
  with assms(1) have "pd_locks st1 = pd_locks st" by (auto dest: locks.keepsD)
  with m assms(2) show "pd_locks (snd (and_then m f st)) =
      (case fst (and_then m f st) of Inl _ \<Rightarrow> pd_locks st | Inr _ \<Rightarrow> change (pd_locks st))"
    by (cases r) (simp_all add: and_then_def locks_on_success_def split: sum.split)
qed

lemma locks_if [intro]:
  "\<lbrakk>b \<Longrightarrow> locks_on_success change x; \<not> b \<Longrightarrow> locks_on_success change y\<rbrakk> \<Longrightarrow> locks_on_success change (if b then x else y)"
  by simp

lemma locks_error [intro]: "locks_on_success change (give (Inl e))"
  by (simp add: locks_on_success_def give_def)

lemma locks_container:
  "locks_on_success (\<lambda>l. l(s \<mapsto> p)) (\<lambda>st1. case run_container run time command s st1 of
     (Inl e, st2) \<Rightarrow> and_then (remove_container run s) (\<lambda>_. give (Inl e)) st2
   | (Inr endpoint, st2) \<Rightarrow> (Inr endpoint, st2\<lparr>pd_locks := (pd_locks st2)(s \<mapsto> p)\<rparr>))"
  unfolding locks_on_success_def
proof
  fix st
  obtain r st1 where r: "run_container run time command s st = (r, st1)" by fastforce
  then have st1: "pd_locks st1 = pd_locks st" using locks.keepsD [OF locks.keeps_container] by blast
  obtain q st2 where q: "remove_container run s st1 = (q, st2)" by fastforce
  then have "pd_locks st2 = pd_locks st1" using locks.keepsD [OF locks.keeps_remove] by blast
  with r st1 q show "pd_locks (snd (case run_container run time command s st of
     (Inl e, st2) \<Rightarrow> and_then (remove_container run s) (\<lambda>_. give (Inl e)) st2
   | (Inr endpoint, st2) \<Rightarrow> (Inr endpoint, st2\<lparr>pd_locks := (pd_locks st2)(s \<mapsto> p)\<rparr>))) =
    (case fst (case run_container run time command s st of
     (Inl e, st2) \<Rightarrow> and_then (remove_container run s) (\<lambda>_. give (Inl e)) st2
   | (Inr endpoint, st2) \<Rightarrow> (Inr endpoint, st2\<lparr>pd_locks := (pd_locks st2)(s \<mapsto> p)\<rparr>)) of
     Inl _ \<Rightarrow> pd_locks st | Inr _ \<Rightarrow> (pd_locks st)(s \<mapsto> p))"
    by (cases r; cases q) (simp_all add: and_then_def give_def)
qed

lemma and_then_give [simp]: "and_then (give (Inr x)) f st = f x st" "and_then (give (Inl e)) f st = (Inl e, st)"
  by (simp_all add: and_then_def give_def)

lemma podman_start_locks:
  assumes "podman_start resolve display data_dir img run time files_ok busy s p egress st = (r, st')"
  shows "(\<exists>e. r = Inl e) \<and> pd_locks st' = pd_locks st \<or>
    (\<exists>x. r = Inr x) \<and> p \<notin> ran (pd_locks st) \<and> \<not> busy \<and> pd_locks st' = (pd_locks st)(s \<mapsto> p)"
proof (cases "build_start_command resolve display data_dir img s p egress")
  case (Inl e)
  with assms show ?thesis by (auto simp: podman_start_def)
next
  case (Inr command)
  define body where "body =
    and_then (podman_run run [''podman'', ''ps'', ''-q'', ''--filter'', ''label=cloudbrowser.profile='' @ p]) (\<lambda>existing.
           if existing \<noteq> [] then give (Inl (Runtime_error ''browser profile already has a running container''))
           else
             and_then (container_exists run s) (\<lambda>old.
             and_then (if old then podman_run run [''podman'', ''rm'', ''-f'', container_name s] else give (Inr [])) (\<lambda>_ st1.
               case run_container run time command s st1 of
                 (Inl e, st2) \<Rightarrow> and_then (remove_container run s) (\<lambda>_. give (Inl e)) st2
               | (Inr endpoint, st2) \<Rightarrow> (Inr endpoint, st2\<lparr>pd_locks := (pd_locks st2)(s \<mapsto> p)\<rparr>))))"
  have "locks_on_success (\<lambda>l. l(s \<mapsto> p)) body"
    unfolding body_def by (intro locks_and_then locks_if locks_error locks.keeps_intros locks.keeps_parts locks_container)
  then have l: "pd_locks (snd (body st)) = (case fst (body st) of Inl _ \<Rightarrow> pd_locks st | Inr _ \<Rightarrow> (pd_locks st)(s \<mapsto> p))"
    unfolding locks_on_success_def by blast
  have start: "(r, st') =
      (if \<not> files_ok then (Inl Other_error, st)
       else if busy \<or> p \<in> ran (pd_locks st) then (Inl (Runtime_error ''browser profile is already in use''), st)
       else body st)"
    using assms unfolding podman_start_def Inr body_def and_then_give by (rule sym)
  show ?thesis
  proof (cases "files_ok \<and> \<not> busy \<and> p \<notin> ran (pd_locks st)")
    case False
    with start show ?thesis by (cases files_ok) auto
  next
    case True
    with start have "body st = (r, st')" by auto
    with l True show ?thesis by (cases r) auto
  qed
qed

lemma podman_stop_locks:
  assumes "podman_stop run s st = (r, st')"
  shows "pd_locks st' = pd_locks st \<or> pd_locks st' = (pd_locks st)(s := None)"
proof -
  have "locks_on_success (\<lambda>l. l(s := None)) (\<lambda>st. (Inr (), st\<lparr>pd_locks := (pd_locks st)(s := None)\<rparr>))"
    by (simp add: locks_on_success_def)
  then have "locks_on_success (\<lambda>l. l(s := None)) (podman_stop run s)"
    unfolding podman_stop_def by (intro locks_and_then locks_if locks_error locks.keeps_intros locks.keeps_parts)
  then have "pd_locks (snd (podman_stop run s st)) =
      (case fst (podman_stop run s st) of Inl _ \<Rightarrow> pd_locks st | Inr _ \<Rightarrow> (pd_locks st)(s := None))"
    by (simp add: locks_on_success_def)
  with assms show ?thesis by (cases r) auto
qed

section \<open>One container for a profile\<close>

inductive podman_reach :: "podman_state \<Rightarrow> bool" where
  new: "podman_reach \<lparr>pd_commands = [], pd_locks = Map.empty\<rparr>"
| start: "podman_reach st \<Longrightarrow>
    podman_start resolve display data_dir img run time files_ok busy s p egress st = (r, st') \<Longrightarrow> podman_reach st'"
| stop: "podman_reach st \<Longrightarrow> podman_stop run s st = (u, st') \<Longrightarrow> podman_reach st'"
| status: "podman_reach st \<Longrightarrow> podman_status run s st = (t, st') \<Longrightarrow> podman_reach st'"
| egress: "podman_reach st \<Longrightarrow> podman_egress_ip run s st = (t, st') \<Longrightarrow> podman_reach st'"
| control: "podman_reach st \<Longrightarrow> cdp_endpoint run s st = (t, st') \<Longrightarrow> podman_reach st'"

definition exclusive :: "(string \<rightharpoonup> string) \<Rightarrow> bool" where
  "exclusive l \<longleftrightarrow> (\<forall>a b p. l a = Some p \<longrightarrow> l b = Some p \<longrightarrow> a = b)"

lemma exclusive_changes:
  "exclusive l \<Longrightarrow> p \<notin> ran l \<Longrightarrow> exclusive (l(s \<mapsto> p))" "exclusive l \<Longrightarrow> exclusive (l(s := None))"
  unfolding exclusive_def ran_def by (simp_all split: if_split_asm) auto

lemma podman_reach_exclusive:
  assumes "podman_reach st"
  shows "exclusive (pd_locks st)"
  using assms
proof (induction rule: podman_reach.induct)
  case new
  show ?case by (simp add: exclusive_def)
next
  case (start st resolve display data_dir img run time files_ok busy s p egress r st')
  from podman_start_locks [OF start.hyps(2)] start.IH exclusive_changes(1) show ?case by metis
next
  case (stop st run s u st')
  from podman_stop_locks [OF stop.hyps(2)] stop.IH exclusive_changes(2) show ?case by metis
next
  case (status st run s t st')
  then show ?case using locks.keepsD [OF locks.keeps_parts(3)] by metis
next
  case (egress st run s t st')
  then show ?case using locks.keepsD [OF locks.keeps_parts(4)] by metis
next
  case (control st run s t st')
  then show ?case using locks.keepsD [OF locks.keeps_parts(1)] by metis
qed

lemma build_start_Inr:
  assumes "build_start_command resolve display data_dir img s p egress = Inr command"
  obtains start_args px where "strict_prefix (resolve (data_dir @ [''profiles''])) (resolve (data_dir @ [''profiles'', p]))"
    "command = container_options s p (resolve (data_dir @ [''profiles'', p])) @ start_args @ px @ [img]"
    "valid_name s" "valid_name p"
    "start_args = [] \<or> (\<exists>url. start_args = [''-e'', ''START_URL='' @ url] \<and> is_url_allowed url = Some True)"
    "px = [] \<or> ea_kind egress = ''proxy'' \<and> (\<exists>x. px = [''-e'', ''EGRESS_PROXY='' @ x])"
proof -
  from assms obtain start_url proxy start_args where
    c: "start_url_args start_url = Inr start_args"
      "strict_prefix (resolve (data_dir @ [''profiles''])) (resolve (data_dir @ [''profiles'', p]))" "valid_name s" "valid_name p"
      "command = container_options s p (resolve (data_dir @ [''profiles'', p])) @ start_args @
         proxy_args display (ea_kind egress) proxy @ [img]"
    by (auto simp: build_start_command_def Let_def split: if_split_asm option.split_asm sum.split_asm)
  from c(1) have "start_args = [] \<or> (\<exists>url. start_args = [''-e'', ''START_URL='' @ url] \<and> is_url_allowed url = Some True)"
    by (auto simp: start_url_args_def split: if_split_asm json.split_asm option.split_asm)
  with c(2-5) that show ?thesis by (auto simp: proxy_args_def)
qed

lemma and_then_Inr:
  assumes "and_then m f st = (Inr y, st')"
  obtains x st1 where "m st = (Inr x, st1)" "f x st1 = (Inr y, st')"
  using assms by (auto simp: and_then_def split: prod.split_asm sum.split_asm)

lemma run_container_ran:
  assumes "run_container run time command s st = (Inr endpoint, st')"
  shows "command \<in> set (pd_commands st')"
  using assms unfolding run_container_def
proof (rule and_then_Inr)
  fix x st1
  assume first: "podman_run run command st = (Inr x, st1)"
  assume "and_then (podman_run run [''podman'', ''port'', container_name s, ''8080/tcp'']) (\<lambda>endpoint.
     and_then (give (host_port endpoint)) (\<lambda>(host, port).
     and_then (wait_until run time 30 (curl (local_url ''127.0.0.1'' port @ ''/''))) (\<lambda>ready.
       if \<not> ready then
         and_then (podman_run run [''podman'', ''logs'', container_name s])
           (\<lambda>logs. give (Inl (Runtime_error (''Selkies did not become ready: '' @ drop (length logs - 1000) logs))))
       else
         and_then (cdp_endpoint run s) (\<lambda>cdp.
         and_then (wait_until run time 20 (curl (cdp @ ''/json/version''))) (\<lambda>ready2.
           if \<not> ready2 then give (Inl (Runtime_error ''Chromium control channel did not become ready''))
           else give (Inr (local_url host port))))))) st1 = (Inr endpoint, st')"
  then have "prefix (pd_commands st1) (pd_commands st')"
    by (rule trail.keepsD [rotated]) (intro trail.keeps_intros trail.keeps_parts)
  moreover have "pd_commands st1 = pd_commands st @ [command]"
    using first podman_run_state(1) [of run command st] by auto
  ultimately show ?thesis by (auto simp: prefix_def)
qed

lemma podman_start_Inr:
  assumes "podman_start resolve display data_dir img run time files_ok busy s p egress st = (Inr endpoint, st')"
  obtains command where "build_start_command resolve display data_dir img s p egress = Inr command" "command \<in> set (pd_commands st')"
proof (cases "build_start_command resolve display data_dir img s p egress")
  case (Inl e)
  with assms show ?thesis by (simp add: podman_start_def)
next
  case (Inr command)
  have "command \<in> set (pd_commands st')"
    using assms unfolding podman_start_def Inr and_then_give
    by (auto split: if_split_asm prod.split_asm sum.split_asm elim!: and_then_Inr simp: give_def) (blast dest: run_container_ran)+
  with Inr show ?thesis by (rule that)
qed

text \<open>C34. A profile is never open in two containers, and no container is started without its protections. In every state
  the runner can reach no two sessions hold the lock of the same profile. A start that succeeds found the profile
  free and ran a container without capabilities or new privileges, with a read-only root and its ports on the
  loopback address, with the profile mounted from strictly below the directory of the profiles, to which only
  an allowed start URL and a proxy were added; a start that fails leaves the locks as they were.\<close>

theorem container_start_safe:
  assumes "podman_reach st" and "podman_start resolve display data_dir img run time files_ok busy s p egress st = (r, st')"
  shows "exclusive (pd_locks st') \<and>
    (case r of
       Inl _ \<Rightarrow> pd_locks st' = pd_locks st
     | Inr _ \<Rightarrow> p \<notin> ran (pd_locks st) \<and> pd_locks st' s = Some p \<and>
         (\<exists>dir start_args px. strict_prefix (resolve (data_dir @ [''profiles''])) dir \<and>
            container_options s p dir @ start_args @ px @ [img] \<in> set (pd_commands st') \<and>
            {''--cap-drop=all'', ''--security-opt=no-new-privileges'', ''--read-only'', ''127.0.0.1::8080'', ''127.0.0.1::9223'',
             path_str dir @ '':/home/ubuntu/profile:Z''} \<subseteq> set (container_options s p dir) \<and>
            (start_args = [] \<or> (\<exists>url. start_args = [''-e'', ''START_URL='' @ url] \<and> is_url_allowed url = Some True)) \<and>
            (px = [] \<or> (\<exists>x. px = [''-e'', ''EGRESS_PROXY='' @ x]))))"
proof -
  from podman_reach.start [OF assms] have e: "exclusive (pd_locks st')" by (rule podman_reach_exclusive)
  show ?thesis
  proof (cases r)
    case (Inl x)
    with e podman_start_locks [OF assms(2)] show ?thesis by auto
  next
    case (Inr endpoint)
    from assms(2) obtain command where c: "build_start_command resolve display data_dir img s p egress = Inr command"
      "command \<in> set (pd_commands st')" unfolding Inr by (rule podman_start_Inr)
    let ?dir = "resolve (data_dir @ [''profiles'', p])"
    from c(1) obtain start_args px where "strict_prefix (resolve (data_dir @ [''profiles''])) ?dir"
      "command = container_options s p ?dir @ start_args @ px @ [img]"
      "start_args = [] \<or> (\<exists>url. start_args = [''-e'', ''START_URL='' @ url] \<and> is_url_allowed url = Some True)"
      "px = [] \<or> (\<exists>x. px = [''-e'', ''EGRESS_PROXY='' @ x])"
      by (rule build_start_Inr) blast
    moreover have "{''--cap-drop=all'', ''--security-opt=no-new-privileges'', ''--read-only'', ''127.0.0.1::8080'', ''127.0.0.1::9223'',
        path_str ?dir @ '':/home/ubuntu/profile:Z''} \<subseteq> set (container_options s p ?dir)"
      by (simp add: container_options_def)
    ultimately have ex: "\<exists>dir start_args px. strict_prefix (resolve (data_dir @ [''profiles''])) dir \<and>
            container_options s p dir @ start_args @ px @ [img] \<in> set (pd_commands st') \<and>
            {''--cap-drop=all'', ''--security-opt=no-new-privileges'', ''--read-only'', ''127.0.0.1::8080'', ''127.0.0.1::9223'',
             path_str dir @ '':/home/ubuntu/profile:Z''} \<subseteq> set (container_options s p dir) \<and>
            (start_args = [] \<or> (\<exists>url. start_args = [''-e'', ''START_URL='' @ url] \<and> is_url_allowed url = Some True)) \<and>
            (px = [] \<or> (\<exists>x. px = [''-e'', ''EGRESS_PROXY='' @ x]))"
      using c(2) by blast
    have "p \<notin> ran (pd_locks st) \<and> pd_locks st' s = Some p"
      using podman_start_locks [OF assms(2)] Inr by auto
    with e ex show ?thesis unfolding Inr sum.case by blast
  qed
qed

lemma no_fuel_if: "\<lbrakk>b \<Longrightarrow> no_fuel_out x; \<not> b \<Longrightarrow> no_fuel_out y\<rbrakk> \<Longrightarrow> no_fuel_out (if b then x else y)"
  by simp

lemma no_fuel_prod: "(\<And>a b. no_fuel_out (f a b)) \<Longrightarrow> no_fuel_out (case p of (a, b) \<Rightarrow> f a b)"
  by (cases p) simp

lemma no_fuel_give: "no_fuel_out (give (Inr x))" "e \<noteq> Out_of_fuel \<Longrightarrow> no_fuel_out (give (Inl e))"
    "no_fuel_out (give (host_port h))"
  by (auto simp: no_fuel_out_def give_def host_port_def split: prod.split option.split)

lemma no_fuel_endpoint:
  "no_fuel_out (give
    (case rpartition_char (CHR '':'') endpoint of
       (host, found, port) \<Rightarrow>
         if \<not> found then Inl (Value_error ''not enough values to unpack'')
         else if host \<noteq> ''127.0.0.1'' then Inl (Runtime_error ''CDP port is not bound to loopback'')
         else
           (case int_of_str port of
              None \<Rightarrow> Inl (Value_error ''invalid literal for int()'')
            | Some p \<Rightarrow>
                if 1 \<le> p \<and> p \<le> 65535 then Inr (local_url ''127.0.0.1'' p)
                else Inl (Runtime_error ''invalid CDP port''))))"
  by (auto simp: no_fuel_out_def give_def split: prod.split option.split)

lemmas no_fuel_intros = no_fuel_and_then no_fuel_if no_fuel_prod no_fuel_give no_fuel_basic(1)

lemma no_fuel_container:
  assumes "\<forall>n. time n + 1 / 4 \<le> time (Suc n)"
  shows "no_fuel_out (run_container run time command s)"
proof -
  have "no_fuel_out (wait_until run time secs c)" for secs c
    using wait_until_ends [OF assms] by (simp add: no_fuel_out_def)
  then show ?thesis
    unfolding run_container_def cdp_endpoint_def by (intro no_fuel_intros no_fuel_endpoint) simp_all
qed

lemma build_no_fuel: "build_start_command resolve display data_dir img s p egress \<noteq> Inl Out_of_fuel"
proof -
  have "start_url_args x \<noteq> Inl Out_of_fuel" for x
    by (auto simp: start_url_args_def split: json.split option.split)
  then show ?thesis by (auto simp: build_start_command_def Let_def split: option.split sum.split)
qed

text \<open>A start ends. With a clock that moves on by at least the pause between two attempts to reach the
  container, the fuel of the two waiting loops is never used up, whatever the commands answer.\<close>

theorem podman_start_ends:
  assumes "\<forall>n. time n + 1 / 4 \<le> time (Suc n)"
  shows "fst (podman_start resolve display data_dir img run time files_ok busy s p egress st) \<noteq> Inl Out_of_fuel"
proof (cases "build_start_command resolve display data_dir img s p egress")
  case (Inl e)
  with build_no_fuel show ?thesis by (auto simp: podman_start_def)
next
  case (Inr command)
  have "no_fuel_out (remove_container run s)"
    by (auto simp: no_fuel_out_def remove_container_def podman_run_def split: run_result.split)
  then have "fst (and_then (remove_container run s) (\<lambda>_. give (Inl e) :: string podman) st2) \<noteq> Inl Out_of_fuel"
    if "e \<noteq> Out_of_fuel" for e st2
    using no_fuel_and_then [of "remove_container run s" "\<lambda>_. give (Inl e) :: string podman"] that no_fuel_give(2)
    by (auto simp: no_fuel_out_def)
  moreover have "fst (run_container run time command s st1) \<noteq> Inl Out_of_fuel" for st1
    using no_fuel_container [OF assms] by (simp add: no_fuel_out_def)
  ultimately have "no_fuel_out (\<lambda>st1. case run_container run time command s st1 of
                 (Inl e, st2) \<Rightarrow> and_then (remove_container run s) (\<lambda>_. give (Inl e)) st2
               | (Inr endpoint, st2) \<Rightarrow> (Inr endpoint, st2\<lparr>pd_locks := (pd_locks st2)(s \<mapsto> p)\<rparr>))"
    unfolding no_fuel_out_def by (auto split: prod.split sum.split) (metis fst_conv)
  then have "no_fuel_out (and_then (podman_run run [''podman'', ''ps'', ''-q'', ''--filter'', ''label=cloudbrowser.profile='' @ p]) (\<lambda>existing.
           if existing \<noteq> [] then give (Inl (Runtime_error ''browser profile already has a running container''))
           else
             and_then (container_exists run s) (\<lambda>old.
             and_then (if old then podman_run run [''podman'', ''rm'', ''-f'', container_name s] else give (Inr [])) (\<lambda>_ st1.
               case run_container run time command s st1 of
                 (Inl e, st2) \<Rightarrow> and_then (remove_container run s) (\<lambda>_. give (Inl e)) st2
               | (Inr endpoint, st2) \<Rightarrow> (Inr endpoint, st2\<lparr>pd_locks := (pd_locks st2)(s \<mapsto> p)\<rparr>)))))"
    unfolding container_exists_def by (intro no_fuel_intros) simp_all
  with Inr show ?thesis unfolding podman_start_def no_fuel_out_def and_then_give by simp
qed

section \<open>A start\<close>

definition demo_runs :: runs where
  "demo_runs n command =
     (if n = 0 \<or> n = 1 then Ran [] else if n = 3 then Ran ''127.0.0.1:81'' else if n = 5 then Ran ''127.0.0.1:82'' else Ran ''ok'')"

definition demo_egress :: egress_arg where
  "demo_egress = \<lparr>ea_kind = ''host'', ea_config = JObj []\<rparr>"

lemma demo_start:
  "\<exists>st'. podman_start (\<lambda>p. p) (\<lambda>_. []) [''data''] ''img'' demo_runs (\<lambda>n. of_nat n) True False ''s1'' ''user-2'' demo_egress
     \<lparr>pd_commands = [], pd_locks = Map.empty\<rparr> = (Inr ''http://127.0.0.1:81'', st')"
proof -
  have v: "valid_name ''s1''" "valid_name ''user-2''" by code_simp+
  have h: "host_port ''127.0.0.1:81'' = Inr (''127.0.0.1'', 81)" by code_simp
  have r: "rpartition_char (CHR '':'') ''127.0.0.1:82'' = (''127.0.0.1'', True, ''82'')" "int_of_str ''82'' = Some 82" by code_simp+
  have u: "local_url ''127.0.0.1'' 81 = ''http://127.0.0.1:81''" by code_simp
  have b: "\<exists>c. build_start_command (\<lambda>p. p) (\<lambda>_. []) [''data''] ''img'' ''s1'' ''user-2'' demo_egress = Inr c"
    using v by (simp add: build_start_command_def demo_egress_def config_get_def payload_get_def start_url_args_def strict_prefix_def)
  then obtain c where c: "build_start_command (\<lambda>p. p) (\<lambda>_. []) [''data''] ''img'' ''s1'' ''user-2'' demo_egress = Inr c" by blast
  have w: "wait_until demo_runs (\<lambda>n. of_nat n) secs x st = (Inr True, st\<lparr>pd_commands := pd_commands st @ [x]\<rparr>)"
    if "0 < secs" for secs x st
    using that by (simp add: wait_until_def podman_run_def demo_runs_def)
  show ?thesis
    unfolding podman_start_def c and_then_give
    using v u by (simp add: podman_run_def and_then_def demo_runs_def container_exists_def run_container_def give_def h w cdp_endpoint_def r)
qed

theorem container_start_safe_witness:
  "\<exists>st'. podman_start (\<lambda>p. p) (\<lambda>_. []) [''data''] ''img'' demo_runs (\<lambda>n. of_nat n) True False ''s1'' ''user-2'' demo_egress
     \<lparr>pd_commands = [], pd_locks = Map.empty\<rparr> = (Inr ''http://127.0.0.1:81'', st') \<and> pd_locks st' ''s1'' = Some ''user-2'' \<and>
     exclusive (pd_locks st')"
proof -
  obtain st' where r: "podman_start (\<lambda>p. p) (\<lambda>_. []) [''data''] ''img'' demo_runs (\<lambda>n. of_nat n) True False ''s1'' ''user-2'' demo_egress
     \<lparr>pd_commands = [], pd_locks = Map.empty\<rparr> = (Inr ''http://127.0.0.1:81'', st')" using demo_start by blast
  from container_start_safe [OF podman_reach.new r] r show ?thesis by auto
qed

theorem podman_start_ends_witness:
  "fst (podman_start (\<lambda>p. p) (\<lambda>_. []) [''data''] ''img'' (\<lambda>_ _. Run_failed ''down'') (\<lambda>n. of_nat n) True False ''s1'' ''user-2''
     demo_egress \<lparr>pd_commands = [], pd_locks = Map.empty\<rparr>) \<noteq> Inl Out_of_fuel"
  by (rule podman_start_ends) simp

end
