(* ===== verification/Schema.thy ===== *)
theory Schema
  imports Enrollment
begin

text \<open>
  The schema migrations of the control plane (\<open>cloudbrowser/schema.py\<close>, the top of
  \<open>cloudbrowser/edge_health.py\<close> and the start of \<open>create_app\<close> in \<open>cloudbrowser/app.py\<close>). The tables
  of \<open>cloudbrowser/models.py\<close> are \<open>model_tables\<close>; what the inspector reports of a database is a
  \<open>schema\<close>, per table the names of its columns, indexes and check constraints. A migration computes
  its statements from the schema it read and executes them in order. \<open>ddl_text\<close> is the text of a
  statement, \<open>exec_ddl\<close> its effect: a statement fails when its table or a column it refers to is
  missing or when the name it adds is taken, and also when \<open>rows_ok\<close> says that the rows of the table
  forbid it. Data definition commits by itself on both databases, so what ran before a failure stays.
\<close>

section \<open>Statements\<close>

datatype dialect = Sqlite | Mysql | Other_dialect

datatype gen_expr =
    Case_in "string list" string
  | Case_eq string string
  | Unhex_sha2 string

datatype ddl =
    Add_column string string string
  | Add_generated string string string gen_expr
  | Add_check string string "string list"
  | Drop_check string string
  | Create_unique_index string string "string list"
  | Drop_index string string

fun join_str :: "string \<Rightarrow> string list \<Rightarrow> string" where
  "join_str sep [] = []"
| "join_str sep [s] = s"
| "join_str sep (s # ss) = s @ sep @ join_str sep ss"

definition sql_quote :: "string \<Rightarrow> string" where
  "sql_quote s = CHR 0x27 # s @ [CHR 0x27]"

definition sql_list :: "string list \<Rightarrow> string" where
  "sql_list ss = CHR ''('' # join_str '','' (map sql_quote ss) @ '')''"

fun gen_text :: "gen_expr \<Rightarrow> string" where
  "gen_text (Case_in ss c) = ''CASE WHEN status IN '' @ sql_list ss @ '' THEN '' @ c @ '' ELSE NULL END''"
| "gen_text (Case_eq s c) = ''CASE WHEN status = '' @ sql_quote s @ '' THEN '' @ c @ '' ELSE NULL END''"
| "gen_text (Unhex_sha2 c) = ''UNHEX(SHA2('' @ c @ '',256))''"

fun ddl_text :: "ddl \<Rightarrow> string" where
  "ddl_text (Add_column t c def) = ''ALTER TABLE '' @ t @ '' ADD COLUMN '' @ c @ '' '' @ def"
| "ddl_text (Add_generated t c ty e) =
     ''ALTER TABLE '' @ t @ '' ADD COLUMN '' @ c @ '' '' @ ty @ '' GENERATED ALWAYS AS ('' @ gen_text e @ '') STORED''"
| "ddl_text (Add_check t n ps) =
     ''ALTER TABLE '' @ t @ '' ADD CONSTRAINT '' @ n @ '' CHECK (platform IN '' @ sql_list ps @ '')''"
| "ddl_text (Drop_check t n) = ''ALTER TABLE '' @ t @ '' DROP CHECK '' @ n"
| "ddl_text (Create_unique_index n t cs) =
     ''CREATE UNIQUE INDEX '' @ n @ '' ON '' @ t @ '' ('' @ join_str '', '' cs @ '')''"
| "ddl_text (Drop_index n t) = ''DROP INDEX '' @ n @ '' ON '' @ t"

section \<open>Schemas\<close>

record table_info =
  ti_columns :: "string list"
  ti_indexes :: "string list"
  ti_checks :: "string list"

type_synonym schema = "string \<Rightarrow> table_info option"

fun gen_refs :: "gen_expr \<Rightarrow> string list" where
  "gen_refs (Case_in ss c) = [''status'', c]"
| "gen_refs (Case_eq s c) = [''status'', c]"
| "gen_refs (Unhex_sha2 c) = [c]"

fun ddl_table :: "ddl \<Rightarrow> string" where
  "ddl_table (Add_column t c def) = t"
| "ddl_table (Add_generated t c ty e) = t"
| "ddl_table (Add_check t n ps) = t"
| "ddl_table (Drop_check t n) = t"
| "ddl_table (Create_unique_index n t cs) = t"
| "ddl_table (Drop_index n t) = t"

text \<open>What a statement does to its table, when the table admits it.\<close>

fun alter_table :: "ddl \<Rightarrow> table_info \<Rightarrow> table_info option" where
  "alter_table (Add_column t c def) ti =
     (if c \<in> set (ti_columns ti) then None else Some (ti\<lparr>ti_columns := ti_columns ti @ [c]\<rparr>))"
| "alter_table (Add_generated t c ty e) ti =
     (if c \<in> set (ti_columns ti) \<or> \<not> set (gen_refs e) \<subseteq> set (ti_columns ti) then None
      else Some (ti\<lparr>ti_columns := ti_columns ti @ [c]\<rparr>))"
| "alter_table (Add_check t n ps) ti =
     (if n \<in> set (ti_checks ti) \<or> ''platform'' \<notin> set (ti_columns ti) then None
      else Some (ti\<lparr>ti_checks := ti_checks ti @ [n]\<rparr>))"
| "alter_table (Drop_check t n) ti =
     (if n \<in> set (ti_checks ti) then Some (ti\<lparr>ti_checks := removeAll n (ti_checks ti)\<rparr>) else None)"
| "alter_table (Create_unique_index n t cs) ti =
     (if n \<in> set (ti_indexes ti) \<or> \<not> set cs \<subseteq> set (ti_columns ti) then None
      else Some (ti\<lparr>ti_indexes := ti_indexes ti @ [n]\<rparr>))"
| "alter_table (Drop_index n t) ti =
     (if n \<in> set (ti_indexes ti) then Some (ti\<lparr>ti_indexes := removeAll n (ti_indexes ti)\<rparr>) else None)"

definition exec_ddl :: "(ddl \<Rightarrow> bool) \<Rightarrow> ddl \<Rightarrow> schema \<Rightarrow> schema option" where
  "exec_ddl rows_ok st s =
     (case s (ddl_table st) of
        None \<Rightarrow> None
      | Some ti \<Rightarrow>
          if \<not> rows_ok st then None
          else (case alter_table st ti of None \<Rightarrow> None | Some ti' \<Rightarrow> Some (s(ddl_table st \<mapsto> ti'))))"

fun run_ddl :: "(ddl \<Rightarrow> bool) \<Rightarrow> ddl list \<Rightarrow> schema \<Rightarrow> bool \<times> schema" where
  "run_ddl rows_ok [] s = (True, s)"
| "run_ddl rows_ok (st # sts) s =
     (case exec_ddl rows_ok st s of None \<Rightarrow> (False, s) | Some s' \<Rightarrow> run_ddl rows_ok sts s')"

text \<open>\<open>get_columns\<close> and its like raise \<open>NoSuchTableError\<close>, here \<open>None\<close>; a migration that raises has
  executed nothing.\<close>

definition run_migration :: "(ddl \<Rightarrow> bool) \<Rightarrow> ddl list option \<Rightarrow> schema \<Rightarrow> bool \<times> schema" where
  "run_migration rows_ok plan s = (case plan of None \<Rightarrow> (False, s) | Some sts \<Rightarrow> run_ddl rows_ok sts s)"

section \<open>The migrations\<close>

definition missing :: "'a \<Rightarrow> 'a list \<Rightarrow> ddl \<Rightarrow> ddl list" where
  "missing x xs st = (if x \<in> set xs then [] else [st])"

text \<open>\<open>edge_platform_migration_statements\<close>: the column, with an inline check on SQLite, and a named
  check on MySQL.\<close>

definition platform_column :: "dialect \<Rightarrow> string \<Rightarrow> ddl" where
  "platform_column dialect t =
     Add_column t ''platform''
       (''VARCHAR(20) NOT NULL DEFAULT '' @ sql_quote ''linux'' @
        (if dialect = Sqlite then '' CHECK (platform IN '' @ sql_list [''linux'', ''windows''] @ '')'' else []))"

definition edge_platform_table :: "dialect \<Rightarrow> schema \<Rightarrow> string \<Rightarrow> ddl list option" where
  "edge_platform_table dialect s t =
     (case s t of
        None \<Rightarrow> None
      | Some ti \<Rightarrow>
          Some (missing ''platform'' (ti_columns ti) (platform_column dialect t) @
                (if dialect = Mysql
                 then missing (''ck_'' @ t @ ''_platform'') (ti_checks ti)
                        (Add_check t (''ck_'' @ t @ ''_platform'') [''linux'', ''windows''])
                 else [])))"

definition edge_platform_migration_statements :: "dialect \<Rightarrow> schema \<Rightarrow> ddl list option" where
  "edge_platform_migration_statements dialect s =
     (case (edge_platform_table dialect s ''edge_nodes'',
            edge_platform_table dialect s ''node_registration_requests'') of
        (Some a, Some b) \<Rightarrow> Some (a @ b)
      | _ \<Rightarrow> None)"

definition migrate_edge_platform_schema :: "(ddl \<Rightarrow> bool) \<Rightarrow> dialect \<Rightarrow> schema \<Rightarrow> bool \<times> schema" where
  "migrate_edge_platform_schema rows_ok dialect s =
     run_migration rows_ok (edge_platform_migration_statements dialect s) s"

text \<open>\<open>_MYSQL_ACTIVE_UNIQUENESS\<close>: table, generated column, its type and expression, index and its columns.\<close>

definition enrollment_states :: "string list" where
  "enrollment_states = [''pending'', ''claimed'', ''installing'', ''ready'']"

definition registration_states :: "string list" where
  "registration_states = [''pending_proof'', ''pending_approval'', ''approved'', ''installing'', ''ready'']"

definition mysql_active_uniqueness :: "(string \<times> string \<times> string \<times> gen_expr \<times> string \<times> string list) list" where
  "mysql_active_uniqueness =
     [(''node_enrollments'', ''active_edge_node_id'', ''BIGINT'', Case_in enrollment_states ''edge_node_id'',
       ''uq_mysql_active_node_enrollment'', [''active_edge_node_id'']),
      (''node_registration_requests'', ''active_machine_fingerprint'', ''VARCHAR(64)'',
       Case_in registration_states ''machine_fingerprint'',
       ''uq_mysql_active_node_registration_machine'', [''active_machine_fingerprint'']),
      (''node_registration_requests'', ''active_public_key_fingerprint'', ''VARCHAR(64)'',
       Case_in registration_states ''public_key_fingerprint'',
       ''uq_mysql_active_node_registration_key'', [''active_public_key_fingerprint'']),
      (''local_history_entries'', ''url_sha256'', ''BINARY(32)'', Unhex_sha2 ''url'',
       ''uq_mysql_local_history_user_url_sha256'', [''user_id'', ''url_sha256''])]"

definition lease_generated :: "(string \<times> string \<times> gen_expr) list" where
  "lease_generated =
     [(''active_store_id'', ''BIGINT'', Case_eq ''active'' ''store_id''),
      (''active_owner_user_id'', ''BIGINT'', Case_eq ''active'' ''owner_user_id''),
      (''active_device_id'', ''VARCHAR(100)'', Case_eq ''active'' ''device_id'')]"

abbreviation lease_table :: string where "lease_table \<equiv> ''store_connection_leases''"
abbreviation legacy_index :: string where "legacy_index \<equiv> ''uq_mysql_active_store_connection_lease''"
abbreviation scoped_index :: string where "scoped_index \<equiv> ''uq_mysql_active_store_user_device_lease''"

definition mysql_active_store_lease_statements :: "schema \<Rightarrow> ddl list option" where
  "mysql_active_store_lease_statements s =
     (case s lease_table of
        None \<Rightarrow> None
      | Some ti \<Rightarrow>
          Some ((if legacy_index \<in> set (ti_indexes ti) then [Drop_index legacy_index lease_table] else []) @
                concat (map (\<lambda>(c, ty, e). missing c (ti_columns ti) (Add_generated lease_table c ty e)) lease_generated) @
                missing scoped_index (ti_indexes ti)
                  (Create_unique_index scoped_index lease_table
                     [''active_store_id'', ''active_owner_user_id'', ''active_device_id''])))"

fun uniqueness_statements ::
  "schema \<Rightarrow> (string \<times> string \<times> string \<times> gen_expr \<times> string \<times> string list) list \<Rightarrow> ddl list option" where
  "uniqueness_statements s [] = Some []"
| "uniqueness_statements s ((t, c, ty, e, n, cs) # rest) =
     (case s t of
        None \<Rightarrow> None
      | Some ti \<Rightarrow>
          (case uniqueness_statements s rest of
             None \<Rightarrow> None
           | Some sts \<Rightarrow>
               Some (missing c (ti_columns ti) (Add_generated t c ty e) @
                     missing n (ti_indexes ti) (Create_unique_index n t cs) @ sts)))"

definition mysql_active_uniqueness_statements :: "schema \<Rightarrow> ddl list option" where
  "mysql_active_uniqueness_statements s =
     (case (mysql_active_store_lease_statements s, uniqueness_statements s mysql_active_uniqueness) of
        (Some a, Some b) \<Rightarrow> Some (a @ b)
      | _ \<Rightarrow> None)"

definition migrate_mysql_active_uniqueness :: "(ddl \<Rightarrow> bool) \<Rightarrow> dialect \<Rightarrow> schema \<Rightarrow> bool \<times> schema" where
  "migrate_mysql_active_uniqueness rows_ok dialect s =
     (if dialect \<noteq> Mysql then (True, s)
      else run_migration rows_ok (mysql_active_uniqueness_statements s) s)"

definition mysql_device_platform_constraint_statements :: "schema \<Rightarrow> ddl list option" where
  "mysql_device_platform_constraint_statements s =
     (case s ''device_sessions'' of
        None \<Rightarrow> None
      | Some ti \<Rightarrow>
          if ''ck_device_sessions_platform_supported'' \<in> set (ti_checks ti) then Some []
          else Some ((if ''ck_device_sessions_platform_macos'' \<in> set (ti_checks ti)
                      then [Drop_check ''device_sessions'' ''ck_device_sessions_platform_macos''] else []) @
                     [Add_check ''device_sessions'' ''ck_device_sessions_platform_supported'' [''macos'', ''windows'']]))"

definition migrate_mysql_device_platform_constraint ::
  "(ddl \<Rightarrow> bool) \<Rightarrow> dialect \<Rightarrow> schema \<Rightarrow> bool \<times> schema" where
  "migrate_mysql_device_platform_constraint rows_ok dialect s =
     (if dialect \<noteq> Mysql then (True, s)
      else run_migration rows_ok (mysql_device_platform_constraint_statements s) s)"

text \<open>\<open>_EDGE_HEALTH_COLUMNS\<close> and \<open>migrate_edge_health_schema\<close>, on SQLite only.\<close>

definition edge_health_columns :: "(string \<times> string) list" where
  "edge_health_columns =
     [(''maintenance_mode'', ''BOOLEAN NOT NULL DEFAULT 0''),
      (''health_status'', ''VARCHAR(20) NOT NULL DEFAULT '' @ sql_quote ''unknown''),
      (''last_seen_at'', ''DATETIME''), (''latency_ms'', ''INTEGER''),
      (''active_connections'', ''INTEGER NOT NULL DEFAULT 0''),
      (''max_connections'', ''INTEGER NOT NULL DEFAULT 0''),
      (''accepted_connections'', ''INTEGER NOT NULL DEFAULT 0''),
      (''denied_connections'', ''INTEGER NOT NULL DEFAULT 0''),
      (''expected_public_ipv4'', ''VARCHAR(15)''), (''actual_public_ipv4'', ''VARCHAR(15)''),
      (''load_1m'', ''FLOAT''), (''memory_total_bytes'', ''INTEGER''), (''memory_available_bytes'', ''INTEGER''),
      (''disk_total_bytes'', ''INTEGER''), (''disk_free_bytes'', ''INTEGER''), (''uptime_seconds'', ''FLOAT''),
      (''agent_version'', ''VARCHAR(100)''), (''last_error'', ''TEXT'')]"

definition migrate_edge_health_schema :: "(ddl \<Rightarrow> bool) \<Rightarrow> dialect \<Rightarrow> schema \<Rightarrow> bool \<times> schema" where
  "migrate_edge_health_schema rows_ok dialect s =
     (case s ''edge_nodes'' of
        None \<Rightarrow> (True, s)
      | Some ti \<Rightarrow>
          if dialect \<noteq> Sqlite then (True, s)
          else run_ddl rows_ok
                 (concat (map (\<lambda>(c, def). missing c (ti_columns ti) (Add_column ''edge_nodes'' c def)) edge_health_columns)) s)"

text \<open>The last additions, made by \<open>create_app\<close> itself.\<close>

definition late_columns_statements :: "schema \<Rightarrow> ddl list option" where
  "late_columns_statements s =
     (case (s lease_table, s ''users'') of
        (Some l, Some u) \<Rightarrow>
          Some (missing ''device_id'' (ti_columns l) (Add_column lease_table ''device_id'' ''VARCHAR(100)'') @
                missing ''last_heartbeat_at'' (ti_columns l) (Add_column lease_table ''last_heartbeat_at'' ''DATETIME'') @
                missing ''deleted_at'' (ti_columns u) (Add_column ''users'' ''deleted_at'' ''DATETIME''))
      | _ \<Rightarrow> None)"

section \<open>The tables of the model and the start\<close>

text \<open>A table of \<open>models.py\<close>: its columns, each with the flag \<open>index=True\<close>, its named indexes, which
  \<open>ddl_if\<close> restricts to SQLite and PostgreSQL, and its named checks.\<close>

definition model_tables :: "(string \<times> (string \<times> bool) list \<times> string list \<times> string list) list" where
  "model_tables =
     [(''egress_profiles'', [(''id'', False), (''name'', False), (''kind'', False), (''config_json'', False)], [], []),
      (''workspaces'', [(''id'', False), (''name'', False), (''egress_profile_id'', False)], [], []),
      (''system_settings'', [(''key'', False), (''value'', False)], [], []),
      (''users'',
       [(''id'', False), (''username'', True), (''password_hash'', False), (''role'', False), (''enabled'', False),
        (''token_version'', False), (''workspace_id'', False), (''created_at'', False), (''deleted_at'', False)], [], []),
      (''native_login_throttles'',
       [(''key_hash'', False), (''failure_count'', False), (''penalty_level'', False), (''window_started_at'', False),
        (''blocked_until'', False), (''updated_at'', True)], [], []),
      (''device_sessions'',
       [(''id'', False), (''user_id'', True), (''device_id'', False), (''device_name'', False), (''platform'', False),
        (''refresh_token_hash'', False), (''token_generation'', False), (''created_at'', False), (''updated_at'', False),
        (''last_seen_at'', False), (''expires_at'', False), (''revoked_at'', False)], [],
       [''ck_device_sessions_platform_supported'']),
      (''edge_nodes'',
       [(''id'', False), (''name'', True), (''endpoint'', False), (''shared_secret'', False), (''platform'', False),
        (''enabled'', False), (''maintenance_mode'', False), (''health_status'', False), (''last_seen_at'', False),
        (''latency_ms'', False), (''active_connections'', False), (''max_connections'', False),
        (''accepted_connections'', False), (''denied_connections'', False), (''expected_public_ipv4'', False),
        (''actual_public_ipv4'', False), (''load_1m'', False), (''memory_total_bytes'', False),
        (''memory_available_bytes'', False), (''disk_total_bytes'', False), (''disk_free_bytes'', False),
        (''uptime_seconds'', False), (''agent_version'', False), (''last_error'', False), (''created_at'', False)], [],
       [''ck_edge_nodes_platform'']),
      (''node_enrollments'',
       [(''id'', False), (''edge_node_id'', True), (''created_by_user_id'', True), (''token_hash'', False),
        (''report_token_hash'', False), (''status'', True), (''phase'', False), (''expires_at'', False),
        (''claimed_at'', False), (''updated_at'', False), (''last_error'', False), (''claimed_public_ipv4'', False),
        (''agent_version'', False)],
       [''uq_active_node_enrollment''], []),
      (''node_registration_requests'',
       [(''id'', False), (''status'', True), (''public_key_pem'', False), (''public_key_fingerprint'', True),
        (''machine_fingerprint'', True), (''reported_hostname'', False), (''platform'', False),
        (''actual_public_ipv4'', False), (''os_name'', False), (''cpu_count'', False), (''memory_total_bytes'', False),
        (''disk_total_bytes'', False), (''agent_version'', False), (''challenge_hash'', False),
        (''registration_token_hash'', False), (''challenge_expires_at'', False), (''created_at'', False),
        (''updated_at'', False), (''proved_at'', False), (''decided_at'', False), (''decided_by_user_id'', True),
        (''edge_node_id'', True), (''last_error'', False), (''install_admin_ssh_key'', False)],
       [''uq_active_node_registration_machine'', ''uq_active_node_registration_key''],
       [''ck_node_registration_requests_platform'']),
      (''user_edge_node_grants'', [(''id'', False), (''user_id'', True), (''edge_node_id'', True), (''created_at'', False)], [], []),
      (''edge_capabilities'', [(''id'', False), (''edge_node_id'', True), (''name'', False), (''config_json'', False)], [], []),
      (''managed_stores'',
       [(''id'', False), (''label'', False), (''owner_user_id'', True), (''edge_node_id'', True), (''enabled'', False),
        (''created_at'', False)], [], []),
      (''store_connection_leases'',
       [(''id'', False), (''store_id'', True), (''owner_user_id'', True), (''device_id'', True), (''status'', True),
        (''created_at'', False), (''expires_at'', False), (''last_heartbeat_at'', False), (''disconnected_at'', False)],
       [''uq_active_store_user_device_lease''], []),
      (''browser_sessions'',
       [(''id'', False), (''user_id'', True), (''workspace_id'', False), (''profile_key'', False), (''status'', False),
        (''endpoint'', False), (''created_at'', False), (''updated_at'', False)], [], []),
      (''audit_events'',
       [(''id'', False), (''actor_user_id'', False), (''event_type'', True), (''target_type'', False),
        (''target_id'', False), (''details_json'', False), (''created_at'', False)], [], []),
      (''local_history_entries'',
       [(''id'', False), (''user_id'', True), (''url'', False), (''title'', False), (''last_visit_ms'', False),
        (''visit_count'', False)], [], []),
      (''local_tab_snapshots'',
       [(''id'', False), (''user_id'', True), (''device_id'', False), (''tabs_json'', False), (''updated_at'', False)], [], [])]"

definition new_table :: "dialect \<Rightarrow> string \<Rightarrow> (string \<times> bool) list \<times> string list \<times> string list \<Rightarrow> table_info" where
  "new_table dialect t m =
     (case m of (cols, ixs, cks) \<Rightarrow>
        \<lparr>ti_columns = map fst cols,
         ti_indexes = map (\<lambda>c. ''ix_'' @ t @ ''_'' @ fst c) (filter snd cols) @ (if dialect = Mysql then [] else ixs),
         ti_checks = cks\<rparr>)"

text \<open>\<open>Base.metadata.create_all\<close> creates the tables that are missing and leaves the others alone.\<close>

definition create_all :: "dialect \<Rightarrow> schema \<Rightarrow> schema" where
  "create_all dialect s =
     (\<lambda>t. case s t of Some ti \<Rightarrow> Some ti | None \<Rightarrow> map_option (new_table dialect t) (map_of model_tables t))"

definition and_then :: "(schema \<Rightarrow> bool \<times> schema) \<Rightarrow> bool \<times> schema \<Rightarrow> bool \<times> schema" where
  "and_then f r = (case r of (ok, s) \<Rightarrow> if ok then f s else (False, s))"

definition startup_schema :: "(ddl \<Rightarrow> bool) \<Rightarrow> dialect \<Rightarrow> schema \<Rightarrow> bool \<times> schema" where
  "startup_schema rows_ok dialect s =
     and_then (\<lambda>s. run_migration rows_ok (late_columns_statements s) s)
       (and_then (migrate_edge_health_schema rows_ok dialect)
         (and_then (migrate_mysql_device_platform_constraint rows_ok dialect)
           (and_then (migrate_mysql_active_uniqueness rows_ok dialect)
             (migrate_edge_platform_schema rows_ok dialect (create_all dialect s)))))"

section \<open>Plans\<close>

text \<open>The names a schema holds, what a statement adds, removes and refers to. A plan is executable from
  a set of names when each statement finds what it refers to and adds a new name; the names it leads
  to are computed with it. This is a typing of plans: a typed plan runs to its end.\<close>

datatype item = Col string string | Idx string string | Chk string string

fun table_item :: "table_info \<Rightarrow> string \<Rightarrow> item \<Rightarrow> bool" where
  "table_item ti t (Col u c) \<longleftrightarrow> u = t \<and> c \<in> set (ti_columns ti)"
| "table_item ti t (Idx u n) \<longleftrightarrow> u = t \<and> n \<in> set (ti_indexes ti)"
| "table_item ti t (Chk u n) \<longleftrightarrow> u = t \<and> n \<in> set (ti_checks ti)"

definition schema_items :: "schema \<Rightarrow> item set" where
  "schema_items s = {i. \<exists>t ti. s t = Some ti \<and> table_item ti t i}"

fun ddl_adds :: "ddl \<Rightarrow> item list" where
  "ddl_adds (Add_column t c def) = [Col t c]"
| "ddl_adds (Add_generated t c ty e) = [Col t c]"
| "ddl_adds (Add_check t n ps) = [Chk t n]"
| "ddl_adds (Create_unique_index n t cs) = [Idx t n]"
| "ddl_adds _ = []"

fun ddl_drops :: "ddl \<Rightarrow> item list" where
  "ddl_drops (Drop_check t n) = [Chk t n]"
| "ddl_drops (Drop_index n t) = [Idx t n]"
| "ddl_drops _ = []"

fun ddl_needs :: "ddl \<Rightarrow> item list" where
  "ddl_needs (Add_generated t c ty e) = map (Col t) (gen_refs e)"
| "ddl_needs (Add_check t n ps) = [Col t ''platform'']"
| "ddl_needs (Create_unique_index n t cs) = map (Col t) cs"
| "ddl_needs (Drop_check t n) = [Chk t n]"
| "ddl_needs (Drop_index n t) = [Idx t n]"
| "ddl_needs (Add_column t c def) = []"

definition ddl_typed :: "item set \<Rightarrow> ddl \<Rightarrow> bool" where
  "ddl_typed I st \<longleftrightarrow> set (ddl_needs st) \<subseteq> I \<and> set (ddl_adds st) \<inter> I = {}"

definition ddl_effect :: "ddl \<Rightarrow> item set \<Rightarrow> item set" where
  "ddl_effect st I = (I - set (ddl_drops st)) \<union> set (ddl_adds st)"

fun plan_typed :: "item set \<Rightarrow> ddl list \<Rightarrow> bool" where
  "plan_typed I [] = True"
| "plan_typed I (st # sts) = (ddl_typed I st \<and> plan_typed (ddl_effect st I) sts)"

definition plan_effect :: "ddl list \<Rightarrow> item set \<Rightarrow> item set" where
  "plan_effect sts I = fold ddl_effect sts I"

definition same_tables :: "schema \<Rightarrow> schema \<Rightarrow> bool" where
  "same_tables s s' \<longleftrightarrow> dom s = dom s'"

lemma item_cases:
  "s t = Some ti \<Longrightarrow> Col t c \<in> schema_items s \<longleftrightarrow> c \<in> set (ti_columns ti)"
  "s t = Some ti \<Longrightarrow> Idx t c \<in> schema_items s \<longleftrightarrow> c \<in> set (ti_indexes ti)"
  "s t = Some ti \<Longrightarrow> Chk t c \<in> schema_items s \<longleftrightarrow> c \<in> set (ti_checks ti)"
  by (auto simp: schema_items_def)

lemma schema_items_upd:
  "schema_items (s(t \<mapsto> ti')) = {i. table_item ti' t i} \<union> {i. \<exists>u ti. u \<noteq> t \<and> s u = Some ti \<and> table_item ti u i}"
  by (auto simp: schema_items_def split: if_splits)

lemma schema_items_split:
  "s t = Some ti \<Longrightarrow>
   schema_items s = {i. table_item ti t i} \<union> {i. \<exists>u ti. u \<noteq> t \<and> s u = Some ti \<and> table_item ti u i}"
  unfolding schema_items_def by (auto; metis option.inject)

lemma table_item_eq: "{i. table_item ti t i} =
    Col t ` set (ti_columns ti) \<union> Idx t ` set (ti_indexes ti) \<union> Chk t ` set (ti_checks ti)"
proof -
  have "table_item ti t i \<longleftrightarrow> i \<in> Col t ` set (ti_columns ti) \<union> Idx t ` set (ti_indexes ti) \<union> Chk t ` set (ti_checks ti)" for i
    by (cases i) auto
  then show ?thesis by blast
qed

lemma alter_table_items:
  assumes "alter_table st ti = Some ti'"
  shows "{i. table_item ti' (ddl_table st) i} = ddl_effect st {i. table_item ti (ddl_table st) i}"
  using assms
  by (cases st) (auto simp: ddl_effect_def table_item_eq split: if_splits)

lemma ddl_items_table: "i \<in> set (ddl_adds st) \<union> set (ddl_drops st) \<Longrightarrow> u \<noteq> ddl_table st \<Longrightarrow> \<not> table_item ti u i"
  by (cases st) auto

lemma exec_ddl_effect:
  assumes "exec_ddl rows_ok st s = Some s'"
  shows "schema_items s' = ddl_effect st (schema_items s) \<and> same_tables s s'"
proof -
  obtain ti ti' where t: "s (ddl_table st) = Some ti" "alter_table st ti = Some ti'"
      and s': "s' = s(ddl_table st \<mapsto> ti')"
    using assms by (auto simp: exec_ddl_def split: option.splits if_splits)
  have "schema_items s' = ddl_effect st (schema_items s)"
    unfolding s' schema_items_upd schema_items_split [where s = s and t = "ddl_table st", OF t(1)] alter_table_items [OF t(2)]
    using ddl_items_table [of _ st] unfolding ddl_effect_def by blast
  then show ?thesis using t(1) by (auto simp: s' same_tables_def)
qed

lemma alter_table_typed:
  assumes "ddl_typed I st" and "\<And>i. i \<in> I \<Longrightarrow> i \<in> Col (ddl_table st) ` UNIV \<union> Idx (ddl_table st) ` UNIV \<union> Chk (ddl_table st) ` UNIV
      \<Longrightarrow> table_item ti (ddl_table st) i" and "\<And>i. table_item ti (ddl_table st) i \<Longrightarrow> i \<in> I"
  shows "alter_table st ti \<noteq> None"
  using assms(1) assms(2) [of "Col (ddl_table st) _"] assms(2) [of "Idx (ddl_table st) _"] assms(2) [of "Chk (ddl_table st) _"]
    assms(3) [of "Col (ddl_table st) _"] assms(3) [of "Idx (ddl_table st) _"] assms(3) [of "Chk (ddl_table st) _"]
  by (cases st) (auto simp: ddl_typed_def)

lemma exec_ddl_progress:
  assumes "ddl_typed (schema_items s) st" and "ddl_table st \<in> dom s" and "rows_ok st"
  shows "\<exists>s'. exec_ddl rows_ok st s = Some s'"
proof -
  obtain ti where ti: "s (ddl_table st) = Some ti" using assms(2) by auto
  note ic = item_cases [where s = s and t = "ddl_table st", OF ti]
  have "alter_table st ti \<noteq> None"
  proof (rule alter_table_typed [OF assms(1)])
    show "table_item ti (ddl_table st) i"
      if "i \<in> schema_items s" "i \<in> Col (ddl_table st) ` UNIV \<union> Idx (ddl_table st) ` UNIV \<union> Chk (ddl_table st) ` UNIV" for i
      using that by (auto simp: ic)
    show "i \<in> schema_items s" if "table_item ti (ddl_table st) i" for i
      unfolding schema_items_def using ti that by blast
  qed
  then show ?thesis using ti assms(3) by (auto simp: exec_ddl_def)
qed

text \<open>A typed plan runs to its end; any run, stopped or not, has executed a prefix of the plan.\<close>

lemma run_ddl_typed:
  assumes "plan_typed (schema_items s) sts" and "ddl_table ` set sts \<subseteq> dom s" and "\<forall>st \<in> set sts. rows_ok st"
  shows "\<exists>s'. run_ddl rows_ok sts s = (True, s') \<and> schema_items s' = plan_effect sts (schema_items s) \<and> same_tables s s'"
  using assms
proof (induction sts arbitrary: s)
  case Nil
  then show ?case by (simp add: plan_effect_def same_tables_def)
next
  case (Cons st sts)
  obtain s1 where s1: "exec_ddl rows_ok st s = Some s1"
    using exec_ddl_progress [of s st rows_ok] Cons.prems by auto
  note e = exec_ddl_effect [OF s1]
  have "\<exists>s'. run_ddl rows_ok sts s1 = (True, s') \<and> schema_items s' = plan_effect sts (schema_items s1) \<and> same_tables s1 s'"
    using Cons.prems e by (intro Cons.IH) (auto simp: same_tables_def)
  then show ?case using s1 e by (auto simp: plan_effect_def same_tables_def)
qed

lemma run_ddl_prefix:
  "\<exists>n. schema_items (snd (run_ddl rows_ok sts s)) = plan_effect (take n sts) (schema_items s) \<and>
       same_tables s (snd (run_ddl rows_ok sts s))"
proof (induction sts arbitrary: s)
  case Nil
  then show ?case by (simp add: plan_effect_def same_tables_def)
next
  case (Cons st sts)
  show ?case
  proof (cases "exec_ddl rows_ok st s")
    case None
    then show ?thesis by (intro exI [of _ 0]) (simp add: plan_effect_def same_tables_def)
  next
    case (Some s1)
    obtain n where "schema_items (snd (run_ddl rows_ok sts s1)) = plan_effect (take n sts) (schema_items s1)"
        "same_tables s1 (snd (run_ddl rows_ok sts s1))"
      using Cons.IH by blast
    then show ?thesis using Some exec_ddl_effect [OF Some]
      by (intro exI [of _ "Suc n"]) (simp add: plan_effect_def same_tables_def)
  qed
qed

text \<open>The migrations add what is missing from a fixed list of statements.\<close>

definition additive :: "ddl \<Rightarrow> bool" where
  "additive st \<longleftrightarrow> (\<exists>i. ddl_adds st = [i]) \<and> ddl_drops st = []"

definition added :: "ddl list \<Rightarrow> item set" where
  "added sts = set (concat (map ddl_adds sts))"

definition pending :: "item set \<Rightarrow> ddl list \<Rightarrow> ddl list" where
  "pending I full = filter (\<lambda>st. \<not> set (ddl_adds st) \<subseteq> I) full"

fun closed_plan :: "item set \<Rightarrow> ddl list \<Rightarrow> bool" where
  "closed_plan B [] = True"
| "closed_plan B (st # sts) = (set (ddl_needs st) \<subseteq> B \<and> closed_plan (B \<union> set (ddl_adds st)) sts)"

lemma pending_Nil [simp]: "pending I [] = []" by (simp add: pending_def)

lemma pending_append: "pending I (a @ b) = pending I a @ pending I b" by (simp add: pending_def)

lemma additive_simps [simp]:
  "additive (Add_column t c d)" "additive (Add_generated t c ty e)" "additive (Add_check t n ps)"
  "additive (Create_unique_index n t cs)"
  by (simp_all add: additive_def)

lemma pending_typed:
  assumes "closed_plan B full" and "list_all additive full" and "distinct (concat (map ddl_adds full))"
    and "B \<subseteq> J" and "I \<subseteq> J" and "J \<inter> added full \<subseteq> I"
  shows "plan_typed J (pending I full) \<and> plan_effect (pending I full) J = J \<union> added full"
  using assms
proof (induction full arbitrary: B J)
  case Nil
  then show ?case by (simp add: plan_effect_def added_def)
next
  case (Cons st full)
  obtain i where i: "ddl_adds st = [i]" "ddl_drops st = []" using Cons.prems(2) by (auto simp: additive_def)
  have fresh: "i \<notin> added full" and d: "distinct (concat (map ddl_adds full))"
    using Cons.prems(3) i by (auto simp: added_def)
  have a: "added (st # full) = insert i (added full)" by (simp add: added_def i)
  show ?case
  proof (cases "i \<in> I")
    case True
    have "plan_typed J (pending I full) \<and> plan_effect (pending I full) J = J \<union> added full"
      using Cons.prems True d by (intro Cons.IH [of "B \<union> set (ddl_adds st)"]) (auto simp: i a)
    then show ?thesis using True Cons.prems(5) a by (auto simp: pending_def i)
  next
    case False
    then have "i \<notin> J" using Cons.prems(6) by (auto simp: a)
    have "plan_typed (insert i J) (pending I full) \<and> plan_effect (pending I full) (insert i J) = insert i J \<union> added full"
      using Cons.prems fresh d by (intro Cons.IH [of "B \<union> set (ddl_adds st)"]) (auto simp: i a)
    moreover have "ddl_typed J st" "ddl_effect st J = insert i J"
      using \<open>i \<notin> J\<close> Cons.prems by (auto simp: ddl_typed_def ddl_effect_def i)
    ultimately show ?thesis using False by (auto simp: pending_def i a plan_effect_def)
  qed
qed

lemma ddl_effect_between: "additive st \<Longrightarrow> I \<subseteq> ddl_effect st I \<and> ddl_effect st I \<subseteq> I \<union> added [st]"
  by (auto simp: ddl_effect_def additive_def added_def)

lemma plan_effect_additive: "list_all additive sts \<Longrightarrow> plan_effect sts I = I \<union> added sts"
proof (induction sts arbitrary: I)
  case Nil
  then show ?case by (simp add: plan_effect_def added_def)
next
  case (Cons st sts)
  then have "plan_effect sts (ddl_effect st I) = ddl_effect st I \<union> added sts" by simp
  then show ?case using Cons.prems by (auto simp: plan_effect_def added_def ddl_effect_def additive_def)
qed

text \<open>A phase of the start: what is missing from \<open>full\<close> is added.\<close>

lemma pending_run:
  assumes "closed_plan B full" and "list_all additive full" and "distinct (concat (map ddl_adds full))"
    and "B \<subseteq> schema_items s" and "ddl_table ` set full \<subseteq> dom s" and "\<forall>st \<in> set full. rows_ok st"
  shows "\<exists>s'. run_ddl rows_ok (pending (schema_items s) full) s = (True, s') \<and>
              schema_items s' = schema_items s \<union> added full \<and> same_tables s s'"
proof -
  note p = pending_typed [OF assms(1-4) subset_refl Int_lower1]
  have "\<exists>s'. run_ddl rows_ok (pending (schema_items s) full) s = (True, s') \<and>
        schema_items s' = plan_effect (pending (schema_items s) full) (schema_items s) \<and> same_tables s s'"
    using p assms(5,6) by (intro run_ddl_typed) (auto simp: pending_def)
  then show ?thesis using p by simp
qed

lemma pending_stop:
  assumes "list_all additive full" and "run_ddl rows_ok (pending (schema_items s) full) s = (ok, s')"
  shows "schema_items s \<subseteq> schema_items s' \<and> schema_items s' \<subseteq> schema_items s \<union> added full \<and> same_tables s s'"
proof -
  obtain n where n: "schema_items s' = plan_effect (take n (pending (schema_items s) full)) (schema_items s)" "same_tables s s'"
    using run_ddl_prefix [of rows_ok "pending (schema_items s) full" s] assms(2) by auto
  have "list_all additive (take n (pending (schema_items s) full))"
    using assms(1) by (auto simp: list_all_iff pending_def dest!: in_set_takeD)
  then have "schema_items s' = schema_items s \<union> added (take n (pending (schema_items s) full))"
    using n(1) plan_effect_additive by simp
  moreover have "added (take n (pending (schema_items s) full)) \<subseteq> added full"
    by (auto simp: added_def pending_def dest!: in_set_takeD)
  ultimately show ?thesis using n(2) by auto
qed

section \<open>The plans of the migrations\<close>

definition platform_full :: "dialect \<Rightarrow> ddl list" where
  "platform_full dialect =
     concat (map (\<lambda>t. platform_column dialect t #
                      (if dialect = Mysql then [Add_check t (''ck_'' @ t @ ''_platform'') [''linux'', ''windows'']] else []))
              [''edge_nodes'', ''node_registration_requests''])"

definition unique_full :: "ddl list" where
  "unique_full =
     map (\<lambda>(c, ty, e). Add_generated lease_table c ty e) lease_generated @
     [Create_unique_index scoped_index lease_table [''active_store_id'', ''active_owner_user_id'', ''active_device_id'']] @
     concat (map (\<lambda>(t, c, ty, e, n, cs). [Add_generated t c ty e, Create_unique_index n t cs]) mysql_active_uniqueness)"

abbreviation supported_check :: item where
  "supported_check \<equiv> Chk ''device_sessions'' ''ck_device_sessions_platform_supported''"

abbreviation macos_check :: item where
  "macos_check \<equiv> Chk ''device_sessions'' ''ck_device_sessions_platform_macos''"

definition device_full :: "ddl list" where
  "device_full = [Add_check ''device_sessions'' ''ck_device_sessions_platform_supported'' [''macos'', ''windows'']]"

definition health_full :: "ddl list" where
  "health_full = map (\<lambda>(c, def). Add_column ''edge_nodes'' c def) edge_health_columns"

definition late_full :: "ddl list" where
  "late_full = [Add_column lease_table ''device_id'' ''VARCHAR(100)'', Add_column lease_table ''last_heartbeat_at'' ''DATETIME'',
                Add_column ''users'' ''deleted_at'' ''DATETIME'']"

lemmas full_defs = platform_full_def unique_full_def device_full_def health_full_def late_full_def platform_column_def
  lease_generated_def mysql_active_uniqueness_def edge_health_columns_def

lemma pending_Cons:
  "pending I (st # sts) = (if set (ddl_adds st) \<subseteq> I then [] else [st]) @ pending I sts"
  by (simp add: pending_def)

lemma platform_pending:
  assumes "s ''edge_nodes'' = Some a" and "s ''node_registration_requests'' = Some b"
  shows "edge_platform_migration_statements dialect s = Some (pending (schema_items s) (platform_full dialect))"
  using assms
  by (simp add: edge_platform_migration_statements_def edge_platform_table_def missing_def full_defs pending_Cons
      item_cases [where s = s and t = "''edge_nodes''", OF assms(1)]
      item_cases [where s = s and t = "''node_registration_requests''", OF assms(2)])

lemma lease_pending:
  assumes "s lease_table = Some a" and "s ''node_enrollments'' = Some b" and "s ''node_registration_requests'' = Some c"
    and "s ''local_history_entries'' = Some d"
  shows "mysql_active_uniqueness_statements s =
           Some ((if Idx lease_table legacy_index \<in> schema_items s then [Drop_index legacy_index lease_table] else []) @
                 pending (schema_items s) unique_full)"
  using assms
  by (simp add: mysql_active_uniqueness_statements_def mysql_active_store_lease_statements_def missing_def full_defs pending_Cons
      item_cases [where s = s and t = lease_table, OF assms(1)] item_cases [where s = s and t = "''node_enrollments''", OF assms(2)]
      item_cases [where s = s and t = "''node_registration_requests''", OF assms(3)]
      item_cases [where s = s and t = "''local_history_entries''", OF assms(4)])

lemma device_pending:
  assumes "s ''device_sessions'' = Some a"
  shows "mysql_device_platform_constraint_statements s =
           Some (if supported_check \<in> schema_items s then []
                 else (if macos_check \<in> schema_items s
                       then [Drop_check ''device_sessions'' ''ck_device_sessions_platform_macos''] else []) @ device_full)"
  using assms
  by (simp add: mysql_device_platform_constraint_statements_def full_defs
      item_cases [where s = s and t = "''device_sessions''", OF assms(1)])

lemma health_pending:
  assumes "s ''edge_nodes'' = Some a"
  shows "migrate_edge_health_schema rows_ok dialect s =
           (if dialect = Sqlite then run_ddl rows_ok (pending (schema_items s) health_full) s else (True, s))"
  using assms
  by (simp add: migrate_edge_health_schema_def missing_def full_defs pending_Cons
      item_cases [where s = s and t = "''edge_nodes''", OF assms(1)])

lemma late_pending:
  assumes "s lease_table = Some a" and "s ''users'' = Some b"
  shows "late_columns_statements s = Some (pending (schema_items s) late_full)"
  using assms
  by (simp add: late_columns_statements_def missing_def full_defs pending_Cons
      item_cases [where s = s and t = lease_table, OF assms(1)] item_cases [where s = s and t = "''users''", OF assms(2)])

lemma full_additive [simp]:
  "list_all additive (platform_full dialect)" "list_all additive unique_full" "list_all additive device_full"
  "list_all additive health_full" "list_all additive late_full"
  by (simp_all add: full_defs)

lemma full_distinct:
  "distinct (concat (map ddl_adds (platform_full dialect)))" "distinct (concat (map ddl_adds unique_full))"
  "distinct (concat (map ddl_adds health_full))" "distinct (concat (map ddl_adds late_full))"
  by (simp_all add: full_defs)

section \<open>The start\<close>

text \<open>The columns later releases added: a database that lacks only these is one the start knows how to
  upgrade. On MySQL \<open>device_id\<close> is not among them, see \<open>legacy_lease_never_starts\<close> below, nor are the
  health columns, which are added on SQLite only.\<close>

definition late_columns :: "dialect \<Rightarrow> item list" where
  "late_columns dialect =
     [Col ''edge_nodes'' ''platform'', Col ''node_registration_requests'' ''platform'',
      Col lease_table ''last_heartbeat_at'', Col ''users'' ''deleted_at''] @
     (if dialect = Mysql then [] else [Col lease_table ''device_id'']) @
     (if dialect = Sqlite then map (\<lambda>c. Col ''edge_nodes'' (fst c)) edge_health_columns else [])"

definition legacy_ok :: "dialect \<Rightarrow> schema \<Rightarrow> bool" where
  "legacy_ok dialect s \<longleftrightarrow>
     list_all (\<lambda>(t, cols, ixs, cks).
       case s t of
         None \<Rightarrow> True
       | Some ti \<Rightarrow> list_all (\<lambda>c. Col t (fst c) \<in> set (late_columns dialect) \<or> fst c \<in> set (ti_columns ti)) cols)
       model_tables \<and>
     (dialect = Mysql \<longrightarrow> \<not> (supported_check \<in> schema_items s \<and> macos_check \<in> schema_items s))"

definition model_items :: "item list" where
  "model_items = concat (map (\<lambda>(t, cols, ixs, cks). map (\<lambda>c. Col t (fst c)) cols) model_tables)"

definition schema_current :: "dialect \<Rightarrow> schema \<Rightarrow> bool" where
  "schema_current dialect s \<longleftrightarrow>
     fst ` set model_tables \<subseteq> dom s \<and> set model_items \<subseteq> schema_items s \<and>
     (dialect = Mysql \<longrightarrow>
        added (platform_full Mysql @ unique_full @ device_full) \<subseteq> schema_items s \<and>
        Idx lease_table legacy_index \<notin> schema_items s \<and> macos_check \<notin> schema_items s)"

text \<open>What every phase keeps, stopped or not: the tables, their columns, and that the two device checks
  are not both there.\<close>

definition phase_inv :: "dialect \<Rightarrow> schema \<Rightarrow> schema \<Rightarrow> bool" where
  "phase_inv dialect s s' \<longleftrightarrow>
     same_tables s s' \<and> (\<forall>t c. Col t c \<in> schema_items s \<longrightarrow> Col t c \<in> schema_items s') \<and>
     (dialect = Mysql \<longrightarrow> \<not> (supported_check \<in> schema_items s \<and> macos_check \<in> schema_items s) \<longrightarrow>
        \<not> (supported_check \<in> schema_items s' \<and> macos_check \<in> schema_items s'))"

lemma phase_inv_refl [simp]: "phase_inv dialect s s"
  by (simp add: phase_inv_def same_tables_def)

lemma phase_inv_trans: "phase_inv dialect s s' \<Longrightarrow> phase_inv dialect s' s'' \<Longrightarrow> phase_inv dialect s s''"
  unfolding phase_inv_def same_tables_def by metis

lemma pending_phase:
  assumes "list_all additive full" and "supported_check \<notin> added full" and "macos_check \<notin> added full"
  shows "phase_inv dialect s (snd (run_ddl rows_ok (pending (schema_items s) full) s))"
proof -
  obtain ok s' where r: "run_ddl rows_ok (pending (schema_items s) full) s = (ok, s')" by fastforce
  show ?thesis
    using pending_stop [OF assms(1) r] assms(2,3) by (auto simp: r phase_inv_def)
qed

lemma drop_exec:
  assumes "exec_ddl rows_ok st s = Some s1" and "ddl_adds st = []" and "ddl_drops st = [i]"
  shows "schema_items s1 = schema_items s - {i}" and "same_tables s s1"
  using exec_ddl_effect [OF assms(1)] assms(2,3) by (auto simp: ddl_effect_def)

lemma pending_diff: "i \<notin> added full \<Longrightarrow> pending (I - {i}) full = pending I full"
  unfolding pending_def added_def by (intro filter_cong) auto

text \<open>A phase that first drops what an older release left.\<close>

lemma drop_run:
  assumes "closed_plan B full" and "list_all additive full" and "distinct (concat (map ddl_adds full))"
    and "B \<subseteq> schema_items s" and "ddl_table ` set (st # full) \<subseteq> dom s"
    and "ddl_adds st = []" and "ddl_drops st = [i]" and "ddl_needs st = [i]" and "i \<notin> added full" and "i \<notin> B"
  shows "\<exists>s'. run_ddl (\<lambda>_. True) ((if i \<in> schema_items s then [st] else []) @ pending (schema_items s) full) s = (True, s') \<and>
              schema_items s' = (schema_items s - {i}) \<union> added full \<and> same_tables s s'"
proof (cases "i \<in> schema_items s")
  case True
  then obtain s1 where s1: "exec_ddl (\<lambda>_. True) st s = Some s1"
    using exec_ddl_progress [of s st "\<lambda>_. True"] assms(5-8) by (auto simp: ddl_typed_def)
  note e = drop_exec [OF s1 assms(6,7)]
  have "\<exists>s'. run_ddl (\<lambda>_. True) (pending (schema_items s1) full) s1 = (True, s') \<and>
      schema_items s' = schema_items s1 \<union> added full \<and> same_tables s1 s'"
    using assms(4,5,10) e by (intro pending_run [OF assms(1-3)]) (auto simp: same_tables_def)
  then show ?thesis
    using True s1 e pending_diff [OF assms(9), of "schema_items s"] by (auto simp: same_tables_def)
next
  case False
  then show ?thesis
    using pending_run [OF assms(1-3), of s "\<lambda>_. True"] assms(4,5) by auto
qed

lemma run_ddl_forced: "fst (run_ddl rows_ok sts s) \<Longrightarrow> run_ddl (\<lambda>_. True) sts s = run_ddl rows_ok sts s"
  by (induction sts arbitrary: s) (auto simp: exec_ddl_def split: option.splits if_splits)

lemma dom_obtain: "t \<in> dom s \<Longrightarrow> (\<And>ti. s t = Some ti \<Longrightarrow> P) \<Longrightarrow> P"
  by auto

subsection \<open>The phases\<close>

text \<open>The three facts about a phase: what it keeps, that a run which was not stopped is the
  unobstructed one, and where the unobstructed one leads.\<close>

lemma full_phase:
  assumes "\<And>ok. f ok = run_ddl ok (pending (schema_items s) full) s"
    and "closed_plan B full" "list_all additive full" "distinct (concat (map ddl_adds full))"
    and "supported_check \<notin> added full" "macos_check \<notin> added full"
    and "B \<subseteq> schema_items s" "ddl_table ` set full \<subseteq> dom s"
  shows "phase_inv dialect s (snd (f rows_ok))"
    and "fst (f rows_ok) \<Longrightarrow> f (\<lambda>_. True) = f rows_ok"
    and "\<exists>s'. f (\<lambda>_. True) = (True, s') \<and> schema_items s' = schema_items s \<union> added full \<and> same_tables s s'"
  unfolding assms(1)
  using pending_phase [OF assms(3,5,6)] run_ddl_forced pending_run [OF assms(2-4,7,8)] by auto

lemma platform_phase:
  assumes "''edge_nodes'' \<in> dom s" and "''node_registration_requests'' \<in> dom s"
  shows "phase_inv dialect s (snd (migrate_edge_platform_schema rows_ok dialect s))"
    and "fst (migrate_edge_platform_schema rows_ok dialect s) \<Longrightarrow>
         migrate_edge_platform_schema (\<lambda>_. True) dialect s = migrate_edge_platform_schema rows_ok dialect s"
    and "\<exists>s'. migrate_edge_platform_schema (\<lambda>_. True) dialect s = (True, s') \<and>
         schema_items s' = schema_items s \<union> added (platform_full dialect) \<and> same_tables s s'"
proof -
  obtain a b where t: "s ''edge_nodes'' = Some a" "s ''node_registration_requests'' = Some b" using assms by auto
  have m: "migrate_edge_platform_schema ok dialect s = run_ddl ok (pending (schema_items s) (platform_full dialect)) s" for ok
    by (simp add: migrate_edge_platform_schema_def run_migration_def platform_pending [where s = s, OF t])
  have c: "closed_plan {} (platform_full dialect)" "supported_check \<notin> added (platform_full dialect)"
      "macos_check \<notin> added (platform_full dialect)" "ddl_table ` set (platform_full dialect) \<subseteq> dom s"
    using assms by (auto simp: full_defs added_def)
  note f = full_phase [where f = "\<lambda>ok. migrate_edge_platform_schema ok dialect s",
      OF m c(1) full_additive(1) full_distinct(1) c(2,3) empty_subsetI c(4)]
  show "phase_inv dialect s (snd (migrate_edge_platform_schema rows_ok dialect s))" by (rule f(1))
  show "fst (migrate_edge_platform_schema rows_ok dialect s) \<Longrightarrow>
         migrate_edge_platform_schema (\<lambda>_. True) dialect s = migrate_edge_platform_schema rows_ok dialect s" by (rule f(2))
  show "\<exists>s'. migrate_edge_platform_schema (\<lambda>_. True) dialect s = (True, s') \<and>
         schema_items s' = schema_items s \<union> added (platform_full dialect) \<and> same_tables s s'" by (rule f(3))
qed

lemma health_phase:
  assumes "''edge_nodes'' \<in> dom s"
  shows "phase_inv dialect s (snd (migrate_edge_health_schema rows_ok dialect s))"
    and "fst (migrate_edge_health_schema rows_ok dialect s) \<Longrightarrow>
         migrate_edge_health_schema (\<lambda>_. True) dialect s = migrate_edge_health_schema rows_ok dialect s"
    and "\<exists>s'. migrate_edge_health_schema (\<lambda>_. True) dialect s = (True, s') \<and>
         schema_items s' = schema_items s \<union> (if dialect = Sqlite then added health_full else {}) \<and> same_tables s s'"
proof -
  obtain a where t: "s ''edge_nodes'' = Some a" using assms by auto
  define full where "full = (if dialect = Sqlite then health_full else [])"
  have m: "migrate_edge_health_schema ok dialect s = run_ddl ok (pending (schema_items s) full) s" for ok
    by (simp add: health_pending [where s = s, OF t] full_def)
  have c: "closed_plan {} full" "list_all additive full" "distinct (concat (map ddl_adds full))"
      "supported_check \<notin> added full" "macos_check \<notin> added full" "ddl_table ` set full \<subseteq> dom s"
    using assms by (auto simp: full_def full_defs added_def)
  note f = full_phase [where f = "\<lambda>ok. migrate_edge_health_schema ok dialect s", OF m c(1-5) empty_subsetI c(6)]
  show "phase_inv dialect s (snd (migrate_edge_health_schema rows_ok dialect s))" by (rule f(1))
  show "fst (migrate_edge_health_schema rows_ok dialect s) \<Longrightarrow>
         migrate_edge_health_schema (\<lambda>_. True) dialect s = migrate_edge_health_schema rows_ok dialect s" by (rule f(2))
  show "\<exists>s'. migrate_edge_health_schema (\<lambda>_. True) dialect s = (True, s') \<and>
         schema_items s' = schema_items s \<union> (if dialect = Sqlite then added health_full else {}) \<and> same_tables s s'"
    using f(3) by (auto simp: full_def added_def)
qed

lemma late_phase:
  assumes "lease_table \<in> dom s" and "''users'' \<in> dom s"
  shows "phase_inv dialect s (snd (run_migration rows_ok (late_columns_statements s) s))"
    and "fst (run_migration rows_ok (late_columns_statements s) s) \<Longrightarrow>
         run_migration (\<lambda>_. True) (late_columns_statements s) s = run_migration rows_ok (late_columns_statements s) s"
    and "\<exists>s'. run_migration (\<lambda>_. True) (late_columns_statements s) s = (True, s') \<and>
         schema_items s' = schema_items s \<union> added late_full \<and> same_tables s s'"
proof -
  obtain a b where t: "s lease_table = Some a" "s ''users'' = Some b" using assms by auto
  have m: "run_migration ok (late_columns_statements s) s = run_ddl ok (pending (schema_items s) late_full) s" for ok
    by (simp add: run_migration_def late_pending [where s = s, OF t])
  have c: "closed_plan {} late_full" "supported_check \<notin> added late_full" "macos_check \<notin> added late_full"
      "ddl_table ` set late_full \<subseteq> dom s"
    using assms by (auto simp: full_defs added_def)
  note f = full_phase [where f = "\<lambda>ok. run_migration ok (late_columns_statements s) s",
      OF m c(1) full_additive(5) full_distinct(4) c(2,3) empty_subsetI c(4)]
  show "phase_inv dialect s (snd (run_migration rows_ok (late_columns_statements s) s))" by (rule f(1))
  show "fst (run_migration rows_ok (late_columns_statements s) s) \<Longrightarrow>
         run_migration (\<lambda>_. True) (late_columns_statements s) s = run_migration rows_ok (late_columns_statements s) s"
    by (rule f(2))
  show "\<exists>s'. run_migration (\<lambda>_. True) (late_columns_statements s) s = (True, s') \<and>
         schema_items s' = schema_items s \<union> added late_full \<and> same_tables s s'" by (rule f(3))
qed

definition unique_base :: "item list" where
  "unique_base =
     [Col ''node_enrollments'' ''status'', Col ''node_enrollments'' ''edge_node_id'',
      Col ''node_registration_requests'' ''status'', Col ''node_registration_requests'' ''machine_fingerprint'',
      Col ''node_registration_requests'' ''public_key_fingerprint'', Col ''local_history_entries'' ''url'',
      Col ''local_history_entries'' ''user_id'', Col lease_table ''status'', Col lease_table ''store_id'',
      Col lease_table ''owner_user_id'', Col lease_table ''device_id'']"

lemma unique_phase:
  assumes "lease_table \<in> dom s" and "''node_enrollments'' \<in> dom s" and "''node_registration_requests'' \<in> dom s"
    and "''local_history_entries'' \<in> dom s"
  shows "phase_inv dialect s (snd (migrate_mysql_active_uniqueness rows_ok dialect s))"
    and "fst (migrate_mysql_active_uniqueness rows_ok dialect s) \<Longrightarrow>
         migrate_mysql_active_uniqueness (\<lambda>_. True) dialect s = migrate_mysql_active_uniqueness rows_ok dialect s"
    and "dialect = Mysql \<Longrightarrow> set unique_base \<subseteq> schema_items s \<Longrightarrow>
         \<exists>s'. migrate_mysql_active_uniqueness (\<lambda>_. True) dialect s = (True, s') \<and>
              schema_items s' = (schema_items s - {Idx lease_table legacy_index}) \<union> added unique_full \<and> same_tables s s'"
proof -
  let ?i = "Idx lease_table legacy_index" and ?st = "Drop_index legacy_index lease_table"
  let ?plan = "(if ?i \<in> schema_items s then [?st] else []) @ pending (schema_items s) unique_full"
  obtain a b c d where t: "s lease_table = Some a" "s ''node_enrollments'' = Some b"
      "s ''node_registration_requests'' = Some c" "s ''local_history_entries'' = Some d"
    using assms by auto
  have m: "migrate_mysql_active_uniqueness ok dialect s = (if dialect \<noteq> Mysql then (True, s) else run_ddl ok ?plan s)" for ok
    by (simp add: migrate_mysql_active_uniqueness_def run_migration_def lease_pending [where s = s, OF t])
  have fresh: "?i \<notin> added unique_full" "supported_check \<notin> added unique_full" "macos_check \<notin> added unique_full"
    by (simp_all add: full_defs added_def)
  have "phase_inv dialect s (snd (run_ddl rows_ok ?plan s))"
  proof (cases "?i \<in> schema_items s \<and> exec_ddl rows_ok ?st s \<noteq> None")
    case True
    then obtain s1 where s1: "exec_ddl rows_ok ?st s = Some s1" by auto
    have e: "schema_items s1 = schema_items s - {?i}" "same_tables s s1"
      using drop_exec [OF s1, of ?i] by auto
    have "phase_inv dialect s s1" using e by (auto simp: phase_inv_def)
    moreover have "phase_inv dialect s1 (snd (run_ddl rows_ok (pending (schema_items s1) unique_full) s1))"
      using fresh by (intro pending_phase) auto
    ultimately show ?thesis
      using True s1 e(1) pending_diff [OF fresh(1), of "schema_items s"] by (auto intro: phase_inv_trans)
  next
    case False
    then show ?thesis using pending_phase [OF full_additive(2) fresh(2,3)] by auto
  qed
  then show "phase_inv dialect s (snd (migrate_mysql_active_uniqueness rows_ok dialect s))" by (metis m phase_inv_refl snd_conv)
  show "migrate_mysql_active_uniqueness (\<lambda>_. True) dialect s = migrate_mysql_active_uniqueness rows_ok dialect s"
    if "fst (migrate_mysql_active_uniqueness rows_ok dialect s)"
    using that run_ddl_forced [of rows_ok ?plan s] unfolding m by (auto simp del: run_ddl.simps)
  assume dia: "dialect = Mysql" and base: "set unique_base \<subseteq> schema_items s"
  have "closed_plan (set unique_base) unique_full" by (simp add: full_defs unique_base_def)
  moreover have "ddl_table ` set (?st # unique_full) \<subseteq> dom s" using assms by (auto simp: full_defs)
  moreover have "?i \<notin> set unique_base" by (simp add: unique_base_def)
  ultimately show "\<exists>s'. migrate_mysql_active_uniqueness (\<lambda>_. True) dialect s = (True, s') \<and>
      schema_items s' = (schema_items s - {?i}) \<union> added unique_full \<and> same_tables s s'"
    unfolding m using drop_run [of "set unique_base" unique_full s ?st ?i] base fresh(1) dia full_distinct(2)
    by simp
qed

lemma device_phase:
  assumes "''device_sessions'' \<in> dom s"
  shows "phase_inv dialect s (snd (migrate_mysql_device_platform_constraint rows_ok dialect s))"
    and "fst (migrate_mysql_device_platform_constraint rows_ok dialect s) \<Longrightarrow>
         migrate_mysql_device_platform_constraint (\<lambda>_. True) dialect s =
         migrate_mysql_device_platform_constraint rows_ok dialect s"
    and "dialect = Mysql \<Longrightarrow> Col ''device_sessions'' ''platform'' \<in> schema_items s \<Longrightarrow>
         \<not> (supported_check \<in> schema_items s \<and> macos_check \<in> schema_items s) \<Longrightarrow>
         \<exists>s'. migrate_mysql_device_platform_constraint (\<lambda>_. True) dialect s = (True, s') \<and>
              schema_items s' = (schema_items s - {macos_check}) \<union> added device_full \<and> same_tables s s'"
proof -
  let ?st = "Drop_check ''device_sessions'' ''ck_device_sessions_platform_macos''"
  let ?plan = "if supported_check \<in> schema_items s then []
               else (if macos_check \<in> schema_items s then [?st] else []) @ device_full"
  obtain a where t: "s ''device_sessions'' = Some a" using assms by auto
  have m: "migrate_mysql_device_platform_constraint ok dialect s =
      (if dialect \<noteq> Mysql then (True, s) else run_ddl ok ?plan s)" for ok
    by (simp add: migrate_mysql_device_platform_constraint_def run_migration_def device_pending [where s = s, OF t])
  have add: "phase_inv dialect u (snd (run_ddl rows_ok device_full u))" if "macos_check \<notin> schema_items u" for u
  proof (cases "exec_ddl rows_ok (hd device_full) u")
    case None
    then show ?thesis by (simp add: device_full_def)
  next
    case (Some u')
    then show ?thesis using exec_ddl_effect [OF Some] that
      by (auto simp: device_full_def phase_inv_def ddl_effect_def)
  qed
  have "phase_inv dialect s (snd (run_ddl rows_ok ?plan s))"
  proof (cases "supported_check \<notin> schema_items s \<and> macos_check \<in> schema_items s")
    case True
    show ?thesis
    proof (cases "exec_ddl rows_ok ?st s")
      case None
      then show ?thesis using True by simp
    next
      case (Some s1)
      have e: "schema_items s1 = schema_items s - {macos_check}" "same_tables s s1"
        using drop_exec [OF Some, of macos_check] by auto
      have "phase_inv dialect s s1" using e by (auto simp: phase_inv_def)
      then show ?thesis using Some True e add [of s1] by (auto intro: phase_inv_trans)
    qed
  next
    case False
    then show ?thesis using add [of s] by auto
  qed
  then show "phase_inv dialect s (snd (migrate_mysql_device_platform_constraint rows_ok dialect s))" by (metis m phase_inv_refl snd_conv)
  show "migrate_mysql_device_platform_constraint (\<lambda>_. True) dialect s =
         migrate_mysql_device_platform_constraint rows_ok dialect s"
    if "fst (migrate_mysql_device_platform_constraint rows_ok dialect s)"
    using that run_ddl_forced [of rows_ok ?plan s] unfolding m by (auto simp del: run_ddl.simps)
  assume dia: "dialect = Mysql" and base: "Col ''device_sessions'' ''platform'' \<in> schema_items s"
     and nb: "\<not> (supported_check \<in> schema_items s \<and> macos_check \<in> schema_items s)"
  have p: "pending (schema_items s) device_full = (if supported_check \<in> schema_items s then [] else device_full)"
    by (simp add: pending_def device_full_def)
  have "\<exists>s'. run_ddl (\<lambda>_. True) ((if macos_check \<in> schema_items s then [?st] else []) @ pending (schema_items s) device_full) s = (True, s') \<and>
      schema_items s' = (schema_items s - {macos_check}) \<union> added device_full \<and> same_tables s s'"
    using assms base
    by (intro drop_run [of "{Col ''device_sessions'' ''platform''}"]) (auto simp: device_full_def added_def)
  then show "\<exists>s'. migrate_mysql_device_platform_constraint (\<lambda>_. True) dialect s = (True, s') \<and>
      schema_items s' = (schema_items s - {macos_check}) \<union> added device_full \<and> same_tables s s'"
    unfolding m using nb dia by (simp only: p) (auto split: if_splits)
qed

subsection \<open>The phases in sequence\<close>

lemma model_keys: "distinct (map fst model_tables)"
  by (simp add: model_tables_def)

lemma model_tables_dom: "t \<in> fst ` set model_tables \<Longrightarrow> t \<in> dom (create_all dialect s)"
  by (cases "s t") (auto simp: create_all_def model_keys dest: map_of_is_SomeI [OF model_keys])

lemma startup_tables:
  "''edge_nodes'' \<in> fst ` set model_tables" "''node_registration_requests'' \<in> fst ` set model_tables"
  "lease_table \<in> fst ` set model_tables" "''node_enrollments'' \<in> fst ` set model_tables"
  "''local_history_entries'' \<in> fst ` set model_tables" "''device_sessions'' \<in> fst ` set model_tables"
  "''users'' \<in> fst ` set model_tables"
  by (simp_all add: model_tables_def)

text \<open>The state on which a phase runs: all tables exist and what the earlier phases keep holds.\<close>

lemma and_then_phase:
  assumes "phase_inv dialect s0 (snd r)" and "\<And>u. dom u = dom s0 \<Longrightarrow> phase_inv dialect u (snd (f u))"
  shows "phase_inv dialect s0 (snd (and_then f r))"
proof (cases "fst r")
  case True
  have "dom (snd r) = dom s0" using assms(1) by (auto simp: phase_inv_def same_tables_def)
  then show ?thesis
    using True phase_inv_trans [OF assms(1) assms(2)] by (cases r) (simp add: and_then_def)
next
  case False
  then show ?thesis using assms(1) by (cases r) (simp add: and_then_def)
qed

lemma startup_inv: "phase_inv dialect (create_all dialect s) (snd (startup_schema rows_ok dialect s))"
  unfolding startup_schema_def
  using startup_tables [THEN model_tables_dom, of dialect s]
  by (intro and_then_phase platform_phase(1) unique_phase(1) device_phase(1) health_phase(1) late_phase(1)) auto

lemma and_then_forced:
  assumes "fst (and_then f r)" and "fst r \<Longrightarrow> r' = r" and "\<And>u. u = snd r \<Longrightarrow> fst (f u) \<Longrightarrow> f' u = f u"
  shows "and_then f' r' = and_then f r"
proof (cases r)
  case (Pair ok u)
  then have "ok" "fst (f u)" using assms(1) by (auto simp: and_then_def split: if_splits)
  then show ?thesis using assms(2,3) Pair by (simp add: and_then_def)
qed

lemma and_then_ok: "fst (and_then f r) \<Longrightarrow> fst r"
  by (cases r) (simp add: and_then_def split: if_splits)

lemma legacy_base:
  assumes "legacy_ok dialect s" and "i \<in> set model_items" and "i \<notin> set (late_columns dialect)"
  shows "i \<in> schema_items (create_all dialect s)"
proof -
  obtain t cols ixs cks c where m: "(t, cols, ixs, cks) \<in> set model_tables" "c \<in> set cols" "i = Col t (fst c)"
    using assms(2) by (auto simp: model_items_def)
  show ?thesis
  proof (cases "s t")
    case None
    then have "create_all dialect s t = Some (new_table dialect t (cols, ixs, cks))"
      using map_of_is_SomeI [OF model_keys m(1)] by (simp add: create_all_def)
    then show ?thesis using m(2,3) by (force simp: schema_items_def new_table_def)
  next
    case (Some ti)
    then have "list_all (\<lambda>c. Col t (fst c) \<in> set (late_columns dialect) \<or> fst c \<in> set (ti_columns ti)) cols"
      using assms(1) m(1) by (force simp: legacy_ok_def list_all_iff)
    then have "fst c \<in> set (ti_columns ti)" using m assms(3) by (auto simp: list_all_iff)
    then show ?thesis using Some m(3) by (force simp: schema_items_def create_all_def)
  qed
qed

lemma create_all_checks:
  assumes "legacy_ok Mysql s"
  shows "\<not> (supported_check \<in> schema_items (create_all Mysql s) \<and> macos_check \<in> schema_items (create_all Mysql s))"
proof (cases "s ''device_sessions''")
  case None
  then show ?thesis by (auto simp: schema_items_def create_all_def new_table_def model_tables_def)
next
  case (Some ti)
  then have "create_all Mysql s ''device_sessions'' = Some ti" by (simp add: create_all_def)
  then show ?thesis
    using assms Some
    by (simp add: legacy_ok_def item_cases [where s = s and t = "''device_sessions''", OF Some]
        item_cases [where s = "create_all Mysql s" and t = "''device_sessions''"])
qed

lemma legacy_ok_inv:
  assumes "legacy_ok dialect s" and "phase_inv dialect (create_all dialect s) s1"
  shows "legacy_ok dialect s1"
proof -
  have cols: "Col t (fst c) \<in> set (late_columns dialect) \<or> fst c \<in> set (ti_columns ti)"
    if "(t, cols, ixs, cks) \<in> set model_tables" "s1 t = Some ti" "c \<in> set cols" for t cols ixs cks ti c
  proof (rule disjCI)
    assume "fst c \<notin> set (ti_columns ti)"
    then have "Col t (fst c) \<notin> schema_items s1" using that(2) by (simp add: item_cases [where s = s1 and t = t])
    then have "Col t (fst c) \<notin> schema_items (create_all dialect s)" using assms(2) by (auto simp: phase_inv_def)
    moreover have "Col t (fst c) \<in> set model_items" using that(1,3) by (force simp: model_items_def)
    ultimately show "Col t (fst c) \<in> set (late_columns dialect)" using legacy_base [OF assms(1)] by blast
  qed
  have "list_all (\<lambda>(t, cols, ixs, cks).
       case s1 t of
         None \<Rightarrow> True
       | Some ti \<Rightarrow> list_all (\<lambda>c. Col t (fst c) \<in> set (late_columns dialect) \<or> fst c \<in> set (ti_columns ti)) cols)
       model_tables"
    unfolding list_all_iff by (clarsimp split: option.split) (use cols in force)
  moreover have "dialect = Mysql \<Longrightarrow> \<not> (supported_check \<in> schema_items s1 \<and> macos_check \<in> schema_items s1)"
    using create_all_checks [of s] assms by (simp add: phase_inv_def)
  ultimately show ?thesis unfolding legacy_ok_def by blast
qed

lemma unique_base_model: "set unique_base \<subseteq> set model_items" "set unique_base \<inter> set (late_columns Mysql) = {}"
  by (simp_all add: unique_base_def model_items_def model_tables_def late_columns_def)

lemma late_added:
  "set (late_columns dialect) \<subseteq>
     added (platform_full dialect) \<union> (if dialect = Sqlite then added health_full else {}) \<union> added late_full"
  by (auto simp: late_columns_def full_defs added_def)

lemma startup_complete:
  assumes "legacy_ok dialect s"
  shows "\<exists>s'. startup_schema (\<lambda>_. True) dialect s = (True, s') \<and> schema_current dialect s'"
proof -
  let ?s0 = "create_all dialect s"
  let ?T = "\<lambda>_. True"
  note tb = startup_tables [THEN model_tables_dom, of dialect s]
  obtain s1 where s1: "migrate_edge_platform_schema ?T dialect ?s0 = (True, s1)"
      "schema_items s1 = schema_items ?s0 \<union> added (platform_full dialect)" "dom s1 = dom ?s0"
    using platform_phase(3) [of ?s0 dialect] tb by (auto simp: same_tables_def)
  have base1: "set unique_base \<subseteq> schema_items s1" if "dialect = Mysql"
    using unique_base_model legacy_base [OF assms] that s1(2) by blast
  obtain s2 where s2: "migrate_mysql_active_uniqueness ?T dialect s1 = (True, s2)" "dom s2 = dom s1"
      "schema_items s2 = (if dialect = Mysql then (schema_items s1 - {Idx lease_table legacy_index}) \<union> added unique_full
                          else schema_items s1)"
  proof (cases "dialect = Mysql")
    case True
    then show ?thesis using that unique_phase(3) [of s1 dialect] base1 tb s1(3) by (auto simp: same_tables_def)
  next
    case False
    then show ?thesis using that by (simp add: migrate_mysql_active_uniqueness_def)
  qed
  have base2: "Col ''device_sessions'' ''platform'' \<in> schema_items s2"
  proof -
    have "Col ''device_sessions'' ''platform'' \<in> set model_items"
      by (simp add: model_items_def model_tables_def)
    moreover have "Col ''device_sessions'' ''platform'' \<notin> set (late_columns dialect)"
      by (simp add: late_columns_def edge_health_columns_def)
    ultimately show ?thesis using legacy_base [OF assms] s1(2) s2(3) by auto
  qed
  have nb2: "\<not> (supported_check \<in> schema_items s2 \<and> macos_check \<in> schema_items s2)" if "dialect = Mysql"
    using create_all_checks [of s] assms that s1(2) s2(3) by (auto simp: full_defs added_def)
  obtain s3 where s3: "migrate_mysql_device_platform_constraint ?T dialect s2 = (True, s3)" "dom s3 = dom s2"
      "schema_items s3 = (if dialect = Mysql then (schema_items s2 - {macos_check}) \<union> added device_full else schema_items s2)"
  proof (cases "dialect = Mysql")
    case True
    then show ?thesis
      using that device_phase(3) [of s2 dialect] base2 nb2 tb s1(3) s2(2) by (auto simp: same_tables_def)
  next
    case False
    then show ?thesis using that by (simp add: migrate_mysql_device_platform_constraint_def)
  qed
  obtain s4 where s4: "migrate_edge_health_schema ?T dialect s3 = (True, s4)" "dom s4 = dom s3"
      "schema_items s4 = schema_items s3 \<union> (if dialect = Sqlite then added health_full else {})"
    using health_phase(3) [of s3 dialect] tb s1(3) s2(2) s3(2) by (auto simp: same_tables_def)
  obtain s5 where s5: "run_migration ?T (late_columns_statements s4) s4 = (True, s5)" "dom s5 = dom s4"
      "schema_items s5 = schema_items s4 \<union> added late_full"
    using late_phase(3) [of s4] tb s1(3) s2(2) s3(2) s4(2) by (auto simp: same_tables_def)
  have run: "startup_schema ?T dialect s = (True, s5)"
    by (simp add: startup_schema_def and_then_def s1(1) s2(1) s3(1) s4(1) s5(1))
  have cols: "i \<in> schema_items s5" if "i \<in> set model_items" for i
  proof (cases "i \<in> set (late_columns dialect)")
    case True
    have "i \<noteq> Idx lease_table legacy_index \<and> i \<noteq> macos_check" using that by (auto simp: model_items_def)
    then show ?thesis
      using True late_added [of dialect] s1(2) s2(3) s3(3) s4(3) s5(3) by (auto split: if_splits)
  next
    case False
    have "i \<noteq> Idx lease_table legacy_index \<and> i \<noteq> macos_check" using that by (auto simp: model_items_def)
    then show ?thesis
      using legacy_base [OF assms that False] s1(2) s2(3) s3(3) s4(3) s5(3) by (auto split: if_splits)
  qed
  have fresh: "Idx lease_table legacy_index \<notin> added unique_full \<union> added device_full \<union> added late_full"
      "macos_check \<notin> added unique_full \<union> added device_full \<union> added late_full \<union> added (platform_full dialect)"
      "Idx lease_table legacy_index \<notin> added (platform_full dialect)" "macos_check \<notin> added (platform_full dialect)"
    by (auto simp: full_defs added_def)
  have "schema_current dialect s5"
    unfolding schema_current_def
  proof (intro conjI impI)
    show "fst ` set model_tables \<subseteq> dom s5"
      using model_tables_dom s1(3) s2(2) s3(2) s4(2) s5(2) by blast
    show "set model_items \<subseteq> schema_items s5" using cols by blast
    assume m: "dialect = Mysql"
    have e: "schema_items s5 = ((schema_items ?s0 \<union> added (platform_full Mysql)) - {Idx lease_table legacy_index} \<union>
        added unique_full - {macos_check}) \<union> added device_full \<union> added late_full"
      using m s1(2) s2(3) s3(3) s4(3) s5(3) by simp
    have a: "added (platform_full Mysql @ unique_full @ device_full) =
        added (platform_full Mysql) \<union> added unique_full \<union> added device_full"
      by (simp add: added_def Un_assoc)
    show "added (platform_full Mysql @ unique_full @ device_full) \<subseteq> schema_items s5"
      unfolding a e using fresh m by blast
    show "Idx lease_table legacy_index \<notin> schema_items s5" unfolding e using fresh by blast
    show "macos_check \<notin> schema_items s5" unfolding e using fresh by blast
  qed
  then show ?thesis using run by blast
qed

lemma startup_forced:
  assumes "fst (startup_schema rows_ok dialect s)"
  shows "startup_schema (\<lambda>_. True) dialect s = startup_schema rows_ok dialect s"
proof -
  let ?r0 = "migrate_edge_platform_schema rows_ok dialect (create_all dialect s)"
  let ?r1 = "and_then (migrate_mysql_active_uniqueness rows_ok dialect) ?r0"
  let ?r2 = "and_then (migrate_mysql_device_platform_constraint rows_ok dialect) ?r1"
  let ?r3 = "and_then (migrate_edge_health_schema rows_ok dialect) ?r2"
  note tb = startup_tables [THEN model_tables_dom, of dialect s]
  have i0: "phase_inv dialect (create_all dialect s) (snd ?r0)" using tb by (intro platform_phase(1))
  have i1: "phase_inv dialect (create_all dialect s) (snd ?r1)" using tb by (intro and_then_phase [OF i0] unique_phase(1)) auto
  have i2: "phase_inv dialect (create_all dialect s) (snd ?r2)" using tb by (intro and_then_phase [OF i1] device_phase(1)) auto
  have i3: "phase_inv dialect (create_all dialect s) (snd ?r3)" using tb by (intro and_then_phase [OF i2] health_phase(1)) auto
  have d: "dom (snd ?r0) = dom (create_all dialect s)" "dom (snd ?r1) = dom (create_all dialect s)"
      "dom (snd ?r2) = dom (create_all dialect s)" "dom (snd ?r3) = dom (create_all dialect s)"
    using i0 i1 i2 i3 by (simp_all add: phase_inv_def same_tables_def)
  show ?thesis
    using assms unfolding startup_schema_def
    by (intro and_then_forced platform_phase(2) unique_phase(2) device_phase(2) health_phase(2) late_phase(2))
       (use tb d in \<open>auto dest: and_then_ok\<close>)
qed

text \<open>On an up-to-date schema nothing is left to execute.\<close>

lemma pending_none: "added full \<subseteq> I \<Longrightarrow> pending I full = []"
  by (auto simp: pending_def added_def filter_empty_conv)

lemma full_model_items:
  "added health_full \<subseteq> set model_items" "added late_full \<subseteq> set model_items"
  "dialect \<noteq> Mysql \<Longrightarrow> added (platform_full dialect) \<subseteq> set model_items"
  by (simp_all add: full_defs added_def model_items_def model_tables_def)

lemma startup_fix:
  assumes "schema_current dialect s"
  shows "startup_schema rows_ok dialect s = (True, s)"
proof -
  have "fst ` set model_tables \<subseteq> dom s" using assms by (simp add: schema_current_def)
  note tb = startup_tables [THEN subsetD [OF this]]
  have c: "create_all dialect s = s"
  proof
    fix t
    show "create_all dialect s t = s t"
    proof (cases "s t")
      case None
      then have "t \<notin> fst ` set model_tables" using \<open>fst ` set model_tables \<subseteq> dom s\<close> by auto
      then show ?thesis using None by (simp add: create_all_def map_of_eq_None_iff)
    qed (simp add: create_all_def)
  qed
  obtain e r l en h dv u where t: "s ''edge_nodes'' = Some e" "s ''node_registration_requests'' = Some r"
      "s lease_table = Some l" "s ''node_enrollments'' = Some en" "s ''local_history_entries'' = Some h"
      "s ''device_sessions'' = Some dv" "s ''users'' = Some u"
    using tb by auto
  have items: "set model_items \<subseteq> schema_items s" using assms by (simp add: schema_current_def)
  have my: "added (platform_full Mysql) \<subseteq> schema_items s" "added unique_full \<subseteq> schema_items s"
      "supported_check \<in> schema_items s" "Idx lease_table legacy_index \<notin> schema_items s" if "dialect = Mysql"
    using assms that by (auto simp: schema_current_def added_def device_full_def)
  have p: "added (platform_full dialect) \<subseteq> schema_items s"
    using my(1) full_model_items(3) [of dialect] items by (cases "dialect = Mysql") auto
  have 1: "migrate_edge_platform_schema rows_ok dialect s = (True, s)"
    by (simp add: migrate_edge_platform_schema_def run_migration_def platform_pending [where s = s, OF t(1,2)] pending_none p)
  have 2: "migrate_mysql_active_uniqueness rows_ok dialect s = (True, s)"
    using my by (simp add: migrate_mysql_active_uniqueness_def run_migration_def lease_pending [where s = s, OF t(3,4,2,5)] pending_none)
  have 3: "migrate_mysql_device_platform_constraint rows_ok dialect s = (True, s)"
    using my by (simp add: migrate_mysql_device_platform_constraint_def run_migration_def device_pending [where s = s, OF t(6)])
  have 4: "migrate_edge_health_schema rows_ok dialect s = (True, s)"
    using full_model_items(1) items by (simp add: health_pending [where s = s, OF t(1)] pending_none)
  have 5: "run_migration rows_ok (late_columns_statements s) s = (True, s)"
    using full_model_items(2) items by (simp add: run_migration_def late_pending [where s = s, OF t(3,7)] pending_none)
  show ?thesis by (simp add: startup_schema_def and_then_def c 1 2 3 4 5)
qed


definition demo_schema :: schema where
  "demo_schema =
     [lease_table \<mapsto>
        \<lparr>ti_columns = [''id'', ''store_id'', ''owner_user_id'', ''device_id'', ''status'', ''created_at'', ''expires_at'',
                       ''disconnected_at''],
         ti_indexes = [legacy_index], ti_checks = []\<rparr>,
      ''device_sessions'' \<mapsto>
        \<lparr>ti_columns = [''id'', ''user_id'', ''device_id'', ''device_name'', ''platform'', ''refresh_token_hash'',
                       ''token_generation'', ''created_at'', ''updated_at'', ''last_seen_at'', ''expires_at'', ''revoked_at''],
         ti_indexes = [], ti_checks = [''ck_device_sessions_platform_macos'']\<rparr>]"


subsection \<open>A lease table without devices\<close>

text \<open>\<open>migrate_mysql_active_uniqueness\<close> runs before \<open>create_app\<close> adds \<open>device_id\<close>, and its third
  generated column refers to it.\<close>

definition lacks_device :: "schema \<Rightarrow> bool" where
  "lacks_device s \<longleftrightarrow>
     (case s lease_table of
        None \<Rightarrow> False
      | Some ti \<Rightarrow> ''device_id'' \<notin> set (ti_columns ti) \<and> ''active_device_id'' \<notin> set (ti_columns ti))"

lemma lacks_device_items:
  "lacks_device s \<longleftrightarrow> lease_table \<in> dom s \<and> Col lease_table ''device_id'' \<notin> schema_items s \<and>
     Col lease_table ''active_device_id'' \<notin> schema_items s"
  by (cases "s lease_table") (auto simp: lacks_device_def schema_items_def)

lemma plan_effect_upper: "plan_effect sts I \<subseteq> I \<union> added sts"
proof (induction sts arbitrary: I)
  case (Cons st sts)
  have "plan_effect sts (ddl_effect st I) \<subseteq> ddl_effect st I \<union> added sts" by (rule Cons.IH)
  then show ?case by (auto simp: plan_effect_def added_def ddl_effect_def)
qed (simp add: plan_effect_def added_def)

lemma run_ddl_upper:
  "schema_items (snd (run_ddl rows_ok sts s)) \<subseteq> schema_items s \<union> added sts \<and> same_tables s (snd (run_ddl rows_ok sts s))"
proof -
  obtain n where n: "schema_items (snd (run_ddl rows_ok sts s)) = plan_effect (take n sts) (schema_items s)"
      "same_tables s (snd (run_ddl rows_ok sts s))"
    using run_ddl_prefix by blast
  have "added (take n sts) \<subseteq> added sts" by (auto simp: added_def dest!: in_set_takeD)
  then show ?thesis using n plan_effect_upper [of "take n sts" "schema_items s"] by blast
qed

lemma alter_table_needs: "alter_table st ti \<noteq> None \<Longrightarrow> s (ddl_table st) = Some ti \<Longrightarrow> set (ddl_needs st) \<subseteq> schema_items s"
  by (cases st) (auto simp: schema_items_def split: if_splits)

lemma run_ddl_needs:
  "fst (run_ddl rows_ok sts s) \<Longrightarrow> st \<in> set sts \<Longrightarrow> set (ddl_needs st) \<subseteq> schema_items s \<union> added sts"
proof (induction sts arbitrary: s)
  case (Cons x sts)
  obtain s1 where s1: "exec_ddl rows_ok x s = Some s1" and r: "fst (run_ddl rows_ok sts s1)"
    using Cons.prems(1) by (auto split: option.splits)
  show ?case
  proof (cases "st = x")
    case True
    then have "set (ddl_needs st) \<subseteq> schema_items s"
      using s1 alter_table_needs [of x _ s] by (auto simp: exec_ddl_def split: option.splits if_splits)
    then show ?thesis by auto
  next
    case False
    then have "set (ddl_needs st) \<subseteq> schema_items s1 \<union> added sts" using Cons.IH [OF r] Cons.prems(2) by auto
    then show ?thesis using exec_ddl_effect [OF s1] by (auto simp: ddl_effect_def added_def)
  qed
qed simp

lemma run_ddl_added:
  "i \<in> schema_items (snd (run_ddl rows_ok sts s)) \<Longrightarrow>
   i \<in> schema_items s \<or> (\<exists>st \<in> set sts. i \<in> set (ddl_adds st) \<and> set (ddl_needs st) \<subseteq> schema_items s \<union> added sts)"
proof (induction sts arbitrary: s)
  case (Cons x sts)
  show ?case
  proof (cases "exec_ddl rows_ok x s")
    case None
    then show ?thesis using Cons.prems by simp
  next
    case (Some s1)
    note e = exec_ddl_effect [OF Some]
    have x: "set (ddl_needs x) \<subseteq> schema_items s"
      using Some alter_table_needs [of x _ s] by (auto simp: exec_ddl_def split: option.splits if_splits)
    have "i \<in> schema_items s1 \<or> (\<exists>st \<in> set sts. i \<in> set (ddl_adds st) \<and> set (ddl_needs st) \<subseteq> schema_items s1 \<union> added sts)"
      using Cons.IH Cons.prems Some by simp
    then show ?thesis using e x by (auto simp: ddl_effect_def added_def)
  qed
qed simp

lemma active_device_unique:
  "st \<in> set unique_full \<Longrightarrow> Col lease_table ''active_device_id'' \<in> set (ddl_adds st) \<Longrightarrow>
   st = Add_generated lease_table ''active_device_id'' ''VARCHAR(100)'' (Case_eq ''active'' ''device_id'')"
proof -
  have "list_all (\<lambda>st. Col lease_table ''active_device_id'' \<in> set (ddl_adds st) \<longrightarrow>
      st = Add_generated lease_table ''active_device_id'' ''VARCHAR(100)'' (Case_eq ''active'' ''device_id'')) unique_full"
    by (simp add: unique_full_def lease_generated_def mysql_active_uniqueness_def)
  then show "st \<in> set unique_full \<Longrightarrow> Col lease_table ''active_device_id'' \<in> set (ddl_adds st) \<Longrightarrow>
      st = Add_generated lease_table ''active_device_id'' ''VARCHAR(100)'' (Case_eq ''active'' ''device_id'')"
    by (simp add: list_all_iff)
qed

text \<open>C30. On MySQL a database whose lease table has no device_id yet cannot be started: whatever its
  rows, the start fails, and what it leaves behind still has no such column, so that every later start
  fails too, although the column is one the start would add a few statements later.\<close>

theorem legacy_lease_never_starts:
  assumes "lacks_device s"
  shows "\<not> fst (startup_schema rows_ok Mysql s) \<and> lacks_device (snd (startup_schema rows_ok Mysql s))"
proof -
  let ?s0 = "create_all Mysql s"
  let ?r = "migrate_edge_platform_schema rows_ok Mysql ?s0"
  let ?u = "and_then (migrate_mysql_active_uniqueness rows_ok Mysql) ?r"
  note tb = startup_tables [THEN model_tables_dom, of Mysql s]
  have l0: "lacks_device ?s0" using assms by (auto simp: lacks_device_def create_all_def split: option.splits)
  obtain a b where t: "?s0 ''edge_nodes'' = Some a" "?s0 ''node_registration_requests'' = Some b" using tb by auto
  have r: "?r = run_ddl rows_ok (pending (schema_items ?s0) (platform_full Mysql)) ?s0"
    by (simp add: migrate_edge_platform_schema_def run_migration_def platform_pending [where s = ?s0, OF t])
  have "added (pending I full) \<subseteq> added full" for I full by (auto simp: added_def pending_def)
  note up = run_ddl_upper [of rows_ok "pending (schema_items ?s0) (platform_full Mysql)" ?s0] this
  moreover have "Col lease_table ''device_id'' \<notin> added (platform_full Mysql)"
      "Col lease_table ''active_device_id'' \<notin> added (platform_full Mysql)"
    by (simp_all add: full_defs added_def)
  ultimately have l1: "lacks_device (snd ?r)"
    using l0 unfolding lacks_device_items r same_tables_def by blast
  have u: "\<not> fst ?u \<and> lacks_device (snd ?u)"
  proof (cases "fst ?r")
    case False
    then show ?thesis using l1 by (cases ?r) (simp add: and_then_def)
  next
    case True
    define s1 where "s1 = snd ?r"
    have l1': "lacks_device s1" and d1: "dom s1 = dom ?s0"
      using l1 up(1) unfolding s1_def r by (auto simp: same_tables_def)
    obtain w x y z where t1: "s1 lease_table = Some w" "s1 ''node_enrollments'' = Some x"
        "s1 ''node_registration_requests'' = Some y" "s1 ''local_history_entries'' = Some z"
      using tb unfolding d1 [symmetric] by auto
    let ?plan = "(if Idx lease_table legacy_index \<in> schema_items s1 then [Drop_index legacy_index lease_table] else []) @
        pending (schema_items s1) unique_full"
    let ?st = "Add_generated lease_table ''active_device_id'' ''VARCHAR(100)'' (Case_eq ''active'' ''device_id'')"
    have m: "migrate_mysql_active_uniqueness rows_ok Mysql s1 = run_ddl rows_ok ?plan s1"
      by (simp add: migrate_mysql_active_uniqueness_def run_migration_def lease_pending [where s = s1, OF t1])
    have "?st \<in> set unique_full" by (simp add: unique_full_def lease_generated_def)
    then have st: "?st \<in> set ?plan" using l1' by (simp add: pending_def lacks_device_items)
    have "added ?plan \<subseteq> added unique_full" by (auto simp: added_def pending_def)
    moreover have "Col lease_table ''device_id'' \<notin> added unique_full" by (simp add: added_def full_defs)
    ultimately have fresh: "Col lease_table ''device_id'' \<notin> added ?plan" by blast
    have no: "\<not> fst (run_ddl rows_ok ?plan s1)"
      using run_ddl_needs [OF _ st] l1' fresh by (auto simp: lacks_device_items)
    have "lacks_device (snd (run_ddl rows_ok ?plan s1))"
    proof -
      have "lease_table \<in> dom (snd (run_ddl rows_ok ?plan s1))"
        using run_ddl_upper [of rows_ok ?plan s1] l1' by (auto simp: same_tables_def lacks_device_items)
      moreover have "Col lease_table ''device_id'' \<notin> schema_items (snd (run_ddl rows_ok ?plan s1))"
        using run_ddl_upper [of rows_ok ?plan s1] l1' fresh by (auto simp: lacks_device_items)
      moreover have "Col lease_table ''active_device_id'' \<notin> schema_items (snd (run_ddl rows_ok ?plan s1))"
      proof
        assume "Col lease_table ''active_device_id'' \<in> schema_items (snd (run_ddl rows_ok ?plan s1))"
        then obtain st where "st \<in> set ?plan" "Col lease_table ''active_device_id'' \<in> set (ddl_adds st)"
            "set (ddl_needs st) \<subseteq> schema_items s1 \<union> added ?plan"
          using run_ddl_added l1' unfolding lacks_device_items by blast
        moreover from this(1,2) have "st = ?st"
          by (auto simp: pending_def split: if_splits intro: active_device_unique)
        ultimately show False using fresh l1' by (simp add: lacks_device_items)
      qed
      ultimately show ?thesis by (simp add: lacks_device_items)
    qed
    then show ?thesis using True no m by (cases ?r) (simp add: and_then_def s1_def)
  qed
  then show ?thesis
    by (cases ?u) (simp add: startup_schema_def and_then_def)
qed


theorem legacy_lease_never_starts_witness:
  "\<not> fst (startup_schema (\<lambda>_. True) Mysql
      (demo_schema(lease_table \<mapsto> \<lparr>ti_columns = [''id'', ''store_id'', ''owner_user_id'', ''status'', ''created_at'', ''expires_at''],
                                     ti_indexes = [legacy_index], ti_checks = []\<rparr>))) \<and>
   lacks_device (snd (startup_schema (\<lambda>_. True) Mysql
      (demo_schema(lease_table \<mapsto> \<lparr>ti_columns = [''id'', ''store_id'', ''owner_user_id'', ''status'', ''created_at'', ''expires_at''],
                                     ti_indexes = [legacy_index], ti_checks = []\<rparr>))))"
  by (rule legacy_lease_never_starts) (simp add: lacks_device_def)

section \<open>What the generated columns are for\<close>

text \<open>On SQLite the model declares partial unique indexes; MySQL has none, so the start adds columns that
  are NULL outside the live states and indexes those. \<open>gen_eval\<close> is the value of a generated column;
  a unique index ignores the rows with a NULL among its columns.\<close>

datatype cell = Cell_null | Cell_int int | Cell_str string

type_synonym row = "string \<Rightarrow> cell"

fun gen_eval :: "(string \<Rightarrow> string) \<Rightarrow> gen_expr \<Rightarrow> row \<Rightarrow> cell" where
  "gen_eval sha (Case_in ss c) r = (if r ''status'' \<in> Cell_str ` set ss then r c else Cell_null)"
| "gen_eval sha (Case_eq s c) r = (if r ''status'' = Cell_str s then r c else Cell_null)"
| "gen_eval sha (Unhex_sha2 c) r = (case r c of Cell_str u \<Rightarrow> Cell_str (sha u) | _ \<Rightarrow> Cell_null)"

definition index_key :: "(string \<Rightarrow> string) \<Rightarrow> (string \<times> gen_expr) list \<Rightarrow> string list \<Rightarrow> row \<Rightarrow> cell list" where
  "index_key sha gens cs r = map (\<lambda>c. case map_of gens c of Some e \<Rightarrow> gen_eval sha e r | None \<Rightarrow> r c) cs"

definition unique_index_ok :: "cell list list \<Rightarrow> bool" where
  "unique_index_ok ks \<longleftrightarrow> distinct (filter (\<lambda>k. Cell_null \<notin> set k) ks)"

definition opt_cell :: "('a \<Rightarrow> cell) \<Rightarrow> 'a option \<Rightarrow> cell" where
  "opt_cell f x = (case x of None \<Rightarrow> Cell_null | Some y \<Rightarrow> f y)"

definition lease_row :: "store_lease \<Rightarrow> row" where
  "lease_row l = (\<lambda>_. Cell_null)
     (''id'' := Cell_str (ls_id l), ''store_id'' := Cell_int (ls_store_id l), ''owner_user_id'' := Cell_int (ls_owner_user_id l),
      ''device_id'' := opt_cell Cell_str (ls_device_id l), ''status'' := Cell_str (ls_status l))"

definition enrollment_row :: "node_enrollment \<Rightarrow> row" where
  "enrollment_row e = (\<lambda>_. Cell_null)
     (''id'' := Cell_str (en_id e), ''edge_node_id'' := Cell_int (en_edge_node_id e), ''status'' := Cell_str (en_status e))"

definition registration_row :: "registration_request \<Rightarrow> row" where
  "registration_row r = (\<lambda>_. Cell_null)
     (''id'' := Cell_str (rg_id r), ''machine_fingerprint'' := Cell_str (rg_machine_fingerprint r),
      ''public_key_fingerprint'' := Cell_str (rg_public_key_fingerprint r), ''status'' := Cell_str (rg_status r))"

definition lease_keys :: "(string \<Rightarrow> string) \<Rightarrow> store_lease list \<Rightarrow> cell list list" where
  "lease_keys sha ls =
     map (index_key sha (map (\<lambda>(c, ty, e). (c, e)) lease_generated)
            [''active_store_id'', ''active_owner_user_id'', ''active_device_id'']) (map lease_row ls)"

text \<open>The keys of the indexes of \<open>mysql_active_uniqueness\<close> with the name \<open>n\<close>.\<close>

definition uniqueness_keys :: "(string \<Rightarrow> string) \<Rightarrow> string \<Rightarrow> row list \<Rightarrow> cell list list" where
  "uniqueness_keys sha n rs =
     concat (map (\<lambda>(t, c, ty, e, m, cs). if m = n then map (index_key sha [(c, e)] cs) rs else []) mysql_active_uniqueness)"

lemma distinct_keys:
  assumes "unique_on i xs"
  shows "distinct (filter P (map k xs)) \<longleftrightarrow> (\<forall>x \<in> set xs. \<forall>y \<in> set xs. P (k x) \<and> k x = k y \<longrightarrow> i x = i y)"
  using assms
proof (induction xs)
  case (Cons a xs)
  then have IH: "distinct (filter P (map k xs)) \<longleftrightarrow> (\<forall>x \<in> set xs. \<forall>y \<in> set xs. P (k x) \<and> k x = k y \<longrightarrow> i x = i y)"
      and a: "i a \<notin> i ` set xs"
    by (auto simp: unique_on_def)
  show ?case
  proof (cases "P (k a) \<and> (\<exists>y \<in> set xs. k y = k a)")
    case True
    then obtain y where "y \<in> set xs" "k y = k a" "P (k a)" by blast
    then have "k a \<in> k ` set xs" by (metis imageI)
    then have "\<not> distinct (filter P (map k (a # xs)))" using \<open>P (k a)\<close> by simp
    moreover have "i a \<noteq> i y" using a \<open>y \<in> set xs\<close> by auto
    ultimately show ?thesis using \<open>y \<in> set xs\<close> \<open>k y = k a\<close> \<open>P (k a)\<close> by (metis list.set_intros(1,2))
  next
    case False
    then have f: "\<forall>y \<in> set xs. \<not> (P (k a) \<and> k a = k y)" "\<forall>y \<in> set xs. \<not> (P (k y) \<and> k y = k a)"
      by metis+
    then have "distinct (filter P (map k (a # xs))) \<longleftrightarrow> distinct (filter P (map k xs))" by auto
    also have "\<dots> \<longleftrightarrow> (\<forall>x \<in> set (a # xs). \<forall>y \<in> set (a # xs). P (k x) \<and> k x = k y \<longrightarrow> i x = i y)"
      unfolding IH using f by (simp add: ball_Un) blast
    finally show ?thesis .
  qed
qed simp

lemma lease_key:
  "lease_keys sha ls =
     map (\<lambda>l. if lease_active l then [Cell_int (ls_store_id l), Cell_int (ls_owner_user_id l), opt_cell Cell_str (ls_device_id l)]
              else [Cell_null, Cell_null, Cell_null]) ls"
  by (simp add: lease_keys_def lease_generated_def index_key_def lease_row_def lease_active_def)

lemma lease_conflict_key:
  "lease_conflict a b \<longleftrightarrow>
     (let k = (\<lambda>l. if lease_active l then [Cell_int (ls_store_id l), Cell_int (ls_owner_user_id l), opt_cell Cell_str (ls_device_id l)]
              else [Cell_null, Cell_null, Cell_null])
      in Cell_null \<notin> set (k a) \<and> k a = k b)"
  by (cases "ls_device_id a"; cases "ls_device_id b") (auto simp: lease_conflict_def opt_cell_def)

lemma enrollment_key:
  "uniqueness_keys sha ''uq_mysql_active_node_enrollment'' (map enrollment_row es) =
     map (\<lambda>e. [if enrollment_live e then Cell_int (en_edge_node_id e) else Cell_null]) es"
  by (simp add: uniqueness_keys_def mysql_active_uniqueness_def index_key_def enrollment_row_def enrollment_states_def
      enrollment_live_def)

lemma registration_keys:
  "uniqueness_keys sha ''uq_mysql_active_node_registration_machine'' (map registration_row rs) =
     map (\<lambda>r. [if registration_live r then Cell_str (rg_machine_fingerprint r) else Cell_null]) rs"
  "uniqueness_keys sha ''uq_mysql_active_node_registration_key'' (map registration_row rs) =
     map (\<lambda>r. [if registration_live r then Cell_str (rg_public_key_fingerprint r) else Cell_null]) rs"
  by (simp_all add: uniqueness_keys_def mysql_active_uniqueness_def index_key_def registration_row_def
      registration_states_def registration_live_def)




end
