(* ===== verification/Iso_Time.thy ===== *)
theory Iso_Time
  imports Prelude
begin

text \<open>
  \<open>datetime.isoformat()\<close> for times in UTC, as responses, the audit log and the migration print them. An
  instant is the number of microseconds since 1970; \<open>ord2ymd\<close> is the algorithm of Python's
  \<open>datetime\<close> from the day number to year, month and day, \<open>ymd2ord\<close> its inverse. Python raises
  outside the years 1 to 9999 (\<open>in_range\<close>). The lemmas show that the text determines the instant.
\<close>

section \<open>Calendar\<close>

definition is_leap :: "int \<Rightarrow> bool" where
  "is_leap y \<longleftrightarrow> y mod 4 = 0 \<and> (y mod 100 \<noteq> 0 \<or> y mod 400 = 0)"

definition days_before_year :: "int \<Rightarrow> int" where
  "days_before_year y = (let p = y - 1 in p * 365 + p div 4 - p div 100 + p div 400)"

definition days_in_month :: "bool \<Rightarrow> int \<Rightarrow> int" where
  "days_in_month leap m =
     (if m = 2 then (if leap then 29 else 28) else if m \<in> {4, 6, 9, 11} then 30 else 31)"

definition days_before_month :: "bool \<Rightarrow> int \<Rightarrow> int" where
  "days_before_month leap m =
     (let k = ([0, 31, 59, 90, 120, 151, 181, 212, 243, 273, 304, 334] :: int list) ! nat (m - 1)
      in if 2 < m \<and> leap then k + 1 else k)"

definition ymd2ord :: "int \<times> int \<times> int \<Rightarrow> int" where
  "ymd2ord ymd =
     (case ymd of (y, m, d) \<Rightarrow> days_before_year y + days_before_month (is_leap y) m + d)"

text \<open>The day \<open>n\<close> of a year, counted from 0, as month and day.\<close>

definition month_day :: "bool \<Rightarrow> int \<Rightarrow> int \<times> int" where
  "month_day leap n =
     (let m = (n + 50) div 32;
          before = days_before_month leap m
      in if n < before then (m - 1, n - (before - days_in_month leap (m - 1)) + 1)
         else (m, n - before + 1))"

definition ord2ymd :: "int \<Rightarrow> int \<times> int \<times> int" where
  "ord2ymd ordinal =
     (let n = ordinal - 1;
          n400 = n div 146097; n = n mod 146097;
          n100 = n div 36524; n = n mod 36524;
          n4 = n div 1461; n = n mod 1461;
          n1 = n div 365; n = n mod 365;
          year = n400 * 400 + 1 + n100 * 100 + n4 * 4 + n1
      in if n1 = 4 \<or> n100 = 4 then (year - 1, 12, 31)
         else (year, month_day (n1 = 3 \<and> (n4 \<noteq> 24 \<or> n100 = 3)) n))"

lemma month_day_sum:
  assumes "0 \<le> n" and "n < 365"
  shows "case month_day leap n of (m, d) \<Rightarrow>
           days_before_month leap m + d = n + 1 \<and> 1 \<le> m \<and> m \<le> 12 \<and> 1 \<le> d \<and> d \<le> 31"
proof -
  define m where "m = (n + 50) div 32"
  have b: "32 * m \<le> n + 50" "n + 50 < 32 * m + 32" by (simp_all add: m_def)
  then have "m \<in> {1..12}" using assms by simp
  then have "m = 1 \<or> m = 2 \<or> m = 3 \<or> m = 4 \<or> m = 5 \<or> m = 6 \<or> m = 7 \<or> m = 8 \<or> m = 9 \<or> m = 10 \<or> m = 11 \<or> m = 12"
    unfolding atLeastAtMost_iff by presburger
  then show ?thesis
    using assms b unfolding month_day_def m_def [symmetric] Let_def
    by (elim disjE; cases leap) (simp_all add: days_before_month_def days_in_month_def)
qed

text \<open>The days before a year and its leap flag, from the four counts of \<open>ord2ymd\<close>.\<close>

lemma div_eqI: "n = k * q + r \<Longrightarrow> 0 \<le> r \<Longrightarrow> r < k \<Longrightarrow> n div k = (q :: int)"
  by simp

lemma mod_eqI: "n = k * q + r \<Longrightarrow> 0 \<le> r \<Longrightarrow> r < k \<Longrightarrow> n mod k = (r :: int)"
  by simp

lemma year_counts:
  assumes "0 \<le> b" "b \<le> 3" "0 \<le> c" "c \<le> 24" "0 \<le> e" "e \<le> 3"
  shows "days_before_year (400 * a + 100 * b + 4 * c + e + 1) = 146097 * a + 36524 * b + 1461 * c + 365 * e"
    and "is_leap (400 * a + 100 * b + 4 * c + e + 1) \<longleftrightarrow> e = 3 \<and> (c \<noteq> 24 \<or> b = 3)"
proof -
  let ?p = "400 * a + 100 * b + 4 * c + e"
  have "?p div 4 = 100 * a + 25 * b + c" by (rule div_eqI [of _ _ _ e]) (use assms in auto)
  moreover have "?p div 100 = 4 * a + b" by (rule div_eqI [of _ _ _ "4 * c + e"]) (use assms in auto)
  moreover have "?p div 400 = a" by (rule div_eqI [of _ _ _ "100 * b + 4 * c + e"]) (use assms in auto)
  ultimately show "days_before_year (?p + 1) = 146097 * a + 36524 * b + 1461 * c + 365 * e"
    by (simp add: days_before_year_def)
  have 4: "(?p + 1) mod 4 = (if e = 3 then 0 else e + 1)"
    by (rule mod_eqI [of _ _ "100 * a + 25 * b + c + (if e = 3 then 1 else 0)"]) (use assms in auto)
  have 100: "(?p + 1) mod 100 = (if e = 3 \<and> c = 24 then 0 else 4 * c + e + 1)"
    by (rule mod_eqI [of _ _ "4 * a + b + (if e = 3 \<and> c = 24 then 1 else 0)"]) (use assms in auto)
  have 400: "(?p + 1) mod 400 = (if e = 3 \<and> c = 24 \<and> b = 3 then 0 else 100 * b + 4 * c + e + 1)"
    by (rule mod_eqI [of _ _ "a + (if e = 3 \<and> c = 24 \<and> b = 3 then 1 else 0)"]) (use assms in auto)
  show "is_leap (?p + 1) \<longleftrightarrow> e = 3 \<and> (c \<noteq> 24 \<or> b = 3)"
    unfolding is_leap_def 4 100 400 using assms by auto
qed

lemma ymd2ord_ord2ymd: "ymd2ord (ord2ymd n) = n"
proof -
  define a where "a = (n - 1) div 146097"
  define r1 where "r1 = (n - 1) mod 146097"
  define b where "b = r1 div 36524"
  define r2 where "r2 = r1 mod 36524"
  define c where "c = r2 div 1461"
  define r3 where "r3 = r2 mod 1461"
  define e where "e = r3 div 365"
  define r4 where "r4 = r3 mod 365"
  note defs = a_def r1_def b_def r2_def c_def r3_def e_def r4_def
  have n: "n = 146097 * a + 36524 * b + 1461 * c + 365 * e + r4 + 1"
    unfolding defs by (simp add: algebra_simps)
  have bounds: "0 \<le> r1" "r1 < 146097" "0 \<le> b" "b \<le> 4" "0 \<le> r2" "r2 < 36524" "0 \<le> c" "c \<le> 24" "0 \<le> r3" "r3 < 1461"
      "0 \<le> e" "e \<le> 4" "0 \<le> r4" "r4 < 365"
    unfolding defs by simp_all
  have sums: "r1 = 36524 * b + r2" "r2 = 1461 * c + r3" "r3 = 365 * e + r4"
    by (simp_all add: b_def r2_def c_def r3_def e_def r4_def)
  have e4: "e = 4 \<Longrightarrow> r4 = 0 \<and> c \<le> 23" using sums(2,3) bounds by linarith
  have b4: "b = 4 \<Longrightarrow> c = 0 \<and> e = 0 \<and> r4 = 0" using sums bounds by linarith
  have o: "ord2ymd n = (if e = 4 \<or> b = 4 then (a * 400 + 1 + b * 100 + c * 4 + e - 1, 12, 31)
      else (a * 400 + 1 + b * 100 + c * 4 + e, month_day (e = 3 \<and> (c \<noteq> 24 \<or> b = 3)) r4))"
    unfolding ord2ymd_def Let_def defs ..
  show ?thesis
  proof (cases "e = 4 \<or> b = 4")
    case True
    then consider "b = 4" "c = 0" "e = 0" "r4 = 0" | "e = 4" "r4 = 0" "b \<le> 3" "c \<le> 23"
      using e4 b4 bounds by (cases "b = 4") auto
    then show ?thesis
    proof cases
      case 1
      then show ?thesis
        using o n year_counts [of 3 24 3 a] by (simp add: ymd2ord_def days_before_month_def algebra_simps)
    next
      case 2
      then show ?thesis
        using o n year_counts [of b c 3 a] bounds(3,7) by (simp add: ymd2ord_def days_before_month_def algebra_simps)
    qed
  next
    case False
    then have lt: "b \<le> 3" "e \<le> 3" using bounds by auto
    let ?y = "a * 400 + 1 + b * 100 + c * 4 + e"
    obtain m d where md: "month_day (e = 3 \<and> (c \<noteq> 24 \<or> b = 3)) r4 = (m, d)" by fastforce
    have s: "days_before_month (e = 3 \<and> (c \<noteq> 24 \<or> b = 3)) m + d = r4 + 1"
      using month_day_sum [OF bounds(13,14), of "e = 3 \<and> (c \<noteq> 24 \<or> b = 3)"] unfolding md by simp
    note y = year_counts [OF bounds(3) lt(1) bounds(7,8,11) lt(2), of a]
    show ?thesis using False o md s y n by (simp add: ymd2ord_def algebra_simps)
  qed
qed

lemma ord2ymd_bounds:
  "case ord2ymd n of (y, m, d) \<Rightarrow> 1 \<le> m \<and> m \<le> 12 \<and> 1 \<le> d \<and> d \<le> 31"
proof -
  define r where "r = (n - 1) mod 146097 mod 36524 mod 1461 mod 365"
  have "0 \<le> r" "r < 365" by (simp_all add: r_def)
  then have "case month_day leap r of (m, d) \<Rightarrow> 1 \<le> m \<and> m \<le> 12 \<and> 1 \<le> d \<and> d \<le> 31" for leap
    using month_day_sum [of r leap] by (simp split: prod.splits)
  then show ?thesis
    unfolding ord2ymd_def Let_def r_def [symmetric] by (simp split: prod.splits)
qed

section \<open>Text\<close>

fun pad :: "nat \<Rightarrow> nat \<Rightarrow> string" where
  "pad 0 n = []"
| "pad (Suc w) n = pad w (n div 10) @ [digit_char (n mod 10)]"

abbreviation usec_per_day :: int where "usec_per_day \<equiv> 86400 * usec_per_sec"

definition day_number :: "instant \<Rightarrow> int" where
  "day_number t = t div usec_per_day + 719163"

definition day_second :: "instant \<Rightarrow> nat" where
  "day_second t = nat (t mod usec_per_day div usec_per_sec)"

definition iso_date :: "instant \<Rightarrow> string" where
  "iso_date t =
     (case ord2ymd (day_number t) of (y, m, d) \<Rightarrow>
        pad 4 (nat y) @ ''-'' @ pad 2 (nat m) @ ''-'' @ pad 2 (nat d))"

definition iso_clock :: "instant \<Rightarrow> string" where
  "iso_clock t =
     (let s = day_second t
      in pad 2 (s div 3600) @ '':'' @ pad 2 (s div 60 mod 60) @ '':'' @ pad 2 (s mod 60))"

definition usec_part :: "instant \<Rightarrow> nat" where
  "usec_part t = nat (t mod usec_per_sec)"

text \<open>\<open>isoformat()\<close> leaves out a fraction of zero, \<open>isoformat(timespec="microseconds")\<close> does not; the
  suffix is given by the caller.\<close>

definition isoformat_usec :: "string \<Rightarrow> instant \<Rightarrow> string" where
  "isoformat_usec suffix t = iso_date t @ ''T'' @ iso_clock t @ ''.'' @ pad 6 (usec_part t) @ suffix"

definition isoformat :: "instant \<Rightarrow> string" where
  "isoformat t =
     iso_date t @ ''T'' @ iso_clock t @
     (if usec_part t = 0 then [] else ''.'' @ pad 6 (usec_part t)) @ ''+00:00''"

definition in_range :: "instant \<Rightarrow> bool" where
  "in_range t \<longleftrightarrow> (case ord2ymd (day_number t) of (y, m, d) \<Rightarrow> 1 \<le> y \<and> y \<le> 9999)"

lemma length_pad [simp]: "length (pad w n) = w"
  by (induction w arbitrary: n) auto

lemma pad_inj: "pad w m = pad w n \<Longrightarrow> m < 10 ^ w \<Longrightarrow> n < 10 ^ w \<Longrightarrow> m = n"
proof (induction w arbitrary: m n)
  case (Suc w)
  have d: "digit_char (m mod 10) = digit_char (n mod 10)" and p: "pad w (m div 10) = pad w (n div 10)"
    using Suc.prems(1) by auto
  have "m mod 10 = n mod 10" using d by (metis digit_val_digit_char mod_less_divisor zero_less_numeral)
  moreover have "m div 10 = n div 10" using Suc.prems(2,3) by (intro Suc.IH [OF p]) auto
  ultimately show ?case by (metis div_mult_mod_eq)
qed simp

lemma iso_date_inj:
  assumes "iso_date t = iso_date u" and "in_range t" and "in_range u"
  shows "day_number t = day_number u"
proof -
  obtain y m d where t: "ord2ymd (day_number t) = (y, m, d)" by (metis prod_cases3)
  obtain y' m' d' where u: "ord2ymd (day_number u) = (y', m', d')" by (metis prod_cases3)
  have b: "1 \<le> m" "m \<le> 12" "1 \<le> d" "d \<le> 31" "1 \<le> m'" "m' \<le> 12" "1 \<le> d'" "d' \<le> 31"
    using ord2ymd_bounds [of "day_number t"] ord2ymd_bounds [of "day_number u"] t u by auto
  have r: "1 \<le> y" "y \<le> 9999" "1 \<le> y'" "y' \<le> 9999" using assms(2,3) t u by (simp_all add: in_range_def)
  have e: "pad 4 (nat y) = pad 4 (nat y')" "pad 2 (nat m) = pad 2 (nat m')" "pad 2 (nat d) = pad 2 (nat d')"
    using assms(1) by (simp_all add: iso_date_def t u)
  have "nat y = nat y'" using r by (intro pad_inj [OF e(1)]) auto
  moreover have "nat m = nat m'" using b by (intro pad_inj [OF e(2)]) auto
  moreover have "nat d = nat d'" using b by (intro pad_inj [OF e(3)]) auto
  ultimately have "ord2ymd (day_number t) = ord2ymd (day_number u)"
    using r b t u by (simp add: eq_nat_nat_iff)
  then show ?thesis by (metis ymd2ord_ord2ymd)
qed

lemma day_second_less: "day_second t < 86400"
proof -
  have "t mod usec_per_day div usec_per_sec < 86400"
    using mult_div_mod_eq [of usec_per_sec "t mod usec_per_day"] pos_mod_bound [of usec_per_day t]
      pos_mod_sign [of usec_per_sec "t mod usec_per_day"] by linarith
  then show ?thesis unfolding day_second_def by linarith
qed

lemma iso_clock_inj:
  assumes "iso_clock t = iso_clock u"
  shows "day_second t = day_second u"
proof -
  define s where "s = day_second t"
  define v where "v = day_second u"
  have lt: "s < 86400" "v < 86400" by (simp_all add: s_def v_def day_second_less)
  have e: "pad 2 (s div 3600) = pad 2 (v div 3600)" "pad 2 (s div 60 mod 60) = pad 2 (v div 60 mod 60)"
      "pad 2 (s mod 60) = pad 2 (v mod 60)"
    using assms by (simp_all add: iso_clock_def Let_def s_def v_def)
  have sixty: "x mod 60 < 10 ^ 2" for x :: nat
    using mod_less_divisor [of 60 x] by simp
  have "s div 3600 = v div 3600"
    by (rule pad_inj [OF e(1)]) (use lt in \<open>simp_all add: less_mult_imp_div_less\<close>)
  moreover have "s div 60 mod 60 = v div 60 mod 60" by (rule pad_inj [OF e(2) sixty sixty])
  moreover have "s mod 60 = v mod 60" by (rule pad_inj [OF e(3) sixty sixty])
  moreover have "x = 60 * (60 * (x div 3600) + x div 60 mod 60) + x mod 60" for x :: nat
  proof -
    have "x div 3600 = x div 60 div 60" by (simp add: div_mult2_eq [symmetric])
    then show ?thesis using mult_div_mod_eq [of 60 x] mult_div_mod_eq [of 60 "x div 60"] by simp
  qed
  ultimately show ?thesis unfolding s_def [symmetric] v_def [symmetric] by metis
qed

lemma instant_parts:
  "t = usec_per_day * (day_number t - 719163) + usec_per_sec * int (day_second t) + t mod usec_per_sec"
proof -
  have m: "t mod usec_per_day mod usec_per_sec = t mod usec_per_sec" by (rule mod_mod_cancel) simp
  have "0 \<le> t mod usec_per_day div usec_per_sec"
    by (simp add: pos_imp_zdiv_nonneg_iff)
  then have "t mod usec_per_day = usec_per_sec * int (day_second t) + t mod usec_per_sec"
    unfolding day_second_def int_nat_eq m [symmetric]
    using mult_div_mod_eq [of usec_per_sec "t mod usec_per_day"] by presburger
  moreover have "t = usec_per_day * (day_number t - 719163) + t mod usec_per_day"
    unfolding day_number_def using mult_div_mod_eq [of usec_per_day t] by presburger
  ultimately show ?thesis by linarith
qed

lemma isoformat_usec_inj:
  assumes "isoformat_usec suffix t = isoformat_usec suffix u" and "in_range t" and "in_range u"
  shows "t = u"
proof -
  have l: "length (iso_date x) = 10" "length (iso_clock x) = 8" for x
    by (simp_all add: iso_date_def iso_clock_def Let_def split: prod.splits)
  have e: "iso_date t = iso_date u" "iso_clock t = iso_clock u" "pad 6 (usec_part t) = pad 6 (usec_part u)"
    using assms(1) by (simp_all add: isoformat_usec_def l)
  have "usec_part t = usec_part u" by (rule pad_inj [OF e(3)]) (simp_all add: usec_part_def)
  then have "t mod usec_per_sec = u mod usec_per_sec" by (simp add: usec_part_def)
  then show ?thesis
    using iso_date_inj [OF e(1) assms(2,3)] iso_clock_inj [OF e(2)] instant_parts [of t] instant_parts [of u] by metis
qed

end
