(* ===== verification/Db_Migration.thy ===== *)
theory Db_Migration
  imports Schema Iso_Time Base64 Json
begin

text \<open>
  The migration of the control plane's data from SQLite to MySQL (\<open>scripts/migrate_sqlite_to_mysql.py\<close>):
  the canonical bytes of a row, the fingerprint of a table, the checks of foreign keys, of active
  uniqueness and of the generated constraints, and \<open>migrate_engines\<close>, which reads the source twice,
  refuses a destination that is not empty, copies, and verifies what the destination then holds.

  The databases are third-party code: the order in which an engine returns rows, what it makes of an
  insert (an exception, or any rows) and of \<open>prepare_target\<close> are arguments, and so are other writers,
  between the two readings of the source and between the copy and the verification. \<open>repr\<close> is
  \<open>float.__repr__\<close> on finite floats, \<open>sha\<close> is SHA-256 in hexadecimal.
\<close>

section \<open>Canonical rows\<close>

datatype sql_value =
    V_null
  | V_bool bool
  | V_int int
  | V_float pyfloat
  | V_text string
  | V_bytes string
  | V_datetime instant "int option"
  | V_date int int int
  | V_time instant
  | V_decimal string

type_synonym sql_row = "(string \<times> sql_value) list"

text \<open>A datetime is its local reading with its offset in microseconds; a naive one counts as UTC.\<close>

definition utc_instant :: "instant \<Rightarrow> int option \<Rightarrow> instant" where
  "utc_instant t off = (case off of None \<Rightarrow> t | Some z \<Rightarrow> t - z)"

definition canonical_value :: "sql_value \<Rightarrow> json" where
  "canonical_value v =
     (case v of
        V_null \<Rightarrow> JNull
      | V_bool b \<Rightarrow> JBool b
      | V_int i \<Rightarrow> JInt i
      | V_float x \<Rightarrow> JFloat x
      | V_text s \<Rightarrow> JStr s
      | V_bytes b \<Rightarrow> JObj [(''bytes'', JStr (b64encode b))]
      | V_datetime t off \<Rightarrow> JObj [(''datetime'', JStr (isoformat_usec ''Z'' (utc_instant t off)))]
      | V_date y m d \<Rightarrow> JObj [(''date'', JStr (pad 4 (nat y) @ ''-'' @ pad 2 (nat m) @ ''-'' @ pad 2 (nat d)))]
      | V_time t \<Rightarrow> JObj [(''time'', JStr (iso_clock t @ ''.'' @ pad 6 (usec_part t)))]
      | V_decimal s \<Rightarrow> JObj [(''decimal'', JStr s)])"

text \<open>\<open>json.dumps(.., sort_keys=True, separators=(",", ":"), ensure_ascii=True, allow_nan=False)\<close> on
  such values: \<open>None\<close> is the \<open>ValueError\<close> for a float that is not finite.\<close>

fun json_atom :: "(rat \<Rightarrow> string) \<Rightarrow> json \<Rightarrow> string option" where
  "json_atom repr (JFloat x) = (case x of Fin q \<Rightarrow> Some (repr q) | _ \<Rightarrow> None)"
| "json_atom repr (JObj [(k, JStr s)]) = Some (CHR ''{'' # json_string k @ CHR '':'' # json_string s @ ''}'')"
| "json_atom repr v = Some (json_scalar v)"

definition member_text :: "(rat \<Rightarrow> string) \<Rightarrow> string \<times> sql_value \<Rightarrow> string option" where
  "member_text repr kv =
     map_option (\<lambda>t. json_string (fst kv) @ CHR '':'' # t) (json_atom repr (canonical_value (snd kv)))"

definition canonical_row_bytes :: "(rat \<Rightarrow> string) \<Rightarrow> sql_row \<Rightarrow> string option" where
  "canonical_row_bytes repr row =
     map_option (\<lambda>ms. CHR ''{'' # join_char (CHR '','') ms @ ''}'') (those (map (member_text repr) (sort_key fst row)))"

text \<open>\<open>len(payload).to_bytes(8, "big")\<close>.\<close>

fun big_endian :: "nat \<Rightarrow> nat \<Rightarrow> string" where
  "big_endian 0 n = []"
| "big_endian (Suc w) n = big_endian w (n div 256) @ [char_of (n mod 256)]"

definition row_frame :: "(rat \<Rightarrow> string) \<Rightarrow> sql_row \<Rightarrow> string option" where
  "row_frame repr row =
     (case canonical_row_bytes repr row of
        None \<Rightarrow> None
      | Some p \<Rightarrow> if length p < 256 ^ 8 then Some (big_endian 8 (length p) @ p) else None)"

definition framed_rows :: "(rat \<Rightarrow> string) \<Rightarrow> sql_row list \<Rightarrow> string option" where
  "framed_rows repr rows = map_option concat (those (map (row_frame repr) rows))"

definition fingerprint :: "(rat \<Rightarrow> string) \<Rightarrow> (string \<Rightarrow> string) \<Rightarrow> sql_row list \<Rightarrow> string option" where
  "fingerprint repr sha rows = map_option sha (framed_rows repr rows)"

section \<open>Databases\<close>

record foreign_key =
  fk_name :: "string option"
  fk_local :: "string list"
  fk_parent :: string
  fk_remote :: "string list"

text \<open>A table of the metadata: its columns with the flag of a computed one, the primary key with the
  flag of an integer column that numbers itself, and its foreign keys. The metadata is the list of its
  tables in the order of their dependencies, \<open>metadata.sorted_tables\<close>.\<close>

record meta_table =
  mt_name :: string
  mt_columns :: "(string \<times> bool) list"
  mt_primary_key :: "(string \<times> bool) list"
  mt_foreign_keys :: "foreign_key list"

record db_table =
  dt_columns :: "string list"
  dt_indexes :: "string list"
  dt_rows :: "sql_row list"

type_synonym database = "(string \<times> db_table) list"

record engine =
  eg_mysql :: bool
  eg_order :: "string list \<Rightarrow> sql_row list \<Rightarrow> sql_row list"
  eg_insert :: "string \<Rightarrow> sql_row list \<Rightarrow> database \<Rightarrow> database option"

datatype mig_error = Migration_error string | Driver_error

definition mt_column_names :: "meta_table \<Rightarrow> string list" where
  "mt_column_names t = map fst (mt_columns t)"

text \<open>\<open>_copy_columns\<close> and \<open>_ordered_rows\<close>: the columns the source has and the model does not compute, and
  the rows on them in the engine's order by the primary key.\<close>

definition copy_columns :: "meta_table \<Rightarrow> db_table \<Rightarrow> string list" where
  "copy_columns t source_table = map fst (filter (\<lambda>(c, computed). c \<in> set (dt_columns source_table) \<and> \<not> computed) (mt_columns t))"

definition select_row :: "string list \<Rightarrow> sql_row \<Rightarrow> sql_row" where
  "select_row cols r = map (\<lambda>c. (c, case map_of r c of None \<Rightarrow> V_null | Some v \<Rightarrow> v)) cols"

definition ordered_rows :: "engine \<Rightarrow> meta_table \<Rightarrow> string list \<Rightarrow> db_table \<Rightarrow> sql_row list" where
  "ordered_rows e t cols tab =
     (let key = filter (\<lambda>c. c \<in> set cols) (map fst (mt_primary_key t));
          rows = map (select_row cols) (dt_rows tab)
      in if key = [] then rows else eg_order e key rows)"

definition destination_nonempty :: "database \<Rightarrow> string list" where
  "destination_nonempty d = sort (map fst (filter (\<lambda>(n, tab). dt_rows tab \<noteq> []) d))"

section \<open>Checks\<close>

definition cell_of :: "sql_row \<Rightarrow> string \<Rightarrow> sql_value" where
  "cell_of r c = (case map_of r c of None \<Rightarrow> V_null | Some v \<Rightarrow> v)"

definition table_rows :: "database \<Rightarrow> string \<Rightarrow> sql_row list" where
  "table_rows d n = (case map_of d n of None \<Rightarrow> [] | Some tab \<Rightarrow> dt_rows tab)"

text \<open>A row is an orphan when its foreign key has no NULL and no parent row matches it.\<close>

definition is_orphan :: "database \<Rightarrow> foreign_key \<Rightarrow> sql_row \<Rightarrow> bool" where
  "is_orphan d fk r \<longleftrightarrow>
     V_null \<notin> set (map (cell_of r) (fk_local fk)) \<and>
     \<not> list_ex (\<lambda>p. map (cell_of p) (fk_remote fk) = map (cell_of r) (fk_local fk)) (table_rows d (fk_parent fk))"

definition check_key :: "meta_table \<Rightarrow> foreign_key \<Rightarrow> string" where
  "check_key t fk =
     mt_name t @ '':'' @ (case fk_name fk of Some n \<Rightarrow> if n = [] then join_char (CHR '','') (fk_local fk) else n
                          | None \<Rightarrow> join_char (CHR '','') (fk_local fk))"

definition foreign_key_orphans :: "database \<Rightarrow> meta_table list \<Rightarrow> (string \<times> nat) list" where
  "foreign_key_orphans d meta =
     dict_of_pairs
       (concat (map (\<lambda>t. map (\<lambda>fk. (check_key t fk, length (filter (is_orphan d fk) (table_rows d (mt_name t)))))
                          (mt_foreign_keys t)) meta))"

definition uniqueness_specs :: "(string \<times> string list \<times> string list) list" where
  "uniqueness_specs =
     [(''node_enrollments'', [''edge_node_id''], enrollment_states),
      (''node_registration_requests'', [''machine_fingerprint''], registration_states),
      (''node_registration_requests'', [''public_key_fingerprint''], registration_states),
      (lease_table, [''store_id'', ''owner_user_id'', ''device_id''], [''active''])]"

text \<open>\<open>GROUP BY keys HAVING count(*) > 1\<close>: the number of groups with more than one row, NULL being a
  value like any other.\<close>

definition duplicate_groups :: "string list \<Rightarrow> string list \<Rightarrow> sql_row list \<Rightarrow> nat" where
  "duplicate_groups keys states rows =
     (let live = map (\<lambda>r. map (cell_of r) keys) (filter (\<lambda>r. cell_of r ''status'' \<in> V_text ` set states) rows)
      in length (filter (\<lambda>k. 1 < count_list live k) (remdups live)))"

definition active_uniqueness_checks :: "database \<Rightarrow> meta_table list \<Rightarrow> (string \<times> nat) list" where
  "active_uniqueness_checks d meta =
     dict_of_pairs
       (map (\<lambda>(n, keys, states). (n @ '':'' @ join_char (CHR '','') keys, duplicate_groups keys states (table_rows d n)))
          (filter (\<lambda>(n, keys, states). n \<in> mt_name ` set meta) uniqueness_specs))"

definition expected_columns :: "(string \<times> string list) list" where
  "expected_columns =
     [(''node_enrollments'', [''active_edge_node_id'']),
      (''node_registration_requests'', [''active_machine_fingerprint'', ''active_public_key_fingerprint'']),
      (lease_table, [''active_store_id'', ''active_owner_user_id'', ''active_device_id'']),
      (''local_history_entries'', [''url_sha256''])]"

definition expected_indexes :: "(string \<times> string list) list" where
  "expected_indexes =
     [(''node_enrollments'', [''uq_mysql_active_node_enrollment'']),
      (''node_registration_requests'', [''uq_mysql_active_node_registration_machine'', ''uq_mysql_active_node_registration_key'']),
      (lease_table, [scoped_index]),
      (''local_history_entries'', [''uq_mysql_local_history_user_url_sha256''])]"

text \<open>\<open>None\<close> when a table is missing: the inspector raises.\<close>

definition generated_constraint_checks :: "bool \<Rightarrow> database \<Rightarrow> (string \<times> bool) list option" where
  "generated_constraint_checks mysql d =
     (if \<not> mysql then Some []
      else if \<not> list_all (\<lambda>(n, xs). n \<in> fst ` set d) expected_columns then None
      else Some (map (\<lambda>(n, xs). (n @ '':generated_columns'',
                        case map_of d n of None \<Rightarrow> False | Some tab \<Rightarrow> set xs \<subseteq> set (dt_columns tab))) expected_columns @
                 map (\<lambda>(n, xs). (n @ '':unique_indexes'',
                        case map_of d n of None \<Rightarrow> False | Some tab \<Rightarrow> set xs \<subseteq> set (dt_indexes tab))) expected_indexes))"

text \<open>\<open>_reset_mysql_auto_increment\<close>: the next number of each table with one integer key that counts,
  one above the largest in use.\<close>

definition int_cells :: "string \<Rightarrow> sql_row list \<Rightarrow> int list" where
  "int_cells c rows = concat (map (\<lambda>r. case cell_of r c of V_int i \<Rightarrow> [i] | _ \<Rightarrow> []) rows)"

definition next_auto_increment :: "string \<Rightarrow> sql_row list \<Rightarrow> int" where
  "next_auto_increment c rows =
     (let m = (case int_cells c rows of [] \<Rightarrow> 0 | i # is \<Rightarrow> foldl max i is) in max 1 (m + 1))"

definition reset_auto_increment :: "bool \<Rightarrow> database \<Rightarrow> meta_table list \<Rightarrow> (string \<times> int) list" where
  "reset_auto_increment mysql d meta =
     (if \<not> mysql then []
      else concat (map (\<lambda>t. case mt_primary_key t of
                              [(c, True)] \<Rightarrow> [(mt_name t, next_auto_increment c (table_rows d (mt_name t)))]
                            | _ \<Rightarrow> []) meta))"

section \<open>The migration\<close>

record table_report =
  tr_name :: string
  tr_source_count :: nat
  tr_source_sha256 :: string
  tr_target_count :: nat
  tr_target_sha256 :: string

record source_report =
  sr_name :: string
  sr_count :: nat
  sr_sha256 :: string

datatype report =
    Dry_run "source_report list"
  | Migrated "table_report list" "(string \<times> nat) list" "(string \<times> nat) list" "(string \<times> bool) list" "(string \<times> int) list"

fun source_reports ::
  "(rat \<Rightarrow> string) \<Rightarrow> (string \<Rightarrow> string) \<Rightarrow> engine \<Rightarrow> database \<Rightarrow> meta_table list \<Rightarrow> source_report list option" where
  "source_reports repr sha e d [] = Some []"
| "source_reports repr sha e d (t # ts) =
     (case map_of d (mt_name t) of
        None \<Rightarrow> None
      | Some tab \<Rightarrow>
          (let rows = ordered_rows e t (copy_columns t tab) tab in
           case (fingerprint repr sha rows, source_reports repr sha e d ts) of
             (Some h, Some rest) \<Rightarrow> Some (\<lparr>sr_name = mt_name t, sr_count = length rows, sr_sha256 = h\<rparr> # rest)
           | _ \<Rightarrow> None))"

definition drop_tables :: "meta_table list \<Rightarrow> database \<Rightarrow> database" where
  "drop_tables meta d = filter (\<lambda>(n, tab). n \<notin> mt_name ` set meta) d"

definition create_tables :: "meta_table list \<Rightarrow> database \<Rightarrow> database" where
  "create_tables meta d =
     d @ map (\<lambda>t. (mt_name t, \<lparr>dt_columns = mt_column_names t, dt_indexes = [], dt_rows = []\<rparr>))
           (filter (\<lambda>t. mt_name t \<notin> fst ` set d) meta)"

text \<open>The one transaction of the inserts; \<open>cols\<close> are those of the source as it was reflected. A driver
  exception rolls all of it back.\<close>

fun copy_tables :: "engine \<Rightarrow> engine \<Rightarrow> database \<Rightarrow> database \<Rightarrow> meta_table list \<Rightarrow> database \<Rightarrow> database option" where
  "copy_tables es et reflected src [] d = Some d"
| "copy_tables es et reflected src (t # ts) d =
     (case (map_of reflected (mt_name t), map_of src (mt_name t)) of
        (Some rt, Some tab) \<Rightarrow>
          (let rows = ordered_rows es t (copy_columns t rt) tab in
           if rows = [] then copy_tables es et reflected src ts d
           else (case eg_insert et (mt_name t) rows d of
                   None \<Rightarrow> None
                 | Some d' \<Rightarrow> copy_tables es et reflected src ts d'))
      | _ \<Rightarrow> None)"

fun verify_tables ::
  "(rat \<Rightarrow> string) \<Rightarrow> (string \<Rightarrow> string) \<Rightarrow> engine \<Rightarrow> database \<Rightarrow> database \<Rightarrow> meta_table list \<Rightarrow> source_report list \<Rightarrow>
   mig_error + table_report list" where
  "verify_tables repr sha e reflected d (t # ts) (s # ss) =
     (case (map_of reflected (mt_name t), map_of d (mt_name t)) of
        (Some rt, Some tab) \<Rightarrow>
          (let rows = ordered_rows e t (copy_columns t rt) tab in
           case fingerprint repr sha rows of
             None \<Rightarrow> Inl Driver_error
           | Some h \<Rightarrow>
               if sr_count s \<noteq> length rows \<or> sr_sha256 s \<noteq> h
               then Inl (Migration_error (''verification failed for table '' @ mt_name t))
               else
                 (case verify_tables repr sha e reflected d ts ss of
                    Inl x \<Rightarrow> Inl x
                  | Inr rs \<Rightarrow>
                      Inr (\<lparr>tr_name = mt_name t, tr_source_count = sr_count s, tr_source_sha256 = sr_sha256 s,
                            tr_target_count = length rows, tr_target_sha256 = h\<rparr> # rs)))
      | _ \<Rightarrow> Inl Driver_error)"
| "verify_tables repr sha e reflected d _ _ = Inr []"

definition verify_target ::
  "(rat \<Rightarrow> string) \<Rightarrow> (string \<Rightarrow> string) \<Rightarrow> engine \<Rightarrow> database \<Rightarrow> meta_table list \<Rightarrow> source_report list \<Rightarrow>
   (string \<times> bool) list \<Rightarrow> (string \<times> int) list \<Rightarrow> database \<Rightarrow> mig_error + report" where
  "verify_target repr sha et reflected meta sources generated auto d =
     (let orphans = foreign_key_orphans d meta; duplicates = active_uniqueness_checks d meta in
      case verify_tables repr sha et reflected d meta sources of
        Inl e \<Rightarrow> Inl e
      | Inr rs \<Rightarrow>
          if list_ex (\<lambda>kv. snd kv \<noteq> 0) orphans then Inl (Migration_error ''foreign-key orphan verification failed'')
          else if list_ex (\<lambda>kv. snd kv \<noteq> 0) duplicates
          then Inl (Migration_error ''critical active uniqueness verification failed'')
          else Inr (Migrated rs orphans duplicates generated auto))"

text \<open>\<open>src1\<close> is the source at the first reading, \<open>src2\<close> at the second; \<open>other\<close> is what other clients of
  the target commit between the copy and the verification. The result is paired with the target.\<close>

definition migrate_engines ::
  "(rat \<Rightarrow> string) \<Rightarrow> (string \<Rightarrow> string) \<Rightarrow> engine \<Rightarrow> engine \<Rightarrow> meta_table list \<Rightarrow> bool \<Rightarrow> bool \<Rightarrow>
   (database \<Rightarrow> database option) \<Rightarrow> (database \<Rightarrow> database) \<Rightarrow> database \<Rightarrow> database \<Rightarrow> database \<Rightarrow>
   (mig_error + report) \<times> database" where
  "migrate_engines repr sha es et meta reset dry_run prepare other src1 src2 tgt =
     (let absent = filter (\<lambda>n. n \<notin> fst ` set src1) (map mt_name meta) in
      if absent \<noteq> [] then (Inl (Migration_error (''source is missing model tables: '' @ join_str '', '' absent)), tgt)
      else if destination_nonempty tgt \<noteq> [] \<and> \<not> reset
      then (Inl (Migration_error ''refusing non-empty destination; explicit safe reset is required''), tgt)
      else
        (case source_reports repr sha es src1 meta of
           None \<Rightarrow> (Inl Driver_error, tgt)
         | Some sources \<Rightarrow>
             if dry_run then (Inr (Dry_run sources), tgt)
             else
               (let created = create_tables meta (if reset then drop_tables meta tgt else tgt) in
                case prepare created of
                  None \<Rightarrow> (Inl Driver_error, created)
                | Some prepared \<Rightarrow>
                    (case copy_tables es et src1 src2 meta prepared of
                       None \<Rightarrow> (Inl Driver_error, prepared)
                     | Some copied \<Rightarrow>
                         (let auto = reset_auto_increment (eg_mysql et) copied meta in
                          case generated_constraint_checks (eg_mysql et) copied of
                            None \<Rightarrow> (Inl Driver_error, copied)
                          | Some generated \<Rightarrow>
                              if \<not> list_all snd generated
                              then (Inl (Migration_error ''MySQL generated constraint verification failed''), copied)
                              else (let final = other copied in
                                    (verify_target repr sha et src1 meta sources generated auto final, final)))))))"

section \<open>The fingerprint determines the rows\<close>

text \<open>What is used of \<open>float.__repr__\<close>: distinct numbers have distinct texts, made of digits, signs, a
  point or an exponent, and not of digits alone.\<close>

definition repr_ok :: "(rat \<Rightarrow> string) \<Rightarrow> bool" where
  "repr_ok repr \<longleftrightarrow>
     inj repr \<and> (\<forall>q. \<forall>c \<in> set (repr q). is_digit c \<or> c \<in> {CHR ''-'', CHR ''+'', dot, CHR ''e''}) \<and>
     (\<forall>q. dot \<in> set (repr q) \<or> CHR ''e'' \<in> set (repr q))"

definition stop :: "string \<Rightarrow> bool" where
  "stop r \<longleftrightarrow> r \<noteq> [] \<and> hd r \<in> {CHR '','', CHR ''}''}"

lemma json_string_prefix:
  assumes "json_string s @ r = json_string t @ q"
  shows "s = t \<and> r = q"
proof -
  have e: "concat (map json_escape s) @ quote_char # r = concat (map json_escape t) @ quote_char # q"
    using assms by (simp add: json_string_def)
  show ?thesis using parse_string_escaped [of s r] parse_string_escaped [of t q] unfolding e by simp
qed

text \<open>The texts without structure: they end where the value ends.\<close>

definition plain :: "string \<Rightarrow> bool" where
  "plain t \<longleftrightarrow> t \<noteq> [] \<and> CHR '','' \<notin> set t \<and> CHR ''}'' \<notin> set t \<and> hd t \<noteq> quote_char \<and> hd t \<noteq> CHR ''{''"

lemma plain_prefix:
  assumes "plain t" and "plain u" and "t @ r = u @ q" and "stop r" and "stop q"
  shows "t = u \<and> r = q"
proof -
  let ?p = "\<lambda>c. c \<noteq> CHR '','' \<and> c \<noteq> CHR ''}''"
  have tw: "takeWhile ?p (x @ y) = x" if "plain x" "stop y" for x y
  proof -
    have "\<forall>c \<in> set x. ?p c" using that(1) by (auto simp: plain_def)
    moreover have "takeWhile ?p y = []" using that(2) by (cases y) (auto simp: stop_def)
    ultimately show ?thesis by (simp add: takeWhile_append2)
  qed
  have "t = u" using tw [OF assms(1,4)] tw [OF assms(2,5)] assms(3) by metis
  then show ?thesis using assms(3) by simp
qed

lemma digits_plain: "s \<noteq> [] \<Longrightarrow> (\<forall>c \<in> set s. is_digit c \<or> c \<in> {CHR ''-'', CHR ''+'', dot, CHR ''e''}) \<Longrightarrow> plain s"
  by (cases s) (auto simp: plain_def is_digit_def char_in_def)

lemma int_str_chars: "c \<in> set (int_str i) \<Longrightarrow> is_digit c \<or> c = CHR ''-''"
  using nat_str_digits [of "nat i"] nat_str_digits [of "nat (- i)"]
  by (auto simp: int_str_def list_all_iff split: if_splits)

lemma int_str_nonempty [simp]: "int_str i \<noteq> []"
  by (simp add: int_str_def)

lemma int_str_inj: "int_str i = int_str j \<Longrightarrow> i = j"
proof -
  have h: "hd (nat_str n) \<noteq> CHR ''-''" for n
    using nat_str_digits [of n] by (cases "nat_str n") (auto simp: is_digit_def char_in_def)
  have h': "CHR ''-'' # x \<noteq> nat_str n" for x n using h [of n] by (metis list.sel(1))
  assume "int_str i = int_str j"
  then show ?thesis
    using h' h' [THEN not_sym]
    by (auto simp: int_str_def split: if_splits dest!: nat_str_inj)
qed

text \<open>The values that have a plain text.\<close>

fun plain_value :: "json \<Rightarrow> bool" where
  "plain_value JNull = True"
| "plain_value (JBool b) = True"
| "plain_value (JInt i) = True"
| "plain_value (JFloat x) = True"
| "plain_value _ = False"

lemma repr_chars: "repr_ok repr \<Longrightarrow> c \<in> set (repr q) \<Longrightarrow> is_digit c \<or> c \<in> {CHR ''-'', CHR ''+'', dot, CHR ''e''}"
  by (auto simp: repr_ok_def)

lemma repr_nonempty: "repr_ok repr \<Longrightarrow> repr q \<noteq> []"
  unfolding repr_ok_def by (metis empty_iff empty_set)

lemma plain_atom:
  assumes "plain_value v" and "json_atom repr v = Some t" and "repr_ok repr"
  shows "plain t"
proof (cases v)
  case (JInt i)
  then show ?thesis using assms(2) int_str_chars [of _ i] by (auto intro!: digits_plain)
next
  case (JFloat x)
  then show ?thesis
    using assms repr_chars [OF assms(3)] repr_nonempty [OF assms(3)]
    by (auto intro!: digits_plain split: pyfloat.splits)
qed (use assms in \<open>auto simp: plain_def split: if_splits\<close>)

lemma repr_not_int: "repr_ok repr \<Longrightarrow> repr q \<noteq> int_str i"
proof
  assume r: "repr_ok repr" and e: "repr q = int_str i"
  have "dot \<in> set (repr q) \<or> CHR ''e'' \<in> set (repr q)" using r by (simp add: repr_ok_def)
  then show False using int_str_chars [of dot i] int_str_chars [of "CHR ''e''" i] unfolding e
    by (auto simp: is_digit_def char_in_def)
qed

text \<open>The literals are told from the numbers by their first letter.\<close>

lemma number_head:
  "s \<noteq> [] \<Longrightarrow> \<forall>c \<in> set s. is_digit c \<or> c \<in> {CHR ''-'', CHR ''+'', dot, CHR ''e''} \<Longrightarrow>
   s \<noteq> ''null'' \<and> s \<noteq> ''true'' \<and> s \<noteq> ''false''"
  by (auto simp: is_digit_def char_in_def)

lemma plain_atom_inj:
  assumes "plain_value v" and "plain_value w" and "json_atom repr v = Some t" and "json_atom repr w = Some t"
    and "repr_ok repr"
  shows "v = w"
proof -
  have ints: "int_str i \<noteq> ''null'' \<and> int_str i \<noteq> ''true'' \<and> int_str i \<noteq> ''false''" for i
    by (rule number_head) (use int_str_chars in auto)
  have reps: "repr q \<noteq> ''null'' \<and> repr q \<noteq> ''true'' \<and> repr q \<noteq> ''false''" for q
    by (rule number_head) (use repr_chars [OF assms(5)] repr_nonempty [OF assms(5)] in auto)
  note ri = repr_not_int [OF assms(5)]
  have inj: "repr a = repr b \<Longrightarrow> a = b" for a b using assms(5) by (auto simp: repr_ok_def inj_def)
  note facts = ints ints [THEN conjunct1, THEN not_sym] reps ri int_str_inj inj
  show ?thesis
    using assms(1-4) facts
    by (cases v; cases w) (auto split: pyfloat.splits if_splits; metis)+
qed


lemma canonical_shape:
  "plain_value (canonical_value v) \<or> (\<exists>s. canonical_value v = JStr s) \<or> (\<exists>k s. canonical_value v = JObj [(k, JStr s)])"
  by (cases v) (simp_all add: canonical_value_def)

lemma json_string_head: "hd (json_string s) = quote_char" "json_string s \<noteq> []"
  by (simp_all add: json_string_def)

text \<open>The text of a value is a prefix code before a comma or a closing brace.\<close>

lemma canonical_prefix:
  assumes "json_atom repr (canonical_value v) = Some t" and "json_atom repr (canonical_value w) = Some u"
    and "t @ r = u @ q" and "stop r" and "stop q" and "repr_ok repr"
  shows "canonical_value v = canonical_value w \<and> r = q"
proof -
  have head: "hd t = hd u" if "t \<noteq> []" "u \<noteq> []" using assms(3) that by (metis hd_append2)
  have str: "hd x = quote_char \<and> x \<noteq> []" if "json_atom repr (JStr s) = Some x" for s x
    using that json_string_head by auto
  have obj: "hd x = CHR ''{'' \<and> x \<noteq> []" if "json_atom repr (JObj [(k, JStr s)]) = Some x" for k s x
    using that by auto
  have pl: "hd x \<noteq> quote_char \<and> hd x \<noteq> CHR ''{'' \<and> x \<noteq> []" if "plain_value j" "json_atom repr j = Some x" for j x
    using plain_atom [OF that assms(6)] by (simp add: plain_def)
  have kind: "hd x = quote_char \<longleftrightarrow> (\<exists>s. j = JStr s)" "hd x = CHR ''{'' \<longleftrightarrow> (\<exists>k s. j = JObj [(k, JStr s)])" "x \<noteq> []"
    if "json_atom repr j = Some x" "plain_value j \<or> (\<exists>s. j = JStr s) \<or> (\<exists>k s. j = JObj [(k, JStr s)])" for j x
  proof -
    have "(hd x = quote_char \<longleftrightarrow> (\<exists>s. j = JStr s)) \<and> (hd x = CHR ''{'' \<longleftrightarrow> (\<exists>k s. j = JObj [(k, JStr s)])) \<and> x \<noteq> []"
      using that(2)
    proof (elim disjE exE)
      assume p: "plain_value j"
      then have "j \<noteq> JStr s" "j \<noteq> JObj ms" for s ms by auto
      then show ?thesis using pl [OF p that(1)] by simp
    next
      fix s assume "j = JStr s"
      then show ?thesis using str [of s x] that(1) by simp
    next
      fix k s assume "j = JObj [(k, JStr s)]"
      then show ?thesis using obj [of k s x] that(1) by simp
    qed
    then show "hd x = quote_char \<longleftrightarrow> (\<exists>s. j = JStr s)" "hd x = CHR ''{'' \<longleftrightarrow> (\<exists>k s. j = JObj [(k, JStr s)])" "x \<noteq> []"
      by blast+
  qed
  note kv = kind [OF assms(1) canonical_shape] and kw = kind [OF assms(2) canonical_shape]
  have ht: "hd t = hd u" using head kv(3) kw(3) by blast
  have i1: "(\<exists>s. canonical_value v = JStr s) \<longleftrightarrow> (\<exists>s. canonical_value w = JStr s)"
    and i2: "(\<exists>k s. canonical_value v = JObj [(k, JStr s)]) \<longleftrightarrow> (\<exists>k s. canonical_value w = JObj [(k, JStr s)])"
    using kv(1,2) kw(1,2) ht by simp_all
  from canonical_shape [of v] show ?thesis
  proof (elim disjE exE)
    assume p: "plain_value (canonical_value v)"
    then have "\<not> (\<exists>s. canonical_value v = JStr s)" "\<not> (\<exists>k s. canonical_value v = JObj [(k, JStr s)])" by auto
    then have p': "plain_value (canonical_value w)" using canonical_shape [of w] i1 i2 by simp
    have "t = u \<and> r = q"
      using plain_prefix [OF plain_atom [OF p assms(1,6)] plain_atom [OF p' assms(2,6)] assms(3-5)] .
    then show ?thesis using plain_atom_inj [OF p p' assms(1) _ assms(6)] assms(2) by simp
  next
    fix s assume v: "canonical_value v = JStr s"
    then obtain s' where w: "canonical_value w = JStr s'" using i1 by auto
    have "json_string s @ r = json_string s' @ q" using assms(1-3) v w by simp
    from json_string_prefix [OF this] show ?thesis using v w by simp
  next
    fix k s assume v: "canonical_value v = JObj [(k, JStr s)]"
    then obtain k' s' where w: "canonical_value w = JObj [(k', JStr s')]" using i2 by auto
    have "json_string k @ CHR '':'' # json_string s @ ''}'' @ r = json_string k' @ CHR '':'' # json_string s' @ ''}'' @ q"
      using assms(1-3) v w by auto
    from json_string_prefix [OF this] have "k = k'" "json_string s @ ''}'' @ r = json_string s' @ ''}'' @ q" by simp_all
    from this(1) json_string_prefix [OF this(2)] show ?thesis using v w by simp
  qed
qed

lemma members_prefix:
  assumes "those (map (member_text repr) a) = Some ms" and "those (map (member_text repr) b) = Some ns"
    and "join_char (CHR '','') ms @ CHR ''}'' # r = join_char (CHR '','') ns @ CHR ''}'' # q"
    and "map fst a = map fst b" and "repr_ok repr"
  shows "map (\<lambda>kv. (fst kv, canonical_value (snd kv))) a = map (\<lambda>kv. (fst kv, canonical_value (snd kv))) b \<and> r = q"
  using assms(1-4)
proof (induction a arbitrary: b ms ns)
  case Nil
  then show ?case by simp
next
  case (Cons x a)
  obtain y b' where b: "b = y # b'" "fst y = fst x" "map fst b' = map fst a"
    using Cons.prems(4) by (cases b) auto
  have cons: "\<exists>t zs'. json_atom repr (canonical_value (snd z)) = Some t \<and> those (map (member_text repr) c) = Some zs' \<and>
      zs = (json_string (fst z) @ CHR '':'' # t) # zs'"
    if "those (map (member_text repr) (z # c)) = Some zs" for z c zs
    using that by (cases "json_atom repr (canonical_value (snd z))") (auto simp: member_text_def [of repr z])
  obtain t ms' where t: "json_atom repr (canonical_value (snd x)) = Some t" "those (map (member_text repr) a) = Some ms'"
      and ms: "ms = (json_string (fst x) @ CHR '':'' # t) # ms'"
    using cons [OF Cons.prems(1)] by blast
  obtain u ns' where u: "json_atom repr (canonical_value (snd y)) = Some u" "those (map (member_text repr) b') = Some ns'"
      and ns: "ns = (json_string (fst y) @ CHR '':'' # u) # ns'"
    using cons [OF Cons.prems(2) [unfolded b(1)]] by blast
  let ?tail = "\<lambda>zs rest. if zs = [] then CHR ''}'' # rest else CHR '','' # join_char (CHR '','') zs @ CHR ''}'' # rest"
  have join: "join_char (CHR '','') (z # zs) @ CHR ''}'' # rest = z @ ?tail zs rest" for z zs rest
    by (cases zs) auto
  have "t @ ?tail ms' r = u @ ?tail ns' q"
    using Cons.prems(3) b(2) unfolding ms ns join by simp
  moreover have "stop (?tail ms' r)" "stop (?tail ns' q)" by (simp_all add: stop_def)
  ultimately have v: "canonical_value (snd x) = canonical_value (snd y)" and tails: "?tail ms' r = ?tail ns' q"
    using canonical_prefix [OF t(1) u(1) _ _ _ assms(5)] by blast+
  have "ms' = [] \<longleftrightarrow> ns' = []" using tails by (auto split: if_splits)
  then have "join_char (CHR '','') ms' @ CHR ''}'' # r = join_char (CHR '','') ns' @ CHR ''}'' # q"
    using tails by (auto split: if_splits)
  then show ?case using Cons.IH [OF t(2) u(2)] b v by simp
qed

definition canonical_row :: "sql_row \<Rightarrow> (string \<times> json) list" where
  "canonical_row r = map (\<lambda>kv. (fst kv, canonical_value (snd kv))) r"

lemma map_fst_insort_key: "map fst (insort_key fst x xs) = insort (fst x) (map fst xs)"
  by (induction xs) auto

lemma map_fst_sort_key: "map fst (sort_key fst r) = sort (map fst r)"
  by (induction r) (simp_all add: map_fst_insort_key)

lemma keyed_lists_eq:
  assumes "map fst a = map fst b" and "distinct (map fst a)" and "set a = set b"
  shows "a = b"
proof (rule nth_equalityI)
  show len: "length a = length b" using assms(1) by (rule map_eq_imp_length_eq)
  fix i assume i: "i < length a"
  have fst: "fst (a ! i) = fst (b ! i)" using assms(1) i len by (metis nth_map)
  have a: "a ! i \<in> set a" using i by (rule nth_mem)
  have b: "b ! i \<in> set a" unfolding assms(3) using i len by simp
  have "inj_on fst (set a)" using assms(2) by (simp add: distinct_map)
  then show "a ! i = b ! i" using fst a b by (rule inj_onD)
qed

lemma row_bytes_inj:
  assumes "canonical_row_bytes repr r = Some p" and "canonical_row_bytes repr r' = Some p"
    and "map fst r = map fst r'" and "distinct (map fst r)" and "repr_ok repr"
  shows "canonical_row r = canonical_row r'"
proof -
  obtain ms ns where m: "those (map (member_text repr) (sort_key fst r)) = Some ms" "p = CHR ''{'' # join_char (CHR '','') ms @ ''}''"
      and n: "those (map (member_text repr) (sort_key fst r')) = Some ns" "p = CHR ''{'' # join_char (CHR '','') ns @ ''}''"
    using assms(1,2) by (auto simp: canonical_row_bytes_def)
  have "map fst (sort_key fst r) = map fst (sort_key fst r')"
    unfolding map_fst_sort_key assms(3) ..
  then have "canonical_row (sort_key fst r) = canonical_row (sort_key fst r')"
    using members_prefix [OF m(1) n(1), of "[]" "[]"] m(2) n(2) assms(5) by (simp add: canonical_row_def)
  then have "set (canonical_row (sort_key fst r)) = set (canonical_row (sort_key fst r'))" by simp
  then have "set (canonical_row r) = set (canonical_row r')" by (simp add: canonical_row_def)
  moreover have "map fst (canonical_row r) = map fst r" "map fst (canonical_row r') = map fst r'"
    by (simp_all add: canonical_row_def)
  ultimately show ?thesis using assms(3,4) by (intro keyed_lists_eq) simp_all
qed

lemma length_big_endian [simp]: "length (big_endian w n) = w"
  by (induction w arbitrary: n) auto

lemma big_endian_inj: "big_endian w m = big_endian w n \<Longrightarrow> m < 256 ^ w \<Longrightarrow> n < 256 ^ w \<Longrightarrow> m = n"
proof (induction w arbitrary: m n)
  case (Suc w)
  have "(char_of (m mod 256) :: char) = char_of (n mod 256)" and p: "big_endian w (m div 256) = big_endian w (n div 256)"
    using Suc.prems(1) by auto
  then have "m mod 256 = n mod 256" by (metis of_char_of mod_mod_trivial)
  moreover have "m div 256 = n div 256" using Suc.prems(2,3) by (intro Suc.IH [OF p]) auto
  ultimately show ?case by (metis div_mult_mod_eq)
qed simp

lemma row_frame_Some:
  "row_frame repr r = Some f \<longleftrightarrow>
     (\<exists>p. canonical_row_bytes repr r = Some p \<and> length p < 256 ^ 8 \<and> f = big_endian 8 (length p) @ p)"
  by (auto simp: row_frame_def split: option.splits)

lemma row_frame_nonempty: "row_frame repr r = Some f \<Longrightarrow> f \<noteq> []"
  using length_big_endian [of 8] unfolding row_frame_Some by (metis append_is_Nil_conv list.size(3) zero_neq_numeral)

lemma those_Cons: "those (x # xs) = Some ys \<longleftrightarrow> (\<exists>y zs. x = Some y \<and> those xs = Some zs \<and> ys = y # zs)"
  by (auto split: option.splits)

lemma frames_inj:
  assumes "those (map (row_frame repr) a) = Some fs" and "those (map (row_frame repr) b) = Some gs"
    and "concat fs = concat gs" and "\<forall>r \<in> set a \<union> set b. map fst r = cols" and "distinct cols" and "repr_ok repr"
  shows "map canonical_row a = map canonical_row b"
  using assms(1-4)
proof (induction a arbitrary: b fs gs)
  case Nil
  have "b = []"
  proof (cases b)
    case (Cons y b')
    then obtain g gs' where "row_frame repr y = Some g" "gs = g # gs'" using Nil.prems(2) by (auto simp: those_Cons simp del: those.simps(2))
    then show ?thesis using Nil.prems(1,3) row_frame_nonempty by auto
  qed
  then show ?case by simp
next
  case (Cons x a)
  obtain f fs' where f: "row_frame repr x = Some f" "those (map (row_frame repr) a) = Some fs'" "fs = f # fs'"
    using Cons.prems(1) by (auto simp: those_Cons simp del: those.simps(2))
  obtain p where p: "canonical_row_bytes repr x = Some p" "length p < 256 ^ 8" "f = big_endian 8 (length p) @ p"
    using f(1) by (auto simp: row_frame_Some)
  have "b \<noteq> []" using Cons.prems(2,3) f(1,3) row_frame_nonempty by auto
  then obtain y b' where b: "b = y # b'" by (cases b) auto
  obtain g gs' where g: "row_frame repr y = Some g" "those (map (row_frame repr) b') = Some gs'" "gs = g # gs'"
    using Cons.prems(2) b by (auto simp: those_Cons simp del: those.simps(2))
  obtain q where q: "canonical_row_bytes repr y = Some q" "length q < 256 ^ 8" "g = big_endian 8 (length q) @ q"
    using g(1) by (auto simp: row_frame_Some)
  have e: "big_endian 8 (length p) = big_endian 8 (length q)" "p @ concat fs' = q @ concat gs'"
    using Cons.prems(3) f(3) g(3) p(3) q(3) by auto
  have "length p = length q" by (rule big_endian_inj [OF e(1) p(2) q(2)])
  then have pq: "p = q" "concat fs' = concat gs'" using e(2) by auto
  have "canonical_row x = canonical_row y"
    using row_bytes_inj [OF p(1) q(1) [folded pq(1)]] Cons.prems(4) assms(5,6) b by auto
  moreover have "map canonical_row a = map canonical_row b'"
    using Cons.IH [OF f(2) g(2) pq(2)] Cons.prems(4) b by auto
  ultimately show ?case using b by simp
qed

lemma fingerprint_inj:
  assumes "fingerprint repr sha a = Some h" and "fingerprint repr sha b = Some h"
    and "\<forall>r \<in> set a \<union> set b. map fst r = cols" and "distinct cols" and "repr_ok repr"
  shows "map canonical_row a = map canonical_row b \<or>
         (\<exists>x y. framed_rows repr a = Some x \<and> framed_rows repr b = Some y \<and> x \<noteq> y \<and> sha x = sha y)"
proof -
  obtain fs gs where f: "those (map (row_frame repr) a) = Some fs" "those (map (row_frame repr) b) = Some gs"
      "sha (concat fs) = sha (concat gs)"
    using assms(1,2) by (auto simp: fingerprint_def framed_rows_def)
  then show ?thesis
    using frames_inj [OF f(1,2) _ assms(3-5)] by (cases "concat fs = concat gs") (auto simp: framed_rows_def)
qed

text \<open>What the canonical form forgets: the offset of a datetime, and nothing of the values the model's
  columns have.\<close>

lemma canonical_value_inj:
  assumes "canonical_value v = canonical_value w"
    and "case v of V_datetime t off \<Rightarrow> in_range (utc_instant t off) | V_date _ _ _ \<Rightarrow> False | V_time _ \<Rightarrow> False | _ \<Rightarrow> True"
    and "case w of V_datetime t off \<Rightarrow> in_range (utc_instant t off) | V_date _ _ _ \<Rightarrow> False | V_time _ \<Rightarrow> False | _ \<Rightarrow> True"
  shows "v = w \<or> (\<exists>t off t' off'. v = V_datetime t off \<and> w = V_datetime t' off' \<and> utc_instant t off = utc_instant t' off')"
  using assms by (cases v; cases w) (auto simp: canonical_value_def dest: isoformat_usec_inj b64encode_inj)

section \<open>What a reported migration shows\<close>

lemma select_row_keys [simp]: "map fst (select_row cols r) = cols"
  by (simp add: select_row_def comp_def)

definition keeps_rows :: "engine \<Rightarrow> bool" where
  "keeps_rows e \<longleftrightarrow> (\<forall>key rows. set (eg_order e key rows) = set rows)"

lemma ordered_rows_keys:
  assumes "keeps_rows e" and "r \<in> set (ordered_rows e t cols tab)"
  shows "map fst r = cols"
proof -
  have "set (ordered_rows e t cols tab) = select_row cols ` set (dt_rows tab)"
    using assms(1) by (simp add: ordered_rows_def Let_def keeps_rows_def)
  then show ?thesis using assms(2) by auto
qed

lemma copy_columns_distinct: "distinct (mt_column_names t) \<Longrightarrow> distinct (copy_columns t tab)"
  by (simp add: copy_columns_def mt_column_names_def distinct_map_filter)

lemma verify_tables_sound:
  assumes "source_reports repr sha es src meta = Some ss" and "verify_tables repr sha et src d meta ss = Inr rs"
    and "t \<in> set meta"
  shows "\<exists>stab dtab h.
    map_of src (mt_name t) = Some stab \<and> map_of d (mt_name t) = Some dtab \<and>
    fingerprint repr sha (ordered_rows es t (copy_columns t stab) stab) = Some h \<and>
    fingerprint repr sha (ordered_rows et t (copy_columns t stab) dtab) = Some h \<and>
    length (ordered_rows es t (copy_columns t stab) stab) = length (ordered_rows et t (copy_columns t stab) dtab)"
  using assms
proof (induction meta arbitrary: ss rs)
  case (Cons u meta)
  obtain stab where st: "map_of src (mt_name u) = Some stab"
    using Cons.prems(1) by (auto split: option.splits)
  let ?rows = "ordered_rows es u (copy_columns u stab) stab"
  obtain h rest where h: "fingerprint repr sha ?rows = Some h" "source_reports repr sha es src meta = Some rest"
      "ss = \<lparr>sr_name = mt_name u, sr_count = length ?rows, sr_sha256 = h\<rparr> # rest"
    using Cons.prems(1) st by (auto simp: Let_def split: option.splits)
  obtain dtab where dt: "map_of d (mt_name u) = Some dtab"
    using Cons.prems(2) st h(3) by (auto split: option.splits)
  let ?drows = "ordered_rows et u (copy_columns u stab) dtab"
  obtain h' where h': "fingerprint repr sha ?drows = Some h'"
    using Cons.prems(2) st h(3) dt by (auto simp: Let_def split: option.splits)
  have eq: "length ?rows = length ?drows" "h = h'"
    using Cons.prems(2) st h(3) dt h' by (auto simp: Let_def split: if_splits)
  obtain rs' where rs: "verify_tables repr sha et src d meta rest = Inr rs'"
    using Cons.prems(2) st h(3) dt h' eq by (auto simp: Let_def split: sum.splits)
  show ?case
  proof (cases "t = u")
    case True
    then show ?thesis using st dt h(1) h' eq by auto
  next
    case False
    then show ?thesis using Cons.IH [OF h(2) rs] Cons.prems(3) by auto
  qed
qed simp

lemma migrate_engines_Migrated:
  assumes "migrate_engines repr sha es et meta reset dry_run prepare other src1 src2 tgt = (Inr (Migrated rs orphans dups gen auto), final)"
  obtains sources where "source_reports repr sha es src1 meta = Some sources"
    "verify_target repr sha et src1 meta sources gen auto final = Inr (Migrated rs orphans dups gen auto)"
    "list_all snd gen"
  using assms unfolding migrate_engines_def Let_def
  by (auto split: if_splits option.splits simp: verify_target_def Let_def split: sum.splits)

lemma dict_of_pairs_zero:
  assumes "\<not> list_ex (\<lambda>kv. snd kv \<noteq> (0::nat)) (dict_of_pairs ps)" and "distinct (map fst ps)" and "(k, n) \<in> set ps"
  shows "n = 0"
  using assms by (auto simp: list_ex_iff)

text \<open>C27. A reported migration is faithful, whatever is written to either database while it runs. When
  migrate_engines returns a report, then in the target as it was verified every table of the model has,
  on the columns that were copied and in the order of the primary key, the rows the source had at its
  first reading, value by value in canonical form, or else the program has met two different byte
  strings with one SHA-256; no row has a foreign key without its parent; no two live enrollments,
  registrations or leases share their key; and every constraint MySQL was to generate is there.\<close>

theorem migration_verified:
  assumes "migrate_engines repr sha es et meta reset dry_run prepare other src1 src2 tgt = (Inr (Migrated rs orphans dups gen auto), final)"
    and "repr_ok repr" and "keeps_rows es" and "keeps_rows et"
    and "\<forall>t \<in> set meta. distinct (mt_column_names t)"
    and "distinct (concat (map (\<lambda>t. map (check_key t) (mt_foreign_keys t)) meta))"
  shows "(\<forall>t \<in> set meta. \<exists>stab dtab.
            map_of src1 (mt_name t) = Some stab \<and> map_of final (mt_name t) = Some dtab \<and>
            (let a = ordered_rows es t (copy_columns t stab) stab; b = ordered_rows et t (copy_columns t stab) dtab in
             map canonical_row a = map canonical_row b \<or>
             (\<exists>x y. framed_rows repr a = Some x \<and> framed_rows repr b = Some y \<and> x \<noteq> y \<and> sha x = sha y))) \<and>
         (\<forall>t \<in> set meta. \<forall>fk \<in> set (mt_foreign_keys t). \<forall>r \<in> set (table_rows final (mt_name t)). \<not> is_orphan final fk r) \<and>
         (\<forall>(n, keys, states) \<in> set uniqueness_specs. n \<in> mt_name ` set meta \<longrightarrow>
            duplicate_groups keys states (table_rows final n) = 0) \<and>
         list_all snd gen"
proof -
  obtain sources where s: "source_reports repr sha es src1 meta = Some sources"
      and v: "verify_target repr sha et src1 meta sources gen auto final = Inr (Migrated rs orphans dups gen auto)"
      and g: "list_all snd gen"
    using migrate_engines_Migrated [OF assms(1)] by blast
  have vt: "verify_tables repr sha et src1 final meta sources = Inr rs"
    and o: "\<not> list_ex (\<lambda>kv. snd kv \<noteq> 0) (foreign_key_orphans final meta)"
    and u: "\<not> list_ex (\<lambda>kv. snd kv \<noteq> 0) (active_uniqueness_checks final meta)"
    using v by (auto simp: verify_target_def Let_def split: sum.splits if_splits)
  have 1: "\<exists>stab dtab. map_of src1 (mt_name t) = Some stab \<and> map_of final (mt_name t) = Some dtab \<and>
      (let a = ordered_rows es t (copy_columns t stab) stab; b = ordered_rows et t (copy_columns t stab) dtab in
       map canonical_row a = map canonical_row b \<or>
       (\<exists>x y. framed_rows repr a = Some x \<and> framed_rows repr b = Some y \<and> x \<noteq> y \<and> sha x = sha y))" if t: "t \<in> set meta" for t
  proof -
    obtain stab dtab h where tab: "map_of src1 (mt_name t) = Some stab" "map_of final (mt_name t) = Some dtab"
        and f: "fingerprint repr sha (ordered_rows es t (copy_columns t stab) stab) = Some h"
          "fingerprint repr sha (ordered_rows et t (copy_columns t stab) dtab) = Some h"
      using verify_tables_sound [OF s vt t] by blast
    have "\<forall>r \<in> set (ordered_rows es t (copy_columns t stab) stab) \<union> set (ordered_rows et t (copy_columns t stab) dtab).
        map fst r = copy_columns t stab"
      using ordered_rows_keys [OF assms(3)] ordered_rows_keys [OF assms(4)] by blast
    from fingerprint_inj [OF f this copy_columns_distinct assms(2)] show ?thesis
      using tab assms(5) t by (auto simp: Let_def)
  qed
  have 2: "\<not> is_orphan final fk r"
    if "t \<in> set meta" "fk \<in> set (mt_foreign_keys t)" "r \<in> set (table_rows final (mt_name t))" for t fk r
  proof -
    let ?ps = "concat (map (\<lambda>t. map (\<lambda>fk. (check_key t fk, length (filter (is_orphan final fk) (table_rows final (mt_name t)))))
        (mt_foreign_keys t)) meta)"
    have "map fst ?ps = concat (map (\<lambda>t. map (check_key t) (mt_foreign_keys t)) meta)"
      by (simp add: map_concat comp_def)
    then have "distinct (map fst ?ps)" using assms(6) by simp
    moreover have "(check_key t fk, length (filter (is_orphan final fk) (table_rows final (mt_name t)))) \<in> set ?ps"
      using that(1,2) by auto
    ultimately have "length (filter (is_orphan final fk) (table_rows final (mt_name t))) = 0"
      using o unfolding foreign_key_orphans_def by (rule dict_of_pairs_zero [rotated])
    then show ?thesis using that(3) by (auto simp: filter_empty_conv)
  qed
  have 3: "duplicate_groups keys states (table_rows final n) = 0"
    if "(n, keys, states) \<in> set uniqueness_specs" "n \<in> mt_name ` set meta" for n keys states
  proof -
    let ?ps = "map (\<lambda>(n, keys, states). (n @ '':'' @ join_char (CHR '','') keys, duplicate_groups keys states (table_rows final n)))
          (filter (\<lambda>(n, keys, states). n \<in> mt_name ` set meta) uniqueness_specs)"
    have "distinct (map (\<lambda>(n, keys, states). n @ '':'' @ join_char (CHR '','') keys) uniqueness_specs)"
      by (simp add: uniqueness_specs_def)
    then have "distinct (map (\<lambda>(n, keys, states). n @ '':'' @ join_char (CHR '','') keys)
        (filter (\<lambda>(n, keys, states). n \<in> mt_name ` set meta) uniqueness_specs))"
      by (rule distinct_map_filter)
    then have "distinct (map fst ?ps)" by (simp add: comp_def case_prod_unfold)
    moreover have "(n @ '':'' @ join_char (CHR '','') keys, duplicate_groups keys states (table_rows final n)) \<in> set ?ps"
      using that by force
    ultimately show ?thesis
      using u unfolding active_uniqueness_checks_def by (rule dict_of_pairs_zero [rotated])
  qed
  show ?thesis using 1 2 3 g by (intro conjI ballI) auto
qed

definition demo_repr :: "rat \<Rightarrow> string" where
  "demo_repr q = (case quotient_of q of (n, d) \<Rightarrow> int_str n @ dot # int_str d)"

lemma demo_repr_ok: "repr_ok demo_repr"
  unfolding repr_ok_def
proof (intro conjI allI ballI)
  have nd: "dot \<notin> set (int_str i)" for i using int_str_chars [of dot i] by (auto simp: is_digit_def char_in_def)
  show "inj demo_repr"
  proof (rule injI)
    fix a b assume e: "demo_repr a = demo_repr b"
    obtain n d m k where q: "quotient_of a = (n, d)" "quotient_of b = (m, k)" by fastforce
    have "int_str n @ dot # int_str d = int_str m @ dot # int_str k" using e q by (simp add: demo_repr_def)
    then have "int_str n = int_str m \<and> int_str d = int_str k" using nd by (simp add: append_eq_Cons_conv append_Cons_eq_iff)
    then show "a = b" using q int_str_inj by (metis quotient_of_inject)
  qed
  show "is_digit c \<or> c \<in> {CHR ''-'', CHR ''+'', dot, CHR ''e''}" if "c \<in> set (demo_repr q)" for q c
    using that int_str_chars by (auto simp: demo_repr_def split: prod.splits)
  show "dot \<in> set (demo_repr q) \<or> CHR ''e'' \<in> set (demo_repr q)" for q
    by (cases "quotient_of q") (auto simp: demo_repr_def)
qed

definition demo_engine :: engine where
  "demo_engine = \<lparr>eg_mysql = False, eg_order = \<lambda>key rows. rows,
     eg_insert = \<lambda>n rows d. Some (map (\<lambda>(m, tab). (m, if m = n then tab\<lparr>dt_rows := dt_rows tab @ rows\<rparr> else tab)) d)\<rparr>"

definition demo_meta :: "meta_table list" where
  "demo_meta =
     [\<lparr>mt_name = ''users'', mt_columns = [(''id'', False), (''name'', False)], mt_primary_key = [(''id'', True)], mt_foreign_keys = []\<rparr>,
      \<lparr>mt_name = ''managed_stores'', mt_columns = [(''id'', False), (''owner_user_id'', False)], mt_primary_key = [(''id'', True)],
       mt_foreign_keys = [\<lparr>fk_name = None, fk_local = [''owner_user_id''], fk_parent = ''users'', fk_remote = [''id'']\<rparr>]\<rparr>]"

definition demo_source :: database where
  "demo_source =
     [(''users'', \<lparr>dt_columns = [''id'', ''name''], dt_indexes = [], dt_rows = [[(''id'', V_int 1), (''name'', V_text ''a'')]]\<rparr>),
      (''managed_stores'', \<lparr>dt_columns = [''id'', ''owner_user_id''], dt_indexes = [],
         dt_rows = [[(''id'', V_int 7), (''owner_user_id'', V_int 1)], [(''id'', V_int 8), (''owner_user_id'', V_null)]]\<rparr>)]"

lemma demo_migrates:
  "\<exists>rs orphans dups gen auto final.
     migrate_engines demo_repr id demo_engine demo_engine demo_meta False False Some id demo_source demo_source [] =
       (Inr (Migrated rs orphans dups gen auto), final)"
proof -
  obtain h1 where 1: "fingerprint demo_repr id [[(''id'', V_int 1), (''name'', V_text ''a'')]] = Some h1"
    by (simp add: fingerprint_def framed_rows_def row_frame_def canonical_row_bytes_def member_text_def canonical_value_def
        json_string_def json_escape_def char_in_def int_str_def nat_str_small)
  obtain h2 where 2: "fingerprint demo_repr id [[(''id'', V_int 7), (''owner_user_id'', V_int 1)], [(''id'', V_int 8), (''owner_user_id'', V_null)]] = Some h2"
    by (simp add: fingerprint_def framed_rows_def row_frame_def canonical_row_bytes_def member_text_def canonical_value_def
        json_string_def json_escape_def char_in_def int_str_def nat_str_small)
  show ?thesis
    by (simp add: migrate_engines_def demo_engine_def demo_meta_def demo_source_def destination_nonempty_def Let_def
        copy_columns_def ordered_rows_def select_row_def 1 2 create_tables_def mt_column_names_def
        reset_auto_increment_def generated_constraint_checks_def verify_target_def foreign_key_orphans_def
        active_uniqueness_checks_def uniqueness_specs_def table_rows_def is_orphan_def cell_of_def dict_of_pairs_def)
qed

theorem migration_verified_witness:
  "\<exists>final. snd (migrate_engines demo_repr id demo_engine demo_engine demo_meta False False Some id demo_source demo_source []) = final \<and>
     (\<forall>t \<in> set demo_meta. \<forall>fk \<in> set (mt_foreign_keys t). \<forall>r \<in> set (table_rows final (mt_name t)). \<not> is_orphan final fk r)"
proof -
  obtain rs orphans dups gen auto final where m:
    "migrate_engines demo_repr id demo_engine demo_engine demo_meta False False Some id demo_source demo_source [] =
       (Inr (Migrated rs orphans dups gen auto), final)"
    using demo_migrates by blast
  have "keeps_rows demo_engine" by (simp add: keeps_rows_def demo_engine_def)
  moreover have "\<forall>t \<in> set demo_meta. distinct (mt_column_names t)"
      "distinct (concat (map (\<lambda>t. map (check_key t) (mt_foreign_keys t)) demo_meta))"
    by (simp_all add: demo_meta_def mt_column_names_def)
  ultimately show ?thesis using migration_verified [OF m demo_repr_ok] m by simp
qed

text \<open>Until it copies, the migration leaves the target alone, and a copy that fails leaves no row. A
  target with rows is refused unless a reset was asked for, a source without one of the tables is
  refused, and a dry run reports; in all three the target is as it was. When the driver refuses an
  insert, the target is what it was prepared to be, without a single copied row.\<close>

theorem migration_refuses:
  assumes "migrate_engines repr sha es et meta reset dry_run prepare other src1 src2 tgt = (res, final)"
  shows "(destination_nonempty tgt \<noteq> [] \<and> \<not> reset \<longrightarrow> final = tgt \<and> (\<exists>m. res = Inl (Migration_error m))) \<and>
         ((\<exists>t \<in> set meta. mt_name t \<notin> fst ` set src1) \<longrightarrow> final = tgt \<and> (\<exists>m. res = Inl (Migration_error m))) \<and>
         (dry_run \<longrightarrow> final = tgt) \<and>
         (\<forall>prepared. prepare (create_tables meta (if reset then drop_tables meta tgt else tgt)) = Some prepared \<longrightarrow>
            copy_tables es et src1 src2 meta prepared = None \<longrightarrow> final \<in> {tgt, prepared} \<and>
            (\<forall>rs o' u g a. res \<noteq> Inr (Migrated rs o' u g a)))"
proof -
  have "filter (\<lambda>n. n \<notin> fst ` set src1) (map mt_name meta) \<noteq> [] \<longleftrightarrow> (\<exists>t \<in> set meta. mt_name t \<notin> fst ` set src1)"
    by (auto simp: filter_empty_conv)
  then show ?thesis
    using assms unfolding migrate_engines_def Let_def by (auto split: if_splits option.splits)
qed

text \<open>The uniqueness check is stricter than the indexes it stands for: \<open>GROUP BY\<close> puts the leases without
  a device into one group, while both databases exempt them. Two such leases, which the control plane
  may hold, make the migration fail after everything was copied.\<close>

lemma null_devices_counted:
  assumes "cell_of r ''status'' = V_text ''active''" and "cell_of r' ''status'' = V_text ''active''"
    and "cell_of r ''store_id'' = cell_of r' ''store_id''" and "cell_of r ''owner_user_id'' = cell_of r' ''owner_user_id''"
    and "cell_of r ''device_id'' = V_null" and "cell_of r' ''device_id'' = V_null"
  shows "duplicate_groups [''store_id'', ''owner_user_id'', ''device_id''] [''active''] [r, r'] = 1"
  using assms by (simp add: duplicate_groups_def Let_def)

section \<open>The command line\<close>

text \<open>\<open>make_url\<close> is SQLAlchemy's parser, \<open>None\<close> when it raises; of a URL its text and its backend are
  used. A protected file is its mode and its text; 63 is the mask \<open>0o077\<close>.\<close>

record db_url =
  du_text :: string
  du_backend :: string

definition load_target_url ::
  "(string \<Rightarrow> string option) \<Rightarrow> (string \<Rightarrow> db_url option) \<Rightarrow> string option \<Rightarrow> (nat \<times> string) option \<Rightarrow>
   mig_error + db_url" where
  "load_target_url getenv make_url variable protected_file =
     (let named = (case variable of None \<Rightarrow> False | Some v \<Rightarrow> v \<noteq> []);
          parse = (\<lambda>value. case make_url value of None \<Rightarrow> Inl (Migration_error ''target URL is invalid'') | Some u \<Rightarrow> Inr u)
      in if named = (protected_file \<noteq> None)
         then Inl (Migration_error ''specify exactly one target environment variable or protected file'')
         else if named then
           (case getenv (the variable) of
              None \<Rightarrow> Inl (Migration_error (''target environment variable '' @ sql_quote (the variable) @ '' is unset''))
            | Some value \<Rightarrow>
                if value = [] then Inl (Migration_error (''target environment variable '' @ sql_quote (the variable) @ '' is unset''))
                else parse value)
         else
           (case the protected_file of (mode, content) \<Rightarrow>
              if and mode 63 \<noteq> 0
              then Inl (Migration_error ''target URL file permissions must be owner-only (mode 0600 or stricter)'')
              else parse (strip content)))"

definition validate_urls :: "(string \<Rightarrow> db_url option) \<Rightarrow> string \<Rightarrow> db_url \<Rightarrow> mig_error + db_url \<times> db_url" where
  "validate_urls make_url source target_url =
     (case make_url source of
        None \<Rightarrow> Inl Driver_error
      | Some source_url \<Rightarrow>
          if du_text source_url = du_text target_url
          then Inl (Migration_error ''source and target must not be the same database'')
          else if du_backend source_url \<noteq> ''sqlite'' then Inl (Migration_error ''source must be SQLite'')
          else if du_backend target_url \<noteq> ''mysql'' then Inl (Migration_error ''target must be MySQL'')
          else Inr (source_url, target_url))"

text \<open>\<open>main\<close> after the arguments were parsed: the exit status and what it prints, a report or an error.
  \<open>migrate\<close> is the migration between the two engines it opens.\<close>

definition migration_main ::
  "(string \<Rightarrow> string option) \<Rightarrow> (string \<Rightarrow> db_url option) \<Rightarrow> (db_url \<Rightarrow> db_url \<Rightarrow> mig_error + report) \<Rightarrow> string \<Rightarrow>
   string option \<Rightarrow> (nat \<times> string) option \<Rightarrow> int \<times> (string + report)" where
  "migration_main getenv make_url migrate source variable protected_file =
     (let outcome = (case load_target_url getenv make_url variable protected_file of
                       Inl e \<Rightarrow> Inl e
                     | Inr target \<Rightarrow>
                         (case validate_urls make_url source target of Inl e \<Rightarrow> Inl e | Inr (s, t) \<Rightarrow> migrate s t))
      in case outcome of
           Inr r \<Rightarrow> (0, Inr r)
         | Inl (Migration_error m) \<Rightarrow> (2, Inl m)
         | Inl Driver_error \<Rightarrow> (1, Inl ''migration failed; see protected operational logs''))"

text \<open>A run that reports went from one SQLite database to another, MySQL, whose URL came from a variable
  or from a file that only its owner can read.\<close>

lemma migration_main_reports:
  assumes "migration_main getenv make_url migrate source variable protected_file = (0, out)"
  shows "\<exists>s t r. out = Inr r \<and> migrate s t = Inr r \<and> du_backend s = ''sqlite'' \<and> du_backend t = ''mysql'' \<and>
           du_text s \<noteq> du_text t \<and> make_url source = Some s \<and>
           (\<forall>mode content. protected_file = Some (mode, content) \<longrightarrow> and mode 63 = 0)"
  using assms
  by (auto simp: migration_main_def load_target_url_def validate_urls_def Let_def
      split: sum.splits option.splits if_splits mig_error.splits prod.splits)

end
