(* ===== verification/Audit_Log.thy ===== *)
theory Audit_Log
  imports Control_Model Iso_Time Json
begin

text \<open>
  The administrator's view of the audit log (\<open>cloudbrowser/app.py\<close>): \<open>audit_query\<close> with its filters and
  pages, \<open>serialize_audit\<close>, the list and the export as CSV. \<open>csv_row\<close> is what \<open>csv.DictWriter\<close> of the
  standard library writes with minimal quoting; \<open>csv_read\<close> is a reader of such files, the reference for
  the round trip. The labels of the known events are Chinese texts, outside the one-byte characters of
  the model: \<open>labels\<close> gives them. \<open>repr\<close> is \<open>float.__repr__\<close>.
\<close>

section \<open>The query\<close>

record audit_filter =
  af_event_type :: "string option"
  af_actor_user_id :: "int option"
  af_target_type :: "string option"
  af_target_id :: "string option"

text \<open>A comparison with NULL is not true, so a filter never matches a missing value.\<close>

definition audit_matches :: "audit_filter \<Rightarrow> audit_event \<Rightarrow> bool" where
  "audit_matches f e \<longleftrightarrow>
     (case af_event_type f of None \<Rightarrow> True | Some x \<Rightarrow> au_event_type e = x) \<and>
     (case af_actor_user_id f of None \<Rightarrow> True | Some x \<Rightarrow> au_actor_user_id e = Some x) \<and>
     (case af_target_type f of None \<Rightarrow> True | Some x \<Rightarrow> au_target_type e = Some x) \<and>
     (case af_target_id f of None \<Rightarrow> True | Some x \<Rightarrow> au_target_id e = Some x)"

definition audit_query :: "audit_filter \<Rightarrow> nat \<Rightarrow> nat \<Rightarrow> db \<Rightarrow> audit_event list" where
  "audit_query f limit offset d =
     take limit (drop offset (rev (sort_key au_id (filter (audit_matches f) (audits d)))))"

section \<open>An event as the response shows it\<close>

definition audit_label_keys :: "string list" where
  "audit_label_keys =
     [''login.succeeded'', ''login.failed'', ''logout'', ''workspace.user_assigned'', ''user.edge_nodes_replaced'',
      ''user.password_changed'', ''user.deleted'', ''user.disabled'', ''edge_node.created'', ''edge_node.updated'',
      ''edge_node.deleted'', ''managed_store.created'', ''managed_store.updated'', ''managed_store.deleted'',
      ''managed_store.force_disconnected'', ''managed_store.connected'', ''managed_store.disconnected'',
      ''web.domain_accessed'', ''local_browser.synced'']"

definition dict_pop :: "string \<Rightarrow> details \<Rightarrow> val \<times> details" where
  "dict_pop k d = ((case map_of d k of None \<Rightarrow> VNull | Some v \<Rightarrow> v), filter (\<lambda>kv. fst kv \<noteq> k) d)"

text \<open>Python's truth of a decoded JSON value.\<close>

fun truthy :: "val \<Rightarrow> bool" where
  "truthy VNull = False"
| "truthy (VBool b) = b"
| "truthy (VInt i) = (i \<noteq> 0)"
| "truthy (VFloat x) = (x \<noteq> Fin 0)"
| "truthy (VStr s) = (s \<noteq> [])"
| "truthy (VTime t) = True"
| "truthy (VList xs) = (xs \<noteq> [])"
| "truthy (VObj xs) = (xs \<noteq> [])"

record audit_item =
  ai_id :: int
  ai_event_type :: string
  ai_event_label :: string
  ai_actor_user_id :: "int option"
  ai_actor_username :: val
  ai_target_type :: "string option"
  ai_target_id :: "string option"
  ai_target_name :: val
  ai_details :: details
  ai_created_at :: string

definition opt_str :: "string option \<Rightarrow> val" where
  "opt_str x = (case x of None \<Rightarrow> VNull | Some s \<Rightarrow> VStr s)"

definition serialize_audit :: "(string \<Rightarrow> string) \<Rightarrow> db \<Rightarrow> audit_event \<Rightarrow> audit_item" where
  "serialize_audit labels d e =
     (let (actor, d1) = dict_pop ''_actor_username'' (au_details e);
          (target, d2) = dict_pop ''_target_name'' d1;
          actor_username =
            (case (actor, au_actor_user_id e) of
               (VNull, Some a) \<Rightarrow> opt_str (map_option us_username (get_user d a))
             | _ \<Rightarrow> actor);
          named = (case map_of d2 ''username'' of None \<Rightarrow> VNull | Some v \<Rightarrow> v);
          target1 = (if au_target_type e = Some ''user'' \<and> truthy named then named else target);
          target2 = (if target1 = VNull then opt_str (au_target_id e) else target1)
      in \<lparr>ai_id = au_id e, ai_event_type = au_event_type e,
          ai_event_label = (if au_event_type e \<in> set audit_label_keys then labels (au_event_type e) else au_event_type e),
          ai_actor_user_id = au_actor_user_id e, ai_actor_username = actor_username,
          ai_target_type = au_target_type e, ai_target_id = au_target_id e, ai_target_name = target2,
          ai_details = d2, ai_created_at = isoformat (au_created_at e)\<rparr>)"

definition list_audit :: "(string \<Rightarrow> string) \<Rightarrow> audit_filter \<Rightarrow> int \<Rightarrow> int \<Rightarrow> db \<Rightarrow> http_error + audit_item list" where
  "list_audit labels f limit offset d =
     (if 1 \<le> limit \<and> limit \<le> 500 \<and> 0 \<le> offset
      then Inr (map (serialize_audit labels d) (audit_query f (nat limit) (nat offset) d))
      else Inl (Http 422 ''Validation error''))"

section \<open>The export\<close>

text \<open>\<open>json.dumps(.., ensure_ascii=False, separators=(",", ":"))\<close>.\<close>

definition json_escape_min :: "char \<Rightarrow> string" where
  "json_escape_min c = (if 127 \<le> (of_char c :: nat) then [c] else json_escape c)"

definition json_text_min :: "string \<Rightarrow> string" where
  "json_text_min s = quote_char # concat (map json_escape_min s) @ [quote_char]"

fun float_text :: "(rat \<Rightarrow> string) \<Rightarrow> pyfloat \<Rightarrow> string" where
  "float_text repr (Fin q) = repr q"
| "float_text repr PosInf = ''Infinity''"
| "float_text repr NegInf = ''-Infinity''"
| "float_text repr NaN = ''NaN''"

fun val_text :: "(rat \<Rightarrow> string) \<Rightarrow> val \<Rightarrow> string" where
  "val_text repr VNull = ''null''"
| "val_text repr (VBool b) = (if b then ''true'' else ''false'')"
| "val_text repr (VInt i) = int_str i"
| "val_text repr (VFloat x) = float_text repr x"
| "val_text repr (VStr s) = json_text_min s"
| "val_text repr (VTime t) = json_text_min (isoformat t)"
| "val_text repr (VList xs) = CHR ''['' # join_char (CHR '','') (map (val_text repr) xs) @ '']''"
| "val_text repr (VObj kvs) =
     CHR ''{'' # join_char (CHR '','') (map (\<lambda>kv. json_text_min (fst kv) @ CHR '':'' # val_text repr (snd kv)) kvs) @ ''}''"

text \<open>\<open>str(value)\<close> of the values that stand in a cell: texts, integers and \<open>None\<close>; the two names come
  from the details and are texts unless something else was stored there.\<close>

definition cell_text :: "(val \<Rightarrow> string) \<Rightarrow> val \<Rightarrow> string" where
  "cell_text str_of v =
     (case v of VNull \<Rightarrow> [] | VStr s \<Rightarrow> s | VInt i \<Rightarrow> int_str i | _ \<Rightarrow> str_of v)"

definition safe_cell :: "(val \<Rightarrow> string) \<Rightarrow> val \<Rightarrow> string" where
  "safe_cell str_of v =
     (let cell = cell_text str_of v in
      if cell \<noteq> [] \<and> hd cell \<in> {CHR ''='', CHR ''+'', CHR ''-'', CHR ''@''} then CHR 0x27 # cell else cell)"

definition opt_int :: "int option \<Rightarrow> val" where
  "opt_int x = (case x of None \<Rightarrow> VNull | Some i \<Rightarrow> VInt i)"

definition audit_fields :: "string list" where
  "audit_fields =
     [''id'', ''event_type'', ''event_label'', ''actor_user_id'', ''actor_username'', ''target_type'', ''target_id'',
      ''target_name'', ''details'', ''created_at'']"

definition audit_cells :: "(rat \<Rightarrow> string) \<Rightarrow> audit_item \<Rightarrow> val list" where
  "audit_cells repr i =
     [VInt (ai_id i), VStr (ai_event_type i), VStr (ai_event_label i), opt_int (ai_actor_user_id i), ai_actor_username i,
      opt_str (ai_target_type i), opt_str (ai_target_id i), ai_target_name i, VStr (val_text repr (VObj (ai_details i))),
      VStr (ai_created_at i)]"

text \<open>One field as \<open>csv\<close> writes it: quoted when it holds the delimiter, a quote or a character of the
  line terminator.\<close>

definition csv_special :: "char \<Rightarrow> bool" where
  "csv_special c \<longleftrightarrow> c \<in> {CHR '','', quote_char, CHR 0x0D, CHR 0x0A}"

definition csv_field :: "string \<Rightarrow> string" where
  "csv_field s =
     (if list_ex csv_special s
      then quote_char # concat (map (\<lambda>c. if c = quote_char then [quote_char, quote_char] else [c]) s) @ [quote_char]
      else s)"

definition csv_row :: "string list \<Rightarrow> string" where
  "csv_row cells = join_char (CHR '','') (map csv_field cells) @ [CHR 0x0D, CHR 0x0A]"

definition audit_csv :: "(rat \<Rightarrow> string) \<Rightarrow> (val \<Rightarrow> string) \<Rightarrow> audit_item list \<Rightarrow> string" where
  "audit_csv repr str_of items =
     concat (map csv_row (audit_fields # map (\<lambda>i. map (safe_cell str_of) (audit_cells repr i)) items))"

definition export_audit_csv ::
  "(rat \<Rightarrow> string) \<Rightarrow> (val \<Rightarrow> string) \<Rightarrow> (string \<Rightarrow> string) \<Rightarrow> audit_filter \<Rightarrow> int \<Rightarrow> db \<Rightarrow> http_error + string" where
  "export_audit_csv repr str_of labels f limit d =
     (if 1 \<le> limit \<and> limit \<le> 500
      then Inr (audit_csv repr str_of (map (serialize_audit labels d) (audit_query f (nat limit) 0 d)))
      else Inl (Http 422 ''Validation error''))"

section \<open>A reader of CSV\<close>

datatype csv_state = Field_start | In_field | In_quotes | After_quote | After_cr

text \<open>The field and the row read so far, reversed; \<open>None\<close> for a file that is not in the format.\<close>

fun csv_read :: "csv_state \<Rightarrow> string \<Rightarrow> string list \<Rightarrow> string \<Rightarrow> string list list option" where
  "csv_read st fld row [] = (if st = Field_start \<and> fld = [] \<and> row = [] then Some [] else None)"
| "csv_read st fld row (c # cs) =
     (case st of
        Field_start \<Rightarrow>
          if c = quote_char then csv_read In_quotes [] row cs
          else if c = CHR '','' then csv_read Field_start [] ([] # row) cs
          else if c = CHR 0x0D then csv_read After_cr [] ([] # row) cs
          else csv_read In_field [c] row cs
      | In_field \<Rightarrow>
          if c = CHR '','' then csv_read Field_start [] (rev fld # row) cs
          else if c = CHR 0x0D then csv_read After_cr [] (rev fld # row) cs
          else csv_read In_field (c # fld) row cs
      | In_quotes \<Rightarrow>
          if c = quote_char then csv_read After_quote fld row cs else csv_read In_quotes (c # fld) row cs
      | After_quote \<Rightarrow>
          if c = quote_char then csv_read In_quotes (c # fld) row cs
          else if c = CHR '','' then csv_read Field_start [] (rev fld # row) cs
          else if c = CHR 0x0D then csv_read After_cr [] (rev fld # row) cs
          else None
      | After_cr \<Rightarrow>
          if c = CHR 0x0A then map_option ((#) (rev row)) (csv_read Field_start [] [] cs) else None)"

lemma csv_plain:
  assumes "\<not> list_ex csv_special s" and "st = In_field \<or> fld = [] \<and> s \<noteq> [] \<and> st = Field_start"
  shows "csv_read st fld row (s @ r) = csv_read In_field (rev s @ fld) row r"
  using assms
proof (induction s arbitrary: st fld)
  case (Cons c s)
  have "\<not> csv_special c" and s: "\<not> list_ex csv_special s" using Cons.prems(1) by simp_all
  then have c: "c \<noteq> CHR '',''" "c \<noteq> quote_char" "c \<noteq> CHR 0x0D" by (auto simp: csv_special_def)
  have "csv_read st fld row ((c # s) @ r) = csv_read In_field (c # fld) row (s @ r)"
    using Cons.prems(2) c by (elim disjE) simp_all
  then show ?case using Cons.IH [OF s, of In_field] by simp
qed auto

lemma csv_quoted:
  "csv_read In_quotes fld row (concat (map (\<lambda>c. if c = quote_char then [quote_char, quote_char] else [c]) s) @ quote_char # r) =
   csv_read After_quote (rev s @ fld) row r"
  by (induction s arbitrary: fld) auto

text \<open>A field is read back whatever it holds, before a comma and at the end of its row.\<close>

lemma csv_field_read:
  "csv_read Field_start [] row (csv_field s @ CHR '','' # r) = csv_read Field_start [] (s # row) r"
  "csv_read Field_start [] row (csv_field s @ CHR 0x0D # r) = csv_read After_cr [] (s # row) r"
  using csv_plain [of s Field_start "[]" row] csv_quoted [of "[]" row s]
  by (cases "s = []"; simp add: csv_field_def)+

lemma csv_row_read:
  "cells \<noteq> [] \<Longrightarrow>
   csv_read Field_start [] row (csv_row cells @ r) = map_option ((#) (rev row @ cells)) (csv_read Field_start [] [] r)"
proof (induction cells arbitrary: row)
  case (Cons f cells)
  show ?case
  proof (cases cells)
    case Nil
    then show ?thesis by (simp add: csv_row_def csv_field_read)
  next
    case (Cons g gs)
    then have "csv_row (f # cells) @ r = csv_field f @ CHR '','' # (csv_row cells @ r)" by (simp add: csv_row_def)
    then show ?thesis using Cons.IH [of "f # row"] Cons by (simp only: csv_field_read) simp
  qed
qed simp

lemma csv_round_trip: "\<forall>cells \<in> set rows. cells \<noteq> [] \<Longrightarrow> csv_read Field_start [] [] (concat (map csv_row rows)) = Some rows"
  by (induction rows) (simp_all add: csv_row_read)

section \<open>Pages\<close>

lemma take_pages: "concat (map (\<lambda>i. take n (drop (i * n) xs)) [0..<k]) = take (k * n) xs"
proof (induction k)
  case (Suc k)
  have "take (Suc k * n) xs = take (k * n) xs @ take n (drop (k * n) xs)"
    unfolding mult_Suc add.commute [of n] by (rule take_add)
  then show ?case using Suc by simp
qed simp

text \<open>The pages of a filter, one after the other, are the matching events from the newest to the oldest,
  each once.\<close>

lemma audit_pages:
  assumes "length (audits d) \<le> k * n"
  shows "concat (map (\<lambda>i. audit_query f n (i * n) d) [0..<k]) = rev (sort_key au_id (filter (audit_matches f) (audits d)))"
proof -
  have "length (rev (sort_key au_id (filter (audit_matches f) (audits d)))) \<le> k * n"
    using order.trans [OF length_filter_le assms] by simp
  then show ?thesis unfolding audit_query_def take_pages by simp
qed

section \<open>Names and cells\<close>

lemma map_of_setdefault: "map_of (dict_setdefault k v d) j = (case map_of d j of Some w \<Rightarrow> Some w | None \<Rightarrow> if j = k then Some v else None)"
  by (auto simp: dict_setdefault_def map_add_def split: option.splits dest: map_of_SomeD weak_map_of_SomeI)

lemma map_of_pop: "map_of (filter (\<lambda>kv. fst kv \<noteq> k) d) j = (if j = k then None else map_of d j)"
  by (induction d) auto

lemma pop_names: "fst (dict_pop k d) = (case map_of d k of None \<Rightarrow> VNull | Some v \<Rightarrow> v)" "snd (dict_pop k d) = filter (\<lambda>kv. fst kv \<noteq> k) d"
  by (simp_all add: dict_pop_def)

lemma serialize_actor:
  "fst (dict_pop ''_actor_username'' (au_details e)) = VStr x \<Longrightarrow> ai_actor_username (serialize_audit labels d e) = VStr x"
  by (simp add: serialize_audit_def case_prod_unfold Let_def)

lemma serialize_details:
  "ai_details (serialize_audit labels d e) =
     filter (\<lambda>kv. fst kv \<noteq> ''_target_name'') (filter (\<lambda>kv. fst kv \<noteq> ''_actor_username'') (au_details e))"
  by (simp add: serialize_audit_def case_prod_unfold Let_def dict_pop_def)

text \<open>The log keeps the names of its time. An event that a handler records for an existing actor shows
  that actor's user name of the moment in every later response, whatever happens to the user, the name
  or the number afterwards; an event about a store or a node likewise shows the name the target had;
  and neither of the two stored names appears among the details of a response.\<close>

theorem audit_names_stable:
  assumes "get_user d a = Some u" and "''_actor_username'' \<notin> fst ` set dts" and "''_target_name'' \<notin> fst ` set dts"
    and "e = last (audits (audit event_type (Some a) target_type (Some i) dts moment d))" and "target_type \<noteq> Some ''user''"
  shows "ai_actor_username (serialize_audit labels later e) = VStr (us_username u) \<and>
         ai_target_name (serialize_audit labels later e) = VStr (target_name d target_type i) \<and>
         ''_actor_username'' \<notin> fst ` set (ai_details (serialize_audit labels later e)) \<and>
         ''_target_name'' \<notin> fst ` set (ai_details (serialize_audit labels later e))"
proof -
  have det: "au_details e = dict_setdefault ''_target_name'' (VStr (target_name d target_type i))
      (dict_setdefault ''_actor_username'' (VStr (us_username u)) dts)" and tt: "au_target_type e = target_type"
    using assms(1,4) by (simp_all add: audit_def audit_payload_def)
  have none: "map_of dts ''_actor_username'' = None" "map_of dts ''_target_name'' = None"
    using assms(2,3) by (simp_all add: map_of_eq_None_iff)
  have pops: "fst (dict_pop ''_actor_username'' (au_details e)) = VStr (us_username u)"
      "fst (dict_pop ''_target_name'' (snd (dict_pop ''_actor_username'' (au_details e)))) = VStr (target_name d target_type i)"
    using none by (simp_all add: pop_names map_of_pop det map_of_setdefault)
  have "ai_target_name (serialize_audit labels later e) = VStr (target_name d target_type i)"
    using assms(5) pops(2) tt by (simp add: serialize_audit_def case_prod_unfold Let_def)
  then show ?thesis using serialize_actor [OF pops(1)] by (auto simp: serialize_details)
qed

lemma safe_cell_safe: "safe_cell str_of v = [] \<or> hd (safe_cell str_of v) \<notin> {CHR ''='', CHR ''+'', CHR ''-'', CHR ''@''}"
  by (auto simp: safe_cell_def Let_def)

text \<open>C33. The exported file is read back exactly and cannot start a formula: a CSV reader finds the header
  and one row for each event of the query, the ten cells of each row are the ten values of the event as
  safe_cell renders them, whatever commas, quotes and line breaks user names, targets and details
  contain, and no cell begins with a character with which a spreadsheet starts a formula.\<close>

theorem audit_csv_safe:
  assumes "export_audit_csv repr str_of labels f limit d = Inr csv"
  shows "\<exists>rows. csv_read Field_start [] [] csv = Some (audit_fields # rows) \<and>
           rows = map (\<lambda>e. map (safe_cell str_of) (audit_cells repr (serialize_audit labels d e))) (audit_query f (nat limit) 0 d) \<and>
           (\<forall>row \<in> set rows. length row = 10 \<and>
              (\<forall>cell \<in> set row. cell = [] \<or> hd cell \<notin> {CHR ''='', CHR ''+'', CHR ''-'', CHR ''@''}))"
proof -
  let ?rows = "map (\<lambda>e. map (safe_cell str_of) (audit_cells repr (serialize_audit labels d e))) (audit_query f (nat limit) 0 d)"
  have csv: "csv = concat (map csv_row (audit_fields # ?rows))"
    using assms by (simp add: export_audit_csv_def audit_csv_def comp_def split: if_splits)
  have "\<forall>r \<in> set (audit_fields # ?rows). r \<noteq> []" by (auto simp: audit_fields_def audit_cells_def)
  from csv_round_trip [OF this] have "csv_read Field_start [] [] csv = Some (audit_fields # ?rows)"
    unfolding csv .
  moreover have "length row = 10 \<and> (\<forall>cell \<in> set row. cell = [] \<or> hd cell \<notin> {CHR ''='', CHR ''+'', CHR ''-'', CHR ''@''})"
    if row: "row \<in> set ?rows" for row
  proof -
    obtain e where "row = map (safe_cell str_of) (audit_cells repr (serialize_audit labels d e))" using row by auto
    then have "length row = 10" "\<forall>cell \<in> set row. \<exists>v. cell = safe_cell str_of v" by (auto simp: audit_cells_def)
    then show ?thesis using safe_cell_safe by metis
  qed
  ultimately show ?thesis by blast
qed

theorem audit_names_stable_witness:
  "let e = last (audits (audit ''managed_store.connected'' (Some 2) (Some ''managed_store'') (Some ''7'') [] 0 demo_db)) in
   ai_actor_username (serialize_audit id empty_db e) = VStr ''ann'' \<and>
   ai_target_name (serialize_audit id empty_db e) = VStr (target_name demo_db (Some ''managed_store'') ''7'')"
proof -
  have u: "get_user demo_db 2 = Some (demo_user 2 ''ann'' ''member'')" by (simp add: get_user_def demo_defs)
  show ?thesis
    using audit_names_stable [OF u, of "[]" _ "''managed_store.connected''" "Some ''managed_store''" "''7''" 0 id empty_db]
    by (simp add: Let_def) (simp add: demo_user_def)
qed

theorem audit_csv_safe_witness:
  "\<exists>csv rows. export_audit_csv (\<lambda>_. []) (\<lambda>_. []) id \<lparr>af_event_type = None, af_actor_user_id = None, af_target_type = None, af_target_id = None\<rparr> 5
       (audit ''=1+1'' (Some 2) None None [] 0 demo_db) = Inr csv \<and>
     csv_read Field_start [] [] csv = Some (audit_fields # rows) \<and>
     (\<forall>row \<in> set rows. \<forall>cell \<in> set row. cell = [] \<or> hd cell \<noteq> CHR ''='')"
proof -
  obtain csv where c: "export_audit_csv (\<lambda>_. []) (\<lambda>_. []) id \<lparr>af_event_type = None, af_actor_user_id = None, af_target_type = None, af_target_id = None\<rparr> 5
       (audit ''=1+1'' (Some 2) None None [] 0 demo_db) = Inr csv"
    by (simp add: export_audit_csv_def)
  from audit_csv_safe [OF c] c show ?thesis by blast
qed

end
