(* ===== verification/Json_Text.thy ===== *)
theory Json_Text
  imports Json
begin

text \<open>
  JSON texts with nested values: what \<open>json.loads\<close> reads and \<open>json.dumps\<close> with
  \<open>separators=(",", ":")\<close> writes. \<open>Json\<close> has the flat objects of the tickets; the bodies of the
  registration protocol and the claim a node receives are nested. \<open>fl\<close> is \<open>float\<close> on the text of a
  number with a fraction or an exponent, \<open>repr\<close> the text of a finite float. Texts of the wire are byte
  strings of ASCII characters, as \<open>json.dumps\<close> escapes all others; a code point above 255 has no
  \<open>char\<close> and counts as an error. The readers of items and members recurse with fuel; twice the length
  of the text is enough, and more changes nothing (\<open>parse_fuel\<close>).
\<close>

section \<open>Reading\<close>

definition digit_run :: "string \<Rightarrow> string \<times> string" where
  "digit_run s = (takeWhile is_digit s, dropWhile is_digit s)"

definition fraction_part :: "string \<Rightarrow> string \<times> string" where
  "fraction_part s =
     (case s of
        [] \<Rightarrow> ([], s)
      | c # cs \<Rightarrow> if c = dot \<and> fst (digit_run cs) \<noteq> [] then (c # fst (digit_run cs), snd (digit_run cs)) else ([], s))"

definition exponent_part :: "string \<Rightarrow> string \<times> string" where
  "exponent_part s =
     (case s of
        [] \<Rightarrow> ([], s)
      | c # cs \<Rightarrow>
          if c \<in> {CHR ''e'', CHR ''E''} then
            (let sign = (case cs of [] \<Rightarrow> [] | d # _ \<Rightarrow> if d \<in> {CHR ''+'', CHR ''-''} then [d] else []);
                 digits = digit_run (drop (length sign) cs)
             in if fst digits = [] then ([], s) else (c # sign @ fst digits, snd digits))
          else ([], s))"

text \<open>A number after its sign: an integer part without a superfluous zero, a fraction, an exponent.\<close>

definition parse_number :: "(string \<Rightarrow> pyfloat) \<Rightarrow> bool \<Rightarrow> string \<Rightarrow> (json \<times> string) option" where
  "parse_number fl neg s =
     (let whole = (if s \<noteq> [] \<and> hd s = CHR ''0'' then (''0'', tl s) else digit_run s);
          fraction = fraction_part (snd whole);
          exponent = exponent_part (snd fraction);
          sign = (if neg then ''-'' else [])
      in if fst whole = [] then None
         else if fst fraction = [] \<and> fst exponent = []
         then Some (JInt (if neg then - int (nat_of_digits (fst whole)) else int (nat_of_digits (fst whole))), snd whole)
         else Some (JFloat (fl (sign @ fst whole @ fst fraction @ fst exponent)), snd exponent))"

definition parse_atom :: "(string \<Rightarrow> pyfloat) \<Rightarrow> string \<Rightarrow> (json \<times> string) option" where
  "parse_atom fl s =
     (case s of
        [] \<Rightarrow> None
      | c # cs \<Rightarrow>
          if c = quote_char then map_option (\<lambda>(t, r). (JStr t, r)) (parse_string cs)
          else if c = CHR ''n'' then parse_literal ''null'' JNull s
          else if c = CHR ''t'' then parse_literal ''true'' (JBool True) s
          else if c = CHR ''f'' then parse_literal ''false'' (JBool False) s
          else if c = CHR ''N'' then parse_literal ''NaN'' (JFloat NaN) s
          else if c = CHR ''I'' then parse_literal ''Infinity'' (JFloat PosInf) s
          else if c = CHR ''-'' then
            (if startswith cs ''Infinity'' then parse_literal ''-Infinity'' (JFloat NegInf) s else parse_number fl True cs)
          else parse_number fl False s)"

text \<open>A value, the items of a list up to its bracket, the members of an object up to its brace.\<close>

fun parse_value :: "(string \<Rightarrow> pyfloat) \<Rightarrow> nat \<Rightarrow> string \<Rightarrow> (json \<times> string) option"
and parse_items :: "(string \<Rightarrow> pyfloat) \<Rightarrow> nat \<Rightarrow> string \<Rightarrow> (json list \<times> string) option"
and parse_pairs :: "(string \<Rightarrow> pyfloat) \<Rightarrow> nat \<Rightarrow> string \<Rightarrow> ((string \<times> json) list \<times> string) option" where
  "parse_value fl 0 s = None"
| "parse_value fl (Suc n) s =
     (if s \<noteq> [] \<and> hd s = CHR ''{'' then
        (if skip_ws (tl s) \<noteq> [] \<and> hd (skip_ws (tl s)) = CHR ''}'' then Some (JObj [], tl (skip_ws (tl s)))
         else map_option (\<lambda>(ms, r). (JObj (dict_of_pairs ms), r)) (parse_pairs fl n (skip_ws (tl s))))
      else if s \<noteq> [] \<and> hd s = CHR ''['' then
        (if skip_ws (tl s) \<noteq> [] \<and> hd (skip_ws (tl s)) = CHR '']'' then Some (JArr [], tl (skip_ws (tl s)))
         else map_option (\<lambda>(vs, r). (JArr vs, r)) (parse_items fl n (skip_ws (tl s))))
      else parse_atom fl s)"
| "parse_items fl 0 s = None"
| "parse_items fl (Suc n) s =
     (case parse_value fl n s of
        None \<Rightarrow> None
      | Some (v, r) \<Rightarrow>
          (case skip_ws r of
             [] \<Rightarrow> None
           | e # rest \<Rightarrow>
               if e = CHR '']'' then Some ([v], rest)
               else if e = CHR '','' then map_option (\<lambda>(vs, q). (v # vs, q)) (parse_items fl n (skip_ws rest))
               else None))"
| "parse_pairs fl 0 s = None"
| "parse_pairs fl (Suc n) s =
     (if s = [] \<or> hd s \<noteq> quote_char then None
      else
        (case parse_string (tl s) of
           None \<Rightarrow> None
         | Some (k, r) \<Rightarrow>
             if skip_ws r = [] \<or> hd (skip_ws r) \<noteq> CHR '':'' then None
             else
               (case parse_value fl n (skip_ws (tl (skip_ws r))) of
                  None \<Rightarrow> None
                | Some (v, r2) \<Rightarrow>
                    (case skip_ws r2 of
                       [] \<Rightarrow> None
                     | e # rest \<Rightarrow>
                         if e = CHR ''}'' then Some ([(k, v)], rest)
                         else if e = CHR '','' then map_option (\<lambda>(ms, q). ((k, v) # ms, q)) (parse_pairs fl n (skip_ws rest))
                         else None))))"

definition json_loads :: "(string \<Rightarrow> pyfloat) \<Rightarrow> string \<Rightarrow> json option" where
  "json_loads fl s =
     (case parse_value fl (2 * length s + 2) (skip_ws s) of
        None \<Rightarrow> None
      | Some (v, r) \<Rightarrow> if skip_ws r = [] then Some v else None)"

section \<open>Writing\<close>

fun json_text :: "(rat \<Rightarrow> string) \<Rightarrow> json \<Rightarrow> string" where
  "json_text repr JNull = ''null''"
| "json_text repr (JBool b) = (if b then ''true'' else ''false'')"
| "json_text repr (JInt i) = int_str i"
| "json_text repr (JFloat x) =
     (case x of Fin q \<Rightarrow> repr q | PosInf \<Rightarrow> ''Infinity'' | NegInf \<Rightarrow> ''-Infinity'' | NaN \<Rightarrow> ''NaN'')"
| "json_text repr (JStr s) = json_string s"
| "json_text repr (JArr xs) = CHR ''['' # join_char (CHR '','') (map (json_text repr) xs) @ '']''"
| "json_text repr (JObj kvs) =
     CHR ''{'' # join_char (CHR '','') (map (\<lambda>kv. json_string (fst kv) @ CHR '':'' # json_text repr (snd kv)) kvs) @ ''}''"

text \<open>A value as the program sends them: no floats, no key twice.\<close>

fun plain_json :: "json \<Rightarrow> bool" where
  "plain_json (JFloat x) = False"
| "plain_json (JArr xs) = list_all plain_json xs"
| "plain_json (JObj kvs) = (distinct (map fst kvs) \<and> list_all (\<lambda>kv. plain_json (snd kv)) kvs)"
| "plain_json _ = True"

section \<open>Round trip\<close>

definition text_end :: "string \<Rightarrow> bool" where
  "text_end r \<longleftrightarrow> r = [] \<or> hd r \<in> {CHR '','', CHR ''}'', CHR '']'', CHR 0x0A}"

lemma digit_run_append:
  assumes "list_all is_digit ds" and "text_end r"
  shows "digit_run (ds @ r) = (ds, r)"
proof -
  have "takeWhile is_digit r = []" "dropWhile is_digit r = r"
    using assms(2) by (cases r; auto simp: text_end_def is_digit_def char_in_def)+
  with assms(1) show ?thesis
    by (simp add: digit_run_def list_all_iff takeWhile_append2 dropWhile_append2)
qed

lemma no_fraction: "text_end r \<Longrightarrow> fraction_part r = ([], r) \<and> exponent_part r = ([], r)"
  by (cases r) (auto simp: text_end_def fraction_part_def exponent_part_def)

lemma parse_number_print:
  assumes "text_end r"
  shows "parse_number fl neg (nat_str n @ r) = Some (JInt (if neg then - int n else int n), r)"
proof -
  let ?w = "if nat_str n @ r \<noteq> [] \<and> hd (nat_str n @ r) = CHR ''0'' then (''0'', tl (nat_str n @ r)) else digit_run (nat_str n @ r)"
  have w: "?w = (nat_str n, r)"
  proof (cases "hd (nat_str n) = CHR ''0''")
    case True
    then have "n = 0" using nat_str_hd_zero [of n] by simp
    moreover have "(char_of (48 :: nat) :: char) = CHR ''0''" by (simp add: char_of_def bit_0)
    ultimately show ?thesis by (simp add: nat_str.simps [of 0] digit_char_def)
  next
    case False
    then show ?thesis
      using digit_run_append [OF nat_str_digits assms, of n] by (simp add: nat_str_nonempty hd_append)
  qed
  show ?thesis
    using no_fraction [OF assms] unfolding parse_number_def w Let_def by (simp add: nat_str_nonempty)
qed

lemma parse_atom_int:
  assumes "text_end r"
  shows "parse_atom fl (int_str i @ r) = Some (JInt i, r)"
proof -
  have head: "\<exists>d ds. nat_str m = d # ds \<and> is_digit d" for m
    using nat_str_hd_digit [of m] nat_str_nonempty [of m] by (cases "nat_str m") auto
  show ?thesis
  proof (cases "i < 0")
    case True
    obtain d ds where d: "nat_str (nat (- i)) = d # ds" "is_digit d" using head by blast
    then have "\<not> startswith (nat_str (nat (- i)) @ r) ''Infinity''"
      by (auto simp: startswith_def is_digit_def char_in_def)
    with True parse_number_print [OF assms, of fl True "nat (- i)"] show ?thesis
      by (simp add: parse_atom_def int_str_def)
  next
    case False
    obtain d ds where d: "nat_str (nat i) = d # ds" "is_digit d" using head by blast
    then have "d \<notin> {quote_char, CHR ''n'', CHR ''t'', CHR ''f'', CHR ''N'', CHR ''I'', CHR ''-''}"
      by (auto simp: is_digit_def char_in_def)
    with False d parse_number_print [OF assms, of fl False "nat i"] show ?thesis
      by (simp add: parse_atom_def int_str_def)
  qed
qed

lemma json_text_head:
  assumes "plain_json j"
  shows "\<exists>c cs. json_text repr j = c # cs \<and> c \<notin> {CHR '' '', CHR 0x0A, CHR 0x0D, CHR 0x09, CHR ''}'', CHR '']''}"
proof (cases j)
  case (JInt i)
  have "\<exists>d ds. nat_str m = d # ds \<and> is_digit d" for m
    using nat_str_hd_digit [of m] nat_str_nonempty [of m] by (cases "nat_str m") auto
  from this [of "nat i"] obtain d ds where "nat_str (nat i) = d # ds" "is_digit d" by blast
  then have "i \<ge> 0 \<Longrightarrow> int_str i = d # ds"
    and "d \<notin> {CHR '' '', CHR 0x0A, CHR 0x0D, CHR 0x09, CHR ''}'', CHR '']''}"
    by (auto simp: int_str_def is_digit_def char_in_def)
  with JInt show ?thesis by (cases "i < 0") (simp_all add: int_str_def)
qed (use assms in \<open>auto simp: json_string_def\<close>)

lemma skip_ws_text: "plain_json j \<Longrightarrow> skip_ws (json_text repr j @ r) = json_text repr j @ r"
  using json_text_head [of j repr] by (auto simp: skip_ws_nonspace)

lemma skip_ws_marks [simp]:
  "skip_ws (CHR '':'' # r) = CHR '':'' # r" "skip_ws (CHR '','' # r) = CHR '','' # r"
  "skip_ws (CHR ''}'' # r) = CHR ''}'' # r" "skip_ws (CHR '']'' # r) = CHR '']'' # r"
  by (simp_all add: skip_ws_nonspace)

lemma text_end_marks [simp]:
  "text_end (CHR '','' # r)" "text_end (CHR ''}'' # r)" "text_end (CHR '']'' # r)" "text_end []"
  by (simp_all add: text_end_def)

lemma join_char_Cons:
  "join_char c (p # ps) = (if ps = [] then p else p @ c # join_char c ps)"
  by (cases ps) simp_all

lemma parse_items_print:
  assumes "\<And>x m e. x \<in> set xs \<Longrightarrow> text_end e \<Longrightarrow> 2 * length (json_text repr x) < m \<Longrightarrow>
      parse_value fl m (json_text repr x @ e) = Some (x, e)"
    and "list_all plain_json xs" and "xs \<noteq> []" and "2 * length (join_char (CHR '','') (map (json_text repr) xs)) + 1 < n"
  shows "parse_items fl n (join_char (CHR '','') (map (json_text repr) xs) @ CHR '']'' # r) = Some (xs, r)"
  using assms
proof (induction xs arbitrary: n)
  case (Cons x xs)
  then obtain m where n: "n = Suc m" by (cases n) auto
  show ?case
  proof (cases "xs = []")
    case True
    with Cons.prems(1) [of x "CHR '']'' # r" m] Cons.prems(4) show ?thesis by (simp add: n)
  next
    case False
    from Cons.IH [of m] Cons.prems False have
      "parse_items fl m (join_char (CHR '','') (map (json_text repr) xs) @ CHR '']'' # r) = Some (xs, r)"
      by (simp add: n join_char_Cons)
    moreover have "skip_ws (join_char (CHR '','') (map (json_text repr) xs) @ CHR '']'' # r) =
        join_char (CHR '','') (map (json_text repr) xs) @ CHR '']'' # r"
      using False Cons.prems(2) by (cases xs) (simp_all add: join_char_Cons skip_ws_text)
    ultimately show ?thesis
      using False Cons.prems(1) [of x "CHR '','' # join_char (CHR '','') (map (json_text repr) xs) @ CHR '']'' # r" m]
        Cons.prems(4) by (simp add: n join_char_Cons)
  qed
qed simp

lemma parse_pairs_print:
  assumes "\<And>kv m e. kv \<in> set kvs \<Longrightarrow> text_end e \<Longrightarrow> 2 * length (json_text repr (snd kv)) < m \<Longrightarrow>
      parse_value fl m (json_text repr (snd kv) @ e) = Some (snd kv, e)"
    and "list_all (\<lambda>kv. plain_json (snd kv)) kvs" and "kvs \<noteq> []"
    and "2 * length (join_char (CHR '','') (map (\<lambda>kv. json_string (fst kv) @ CHR '':'' # json_text repr (snd kv)) kvs)) + 1 < n"
  shows "parse_pairs fl n (join_char (CHR '','') (map (\<lambda>kv. json_string (fst kv) @ CHR '':'' # json_text repr (snd kv)) kvs) @ CHR ''}'' # r) =
    Some (kvs, r)"
  using assms
proof (induction kvs arbitrary: n)
  case (Cons kv kvs)
  then obtain m where n: "n = Suc m" by (cases n) auto
  let ?rest = "join_char (CHR '','') (map (\<lambda>kv. json_string (fst kv) @ CHR '':'' # json_text repr (snd kv)) kvs) @ CHR ''}'' # r"
  have key: "parse_string (concat (map json_escape (fst kv)) @ quote_char # e) = Some (fst kv, e)" for e
    by (rule parse_string_escaped)
  show ?case
  proof (cases "kvs = []")
    case True
    with Cons.prems(1) [of kv "CHR ''}'' # r" m] Cons.prems(2,4) key show ?thesis
      by (simp add: n json_string_def skip_ws_text)
  next
    case False
    from Cons.IH [of m] Cons.prems False have "parse_pairs fl m ?rest = Some (kvs, r)"
      by (simp add: n join_char_Cons)
    moreover have "skip_ws ?rest = ?rest"
      using False by (cases kvs) (simp_all add: join_char_Cons json_string_def skip_ws_nonspace)
    ultimately show ?thesis
      using False Cons.prems(1) [of kv "CHR '','' # ?rest" m] Cons.prems(2,4) key
      by (simp add: n join_char_Cons json_string_def skip_ws_text)
  qed
qed simp

lemma parse_value_print:
  "plain_json j \<Longrightarrow> text_end r \<Longrightarrow> 2 * length (json_text repr j) < n \<Longrightarrow>
   parse_value fl n (json_text repr j @ r) = Some (j, r)"
proof (induction j arbitrary: n r)
  case (JArr xs)
  then obtain m where n: "n = Suc m" by (cases n) auto
  show ?case
  proof (cases "xs = []")
    case True
    then show ?thesis by (simp add: n)
  next
    case False
    let ?s = "join_char (CHR '','') (map (json_text repr) xs) @ CHR '']'' # r"
    have "parse_items fl m ?s = Some (xs, r)"
      by (rule parse_items_print) (use JArr False in \<open>auto simp: n list_all_iff\<close>)
    moreover obtain c cs where h: "json_text repr (hd xs) = c # cs"
        and c: "c \<notin> {CHR '' '', CHR 0x0A, CHR 0x0D, CHR 0x09, CHR ''}'', CHR '']''}"
      using False JArr.prems(1) json_text_head [of "hd xs" repr] by (cases xs) auto
    moreover have "\<exists>ys. ?s = c # ys"
      using h False by (cases xs) (simp_all add: join_char_Cons)
    ultimately show ?thesis using c by (auto simp: n skip_ws_nonspace)
  qed
next
  case (JObj kvs)
  then obtain m where n: "n = Suc m" by (cases n) auto
  show ?case
  proof (cases "kvs = []")
    case True
    then show ?thesis by (simp add: n)
  next
    case False
    let ?s = "join_char (CHR '','') (map (\<lambda>kv. json_string (fst kv) @ CHR '':'' # json_text repr (snd kv)) kvs) @ CHR ''}'' # r"
    have "parse_pairs fl m ?s = Some (kvs, r)"
      by (rule parse_pairs_print) (use JObj False in \<open>auto simp: n list_all_iff\<close>)
    moreover have "\<exists>cs. ?s = quote_char # cs"
      using False by (cases kvs) (simp_all add: join_char_Cons json_string_def)
    ultimately show ?thesis using JObj.prems(1) by (auto simp: n skip_ws_nonspace)
  qed
next
  case (JInt i)
  then obtain m where n: "n = Suc m" by (cases n) auto
  have "int_str i \<noteq> [] \<and> hd (int_str i) \<notin> {CHR ''{'', CHR ''[''}"
    using nat_str_hd_digit [of "nat i"] nat_str_nonempty [of "nat i"]
    by (auto simp: int_str_def is_digit_def char_in_def)
  with JInt parse_atom_int [OF JInt(2), of fl i] show ?case by (simp add: n hd_append)
next
  case (JStr s)
  then obtain m where n: "n = Suc m" by (cases n) auto
  show ?case by (simp add: n json_string_def parse_atom_def parse_string_escaped)
next
  case JNull
  then obtain m where n: "n = Suc m" by (cases n) auto
  show ?case by (simp add: n parse_atom_def parse_literal_def startswith_def)
next
  case (JBool b)
  then obtain m where n: "n = Suc m" by (cases n) auto
  show ?case by (simp add: n parse_atom_def parse_literal_def startswith_def)
qed simp

text \<open>What \<open>json.dumps\<close> writes, \<open>json.loads\<close> reads back, also with a line end after it.\<close>

lemma json_loads_line:
  assumes "plain_json j"
  shows "json_loads fl (json_text repr j @ [CHR 0x0A]) = Some j"
  using parse_value_print [OF assms, of "[CHR 0x0A]" repr "2 * length (json_text repr j) + 4" fl]
    skip_ws_text [OF assms, of repr "[CHR 0x0A]"]
  by (simp add: json_loads_def text_end_def eval_nat_numeral) (simp add: skip_ws_def)

lemma json_loads_text:
  assumes "plain_json j"
  shows "json_loads fl (json_text repr j) = Some j"
  using parse_value_print [OF assms, of "[]" repr "2 * length (json_text repr j) + 2" fl] skip_ws_text [OF assms, of repr "[]"]
  by (simp add: json_loads_def) (simp add: skip_ws_def)

section \<open>Fuel\<close>

lemma digit_run_length: "length (fst (digit_run s)) + length (snd (digit_run s)) = length s"
proof -
  have "length (takeWhile is_digit s @ dropWhile is_digit s) = length s" by (simp only: takeWhile_dropWhile_id)
  then show ?thesis unfolding digit_run_def by (simp del: takeWhile_dropWhile_id)
qed

lemma parse_number_length: "parse_number fl neg s = Some (v, r) \<Longrightarrow> length r < length s"
proof -
  assume a: "parse_number fl neg s = Some (v, r)"
  have fr: "length (snd (fraction_part x)) \<le> length x" for x
    using digit_run_length [of "tl x"] by (cases x) (auto simp: fraction_part_def)
  have ex: "length (snd (exponent_part x)) \<le> length x" for x
  proof (cases x)
    case (Cons c cs)
    have "length (snd (digit_run (drop k cs))) \<le> Suc (length cs)" for k
      using digit_run_length [of "drop k cs"] by simp
    then show ?thesis by (simp add: Cons exponent_part_def Let_def)
  qed (simp add: exponent_part_def)
  let ?w = "if s \<noteq> [] \<and> hd s = CHR ''0'' then (''0'', tl s) else digit_run s"
  have "fst ?w \<noteq> [] \<Longrightarrow> length (snd ?w) < length s"
    using digit_run_length [of s] length_greater_0_conv [of "fst (digit_run s)"]
    by (cases s) (auto simp del: length_greater_0_conv split: if_splits)
  with a fr [of "snd ?w"] ex [of "snd (fraction_part (snd ?w))"] show ?thesis
    unfolding parse_number_def Let_def by (auto simp del: fst_conv snd_conv split: if_splits)
qed

lemma parse_literal_shorter: "parse_literal l x s = Some (v, r) \<Longrightarrow> l \<noteq> [] \<Longrightarrow> length r < length s"
  by (cases s; cases l) (auto simp: parse_literal_def startswith_def split: if_splits)

lemma parse_atom_length: "parse_atom fl s = Some (v, r) \<Longrightarrow> length r < length s"
  by (cases s)
    (auto simp: parse_atom_def dest!: parse_literal_shorter parse_string_length [THEN less_SucI] parse_number_length
      split: if_splits)

lemma parse_shortens:
  "parse_value fl n s = Some (v, r) \<Longrightarrow> length r < length s"
  "parse_items fl n s = Some (vs, r) \<Longrightarrow> length r < length s"
  "parse_pairs fl n s = Some (ms, r) \<Longrightarrow> length r < length s"
proof (induction n arbitrary: s v vs ms r)
  case (Suc n)
  have ws: "skip_ws x = e # y \<Longrightarrow> length y < length x" for x y e
    using skip_ws_length [of x] by simp
  have tl: "skip_ws (tl x) \<noteq> [] \<Longrightarrow> length (tl (skip_ws (tl x))) < length x" for x
    using skip_ws_length [of "tl x"] by (cases x; cases "skip_ws (tl x)") auto
  {
    case 1
    then show ?case
      using skip_ws_length [of "tl s"] tl [of s]
      by (cases s) (fastforce dest: Suc(2,3) parse_atom_length split: if_splits)+
  next
    case 2
    then obtain v r1 e rest where "parse_value fl n s = Some (v, r1)" "skip_ws r1 = e # rest"
      and "r = rest \<or> (\<exists>vs1. parse_items fl n (skip_ws rest) = Some (vs1, r))"
      by (auto split: option.splits list.splits if_splits)
    with Suc(1) [of s v r1] ws [of r1 e rest] Suc(2) [of "skip_ws rest" _ r] skip_ws_length [of rest] show ?case
      by fastforce
  next
    case 3
    then obtain k r1 v r2 e rest where "s \<noteq> []" "parse_string (tl s) = Some (k, r1)" "skip_ws r1 \<noteq> []"
        "parse_value fl n (skip_ws (tl (skip_ws r1))) = Some (v, r2)" "skip_ws r2 = e # rest"
      and r: "r = rest \<or> (\<exists>ms1. parse_pairs fl n (skip_ws rest) = Some (ms1, r))"
      by (auto split: option.splits list.splits if_splits)
    moreover have "length (skip_ws (tl (skip_ws r1))) \<le> length r1"
      using skip_ws_length [of "tl (skip_ws r1)"] skip_ws_length [of r1] by simp
    ultimately have "length rest < length s"
      using parse_string_length [of "tl s" k r1] Suc(1) [of "skip_ws (tl (skip_ws r1))" v r2] ws [of r2 e rest]
      by (cases s) auto
    with r Suc(3) [of "skip_ws rest" _ r] skip_ws_length [of rest] show ?case by fastforce
  }
qed simp_all

text \<open>Twice the length of the text is fuel enough: any more gives the same.\<close>

lemma parse_fuel:
  "2 * length s < n \<Longrightarrow> 2 * length s < m \<Longrightarrow> parse_value fl n s = parse_value fl m s"
  "2 * length s + 1 < n \<Longrightarrow> 2 * length s + 1 < m \<Longrightarrow> parse_items fl n s = parse_items fl m s"
  "2 * length s + 1 < n \<Longrightarrow> 2 * length s + 1 < m \<Longrightarrow> parse_pairs fl n s = parse_pairs fl m s"
proof (induction n arbitrary: s m)
  case (Suc n)
  have ws: "skip_ws x = e # y \<Longrightarrow> length y < length x" for x y e
    using skip_ws_length [of x] by simp
  {
    case 1
    then obtain k where m: "m = Suc k" by (cases m) auto
    show ?case
    proof (cases s)
      case (Cons c cs)
      with 1 have "2 * length (skip_ws cs) + 1 < n" "2 * length (skip_ws cs) + 1 < k"
        using skip_ws_length [of cs] by (simp_all add: m)
      with Cons m Suc(2,3) [of "skip_ws cs" k] show ?thesis by (cases "skip_ws cs = []") simp_all
    qed (simp add: m)
  next
    case 2
    then obtain k where m: "m = Suc k" by (cases m) auto
    have v: "parse_value fl n s = parse_value fl k s" using 2 Suc(1) [of s k] by (simp add: m)
    have "parse_items fl n (skip_ws rest) = parse_items fl k (skip_ws rest)"
      if "parse_value fl k s = Some (v, r)" "skip_ws r = e # rest" for v r e rest
      using 2 Suc(2) [of "skip_ws rest" k] parse_shortens(1) [OF that(1)] ws [OF that(2)] skip_ws_length [of rest]
      by (simp add: m)
    with v show ?case by (simp add: m split: option.split list.split)
  next
    case 3
    then obtain k where m: "m = Suc k" by (cases m) auto
    have "parse_value fl n (skip_ws (tl (skip_ws r))) = parse_value fl k (skip_ws (tl (skip_ws r))) \<and>
        (\<forall>v r2 e rest. parse_value fl k (skip_ws (tl (skip_ws r))) = Some (v, r2) \<longrightarrow> skip_ws r2 = e # rest \<longrightarrow>
           parse_pairs fl n (skip_ws rest) = parse_pairs fl k (skip_ws rest))"
      if "s \<noteq> []" "parse_string (tl s) = Some (x, r)" for x r
    proof -
      have l: "length (skip_ws (tl (skip_ws r))) < length s"
        using skip_ws_length [of "tl (skip_ws r)"] skip_ws_length [of r] parse_string_length [OF that(2)] that(1)
        by (cases s) auto
      have "parse_pairs fl n (skip_ws rest) = parse_pairs fl k (skip_ws rest)"
        if "parse_value fl k (skip_ws (tl (skip_ws r))) = Some (v, r2)" "skip_ws r2 = e # rest" for v r2 e rest
        using 3 l Suc(3) [of "skip_ws rest" k] parse_shortens(1) [OF that(1)] ws [OF that(2)] skip_ws_length [of rest]
        by (simp add: m)
      with 3 l Suc(1) [of "skip_ws (tl (skip_ws r))" k] show ?thesis by (simp add: m)
    qed
    then show ?case by (simp add: m split: option.split list.split)
  }
qed simp_all

end
