(* ===== verification/Windows_Bootstrap.thy ===== *)
theory Windows_Bootstrap
  imports Registration Iso_Time Json_Text
begin

text \<open>
  The program that registers a Windows host as an edge node (\<open>windows-edge/bootstrap/register.py\<close>): its
  transport of JSON over HTTPS, the inventory of the host, the registration protocol and the command.
  The network is a function \<open>http\<close> on requests and a state \<open>'s\<close>, the wait between two polls a function
  \<open>sleep\<close> on it (\<open>None\<close> when \<open>time.sleep\<close> raises, for a negative or huge number of seconds); the Windows
  interfaces, the generated key pair (its PEM text and its signing function), SHA-256 (\<open>hash\<close>) and
  \<open>json.loads\<close> on bytes (\<open>loads\<close>) are arguments. \<open>Inl\<close> is an exception: a \<open>BootstrapError\<close> with its text
  or any other. \<open>Host_Registration\<close> joins the program to the control plane.
\<close>

datatype boot_error = Bootstrap_error string | Raised_other

type_synonym ('s, 'a) boot = "'s \<Rightarrow> (boot_error + 'a) \<times> 's"
type_synonym members = "(string \<times> json) list"

definition seq :: "('s, 'a) boot \<Rightarrow> ('a \<Rightarrow> ('s, 'b) boot) \<Rightarrow> ('s, 'b) boot" where
  "seq m f s = (case m s of (Inl e, t) \<Rightarrow> (Inl e, t) | (Inr x, t) \<Rightarrow> f x t)"

section \<open>The transport\<close>

record boot_request =
  hq_method :: string
  hq_url :: string
  hq_headers :: "(string \<times> string) list"
  hq_data :: "string option"

text \<open>What \<open>urlopen\<close> and the reading of the body give: an answer, an exception the program converts
  (\<open>URLError\<close>, \<open>TimeoutError\<close>, \<open>OSError\<close>) or another one (\<open>http.client\<close>).\<close>

datatype http_body = Payload string | Body_failed | Body_raised
datatype http_answer = Answered int http_body | Net_failed | Net_raised

text \<open>\<open>json.loads\<close> raises \<open>UnicodeDecodeError\<close>, \<open>RecursionError\<close> or \<open>ValueError\<close> beside \<open>JSONDecodeError\<close>.\<close>

datatype read_json = Loaded json | Not_json | Read_raised

definition json_transport :: "string \<Rightarrow> boot_error + string" where
  "json_transport server =
     (if \<not> startswith server ''https://'' \<or> endswith server ''/''
      then Inl (Bootstrap_error ''server must be an HTTPS origin without a trailing slash'') else Inr server)"

definition http_request_of ::
  "(rat \<Rightarrow> string) \<Rightarrow> string \<Rightarrow> string \<Rightarrow> string \<Rightarrow> members option \<Rightarrow> (string \<times> string) list \<Rightarrow> boot_request" where
  "http_request_of repr server verb path body headers =
     (let data = map_option (\<lambda>b. json_text repr (JObj b)) body in
      \<lparr>hq_method = verb, hq_url = server @ path,
       hq_headers = dict_merge ((''Accept'', ''application/json'') #
                      (if data = None then [] else [(''Content-Type'', ''application/json'')])) headers,
       hq_data = data\<rparr>)"

definition request_failed :: boot_error where
  "request_failed = Bootstrap_error ''registration service request failed''"

definition transport_answer :: "(string \<Rightarrow> read_json) \<Rightarrow> http_answer \<Rightarrow> boot_error + members" where
  "transport_answer loads answer =
     (case answer of
        Net_failed \<Rightarrow> Inl request_failed
      | Net_raised \<Rightarrow> Inl Raised_other
      | Answered code body \<Rightarrow>
          if code < 200 \<or> 300 \<le> code then Inl (Bootstrap_error ''registration service rejected the request'')
          else
            (case body of
               Body_failed \<Rightarrow> Inl request_failed
             | Body_raised \<Rightarrow> Inl Raised_other
             | Payload p \<Rightarrow>
                 (let payload = take 1048577 p in
                  if 1048576 < length payload then Inl (Bootstrap_error ''registration response is too large'')
                  else
                    (case loads payload of
                       Not_json \<Rightarrow> Inl request_failed
                     | Read_raised \<Rightarrow> Inl Raised_other
                     | Loaded (JObj d) \<Rightarrow> Inr d
                     | Loaded _ \<Rightarrow> Inl (Bootstrap_error ''registration service returned invalid data'')))))"

definition transport_request ::
  "(string \<Rightarrow> read_json) \<Rightarrow> (rat \<Rightarrow> string) \<Rightarrow> (boot_request \<Rightarrow> 's \<Rightarrow> http_answer \<times> 's) \<Rightarrow> string \<Rightarrow> string \<Rightarrow> string \<Rightarrow>
   members option \<Rightarrow> (string \<times> string) list \<Rightarrow> ('s, members) boot" where
  "transport_request loads repr http server verb path body headers s =
     (let (answer, t) = http (http_request_of repr server verb path body headers) s
      in (transport_answer loads answer, t))"

section \<open>The inventory\<close>

datatype registry = Registry_text string | Registry_other string | Registry_error

record host =
  ho_machine_guid :: registry
  ho_hostname :: string
  ho_product_name :: registry
  ho_build_number :: registry
  ho_platform :: string
  ho_cpu_count :: "int option"
  ho_total_phys :: "int option"
  ho_system_drive :: "string option"
  ho_disk_total :: "string \<Rightarrow> int option"

record inventory =
  iv_machine_fingerprint :: string
  iv_reported_hostname :: string
  iv_os_name :: string
  iv_cpu_count :: int
  iv_memory_total_bytes :: int
  iv_disk_total_bytes :: int
  iv_agent_version :: string

text \<open>A registry value that is not a text is shown as the format string prints it.\<close>

definition machine_guid :: "host \<Rightarrow> boot_error + string" where
  "machine_guid h =
     (case ho_machine_guid h of
        Registry_error \<Rightarrow> Inl Raised_other
      | Registry_other _ \<Rightarrow> Inl (Bootstrap_error ''Windows machine identity is unavailable'')
      | Registry_text v \<Rightarrow>
          if strip v = [] then Inl (Bootstrap_error ''Windows machine identity is unavailable'') else Inr (strip v))"

definition registry_str :: "registry \<Rightarrow> string option" where
  "registry_str r = (case r of Registry_text v \<Rightarrow> Some v | Registry_other v \<Rightarrow> Some v | Registry_error \<Rightarrow> None)"

definition host_os_name :: "host \<Rightarrow> string" where
  "host_os_name h =
     (case (registry_str (ho_product_name h), registry_str (ho_build_number h)) of
        (Some product, Some build) \<Rightarrow> product @ '' build '' @ build
      | _ \<Rightarrow> ho_platform h)"

definition memory_bytes :: "host \<Rightarrow> boot_error + int" where
  "memory_bytes h =
     (case ho_total_phys h of
        None \<Rightarrow> Inl (Bootstrap_error ''Windows memory inventory is unavailable'')
      | Some n \<Rightarrow> Inr n)"

definition disk_bytes :: "host \<Rightarrow> boot_error + int" where
  "disk_bytes h =
     (let drive = (case ho_system_drive h of None \<Rightarrow> ''C:'' | Some d \<Rightarrow> d) @ [backslash] in
      case ho_disk_total h drive of None \<Rightarrow> Inl Raised_other | Some n \<Rightarrow> Inr n)"

definition collect_inventory :: "(string \<Rightarrow> string) \<Rightarrow> host \<Rightarrow> boot_error + inventory" where
  "collect_inventory hash h =
     (let incomplete = Inl (Bootstrap_error ''Windows host inventory is incomplete'') in
      case machine_guid h of
        Inl e \<Rightarrow> Inl e
      | Inr guid \<Rightarrow>
          (case memory_bytes h of
             Inl e \<Rightarrow> Inl e
           | Inr memory \<Rightarrow>
               (case disk_bytes h of
                  Inl e \<Rightarrow> Inl e
                | Inr disk \<Rightarrow>
                    (case ho_cpu_count h of
                       None \<Rightarrow> incomplete
                     | Some cpu \<Rightarrow>
                         if ho_hostname h = [] then incomplete
                         else if min cpu (min memory disk) < 1 then incomplete
                         else
                           Inr \<lparr>iv_machine_fingerprint = hash guid, iv_reported_hostname = ho_hostname h,
                                iv_os_name = host_os_name h, iv_cpu_count = cpu, iv_memory_total_bytes = memory,
                                iv_disk_total_bytes = disk, iv_agent_version = ''windows-bootstrap/1''\<rparr>))))"

definition inventory_members :: "inventory \<Rightarrow> members" where
  "inventory_members iv =
     [(''machine_fingerprint'', JStr (iv_machine_fingerprint iv)), (''reported_hostname'', JStr (iv_reported_hostname iv)),
      (''os_name'', JStr (iv_os_name iv)), (''cpu_count'', JInt (iv_cpu_count iv)),
      (''memory_total_bytes'', JInt (iv_memory_total_bytes iv)), (''disk_total_bytes'', JInt (iv_disk_total_bytes iv)),
      (''agent_version'', JStr (iv_agent_version iv))]"

section \<open>The protocol\<close>

definition bootstrap_message :: "string \<Rightarrow> string \<Rightarrow> string \<Rightarrow> string \<Rightarrow> inventory \<Rightarrow> string" where
  "bootstrap_message purpose request_id challenge public_ipv4 iv =
     (let nl = [CHR 0x0A] in
      utf8_encode (purpose @ nl @ request_id @ nl @ challenge @ nl @ public_ipv4 @ nl @ iv_machine_fingerprint iv @ nl))"

definition supported_host :: "inventory \<Rightarrow> bool" where
  "supported_host iv \<longleftrightarrow> list_ex (\<lambda>i. startswith (drop i (iv_os_name iv)) ''Windows Server 2025'') [0..<Suc (length (iv_os_name iv))]"

fun text_member :: "json option \<Rightarrow> string option" where
  "text_member (Some (JStr v)) = (if v = [] then None else Some v)"
| "text_member _ = None"

definition request_path :: "string \<Rightarrow> string \<Rightarrow> string" where
  "request_path request_id action = ''/api/node-registration-requests/'' @ request_id @ CHR ''/'' # action"

definition bootstrap_signed :: "(string \<Rightarrow> string) \<Rightarrow> string \<Rightarrow> string \<Rightarrow> members" where
  "bootstrap_signed sign challenge message =
     [(''challenge'', JStr challenge), (''signature'', JStr (b64encode (sign message)))]"

definition invalid_state :: boot_error where
  "invalid_state = Bootstrap_error ''registration service returned invalid state''"

text \<open>One answer of a poll: the claim, an end, or the wait before the other polls \<open>rest\<close>; \<open>req\<close> is the
  transport's \<open>request\<close>.\<close>

definition poll_answer ::
  "(string \<Rightarrow> string \<Rightarrow> members option \<Rightarrow> (string \<times> string) list \<Rightarrow> ('s, members) boot) \<Rightarrow> ('s \<Rightarrow> 's option) \<Rightarrow> (string \<Rightarrow> string) \<Rightarrow>
   inventory \<Rightarrow> string \<Rightarrow> string \<Rightarrow> (string \<times> string) list \<Rightarrow> ('s, members) boot \<Rightarrow> members \<Rightarrow> ('s, members) boot" where
  "poll_answer req sleep sign iv public_ipv4 request_id auth rest status s =
     (let state = map_of status ''status'' in
      if state = Some (JStr ''approved'') then
        (case map_of status ''claim_challenge'' of
           Some (JStr c) \<Rightarrow>
             if length c < 32 then (Inl invalid_state, s)
             else
               req ''POST'' (request_path request_id ''claim-approved'')
                 (Some (bootstrap_signed sign c (bootstrap_message ''hermes-node-claim-v1'' request_id c public_ipv4 iv))) auth s
         | _ \<Rightarrow> (Inl invalid_state, s))
      else if state \<in> {Some (JStr ''rejected''), Some (JStr ''expired''), Some (JStr ''failed'')} then
        (Inl (Bootstrap_error (''registration '' @ (case state of Some (JStr x) \<Rightarrow> x | _ \<Rightarrow> []))), s)
      else if state \<notin> {Some (JStr ''pending_approval''), Some (JStr ''pending_proof'')} then (Inl invalid_state, s)
      else (case sleep s of None \<Rightarrow> (Inl Raised_other, s) | Some t \<Rightarrow> rest t))"

primrec bootstrap_poll ::
  "(string \<Rightarrow> string \<Rightarrow> members option \<Rightarrow> (string \<times> string) list \<Rightarrow> ('s, members) boot) \<Rightarrow> ('s \<Rightarrow> 's option) \<Rightarrow> (string \<Rightarrow> string) \<Rightarrow>
   inventory \<Rightarrow> string \<Rightarrow> string \<Rightarrow> (string \<times> string) list \<Rightarrow> nat \<Rightarrow> ('s, members) boot" where
  "bootstrap_poll req sleep sign iv public_ipv4 request_id auth 0 =
     (\<lambda>s. (Inl (Bootstrap_error ''registration approval timed out''), s))"
| "bootstrap_poll req sleep sign iv public_ipv4 request_id auth (Suc n) =
     seq (req ''GET'' (request_path request_id ''status'') None auth)
       (poll_answer req sleep sign iv public_ipv4 request_id auth (bootstrap_poll req sleep sign iv public_ipv4 request_id auth n))"

text \<open>The proof and the polls once the service has answered the request, and the request itself once it
  has told the address it sees.\<close>

definition prove_and_poll ::
  "(string \<Rightarrow> string \<Rightarrow> members option \<Rightarrow> (string \<times> string) list \<Rightarrow> ('s, members) boot) \<Rightarrow> ('s \<Rightarrow> 's option) \<Rightarrow> (string \<Rightarrow> string) \<Rightarrow>
   inventory \<Rightarrow> string \<Rightarrow> nat \<Rightarrow> members \<Rightarrow> ('s, members) boot" where
  "prove_and_poll req sleep sign iv public_ipv4 max_polls created =
     (case (text_member (map_of created ''request_id''), text_member (map_of created ''challenge''),
            text_member (map_of created ''registration_token'')) of
        (Some request_id, Some challenge, Some token_secret) \<Rightarrow>
          (let auth = [(''Authorization'', ''Registration '' @ request_id @ dot # token_secret)] in
           seq (req ''POST'' (request_path request_id ''proof'')
             (Some (bootstrap_signed sign challenge
                (bootstrap_message ''hermes-node-registration-v1'' request_id challenge public_ipv4 iv))) auth)
             (\<lambda>_. bootstrap_poll req sleep sign iv public_ipv4 request_id auth max_polls))
      | _ \<Rightarrow> Pair (Inl (Bootstrap_error ''registration service returned invalid data'')))"

definition request_registration ::
  "(string \<Rightarrow> string \<Rightarrow> members option \<Rightarrow> (string \<times> string) list \<Rightarrow> ('s, members) boot) \<Rightarrow> ('s \<Rightarrow> 's option) \<Rightarrow> string \<Rightarrow>
   (string \<Rightarrow> string) \<Rightarrow> inventory \<Rightarrow> nat \<Rightarrow> members \<Rightarrow> ('s, members) boot" where
  "request_registration req sleep public_pem sign iv max_polls source =
     (case map_of source ''public_ipv4'' of
        Some (JStr public_ipv4) \<Rightarrow>
          seq (req ''POST'' ''/api/node-registration-requests''
            (Some (dict_merge (inventory_members iv)
               [(''platform'', JStr ''windows''), (''public_ipv4'', JStr public_ipv4), (''public_key_pem'', JStr public_pem)])) [])
            (prove_and_poll req sleep sign iv public_ipv4 max_polls)
      | _ \<Rightarrow> Pair (Inl (Bootstrap_error ''public IPv4 is unavailable'')))"

definition enroll ::
  "(string \<Rightarrow> string \<Rightarrow> members option \<Rightarrow> (string \<times> string) list \<Rightarrow> ('s, members) boot) \<Rightarrow> ('s \<Rightarrow> 's option) \<Rightarrow> string \<Rightarrow>
   (string \<Rightarrow> string) \<Rightarrow> inventory \<Rightarrow> nat \<Rightarrow> ('s, members) boot" where
  "enroll req sleep public_pem sign iv max_polls =
     (if \<not> supported_host iv then Pair (Inl (Bootstrap_error ''unsupported Windows host''))
      else
        seq (req ''GET'' ''/api/node-registration-source'' None [])
          (request_registration req sleep public_pem sign iv max_polls))"

text \<open>The command: its exit code and what it prints on standard output; an exception that is not a
  \<open>BootstrapError\<close> ends it with a traceback and exit code 1.\<close>

definition bootstrap_main ::
  "(string \<Rightarrow> read_json) \<Rightarrow> (rat \<Rightarrow> string) \<Rightarrow> (boot_request \<Rightarrow> 's \<Rightarrow> http_answer \<times> 's) \<Rightarrow> ('s \<Rightarrow> 's option) \<Rightarrow> (string \<Rightarrow> string) \<Rightarrow>
   string \<Rightarrow> (string \<Rightarrow> string) \<Rightarrow> host \<Rightarrow> string \<Rightarrow> nat \<Rightarrow> 's \<Rightarrow> int \<times> string \<times> 's" where
  "bootstrap_main loads repr http sleep hash public_pem sign h server max_polls s =
     (let outcome =
            (case json_transport server of
               Inl e \<Rightarrow> (Inl e, s)
             | Inr origin \<Rightarrow>
                 (case collect_inventory hash h of
                    Inl e \<Rightarrow> (Inl e, s)
                  | Inr iv \<Rightarrow> enroll (transport_request loads repr http origin) sleep public_pem sign iv max_polls s))
      in case outcome of
           (Inr claim, t) \<Rightarrow> (0, json_text repr (JObj claim) @ [CHR 0x0A], t)
         | (Inl (Bootstrap_error _), t) \<Rightarrow> (2, [], t)
         | (Inl Raised_other, t) \<Rightarrow> (1, [], t))"

section \<open>What the program asks for, and how often\<close>

text \<open>A network that records the requests, and a wait that does not.\<close>

definition logged :: "(boot_request \<Rightarrow> 's \<Rightarrow> http_answer \<times> 's) \<Rightarrow> boot_request \<Rightarrow> boot_request list \<times> 's \<Rightarrow> http_answer \<times> (boot_request list \<times> 's)" where
  "logged http q s = (case http q (snd s) of (a, t) \<Rightarrow> (a, (fst s @ [q], t)))"

definition unlogged :: "('s \<Rightarrow> 's option) \<Rightarrow> boot_request list \<times> 's \<Rightarrow> (boot_request list \<times> 's) option" where
  "unlogged sleep s = map_option (Pair (fst s)) (sleep (snd s))"

definition registration_url :: "string \<Rightarrow> boot_request \<Rightarrow> bool" where
  "registration_url server q \<longleftrightarrow> startswith (hq_url q) (server @ ''/api/node-registration-'')"

definition asks :: "string \<Rightarrow> nat \<Rightarrow> (boot_request list \<times> 's, 'a) boot \<Rightarrow> bool" where
  "asks server k m \<longleftrightarrow>
     (\<forall>s r t. m s = (r, t) \<longrightarrow>
        (\<exists>qs. fst t = fst s @ qs \<and> length qs \<le> k \<and> (\<forall>q \<in> set qs. registration_url server q)))"

lemma asks_stop: "asks server k (Pair r)"
  by (simp add: asks_def)

lemma asks_request:
  assumes "startswith path ''/api/node-registration-''" and "0 < k"
  shows "asks server k (transport_request loads repr (logged http) server verb path body headers)"
  using assms
  by (auto simp: asks_def transport_request_def logged_def http_request_of_def registration_url_def startswith_iff Let_def
      split: prod.splits)

lemma asks_seq:
  assumes "asks server i m" and "\<And>x. asks server j (f x)" and "i + j \<le> k"
  shows "asks server k (seq m f)"
  unfolding asks_def
proof (intro allI impI)
  fix s r t assume a: "seq m f s = (r, t)"
  obtain r1 s1 where m: "m s = (r1, s1)" by (cases "m s")
  with assms(1) obtain qs where qs: "fst s1 = fst s @ qs" "length qs \<le> i" "\<forall>q \<in> set qs. registration_url server q"
    unfolding asks_def by blast
  show "\<exists>qs. fst t = fst s @ qs \<and> length qs \<le> k \<and> (\<forall>q \<in> set qs. registration_url server q)"
  proof (cases r1)
    case Inl
    with a m qs assms(3) show ?thesis by (auto simp: seq_def)
  next
    case (Inr x)
    with a m have "f x s1 = (r, t)" by (simp add: seq_def)
    with assms(2) [of x] obtain qs2 where "fst t = fst s1 @ qs2" "length qs2 \<le> j" "\<forall>q \<in> set qs2. registration_url server q"
      unfolding asks_def by blast
    with qs assms(3) show ?thesis by (intro exI [of _ "qs @ qs2"]) auto
  qed
qed

lemma registration_paths [simp]:
  "startswith (request_path i a) ''/api/node-registration-''" "startswith ''/api/node-registration-source'' ''/api/node-registration-''"
  "startswith ''/api/node-registration-requests'' ''/api/node-registration-''"
  by (simp_all add: request_path_def startswith_def)

lemma poll_answer_cases:
  obtains (claim) c where "32 \<le> length c" "map_of status ''status'' = Some (JStr ''approved'')"
      "map_of status ''claim_challenge'' = Some (JStr c)"
      "poll_answer req sleep sign iv ip i auth rest status = req ''POST'' (request_path i ''claim-approved'')
         (Some (bootstrap_signed sign c (bootstrap_message ''hermes-node-claim-v1'' i c ip iv))) auth"
  | (stop) e where "poll_answer req sleep sign iv ip i auth rest status = Pair (Inl e)"
  | (wait) "poll_answer req sleep sign iv ip i auth rest status =
      (\<lambda>s. case sleep s of None \<Rightarrow> (Inl Raised_other, s) | Some t \<Rightarrow> rest t)"
proof (cases "map_of status ''status'' = Some (JStr ''approved'')")
  case True
  show thesis
  proof (cases "\<exists>c. map_of status ''claim_challenge'' = Some (JStr c) \<and> 32 \<le> length c")
    case c: True
    with True show thesis by (auto intro!: claim simp: poll_answer_def fun_eq_iff)
  next
    case False
    with True have "poll_answer req sleep sign iv ip i auth rest status s = (Inl invalid_state, s)" for s
      by (auto simp: poll_answer_def split: option.split json.split)
    then show thesis by (auto intro!: stop [of invalid_state])
  qed
next
  case False
  show thesis
  proof (cases "map_of status ''status'' \<in> {Some (JStr ''pending_approval''), Some (JStr ''pending_proof'')}")
    case True
    then show thesis by (auto intro!: wait simp: poll_answer_def fun_eq_iff)
  next
    case other: False
    with False show thesis
      by (cases "map_of status ''status'' \<in> {Some (JStr ''rejected''), Some (JStr ''expired''), Some (JStr ''failed'')}")
        (rule stop, simp add: poll_answer_def fun_eq_iff)+
  qed
qed

lemma asks_poll:
  "asks server (Suc n) (bootstrap_poll (transport_request loads repr (logged http) server) (unlogged sleep) sign iv ip i auth n)"
proof (induction n)
  case 0
  show ?case by (simp add: asks_def)
next
  case (Suc n)
  let ?req = "transport_request loads repr (logged http) server"
  let ?poll = "bootstrap_poll ?req (unlogged sleep) sign iv ip i auth n"
  have claim: "asks server (Suc n) (?req ''POST'' (request_path i ''claim-approved'') b auth)" for b
    by (rule asks_request) simp_all
  have wait: "asks server (Suc n) (\<lambda>s. case unlogged sleep s of None \<Rightarrow> (Inl Raised_other, s) | Some t \<Rightarrow> ?poll t)"
    using Suc.IH unfolding asks_def by (fastforce simp: unlogged_def split: option.splits)
  have "asks server (Suc n) (poll_answer ?req (unlogged sleep) sign iv ip i auth ?poll status)" for status
    by (rule poll_answer_cases [of status ?req "unlogged sleep" sign iv ip i auth ?poll])
      (simp_all add: asks_stop claim wait)
  note answer = this
  show ?case
    unfolding bootstrap_poll.simps(2) by (rule asks_seq [OF asks_request [of _ 1] answer]) simp_all
qed

lemma asks_enroll:
  "asks server (n + 4) (enroll (transport_request loads repr (logged http) server) (unlogged sleep) pem sign iv n)"
proof -
  let ?req = "transport_request loads repr (logged http) server"
  have "asks server (n + 2) (seq (?req ''POST'' (request_path i ''proof'') b auth)
      (\<lambda>_. bootstrap_poll ?req (unlogged sleep) sign iv ip i auth n))" for i b auth ip
    by (rule asks_seq [OF asks_request [of _ 1] asks_poll]) simp_all
  then have "asks server (n + 2) (prove_and_poll ?req (unlogged sleep) sign iv ip n created)" for ip created
    by (simp add: prove_and_poll_def asks_stop Let_def split: option.split)
  note created = this
  have "asks server (n + 3) (seq (?req ''POST'' ''/api/node-registration-requests'' b [])
      (prove_and_poll ?req (unlogged sleep) sign iv ip n))" for b ip
    by (rule asks_seq [OF asks_request [of _ 1] created]) simp_all
  then have "asks server (n + 3) (request_registration ?req (unlogged sleep) pem sign iv n source)" for source
    by (simp add: request_registration_def asks_stop split: option.split json.split)
  note source = this
  have "asks server (n + 4) (seq (?req ''GET'' ''/api/node-registration-source'' None [])
      (request_registration ?req (unlogged sleep) pem sign iv n))"
    by (rule asks_seq [OF asks_request [of _ 1] source]) simp_all
  then show ?thesis by (simp add: enroll_def asks_stop)
qed

text \<open>A result of the protocol is the answer to a claim.\<close>

definition claims :: "(boot_request list \<times> 's, 'a) boot \<Rightarrow> bool" where
  "claims m \<longleftrightarrow>
     (\<forall>s x t. m s = (Inr x, t) \<longrightarrow>
        (\<exists>qs q. fst t = qs @ [q] \<and> hq_method q = ''POST'' \<and> endswith (hq_url q) ''/claim-approved''))"

lemma claims_stop: "claims (Pair (Inl e))"
  by (simp add: claims_def)

lemma claims_seq: "(\<And>x. claims (f x)) \<Longrightarrow> claims (seq m f)"
  by (auto simp: claims_def seq_def split: prod.splits sum.splits)

lemma claim_path_end: "endswith (server @ request_path i ''claim-approved'') ''/claim-approved''"
proof -
  have "server @ request_path i ''claim-approved'' = (server @ ''/api/node-registration-requests/'' @ i) @ ''/claim-approved''"
    by (simp add: request_path_def)
  then show ?thesis by (simp only: endswith_append)
qed

lemma claims_request:
  "claims (transport_request loads repr (logged http) server ''POST'' (request_path i ''claim-approved'') body headers)"
  by (auto simp: claims_def transport_request_def logged_def http_request_of_def claim_path_end Let_def split: prod.splits)

lemma claims_poll:
  "claims (bootstrap_poll (transport_request loads repr (logged http) server) (unlogged sleep) sign iv ip i auth n)"
proof (induction n)
  case 0
  show ?case by (simp add: claims_def)
next
  case (Suc n)
  let ?req = "transport_request loads repr (logged http) server"
  let ?poll = "bootstrap_poll ?req (unlogged sleep) sign iv ip i auth n"
  have "claims (\<lambda>s. case unlogged sleep s of None \<Rightarrow> (Inl Raised_other, s) | Some t \<Rightarrow> ?poll t)"
    using Suc unfolding claims_def by (auto split: option.splits)
  note wait = this
  have "claims (poll_answer ?req (unlogged sleep) sign iv ip i auth ?poll status)" for status
    by (rule poll_answer_cases [of status ?req "unlogged sleep" sign iv ip i auth ?poll])
      (simp_all add: claims_stop claims_request wait)
  then show ?case by (simp add: claims_seq)
qed

lemma claims_enroll:
  "claims (enroll (transport_request loads repr (logged http) server) (unlogged sleep) pem sign iv n)"
proof -
  let ?req = "transport_request loads repr (logged http) server"
  have "claims (prove_and_poll ?req (unlogged sleep) sign iv ip n created)" for ip created
    by (simp add: prove_and_poll_def claims_stop claims_seq claims_poll Let_def split: option.split)
  then have "claims (request_registration ?req (unlogged sleep) pem sign iv n source)" for source
    by (simp add: request_registration_def claims_stop claims_seq split: option.split json.split)
  then show ?thesis by (simp add: enroll_def claims_stop claims_seq)
qed


section \<open>A host without a network\<close>

definition demo_machine :: host where
  "demo_machine =
     \<lparr>ho_machine_guid = Registry_text ''g'', ho_hostname = ''h'', ho_product_name = Registry_text ''Windows Server 2025 Standard'',
      ho_build_number = Registry_text ''26100'', ho_platform = ''p'', ho_cpu_count = Some 4, ho_total_phys = Some 8,
      ho_system_drive = None, ho_disk_total = (\<lambda>_. Some 8)\<rparr>"

lemma demo_guid: "strip ''g'' = ''g''"
  by (simp add: strip_def is_space_def char_in_def)

lemma demo_collect: "\<exists>iv. collect_inventory hash demo_machine = Inr iv \<and> supported_host iv"
  using demo_guid
  by (simp add: collect_inventory_def demo_machine_def machine_guid_def memory_bytes_def disk_bytes_def host_os_name_def
      registry_str_def supported_host_def startswith_def Let_def)


end
