(* ===== verification/Host_Registration.thy ===== *)
theory Host_Registration
  imports Windows_Bootstrap
begin

text \<open>
  A Windows host and the control plane together: the program of \<open>Windows_Bootstrap\<close> sends its requests to
  the handlers of \<open>Registration\<close>, through the JSON texts of both sides, the constraints \<open>cloudbrowser/app.py\<close>
  declares on the bodies and the paths of the routes. The middleware in front of the handlers is in
  \<open>Gateway\<close> and is not applied here. The result is that a host whose request is accepted obtains the
  credentials of its node.
\<close>

section \<open>The control plane at the other end\<close>

text \<open>The declared constraints of the three bodies. A number may also come as a text, a boolean or a
  float with an integral value; what pydantic makes of those is the argument \<open>coerce\<close>.\<close>

definition str_field :: "nat \<Rightarrow> nat \<Rightarrow> members \<Rightarrow> string \<Rightarrow> string option" where
  "str_field lo hi d k =
     (case map_of d k of Some (JStr v) \<Rightarrow> if lo \<le> length v \<and> length v \<le> hi then Some v else None | _ \<Rightarrow> None)"

definition int_field :: "(json \<Rightarrow> int option) \<Rightarrow> int \<Rightarrow> int \<Rightarrow> members \<Rightarrow> string \<Rightarrow> int option" where
  "int_field coerce lo hi d k =
     (case (case map_of d k of None \<Rightarrow> None | Some (JInt i) \<Rightarrow> Some i | Some j \<Rightarrow> coerce j) of
        None \<Rightarrow> None
      | Some i \<Rightarrow> if lo \<le> i \<and> i \<le> hi then Some i else None)"

definition int64_max :: int where
  "int64_max = 2 ^ 63 - 1"

definition create_body :: "(json \<Rightarrow> int option) \<Rightarrow> json \<Rightarrow> registration_create_body option" where
  "create_body coerce j =
     (case j of
        JObj d \<Rightarrow>
          (case (str_field 80 1000 d ''public_key_pem'', str_field 0 7 d ''platform'', str_field 64 64 d ''machine_fingerprint'',
                 str_field 1 255 d ''reported_hostname'', str_field 7 15 d ''public_ipv4'', str_field 1 100 d ''os_name'',
                 int_field coerce 1 4096 d ''cpu_count'', int_field coerce 1 int64_max d ''memory_total_bytes'',
                 int_field coerce 1 int64_max d ''disk_total_bytes'', str_field 1 100 d ''agent_version'') of
             (Some pem, Some os, Some fingerprint, Some name, Some ip, Some os_text, Some cpu, Some memory, Some disk, Some agent) \<Rightarrow>
               if os \<in> {''linux'', ''windows''} \<and> lower_hex fingerprint then
                 Some \<lparr>rb_public_key_pem = pem, rb_platform = os, rb_machine_fingerprint = fingerprint,
                       rb_reported_hostname = name, rb_public_ipv4 = ip, rb_os_name = os_text, rb_cpu_count = cpu,
                       rb_memory_total_bytes = memory, rb_disk_total_bytes = disk, rb_agent_version = agent\<rparr>
               else None
           | _ \<Rightarrow> None)
      | _ \<Rightarrow> None)"

definition challenge_body :: "json \<Rightarrow> signed_challenge option" where
  "challenge_body j =
     (case j of
        JObj d \<Rightarrow>
          (case (str_field 32 200 d ''challenge'', str_field 80 200 d ''signature'') of
             (Some c, Some sg) \<Rightarrow> Some \<lparr>sc_challenge = c, sc_signature = sg\<rparr>
           | _ \<Rightarrow> None)
      | _ \<Rightarrow> None)"

text \<open>The values of a response as JSON; instants are written as \<open>isoformat\<close> does.\<close>

fun val_json :: "val \<Rightarrow> json" where
  "val_json VNull = JNull"
| "val_json (VBool b) = JBool b"
| "val_json (VInt i) = JInt i"
| "val_json (VFloat x) = JFloat x"
| "val_json (VStr s) = JStr s"
| "val_json (VTime t) = JStr (isoformat t)"
| "val_json (VList vs) = JArr (map val_json vs)"
| "val_json (VObj d) = JObj (map (\<lambda>kv. (fst kv, val_json (snd kv))) d)"

definition response_members :: "details \<Rightarrow> members" where
  "response_members d = map (\<lambda>kv. (fst kv, val_json (snd kv))) d"

text \<open>What the control plane runs with: \<open>cp_source\<close> is the trusted source of the host's requests
  (\<open>trusted_claim_source\<close>), the three generated texts are those of the request it creates.\<close>

record control_plane =
  cp_origin :: string
  cp_hash :: "string \<Rightarrow> string"
  cp_mac :: "string \<Rightarrow> string \<Rightarrow> string"
  cp_secret_key :: string
  cp_keys :: key_ops
  cp_package :: "string \<Rightarrow> http_error + string \<times> string"
  cp_public_origin :: "string option"
  cp_source :: "string option"
  cp_uuid :: string
  cp_challenge :: string
  cp_token :: string

definition http_respond :: "(rat \<Rightarrow> string) \<Rightarrow> http_error + details \<Rightarrow> http_answer" where
  "http_respond repr r =
     (case r of
        Inl _ \<Rightarrow> Net_failed
      | Inr d \<Rightarrow> Answered 200 (Payload (json_text repr (JObj (response_members d)))))"

text \<open>The routes of the registration protocol; a body that does not validate is answered 422, an error
  reaches the program as an \<open>HTTPError\<close>. \<open>clks\<close> gives every request its clock, \<open>others\<close> what other
  transactions commit during it.\<close>

definition registration_route ::
  "control_plane \<Rightarrow> (json \<Rightarrow> int option) \<Rightarrow> clock \<Rightarrow> (db \<Rightarrow> db) \<Rightarrow> string \<Rightarrow> string \<Rightarrow> string option \<Rightarrow> json option \<Rightarrow> db \<Rightarrow>
   details result" where
  "registration_route cp coerce clk other verb path authorization body d =
     (let invalid = Http 422 ''Validation error''; missing = Http 404 ''Not Found'' in
      if verb = ''GET'' \<and> path = ''/api/node-registration-source'' then
        (map_sum id (\<lambda>ip. [(''public_ipv4'', VStr ip)]) (node_registration_source (cp_source cp)), d)
      else if verb = ''POST'' \<and> path = ''/api/node-registration-requests'' then
        (case Option.bind body (create_body coerce) of
           None \<Rightarrow> (Inl invalid, d)
         | Some b \<Rightarrow>
             create_node_registration (cp_hash cp) (cp_keys cp) clk (cp_uuid cp) (cp_challenge cp) (cp_token cp) (cp_source cp) b d)
      else
        (case split_char (CHR ''/'') path of
           [front, api, collection, i, action] \<Rightarrow>
             if front \<noteq> [] \<or> api \<noteq> ''api'' \<or> collection \<noteq> ''node-registration-requests'' \<or> i = [] then (Inl missing, d)
             else if verb = ''GET'' \<and> action = ''status'' then
               node_registration_status (cp_hash cp) (cp_mac cp) (cp_secret_key cp) authorization i d
             else if verb = ''POST'' \<and> action = ''proof'' then
               (case Option.bind body challenge_body of
                  None \<Rightarrow> (Inl invalid, d)
                | Some b \<Rightarrow> prove_node_registration (cp_hash cp) (cp_keys cp) clk other (cp_source cp) authorization i b d)
             else if verb = ''POST'' \<and> action = ''claim-approved'' then
               (case Option.bind body challenge_body of
                  None \<Rightarrow> (Inl invalid, d)
                | Some b \<Rightarrow>
                    claim_approved_node_registration (cp_hash cp) (cp_mac cp) (cp_secret_key cp) (cp_keys cp) (cp_package cp)
                      (cp_public_origin cp) clk other (cp_source cp) authorization i b d)
             else (Inl missing, d)
         | _ \<Rightarrow> (Inl missing, d)))"

definition control_http ::
  "control_plane \<Rightarrow> (string \<Rightarrow> pyfloat) \<Rightarrow> (rat \<Rightarrow> string) \<Rightarrow> (json \<Rightarrow> int option) \<Rightarrow> (nat \<Rightarrow> clock) \<Rightarrow> (nat \<Rightarrow> db \<Rightarrow> db) \<Rightarrow>
   boot_request \<Rightarrow> nat \<times> db \<Rightarrow> http_answer \<times> (nat \<times> db)" where
  "control_http cp fl repr coerce clks others q st =
     (case st of (j, d) \<Rightarrow>
        if \<not> startswith (hq_url q) (cp_origin cp) then (Net_failed, st)
        else
          (let (r, d') = registration_route cp coerce (clks j) (others j) (hq_method q) (drop (length (cp_origin cp)) (hq_url q))
                           (map_of (hq_headers q) ''Authorization'') (Option.bind (hq_data q) (json_loads fl)) d
           in (http_respond repr r, (Suc j, d'))))"

text \<open>The waits between the polls: what happens in the database before request \<open>j\<close>.\<close>

definition control_sleep :: "(nat \<Rightarrow> db \<Rightarrow> db) \<Rightarrow> nat \<times> db \<Rightarrow> (nat \<times> db) option" where
  "control_sleep waits st = Some (fst st, waits (fst st) (snd st))"

definition bytes_loads :: "(string \<Rightarrow> pyfloat) \<Rightarrow> string \<Rightarrow> read_json" where
  "bytes_loads fl s = (case json_loads fl s of None \<Rightarrow> Not_json | Some j \<Rightarrow> Loaded j)"

section \<open>One request over the connection\<close>

lemma length_json_string: "length (json_string s) \<le> 6 * length s + 2"
proof -
  have "length (json_escape c) \<le> 6" for c by (simp add: json_escape_def)
  then have "length (concat (map json_escape s)) \<le> 6 * length s"
    by (induction s) (auto intro: order_trans [OF add_mono])
  then show ?thesis by (simp add: json_string_def)
qed

definition text_size :: "string \<times> json \<Rightarrow> nat" where
  "text_size kv = (case kv of (k, JStr v) \<Rightarrow> 6 * length k + 6 * length v + 8 | (k, _) \<Rightarrow> 6 * length k + 8)"

lemma length_text_flat:
  assumes "\<forall>kv \<in> set kvs. snd kv = JNull \<or> (\<exists>v. snd kv = JStr v)"
  shows "length (json_text repr (JObj kvs)) \<le> 2 + sum_list (map text_size kvs)"
proof -
  let ?m = "\<lambda>kv. json_string (fst kv) @ CHR '':'' # json_text repr (snd kv)"
  have one: "length (?m kv) + 1 \<le> text_size kv" if kv: "snd kv = JNull \<or> (\<exists>v. snd kv = JStr v)" for kv
  proof -
    obtain k j where k: "kv = (k, j)" by (cases kv)
    from kv consider "j = JNull" | v where "j = JStr v" by (auto simp: k)
    then show ?thesis
    proof cases
      case 1
      then show ?thesis using length_json_string [of k] by (simp add: k text_size_def)
    next
      case (2 v)
      then show ?thesis using length_json_string [of k] length_json_string [of v] by (simp add: k text_size_def)
    qed
  qed
  have "length (join_char (CHR '','') (map ?m kvs)) \<le> sum_list (map text_size kvs)"
    using assms
  proof (induction kvs)
    case (Cons kv kvs)
    then show ?case using one [of kv] by (auto simp: join_char_Cons)
  qed simp
  then show ?thesis by simp
qed

definition small :: "(rat \<Rightarrow> string) \<Rightarrow> details \<Rightarrow> bool" where
  "small repr d \<longleftrightarrow> length (json_text repr (JObj (response_members d))) \<le> 1048576"

lemma answer_response:
  assumes "plain_json (JObj (response_members d))" and "small repr d"
  shows "transport_answer (bytes_loads fl) (http_respond repr (Inr d)) = Inr (response_members d)"
  using assms by (simp add: transport_answer_def http_respond_def bytes_loads_def json_loads_text small_def Let_def del: json_text.simps)

lemma answer_too_large:
  assumes "\<not> small repr d"
  shows "transport_answer (bytes_loads fl) (http_respond repr (Inr d)) = Inl (Bootstrap_error ''registration response is too large'')"
  using assms by (simp add: transport_answer_def http_respond_def small_def Let_def not_le min_def del: json_text.simps)

text \<open>Given the route's response, the request is answered with it.\<close>

lemma control_answered:
  assumes "registration_route cp coerce (clks j) (others j) verb path (map_of headers ''Authorization'') (map_option JObj body) d = (Inr r, d')"
    and "body = None \<or> (\<exists>b. body = Some b \<and> plain_json (JObj b))"
    and "headers = [] \<or> headers = [(''Authorization'', v)]"
  shows "transport_request (bytes_loads fl) repr (control_http cp fl repr coerce clks others) (cp_origin cp) verb path body headers (j, d) =
    (transport_answer (bytes_loads fl) (http_respond repr (Inr r)), (Suc j, d'))"
proof -
  have hdr: "map_of (hq_headers (http_request_of repr (cp_origin cp) verb path body headers)) ''Authorization'' =
      map_of headers ''Authorization''"
    using assms(3) by (auto simp: http_request_of_def dict_merge_def Let_def)
  have data: "Option.bind (hq_data (http_request_of repr (cp_origin cp) verb path body headers)) (json_loads fl) = map_option JObj body"
    using assms(2) json_loads_text [of "JObj b" for b] by (auto simp: http_request_of_def Let_def simp del: json_text.simps)
  have "hq_method (http_request_of repr (cp_origin cp) verb path body headers) = verb"
    "hq_url (http_request_of repr (cp_origin cp) verb path body headers) = cp_origin cp @ path"
    by (simp_all add: http_request_of_def Let_def)
  with assms(1) hdr data show ?thesis
    by (simp add: transport_request_def control_http_def)
qed

lemma plain_answered:
  assumes "registration_route cp coerce (clks j) (others j) verb path None (map_option JObj body) d = (Inr r, d')"
    and "body = None \<or> (\<exists>b. body = Some b \<and> plain_json (JObj b))"
    and "plain_json (JObj (response_members r))" and "small repr r"
  shows "transport_request (bytes_loads fl) repr (control_http cp fl repr coerce clks others) (cp_origin cp) verb path body [] (j, d) =
    (Inr (response_members r), (Suc j, d'))"
  using control_answered [of cp coerce clks j others verb path "[]" body d r d' v fl repr for v] assms answer_response
  by (simp del: plain_json.simps)

text \<open>The routes.\<close>

lemma split_request_path:
  assumes "CHR ''/'' \<notin> set i" and "CHR ''/'' \<notin> set action"
  shows "split_char (CHR ''/'') (request_path i action) = [[], ''api'', ''node-registration-requests'', i, action]"
  using split_char_append [of "CHR ''/''" "[]"] split_char_append [of "CHR ''/''" "''api''"]
    split_char_append [of "CHR ''/''" "''node-registration-requests''"] split_char_append [OF assms(1)] split_char_no_sep [OF assms(2)]
  by (simp add: request_path_def)

section \<open>The steps of a registration\<close>

text \<open>What leaves one request alone and the identifiers unique.\<close>

definition keeps_request :: "string \<Rightarrow> (db \<Rightarrow> db) \<Rightarrow> bool" where
  "keeps_request i f \<longleftrightarrow>
     (\<forall>d. get_registration (f d) i = get_registration d i \<and>
          (unique_on rg_id (registrations d) \<longrightarrow> unique_on rg_id (registrations (f d))))"

lemma keeps_requestD:
  "keeps_request i f \<Longrightarrow> get_registration (f d) i = get_registration d i"
  "keeps_request i f \<Longrightarrow> unique_on rg_id (registrations d) \<Longrightarrow> unique_on rg_id (registrations (f d))"
  by (simp_all add: keeps_request_def)

lemma keeps_request_id [simp]: "keeps_request i (\<lambda>d. d)"
  by (simp add: keeps_request_def)

lemma count_request:
  assumes "get_registration d i = Some r" and "unique_on rg_id (registrations d)" and "P r"
    and "\<And>x. P x \<Longrightarrow> rg_id x = rg_id r"
  shows "count_where P (registrations d) = 1"
proof -
  have "r \<in> set (registrations d)" using registration_table.lookup_Some [OF assms(1)] by simp
  from count_where_key [where k = rg_id and p = P, OF assms(2) this assms(3,4)] show ?thesis .
qed

lemma get_updated:
  assumes "get_registration d i = Some r" and "P r" and "\<And>x. rg_id (f x) = rg_id x"
    and "registrations d' = update_where P f (registrations d)"
  shows "get_registration d' i = Some (f r)"
  using assms by (simp add: get_registration_def find_row_update_where)

lemma unique_updated:
  assumes "unique_on rg_id (registrations d)" and "\<And>x. rg_id (f x) = rg_id x"
    and "registrations d' = update_where P f (registrations d)"
  shows "unique_on rg_id (registrations d')"
  using assms by (simp add: unique_on_update_where)

text \<open>The row a host's request is, and the token it was given for it.\<close>

definition own_token :: "(string \<Rightarrow> string) \<Rightarrow> string \<Rightarrow> string \<Rightarrow> registration_request \<Rightarrow> bool" where
  "own_token hash i token r \<longleftrightarrow>
     rg_registration_token_hash r = Some (hash (enrollment_raw i token)) \<and> hash (enrollment_raw i token) \<noteq> [] \<and>
     dot \<notin> set i \<and> token \<noteq> [] \<and> length i + length token < 240"

lemma own_token_parts:
  assumes "get_registration d i = Some r" and "own_token hash i token r"
  shows "registration_token_parts hash i (Some (''Registration '' @ i @ dot # token)) d = Some r"
proof -
  have "token_of_header ''Registration '' 240 (Some (''Registration '' @ i @ dot # token)) = Some (i, i @ dot # token)"
    unfolding token_of_header_eq using assms(2) by (simp add: own_token_def partition_char_found)
  then show ?thesis
    unfolding registration_token_parts_def using assms by (simp add: own_token_def enrollment_raw_def)
qed

lemma prove_ok:
  assumes "get_registration d i = Some r" and "unique_on rg_id (registrations d)" and "own_token hash i token r"
    and "source = Some (rg_actual_public_ipv4 r)" and "is_ascii (rg_actual_public_ipv4 r)"
    and "clk 0 < rg_challenge_expires_at r" and "rg_status r = ''pending_proof''" and "challenge_matches hash r body"
    and "signature_valid keys ''hermes-node-registration-v1'' r body = Some True" and "keeps_request i other"
  shows "\<exists>d'. prove_node_registration hash keys clk other source (Some (''Registration '' @ i @ dot # token)) i body d =
        (Inr [(''status'', VStr ''pending_approval'')], d') \<and>
      get_registration d' i = Some (proved (clk 0) r) \<and> unique_on rg_id (registrations d')"
proof -
  have w: "get_registration (other d) i = Some r" "unique_on rg_id (registrations (other d))"
    using keeps_requestD [OF assms(10)] assms(1,2) by simp_all
  have p: "prove_where r r" using assms(7) by (simp add: prove_where_def)
  let ?d = "(other d)\<lparr>registrations := update_where (prove_where r) (proved (clk 0)) (registrations (other d))\<rparr>"
  have "count_where (prove_where r) (registrations (other d)) = 1"
    by (rule count_request [where P = "prove_where r", OF w p]) (simp add: prove_where_def)
  then have "prove_node_registration hash keys clk other source (Some (''Registration '' @ i @ dot # token)) i body d =
      (Inr [(''status'', VStr ''pending_approval'')], ?d)"
    using own_token_parts [OF assms(1,3)] assms
    by (simp add: prove_node_registration_def source_matches_def compare_digest_def Let_def)
  moreover have "get_registration ?d i = Some (proved (clk 0) r)"
    by (rule get_updated [where P = "prove_where r" and f = "proved (clk 0)", OF w(1) p]) (simp add: proved_def, simp)
  moreover have "unique_on rg_id (registrations ?d)"
    by (rule unique_updated [where P = "prove_where r" and f = "proved (clk 0)", OF w(2)]) (simp add: proved_def, simp)
  ultimately show ?thesis by blast
qed

lemma status_ok:
  assumes "get_registration d i = Some r" and "own_token hash i token r"
  shows "node_registration_status hash mac sk (Some (''Registration '' @ i @ dot # token)) i d =
    (Inr ([(''status'', VStr (rg_status r)), (''phase'', VNull), (''error'', opt_val VStr (rg_last_error r)),
           (''decision'', if rg_status r \<in> {''approved'', ''installing'', ''ready'', ''online''} then VStr ''accepted''
                         else if rg_status r = ''rejected'' then VStr ''rejected'' else VNull)] @
          (if rg_status r = ''approved'' \<and> rg_challenge_hash r \<notin> {None, Some []}
           then [(''claim_challenge'', VStr (registration_claim_challenge mac sk r))] else [])), d)"
  using own_token_parts [OF assms] by (simp add: node_registration_status_def)

lemma claim_ok:
  assumes "get_registration d i = Some r" and "unique_on rg_id (registrations d)" and "own_token hash i token r"
    and "source = Some (rg_actual_public_ipv4 r)" and "is_ascii (rg_actual_public_ipv4 r)"
    and "clk 0 < rg_challenge_expires_at r" and "rg_status r = ''approved''" and "rg_proved_at r \<noteq> None"
    and "challenge_matches hash r body" and "signature_valid keys ''hermes-node-claim-v1'' r body = Some True"
    and "keeps_request i other" and "rg_edge_node_id r = Some (nd_id n)" and "get_node d (nd_id n) = Some n"
    and "find_row (\<lambda>e. en_edge_node_id e = nd_id n \<and> en_status e = ''claimed'') (enrollments d) = Some e"
    and "package (nd_platform n) = Inr pkg" and "node_domain n = Some domain"
  shows "\<exists>d'. claim_approved_node_registration hash mac sk keys package po clk other source
        (Some (''Registration '' @ i @ dot # token)) i body d =
        (Inr (claim_response po n domain pkg (derived_report_token mac sk r (en_id e)) @
              [(''enrollment_id'', VStr (en_id e)), (''install_admin_ssh_key'', VBool (rg_install_admin_ssh_key r))]), d') \<and>
      get_registration d' i = Some (installing (clk 0) r)"
proof -
  have w: "get_registration (other d) i = Some r" "unique_on rg_id (registrations (other d))"
    using keeps_requestD [OF assms(11)] assms(1,2) by simp_all
  have p: "claim_approved_where r r" using assms(7) by (simp add: claim_approved_where_def)
  let ?w = "(other d)\<lparr>registrations := update_where (claim_approved_where r) (installing (clk 0)) (registrations (other d))\<rparr>"
  let ?d = "update_enrollment (en_id e) (\<lambda>x. x\<lparr>en_status := ''installing'', en_phase := Some ''installing'',
      en_updated_at := clk 0, en_expires_at := clk 0 + hours 2\<rparr>) ?w"
  have "count_where (claim_approved_where r) (registrations (other d)) = 1"
    by (rule count_request [where P = "claim_approved_where r", OF w p]) (simp add: claim_approved_where_def)
  then have "claim_approved_node_registration hash mac sk keys package po clk other source
        (Some (''Registration '' @ i @ dot # token)) i body d =
        (Inr (claim_response po n domain pkg (derived_report_token mac sk r (en_id e)) @
              [(''enrollment_id'', VStr (en_id e)), (''install_admin_ssh_key'', VBool (rg_install_admin_ssh_key r))]), ?d)"
    using own_token_parts [OF assms(1,3)] assms(4-10,12-16)
    by (simp add: claim_approved_node_registration_def source_matches_def compare_digest_def Let_def del: find_row_None)
  moreover have "get_registration ?d i = Some (installing (clk 0) r)"
    by (rule get_updated [where P = "claim_approved_where r" and f = "installing (clk 0)", OF w(1) p]) (simp add: installing_def, simp add: update_enrollment_def)
  ultimately show ?thesis by blast
qed

lemma get_node_fresh: "get_node (d\<lparr>nodes := nodes d @ [n]\<rparr>) (nd_id n) = Some n" if "nd_id n = next_id nd_id (nodes d)"
  using that next_id_fresh [of _ "nodes d" nd_id] by (fastforce simp: get_node_def find_row_append split: option.split dest: find_row_Some)

text \<open>An accepted request has its node and a claimed enrollment.\<close>

lemma accept_Inr:
  assumes "accept_node_registration hash mac sk clk secret uuid fresh oa actor i body d = (Inr y, d')"
    and "get_registration d i = Some r" and "unique_on rg_id (registrations d)" and "keeps_request i oa"
  obtains n e domain where "get_registration d' i = Some (approved (clk 0) (us_id actor) (ab_install_admin_ssh_key body)
        (hash (registration_claim_challenge mac sk r)) (nd_id n) r)"
    "unique_on rg_id (registrations d')" "get_node d' (nd_id n) = Some n" "nd_platform n = rg_platform r"
    "nd_shared_secret n = secret" "node_domain n = Some domain" "domain = VNull \<or> (\<exists>h. domain = VStr h)"
    "find_row (\<lambda>e. en_edge_node_id e = nd_id n \<and> en_status e = ''claimed'') (enrollments d') = Some e"
proof -
  let ?w = "oa d"
  let ?n = "new_edge_node (next_id nd_id (nodes ?w)) (ab_node_name body) (ab_endpoint body) secret (rg_platform r) False False
      ''disabled'' (Some (rg_actual_public_ipv4 r)) (Some (rg_actual_public_ipv4 r)) (clk 1)"
  let ?e = "accepted_enrollment hash (clk 0) uuid fresh (derived_report_token mac sk r uuid) (nd_id ?n) (us_id actor) r"
  let ?a = "approved (clk 0) (us_id actor) (ab_install_admin_ssh_key body) (hash (registration_claim_challenge mac sk r)) (nd_id ?n)"
  have st: "rg_status r = ''pending_approval''" "rg_proved_at r \<noteq> None"
    using assms(1,2) by (auto simp: accept_node_registration_def split: if_splits)
  have net: "network_error (validate_edge_node_network (Some (ab_endpoint body)) (Some (ab_expected_public_ipv4 body))) = None"
    using assms(1,2) st by (auto simp: accept_node_registration_def split: option.splits)
  then have "validate_edge_node_network (Some (ab_endpoint body)) (Some (ab_expected_public_ipv4 body)) = Network_ok"
    by (auto simp: network_error_def split: network_check.splits)
  then obtain parsed where parsed: "urlsplit (ab_endpoint body) = Some parsed"
    by (rule validate_network_ok) auto
  have d': "registrations d' = update_where (accept_where r) ?a (registrations ?w) \<and> nodes d' = nodes ?w @ [?n] \<and>
      enrollments d' = enrollments ?w @ [?e]"
    using assms(1,2) st net by (auto simp: accept_node_registration_def Let_def split: if_splits)
  have w: "get_registration ?w i = Some r" "unique_on rg_id (registrations ?w)"
    using keeps_requestD [OF assms(4)] assms(2,3) by simp_all
  have p: "accept_where r r" using st by (simp add: accept_where_def)
  have row: "get_registration d' i = Some (?a r)"
    by (rule get_updated [where P = "accept_where r" and f = ?a, OF w(1) p]) (simp add: approved_def, simp add: d')
  have uniq: "unique_on rg_id (registrations d')"
    by (rule unique_updated [where P = "accept_where r" and f = ?a, OF w(2)]) (simp add: approved_def, simp add: d')
  have node: "get_node d' (nd_id ?n) = Some ?n"
    using get_node_fresh [of ?n ?w] d' by (simp add: get_node_def new_edge_node_def)
  have "?e \<in> set (enrollments d')" using d' by simp
  then obtain e where e: "find_row (\<lambda>e. en_edge_node_id e = nd_id ?n \<and> en_status e = ''claimed'') (enrollments d') = Some e"
    using find_row_ex [of ?e "enrollments d'" "\<lambda>e. en_edge_node_id e = nd_id ?n \<and> en_status e = ''claimed''"]
    by (auto simp: accepted_enrollment_def simp del: find_row_None)
  have dom: "node_domain ?n = Some (opt_val VStr (url_hostname parsed))"
    using parsed by (simp add: node_domain_def new_edge_node_def)
  show thesis
    by (rule that [OF row uniq node _ _ dom _ e]) (auto simp: new_edge_node_def opt_val_def split: option.splits)
qed

section \<open>Keys, texts and sizes\<close>

lemma length_b64_quads: "length (b64_quads bs) = (4 * length bs + 2) div 3"
  by (induction bs rule: b64_quads.induct) (auto simp: Let_def)

lemma length_signature: "length s = 64 \<Longrightarrow> length (b64encode s) = 88"
  by (simp add: b64encode_def urlsafe_b64encode_def length_b64_quads b64_padding_def)

lemma length_claim_challenge:
  assumes "\<And>k m. length (mac k m) = 32"
  shows "length (registration_claim_challenge mac sk r) = 43"
  by (simp add: registration_claim_challenge_def length_b64_quads assms)

text \<open>The key pair of the host under the operations of the server: the PEM text names a key under which the
  signatures of the host verify, also after the server has rewritten it.\<close>

definition coherent_keys :: "key_ops \<Rightarrow> string \<Rightarrow> (string \<Rightarrow> string) \<Rightarrow> bool" where
  "coherent_keys keys pem sign \<longleftrightarrow>
     (\<exists>k. ko_load keys pem = Pem_ed25519 k \<and> ko_load keys (ko_pem keys k) = Pem_ed25519 k \<and>
          (\<forall>m. length (sign m) = 64 \<and> ko_verify keys k (sign m) m))"

lemma b64decode_std_b64encode: "b64decode_std (b64encode bs) = Some bs"
  using b64encode_chars [of "CHR ''-''" bs] b64encode_chars [of "CHR ''_''" bs]
  by (auto simp: b64decode_std_def b64decode_b64encode)

lemma own_signature:
  assumes "coherent_keys keys pem sign" and "ko_load keys pem = Pem_ed25519 k" and "rg_public_key_pem r = ko_pem keys k"
    and "rg_id r = i" and "rg_actual_public_ipv4 r = ip" and "rg_machine_fingerprint r = iv_machine_fingerprint iv"
  shows "signature_valid keys purpose r
      \<lparr>sc_challenge = c, sc_signature = b64encode (sign (bootstrap_message purpose i c ip iv))\<rparr> = Some True"
  using assms
  by (auto simp: coherent_keys_def signature_valid_def b64decode_std_b64encode registration_message_def bootstrap_message_def)

lemma challenge_body_signed:
  assumes "32 \<le> length c" and "length c \<le> 200" and "length (sign m) = 64"
  shows "challenge_body (JObj (bootstrap_signed sign c m)) = Some \<lparr>sc_challenge = c, sc_signature = b64encode (sign m)\<rparr>"
  using assms by (simp add: challenge_body_def bootstrap_signed_def str_field_def length_signature)

lemma plain_signed: "plain_json (JObj (bootstrap_signed sign c m))"
  by (simp add: bootstrap_signed_def)

lemma registration_route_request:
  assumes "CHR ''/'' \<notin> set i" and "i \<noteq> []"
  shows "registration_route cp coerce clk other ''GET'' (request_path i ''status'') auth body d =
      node_registration_status (cp_hash cp) (cp_mac cp) (cp_secret_key cp) auth i d"
    "challenge_body j = Some b \<Longrightarrow>
      registration_route cp coerce clk other ''POST'' (request_path i ''proof'') auth (Some j) d =
      prove_node_registration (cp_hash cp) (cp_keys cp) clk other (cp_source cp) auth i b d"
    "challenge_body j = Some b \<Longrightarrow>
      registration_route cp coerce clk other ''POST'' (request_path i ''claim-approved'') auth (Some j) d =
      claim_approved_node_registration (cp_hash cp) (cp_mac cp) (cp_secret_key cp) (cp_keys cp) (cp_package cp)
        (cp_public_origin cp) clk other (cp_source cp) auth i b d"
proof -
  have "request_path i a \<noteq> ''/api/node-registration-source''" "request_path i a \<noteq> ''/api/node-registration-requests''" for a
    by (simp_all add: request_path_def)
  moreover have "CHR ''/'' \<notin> set ''status''" "CHR ''/'' \<notin> set ''proof''" "CHR ''/'' \<notin> set ''claim-approved''" by simp_all
  note split_request_path [OF assms(1) this(1)] split_request_path [OF assms(1) this(2)] split_request_path [OF assms(1) this(3)]
  ultimately show "registration_route cp coerce clk other ''GET'' (request_path i ''status'') auth body d =
      node_registration_status (cp_hash cp) (cp_mac cp) (cp_secret_key cp) auth i d"
    "challenge_body j = Some b \<Longrightarrow>
      registration_route cp coerce clk other ''POST'' (request_path i ''proof'') auth (Some j) d =
      prove_node_registration (cp_hash cp) (cp_keys cp) clk other (cp_source cp) auth i b d"
    "challenge_body j = Some b \<Longrightarrow>
      registration_route cp coerce clk other ''POST'' (request_path i ''claim-approved'') auth (Some j) d =
      claim_approved_node_registration (cp_hash cp) (cp_mac cp) (cp_secret_key cp) (cp_keys cp) (cp_package cp)
        (cp_public_origin cp) clk other (cp_source cp) auth i b d"
    using assms(2) by (simp_all add: registration_route_def Let_def)
qed

abbreviation (input) control_request_fun where
  "control_request_fun cp fl repr coerce clks others \<equiv>
     transport_request (bytes_loads fl) repr (control_http cp fl repr coerce clks others) (cp_origin cp)"

abbreviation (input) host_bearer :: "string \<Rightarrow> string \<Rightarrow> (string \<times> string) list" where
  "host_bearer i token \<equiv> [(''Authorization'', ''Registration '' @ i @ dot # token)]"

lemma authorized_answered:
  assumes "registration_route cp coerce (clks j) (others j) verb path (Some (''Registration '' @ i @ dot # token)) (map_option JObj body) d = (Inr r, d')"
    and "body = None \<or> (\<exists>b. body = Some b \<and> plain_json (JObj b))"
  shows "control_request_fun cp fl repr coerce clks others verb path body (host_bearer i token) (j, d) =
    (transport_answer (bytes_loads fl) (http_respond repr (Inr r)), (Suc j, d'))"
proof (rule control_answered [where v = "''Registration '' @ i @ dot # token"])
  show "registration_route cp coerce (clks j) (others j) verb path (map_of (host_bearer i token) ''Authorization'') (map_option JObj body) d = (Inr r, d')"
    unfolding map_of.simps fst_conv snd_conv fun_upd_same by (rule assms(1))
qed (simp_all only: assms(2) simp_thms)

lemma authorized_request:
  assumes "registration_route cp coerce (clks j) (others j) verb path (Some (''Registration '' @ i @ dot # token)) (map_option JObj body) d = (Inr r, d')"
    and "body = None \<or> (\<exists>b. body = Some b \<and> plain_json (JObj b))"
    and "plain_json (JObj (response_members r))" and "small repr r"
  shows "control_request_fun cp fl repr coerce clks others verb path body (host_bearer i token) (j, d) =
    (Inr (response_members r), (Suc j, d'))"
  unfolding authorized_answered [where repr = repr and fl = fl and clks = clks and others = others and j = j, OF assms(1,2)] answer_response [OF assms(3,4)] ..

lemma status_request:
  assumes "get_registration d i = Some r" and "own_token (cp_hash cp) i token r" and "CHR ''/'' \<notin> set i" and "i \<noteq> []"
    and "rg_last_error r = None" and "length (rg_status r) \<le> 100" and "\<And>k m. length (cp_mac cp k m) = 32"
  shows "\<exists>status. control_request_fun cp fl repr coerce clks others ''GET'' (request_path i ''status'') None (host_bearer i token) (j, d) =
        (Inr status, (Suc j, d)) \<and>
      map_of status ''status'' = Some (JStr (rg_status r)) \<and>
      (rg_status r = ''approved'' \<and> rg_challenge_hash r \<notin> {None, Some []} \<longrightarrow>
        map_of status ''claim_challenge'' = Some (JStr (registration_claim_challenge (cp_mac cp) (cp_secret_key cp) r)))"
proof -
  let ?c = "registration_claim_challenge (cp_mac cp) (cp_secret_key cp) r"
  let ?decision = "if rg_status r \<in> {''approved'', ''installing'', ''ready'', ''online''} then VStr ''accepted''
      else if rg_status r = ''rejected'' then VStr ''rejected'' else VNull"
  let ?resp = "[(''status'', VStr (rg_status r)), (''phase'', VNull), (''error'', opt_val VStr (rg_last_error r)),
      (''decision'', ?decision)] @
      (if rg_status r = ''approved'' \<and> rg_challenge_hash r \<notin> {None, Some []} then [(''claim_challenge'', VStr ?c)] else [])"
  have dec: "val_json ?decision = JNull \<or> (\<exists>v. val_json ?decision = JStr v)" "text_size (k, val_json ?decision) \<le> 6 * length k + 100" for k
    by (simp_all add: text_size_def)
  have err: "opt_val VStr (rg_last_error r) = VNull" by (simp add: opt_val_def assms(5))
  have plain: "plain_json (JObj (response_members ?resp))"
    by (simp add: response_members_def err)
  have flat: "\<forall>kv \<in> set (response_members ?resp). snd kv = JNull \<or> (\<exists>v. snd kv = JStr v)"
    using dec(1) by (auto simp: response_members_def err)
  have "sum_list (map text_size (response_members ?resp)) \<le> 3000"
    using dec(2) [of "''decision''"] assms(6) length_claim_challenge [where mac = "cp_mac cp", OF assms(7)]
    by (simp add: response_members_def err text_size_def)
  then have small: "small repr ?resp"
    using length_text_flat [OF flat, of repr] by (simp add: small_def)
  have route: "registration_route cp coerce (clks j) (others j) ''GET'' (request_path i ''status'')
      (Some (''Registration '' @ i @ dot # token)) (map_option JObj None) d = (Inr ?resp, d)"
    unfolding registration_route_request(1) [OF assms(3,4)] by (rule status_ok [OF assms(1,2)])
  have "control_request_fun cp fl repr coerce clks others ''GET'' (request_path i ''status'') None (host_bearer i token) (j, d) =
      (Inr (response_members ?resp), (Suc j, d))"
  proof (rule authorized_request)
    show "registration_route cp coerce (clks j) (others j) ''GET'' (request_path i ''status'')
      (Some (''Registration '' @ i @ dot # token)) (map_option JObj None) d = (Inr ?resp, d)" by (rule route)
    show "small repr ?resp" by (rule small)
    show "plain_json (JObj (response_members ?resp))" by (rule plain)
  qed simp
  then show ?thesis by (intro exI conjI) (assumption, simp_all add: response_members_def)
qed

section \<open>A registration from end to end\<close>

lemma poll_pending:
  assumes "get_registration d i = Some r" and "own_token (cp_hash cp) i token r" and "CHR ''/'' \<notin> set i" and "i \<noteq> []"
    and "rg_last_error r = None" and "rg_status r = ''pending_approval''" and "\<And>k m. length (cp_mac cp k m) = 32"
  shows "bootstrap_poll (control_request_fun cp fl repr coerce clks others) (control_sleep waits) sign iv ip i (host_bearer i token) (Suc n) (j, d) =
    bootstrap_poll (control_request_fun cp fl repr coerce clks others) (control_sleep waits) sign iv ip i (host_bearer i token) n
      (Suc j, waits (Suc j) d)"
proof -
  have len: "length (rg_status r) \<le> 100" using assms(6) by simp
  obtain status where "control_request_fun cp fl repr coerce clks others ''GET'' (request_path i ''status'') None (host_bearer i token) (j, d) =
        (Inr status, (Suc j, d))" "map_of status ''status'' = Some (JStr ''pending_approval'')"
    using status_request [where repr = repr and fl = fl and clks = clks and others = others and coerce = coerce and j = j, OF assms(1-5) len assms(7)] assms(6)
    by metis
  then show ?thesis by (simp add: seq_def poll_answer_def control_sleep_def)
qed

lemma polls_pending:
  assumes "\<And>m. m \<le> k \<Longrightarrow> get_registration (fold (\<lambda>q. waits (4 + q)) [0..<m] d) i = Some r"
    and "own_token (cp_hash cp) i token r" and "CHR ''/'' \<notin> set i" and "i \<noteq> []"
    and "rg_last_error r = None" and "rg_status r = ''pending_approval''" and "\<And>k m. length (cp_mac cp k m) = 32"
  shows "bootstrap_poll (control_request_fun cp fl repr coerce clks others) (control_sleep waits) sign iv ip i (host_bearer i token) (Suc k + n) (3, d) =
    bootstrap_poll (control_request_fun cp fl repr coerce clks others) (control_sleep waits) sign iv ip i (host_bearer i token) n
      (4 + k, waits (4 + k) (fold (\<lambda>q. waits (4 + q)) [0..<k] d))"
  using assms(1)
proof (induction k arbitrary: n)
  case 0
  from 0 [of 0] have "get_registration d i = Some r" by simp
  from poll_pending [OF this assms(2-7), of fl repr coerce clks others waits sign iv ip n 3] show ?case by simp
next
  case (Suc k)
  have "get_registration (waits (4 + k) (fold (\<lambda>q. waits (4 + q)) [0..<k] d)) i = Some r"
    using Suc.prems [of "Suc k"] by simp
  from poll_pending [OF this assms(2-7), of fl repr coerce clks others waits sign iv ip n "4 + k"] Suc.IH [of "Suc n"] Suc.prems
  show ?case by simp
qed

lemma create_Inr:
  assumes "create_node_registration hash keys clk uuid challenge token (Some ip) b d = (Inr resp, d')" and "rb_public_ipv4 b = ip"
  obtains k where "ko_load keys (rb_public_key_pem b) = Pem_ed25519 k" "is_ascii ip"
    "uuid \<notin> rg_id ` set (registrations d)"
    "resp = [(''request_id'', VStr uuid), (''challenge'', VStr challenge), (''registration_token'', VStr token),
             (''expires_at'', VTime (clk 0 + minutes 15))]"
    "d' = d\<lparr>registrations := registrations d @ [new_registration hash keys k (clk 0) uuid challenge token b]\<rparr>"
  using assms
  by (auto simp: create_node_registration_def source_matches_def compare_digest_def Let_def new_registration_def
      simp del: is_global.simps split: option.splits pem_result.splits if_splits)

lemma create_body_Some:
  assumes "create_body coerce (JObj (dict_merge (inventory_members iv)
      [(''platform'', JStr ''windows''), (''public_ipv4'', JStr ip), (''public_key_pem'', JStr pem)])) = Some b"
  shows "rb_public_key_pem b = pem \<and> rb_platform b = ''windows'' \<and> rb_public_ipv4 b = ip \<and>
    rb_machine_fingerprint b = iv_machine_fingerprint iv \<and> length ip \<le> 15"
  using assms
  by (auto simp: create_body_def inventory_members_def dict_merge_def str_field_def split: if_splits option.splits)

lemma plain_create_body:
  "plain_json (JObj (dict_merge (inventory_members iv)
      [(''platform'', JStr ''windows''), (''public_ipv4'', JStr ip), (''public_key_pem'', JStr pem)]))"
  by (simp add: inventory_members_def dict_merge_def)

lemma length_isoformat: "length (isoformat t) \<le> 40"
  by (simp add: isoformat_def isoformat_usec_def iso_date_def iso_clock_def Let_def split: prod.split)

text \<open>The first three requests of a run: the source, the request and its proof.\<close>

lemma source_request:
  assumes "cp_source cp = Some ip" and "ip_address ip = Some (V4 a)" and "is_global (V4 a)" and "length ip \<le> 15"
  shows "control_request_fun cp fl repr coerce clks others ''GET'' ''/api/node-registration-source'' None [] (j, d) =
    (Inr [(''public_ipv4'', JStr ip)], (Suc j, d))"
proof -
  have "node_registration_source (Some ip) = Inr ip"
    using assms(2,3) ip_address_V4 [OF assms(2)] by (simp add: node_registration_source_def del: is_global.simps)
  then have route: "registration_route cp coerce (clks j) (others j) ''GET'' ''/api/node-registration-source'' None (map_option JObj None) d =
      (Inr [(''public_ipv4'', VStr ip)], d)"
    by (simp add: registration_route_def assms(1))
  have "length (json_text repr (JObj (response_members [(''public_ipv4'', VStr ip)]))) \<le> 2 + sum_list (map text_size (response_members [(''public_ipv4'', VStr ip)]))"
    by (rule length_text_flat) (simp add: response_members_def)
  then have "small repr [(''public_ipv4'', VStr ip)]"
    using assms(4) by (simp add: small_def response_members_def text_size_def)
  with plain_answered [where body = None and clks = clks and others = others and j = j and fl = fl and repr = repr, OF route]
  show ?thesis by (simp add: response_members_def)
qed

lemma creation_request:
  assumes "create_body coerce (JObj body) = Some b" and "plain_json (JObj body)"
    and "create_node_registration (cp_hash cp) (cp_keys cp) (clks j) (cp_uuid cp) (cp_challenge cp) (cp_token cp) (cp_source cp) b d =
      (Inr [(''request_id'', VStr (cp_uuid cp)), (''challenge'', VStr (cp_challenge cp)), (''registration_token'', VStr (cp_token cp)),
            (''expires_at'', VTime t)], d')"
    and "length (cp_uuid cp) + length (cp_token cp) < 240" and "length (cp_challenge cp) \<le> 200"
  shows "control_request_fun cp fl repr coerce clks others ''POST'' ''/api/node-registration-requests'' (Some body) [] (j, d) =
    (Inr [(''request_id'', JStr (cp_uuid cp)), (''challenge'', JStr (cp_challenge cp)), (''registration_token'', JStr (cp_token cp)),
          (''expires_at'', JStr (isoformat t))], (Suc j, d'))"
proof -
  let ?r = "[(''request_id'', VStr (cp_uuid cp)), (''challenge'', VStr (cp_challenge cp)), (''registration_token'', VStr (cp_token cp)),
            (''expires_at'', VTime t)]"
  have route: "registration_route cp coerce (clks j) (others j) ''POST'' ''/api/node-registration-requests'' None (map_option JObj (Some body)) d =
      (Inr ?r, d')"
    using assms(1,3) by (simp add: registration_route_def)
  have "length (json_text repr (JObj (response_members ?r))) \<le> 2 + sum_list (map text_size (response_members ?r))"
    by (rule length_text_flat) (simp add: response_members_def)
  then have "small repr ?r"
    using assms(4,5) length_isoformat [of t] by (simp add: small_def response_members_def text_size_def)
  with plain_answered [where body = "Some body" and clks = clks and others = others and j = j and fl = fl and repr = repr, OF route] assms(2)
  show ?thesis by (simp add: response_members_def del: plain_json.simps(3)) (simp add: response_members_def)
qed

lemma proof_request:
  assumes "prove_node_registration (cp_hash cp) (cp_keys cp) (clks j) (others j) (cp_source cp) (Some (''Registration '' @ i @ dot # token)) i
      \<lparr>sc_challenge = c, sc_signature = b64encode (sign m)\<rparr> d = (Inr [(''status'', VStr ''pending_approval'')], d')"
    and "32 \<le> length c" and "length c \<le> 200" and "length (sign m) = 64" and "CHR ''/'' \<notin> set i" and "i \<noteq> []"
  shows "\<exists>x. control_request_fun cp fl repr coerce clks others ''POST'' (request_path i ''proof'') (Some (bootstrap_signed sign c m))
      (host_bearer i token) (j, d) = (Inr x, (Suc j, d'))"
proof (rule exI, rule authorized_request)
  show "registration_route cp coerce (clks j) (others j) ''POST'' (request_path i ''proof'') (Some (''Registration '' @ i @ dot # token))
      (map_option JObj (Some (bootstrap_signed sign c m))) d = (Inr [(''status'', VStr ''pending_approval'')], d')"
    unfolding option.map registration_route_request(2) [OF assms(5,6) challenge_body_signed [where sign = sign and m = m, OF assms(2-4)]] by (rule assms(1))
  show "small repr [(''status'', VStr ''pending_approval'')]"
    using length_text_flat [of "response_members [(''status'', VStr ''pending_approval'')]" repr]
    by (simp add: small_def response_members_def text_size_def)
qed (simp_all add: response_members_def plain_signed del: plain_json.simps, simp)

text \<open>The registered row answers to the host's token and carries its key and its address.\<close>

lemma new_registration_own:
  assumes "hash (enrollment_raw uuid token) \<noteq> []" and "lower_hex uuid" and "token \<noteq> []" and "length uuid + length token < 240"
  shows "own_token hash uuid token (new_registration hash keys k now uuid challenge token b)"
proof -
  have "dot \<notin> set uuid" using assms(2) by (auto simp: lower_hex_def list_all_iff is_digit_def char_in_def)
  with assms show ?thesis by (simp add: own_token_def new_registration_def)
qed

lemma own_token_row: "own_token hash i token r \<Longrightarrow> rg_registration_token_hash r' = rg_registration_token_hash r \<Longrightarrow> own_token hash i token r'"
  by (simp add: own_token_def)

lemma fold_keeps:
  assumes "\<And>q. q < k \<Longrightarrow> keeps_request i (waits (4 + q))" and "m \<le> k"
  shows "get_registration (fold (\<lambda>q. waits (4 + q)) [0..<m] d) i = get_registration d i"
    and "unique_on rg_id (registrations d) \<Longrightarrow> unique_on rg_id (registrations (fold (\<lambda>q. waits (4 + q)) [0..<m] d))"
  using assms(2)
  by (induction m) (simp_all add: keeps_requestD [OF assms(1)])

text \<open>What stays the same in the row of a host's request while it is proved and approved.\<close>

definition host_row :: "control_plane \<Rightarrow> inventory \<Rightarrow> string \<Rightarrow> string \<Rightarrow> registration_request \<Rightarrow> bool" where
  "host_row cp iv ip pem r \<longleftrightarrow>
     rg_id r = cp_uuid cp \<and> rg_actual_public_ipv4 r = ip \<and> rg_platform r = ''windows'' \<and>
     rg_machine_fingerprint r = iv_machine_fingerprint iv \<and> rg_last_error r = None \<and>
     own_token (cp_hash cp) (cp_uuid cp) (cp_token cp) r \<and>
     (\<exists>key. ko_load (cp_keys cp) pem = Pem_ed25519 key \<and> rg_public_key_pem r = ko_pem (cp_keys cp) key)"

lemma host_row_moves [simp]:
  "host_row cp iv ip pem (proved now r) = host_row cp iv ip pem r"
  "host_row cp iv ip pem (approved now actor ssh h node r) = host_row cp iv ip pem r"
  by (simp_all add: host_row_def proved_def approved_def own_token_def)

lemma claim_challenge_approved [simp]:
  "registration_claim_challenge mac sk (approved now actor ssh h node r) = registration_claim_challenge mac sk r"
  by (simp add: registration_claim_challenge_def approved_def)

lemma approved_fields:
  "rg_status (approved now actor ssh h node r) = ''approved''" "rg_edge_node_id (approved now actor ssh h node r) = Some node"
  "rg_challenge_hash (approved now actor ssh h node r) = Some h" "rg_proved_at (approved now actor ssh h node r) = rg_proved_at r"
  "rg_challenge_expires_at (approved now actor ssh h node r) = now + minutes 15"
  by (simp_all add: approved_def)

lemma host_row_signature:
  assumes "host_row cp iv ip pem r" and "coherent_keys (cp_keys cp) pem sign"
  shows "signature_valid (cp_keys cp) purpose r
      \<lparr>sc_challenge = c, sc_signature = b64encode (sign (bootstrap_message purpose (cp_uuid cp) c ip iv))\<rparr> = Some True"
  using assms own_signature [OF assms(2)] by (auto simp: host_row_def)

lemma coherent_length: "coherent_keys keys pem sign \<Longrightarrow> length (sign m) = 64"
  by (auto simp: coherent_keys_def)

lemma lower_hex_plain: "lower_hex s \<Longrightarrow> CHR ''/'' \<notin> set s"
  by (auto simp: lower_hex_def list_all_iff is_digit_def char_in_def)

lemma bootstrap_registered:
  assumes host: "supported_host iv"
    and body: "create_body coerce (JObj (dict_merge (inventory_members iv)
          [(''platform'', JStr ''windows''), (''public_ipv4'', JStr ip), (''public_key_pem'', JStr pem)])) = Some b"
    and source: "cp_source cp = Some ip" "ip_address ip = Some (V4 a)" "is_global (V4 a)"
    and keys: "coherent_keys (cp_keys cp) pem sign"
    and texts: "lower_hex (cp_uuid cp)" "cp_uuid cp \<noteq> []" "cp_token cp \<noteq> []" "length (cp_uuid cp) + length (cp_token cp) < 240"
      "32 \<le> length (cp_challenge cp)" "length (cp_challenge cp) \<le> 200"
    and digests: "\<And>x. cp_hash cp x \<noteq> []"
    and created: "create_node_registration (cp_hash cp) (cp_keys cp) (clks 1) (cp_uuid cp) (cp_challenge cp) (cp_token cp)
          (cp_source cp) b d0 = (Inr resp1, d1)" "unique_on rg_id (registrations d0)"
    and proof_step: "d2 = snd (prove_node_registration (cp_hash cp) (cp_keys cp) (clks 2) (others 2) (cp_source cp)
          (Some (''Registration '' @ cp_uuid cp @ dot # cp_token cp)) (cp_uuid cp)
          \<lparr>sc_challenge = cp_challenge cp, sc_signature = b64encode (sign (bootstrap_message ''hermes-node-registration-v1''
             (cp_uuid cp) (cp_challenge cp) ip iv))\<rparr> d1)"
    and other: "keeps_request (cp_uuid cp) (others 2)" and deadline: "clks 2 0 < clks 1 0 + minutes 15"
  shows "enroll (control_request_fun cp fl repr coerce clks others) sleep pem sign iv polls (0, d0) =
      bootstrap_poll (control_request_fun cp fl repr coerce clks others) sleep sign iv ip (cp_uuid cp)
        (host_bearer (cp_uuid cp) (cp_token cp)) polls (3, d2)"
    and "is_ascii ip"
    and "\<exists>r. get_registration d2 (cp_uuid cp) = Some r \<and> unique_on rg_id (registrations d2) \<and> host_row cp iv ip pem r \<and>
      rg_status r = ''pending_approval'' \<and> rg_proved_at r \<noteq> None"
proof -
  let ?i = "cp_uuid cp" and ?t = "cp_token cp" and ?c = "cp_challenge cp"
  let ?req = "control_request_fun cp fl repr coerce clks others"
  let ?body = "dict_merge (inventory_members iv)
          [(''platform'', JStr ''windows''), (''public_ipv4'', JStr ip), (''public_key_pem'', JStr pem)]"
  let ?m = "bootstrap_message ''hermes-node-registration-v1'' ?i ?c ip iv"
  note b = create_body_Some [OF body]
  obtain key where key: "ko_load (cp_keys cp) pem = Pem_ed25519 key" "is_ascii ip" "?i \<notin> rg_id ` set (registrations d0)"
    and resp1: "resp1 = [(''request_id'', VStr ?i), (''challenge'', VStr ?c), (''registration_token'', VStr ?t),
             (''expires_at'', VTime (clks 1 0 + minutes 15))]"
    and d1: "d1 = d0\<lparr>registrations := registrations d0 @ [new_registration (cp_hash cp) (cp_keys cp) key (clks 1 0) ?i ?c ?t b]\<rparr>"
    using created(1) b source(1) by (auto elim: create_Inr)
  show "is_ascii ip" by (rule key(2))
  let ?r = "new_registration (cp_hash cp) (cp_keys cp) key (clks 1 0) ?i ?c ?t b"
  have own: "own_token (cp_hash cp) ?i ?t ?r" by (rule new_registration_own [OF digests texts(1,3,4)])
  then have row: "host_row cp iv ip pem ?r" using b key(1) by (simp add: host_row_def new_registration_def)
  have get: "get_registration d1 ?i = Some ?r"
  proof -
    have "find_row (\<lambda>r. rg_id r = ?i) (registrations d0) = None" using key(3) by force
    then show ?thesis by (simp add: d1 get_registration_def find_row_append new_registration_def del: find_row_None)
  qed
  have uniq: "unique_on rg_id (registrations d1)"
    using created(2) key(3) by (simp add: d1 unique_on_def new_registration_def)
  have step: "\<exists>d'. prove_node_registration (cp_hash cp) (cp_keys cp) (clks 2) (others 2) (cp_source cp)
          (Some (''Registration '' @ ?i @ dot # ?t)) ?i \<lparr>sc_challenge = ?c, sc_signature = b64encode (sign ?m)\<rparr> d1 =
        (Inr [(''status'', VStr ''pending_approval'')], d') \<and>
      get_registration d' ?i = Some (proved (clks 2 0) ?r) \<and> unique_on rg_id (registrations d')"
    by (rule prove_ok [OF get uniq own])
      (use b source(1) key(2) deadline other host_row_signature [OF row keys] digests
       in \<open>simp_all add: new_registration_def challenge_matches_def\<close>)
  then have proved: "prove_node_registration (cp_hash cp) (cp_keys cp) (clks 2) (others 2) (cp_source cp)
          (Some (''Registration '' @ ?i @ dot # ?t)) ?i \<lparr>sc_challenge = ?c, sc_signature = b64encode (sign ?m)\<rparr> d1 =
        (Inr [(''status'', VStr ''pending_approval'')], d2)"
    and get2: "get_registration d2 ?i = Some (proved (clks 2 0) ?r)" "unique_on rg_id (registrations d2)"
    unfolding proof_step by auto
  have "rg_status (proved (clks 2 0) ?r) = ''pending_approval''" "rg_proved_at (proved (clks 2 0) ?r) \<noteq> None" by (simp_all add: proved_def)
  with get2 row show "\<exists>r. get_registration d2 ?i = Some r \<and> unique_on rg_id (registrations d2) \<and> host_row cp iv ip pem r \<and>
      rg_status r = ''pending_approval'' \<and> rg_proved_at r \<noteq> None" by auto
  have len: "length ip \<le> 15" using b by simp
  have req0: "?req ''GET'' ''/api/node-registration-source'' None [] (0, d0) = (Inr [(''public_ipv4'', JStr ip)], (1, d0))"
    using source_request [OF source len, where clks = clks and others = others and j = 0] by simp
  have req1: "?req ''POST'' ''/api/node-registration-requests'' (Some ?body) [] (1, d0) =
      (Inr [(''request_id'', JStr ?i), (''challenge'', JStr ?c), (''registration_token'', JStr ?t),
            (''expires_at'', JStr (isoformat (clks 1 0 + minutes 15)))], (2, d1))"
    using creation_request [where clks = clks and others = others and j = 1, OF body plain_create_body created(1) [unfolded resp1] texts(4,6)]
    by (simp add: numeral_2_eq_2)
  have ne: "?c \<noteq> []" using texts(5) by auto
  obtain x where req2: "?req ''POST'' (request_path ?i ''proof'') (Some (bootstrap_signed sign ?c ?m)) (host_bearer ?i ?t) (2, d1) = (Inr x, (3, d2))"
    using proof_request [where clks = clks and others = others and j = 2 and sign = sign and m = ?m,
        OF proved texts(5,6) coherent_length [OF keys] lower_hex_plain [OF texts(1)] texts(2), of fl repr coerce]
    by (auto simp: numeral_3_eq_3)
  show "enroll ?req sleep pem sign iv polls (0, d0) = bootstrap_poll ?req sleep sign iv ip ?i (host_bearer ?i ?t) polls (3, d2)"
    unfolding enroll_def seq_def request_registration_def prove_and_poll_def
    using host req0 req1 req2 texts(2,3) ne by (simp add: Let_def)
qed

text \<open>The poll that sees the approval, and the claim.\<close>

lemma bootstrap_claimed:
  assumes get: "get_registration d (cp_uuid cp) = Some r" "unique_on rg_id (registrations d)" and row: "host_row cp iv ip pem r"
    and st: "rg_status r = ''approved''" "rg_proved_at r \<noteq> None"
      "rg_challenge_hash r = Some (cp_hash cp (registration_claim_challenge (cp_mac cp) (cp_secret_key cp) r))"
      "clks (Suc j) 0 < rg_challenge_expires_at r"
    and node: "rg_edge_node_id r = Some (nd_id n)" "get_node d (nd_id n) = Some n" "nd_platform n = ''windows''"
      "find_row (\<lambda>e. en_edge_node_id e = nd_id n \<and> en_status e = ''claimed'') (enrollments d) = Some e"
      "node_domain n = Some domain" "domain = VNull \<or> (\<exists>h. domain = VStr h)" "cp_package cp ''windows'' = Inr pkg"
    and keys: "coherent_keys (cp_keys cp) pem sign" and source: "cp_source cp = Some ip" "is_ascii ip"
    and texts: "lower_hex (cp_uuid cp)" "cp_uuid cp \<noteq> []"
    and digests: "\<And>x. cp_hash cp x \<noteq> []" "\<And>k m. length (cp_mac cp k m) = 32"
    and other: "keeps_request (cp_uuid cp) (others (Suc j))"
  shows "\<exists>claim d'. bootstrap_poll (control_request_fun cp fl repr coerce clks others) sleep sign iv ip (cp_uuid cp)
          (host_bearer (cp_uuid cp) (cp_token cp)) (Suc m) (j, d) =
        (if small repr claim then Inr (response_members claim)
         else Inl (Bootstrap_error ''registration response is too large''), (Suc (Suc j), d')) \<and>
      map_of claim ''edge_ticket_secret'' = Some (VStr (nd_shared_secret n)) \<and>
      map_of (response_members claim) ''edge_ticket_secret'' = Some (JStr (nd_shared_secret n)) \<and>
      (\<exists>r. get_registration d' (cp_uuid cp) = Some r \<and> rg_status r = ''installing'')"
proof -
  let ?i = "cp_uuid cp" and ?t = "cp_token cp"
  let ?req = "control_request_fun cp fl repr coerce clks others"
  let ?c = "registration_claim_challenge (cp_mac cp) (cp_secret_key cp) r"
  let ?m = "bootstrap_message ''hermes-node-claim-v1'' ?i ?c ip iv"
  let ?b = "\<lparr>sc_challenge = ?c, sc_signature = b64encode (sign ?m)\<rparr>"
  let ?claim = "claim_response (cp_public_origin cp) n domain pkg (derived_report_token (cp_mac cp) (cp_secret_key cp) r (en_id e)) @
              [(''enrollment_id'', VStr (en_id e)), (''install_admin_ssh_key'', VBool (rg_install_admin_ssh_key r))]"
  have own: "own_token (cp_hash cp) ?i ?t r" and err: "rg_last_error r = None" and ip: "rg_actual_public_ipv4 r = ip"
    using row by (simp_all add: host_row_def)
  have clen: "length ?c = 43" by (rule length_claim_challenge) (rule digests(2))
  have slen: "length (rg_status r) \<le> 100" by (simp add: st(1))
  note slash = lower_hex_plain [OF texts(1)]
  obtain status where status: "?req ''GET'' (request_path ?i ''status'') None (host_bearer ?i ?t) (j, d) = (Inr status, (Suc j, d))"
    "map_of status ''status'' = Some (JStr ''approved'')" "map_of status ''claim_challenge'' = Some (JStr ?c)"
    using status_request [where repr = repr and fl = fl and clks = clks and others = others and coerce = coerce and j = j,
        OF get(1) own slash texts(2) err slen digests(2)] st(1,3) digests(1) by auto
  have "\<exists>d'. claim_approved_node_registration (cp_hash cp) (cp_mac cp) (cp_secret_key cp) (cp_keys cp) (cp_package cp)
        (cp_public_origin cp) (clks (Suc j)) (others (Suc j)) (cp_source cp) (Some (''Registration '' @ ?i @ dot # ?t)) ?i ?b d =
        (Inr ?claim, d') \<and> get_registration d' ?i = Some (installing (clks (Suc j) 0) r)"
  proof (rule claim_ok [where clk = "clks (Suc j)" and other = "others (Suc j)", OF get own])
    show "find_row (\<lambda>e. en_edge_node_id e = nd_id n \<and> en_status e = ''claimed'') (enrollments d) = Some e" by (rule node(4))
    show "signature_valid (cp_keys cp) ''hermes-node-claim-v1'' r ?b = Some True" by (rule host_row_signature [OF row keys])
    show "challenge_matches (cp_hash cp) r ?b" using st(3) digests(1) by (simp add: challenge_matches_def)
    show "cp_package cp (nd_platform n) = Inr pkg" using node(3,7) by simp
    show "rg_proved_at r \<noteq> None" by (rule st(2))
  qed (simp_all only: source ip st(1,4) node(1,2,5) other)
  then obtain d' where claim: "claim_approved_node_registration (cp_hash cp) (cp_mac cp) (cp_secret_key cp) (cp_keys cp) (cp_package cp)
        (cp_public_origin cp) (clks (Suc j)) (others (Suc j)) (cp_source cp) (Some (''Registration '' @ ?i @ dot # ?t)) ?i ?b d = (Inr ?claim, d')"
    and d': "get_registration d' ?i = Some (installing (clks (Suc j) 0) r)" by blast
  have cb: "challenge_body (JObj (bootstrap_signed sign ?c ?m)) = Some ?b"
    by (rule challenge_body_signed) (simp_all add: clen coherent_length [OF keys])
  have req: "?req ''POST'' (request_path ?i ''claim-approved'') (Some (bootstrap_signed sign ?c ?m)) (host_bearer ?i ?t) (Suc j, d) =
      (transport_answer (bytes_loads fl) (http_respond repr (Inr ?claim)), (Suc (Suc j), d'))"
  proof (rule authorized_answered)
    show "registration_route cp coerce (clks (Suc j)) (others (Suc j)) ''POST'' (request_path ?i ''claim-approved'')
        (Some (''Registration '' @ ?i @ dot # ?t)) (map_option JObj (Some (bootstrap_signed sign ?c ?m))) d = (Inr ?claim, d')"
      unfolding option.map registration_route_request(3) [OF slash texts(2) cb] by (rule claim)
  qed (use plain_signed in blast)
  have plain: "plain_json (JObj (response_members ?claim))"
    using node(6) by (auto simp: response_members_def claim_response_def resources_def)
  have "bootstrap_poll ?req sleep sign iv ip ?i (host_bearer ?i ?t) (Suc m) (j, d) =
      (transport_answer (bytes_loads fl) (http_respond repr (Inr ?claim)), (Suc (Suc j), d'))"
    using status req clen by (simp add: seq_def poll_answer_def)
  also have "transport_answer (bytes_loads fl) (http_respond repr (Inr ?claim)) =
      (if small repr ?claim then Inr (response_members ?claim) else Inl (Bootstrap_error ''registration response is too large''))"
    using answer_response [OF plain, of repr fl] answer_too_large [of repr ?claim fl] by auto
  finally show ?thesis
    using d' by (intro exI [of _ ?claim] exI [of _ d']) (simp add: claim_response_def response_members_def installing_def)
qed

text \<open>C25. A host that an administrator accepts obtains its credentials. Let the host be supported and its
  inventory within the declared bounds, its key pair coherent, its address global and the trusted source
  of its requests. If the control plane takes the request, other transactions leave it alone, and an
  administrator accepts it during the wait after any poll but the last allowed one, in time and with the
  claim in time, then the run of the program ends with the claim, which contains the ticket secret of the new
  node, and the request is installing; only a claim of more than a MiB would be refused by the program.\<close>

theorem bootstrap_completes:
  assumes host: "supported_host iv"
    and body: "create_body coerce (JObj (dict_merge (inventory_members iv)
          [(''platform'', JStr ''windows''), (''public_ipv4'', JStr ip), (''public_key_pem'', JStr pem)])) = Some b"
    and source: "cp_source cp = Some ip" "ip_address ip = Some (V4 a)" "is_global (V4 a)"
    and keys: "coherent_keys (cp_keys cp) pem sign"
    and texts: "lower_hex (cp_uuid cp)" "cp_uuid cp \<noteq> []" "cp_token cp \<noteq> []" "length (cp_uuid cp) + length (cp_token cp) < 240"
      "32 \<le> length (cp_challenge cp)" "length (cp_challenge cp) \<le> 200"
    and digests: "\<And>x. cp_hash cp x \<noteq> []" "\<And>k m. length (cp_mac cp k m) = 32"
    and created: "create_node_registration (cp_hash cp) (cp_keys cp) (clks 1) (cp_uuid cp) (cp_challenge cp) (cp_token cp)
          (cp_source cp) b d0 = (Inr resp1, d1)" "unique_on rg_id (registrations d0)"
    and proof_step: "d2 = snd (prove_node_registration (cp_hash cp) (cp_keys cp) (clks 2) (others 2) (cp_source cp)
          (Some (''Registration '' @ cp_uuid cp @ dot # cp_token cp)) (cp_uuid cp)
          \<lparr>sc_challenge = cp_challenge cp, sc_signature = b64encode (sign (bootstrap_message ''hermes-node-registration-v1''
             (cp_uuid cp) (cp_challenge cp) ip iv))\<rparr> d1)"
    and waits: "\<And>q. q < k \<Longrightarrow> keeps_request (cp_uuid cp) (waits (4 + q))" "keeps_request (cp_uuid cp) (others 2)"
      "keeps_request (cp_uuid cp) (others (5 + k))" "keeps_request (cp_uuid cp) oa"
    and accepted: "accept_node_registration (cp_hash cp) (cp_mac cp) (cp_secret_key cp) aclk secret euuid fresh oa admin (cp_uuid cp) ab
          (fold (\<lambda>q. waits (4 + q)) [0..<k] d2) = (Inr y, waits (4 + k) (fold (\<lambda>q. waits (4 + q)) [0..<k] d2))"
    and deadlines: "clks 2 0 < clks 1 0 + minutes 15" "clks (5 + k) 0 < aclk 0 + minutes 15"
    and package: "cp_package cp ''windows'' = Inr pkg" and polls: "k + 2 \<le> polls"
  shows "\<exists>claim d'. enroll (transport_request (bytes_loads fl) repr (control_http cp fl repr coerce clks others) (cp_origin cp))
        (control_sleep waits) pem sign iv polls (0, d0) =
        (if small repr claim then Inr (response_members claim)
         else Inl (Bootstrap_error ''registration response is too large''), (6 + k, d')) \<and>
      map_of claim ''edge_ticket_secret'' = Some (VStr secret) \<and>
      map_of (response_members claim) ''edge_ticket_secret'' = Some (JStr secret) \<and>
      (\<exists>r. get_registration d' (cp_uuid cp) = Some r \<and> rg_status r = ''installing'')"
proof -
  let ?i = "cp_uuid cp" and ?t = "cp_token cp"
  let ?d = "\<lambda>m. fold (\<lambda>q. waits (4 + q)) [0..<m] d2"
  note facts = host body source keys texts digests(1) created proof_step waits(2) deadlines(1)
  note run = bootstrap_registered(1) [where clks = clks and others = others and fl = fl and repr = repr and sleep = "control_sleep waits" and polls = polls, OF facts]
    and ascii = bootstrap_registered(2) [where clks = clks and others = others, OF facts]
    and pending = bootstrap_registered(3) [where clks = clks and others = others, OF facts]
  obtain r where r: "get_registration d2 ?i = Some r" "unique_on rg_id (registrations d2)" "host_row cp iv ip pem r"
    "rg_status r = ''pending_approval''"
    using pending by blast
  have getk: "m \<le> k \<Longrightarrow> get_registration (?d m) ?i = Some r" for m
    using fold_keeps(1) [where waits = waits and i = ?i and k = k, OF waits(1)] r(1) by simp
  have uniqk: "unique_on rg_id (registrations (?d k))"
    using fold_keeps(2) [where waits = waits and i = ?i and k = k and m = k, OF waits(1)] r(2) by simp
  obtain n e domain where acc: "get_registration (waits (4 + k) (?d k)) ?i = Some (approved (aclk 0) (us_id admin) (ab_install_admin_ssh_key ab)
        (cp_hash cp (registration_claim_challenge (cp_mac cp) (cp_secret_key cp) r)) (nd_id n) r)"
    "unique_on rg_id (registrations (waits (4 + k) (?d k)))" "get_node (waits (4 + k) (?d k)) (nd_id n) = Some n"
    "nd_platform n = rg_platform r" "nd_shared_secret n = secret" "node_domain n = Some domain" "domain = VNull \<or> (\<exists>h. domain = VStr h)"
    "find_row (\<lambda>e. en_edge_node_id e = nd_id n \<and> en_status e = ''claimed'') (enrollments (waits (4 + k) (?d k))) = Some e"
    by (rule accept_Inr [OF accepted getk [OF order_refl] uniqk waits(4)])
  obtain m where polls_eq: "polls = Suc k + Suc m" using polls that [of "polls - k - 2"] by simp
  have row: "host_row cp iv ip pem r" "rg_last_error r = None" "own_token (cp_hash cp) ?i ?t r" "rg_platform r = ''windows''"
    using r(3) by (simp_all add: host_row_def)
  let ?a = "approved (aclk 0) (us_id admin) (ab_install_admin_ssh_key ab)
        (cp_hash cp (registration_claim_challenge (cp_mac cp) (cp_secret_key cp) r)) (nd_id n) r"
  have a: "host_row cp iv ip pem ?a" "rg_status ?a = ''approved''" "rg_edge_node_id ?a = Some (nd_id n)"
    "rg_challenge_hash ?a = Some (cp_hash cp (registration_claim_challenge (cp_mac cp) (cp_secret_key cp) ?a))"
    "clks (Suc (4 + k)) 0 < rg_challenge_expires_at ?a" "rg_proved_at ?a = rg_proved_at r"
    using row(1) deadlines(2) by (simp_all add: approved_fields)
  have proved: "rg_proved_at ?a \<noteq> None"
    using accepted getk [OF order_refl] by (auto simp: a(6) accept_node_registration_def split: if_splits)
  have wait: "bootstrap_poll (control_request_fun cp fl repr coerce clks others) (control_sleep waits) sign iv ip ?i (host_bearer ?i ?t) polls (3, d2) =
      bootstrap_poll (control_request_fun cp fl repr coerce clks others) (control_sleep waits) sign iv ip ?i (host_bearer ?i ?t) (Suc m)
        (4 + k, waits (4 + k) (?d k))"
    unfolding polls_eq by (rule polls_pending [OF getk row(3) lower_hex_plain [OF texts(1)] texts(2) row(2) r(4) digests(2)])
  have other: "keeps_request ?i (others (Suc (4 + k)))" using waits(3) by (simp add: eval_nat_numeral)
  have plat: "nd_platform n = ''windows''" using acc(4) row(4) by simp
  have "\<exists>claim d'. bootstrap_poll (control_request_fun cp fl repr coerce clks others) (control_sleep waits) sign iv ip ?i (host_bearer ?i ?t) (Suc m)
        (4 + k, waits (4 + k) (?d k)) =
        (if small repr claim then Inr (response_members claim)
         else Inl (Bootstrap_error ''registration response is too large''), (Suc (Suc (4 + k)), d')) \<and>
      map_of claim ''edge_ticket_secret'' = Some (VStr (nd_shared_secret n)) \<and>
      map_of (response_members claim) ''edge_ticket_secret'' = Some (JStr (nd_shared_secret n)) \<and>
      (\<exists>r. get_registration d' (cp_uuid cp) = Some r \<and> rg_status r = ''installing'')"
    by (rule bootstrap_claimed [where clks = clks and others = others and j = "4 + k", OF acc(1,2) a(1,2) proved a(4,5,3) acc(3) plat acc(8,6,7) package keys source(1) ascii texts(1,2) digests other])
  then show ?thesis unfolding run wait acc(5) by (simp add: eval_nat_numeral)
qed

section \<open>A host that registers\<close>

definition demo_sign :: "string \<Rightarrow> string" where
  "demo_sign m = replicate 64 (CHR ''s'')"

definition demo_host_keys :: key_ops where
  "demo_host_keys =
     \<lparr>ko_load = (\<lambda>_. Pem_ed25519 ''k''), ko_pem = (\<lambda>_. ''pem''), ko_der = (\<lambda>_. ''der''),
      ko_verify = (\<lambda>k sg m. sg = replicate 64 (CHR ''s''))\<rparr>"

definition demo_control :: control_plane where
  "demo_control =
     \<lparr>cp_origin = ''https://c'', cp_hash = (\<lambda>x. CHR ''h'' # x), cp_mac = (\<lambda>k m. replicate 32 (CHR ''m'')), cp_secret_key = ''k'',
      cp_keys = demo_host_keys, cp_package = (\<lambda>_. Inr (''sum'', ''/pkg'')), cp_public_origin = None, cp_source = Some ''8.8.8.8'',
      cp_uuid = ''a'', cp_challenge = replicate 32 (CHR ''c''), cp_token = ''t''\<rparr>"

definition demo_inventory :: inventory where
  "demo_inventory =
     \<lparr>iv_machine_fingerprint = replicate 64 (CHR ''0''), iv_reported_hostname = ''h'', iv_os_name = ''Windows Server 2025'',
      iv_cpu_count = 4, iv_memory_total_bytes = 8, iv_disk_total_bytes = 8, iv_agent_version = ''windows-bootstrap/1''\<rparr>"

definition demo_pem :: string where
  "demo_pem = replicate 80 (CHR ''p'')"

definition demo_create_body :: registration_create_body where
  "demo_create_body =
     \<lparr>rb_public_key_pem = demo_pem, rb_platform = ''windows'', rb_machine_fingerprint = replicate 64 (CHR ''0''),
      rb_reported_hostname = ''h'', rb_public_ipv4 = ''8.8.8.8'', rb_os_name = ''Windows Server 2025'', rb_cpu_count = 4,
      rb_memory_total_bytes = 8, rb_disk_total_bytes = 8, rb_agent_version = ''windows-bootstrap/1''\<rparr>"

definition demo_accept :: "db \<Rightarrow> details result" where
  "demo_accept = accept_node_registration (cp_hash demo_control) (cp_mac demo_control) (cp_secret_key demo_control) (\<lambda>_. 30)
     ''secret'' ''e'' ''f'' (\<lambda>d. d) (demo_user 1 ''root'' ''admin'') ''a''
     \<lparr>ab_node_name = ''n9'', ab_endpoint = ''https://n9'', ab_expected_public_ipv4 = ''8.8.8.8'', ab_install_admin_ssh_key = False\<rparr>"

lemma demo_accept_ok:
  assumes "get_registration d ''a'' = Some r" and "unique_on rg_id (registrations d)" and "rg_status r = ''pending_approval''"
    and "rg_proved_at r \<noteq> None" and "rg_actual_public_ipv4 r = ''8.8.8.8''" and "nodes d = []" and "enrollments d = []"
  shows "\<exists>y. demo_accept d = (Inr y, snd (demo_accept d))"
proof -
  have h: "plain_host ''n9''" by (simp add: plain_host_def is_lower_def is_digit_def char_in_def)
  have net: "network_error (validate_edge_node_network (Some ''https://n9'') (Some ''8.8.8.8'')) = None"
    using plain_https [OF h] demo_ip by (simp add: validate_edge_node_network_def network_error_def del: is_global.simps)
  have "accept_where r r" using assms(3,4) by (simp add: accept_where_def)
  from count_request [where P = "accept_where r", OF assms(1,2) this] have one: "count_where (accept_where r) (registrations d) = 1"
    by (simp add: accept_where_def)
  have free: "\<not> node_exists x y d" for x y using assms(6) by (simp add: node_exists_def)
  show ?thesis
    using assms net one free by (simp add: demo_accept_def accept_node_registration_def Let_def enrollment_clash_def)
qed

lemma demo_create_body: "create_body coerce (JObj (dict_merge (inventory_members demo_inventory)
    [(''platform'', JStr ''windows''), (''public_ipv4'', JStr ''8.8.8.8''), (''public_key_pem'', JStr demo_pem)])) = Some demo_create_body"
  by (simp add: create_body_def inventory_members_def dict_merge_def str_field_def int_field_def int64_max_def demo_inventory_def demo_pem_def
      demo_create_body_def lower_hex_def list_all_iff is_digit_def char_in_def)

definition demo_proof :: "db \<Rightarrow> details result" where
  "demo_proof = prove_node_registration (cp_hash demo_control) (cp_keys demo_control) (\<lambda>_. 20) (\<lambda>d. d) (cp_source demo_control)
     (Some (''Registration '' @ cp_uuid demo_control @ dot # cp_token demo_control)) (cp_uuid demo_control)
     \<lparr>sc_challenge = cp_challenge demo_control,
      sc_signature = b64encode (demo_sign (bootstrap_message ''hermes-node-registration-v1'' (cp_uuid demo_control)
        (cp_challenge demo_control) ''8.8.8.8'' demo_inventory))\<rparr>"

definition demo_clocks :: "nat \<Rightarrow> clock" where
  "demo_clocks j = (\<lambda>_. 10 * int j)"

lemma demo_created:
  "\<exists>resp. create_node_registration (cp_hash demo_control) (cp_keys demo_control) (demo_clocks 1) (cp_uuid demo_control)
      (cp_challenge demo_control) (cp_token demo_control) (cp_source demo_control) demo_create_body empty_db =
    (Inr resp, empty_db\<lparr>registrations := [new_registration (cp_hash demo_control) demo_host_keys ''k'' 10 ''a'' (replicate 32 (CHR ''c'')) ''t'' demo_create_body]\<rparr>)"
proof -
  have "is_ascii ''8.8.8.8''" by (simp add: is_ascii_def)
  then show ?thesis
    using demo_ip
    by (simp add: create_node_registration_def source_matches_def compare_digest_def demo_control_def demo_host_keys_def
        demo_create_body_def demo_clocks_def empty_db_def registration_clash_def Let_def del: is_global.simps)
qed

lemma demo_proof_tables:
  "nodes (snd (demo_proof d)) = nodes d" "enrollments (snd (demo_proof d)) = enrollments d"
  by (simp_all add: demo_proof_def prove_node_registration_def update_registration_def Let_def split: option.split)

lemma demo_keys_coherent: "coherent_keys (cp_keys demo_control) demo_pem demo_sign"
  by (simp add: coherent_keys_def demo_control_def demo_host_keys_def demo_sign_def)

lemma demo_texts:
  "supported_host demo_inventory" "cp_source demo_control = Some ''8.8.8.8''" "ip_address ''8.8.8.8'' = Some (V4 134744072)"
  "is_global (V4 134744072)" "lower_hex (cp_uuid demo_control)" "cp_uuid demo_control \<noteq> []" "cp_token demo_control \<noteq> []"
  "length (cp_uuid demo_control) + length (cp_token demo_control) < 240" "32 \<le> length (cp_challenge demo_control)"
  "length (cp_challenge demo_control) \<le> 200" "cp_hash demo_control x \<noteq> []" "length (cp_mac demo_control k m) = 32"
  "cp_package demo_control ''windows'' = Inr (''sum'', ''/pkg'')" "unique_on rg_id (registrations empty_db)"
  using demo_ip
  by (simp_all add: demo_control_def demo_inventory_def supported_host_def startswith_def lower_hex_def list_all_iff is_digit_def
      char_in_def empty_db_def unique_on_def del: is_global.simps)

theorem bootstrap_completes_witness:
  "\<exists>claim d'. enroll (transport_request (bytes_loads (\<lambda>_. NaN)) (\<lambda>_. [])
        (control_http demo_control (\<lambda>_. NaN) (\<lambda>_. []) (\<lambda>_. None) demo_clocks (\<lambda>_ d. d)) (cp_origin demo_control))
        (control_sleep (\<lambda>_ d. snd (demo_accept d))) demo_pem demo_sign demo_inventory 2 (0, empty_db) =
        (if small (\<lambda>_. []) claim then Inr (response_members claim)
         else Inl (Bootstrap_error ''registration response is too large''), (6 + 0, d')) \<and>
      map_of claim ''edge_ticket_secret'' = Some (VStr ''secret'') \<and>
      map_of (response_members claim) ''edge_ticket_secret'' = Some (JStr ''secret'') \<and>
      (\<exists>r. get_registration d' (cp_uuid demo_control) = Some r \<and> rg_status r = ''installing'')"
proof -
  let ?d1 = "empty_db\<lparr>registrations := [new_registration (cp_hash demo_control) demo_host_keys ''k'' 10 ''a'' (replicate 32 (CHR ''c'')) ''t'' demo_create_body]\<rparr>"
  obtain resp where c: "create_node_registration (cp_hash demo_control) (cp_keys demo_control) (demo_clocks 1) (cp_uuid demo_control)
      (cp_challenge demo_control) (cp_token demo_control) (cp_source demo_control) demo_create_body empty_db = (Inr resp, ?d1)"
    using demo_created by blast
  have p: "snd (demo_proof ?d1) = snd (prove_node_registration (cp_hash demo_control) (cp_keys demo_control) (demo_clocks 2) (\<lambda>d. d)
     (cp_source demo_control) (Some (''Registration '' @ cp_uuid demo_control @ dot # cp_token demo_control)) (cp_uuid demo_control)
     \<lparr>sc_challenge = cp_challenge demo_control,
      sc_signature = b64encode (demo_sign (bootstrap_message ''hermes-node-registration-v1'' (cp_uuid demo_control)
        (cp_challenge demo_control) ''8.8.8.8'' demo_inventory))\<rparr> ?d1)"
    by (simp add: demo_proof_def demo_clocks_def)
  have t: "demo_clocks 2 0 < demo_clocks 1 0 + minutes 15" "demo_clocks (5 + 0) 0 < (\<lambda>_. 30) 0 + minutes 15"
    by (simp_all add: demo_clocks_def duration_defs)
  have keep: "keeps_request i (\<lambda>d. d)" for i by simp
  obtain r where r: "get_registration (snd (demo_proof ?d1)) (cp_uuid demo_control) = Some r"
    "unique_on rg_id (registrations (snd (demo_proof ?d1)))" "host_row demo_control demo_inventory ''8.8.8.8'' demo_pem r"
    "rg_status r = ''pending_approval''" "rg_proved_at r \<noteq> None"
    using bootstrap_registered(3) [where clks = demo_clocks and others = "\<lambda>_ d. d", OF demo_texts(1) demo_create_body demo_texts(2-4)
        demo_keys_coherent demo_texts(5-11) c demo_texts(14) p keep t(1)] by blast
  have u: "cp_uuid demo_control = ''a''" by (simp add: demo_control_def)
  have "nodes (snd (demo_proof ?d1)) = []" "enrollments (snd (demo_proof ?d1)) = []" "rg_actual_public_ipv4 r = ''8.8.8.8''"
    using r(3) unfolding demo_proof_tables by (simp_all add: empty_db_def host_row_def)
  from demo_accept_ok [OF r(1) [unfolded u] r(2,4,5) this(3,1,2)] obtain y
    where y: "demo_accept (snd (demo_proof ?d1)) = (Inr y, snd (demo_accept (snd (demo_proof ?d1))))" by blast
  show ?thesis
    by (rule bootstrap_completes [where clks = demo_clocks and others = "\<lambda>_ d. d" and waits = "\<lambda>_ d. snd (demo_accept d)" and k = 0
          and aclk = "\<lambda>_. 30" and oa = "\<lambda>d. d", OF demo_texts(1) demo_create_body demo_texts(2-4) demo_keys_coherent demo_texts(5-12)
          c demo_texts(14) p _ keep keep keep _ t demo_texts(13)])
      (use y in \<open>simp_all add: demo_accept_def u\<close>)
qed

end
