(* ===== verification/Packaging.thy ===== *)
theory Packaging
  imports Releases Json_Text
begin

text \<open>
  The tools that make what \<open>Releases\<close> verifies and streams: the signer of the Windows release manifest
  (\<open>windows-edge/tools/sign_release_manifest.py\<close>), the builder of the Windows package
  (\<open>scripts/build_windows_edge_package.py\<close>) and that of the Linux package
  (\<open>scripts/build_edge_package.py\<close>). Text files are those of a POSIX run, whose lines end in one newline.
  SHA-256, the Ed25519 operations, the ZIP, tar and gzip encodings and \<open>float\<close> (\<open>fl\<close>) are arguments; a file
  system is a function from paths to files.
\<close>

section \<open>The signer of the release manifest\<close>

text \<open>\<open>main\<close> converts \<open>OSError\<close>, \<open>ValueError\<close> and \<open>InvalidSignature\<close> into exit code 1, so only the
  fact that one is raised is kept; a usage error of the parser is exit code 2.\<close>

record tool_file =
  tf_symlink :: bool
  tf_regular :: bool
  tf_broad :: bool
  tf_data :: string

type_synonym tool_files = "string \<Rightarrow> tool_file option"

definition plain_file :: "string \<Rightarrow> tool_file" where
  "plain_file d = \<lparr>tf_symlink = False, tf_regular = True, tf_broad = True, tf_data = d\<rparr>"

definition tool_b64 :: "string \<Rightarrow> nat \<Rightarrow> string option" where
  "tool_b64 v size_v = (case b64decode_std v of None \<Rightarrow> None | Some d \<Rightarrow> if length d = size_v then Some d else None)"

text \<open>\<open>tf_broad\<close> is a mode with a bit for the group or for others; Windows has no such bits.\<close>

definition read_private_key :: "bool \<Rightarrow> tool_files \<Rightarrow> string \<Rightarrow> string option" where
  "read_private_key nt fs path =
     (case fs path of
        None \<Rightarrow> None
      | Some f \<Rightarrow>
          if tf_symlink f \<or> \<not> tf_regular f \<or> (\<not> nt \<and> tf_broad f) \<or> length (tf_data f) \<noteq> 32 then None
          else Some (tf_data f))"

definition release_char :: "char \<Rightarrow> bool" where
  "release_char c \<longleftrightarrow> is_alnum c \<or> c = dot \<or> c = CHR ''-''"

definition file_re :: "string \<Rightarrow> bool" where
  "file_re f \<longleftrightarrow>
     startswith f package_prefix \<and> endswith f ''.zip'' \<and>
     (let middle = take (length f - length package_prefix - 4) (drop (length package_prefix) f) in
      length package_prefix + 4 < length f \<and> list_all release_char middle)"

definition release_name :: "string \<Rightarrow> string" where
  "release_name version = package_prefix @ version @ ''.zip''"

definition valid_document :: "json \<Rightarrow> bool" where
  "valid_document j =
     (case j of
        JObj doc \<Rightarrow>
          fst ` set doc = {''schema_version'', ''package''} \<and>
          (case map_of doc ''schema_version'' of None \<Rightarrow> False | Some v \<Rightarrow> json_eq_int v 1) \<and>
          (case map_of doc ''package'' of
             Some (JObj package) \<Rightarrow>
               fst ` set package = {''filename'', ''sha256'', ''size'', ''version''} \<and>
               (case (map_of package ''filename'', map_of package ''sha256'', map_of package ''size'', map_of package ''version'') of
                  (Some (JStr filename), Some (JStr sha256), Some (JInt size_v), Some (JStr version)) \<Rightarrow>
                    file_re filename \<and> length sha256 = 64 \<and> lower_hex sha256 \<and> 0 < size_v \<and> size_v \<le> 8 * 1024 ^ 3 \<and>
                    version_re version \<and> filename = release_name version
                | _ \<Rightarrow> False)
           | _ \<Rightarrow> False)
      | _ \<Rightarrow> False)"

definition validate_manifest :: "(string \<Rightarrow> pyfloat) \<Rightarrow> string \<Rightarrow> json option" where
  "validate_manifest fl raw =
     (if 4096 < length raw \<or> \<not> is_ascii raw then None
      else (case json_loads fl raw of None \<Rightarrow> None | Some j \<Rightarrow> if valid_document j then Some j else None))"

record ed25519 =
  ed_public :: "string \<Rightarrow> string"
  ed_sign :: "string \<Rightarrow> string \<Rightarrow> string"
  ed_verify :: "string \<Rightarrow> string \<Rightarrow> string \<Rightarrow> bool"

record sign_args =
  sa_package :: "string option"
  sa_version :: "string option"
  sa_private_key_file :: "string option"
  sa_public_key :: "string option"
  sa_manifest :: string
  sa_signature :: string

definition verify_release :: "(string \<Rightarrow> pyfloat) \<Rightarrow> ed25519 \<Rightarrow> sign_args \<Rightarrow> tool_files \<Rightarrow> int" where
  "verify_release fl ed a fs =
     (case (fs (sa_manifest a), fs (sa_signature a)) of
        (Some m, Some sg) \<Rightarrow>
          if validate_manifest fl (tf_data m) = None \<or> \<not> is_ascii (tf_data sg) then 1
          else
            (case (tool_b64 (strip (tf_data sg)) 64, tool_b64 (case sa_public_key a of None \<Rightarrow> [] | Some k \<Rightarrow> k) 32) of
               (Some signature, Some public) \<Rightarrow> if ed_verify ed public signature (tf_data m) then 0 else 1
             | _ \<Rightarrow> 1)
      | _ \<Rightarrow> 1)"

definition release_document :: "(string \<Rightarrow> string) \<Rightarrow> string \<Rightarrow> string \<Rightarrow> json" where
  "release_document sha256_hex version data =
     JObj [(''package'', JObj [(''filename'', JStr (release_name version)), (''sha256'', JStr (sha256_hex data)),
                               (''size'', JInt (int (length data))), (''version'', JStr version)]),
           (''schema_version'', JInt 1)]"

definition release_manifest :: "(string \<Rightarrow> string) \<Rightarrow> string \<Rightarrow> string \<Rightarrow> string" where
  "release_manifest sha256_hex version data = json_text (\<lambda>_. []) (release_document sha256_hex version data) @ [CHR 0x0A]"

text \<open>The exit code, the output and the files after a run that signs; \<open>writes\<close> says which paths can be
  written.\<close>

definition sign_release ::
  "(string \<Rightarrow> pyfloat) \<Rightarrow> (string \<Rightarrow> string) \<Rightarrow> ed25519 \<Rightarrow> bool \<Rightarrow> (string \<Rightarrow> bool) \<Rightarrow> sign_args \<Rightarrow> tool_files \<Rightarrow>
   int \<times> string \<times> tool_files" where
  "sign_release fl sha256_hex ed nt writes a fs =
     (case (sa_package a, sa_version a, sa_private_key_file a) of
        (Some package, Some version, Some key_file) \<Rightarrow>
          if version = [] then (2, [], fs)
          else if \<not> version_re version \<or> path_name package \<noteq> release_name version then (1, [], fs)
          else
            (case fs package of
               None \<Rightarrow> (1, [], fs)
             | Some f \<Rightarrow>
                 if \<not> tf_regular f then (1, [], fs)
                 else
                   (let raw = release_manifest sha256_hex version (tf_data f) in
                    if validate_manifest fl raw = None then (1, [], fs)
                    else
                      (case read_private_key nt fs key_file of
                         None \<Rightarrow> (1, [], fs)
                       | Some key \<Rightarrow>
                           if \<not> writes (sa_manifest a) then (1, [], fs)
                           else
                             (let fs1 = fs(sa_manifest a \<mapsto> plain_file raw) in
                              if \<not> writes (sa_signature a) then (1, [], fs1)
                              else
                                (0, b64encode (ed_public ed key) @ [CHR 0x0A],
                                 fs1(sa_signature a \<mapsto> plain_file (b64encode (ed_sign ed key raw) @ [CHR 0x0A])))))))
      | _ \<Rightarrow> (2, [], fs))"

section \<open>What is signed is accepted\<close>

lemma b64_value: "b64_val c \<noteq> None \<Longrightarrow> \<not> is_space c \<and> (of_char c :: nat) < 128"
  by (auto simp: b64_val_def is_space_def char_in_def Let_def split: if_splits)

lemma b64_quads_values: "c \<in> set (b64_quads bs) \<Longrightarrow> b64_val c \<noteq> None"
  by (induction bs rule: b64_quads.induct) (auto simp: Let_def)

lemma b64encode_text: "c \<in> set (b64encode bs) \<Longrightarrow> \<not> is_space c \<and> (of_char c :: nat) < 128"
proof -
  assume "c \<in> set (b64encode bs)"
  then obtain d where "d \<in> set (b64_quads bs) \<or> d = pad_char" "c = std_char d"
    by (auto simp: b64encode_def urlsafe_b64encode_def b64_padding_def)
  then have "b64_val c \<noteq> None \<or> c = pad_char"
    using b64_quads_values [of d bs] by auto
  then show ?thesis using b64_value [of c] by (auto simp: is_space_def char_in_def)
qed

lemma strip_line: "(\<And>c. c \<in> set s \<Longrightarrow> \<not> is_space c) \<Longrightarrow> strip (s @ [CHR 0x0A]) = s"
proof -
  assume a: "\<And>c. c \<in> set s \<Longrightarrow> \<not> is_space c"
  have nl: "is_space (CHR 0x0A)" by (simp add: is_space_def char_in_def)
  have keep: "dropWhile is_space t = t" if "\<And>c. c \<in> set t \<Longrightarrow> \<not> is_space c" for t
    using that by (cases t) auto
  show ?thesis
  proof (cases s)
    case Nil
    with nl show ?thesis by (simp add: strip_def)
  next
    case (Cons c cs)
    with a have "dropWhile is_space (s @ [CHR 0x0A]) = s @ [CHR 0x0A]" by simp
    with nl keep [of "rev s"] a show ?thesis by (simp add: strip_def)
  qed
qed

lemma strip_b64_line [simp]: "strip (b64encode bs @ [CHR 0x0A]) = b64encode bs"
  by (rule strip_line) (simp add: b64encode_text)

lemma ascii_b64_line [simp]: "is_ascii (b64encode bs @ [CHR 0x0A])"
  by (auto simp: is_ascii_def list_all_iff b64encode_text)

lemma b64decode_std_encode [simp]: "b64decode_std (b64encode bs) = Some bs"
  using b64encode_chars [of "CHR ''-''" bs] b64encode_chars [of "CHR ''_''" bs]
  by (auto simp: b64decode_std_def b64decode_b64encode)

definition ed25519_correct :: "ed25519 \<Rightarrow> bool" where
  "ed25519_correct ed \<longleftrightarrow>
     (\<forall>k m. length k = 32 \<longrightarrow>
        length (ed_public ed k) = 32 \<and> length (ed_sign ed k m) = 64 \<and> ed_verify ed (ed_public ed k) (ed_sign ed k m) m)"

lemma plain_release: "plain_json (release_document sha256_hex version data)"
  by (simp add: release_document_def)

lemma sign_release_ok:
  assumes "sign_release fl sha256_hex ed nt writes a fs = (0, out, fs')"
  obtains package version f key where "sa_package a = Some package" "fs package = Some f"
    "path_name package = release_name version" "version_re version" "length key = 32"
    "validate_manifest fl (release_manifest sha256_hex version (tf_data f)) = Some (release_document sha256_hex version (tf_data f))"
    "out = b64encode (ed_public ed key) @ [CHR 0x0A]"
    "fs' = fs(sa_manifest a \<mapsto> plain_file (release_manifest sha256_hex version (tf_data f)),
              sa_signature a \<mapsto> plain_file (b64encode (ed_sign ed key (release_manifest sha256_hex version (tf_data f))) @ [CHR 0x0A]))"
proof -
  from assms obtain package version path where a: "sa_package a = Some package" "sa_version a = Some version"
    "sa_private_key_file a = Some path" "version \<noteq> []"
    by (auto simp: sign_release_def split: option.splits if_splits)
  with assms obtain f where f: "fs package = Some f" "version_re version" "path_name package = release_name version"
    by (auto simp: sign_release_def split: option.splits if_splits)
  let ?raw = "release_manifest sha256_hex version (tf_data f)"
  from assms a f have v: "validate_manifest fl ?raw \<noteq> None" and "read_private_key nt fs path \<noteq> None"
    by (auto simp: sign_release_def Let_def split: option.splits if_splits)
  then obtain key where key: "read_private_key nt fs path = Some key" by blast
  with assms a f v have out: "out = b64encode (ed_public ed key) @ [CHR 0x0A]"
    "fs' = fs(sa_manifest a \<mapsto> plain_file ?raw, sa_signature a \<mapsto> plain_file (b64encode (ed_sign ed key ?raw) @ [CHR 0x0A]))"
    by (auto simp: sign_release_def Let_def split: if_splits)
  have len: "length key = 32" using key by (auto simp: read_private_key_def split: option.splits if_splits)
  have doc: "validate_manifest fl ?raw = Some (release_document sha256_hex version (tf_data f))"
    using v json_loads_line [OF plain_release, of fl "\<lambda>_. []" sha256_hex version "tf_data f"]
    by (auto simp: validate_manifest_def release_manifest_def split: if_splits)
  show thesis by (rule that [OF a(1) f(1,3,2) len doc out])
qed

text \<open>What the tool signs, the tool verifies, with the public key it printed.\<close>

theorem sign_then_verify:
  assumes "sign_release fl sha256_hex ed nt writes a fs = (0, out, fs')" and "sa_manifest a \<noteq> sa_signature a"
    and "ed25519_correct ed"
  shows "verify_release fl ed (a\<lparr>sa_public_key := Some (strip out)\<rparr>) fs' = 0"
  using assms(1)
proof (rule sign_release_ok)
  fix package version f key
  assume "length key = 32"
    "validate_manifest fl (release_manifest sha256_hex version (tf_data f)) = Some (release_document sha256_hex version (tf_data f))"
    "out = b64encode (ed_public ed key) @ [CHR 0x0A]"
    "fs' = fs(sa_manifest a \<mapsto> plain_file (release_manifest sha256_hex version (tf_data f)),
              sa_signature a \<mapsto> plain_file (b64encode (ed_sign ed key (release_manifest sha256_hex version (tf_data f))) @ [CHR 0x0A]))"
  with assms(2,3) show ?thesis by (simp add: verify_release_def plain_file_def tool_b64_def ed25519_correct_def)
qed

text \<open>A file as the control plane finds it in its release directory.\<close>

definition deployed :: "string \<Rightarrow> os_file" where
  "deployed d = \<lparr>fl_regular = True, fl_size = int (length d), fl_data = d, fl_again = d\<rparr>"

lemma read_deployed: "fs path = Some (deployed d) \<Longrightarrow> length d \<le> limit \<Longrightarrow> read_small_regular_file fs path limit = Some d"
  by (simp add: read_small_regular_file_def deployed_def)

lemma path_name_again: "path_name p \<noteq> [] \<Longrightarrow> path_name (path_name p) = path_name p"
proof -
  let ?parts = "\<lambda>p. filter (\<lambda>c. c \<noteq> [] \<and> c \<noteq> ''.'') (split_char (CHR ''/'') p)"
  assume "path_name p \<noteq> []"
  then obtain c cs where c: "rev (?parts p) = c # cs" "path_name p = c"
    by (auto simp: path_name_def split: list.splits)
  then have "c \<in> set (?parts p)" by (metis list.set_intros(1) set_rev)
  then have "c \<noteq> []" "c \<noteq> ''.''" "CHR ''/'' \<notin> set c" using split_char_parts by auto
  with c(2) show ?thesis by (simp add: path_name_def split_char_no_sep)
qed

lemma strict_members_plain:
  "plain_json j \<Longrightarrow> strict_tree j = Some j"
  "list_all plain_json js \<Longrightarrow> strict_items js = Some js"
  "list_all (\<lambda>kv. plain_json (snd kv)) kvs \<Longrightarrow> strict_members kvs = Some kvs"
proof (induction j and js and kvs rule: strict_tree_strict_items_strict_members.induct)
  case (1 ms)
  have "distinct (map fst (acc @ kvs)) \<Longrightarrow> strict_json_object acc kvs = Some (acc @ kvs)" for acc kvs :: "(string \<times> json) list"
    by (induction kvs arbitrary: acc) auto
  from this [of "[]" ms] 1 show ?case by simp
qed auto

lemma manifest_package_document:
  assumes "valid_document (release_document sha256_hex version data)" and "path_name package = release_name version"
  shows "manifest_package (release_document sha256_hex version data) =
    Some (release_name version, sha256_hex data, int (length data))"
proof -
  have "release_name version \<noteq> []" by (simp add: release_name_def package_prefix_def)
  then have "path_name (release_name version) = release_name version" using assms(2) path_name_again [of package] by simp
  moreover have "startswith (release_name version) package_prefix" "endswith (release_name version) ''.zip''"
    using startswith_append [of package_prefix "version @ ''.zip''"] endswith_append [of "package_prefix @ version" "''.zip''"]
    by (simp_all add: release_name_def)
  moreover have "length (sha256_hex data) = 64 \<and> lower_hex (sha256_hex data) \<and> data \<noteq> [] \<and> int (length data) \<le> 8 * 1024 ^ 3 \<and> version_re version"
    using assms(1) by (simp add: valid_document_def release_document_def)
  ultimately have "package_ok (release_name version) (sha256_hex data) (int (length data)) version"
    by (simp add: package_ok_def WINDOWS_PACKAGE_MAX_BYTES_def) (simp add: release_name_def)
  then show ?thesis
    by (simp add: manifest_package_def release_document_def insert_commute)
qed

text \<open>C23. What the release tool signs, the control plane serves: if the signer succeeds with the pinned key pair and
  the operator deploys the package, the manifest and the signature it wrote, then the versioned download verifies the
  signature and the manifest and streams exactly the bytes of the signed package, for every version and every content
  within the tool's limits.\<close>

theorem sign_then_serve:
  assumes "sign_release fl sha256_hex ed nt writes a fs = (0, out, fs')" and "sa_manifest a \<noteq> sa_signature a"
    and "ed25519_correct ed" and "out = PUBLIC_KEY_BASE64 @ [CHR 0x0A]"
    and "\<And>j. plain_json j \<Longrightarrow> scan (json_text (\<lambda>_. []) j @ [CHR 0x0A]) = Some j"
    and "sa_package a = Some package" and "fs package = Some f"
    and "cfs MANIFEST_PATH = map_option (deployed \<circ> tf_data) (fs' (sa_manifest a))"
    and "cfs SIGNATURE_PATH = map_option (deployed \<circ> tf_data) (fs' (sa_signature a))"
    and "cfs (release_dir @ path_name package) = Some (deployed (tf_data f))"
  shows "\<exists>chunks. windows_edge_versioned_package sha256_hex (ed_verify ed) scan cfs (path_name package) = Inr chunks \<and>
    concat chunks = tf_data f"
  using assms(1)
proof (rule sign_release_ok)
  fix package' version f' key
  let ?raw = "release_manifest sha256_hex version (tf_data f)"
  let ?doc = "release_document sha256_hex version (tf_data f)"
  assume s: "sa_package a = Some package'" "fs package' = Some f'" "path_name package' = release_name version" "version_re version"
    "length key = 32"
    "validate_manifest fl (release_manifest sha256_hex version (tf_data f')) = Some (release_document sha256_hex version (tf_data f'))"
    "out = b64encode (ed_public ed key) @ [CHR 0x0A]"
    "fs' = fs(sa_manifest a \<mapsto> plain_file (release_manifest sha256_hex version (tf_data f')),
              sa_signature a \<mapsto> plain_file (b64encode (ed_sign ed key (release_manifest sha256_hex version (tf_data f'))) @ [CHR 0x0A]))"
  with assms(6,7) have p: "package' = package" "f' = f" by simp_all
  let ?sig = "b64encode (ed_sign ed key ?raw) @ [CHR 0x0A]"
  have val: "length ?raw \<le> 4096" "is_ascii ?raw" "valid_document ?doc"
    using s(6) by (auto simp: p validate_manifest_def split: if_splits option.splits)
  have ed: "length (ed_public ed key) = 32" "length (ed_sign ed key ?raw) = 64" "ed_verify ed (ed_public ed key) (ed_sign ed key ?raw) ?raw"
    using assms(3) s(5) by (auto simp: ed25519_correct_def)
  have "length (b64encode (ed_sign ed key ?raw)) \<le> 2 * 64 + 3"
    using b64_quads_length [of "ed_sign ed key ?raw"] ed(2) by (simp add: b64encode_def urlsafe_b64encode_def b64_padding_def)
  then have sl: "length ?sig \<le> 256" by simp
  have man: "read_small_regular_file cfs MANIFEST_PATH 4096 = Some ?raw"
    using assms(2,8) val(1) by (intro read_deployed) (simp_all add: s(8) p plain_file_def)
  have sig: "read_small_regular_file cfs SIGNATURE_PATH 256 = Some ?sig"
    using assms(9) sl by (intro read_deployed) (simp_all add: s(8) p plain_file_def)
  have "b64encode (ed_public ed key) = PUBLIC_KEY_BASE64" using s(7) assms(4) by simp
  then have pk: "b64decode_std PUBLIC_KEY_BASE64 = Some (ed_public ed key)" using b64decode_std_encode [of "ed_public ed key"] by simp
  have sok: "signature_ok (ed_verify ed) ?raw ?sig"
    using ed by (simp add: signature_ok_def pk)
  have scan: "scan ?raw = Some ?doc" using assms(5) [OF plain_release] by (simp add: release_manifest_def)
  have strict: "strict_tree ?doc = Some ?doc" by (rule strict_members_plain(1)) (rule plain_release)
  have name: "path_name package = release_name version" using s(3) p by simp
  have "verified_windows_release (ed_verify ed) scan cfs =
      Inr \<lparr>wr_package_path = release_dir @ release_name version, wr_checksum = sha256_hex (tf_data f),
           wr_route = ''/edge-package/'' @ release_name version, wr_size = int (length (tf_data f)),
           wr_manifest_raw = ?raw, wr_signature_raw = ?sig\<rparr>"
    unfolding verified_windows_release_def man sig using sok val(2) by (simp add: scan strict manifest_package_document [OF val(3) name])
  moreover have "int (length (tf_data f)) \<le> WINDOWS_PACKAGE_MAX_BYTES" "tf_data f \<noteq> []"
    using val(3) by (auto simp: valid_document_def release_document_def WINDOWS_PACKAGE_MAX_BYTES_def)
  ultimately show ?thesis
    using assms(10) by (simp add: windows_edge_versioned_package_def open_verified_windows_package_def name deployed_def)
qed

section \<open>The builder of the Windows package\<close>

definition ALLOWED_FILES :: "string list" where
  "ALLOWED_FILES =
     [''manifest.json'', ''runtime-manifest.json'', ''THIRD_PARTY_NOTICES.txt'', ''app/edge_tunnel/__init__.py'',
      ''app/edge_tunnel/__main__.py'', ''app/edge_tunnel/app.py'', ''app/edge_tunnel/config.py'',
      ''app/edge_tunnel/resources.py'', ''app/edge_tunnel/targets.py'', ''app/edge_tunnel/tickets.py'',
      ''bootstrap/register.py'', ''gateway/caddy.exe'', ''service/IdenGridEdgeGateway.exe'',
      ''service/IdenGridEdgeGateway.xml'', ''service/IdenGridEdgeService.exe'', ''service/IdenGridEdgeService.xml'',
      ''scripts/Build-WindowsEdge.ps1'', ''scripts/Get-IdenGridEdgeStatus.ps1'', ''scripts/Install-IdenGridEdge.ps1'',
      ''scripts/Uninstall-IdenGridEdge.ps1'', ''scripts/Upgrade-IdenGridEdge.ps1'', ''templates/Caddyfile.template'',
      ''templates/edge.json.example'']"

definition FORBIDDEN_NAMES :: "string list" where
  "FORBIDDEN_NAMES = [''.env'', ''edge.json'', ''install-state.json'', ''registration-token'', ''node-secret'']"

definition FORBIDDEN_SUFFIXES :: "string list" where
  "FORBIDDEN_SUFFIXES = [''.key'', ''.pem'', ''.pfx'', ''.p12'']"

definition FORBIDDEN_CONTENT :: "string list" where
  "FORBIDDEN_CONTENT =
     (let q = [CHR 0x22]; crlf = [CHR 0x0D, CHR 0x0A] in
      [''-----BEGIN '' @ ''PRIVATE KEY-----'' @ [CHR 0x0A], ''-----BEGIN '' @ ''PRIVATE KEY-----'' @ crlf,
       ''-----BEGIN '' @ ''OPENSSH PRIVATE KEY-----'' @ [CHR 0x0A], ''-----BEGIN '' @ ''OPENSSH PRIVATE KEY-----'' @ crlf,
       ''EDGE_TICKET_SECRET='', q @ ''ticket_secret'' @ q @ '':'' @ q, q @ ''node_secret'' @ q @ '':'' @ q,
       q @ ''registration_token'' @ q @ '':'' @ q])"

definition contains :: "string \<Rightarrow> string \<Rightarrow> bool" where
  "contains data marker \<longleftrightarrow> list_ex (\<lambda>i. startswith (drop i data) marker) [0..<Suc (length data)]"

text \<open>A \<open>PackageBuildError\<close> with its text, or an \<open>OSError\<close>.\<close>

datatype build_error = Build_error string | Build_os_error

text \<open>\<open>PurePosixPath(p).as_posix()\<close> of a relative path and \<open>.suffix\<close>.\<close>

definition posix_parts :: "string \<Rightarrow> string list" where
  "posix_parts p = filter (\<lambda>c. c \<noteq> [] \<and> c \<noteq> ''.'') (split_char (CHR ''/'') p)"

definition as_posix :: "string \<Rightarrow> string" where
  "as_posix p = (if posix_parts p = [] then ''.'' else join_char (CHR ''/'') (posix_parts p))"

definition path_suffix :: "string \<Rightarrow> string" where
  "path_suffix p =
     (let name = path_name p; tail = rev (takeWhile (\<lambda>c. c \<noteq> dot) (rev name)) in
      if dot \<notin> set name \<or> tail = [] \<or> length tail + 1 = length name then [] else dot # tail)"

definition invalid_runtime :: "build_error" where
  "invalid_runtime = Build_error ''invalid runtime expected manifest''"

definition runtime_entry :: "(string \<times> string) list \<Rightarrow> json \<Rightarrow> (string \<times> string) option" where
  "runtime_entry expected entry =
     (case entry of
        JObj e \<Rightarrow>
          (case (map_of e ''path'', map_of e ''sha256'') of
             (Some (JStr path), Some (JStr digest)) \<Rightarrow>
               if fst ` set e \<noteq> {''path'', ''sha256''} \<or> \<not> startswith path ''runtime/'' \<or> as_posix path \<noteq> path \<or>
                  length digest \<noteq> 64 \<or> \<not> lower_hex digest \<or> path \<in> fst ` set expected
               then None else Some (path, digest)
           | _ \<Rightarrow> None)
      | _ \<Rightarrow> None)"

fun runtime_entries :: "(string \<times> string) list \<Rightarrow> json list \<Rightarrow> build_error + (string \<times> string) list" where
  "runtime_entries expected [] = Inr expected"
| "runtime_entries expected (e # es) =
     (case runtime_entry expected e of
        None \<Rightarrow> Inl invalid_runtime
      | Some pd \<Rightarrow> runtime_entries (expected @ [pd]) es)"

text \<open>\<open>None\<close> is a manifest that cannot be read as text.\<close>

definition load_expected_runtime :: "(string \<Rightarrow> pyfloat) \<Rightarrow> string option \<Rightarrow> build_error + (string \<times> string) list" where
  "load_expected_runtime fl manifest =
     (case Option.bind manifest (json_loads fl) of
        Some (JObj document) \<Rightarrow>
          (case (map_of document ''schema_version'', map_of document ''files'') of
             (Some version, Some (JArr files)) \<Rightarrow>
               if fst ` set document \<noteq> {''schema_version'', ''files''} \<or> \<not> json_eq_int version 1 then Inl invalid_runtime
               else runtime_entries [] files
           | _ \<Rightarrow> Inl invalid_runtime)
      | _ \<Rightarrow> Inl invalid_runtime)"

text \<open>What \<open>rglob\<close> finds under the staging directory, by path relative to it; a link is followed by
  \<open>is_dir\<close> and \<open>is_file\<close>. Reading a file can fail (\<open>None\<close>).\<close>

datatype tree_entry = Directory bool | Regular bool "string option" | Special

definition unsafe_input :: build_error where
  "unsafe_input = Build_error ''unsafe package input''"

definition forbidden_path :: "string \<Rightarrow> bool" where
  "forbidden_path rendered \<longleftrightarrow>
     (let lowered = map lower_str (posix_parts rendered) in
      (\<not> startswith rendered ''runtime/'' \<and> rendered \<notin> set ALLOWED_FILES) \<or>
      list_ex (\<lambda>n. n \<in> set lowered) FORBIDDEN_NAMES \<or>
      lower_str (path_suffix rendered) \<in> set FORBIDDEN_SUFFIXES \<or> ''__pycache__'' \<in> set lowered)"

definition collect_file ::
  "(string \<Rightarrow> string) \<Rightarrow> (string \<times> string) list \<Rightarrow> string \<Rightarrow> tree_entry \<Rightarrow> build_error + (string \<times> string) option" where
  "collect_file sha256_hex expected rendered entry =
     (case entry of
        Directory link \<Rightarrow> if link then Inl unsafe_input else Inr None
      | Special \<Rightarrow> Inl unsafe_input
      | Regular link content \<Rightarrow>
          if link \<or> forbidden_path rendered then Inl unsafe_input
          else
            (case content of
               None \<Rightarrow> Inl Build_os_error
             | Some data \<Rightarrow>
                 if (case map_of expected rendered of None \<Rightarrow> False | Some digest \<Rightarrow> sha256_hex data \<noteq> digest)
                 then Inl (Build_error ''runtime file hash does not match expected manifest'')
                 else if list_ex (contains data) FORBIDDEN_CONTENT then Inl unsafe_input
                 else Inr (Some (rendered, data))))"

fun collect_all ::
  "(string \<Rightarrow> string) \<Rightarrow> (string \<times> string) list \<Rightarrow> (string \<times> tree_entry) list \<Rightarrow> build_error + (string \<times> string) list" where
  "collect_all sha256_hex expected [] = Inr []"
| "collect_all sha256_hex expected ((rendered, entry) # rest) =
     (case collect_file sha256_hex expected rendered entry of
        Inl e \<Rightarrow> Inl e
      | Inr found \<Rightarrow>
          (case collect_all sha256_hex expected rest of
             Inl e \<Rightarrow> Inl e
           | Inr files \<Rightarrow> Inr (case found of None \<Rightarrow> files | Some f \<Rightarrow> f # files)))"

definition collect_files ::
  "(string \<Rightarrow> pyfloat) \<Rightarrow> (string \<Rightarrow> string) \<Rightarrow> bool \<Rightarrow> (string \<times> tree_entry) list \<Rightarrow> string option \<Rightarrow>
   build_error + (string \<times> string) list" where
  "collect_files fl sha256_hex source_ok tree manifest =
     (if \<not> source_ok then Inl unsafe_input
      else
        (case load_expected_runtime fl manifest of
           Inl e \<Rightarrow> Inl e
         | Inr expected \<Rightarrow>
             (case collect_all sha256_hex expected (sort_key fst tree) of
                Inl e \<Rightarrow> Inl e
              | Inr collected \<Rightarrow>
                  (let actual = fst ` set collected in
                   if {p \<in> actual. startswith p ''runtime/''} \<noteq> fst ` set expected
                   then Inl (Build_error ''runtime file set does not match expected manifest'')
                   else if actual \<noteq> set ALLOWED_FILES \<union> fst ` set expected
                   then Inl (Build_error ''package file set does not match exact allowlist'')
                   else Inr collected))))"

text \<open>A member of the archive: its name, the fixed date, method, system and mode, and its data.\<close>

record zip_member =
  zm_name :: string
  zm_date :: "int list"
  zm_deflated :: bool
  zm_system :: int
  zm_attributes :: int
  zm_data :: string

definition zip_member_of :: "string \<times> string \<Rightarrow> zip_member" where
  "zip_member_of f =
     \<lparr>zm_name = fst f, zm_date = [1980, 1, 1, 0, 0, 0], zm_deflated = True, zm_system = 3,
      zm_attributes = (32768 + 420) * 2 ^ 16, zm_data = snd f\<rparr>"

definition checksum_line :: "string \<Rightarrow> string \<Rightarrow> string" where
  "checksum_line digest name = digest @ ''  '' @ name @ [CHR 0x0A]"

text \<open>The archive, its digest and the text beside it; \<open>encode\<close> makes the ZIP of the members.\<close>

definition build_windows ::
  "(string \<Rightarrow> pyfloat) \<Rightarrow> (string \<Rightarrow> string) \<Rightarrow> (zip_member list \<Rightarrow> string) \<Rightarrow> bool \<Rightarrow> (string \<times> tree_entry) list \<Rightarrow> string option \<Rightarrow>
   string \<Rightarrow> build_error + string \<times> string \<times> string" where
  "build_windows fl sha256_hex encode source_ok tree manifest output_name =
     (case collect_files fl sha256_hex source_ok tree manifest of
        Inl e \<Rightarrow> Inl e
      | Inr files \<Rightarrow>
          (let archive = encode (map zip_member_of files); digest = sha256_hex archive in
           Inr (archive, digest, checksum_line digest output_name)))"

definition build_windows_main ::
  "build_error + string \<times> string \<times> string \<Rightarrow> int \<times> string" where
  "build_windows_main r = (case r of Inl _ \<Rightarrow> (2, []) | Inr (_, digest, _) \<Rightarrow> (0, digest @ [CHR 0x0A]))"

section \<open>The builder of the Linux package\<close>

definition ALLOWLIST :: "string list" where
  "ALLOWLIST =
     [''pyproject.toml'', ''requirements.txt'', ''edge_tunnel/__init__.py'', ''edge_tunnel/__main__.py'', ''edge_tunnel/app.py'',
      ''edge_tunnel/config.py'', ''edge_tunnel/resources.py'', ''edge_tunnel/targets.py'', ''edge_tunnel/tickets.py'',
      ''systemd/edge-tunnel@.service'', ''caddy/Caddyfile.template'']"

record tar_member =
  tm_name :: string
  tm_size :: int
  tm_mode :: int
  tm_mtime :: int
  tm_uid :: int
  tm_gid :: int
  tm_uname :: string
  tm_gname :: string
  tm_data :: string

definition tar_member_of :: "string \<Rightarrow> string \<Rightarrow> tar_member" where
  "tar_member_of relative data =
     \<lparr>tm_name = ''edge-tunnel/'' @ relative, tm_size = int (length data), tm_mode = 420, tm_mtime = 0, tm_uid = 0, tm_gid = 0,
      tm_uname = ''root'', tm_gname = ''root'', tm_data = data\<rparr>"

text \<open>\<open>edge\<close> reads a file of the package's directory, \<open>tar\<close> and \<open>gzip\<close> encode; \<open>None\<close> is the \<open>OSError\<close> of a
  file that is missing.\<close>

definition build_linux ::
  "(string \<Rightarrow> string) \<Rightarrow> (tar_member list \<Rightarrow> string) \<Rightarrow> (string \<Rightarrow> string) \<Rightarrow> (string \<Rightarrow> string option) \<Rightarrow> string \<Rightarrow>
   (string \<times> string \<times> string) option" where
  "build_linux sha256_hex tar gzip edge output_name =
     (case those (map (\<lambda>p. map_option (tar_member_of p) (edge p)) (sort_key (\<lambda>p. p) ALLOWLIST)) of
        None \<Rightarrow> None
      | Some members \<Rightarrow>
          (let archive = gzip (tar members); digest = sha256_hex archive in
           Some (archive, digest, checksum_line digest output_name)))"

section \<open>What the packages contain\<close>

lemma collect_file_Some:
  assumes "collect_file sha256_hex expected p entry = Inr (Some (q, d))"
  shows "q = p \<and> entry = Regular False (Some d) \<and> \<not> forbidden_path p \<and>
    (\<forall>digest. map_of expected p = Some digest \<longrightarrow> sha256_hex d = digest) \<and> (\<forall>m \<in> set FORBIDDEN_CONTENT. \<not> contains d m)"
  using assms by (auto simp: collect_file_def list_ex_iff split: tree_entry.splits option.splits if_splits)

lemma collect_file_None: "collect_file sha256_hex expected p entry = Inr None \<Longrightarrow> entry = Directory False"
  by (auto simp: collect_file_def split: tree_entry.splits option.splits if_splits)

lemma collect_all_Inr:
  assumes "collect_all sha256_hex expected tree = Inr files"
  shows "(\<forall>(p, d) \<in> set files. (p, Regular False (Some d)) \<in> set tree \<and> collect_file sha256_hex expected p (Regular False (Some d)) = Inr (Some (p, d))) \<and>
    (\<forall>(p, e) \<in> set tree. e = Directory False \<or> (\<exists>d. e = Regular False (Some d) \<and> (p, d) \<in> set files))"
  using assms
proof (induction tree arbitrary: files)
  case (Cons pe tree)
  obtain p e where pe: "pe = (p, e)" by (cases pe)
  from Cons.prems obtain found rest where r: "collect_file sha256_hex expected p e = Inr found"
    "collect_all sha256_hex expected tree = Inr rest" "files = (case found of None \<Rightarrow> rest | Some f \<Rightarrow> f # rest)"
    by (auto simp: pe split: sum.splits)
  show ?case
  proof (cases found)
    case None
    with r Cons.IH [OF r(2)] collect_file_None [of sha256_hex expected p e] show ?thesis by (auto simp: pe)
  next
    case (Some f)
    obtain q d where f: "f = (q, d)" by (cases f)
    from collect_file_Some [of sha256_hex expected p e q d] r(1) Some f
    have "q = p" "e = Regular False (Some d)" by auto
    with r Some f Cons.IH [OF r(2)] show ?thesis by (fastforce simp: pe)
  qed
qed simp

text \<open>C24. A Windows package contains exactly what was intended. If the staging directory is collected, the
  files are those of the allowlist and of the runtime manifest, no more and no fewer; each was a regular
  file there, with the digest the runtime manifest has for it, and holds no private key, ticket secret
  or token; and the directory held nothing else, no link and no other kind of file.\<close>

theorem windows_package_exact:
  assumes "collect_files fl sha256_hex source_ok tree manifest = Inr files"
  shows "\<exists>expected. load_expected_runtime fl manifest = Inr expected \<and>
    fst ` set files = set ALLOWED_FILES \<union> fst ` set expected \<and>
    (\<forall>(p, d) \<in> set files. (p, Regular False (Some d)) \<in> set tree \<and> \<not> forbidden_path p \<and>
       map_of expected p \<in> {None, Some (sha256_hex d)} \<and> (\<forall>m \<in> set FORBIDDEN_CONTENT. \<not> contains d m)) \<and>
    (\<forall>(p, e) \<in> set tree. e = Directory False \<or> (\<exists>d. e = Regular False (Some d) \<and> (p, d) \<in> set files))"
proof -
  from assms obtain expected where e: "load_expected_runtime fl manifest = Inr expected"
    and c: "collect_all sha256_hex expected (sort_key fst tree) = Inr files"
    and names: "fst ` set files = set ALLOWED_FILES \<union> fst ` set expected"
    by (auto simp: collect_files_def Let_def simp del: sort_key_simps split: sum.splits if_splits)
  have "(p, Regular False (Some d)) \<in> set tree \<and> \<not> forbidden_path p \<and>
       map_of expected p \<in> {None, Some (sha256_hex d)} \<and> (\<forall>m \<in> set FORBIDDEN_CONTENT. \<not> contains d m)"
    if "(p, d) \<in> set files" for p d
  proof -
    have t: "(p, Regular False (Some d)) \<in> set tree"
      "collect_file sha256_hex expected p (Regular False (Some d)) = Inr (Some (p, d))"
      using collect_all_Inr [OF c] that by auto
    from collect_file_Some [OF t(2)] t(1) show ?thesis by (cases "map_of expected p") auto
  qed
  moreover have "\<forall>(p, e) \<in> set tree. e = Directory False \<or> (\<exists>d. e = Regular False (Some d) \<and> (p, d) \<in> set files)"
    using collect_all_Inr [OF c] by simp
  ultimately show ?thesis using e names by blast
qed

text \<open>The Windows package is reproducible: whatever the order in which the file system lists the staging
  directory, the archive, its digest and its checksum file are the same.\<close>

theorem windows_package_reproducible:
  assumes "set tree1 = set tree2" and "distinct (map fst tree1)" and "distinct (map fst tree2)"
  shows "build_windows fl sha256_hex encode source_ok tree1 manifest name = build_windows fl sha256_hex encode source_ok tree2 manifest name"
proof -
  have "sort_key fst tree1 = sort_key fst tree2"
  proof (rule map_sorted_distinct_set_unique [where f = fst])
    show "inj_on fst (set (sort_key fst tree1) \<union> set (sort_key fst tree2))"
      using assms by (simp add: distinct_map)
  qed (use assms distinct_sort_key in auto)
  then show ?thesis unfolding build_windows_def collect_files_def by (simp only:)
qed

lemma split_space_word:
  assumes "a \<noteq> []" and "\<forall>c \<in> set a. \<not> is_space c" and "r = [] \<or> is_space (hd r)"
  shows "split_space (a @ r) = a # split_space r"
  using assms(1,2)
proof (induction a)
  case (Cons c cs)
  show ?case
  proof (cases cs)
    case Nil
    with Cons.prems assms(3) show ?thesis by (cases r) auto
  next
    case (Cons d ds)
    with Cons.prems Cons.IH show ?thesis by simp
  qed
qed simp

lemma split_space_line:
  assumes "a \<noteq> []" and "b \<noteq> []" and "\<forall>c \<in> set a \<union> set b. \<not> is_space c"
  shows "split_space (checksum_line a b) = [a, b]"
proof -
  have sp: "is_space (CHR '' '')" "is_space (CHR 0x0A)" by (simp_all add: is_space_def char_in_def)
  have "split_space (a @ CHR '' '' # CHR '' '' # b @ [CHR 0x0A]) = a # split_space (CHR '' '' # CHR '' '' # b @ [CHR 0x0A])"
    by (rule split_space_word) (use assms sp in auto)
  moreover have "split_space (b @ [CHR 0x0A]) = b # split_space [CHR 0x0A]"
    by (rule split_space_word) (use assms sp in auto)
  ultimately show ?thesis using sp by (simp add: checksum_line_def)
qed

text \<open>The Linux package the tool builds is the one the control plane streams: with the archive and its
  checksum file in the release directory, the download is exactly the archive.\<close>

theorem linux_package_served:
  assumes "build_linux sha256_hex tar gzip edge (path_name LINUX_PACKAGE_PATH) = Some (archive, digest, line)"
    and "cfs LINUX_PACKAGE_PATH = Some (deployed archive)" and "cfs (LINUX_PACKAGE_PATH @ ''.sha256'') = Some (deployed line)"
    and "archive \<noteq> []" and "int (length archive) \<le> LINUX_PACKAGE_MAX_BYTES"
    and "length digest = 64" and "lower_hex digest"
  shows "\<exists>chunks. edge_package sha256_hex cfs = Inr chunks \<and> concat chunks = archive"
proof -
  have l: "digest = sha256_hex archive" "line = checksum_line digest (path_name LINUX_PACKAGE_PATH)"
    using assms(1) by (auto simp: build_linux_def Let_def split: option.splits)
  have name: "path_name LINUX_PACKAGE_PATH = ''edge-tunnel.tar.gz''"
    by (simp add: path_name_def LINUX_PACKAGE_PATH_def release_dir_def)
  have "\<forall>c \<in> set digest. \<not> is_space c \<and> (of_char c :: nat) < 128"
    using assms(7) by (auto simp: lower_hex_def list_all_iff is_digit_def char_in_def is_space_def)
  moreover have "\<forall>c \<in> set ''edge-tunnel.tar.gz''. \<not> is_space c \<and> (of_char c :: nat) < 128"
    by (simp add: is_space_def char_in_def)
  moreover have "digest \<noteq> []" using assms(6) by auto
  ultimately have split: "split_space line = [digest, ''edge-tunnel.tar.gz'']" and asc: "is_ascii line"
    using split_space_line [of digest "''edge-tunnel.tar.gz''"]
    by (auto simp: l(2) name is_ascii_def list_all_iff checksum_line_def)
  have "open_verified_linux_package sha256_hex cfs = Inr (deployed archive, digest, int (length archive))"
    using assms(2-7) split asc by (simp add: open_verified_linux_package_def deployed_def name l(1))
  then show ?thesis by (simp add: edge_package_def deployed_def)
qed

section \<open>A release, and a staging directory\<close>

definition demo_public :: string where
  "demo_public = [CHR 0x59, CHR 0xFF, CHR 0xEC, CHR 0xEB, CHR 0x34, CHR 0x6C, CHR 0xD3, CHR 0xE1, CHR 0x63, CHR 0x48, CHR 0x2A, CHR 0x8C, CHR 0xD4, CHR 0x14, CHR 0x1B, CHR 0xE6, CHR 0xF5, CHR 0xC8, CHR 0xA7, CHR 0x2B, CHR 0xF8, CHR 0x22, CHR 0xFC, CHR 0x66, CHR 0xE6, CHR 0x70, CHR 0x12, CHR 0xDB, CHR 0x05, CHR 0x99, CHR 0x1B, CHR 0x19]"

definition demo_ed :: ed25519 where
  "demo_ed =
     \<lparr>ed_public = (\<lambda>_. demo_public), ed_sign = (\<lambda>k m. replicate 64 (CHR ''s'')),
      ed_verify = (\<lambda>pk sg m. pk = demo_public \<and> sg = replicate 64 (CHR ''s''))\<rparr>"

lemma demo_public_text: "b64encode demo_public = PUBLIC_KEY_BASE64"
  by (simp add: demo_public_def b64encode_def urlsafe_b64encode_def b64_padding_def std_char_def b64_char_def PUBLIC_KEY_BASE64_def Let_def
      char_of_def bit_0)

lemma demo_ed_correct: "ed25519_correct demo_ed"
  by (simp add: ed25519_correct_def demo_ed_def demo_public_def)

definition demo_package :: string where
  "demo_package = ''/r/'' @ release_name ''1.2.3''"

definition demo_sign_args :: sign_args where
  "demo_sign_args =
     \<lparr>sa_package = Some demo_package, sa_version = Some ''1.2.3'', sa_private_key_file = Some ''/k'',
      sa_public_key = None, sa_manifest = ''/m'', sa_signature = ''/s''\<rparr>"

definition demo_tool_files :: tool_files where
  "demo_tool_files =
     [demo_package \<mapsto> plain_file ''zip'',
      ''/k'' \<mapsto> \<lparr>tf_symlink = False, tf_regular = True, tf_broad = False, tf_data = replicate 32 (CHR ''k'')\<rparr>]"

lemma demo_version: "version_re ''1.2.3''"
  by (simp add: version_re_def partition_char_def is_digit_def char_in_def)

lemma demo_release_name: "path_name demo_package = release_name ''1.2.3''"
  by (simp add: demo_package_def path_name_def release_name_def package_prefix_def)

lemma demo_package_key: "demo_package \<noteq> ''/k''"
  by (simp add: demo_package_def release_name_def package_prefix_def)

lemma demo_manifest_valid:
  "validate_manifest fl (release_manifest (\<lambda>_. replicate 64 (CHR ''0'')) ''1.2.3'' ''zip'') \<noteq> None"
proof -
  have "valid_document (release_document (\<lambda>_. replicate 64 (CHR ''0'')) ''1.2.3'' ''zip'')"
    using demo_version
    by (auto simp: valid_document_def release_document_def release_name_def package_prefix_def file_re_def startswith_def endswith_def
        release_char_def is_alnum_def is_lower_def is_upper_def is_digit_def char_in_def lower_hex_def list_all_iff Let_def)
  moreover have "length (release_manifest (\<lambda>_. replicate 64 (CHR ''0'')) ''1.2.3'' ''zip'') \<le> 4096"
    "is_ascii (release_manifest (\<lambda>_. replicate 64 (CHR ''0'')) ''1.2.3'' ''zip'')"
    by (simp_all add: release_manifest_def release_document_def json_string_def json_escape_def char_in_def release_name_def
        package_prefix_def is_ascii_def int_str_def nat_str.simps digit_char_def list_all_iff)
  ultimately show ?thesis
    using json_loads_line [OF plain_release, of fl "\<lambda>_. []" "\<lambda>_. replicate 64 (CHR ''0'')" "''1.2.3''" "''zip''"]
    by (simp add: validate_manifest_def release_manifest_def)
qed

abbreviation (input) demo_sha :: "string \<Rightarrow> string" where
  "demo_sha \<equiv> (\<lambda>_. replicate 64 (CHR ''0''))"

lemma demo_signs:
  "\<exists>fs'. sign_release (\<lambda>_. NaN) demo_sha demo_ed False (\<lambda>_. True) demo_sign_args demo_tool_files = (0, PUBLIC_KEY_BASE64 @ [CHR 0x0A], fs')"
proof -
  have key: "read_private_key False demo_tool_files ''/k'' = Some (replicate 32 (CHR ''k''))"
    by (simp add: read_private_key_def demo_tool_files_def)
  have pkg: "demo_tool_files demo_package = Some (plain_file ''zip'')"
    using demo_package_key by (simp add: demo_tool_files_def)
  have data: "tf_data (plain_file ''zip'') = ''zip''" "tf_regular (plain_file ''zip'')" by (simp_all add: plain_file_def)
  have args: "sa_package demo_sign_args = Some demo_package" "sa_version demo_sign_args = Some ''1.2.3''"
    "sa_private_key_file demo_sign_args = Some ''/k''" by (simp_all add: demo_sign_args_def)
  have pub: "b64encode (ed_public demo_ed k) = PUBLIC_KEY_BASE64" for k by (simp add: demo_ed_def demo_public_text)
  show ?thesis
    by (simp add: sign_release_def args demo_release_name pkg data key pub demo_version demo_manifest_valid Let_def)
qed

theorem sign_then_verify_witness:
  "\<exists>out fs'. sign_release (\<lambda>_. NaN) demo_sha demo_ed False (\<lambda>_. True) demo_sign_args demo_tool_files = (0, out, fs') \<and>
     verify_release (\<lambda>_. NaN) demo_ed (demo_sign_args\<lparr>sa_public_key := Some (strip out)\<rparr>) fs' = 0"
proof -
  obtain fs' where s: "sign_release (\<lambda>_. NaN) demo_sha demo_ed False (\<lambda>_. True) demo_sign_args demo_tool_files =
      (0, PUBLIC_KEY_BASE64 @ [CHR 0x0A], fs')"
    using demo_signs by blast
  have "sa_manifest demo_sign_args \<noteq> sa_signature demo_sign_args" by (simp add: demo_sign_args_def)
  from sign_then_verify [OF s this demo_ed_correct] s show ?thesis by blast
qed

definition demo_release_dir :: "tool_files \<Rightarrow> file_system" where
  "demo_release_dir fs' =
     [release_dir @ release_name ''1.2.3'' \<mapsto> deployed ''zip'']
       (MANIFEST_PATH := map_option (deployed \<circ> tf_data) (fs' ''/m''), SIGNATURE_PATH := map_option (deployed \<circ> tf_data) (fs' ''/s''))"

theorem sign_then_serve_witness:
  "\<exists>fs' chunks. sign_release (\<lambda>_. NaN) demo_sha demo_ed False (\<lambda>_. True) demo_sign_args demo_tool_files =
      (0, PUBLIC_KEY_BASE64 @ [CHR 0x0A], fs') \<and>
    windows_edge_versioned_package demo_sha (ed_verify demo_ed) (json_loads (\<lambda>_. NaN)) (demo_release_dir fs')
      (path_name demo_package) = Inr chunks \<and> concat chunks = ''zip''"
proof -
  obtain fs' where s: "sign_release (\<lambda>_. NaN) demo_sha demo_ed False (\<lambda>_. True) demo_sign_args demo_tool_files =
      (0, PUBLIC_KEY_BASE64 @ [CHR 0x0A], fs')"
    using demo_signs by blast
  have ne: "sa_manifest demo_sign_args \<noteq> sa_signature demo_sign_args" by (simp add: demo_sign_args_def)
  have scan: "plain_json j \<Longrightarrow> json_loads (\<lambda>_. NaN) (json_text (\<lambda>_. []) j @ [CHR 0x0A]) = Some j" for j by (rule json_loads_line)
  have p: "sa_package demo_sign_args = Some demo_package" by (simp add: demo_sign_args_def)
  have f: "demo_tool_files demo_package = Some (plain_file ''zip'')"
    using demo_package_key by (simp add: demo_tool_files_def)
  have c: "demo_release_dir fs' MANIFEST_PATH = map_option (deployed \<circ> tf_data) (fs' (sa_manifest demo_sign_args))"
    "demo_release_dir fs' SIGNATURE_PATH = map_option (deployed \<circ> tf_data) (fs' (sa_signature demo_sign_args))"
    by (simp_all add: demo_release_dir_def demo_sign_args_def MANIFEST_PATH_def SIGNATURE_PATH_def)
  have n: "demo_release_dir fs' (release_dir @ path_name demo_package) = Some (deployed (tf_data (plain_file ''zip'')))"
    unfolding demo_release_name
    by (simp add: demo_release_dir_def MANIFEST_PATH_def SIGNATURE_PATH_def release_name_def package_prefix_def plain_file_def)
  from sign_then_serve [OF s ne demo_ed_correct refl scan p f c n] s show ?thesis by (auto simp: plain_file_def)
qed

lemma collect_all_ok:
  assumes "\<forall>(p, e) \<in> set tree. \<exists>d. e = Regular False (Some d) \<and> collect_file sha256_hex expected p e = Inr (Some (p, d))"
  shows "\<exists>files. collect_all sha256_hex expected tree = Inr files \<and> fst ` set files = fst ` set tree"
  using assms by (induction tree) fastforce+

definition demo_staging :: "(string \<times> tree_entry) list" where
  "demo_staging = map (\<lambda>p. (p, Regular False (Some ''x''))) ALLOWED_FILES"

definition demo_runtime :: json where
  "demo_runtime = JObj [(''files'', JArr []), (''schema_version'', JInt 1)]"

lemmas path_chars = lower_str_def lower_char_def is_upper_def char_in_def char_of_def bit_0

lemma allowed_parts: "map posix_parts ALLOWED_FILES =
   [[''manifest.json''], [''runtime-manifest.json''], [''THIRD_PARTY_NOTICES.txt''], [''app'', ''edge_tunnel'', ''__init__.py''],
    [''app'', ''edge_tunnel'', ''__main__.py''], [''app'', ''edge_tunnel'', ''app.py''], [''app'', ''edge_tunnel'', ''config.py''],
    [''app'', ''edge_tunnel'', ''resources.py''], [''app'', ''edge_tunnel'', ''targets.py''], [''app'', ''edge_tunnel'', ''tickets.py''],
    [''bootstrap'', ''register.py''], [''gateway'', ''caddy.exe''], [''service'', ''IdenGridEdgeGateway.exe''],
    [''service'', ''IdenGridEdgeGateway.xml''], [''service'', ''IdenGridEdgeService.exe''], [''service'', ''IdenGridEdgeService.xml''],
    [''scripts'', ''Build-WindowsEdge.ps1''], [''scripts'', ''Get-IdenGridEdgeStatus.ps1''], [''scripts'', ''Install-IdenGridEdge.ps1''],
    [''scripts'', ''Uninstall-IdenGridEdge.ps1''], [''scripts'', ''Upgrade-IdenGridEdge.ps1''], [''templates'', ''Caddyfile.template''],
    [''templates'', ''edge.json.example'']]"
  by (simp add: ALLOWED_FILES_def posix_parts_def)

lemma lower_other_length: "length p \<noteq> length q \<Longrightarrow> lower_str p \<noteq> q"
  by (auto simp: lower_str_def)

lemma allowed_names: "list_all (\<lambda>ps. list_all (\<lambda>p. lower_str p \<notin> set (''__pycache__'' # FORBIDDEN_NAMES)) ps) (map posix_parts ALLOWED_FILES)"
  unfolding allowed_parts by (simp add: FORBIDDEN_NAMES_def lower_other_length) (simp add: path_chars)

lemma allowed_suffixes: "list_all (\<lambda>s. s \<in> {''.json'', ''.txt'', ''.py'', ''.exe'', ''.xml'', ''.ps1'', ''.template'', ''.example''}) (map path_suffix ALLOWED_FILES)"
  by (simp add: ALLOWED_FILES_def path_suffix_def path_name_def)

lemma allowed_suffixes_lower: "\<forall>s \<in> {''.json'', ''.txt'', ''.py'', ''.exe'', ''.xml'', ''.ps1'', ''.template'', ''.example''}. lower_str s \<notin> set FORBIDDEN_SUFFIXES"
  by (simp add: FORBIDDEN_SUFFIXES_def path_chars)

lemma allowed_not_runtime: "list_all (\<lambda>p. \<not> startswith p ''runtime/'') ALLOWED_FILES"
  by (simp add: ALLOWED_FILES_def startswith_def)

lemma allowed_file_safe: "p \<in> set ALLOWED_FILES \<Longrightarrow> \<not> forbidden_path p \<and> \<not> startswith p ''runtime/''"
  using allowed_names allowed_suffixes allowed_suffixes_lower allowed_not_runtime by (fastforce simp: forbidden_path_def list_all_iff list_ex_iff Let_def)

lemma demo_collects:
  "\<exists>files. collect_files (\<lambda>_. NaN) demo_sha True demo_staging (Some (json_text (\<lambda>_. []) demo_runtime)) = Inr files"
proof -
  have rt: "load_expected_runtime (\<lambda>_. NaN) (Some (json_text (\<lambda>_. []) demo_runtime)) = Inr []"
    using json_loads_text [of demo_runtime "\<lambda>_. NaN" "\<lambda>_. []"]
    by (simp add: load_expected_runtime_def demo_runtime_def insert_commute del: json_text.simps)
  have clean: "\<not> list_ex (contains ''x'') FORBIDDEN_CONTENT"
    by (simp add: FORBIDDEN_CONTENT_def contains_def startswith_def Let_def)
  have "\<forall>(p, e) \<in> set (sort_key fst demo_staging). \<exists>d. e = Regular False (Some d) \<and> collect_file demo_sha [] p e = Inr (Some (p, d))"
    using allowed_file_safe clean by (auto simp: demo_staging_def collect_file_def)
  from collect_all_ok [OF this] obtain files where f: "collect_all demo_sha [] (sort_key fst demo_staging) = Inr files"
    "fst ` set files = fst ` set (sort_key fst demo_staging)" by blast
  have names: "fst ` set files = set ALLOWED_FILES" unfolding f(2) by (force simp: demo_staging_def image_iff)
  have "{p \<in> fst ` set files. startswith p ''runtime/''} = {}" using allowed_file_safe unfolding names by auto
  with names show ?thesis by (simp add: collect_files_def rt f(1) Let_def)
qed

theorem windows_package_exact_witness:
  "\<exists>files. collect_files (\<lambda>_. NaN) demo_sha True demo_staging (Some (json_text (\<lambda>_. []) demo_runtime)) = Inr files \<and>
     (\<exists>expected :: (string \<times> string) list. fst ` set files = set ALLOWED_FILES \<union> fst ` set expected)"
proof -
  obtain files where f: "collect_files (\<lambda>_. NaN) demo_sha True demo_staging (Some (json_text (\<lambda>_. []) demo_runtime)) = Inr files"
    using demo_collects by blast
  from windows_package_exact [OF f] have x: "\<exists>expected :: (string \<times> string) list. fst ` set files = set ALLOWED_FILES \<union> fst ` set expected"
    by (elim exE conjE) (rule exI)
  show ?thesis by (rule exI, rule conjI [OF f x])
qed

theorem windows_package_reproducible_witness:
  "build_windows (\<lambda>_. NaN) demo_sha (\<lambda>ms. concat (map zm_data ms)) True demo_staging (Some (json_text (\<lambda>_. []) demo_runtime)) ''p.zip'' =
   build_windows (\<lambda>_. NaN) demo_sha (\<lambda>ms. concat (map zm_data ms)) True (rev demo_staging) (Some (json_text (\<lambda>_. []) demo_runtime)) ''p.zip''"
proof -
  have "distinct ALLOWED_FILES" by (simp add: ALLOWED_FILES_def)
  then have "distinct (map fst demo_staging)" by (simp add: demo_staging_def comp_def)
  then show ?thesis by (intro windows_package_reproducible) (simp_all add: rev_map [symmetric] del: map_map)
qed

theorem linux_package_served_witness:
  "\<exists>archive digest line chunks.
     build_linux demo_sha (\<lambda>ms. concat (map tm_data ms)) (\<lambda>t. ''g'' @ t) (\<lambda>_. Some ''x'') (path_name LINUX_PACKAGE_PATH) = Some (archive, digest, line) \<and>
     edge_package demo_sha [LINUX_PACKAGE_PATH \<mapsto> deployed archive, LINUX_PACKAGE_PATH @ ''.sha256'' \<mapsto> deployed line] = Inr chunks \<and>
     concat chunks = archive \<and> archive = ''gxxxxxxxxxxx''"
proof -
  define line where "line = checksum_line (demo_sha []) (path_name LINUX_PACKAGE_PATH)"
  have b: "build_linux demo_sha (\<lambda>ms. concat (map tm_data ms)) (\<lambda>t. ''g'' @ t) (\<lambda>_. Some ''x'') (path_name LINUX_PACKAGE_PATH) =
      Some (''gxxxxxxxxxxx'', demo_sha [], line)"
    by (simp add: build_linux_def ALLOWLIST_def tar_member_of_def line_def Let_def)
  obtain chunks where "edge_package demo_sha [LINUX_PACKAGE_PATH \<mapsto> deployed ''gxxxxxxxxxxx'', LINUX_PACKAGE_PATH @ ''.sha256'' \<mapsto> deployed line] =
      Inr chunks" "concat chunks = ''gxxxxxxxxxxx''"
    using linux_package_served [OF b, of "[LINUX_PACKAGE_PATH \<mapsto> deployed ''gxxxxxxxxxxx'', LINUX_PACKAGE_PATH @ ''.sha256'' \<mapsto> deployed line]"]
    by (auto simp: LINUX_PACKAGE_MAX_BYTES_def lower_hex_def is_digit_def char_in_def list_all_iff)
  with b show ?thesis by (intro exI [of _ "''gxxxxxxxxxxx''"] exI [of _ "demo_sha []"] exI [of _ line] exI [of _ chunks] conjI) simp_all
qed

end
