(* ===== verification/Browser_Control.thy ===== *)
theory Browser_Control
  imports Podman_Runner Json_Text
begin

text \<open>
  The control channel of a containerised browser (\<open>CDPBrowserControl\<close> in \<open>cloudbrowser/browser_control.py\<close>) and
  the methods of \<open>PodmanBrowserRunner\<close> in \<open>cloudbrowser/runner.py\<close> that delegate to it.

  Chromium, its HTTP endpoint, its websockets and the clock are the record \<open>chromium\<close> of functions on a state
  \<open>'s\<close>: an operation of the class is a function from that state to a result and the next state. What is read
  from the network is the decoded JSON, \<open>None\<close> when the reading or the decoding raises. The loops that wait
  take fuel; \<open>wait_fuel\<close> says how much is enough under a clock that a pause advances by its length.
\<close>

section \<open>Chromium and the exceptions\<close>

text \<open>\<open>Request_failed\<close> is an \<open>httpx.HTTPError\<close>, a status outside the successful ones included;
  \<open>Request_raised\<close> any other exception.\<close>

datatype cdp_reply = Request_failed | Request_raised | Reply "json option"

record 's chromium =
  ch_http :: "string \<Rightarrow> string \<Rightarrow> 's \<Rightarrow> cdp_reply \<times> 's"
  ch_connect :: "string \<Rightarrow> 's \<Rightarrow> bool \<times> 's"
  ch_send :: "string \<Rightarrow> 's \<Rightarrow> bool \<times> 's"
  ch_recv :: "rat \<Rightarrow> 's \<Rightarrow> json option \<times> 's"
  ch_disconnect :: "'s \<Rightarrow> 's"
  ch_clock :: "'s \<Rightarrow> rat \<times> 's"
  ch_sleep :: "rat \<Rightarrow> 's \<Rightarrow> 's"

text \<open>An exception of the class, as \<open>browser_result\<close> of the routes tells them apart, or the end of the fuel.\<close>

datatype cdp_error = Cdp control_error | Cdp_fuel

type_synonym ('s, 'a) cdp = "'s \<Rightarrow> (cdp_error + 'a) \<times> 's"

definition cdp_return :: "'a \<Rightarrow> ('s, 'a) cdp" where
  "cdp_return x s = (Inr x, s)"

definition cdp_raise :: "control_error \<Rightarrow> ('s, 'a) cdp" where
  "cdp_raise e s = (Inl (Cdp e), s)"

definition cdp_bind :: "('s, 'a) cdp \<Rightarrow> ('a \<Rightarrow> ('s, 'b) cdp) \<Rightarrow> ('s, 'b) cdp" where
  "cdp_bind m f s = (case m s of (Inl e, s1) \<Rightarrow> (Inl e, s1) | (Inr x, s1) \<Rightarrow> f x s1)"

definition cdp_lift :: "'a option \<Rightarrow> ('s, 'a) cdp" where
  "cdp_lift r = (case r of None \<Rightarrow> cdp_raise Other_exception | Some x \<Rightarrow> cdp_return x)"

record 's cdp_control =
  cc_chromium :: "'s chromium"
  cc_endpoint :: string
  cc_timeout :: rat
  cc_float_repr :: "rat \<Rightarrow> string"
  cc_fuel :: nat

text \<open>\<open>re.fullmatch(r"http://127\.0\.0\.1:\d{1,5}", endpoint)\<close>; the parameter \<open>timeout\<close> has the default 8.\<close>

definition loopback_endpoint :: "string \<Rightarrow> bool" where
  "loopback_endpoint e \<longleftrightarrow>
     (let port = drop (length ''http://127.0.0.1:'') e in
      startswith e ''http://127.0.0.1:'' \<and> 1 \<le> length port \<and> length port \<le> 5 \<and> list_all is_digit port)"

definition cdp_browser_control :: "'s chromium \<Rightarrow> (rat \<Rightarrow> string) \<Rightarrow> nat \<Rightarrow> string \<Rightarrow> cdp_error + 's cdp_control" where
  "cdp_browser_control chromium repr fuel endpoint =
     (if \<not> loopback_endpoint endpoint then Inl (Cdp Control_failed)
      else Inr \<lparr>cc_chromium = chromium, cc_endpoint = endpoint, cc_timeout = 8, cc_float_repr = repr, cc_fuel = fuel\<rparr>)"

section \<open>Requests and targets\<close>

definition cdp_request :: "'s cdp_control \<Rightarrow> string \<Rightarrow> string \<Rightarrow> ('s, json option) cdp" where
  "cdp_request c verb path s =
     (case ch_http (cc_chromium c) verb (cc_endpoint c @ path) s of
        (Request_failed, s1) \<Rightarrow> (Inl (Cdp Control_failed), s1)
      | (Request_raised, s1) \<Rightarrow> (Inl (Cdp Other_exception), s1)
      | (Reply body, s1) \<Rightarrow> (Inr body, s1))"

definition cdp_json :: "'s cdp_control \<Rightarrow> string \<Rightarrow> string \<Rightarrow> ('s, json) cdp" where
  "cdp_json c path verb =
     cdp_bind (cdp_request c verb path) (\<lambda>body.
       case body of None \<Rightarrow> cdp_raise Control_failed | Some j \<Rightarrow> cdp_return j)"

record cdp_target =
  tg_id :: string
  tg_socket :: string
  tg_members :: "(string \<times> json) list"

definition page_target :: "json \<Rightarrow> cdp_target option" where
  "page_target row =
     (case row of
        JObj m \<Rightarrow>
          (case (map_of m ''type'', map_of m ''id'', map_of m ''webSocketDebuggerUrl'') of
             (Some (JStr kind), Some (JStr i), Some (JStr socket)) \<Rightarrow>
               if kind = ''page'' then Some \<lparr>tg_id = i, tg_socket = socket, tg_members = m\<rparr> else None
           | _ \<Rightarrow> None)
      | _ \<Rightarrow> None)"

definition cdp_targets :: "'s cdp_control \<Rightarrow> ('s, cdp_target list) cdp" where
  "cdp_targets c =
     cdp_bind (cdp_json c ''/json/list'' ''GET'') (\<lambda>rows.
       case rows of JArr rs \<Rightarrow> cdp_return (List.map_filter page_target rs) | _ \<Rightarrow> cdp_raise Control_failed)"

definition upper_hex_digit :: "char \<Rightarrow> bool" where
  "upper_hex_digit ch \<longleftrightarrow> is_digit ch \<or> char_in 65 70 ch"

definition target_re :: "string \<Rightarrow> bool" where
  "target_re i \<longleftrightarrow> length i = 32 \<and> list_all upper_hex_digit i"

definition tab_not_found :: control_error where
  "tab_not_found = Target_not_found ''Browser tab not found''"

definition cdp_target_of :: "'s cdp_control \<Rightarrow> string \<Rightarrow> ('s, cdp_target) cdp" where
  "cdp_target_of c target_id =
     (if \<not> target_re target_id then cdp_raise tab_not_found
      else
        cdp_bind (cdp_targets c) (\<lambda>ts.
          case find (\<lambda>t. tg_id t = target_id) ts of None \<Rightarrow> cdp_raise tab_not_found | Some t \<Rightarrow> cdp_return t))"

section \<open>Commands\<close>

type_synonym cdp_command = "string \<times> json"

text \<open>\<open>json.dumps(.., separators=(",", ":"))\<close> of the three members in their order.\<close>

definition command_text :: "(rat \<Rightarrow> string) \<Rightarrow> int \<times> cdp_command \<Rightarrow> string" where
  "command_text repr cmd =
     json_text repr (JObj [(''id'', JInt (fst cmd)), (''meth'' @ ''od'', JStr (fst (snd cmd))), (''params'', snd (snd cmd))])"

definition numbered :: "'a list \<Rightarrow> (int \<times> 'a) list" where
  "numbered xs = map (\<lambda>(i, x). (int i + 1, x)) (enumerate 0 xs)"

fun send_texts :: "'s chromium \<Rightarrow> string list \<Rightarrow> 's \<Rightarrow> bool \<times> 's" where
  "send_texts ch [] s = (True, s)"
| "send_texts ch (t # ts) s =
     (case ch_send ch t s of (False, s1) \<Rightarrow> (False, s1) | (True, s1) \<Rightarrow> send_texts ch ts s1)"

text \<open>\<open>message.get("id") in range(1, n + 1)\<close> as the number it is equal to.\<close>

definition answered :: "nat \<Rightarrow> (string \<times> json) list \<Rightarrow> int option" where
  "answered n message = find (json_eq_int (payload_get message ''id'')) [1..int n]"

fun receive_results ::
  "'s chromium \<Rightarrow> nat \<Rightarrow> nat \<Rightarrow> rat \<Rightarrow> (int \<times> json) list \<Rightarrow> ('s, (int \<times> json) list) cdp" where
  "receive_results ch 0 n deadline results s = (Inl Cdp_fuel, s)"
| "receive_results ch (Suc fuel) n deadline results s =
     (if \<not> length results < n then (Inr results, s)
      else
        (case ch_clock ch s of
           (t, s1) \<Rightarrow>
             if \<not> t < deadline then (Inr results, s1)
             else
               (case ch_clock ch s1 of
                  (t2, s2) \<Rightarrow>
                    (case ch_recv ch (max (1 / 10) (deadline - t2)) s2 of
                       (Some (JObj message), s3) \<Rightarrow>
                         (case answered n message of
                            None \<Rightarrow> receive_results ch fuel n deadline results s3
                          | Some i \<Rightarrow>
                              if ''error'' \<in> fst ` set message then (Inl (Cdp Control_failed), s3)
                              else
                                receive_results ch fuel n deadline
                                  (dict_set i (case map_of message ''result'' of None \<Rightarrow> JObj [] | Some r \<Rightarrow> r) results) s3)
                     | (_, s3) \<Rightarrow> (Inl (Cdp Control_failed), s3)))))"

definition results_in_order :: "nat \<Rightarrow> (int \<times> json) list \<Rightarrow> cdp_error + json list" where
  "results_in_order n results =
     (if length results \<noteq> n then Inl (Cdp Control_failed)
      else
        (case those (map (map_of results) [1..int n]) of
           None \<Rightarrow> Inl (Cdp Other_exception)
         | Some rs \<Rightarrow> Inr rs))"

definition cdp_commands :: "'s cdp_control \<Rightarrow> string \<Rightarrow> cdp_command list \<Rightarrow> ('s, json list) cdp" where
  "cdp_commands c socket cmds s =
     (let ch = cc_chromium c in
      case ch_connect ch socket s of
        (False, s1) \<Rightarrow> (Inl (Cdp Control_failed), s1)
      | (True, s1) \<Rightarrow>
          (case send_texts ch (map (command_text (cc_float_repr c)) (numbered cmds)) s1 of
             (False, s2) \<Rightarrow> (Inl (Cdp Control_failed), ch_disconnect ch s2)
           | (True, s2) \<Rightarrow>
               (case ch_clock ch s2 of
                  (t, s3) \<Rightarrow>
                    (case receive_results ch (cc_fuel c) (length cmds) (t + cc_timeout c) [] s3 of
                       (Inl e, s4) \<Rightarrow> (Inl e, ch_disconnect ch s4)
                     | (Inr results, s4) \<Rightarrow> (results_in_order (length cmds) results, ch_disconnect ch s4)))))"

definition target_commands :: "'s cdp_control \<Rightarrow> string \<Rightarrow> cdp_command list \<Rightarrow> ('s, json list) cdp" where
  "target_commands c target_id cmds = cdp_bind (cdp_target_of c target_id) (\<lambda>t. cdp_commands c (tg_socket t) cmds)"

definition browser_commands :: "'s cdp_control \<Rightarrow> cdp_command list \<Rightarrow> ('s, json list) cdp" where
  "browser_commands c cmds =
     cdp_bind (cdp_json c ''/json/version'' ''GET'') (\<lambda>version.
       case version of
         JObj m \<Rightarrow>
           (case map_of m ''webSocketDebuggerUrl'' of
              Some (JStr socket) \<Rightarrow> cdp_commands c socket cmds
            | _ \<Rightarrow> cdp_raise Control_failed)
       | _ \<Rightarrow> cdp_raise Control_failed)"

text \<open>A value's member with a default, its length and its integer; \<open>None\<close> is the exception of a value of another
  type.\<close>

definition obj_get :: "json \<Rightarrow> string \<Rightarrow> json \<Rightarrow> json option" where
  "obj_get j k dflt =
     (case j of JObj m \<Rightarrow> Some (case map_of m k of None \<Rightarrow> dflt | Some v \<Rightarrow> v) | _ \<Rightarrow> None)"

definition json_len :: "json \<Rightarrow> nat option" where
  "json_len j = (case j of JStr t \<Rightarrow> Some (length t) | JArr xs \<Rightarrow> Some (length xs) | JObj m \<Rightarrow> Some (length m) | _ \<Rightarrow> None)"

fun json_int :: "json \<Rightarrow> int option" where
  "json_int (JInt i) = Some i"
| "json_int (JBool b) = Some (if b then 1 else 0)"
| "json_int (JFloat (Fin q)) = Some (py_int q)"
| "json_int (JStr t) = int_of_str t"
| "json_int _ = None"

text \<open>\<open>results[0]\<close> of a command list of one.\<close>

definition first_result :: "json list \<Rightarrow> ('s, json) cdp" where
  "first_result rs = (case rs of r # _ \<Rightarrow> cdp_return r | [] \<Rightarrow> cdp_raise Other_exception)"

text \<open>An integer in the sense of \<open>isinstance(.., int)\<close>, a truth value included.\<close>

fun int_instance :: "json \<Rightarrow> bool" where
  "int_instance (JInt i) = True"
| "int_instance (JBool b) = True"
| "int_instance _ = False"

definition cdp_maximize :: "'s cdp_control \<Rightarrow> string \<Rightarrow> ('s, unit) cdp" where
  "cdp_maximize c target_id =
     cdp_bind (browser_commands c [(''Browser.getWindowForTarget'', JObj [(''targetId'', JStr target_id)])]) (\<lambda>rs.
     cdp_bind (first_result rs) (\<lambda>window.
     cdp_bind (cdp_lift (obj_get window ''windowId'' JNull)) (\<lambda>window_id.
       if \<not> int_instance window_id then cdp_raise Control_failed
       else
         cdp_bind
           (browser_commands c
             [(''Browser.setWindowBounds'',
               JObj [(''windowId'', window_id), (''bounds'', JObj [(''windowState'', JStr ''maximized'')])])])
           (\<lambda>_. cdp_return ()))))"

section \<open>The state of the tabs\<close>

record cdp_tab =
  ct_target_id :: string
  ct_title :: json
  ct_url :: json
  ct_loading :: bool
  ct_can_go_back :: bool
  ct_can_go_forward :: bool
  ct_active :: bool

definition or_text :: "json \<Rightarrow> string \<Rightarrow> json" where
  "or_text v dflt = (if json_truthy v then v else JStr dflt)"

definition read_tab :: "cdp_target \<Rightarrow> json \<Rightarrow> json \<Rightarrow> cdp_tab option" where
  "read_tab t runtime hist =
     Option.bind (obj_get runtime ''result'' (JObj [])) (\<lambda>result.
     Option.bind (obj_get result ''value'' (JObj [])) (\<lambda>value.
     Option.bind (Option.bind (obj_get hist ''currentIndex'' (JInt 0)) json_int) (\<lambda>current_index.
     Option.bind (obj_get hist ''entries'' (JArr [])) (\<lambda>entries.
     Option.bind (obj_get value ''focus'' JNull) (\<lambda>focus.
     Option.bind (obj_get value ''loading'' JNull) (\<lambda>loading.
     Option.bind (json_len entries) (\<lambda>count.
       Some \<lparr>ct_target_id = tg_id t, ct_title = or_text (payload_get (tg_members t) ''title'') ''New tab'',
             ct_url = or_text (payload_get (tg_members t) ''url'') ''about:blank'', ct_loading = json_truthy loading,
             ct_can_go_back = current_index > 0, ct_can_go_forward = current_index < int count - 1,
             ct_active = json_truthy focus\<rparr>)))))))"

definition tab_expression :: string where
  "tab_expression = ''({focus:document.hasFocus(),loading:document.readyState!==''"

definition tab_commands :: "cdp_command list" where
  "tab_commands =
     [(''Runtime.evaluate'',
       JObj [(''expression'', JStr (tab_expression @ [CHR 0x27] @ ''complete'' @ [CHR 0x27] @ ''})'')), (''returnByValue'', JBool True)]),
      (''Page.getNavigationHistory'', JObj [])]"

definition tab_of :: "'s cdp_control \<Rightarrow> cdp_target \<Rightarrow> ('s, cdp_tab) cdp" where
  "tab_of c t =
     cdp_bind (target_commands c (tg_id t) tab_commands) (\<lambda>rs.
       case rs of [runtime, hist] \<Rightarrow> cdp_lift (read_tab t runtime hist) | _ \<Rightarrow> cdp_raise Other_exception)"

fun each_tab :: "'s cdp_control \<Rightarrow> cdp_target list \<Rightarrow> ('s, cdp_tab list) cdp" where
  "each_tab c [] = cdp_return []"
| "each_tab c (t # ts) = cdp_bind (tab_of c t) (\<lambda>tab. cdp_bind (each_tab c ts) (\<lambda>rows. cdp_return (tab # rows)))"

type_synonym tab_listing = "cdp_tab list \<times> string option"

text \<open>The last tab with the focus is the active one; without one the first tab is made active. An identifier
  read so far has 32 characters, so it is never false.\<close>

definition finish_state :: "cdp_tab list \<Rightarrow> tab_listing" where
  "finish_state rows =
     (case filter ct_active rows of
        [] \<Rightarrow> (case rows of [] \<Rightarrow> ([], None) | t # ts \<Rightarrow> (t\<lparr>ct_active := True\<rparr> # ts, Some (ct_target_id t)))
      | focused \<Rightarrow> (rows, Some (ct_target_id (last focused))))"

definition cdp_state :: "'s cdp_control \<Rightarrow> ('s, tab_listing) cdp" where
  "cdp_state c = cdp_bind (cdp_targets c) (\<lambda>ts. cdp_bind (each_tab c ts) (\<lambda>rows. cdp_return (finish_state rows)))"

section \<open>Operations on the tabs\<close>

text \<open>The three loops that wait, each reading of the clock before its request.\<close>

fun wait_for_url :: "'s cdp_control \<Rightarrow> nat \<Rightarrow> string \<Rightarrow> string \<Rightarrow> rat \<Rightarrow> ('s, unit) cdp" where
  "wait_for_url c 0 target_id expected deadline s = (Inl Cdp_fuel, s)"
| "wait_for_url c (Suc fuel) target_id expected deadline s =
     (case ch_clock (cc_chromium c) s of
        (t, s1) \<Rightarrow>
          if \<not> t < deadline then (Inr (), s1)
          else
            (case cdp_targets c s1 of
               (Inl e, s2) \<Rightarrow> (Inl e, s2)
             | (Inr ts, s2) \<Rightarrow>
                 if (case find (\<lambda>t. tg_id t = target_id) ts of
                       None \<Rightarrow> False | Some t \<Rightarrow> payload_get (tg_members t) ''url'' = JStr expected)
                 then (Inr (), s2)
                 else wait_for_url c fuel target_id expected deadline (ch_sleep (cc_chromium c) (1 / 20) s2)))"

fun wait_listed :: "'s cdp_control \<Rightarrow> nat \<Rightarrow> string \<Rightarrow> rat \<Rightarrow> ('s, unit) cdp" where
  "wait_listed c 0 target_id deadline s = (Inl Cdp_fuel, s)"
| "wait_listed c (Suc fuel) target_id deadline s =
     (case ch_clock (cc_chromium c) s of
        (t, s1) \<Rightarrow>
          if \<not> t < deadline then (Inl (Cdp Control_failed), s1)
          else
            (case cdp_targets c s1 of
               (Inl e, s2) \<Rightarrow> (Inl e, s2)
             | (Inr ts, s2) \<Rightarrow>
                 if list_ex (\<lambda>t. tg_id t = target_id) ts then (Inr (), s2)
                 else wait_listed c fuel target_id deadline (ch_sleep (cc_chromium c) (1 / 20) s2)))"

fun wait_closed :: "'s cdp_control \<Rightarrow> nat \<Rightarrow> string \<Rightarrow> rat \<Rightarrow> ('s, unit) cdp" where
  "wait_closed c 0 target_id deadline s = (Inl Cdp_fuel, s)"
| "wait_closed c (Suc fuel) target_id deadline s =
     (case ch_clock (cc_chromium c) s of
        (t, s1) \<Rightarrow>
          if \<not> t < deadline then (Inr (), s1)
          else
            (case cdp_targets c s1 of
               (Inl e, s2) \<Rightarrow> (Inl e, s2)
             | (Inr ts, s2) \<Rightarrow>
                 if list_ex (\<lambda>t. tg_id t = target_id) ts
                 then wait_closed c fuel target_id deadline (ch_sleep (cc_chromium c) (1 / 20) s2)
                 else (Inr (), s2)))"

definition cdp_now :: "'s cdp_control \<Rightarrow> ('s, rat) cdp" where
  "cdp_now c s = (case ch_clock (cc_chromium c) s of (t, s1) \<Rightarrow> (Inr t, s1))"

text \<open>\<open>urllib.parse.quote(target_id, safe="")\<close>.\<close>

definition quote_all :: "string \<Rightarrow> string" where
  "quote_all s = concat (map (\<lambda>ch. if quote_char_ok ch then [ch] else percent ch) (utf8_encode s))"

definition cdp_activate :: "'s cdp_control \<Rightarrow> string \<Rightarrow> ('s, tab_listing) cdp" where
  "cdp_activate c target_id =
     cdp_bind (cdp_target_of c target_id) (\<lambda>_.
     cdp_bind (cdp_request c ''GET'' (''/json/activate/'' @ quote_all target_id)) (\<lambda>_.
       cdp_state c))"

definition cdp_new_tab :: "'s cdp_control \<Rightarrow> string \<Rightarrow> ('s, tab_listing) cdp" where
  "cdp_new_tab c url =
     cdp_bind (browser_commands c [(''Target.createTarget'', JObj [(''url'', JStr url), (''background'', JBool False)])]) (\<lambda>rs.
     cdp_bind (first_result rs) (\<lambda>created.
     cdp_bind (cdp_lift (obj_get created ''targetId'' JNull)) (\<lambda>target_id.
       case target_id of
         JStr i \<Rightarrow>
           if \<not> target_re i then cdp_raise Control_failed
           else
             cdp_bind (cdp_now c) (\<lambda>now.
             cdp_bind (wait_listed c (cc_fuel c) i (now + cc_timeout c)) (\<lambda>_.
               cdp_activate c i))
       | _ \<Rightarrow> cdp_raise Control_failed)))"

definition cdp_close :: "'s cdp_control \<Rightarrow> string \<Rightarrow> ('s, tab_listing) cdp" where
  "cdp_close c target_id =
     cdp_bind (cdp_targets c) (\<lambda>targets.
     cdp_bind (cdp_target_of c target_id) (\<lambda>_.
       if length targets \<le> 1 then cdp_raise (Last_tab ''The last browser tab cannot be closed'')
       else
         cdp_bind (cdp_request c ''GET'' (''/json/close/'' @ quote_all target_id)) (\<lambda>_.
         cdp_bind (cdp_now c) (\<lambda>now.
         cdp_bind (wait_closed c (cc_fuel c) target_id (now + cc_timeout c)) (\<lambda>_.
         cdp_bind (cdp_state c) (\<lambda>st.
           case snd st of
             None \<Rightarrow> cdp_return st
           | Some i \<Rightarrow> cdp_bind (cdp_activate c i) (\<lambda>_. cdp_state c)))))))"

definition cdp_navigate :: "'s cdp_control \<Rightarrow> string \<Rightarrow> string \<Rightarrow> ('s, tab_listing) cdp" where
  "cdp_navigate c target_id url =
     cdp_bind (target_commands c target_id [(''Page.navigate'', JObj [(''url'', JStr url)])]) (\<lambda>_.
     cdp_bind (cdp_now c) (\<lambda>now.
     cdp_bind (wait_for_url c (cc_fuel c) target_id url (now + 2)) (\<lambda>_.
       cdp_state c)))"

text \<open>The entry to go to: \<open>None\<close> an exception, \<open>Some None\<close> an index outside the history.\<close>

definition entry_to_visit :: "json \<Rightarrow> int \<Rightarrow> json option option" where
  "entry_to_visit hist delta =
     Option.bind (obj_get hist ''entries'' (JArr [])) (\<lambda>entries.
     Option.bind (Option.bind (obj_get hist ''currentIndex'' (JInt 0)) json_int) (\<lambda>current_index.
     Option.bind (json_len entries) (\<lambda>count.
       let index = current_index + delta in
       if 0 \<le> index \<and> index < int count then
         (case entries of
            JArr es \<Rightarrow> map_option Some (obj_get (es ! nat index) ''id'' JNull)
          | _ \<Rightarrow> None)
       else Some None)))"

definition cdp_history :: "'s cdp_control \<Rightarrow> string \<Rightarrow> int \<Rightarrow> ('s, tab_listing) cdp" where
  "cdp_history c target_id delta =
     cdp_bind (target_commands c target_id [(''Page.getNavigationHistory'', JObj [])]) (\<lambda>rs.
     cdp_bind (first_result rs) (\<lambda>hist.
     cdp_bind (cdp_lift (entry_to_visit hist delta)) (\<lambda>entry.
       case entry of
         None \<Rightarrow> cdp_state c
       | Some entry_id \<Rightarrow>
           cdp_bind (target_commands c target_id [(''Page.navigateToHistoryEntry'', JObj [(''entryId'', entry_id)])]) (\<lambda>_.
             cdp_state c))))"

definition cdp_reload :: "'s cdp_control \<Rightarrow> string \<Rightarrow> ('s, tab_listing) cdp" where
  "cdp_reload c target_id =
     cdp_bind (target_commands c target_id [(''Page.reload'', JObj [(''ignoreCache'', JBool False)])]) (\<lambda>_. cdp_state c)"

section \<open>The runner of containers\<close>

definition open_app_command :: "string \<Rightarrow> string \<Rightarrow> string list" where
  "open_app_command session_id url =
     [''podman'', ''exec'', ''--user=1000:1000'', ''--env=DISPLAY=:20'', ''--env=HOME=/home/ubuntu/profile/home'',
      container_name session_id, ''chromium'', ''--user-data-dir=/home/ubuntu/profile'', ''--no-sandbox'', ''--test-type'',
      ''--no-first-run'', ''--no-default-browser-check'', ''--start-maximized'', ''--app='' @ url]"

definition open_app :: "runs \<Rightarrow> string \<Rightarrow> string \<Rightarrow> unit podman" where
  "open_app run session_id url = and_then (podman_run run (open_app_command session_id url)) (\<lambda>_. give (Inr ()))"

text \<open>The operations the runner delegates, one for each of its methods.\<close>

datatype tab_operation =
  Tab_state | Tab_new string | Tab_activate string | Tab_close string | Tab_navigate string string
| Tab_history string int | Tab_reload string

fun tab_operation_run :: "'s cdp_control \<Rightarrow> tab_operation \<Rightarrow> ('s, tab_listing) cdp" where
  "tab_operation_run c Tab_state = cdp_state c"
| "tab_operation_run c (Tab_new url) = cdp_new_tab c url"
| "tab_operation_run c (Tab_activate i) = cdp_activate c i"
| "tab_operation_run c (Tab_close i) = cdp_close c i"
| "tab_operation_run c (Tab_navigate i url) = cdp_navigate c i url"
| "tab_operation_run c (Tab_history i delta) = cdp_history c i delta"
| "tab_operation_run c (Tab_reload i) = cdp_reload c i"

text \<open>The exceptions of \<open>cdp_endpoint\<close> are no \<open>BrowserControlError\<close>.\<close>

definition podman_browser ::
  "runs \<Rightarrow> 's chromium \<Rightarrow> (rat \<Rightarrow> string) \<Rightarrow> nat \<Rightarrow> string \<Rightarrow> tab_operation \<Rightarrow> podman_state \<times> 's \<Rightarrow>
   (cdp_error + tab_listing) \<times> podman_state \<times> 's" where
  "podman_browser run chromium repr fuel session_id operation st =
     (case cdp_endpoint run session_id (fst st) of
        (Inl _, ps) \<Rightarrow> (Inl (Cdp Other_exception), ps, snd st)
      | (Inr endpoint, ps) \<Rightarrow>
          (case cdp_browser_control chromium repr fuel endpoint of
             Inl e \<Rightarrow> (Inl e, ps, snd st)
           | Inr c \<Rightarrow> (case tab_operation_run c operation (snd st) of (r, s1) \<Rightarrow> (r, ps, s1))))"

section \<open>What every operation keeps\<close>

text \<open>An invariant that the requests to the endpoint keep, and connections to a socket the endpoint has reported,
  is kept by everything the class does.\<close>

definition offers :: "cdp_reply \<Rightarrow> string \<Rightarrow> bool" where
  "offers r u \<longleftrightarrow>
     (case r of
        Reply (Some (JObj m)) \<Rightarrow> map_of m ''webSocketDebuggerUrl'' = Some (JStr u)
      | Reply (Some (JArr rows)) \<Rightarrow> \<exists>m. JObj m \<in> set rows \<and> map_of m ''webSocketDebuggerUrl'' = Some (JStr u)
      | _ \<Rightarrow> False)"

locale cdp_channel =
  fixes c :: "'s cdp_control" and I :: "'s \<Rightarrow> bool" and reported :: "string \<Rightarrow> 's \<Rightarrow> bool"
  assumes http: "I s \<Longrightarrow> ch_http (cc_chromium c) ''GET'' (cc_endpoint c @ ''/json/'' @ p) s = (r, s') \<Longrightarrow>
      I s' \<and> (\<forall>u. offers r u \<longrightarrow> reported u s')"
    and connect: "I s \<Longrightarrow> reported u s \<Longrightarrow> ch_connect (cc_chromium c) u s = (ok, s') \<Longrightarrow> I s'"
    and send: "I s \<Longrightarrow> ch_send (cc_chromium c) t s = (ok, s') \<Longrightarrow> I s'"
    and recv: "I s \<Longrightarrow> ch_recv (cc_chromium c) w s = (m, s') \<Longrightarrow> I s'"
    and disconnect: "I s \<Longrightarrow> I (ch_disconnect (cc_chromium c) s)"
    and clock: "I s \<Longrightarrow> ch_clock (cc_chromium c) s = (x, s') \<Longrightarrow> I s'"
    and sleep: "I s \<Longrightarrow> I (ch_sleep (cc_chromium c) d s)"
begin

definition keeps :: "('s, 'a) cdp \<Rightarrow> bool" where
  "keeps m \<longleftrightarrow> (\<forall>s. I s \<longrightarrow> I (snd (m s)))"

lemma keepsD: "keeps m \<Longrightarrow> I s \<Longrightarrow> m s = (r, s') \<Longrightarrow> I s'"
  unfolding keeps_def by (metis snd_conv)

lemma keeps_bind: "keeps m \<Longrightarrow> (\<And>x. keeps (f x)) \<Longrightarrow> keeps (cdp_bind m f)"
  unfolding keeps_def cdp_bind_def by (auto split: prod.split sum.split dest: arg_cong [of _ _ snd] simp: prod_eq_iff) 

lemma keeps_pure: "keeps (cdp_return x)" "keeps (cdp_raise e)" "keeps (cdp_lift r)"
  by (simp_all add: keeps_def cdp_return_def cdp_raise_def cdp_lift_def split: option.split)

lemma keeps_now: "keeps (cdp_now c)"
  using clock by (auto simp: keeps_def cdp_now_def split: prod.split)

lemma request_reports:
  assumes "I s" and "cdp_request c ''GET'' (''/json/'' @ p) s = (r, s')"
  shows "I s' \<and> (\<forall>body u. r = Inr body \<longrightarrow> offers (Reply body) u \<longrightarrow> reported u s')"
  using assms(2) http [OF assms(1), of p] by (auto simp: cdp_request_def split: prod.splits cdp_reply.splits)

lemma keeps_request: "keeps (cdp_request c ''GET'' (''/json/'' @ p))"
  unfolding keeps_def using request_reports by (metis prod.collapse)

lemma json_reports:
  assumes "I s" and "cdp_json c (''/json/'' @ p) ''GET'' s = (r, s')"
  shows "I s' \<and> (\<forall>j u. r = Inr j \<longrightarrow> offers (Reply (Some j)) u \<longrightarrow> reported u s')"
proof -
  obtain q s1 where q: "cdp_request c ''GET'' (''/json/'' @ p) s = (q, s1)" by fastforce
  with assms(2) request_reports [OF assms(1) q] show ?thesis
    by (auto simp: cdp_json_def cdp_bind_def cdp_return_def cdp_raise_def split: sum.splits option.splits)
qed

lemma offers_page: "t \<in> set (List.map_filter page_target rows) \<Longrightarrow> offers (Reply (Some (JArr rows))) (tg_socket t)"
  by (induction rows)
    (auto simp: offers_def page_target_def List.map_filter_simps split: json.splits option.splits if_splits)

lemma targets_report:
  assumes "I s" and "cdp_targets c s = (r, s')"
  shows "I s' \<and> (\<forall>ts. r = Inr ts \<longrightarrow> (\<forall>t \<in> set ts. reported (tg_socket t) s'))"
proof -
  obtain q s1 where q: "cdp_json c (''/json/'' @ ''list'') ''GET'' s = (q, s1)" by fastforce
  note rep = json_reports [OF assms(1) q]
  show ?thesis
  proof (cases "\<exists>rows. q = Inr (JArr rows)")
    case True
    then obtain rows where rows: "q = Inr (JArr rows)" by blast
    with q assms(2) have "r = Inr (List.map_filter page_target rows)" "s' = s1"
      by (auto simp: cdp_targets_def cdp_bind_def cdp_return_def)
    with rep rows offers_page show ?thesis by blast
  next
    case False
    with q assms(2) have "s' = s1" "\<nexists>ts. r = Inr ts"
      by (auto simp: cdp_targets_def cdp_bind_def cdp_raise_def split: sum.splits json.splits)
    with rep show ?thesis by blast
  qed
qed

lemma keeps_targets: "keeps (cdp_targets c)"
  unfolding keeps_def using targets_report by (metis prod.collapse)

lemma target_report:
  assumes "I s" and "cdp_target_of c i s = (r, s')"
  shows "I s' \<and> (\<forall>t. r = Inr t \<longrightarrow> reported (tg_socket t) s')"
proof -
  obtain q s1 where q: "cdp_targets c s = (q, s1)" by fastforce
  with assms targets_report [OF assms(1) q] show ?thesis
    by (auto simp: cdp_target_of_def cdp_bind_def cdp_return_def cdp_raise_def find_Some_iff split: sum.splits option.splits if_splits)
qed

lemma keeps_target: "keeps (cdp_target_of c i)"
  unfolding keeps_def using target_report by (metis prod.collapse)

lemma keeps_send: "I s \<Longrightarrow> send_texts (cc_chromium c) ts s = (ok, s') \<Longrightarrow> I s'"
proof (induction ts arbitrary: s)
  case (Cons t ts)
  obtain b s1 where b: "ch_send (cc_chromium c) t s = (b, s1)" by fastforce
  with Cons send [OF Cons.prems(1) b] show ?case by (cases b) auto
qed simp

lemma keeps_receive: "I s \<Longrightarrow> receive_results (cc_chromium c) fuel n d results s = (r, s') \<Longrightarrow> I s'"
proof (induction fuel arbitrary: s results)
  case (Suc fuel)
  obtain t s1 where 1: "ch_clock (cc_chromium c) s = (t, s1)" by fastforce
  obtain t2 s2 where 2: "ch_clock (cc_chromium c) s1 = (t2, s2)" by fastforce
  obtain m s3 where 3: "ch_recv (cc_chromium c) (max (1 / 10) (d - t2)) s2 = (m, s3)" by fastforce
  have i: "I s1" "I s2" "I s3" using Suc.prems(1) clock [OF _ 1] clock [OF _ 2] recv [OF _ 3] by auto
  show ?case
    using Suc.prems(2) i 1 2 3 Suc.prems(1) Suc.IH [OF i(3)]
    by (auto split: if_splits option.splits json.splits)
qed simp

lemma keeps_commands:
  assumes "I s" and "reported u s" and "cdp_commands c u cmds s = (r, s')"
  shows "I s'"
proof -
  let ?ch = "cc_chromium c"
  obtain ok s1 where 1: "ch_connect ?ch u s = (ok, s1)" by fastforce
  obtain ok2 s2 where 2: "send_texts ?ch (map (command_text (cc_float_repr c)) (numbered cmds)) s1 = (ok2, s2)" by fastforce
  obtain t s3 where 3: "ch_clock ?ch s2 = (t, s3)" by fastforce
  obtain q s4 where 4: "receive_results ?ch (cc_fuel c) (length cmds) (t + cc_timeout c) [] s3 = (q, s4)" by fastforce
  have i: "I s1" "I s2" "I s3" "I s4"
    using connect [OF assms(1,2) 1] keeps_send [OF _ 2] clock [OF _ 3] keeps_receive [OF _ 4] by auto
  with 1 2 3 4 assms(3) disconnect show ?thesis
    by (auto simp: cdp_commands_def Let_def split: bool.splits sum.splits)
qed

lemma keeps_target_commands: "keeps (target_commands c i cmds)"
  unfolding keeps_def
proof (intro allI impI)
  fix s assume s: "I s"
  obtain q s1 where q: "cdp_target_of c i s = (q, s1)" by fastforce
  obtain r s2 where r: "target_commands c i cmds s = (r, s2)" by fastforce
  from q r target_report [OF s q] keeps_commands [of s1] show "I (snd (target_commands c i cmds s))"
    by (auto simp: target_commands_def cdp_bind_def split: sum.splits)
qed

lemma keeps_browser_commands: "keeps (browser_commands c cmds)"
  unfolding keeps_def
proof (intro allI impI)
  fix s assume s: "I s"
  obtain q s1 where q: "cdp_json c (''/json/'' @ ''version'') ''GET'' s = (q, s1)" by fastforce
  obtain r s2 where r: "browser_commands c cmds s = (r, s2)" by fastforce
  have rep: "I s1" "\<And>m u. q = Inr (JObj m) \<Longrightarrow> map_of m ''webSocketDebuggerUrl'' = Some (JStr u) \<Longrightarrow> reported u s1"
    using json_reports [OF s q] by (auto simp: offers_def)
  show "I (snd (browser_commands c cmds s))"
  proof (cases "\<exists>m u. q = Inr (JObj m) \<and> map_of m ''webSocketDebuggerUrl'' = Some (JStr u)")
    case True
    then obtain m u where m: "q = Inr (JObj m)" "map_of m ''webSocketDebuggerUrl'' = Some (JStr u)" by blast
    with q r have "cdp_commands c u cmds s1 = (r, s2)" by (simp add: browser_commands_def cdp_bind_def)
    from keeps_commands [OF rep(1) rep(2) [OF m] this] r show ?thesis by simp
  next
    case False
    with q r have "s2 = s1"
      by (auto simp: browser_commands_def cdp_bind_def cdp_raise_def split: sum.splits json.splits option.splits)
    with r rep(1) show ?thesis by simp
  qed
qed

lemma keeps_wait_url: "I s \<Longrightarrow> I (snd (wait_for_url c fuel i u d s))"
proof (induction fuel arbitrary: s)
  case (Suc fuel)
  obtain t s1 where 1: "ch_clock (cc_chromium c) s = (t, s1)" by fastforce
  obtain q s2 where 2: "cdp_targets c s1 = (q, s2)" by fastforce
  have i: "I s1" "I s2" "I (ch_sleep (cc_chromium c) (1 / 20) s2)"
    using clock [OF Suc.prems 1] keepsD [OF keeps_targets _ 2] sleep by auto
  from Suc.IH [OF i(3)] i(1,2) 1 2 show ?case by (simp split: sum.split)
qed simp

lemma keeps_wait_listed: "I s \<Longrightarrow> I (snd (wait_listed c fuel i d s))"
proof (induction fuel arbitrary: s)
  case (Suc fuel)
  obtain t s1 where 1: "ch_clock (cc_chromium c) s = (t, s1)" by fastforce
  obtain q s2 where 2: "cdp_targets c s1 = (q, s2)" by fastforce
  have i: "I s1" "I s2" "I (ch_sleep (cc_chromium c) (1 / 20) s2)"
    using clock [OF Suc.prems 1] keepsD [OF keeps_targets _ 2] sleep by auto
  from Suc.IH [OF i(3)] i(1,2) 1 2 show ?case by (simp split: sum.split)
qed simp

lemma keeps_wait_closed: "I s \<Longrightarrow> I (snd (wait_closed c fuel i d s))"
proof (induction fuel arbitrary: s)
  case (Suc fuel)
  obtain t s1 where 1: "ch_clock (cc_chromium c) s = (t, s1)" by fastforce
  obtain q s2 where 2: "cdp_targets c s1 = (q, s2)" by fastforce
  have i: "I s1" "I s2" "I (ch_sleep (cc_chromium c) (1 / 20) s2)"
    using clock [OF Suc.prems 1] keepsD [OF keeps_targets _ 2] sleep by auto
  from Suc.IH [OF i(3)] i(1,2) 1 2 show ?case by (simp split: sum.split)
qed simp

lemma keeps_waits: "keeps (wait_for_url c fuel i u d)" "keeps (wait_listed c fuel i d)" "keeps (wait_closed c fuel i d)"
  by (simp_all add: keeps_def keeps_wait_url keeps_wait_listed keeps_wait_closed)

lemma keeps_if: "keeps x \<Longrightarrow> keeps y \<Longrightarrow> keeps (if b then x else y)"
  by simp

lemma keeps_cases:
  "(\<And>x. keeps (f x)) \<Longrightarrow> keeps g \<Longrightarrow> keeps (case opt of None \<Rightarrow> g | Some x \<Rightarrow> f x)"
  "(\<And>x xs. keeps (f' x xs)) \<Longrightarrow> keeps g' \<Longrightarrow> keeps (case xs of [] \<Rightarrow> g' | x # xs \<Rightarrow> f' x xs)"
  by (cases opt; simp) (cases xs; simp)

lemmas keeps_rules =
  keeps_bind keeps_pure keeps_now keeps_targets keeps_target keeps_target_commands keeps_browser_commands keeps_waits
  keeps_if keeps_cases

lemma keeps_first: "keeps (first_result rs)"
  by (cases rs) (simp_all add: first_result_def keeps_pure)

lemma keeps_tab_of: "keeps (tab_of c t)"
  unfolding tab_of_def by (intro keeps_rules)

lemma keeps_each_tab: "keeps (each_tab c ts)"
  by (induction ts) (auto intro!: keeps_bind keeps_pure keeps_tab_of)

lemma keeps_state: "keeps (cdp_state c)"
  unfolding cdp_state_def by (intro keeps_rules keeps_each_tab)

lemma keeps_activate: "keeps (cdp_activate c i)"
  unfolding cdp_activate_def
  using keeps_request [of "''activate/'' @ quote_all i"] by (intro keeps_rules keeps_state) simp_all

lemma keeps_close: "keeps (cdp_close c i)"
  unfolding cdp_close_def
  using keeps_request [of "''close/'' @ quote_all i"] by (intro keeps_rules keeps_state keeps_activate) simp_all

lemma keeps_new_tab: "keeps (cdp_new_tab c url)"
  unfolding cdp_new_tab_def
  by (intro keeps_rules keeps_first) (auto split: json.split intro!: keeps_rules keeps_activate)

lemma keeps_operation: "keeps (tab_operation_run c operation)"
  by (cases operation)
    (auto simp: cdp_navigate_def cdp_history_def cdp_reload_def
      intro!: keeps_rules keeps_state keeps_new_tab keeps_activate keeps_close keeps_first)

lemma keeps_maximize: "keeps (cdp_maximize c i)"
  unfolding cdp_maximize_def by (intro keeps_rules keeps_first)

end

section \<open>Where the requests go\<close>

text \<open>Chromium with a log of the traffic, the newest event first.\<close>

datatype cdp_event = Asked string string cdp_reply | Opened string | Wrote string | Got "json option"

definition logged :: "'s chromium \<Rightarrow> ('s \<times> cdp_event list) chromium" where
  "logged ch =
     \<lparr>ch_http = (\<lambda>verb url (s, trace). case ch_http ch verb url s of (r, s1) \<Rightarrow> (r, s1, Asked verb url r # trace)),
      ch_connect = (\<lambda>url (s, trace). case ch_connect ch url s of (ok, s1) \<Rightarrow> (ok, s1, Opened url # trace)),
      ch_send = (\<lambda>t (s, trace). case ch_send ch t s of (ok, s1) \<Rightarrow> (ok, s1, Wrote t # trace)),
      ch_recv = (\<lambda>w (s, trace). case ch_recv ch w s of (m, s1) \<Rightarrow> (m, s1, Got m # trace)),
      ch_disconnect = (\<lambda>(s, trace). (ch_disconnect ch s, trace)),
      ch_clock = (\<lambda>(s, trace). case ch_clock ch s of (t, s1) \<Rightarrow> (t, s1, trace)),
      ch_sleep = (\<lambda>d (s, trace). (ch_sleep ch d s, trace))\<rparr>"

definition logged_control :: "'s chromium \<Rightarrow> string \<Rightarrow> rat \<Rightarrow> (rat \<Rightarrow> string) \<Rightarrow> nat \<Rightarrow> ('s \<times> cdp_event list) cdp_control" where
  "logged_control ch endpoint timeout repr fuel =
     \<lparr>cc_chromium = logged ch, cc_endpoint = endpoint, cc_timeout = timeout, cc_float_repr = repr, cc_fuel = fuel\<rparr>"

definition was_offered :: "cdp_event list \<Rightarrow> string \<Rightarrow> bool" where
  "was_offered trace u \<longleftrightarrow> list_ex (\<lambda>e. case e of Asked _ _ r \<Rightarrow> offers r u | _ \<Rightarrow> False) trace"

fun log_ok :: "string \<Rightarrow> cdp_event list \<Rightarrow> bool" where
  "log_ok endpoint [] = True"
| "log_ok endpoint (e # trace) =
     (log_ok endpoint trace \<and>
      (case e of
         Asked verb url r \<Rightarrow> verb = ''GET'' \<and> startswith url (endpoint @ ''/json/'')
       | Opened url \<Rightarrow> was_offered trace url
       | _ \<Rightarrow> True))"

lemma startswith_middle [simp]: "startswith (a @ b @ c) (a @ b)"
  by (simp add: startswith_def)

interpretation channel: cdp_channel "logged_control ch endpoint timeout repr fuel"
    "\<lambda>s. log_ok endpoint (snd s)" "\<lambda>u s. was_offered (snd s) u" for ch endpoint timeout repr fuel
proof
  fix s s' :: "'a \<times> cdp_event list" and p r
  assume "log_ok endpoint (snd s)"
    and "ch_http (cc_chromium (logged_control ch endpoint timeout repr fuel)) ''GET''
      (cc_endpoint (logged_control ch endpoint timeout repr fuel) @ ''/json/'' @ p) s = (r, s')"
  then show "log_ok endpoint (snd s') \<and> (\<forall>u. offers r u \<longrightarrow> was_offered (snd s') u)"
    using startswith_middle [of endpoint "''/json/''" p]
    by (auto simp: logged_control_def logged_def was_offered_def split: prod.splits simp del: startswith_middle)
qed (auto simp: logged_control_def logged_def split: prod.splits)

definition run_operations :: "'s cdp_control \<Rightarrow> tab_operation list \<Rightarrow> 's \<Rightarrow> 's" where
  "run_operations c operations s = fold (\<lambda>op s. snd (tab_operation_run c op s)) operations s"

lemma log_ok_opened: "log_ok endpoint (later @ Opened u # earlier) \<Longrightarrow> was_offered earlier u"
  by (induction later) auto

lemma log_ok_asked: "log_ok endpoint trace \<Longrightarrow> Asked verb url r \<in> set trace \<Longrightarrow> verb = ''GET'' \<and> startswith url (endpoint @ ''/json/'')"
  by (induction trace) auto

text \<open>C36. The control plane talks to nobody but the browser of the session: whatever Chromium answers and whatever
  operations on the tabs follow each other, every request is a GET below the path json of the loopback endpoint the
  class was made for, and every websocket it opens is one that an earlier answer of that endpoint named.\<close>

theorem control_confined:
  assumes "cdp_browser_control (logged ch) repr fuel endpoint = Inr c"
    and "run_operations c operations (s, []) = (s', trace)"
  shows "loopback_endpoint endpoint \<and>
    (\<forall>verb url r. Asked verb url r \<in> set trace \<longrightarrow> verb = ''GET'' \<and> startswith url (endpoint @ ''/json/'')) \<and>
    (\<forall>later u earlier. trace = later @ Opened u # earlier \<longrightarrow> was_offered earlier u)"
proof -
  have c: "c = logged_control ch endpoint 8 repr fuel" and l: "loopback_endpoint endpoint"
    using assms(1) by (auto simp: cdp_browser_control_def logged_control_def split: if_splits)
  have "log_ok endpoint (snd (fold (\<lambda>op s. snd (tab_operation_run c op s)) operations (s, [])))"
  proof (rule fold_invariant [where Q = "\<lambda>_. True" and P = "\<lambda>s. log_ok endpoint (snd s)"])
    fix op and st :: "'a \<times> cdp_event list"
    assume "log_ok endpoint (snd st)"
    moreover obtain r st1 where "tab_operation_run (logged_control ch endpoint 8 repr fuel) op st = (r, st1)"
      by (rule prod.exhaust)
    ultimately show "log_ok endpoint (snd (snd (tab_operation_run c op st)))"
      using channel.keepsD [OF channel.keeps_operation] by (simp add: c)
  qed simp_all
  then have "log_ok endpoint trace" using assms(2) by (simp add: run_operations_def)
  with l show ?thesis using log_ok_opened log_ok_asked by blast
qed

section \<open>Answers in any order\<close>

lemma answered_range: "answered n m = Some i \<Longrightarrow> 1 \<le> i \<and> i \<le> int n \<and> json_eq_int (payload_get m ''id'') i"
  by (auto simp: answered_def find_Some_iff dest: nth_mem)

definition evidence :: "cdp_event list \<Rightarrow> nat \<Rightarrow> (int \<times> json) list \<Rightarrow> bool" where
  "evidence trace n results \<longleftrightarrow>
     (\<forall>(i, r) \<in> set results. 1 \<le> i \<and> i \<le> int n \<and>
        (\<exists>m. Got (Some (JObj m)) \<in> set trace \<and> json_eq_int (payload_get m ''id'') i \<and> ''error'' \<notin> fst ` set m \<and>
             r = (case map_of m ''result'' of None \<Rightarrow> JObj [] | Some r \<Rightarrow> r)))"

lemma evidence_mono: "evidence trace n results \<Longrightarrow> set trace \<subseteq> set trace' \<Longrightarrow> evidence trace' n results"
  by (fastforce simp: evidence_def)

lemma dict_set_subset: "set (dict_set k v d) \<subseteq> insert (k, v) (set d)"
  by (induction k v d rule: dict_set.induct) auto

lemma ball_dict_set: "\<forall>x \<in> set d. P x \<Longrightarrow> P (k, v) \<Longrightarrow> \<forall>x \<in> set (dict_set k v d). P x"
  by (auto dest!: subsetD [OF dict_set_subset])

lemma evidence_dict_set:
  assumes "evidence trace n results" and "answered n m = Some i" and "Got (Some (JObj m)) \<in> set trace" and "''error'' \<notin> fst ` set m"
  shows "evidence trace n (dict_set i (case map_of m ''result'' of None \<Rightarrow> JObj [] | Some r \<Rightarrow> r) results)"
  using assms(1) unfolding evidence_def
  by (rule ball_dict_set) (use answered_range [OF assms(2)] assms(3,4) in auto)

lemma receive_logged:
  assumes "ch_clock ch x = (t, x1)" and "ch_clock ch x1 = (t2, x2)" and "ch_recv ch (max (1 / 10) (d - t2)) x2 = (m, x3)"
  shows "receive_results (logged ch) (Suc fuel) n d results (x, trace) =
      (if \<not> length results < n then (Inr results, (x, trace))
       else if \<not> t < d then (Inr results, (x1, trace))
       else
         (case m of
            Some (JObj message) \<Rightarrow>
              (case answered n message of
                 None \<Rightarrow> receive_results (logged ch) fuel n d results (x3, Got m # trace)
               | Some i \<Rightarrow>
                   if ''error'' \<in> fst ` set message then (Inl (Cdp Control_failed), (x3, Got m # trace))
                   else
                     receive_results (logged ch) fuel n d
                       (dict_set i (case map_of message ''result'' of None \<Rightarrow> JObj [] | Some r \<Rightarrow> r) results)
                       (x3, Got m # trace))
          | _ \<Rightarrow> (Inl (Cdp Control_failed), (x3, Got m # trace))))"
  by (simp add: logged_def assms split: option.split json.split)

lemma receive_evidence:
  assumes "evidence (snd s) n results" and "distinct (map fst results)"
    and "receive_results (logged ch) fuel n d results s = (Inr rs, s')"
  shows "evidence (snd s') n rs \<and> distinct (map fst rs)"
  using assms
proof (induction fuel arbitrary: s results)
  case (Suc fuel)
  obtain x trace where s: "s = (x, trace)" by (rule prod.exhaust)
  obtain t x1 where 1: "ch_clock ch x = (t, x1)" by (rule prod.exhaust)
  obtain t2 x2 where 2: "ch_clock ch x1 = (t2, x2)" by (rule prod.exhaust)
  obtain m x3 where 3: "ch_recv ch (max (1 / 10) (d - t2)) x2 = (m, x3)" by (rule prod.exhaust)
  note unfold = receive_logged [OF 1 2 3, of fuel n results trace, folded s]
  have ev: "evidence (Got m # trace) n results"
    using Suc.prems(1) by (rule evidence_mono) (auto simp: s)
  show ?case
  proof (cases "length results < n \<and> t < d")
    case False
    with Suc.prems s unfold show ?thesis by (auto split: if_splits)
  next
    case True
    with Suc.prems(3) unfold obtain message where msg: "m = Some (JObj message)"
      by (auto split: option.splits json.splits)
    show ?thesis
    proof (cases "answered n message")
      case None
      with True Suc.prems(3) unfold msg Suc.IH [of "(x3, Got m # trace)" results] ev Suc.prems(2) show ?thesis by simp
    next
      case (Some i)
      let ?r = "case map_of message ''result'' of None \<Rightarrow> JObj [] | Some r \<Rightarrow> r"
      from Some True Suc.prems(3) unfold msg have e: "''error'' \<notin> fst ` set message"
        and go: "receive_results (logged ch) fuel n d (dict_set i ?r results) (x3, Got m # trace) = (Inr rs, s')"
        by (auto split: if_splits)
      have "evidence (Got m # trace) n (dict_set i ?r results)"
        by (rule evidence_dict_set [OF ev Some]) (use e msg in simp_all)
      moreover have "distinct (map fst (dict_set i ?r results))" using Suc.prems(2) by simp
      ultimately show ?thesis using Suc.IH [of "(x3, Got m # trace)"] go by simp
    qed
  qed
qed simp

fun written :: "cdp_event list \<Rightarrow> string list" where
  "written [] = []"
| "written (e # trace) = (case e of Wrote t \<Rightarrow> written trace @ [t] | _ \<Rightarrow> written trace)"

lemma send_written:
  "send_texts (logged ch) ts s = (ok, s') \<Longrightarrow> ok \<Longrightarrow> written (snd s') = written (snd s) @ ts"
proof (induction ts arbitrary: s)
  case (Cons t ts)
  obtain x trace where s: "s = (x, trace)" by fastforce
  obtain b x1 where b: "ch_send ch t x = (b, x1)" by fastforce
  have "send_texts (logged ch) (t # ts) s =
      (if b then send_texts (logged ch) ts (x1, Wrote t # trace) else (False, (x1, Wrote t # trace)))"
    by (simp add: s logged_def b split: bool.split)
  with Cons.prems Cons.IH [of "(x1, Wrote t # trace)"] show ?case by (simp add: s split: if_splits)
qed simp

lemma receive_written: "receive_results (logged ch) fuel n d results s = (r, s') \<Longrightarrow> written (snd s') = written (snd s)"
proof (induction fuel arbitrary: s results)
  case (Suc fuel)
  obtain x trace where s: "s = (x, trace)" by (rule prod.exhaust)
  obtain t x1 where 1: "ch_clock ch x = (t, x1)" by (rule prod.exhaust)
  obtain t2 x2 where 2: "ch_clock ch x1 = (t2, x2)" by (rule prod.exhaust)
  obtain m x3 where 3: "ch_recv ch (max (1 / 10) (d - t2)) x2 = (m, x3)" by (rule prod.exhaust)
  from Suc.prems Suc.IH [where s = "(x3, Got m # trace)"] show ?case
    unfolding receive_logged [OF 1 2 3, of fuel n results trace, folded s]
    by (auto simp: s split: if_splits option.splits json.splits)
qed simp

lemma those_nth: "those xs = Some ys \<Longrightarrow> length ys = length xs \<and> (\<forall>i < length xs. xs ! i = Some (ys ! i))"
proof (induction xs arbitrary: ys)
  case (Cons x xs)
  then show ?case by (auto split: option.splits simp: nth_Cons')
qed simp

lemma upto_nth: "i < n \<Longrightarrow> [1..int n] ! i = int i + 1"
  by (simp add: nth_upto)

text \<open>C37. A list of commands is answered as a list of results whatever the order in which the browser answers: the
  texts sent are those of the commands, numbered from one and in order, and the result in each place is that of a
  message received with the number of that command and without an error; events and foreign numbers in between are
  passed over.\<close>

theorem commands_in_order:
  assumes "cdp_commands (logged_control ch endpoint timeout repr fuel) socket cmds (s, []) = (Inr rs, s', trace)"
  shows "written trace = map (command_text repr) (numbered cmds) \<and> length rs = length cmds \<and>
    (\<forall>i < length cmds. \<exists>m. Got (Some (JObj m)) \<in> set trace \<and> json_eq_int (payload_get m ''id'') (int i + 1) \<and>
       ''error'' \<notin> fst ` set m \<and> rs ! i = (case map_of m ''result'' of None \<Rightarrow> JObj [] | Some r \<Rightarrow> r))"
proof -
  let ?texts = "map (command_text repr) (numbered cmds)"
  obtain ok s1 where 1: "ch_connect (logged ch) socket (s, []) = (ok, s1)" by (rule prod.exhaust)
  obtain ok2 s2 where 2: "send_texts (logged ch) ?texts s1 = (ok2, s2)" by (rule prod.exhaust)
  obtain t s3 where 3: "ch_clock (logged ch) s2 = (t, s3)" by (rule prod.exhaust)
  obtain q s4 where 4: "receive_results (logged ch) fuel (length cmds) (t + timeout) [] s3 = (q, s4)" by (rule prod.exhaust)
  have f: "ok" "ok2" and d: "ch_disconnect (logged ch) s4 = (s', trace)"
    and q: "\<exists>results. q = Inr results \<and> results_in_order (length cmds) results = Inr rs"
    using assms 1 2 3 4 by (auto simp: cdp_commands_def logged_control_def Let_def split: bool.splits sum.splits)
  from q obtain results where r: "q = Inr results" "results_in_order (length cmds) results = Inr rs" by blast
  have w: "written (snd s1) = []" "snd s3 = snd s2" "snd s4 = trace"
    using 1 3 d by (auto simp: logged_def split: prod.splits)
  have "written trace = ?texts"
    using send_written [OF 2 f(2)] receive_written [OF 4] w by simp
  moreover have ev: "evidence trace (length cmds) results"
    using receive_evidence [OF _ _ 4 [unfolded r(1)]] w by (simp add: evidence_def)
  have th: "those (map (map_of results) [1..int (length cmds)]) = Some rs"
    using r(2) by (auto simp: results_in_order_def split: if_splits option.splits)
  have "length rs = length cmds" using those_nth [OF th] by simp
  moreover have "\<exists>m. Got (Some (JObj m)) \<in> set trace \<and> json_eq_int (payload_get m ''id'') (int i + 1) \<and>
       ''error'' \<notin> fst ` set m \<and> rs ! i = (case map_of m ''result'' of None \<Rightarrow> JObj [] | Some r \<Rightarrow> r)"
    if "i < length cmds" for i
  proof -
    have "map_of results (int i + 1) = Some (rs ! i)" using those_nth [OF th] that by (simp add: upto_nth add.commute)
    then have "(int i + 1, rs ! i) \<in> set results" by (rule map_of_SomeD)
    with ev show ?thesis by (auto simp: evidence_def)
  qed
  ultimately show ?thesis by blast
qed

section \<open>Tabs\<close>

text \<open>The state has the pages the endpoint listed, in its order.\<close>

lemma each_tab_ids: "each_tab c ts s = (Inr rows, s') \<Longrightarrow> map ct_target_id rows = map tg_id ts \<and> (\<forall>t \<in> set ts. target_re (tg_id t))"
proof (induction ts arbitrary: s rows)
  case (Cons t ts)
  obtain r s1 where t: "tab_of c t s = (r, s1)" by fastforce
  with Cons.prems obtain tab where tab: "r = Inr tab" by (cases r) (auto simp: cdp_bind_def)
  with t have "ct_target_id tab = tg_id t \<and> target_re (tg_id t)"
    by (auto simp: tab_of_def target_commands_def cdp_target_of_def cdp_bind_def cdp_lift_def cdp_return_def cdp_raise_def read_tab_def bind_eq_Some_conv
        split: if_splits prod.splits sum.splits list.splits option.splits)
  moreover obtain q s2 where q: "each_tab c ts s1 = (q, s2)" by fastforce
  moreover from Cons.prems t tab q obtain rest where "q = Inr rest" "rows = tab # rest"
    by (cases q) (auto simp: cdp_bind_def cdp_return_def)
  ultimately show ?case using Cons.IH [of s1 rest] Cons.prems t tab by (auto simp: cdp_bind_def cdp_return_def)
qed (simp add: cdp_return_def)

text \<open>The state of the tabs names an active tab whenever there is one: it lists the pages the endpoint listed, in
  that order; with at least one page the active identifier is that of a tab marked active, and with none there is
  no active tab.\<close>

theorem state_has_active_tab:
  assumes "cdp_targets c s = (Inr ts, s1)" and "cdp_state c s = (Inr (rows, active), s')"
  shows "map ct_target_id rows = map tg_id ts \<and> (active = None \<longleftrightarrow> ts = []) \<and>
    (\<forall>i. active = Some i \<longrightarrow> (\<exists>t \<in> set rows. ct_target_id t = i \<and> ct_active t))"
proof -
  obtain q s2 where q: "each_tab c ts s1 = (q, s2)" by fastforce
  with assms obtain found where found: "q = Inr found" and st: "finish_state found = (rows, active)"
    by (cases q) (auto simp: cdp_state_def cdp_bind_def cdp_return_def)
  have ids: "map ct_target_id found = map tg_id ts" using each_tab_ids [OF q [unfolded found]] by simp
  show ?thesis
  proof (cases "filter ct_active found")
    case Nil
    then show ?thesis using st ids by (cases found) (auto simp: finish_state_def)
  next
    case (Cons f fs)
    then have a: "rows = found" "active = Some (ct_target_id (last (f # fs)))" using st by (auto simp: finish_state_def)
    have l: "last (f # fs) \<in> set (filter ct_active found)" unfolding Cons [symmetric] using Cons last_in_set by (metis list.distinct(1))
    then have "found \<noteq> []" by auto
    with ids have "ts \<noteq> []" by auto
    with l a ids show ?thesis by auto
  qed
qed

text \<open>The last tab cannot be closed: when the endpoint lists at most one page, closing a tab changes nothing, as
  the operation only lists the pages, looks the tab up, and refuses.\<close>

theorem last_tab_kept:
  assumes "cdp_targets c s = (Inr ts, s1)" and "length ts \<le> 1" and "cdp_target_of c i s1 = (r, s2)"
  shows "cdp_close c i s =
    ((case r of Inl e \<Rightarrow> Inl e | Inr _ \<Rightarrow> Inl (Cdp (Last_tab ''The last browser tab cannot be closed''))), s2)"
  using assms by (auto simp: cdp_close_def cdp_bind_def cdp_raise_def split: sum.split)

section \<open>Every operation ends\<close>

text \<open>A clock for Chromium: \<open>time_of\<close> is what it shows, nothing turns it back, a pause advances it by its length
  and the reception of a message by at least \<open>tick\<close>.\<close>

definition advancing :: "'s chromium \<Rightarrow> ('s \<Rightarrow> rat) \<Rightarrow> rat \<Rightarrow> bool" where
  "advancing ch time_of tick \<longleftrightarrow>
     0 < tick \<and> tick \<le> 1 / 20 \<and>
     (\<forall>s. (\<forall>verb url. time_of s \<le> time_of (snd (ch_http ch verb url s))) \<and>
          (\<forall>w. time_of s + tick \<le> time_of (snd (ch_recv ch w s))) \<and>
          fst (ch_clock ch s) = time_of s \<and> time_of s \<le> time_of (snd (ch_clock ch s)) \<and>
          (\<forall>d. time_of s + d \<le> time_of (ch_sleep ch d s)))"

definition settles :: "('s, 'a) cdp \<Rightarrow> bool" where
  "settles m \<longleftrightarrow> (\<forall>s. fst (m s) \<noteq> Inl Cdp_fuel)"

lemma settles_bind: "settles m \<Longrightarrow> (\<And>x. settles (f x)) \<Longrightarrow> settles (cdp_bind m f)"
  unfolding settles_def cdp_bind_def by (auto split: prod.split sum.split) (metis fst_conv)+

lemma settles_pure: "settles (cdp_return x)" "settles (cdp_raise e)" "settles (cdp_lift r)"
  by (simp_all add: settles_def cdp_return_def cdp_raise_def cdp_lift_def split: option.split)

lemma settles_request: "settles (cdp_request c verb path)"
  by (auto simp: settles_def cdp_request_def split: prod.split cdp_reply.split)

lemma settles_if: "settles x \<Longrightarrow> settles y \<Longrightarrow> settles (if b then x else y)"
  by simp

lemma settles_cases:
  "(\<And>x. settles (f x)) \<Longrightarrow> settles g \<Longrightarrow> settles (case opt of None \<Rightarrow> g | Some x \<Rightarrow> f x)"
  "(\<And>x xs. settles (f' x xs)) \<Longrightarrow> settles g' \<Longrightarrow> settles (case xs of [] \<Rightarrow> g' | x # xs \<Rightarrow> f' x xs)"
  by (cases opt; simp) (cases xs; simp)

lemmas settles_basic = settles_bind settles_pure settles_request settles_if settles_cases

lemma settles_json: "settles (cdp_json c path verb)"
  unfolding cdp_json_def by (intro settles_basic)

lemma settles_targets: "settles (cdp_targets c)"
  unfolding cdp_targets_def by (intro settles_basic settles_json) (auto split: json.split intro: settles_pure)

lemma settles_target: "settles (cdp_target_of c i)"
  unfolding cdp_target_of_def by (intro settles_basic settles_targets)

lemma settles_first: "settles (first_result rs)"
  by (cases rs) (simp_all add: first_result_def settles_pure)

lemma step_down:
  fixes k :: nat and tick :: rat
  assumes "d - a \<le> tick * of_nat k" and "a < d" and "a + tick \<le> b"
  shows "\<exists>j. k = Suc j \<and> d - b \<le> tick * of_nat j"
  using assms by (cases k) (auto simp: algebra_simps)

lemma receive_settles:
  assumes "advancing ch time_of tick" and "d - time_of s \<le> tick * of_nat k" and "k < fuel"
  shows "fst (receive_results ch fuel n d results s) \<noteq> Inl Cdp_fuel"
  using assms(2,3)
proof (induction fuel arbitrary: s k results)
  case (Suc fuel)
  obtain t s1 where 1: "ch_clock ch s = (t, s1)" by (rule prod.exhaust)
  obtain t2 s2 where 2: "ch_clock ch s1 = (t2, s2)" by (rule prod.exhaust)
  obtain m s3 where 3: "ch_recv ch (max (1 / 10) (d - t2)) s2 = (m, s3)" by (rule prod.exhaust)
  have "time_of s \<le> time_of (snd (ch_clock ch s))" "time_of s1 \<le> time_of (snd (ch_clock ch s1))"
    "time_of s2 + tick \<le> time_of (snd (ch_recv ch (max (1 / 10) (d - t2)) s2))" "fst (ch_clock ch s) = time_of s"
    using assms(1) unfolding advancing_def by blast+
  then have "t = time_of s" "time_of s + tick \<le> time_of s3" using 1 2 3 by simp_all
  with Suc.prems have "fst (receive_results ch fuel n d results' s3) \<noteq> Inl Cdp_fuel" if "t < d" for results'
    using step_down [of d "time_of s" tick k "time_of s3"] Suc.IH [of s3] that by auto
  then show ?case using 1 2 3 by (auto split: option.split json.split)
qed simp

lemma wait_settles:
  assumes "advancing (cc_chromium c) time_of tick" and "d - time_of s \<le> tick * of_nat k" and "k < fuel"
  shows "fst (wait_for_url c fuel i u d s) \<noteq> Inl Cdp_fuel \<and> fst (wait_listed c fuel i d s) \<noteq> Inl Cdp_fuel \<and>
    fst (wait_closed c fuel i d s) \<noteq> Inl Cdp_fuel"
  using assms(2,3)
proof (induction fuel arbitrary: s k)
  case (Suc fuel)
  let ?ch = "cc_chromium c"
  obtain t s1 where 1: "ch_clock ?ch s = (t, s1)" by (rule prod.exhaust)
  obtain q s2 where 2: "cdp_targets c s1 = (q, s2)" by (rule prod.exhaust)
  have "time_of s \<le> time_of (snd (ch_clock ?ch s))" "fst (ch_clock ?ch s) = time_of s"
    "time_of s2 + 1 / 20 \<le> time_of (ch_sleep ?ch (1 / 20) s2)" and tick: "tick \<le> 1 / 20"
    using assms(1) unfolding advancing_def by blast+
  moreover have "time_of s1 \<le> time_of s2"
  proof -
    obtain r s3 where h: "ch_http ?ch ''GET'' (cc_endpoint c @ ''/json/list'') s1 = (r, s3)" by (rule prod.exhaust)
    with 2 have "s2 = s3"
      by (auto simp: cdp_targets_def cdp_json_def cdp_request_def cdp_bind_def cdp_return_def cdp_raise_def
          split: cdp_reply.splits option.splits json.splits)
    moreover have "time_of s1 \<le> time_of (snd (ch_http ?ch ''GET'' (cc_endpoint c @ ''/json/list'') s1))"
      using assms(1) unfolding advancing_def by blast
    ultimately show ?thesis using h by simp
  qed
  ultimately have t: "t = time_of s" "time_of s + tick \<le> time_of (ch_sleep ?ch (1 / 20) s2)" using 1 by auto
  have q: "q \<noteq> Inl Cdp_fuel" using settles_targets [of c] 2 unfolding settles_def by (metis fst_conv)
  have "t < d \<Longrightarrow> fst (wait_for_url c fuel i u d (ch_sleep ?ch (1 / 20) s2)) \<noteq> Inl Cdp_fuel \<and>
      fst (wait_listed c fuel i d (ch_sleep ?ch (1 / 20) s2)) \<noteq> Inl Cdp_fuel \<and>
      fst (wait_closed c fuel i d (ch_sleep ?ch (1 / 20) s2)) \<noteq> Inl Cdp_fuel"
    using step_down [OF Suc.prems(1) _ t(2)] Suc.IH Suc.prems(2) t(1) by auto
  with 1 2 q show ?case by (auto split: sum.split)
qed simp

definition enough_fuel :: "'s cdp_control \<Rightarrow> ('s \<Rightarrow> rat) \<Rightarrow> rat \<Rightarrow> bool" where
  "enough_fuel c time_of tick \<longleftrightarrow>
     advancing (cc_chromium c) time_of tick \<and> cc_timeout c = 8 \<and> 8 / tick + 1 < of_nat (cc_fuel c)"

lemma enough_fuelE:
  assumes "enough_fuel c time_of tick"
  obtains k where "advancing (cc_chromium c) time_of tick" "k < cc_fuel c" "cc_timeout c = 8" "8 \<le> tick * of_nat k"
proof -
  have a: "advancing (cc_chromium c) time_of tick" "0 < tick" "cc_timeout c = 8" "8 / tick + 1 < of_nat (cc_fuel c)"
    using assms by (auto simp: enough_fuel_def advancing_def)
  let ?k = "nat \<lceil>8 / tick\<rceil>"
  have p: "0 < 8 / tick" using a(2) by simp
  have up: "8 / tick \<le> of_nat ?k" by (rule of_nat_ceiling)
  have "(of_nat ?k :: rat) < 8 / tick + 1" using p ceiling_correct [of "8 / tick"] by (simp add: of_nat_nat)
  with a(4) have "(of_nat ?k :: rat) < of_nat (cc_fuel c)" by linarith
  then have "?k < cc_fuel c" by simp
  moreover have "8 \<le> tick * of_nat ?k" using up a(2) unfolding pos_divide_le_eq [OF a(2)] by (simp only: mult.commute)
  ultimately show ?thesis using a that by blast
qed

lemma settles_commands:
  assumes "enough_fuel c time_of tick"
  shows "settles (cdp_commands c u cmds)"
  unfolding settles_def
proof
  fix s
  let ?ch = "cc_chromium c"
  from assms obtain k where k: "advancing ?ch time_of tick" "k < cc_fuel c" "cc_timeout c = 8" "8 \<le> tick * of_nat k"
    by (rule enough_fuelE)
  obtain ok s1 where 1: "ch_connect ?ch u s = (ok, s1)" by (rule prod.exhaust)
  obtain ok2 s2 where 2: "send_texts ?ch (map (command_text (cc_float_repr c)) (numbered cmds)) s1 = (ok2, s2)" by (rule prod.exhaust)
  obtain t s3 where 3: "ch_clock ?ch s2 = (t, s3)" by (rule prod.exhaust)
  obtain q s4 where 4: "receive_results ?ch (cc_fuel c) (length cmds) (t + 8) [] s3 = (q, s4)" by (rule prod.exhaust)
  have "fst (ch_clock ?ch s2) = time_of s2" "time_of s2 \<le> time_of (snd (ch_clock ?ch s2))"
    using k(1) unfolding advancing_def by blast+
  then have "t + 8 - time_of s3 \<le> tick * of_nat k" using 3 k(4) by simp
  from receive_settles [OF k(1) this k(2), of "length cmds" "[]"] 4 have "q \<noteq> Inl Cdp_fuel" by simp
  moreover have "results_in_order n rs \<noteq> Inl Cdp_fuel" for n rs
    by (simp add: results_in_order_def split: option.split)
  ultimately show "fst (cdp_commands c u cmds s) \<noteq> Inl Cdp_fuel"
    using 1 2 3 4 k(3) by (auto simp: cdp_commands_def Let_def split: bool.split sum.split)
qed

lemma settles_wait:
  assumes "enough_fuel c time_of tick" and "d \<le> 8" and "\<And>x. settles (f x)"
  shows "settles (cdp_bind (cdp_now c) (\<lambda>now. cdp_bind (wait_for_url c (cc_fuel c) i u (now + d)) f))"
    "settles (cdp_bind (cdp_now c) (\<lambda>now. cdp_bind (wait_listed c (cc_fuel c) i (now + d)) f))"
    "settles (cdp_bind (cdp_now c) (\<lambda>now. cdp_bind (wait_closed c (cc_fuel c) i (now + d)) f))"
proof -
  from assms(1) obtain k where k: "advancing (cc_chromium c) time_of tick" "k < cc_fuel c" "8 \<le> tick * of_nat k"
    by (rule enough_fuelE)
  have w: "fst (wait_for_url c (cc_fuel c) i u (t + d) s1) \<noteq> Inl Cdp_fuel \<and> fst (wait_listed c (cc_fuel c) i (t + d) s1) \<noteq> Inl Cdp_fuel \<and>
      fst (wait_closed c (cc_fuel c) i (t + d) s1) \<noteq> Inl Cdp_fuel"
    if "ch_clock (cc_chromium c) s = (t, s1)" for s t s1
  proof -
    have "fst (ch_clock (cc_chromium c) s) = time_of s" "time_of s \<le> time_of (snd (ch_clock (cc_chromium c) s))"
      using k(1) unfolding advancing_def by blast+
    with that k(3) assms(2) have "t + d - time_of s1 \<le> tick * of_nat k" by simp
    from wait_settles [OF k(1) this k(2)] show ?thesis .
  qed
  have b: "settles (cdp_bind (cdp_now c) (\<lambda>now. cdp_bind (g now) f))"
    if "\<And>s t s1. ch_clock (cc_chromium c) s = (t, s1) \<Longrightarrow> fst (g t s1) \<noteq> Inl Cdp_fuel" for g
    using that assms(3) unfolding settles_def cdp_bind_def cdp_now_def by (auto split: prod.split sum.split) (metis fst_conv)+
  show "settles (cdp_bind (cdp_now c) (\<lambda>now. cdp_bind (wait_for_url c (cc_fuel c) i u (now + d)) f))"
    "settles (cdp_bind (cdp_now c) (\<lambda>now. cdp_bind (wait_listed c (cc_fuel c) i (now + d)) f))"
    "settles (cdp_bind (cdp_now c) (\<lambda>now. cdp_bind (wait_closed c (cc_fuel c) i (now + d)) f))"
    by (rule b; use w in blast)+
qed

lemma settles_channel:
  assumes "enough_fuel c time_of tick"
  shows "settles (target_commands c i cmds)" "settles (browser_commands c cmds)" "settles (cdp_state c)"
proof -
  note com = settles_commands [OF assms]
  show t: "settles (target_commands c i cmds)" for i cmds
    unfolding target_commands_def by (intro settles_basic settles_target com)
  show "settles (browser_commands c cmds)"
    unfolding browser_commands_def by (intro settles_basic settles_json) (auto split: json.split option.split intro: settles_pure com)
  have "settles (each_tab c ts)" for ts
    by (induction ts) (auto intro!: settles_basic t simp: tab_of_def)
  then show "settles (cdp_state c)"
    unfolding cdp_state_def by (intro settles_basic settles_targets)
qed

text \<open>C38. Every operation on the tabs comes to an end: under a clock that a pause advances by its length and a
  received message by at least a tick, each of the loops that wait for the browser leaves within eight seconds' worth of
  ticks and two more rounds, whatever the browser answers, so the operation returns a state or raises an exception of the class.\<close>

theorem operations_end:
  assumes "cdp_browser_control ch repr fuel endpoint = Inr c" and "advancing ch time_of tick" and "8 / tick + 1 < of_nat fuel"
  shows "fst (tab_operation_run c operation s) \<noteq> Inl Cdp_fuel"
proof -
  have e: "enough_fuel c time_of tick" and eight: "cc_timeout c = 8"
    using assms by (auto simp: cdp_browser_control_def enough_fuel_def split: if_splits)
  note channel = settles_channel [OF e] and wait = settles_wait [OF e]
  have activate: "settles (cdp_activate c i)" for i
    unfolding cdp_activate_def by (intro settles_basic settles_target channel)
  have "settles (tab_operation_run c operation)"
  proof (cases operation)
    case (Tab_new url)
    have "settles (cdp_new_tab c url)"
      unfolding cdp_new_tab_def eight
      by (intro settles_bind channel settles_first settles_pure) (auto split: json.split intro!: settles_pure wait activate)
    with Tab_new show ?thesis by simp
  next
    case (Tab_close i)
    have "settles (cdp_close c i)"
      unfolding cdp_close_def eight
      by (intro settles_basic settles_targets settles_target wait channel activate) simp_all
    with Tab_close show ?thesis by simp
  next
    case (Tab_navigate i url)
    have "settles (cdp_navigate c i url)"
      unfolding cdp_navigate_def by (intro settles_bind channel wait) simp_all
    with Tab_navigate show ?thesis by simp
  qed (auto simp: cdp_history_def cdp_reload_def intro!: settles_basic settles_first channel activate)
  then show ?thesis by (simp add: settles_def)
qed

section \<open>The endpoint of a container\<close>

lemma nat_str_short: "n < 10 ^ Suc k \<Longrightarrow> length (nat_str n) \<le> Suc k"
proof (induction k arbitrary: n)
  case (Suc k)
  then have "n div 10 < 10 ^ Suc k" by simp
  from Suc.IH [OF this] show ?case by (subst nat_str.simps) simp
qed (subst nat_str.simps, simp)

lemma loopback_local_url:
  assumes "1 \<le> p" and "p \<le> 65535"
  shows "loopback_endpoint (local_url ''127.0.0.1'' p)"
proof -
  have "length (nat_str (nat p)) \<le> Suc 4" by (rule nat_str_short) (use assms in simp)
  moreover have "nat_str n \<noteq> []" for n by (subst nat_str.simps) simp
  ultimately show ?thesis using assms nat_str_digits [of "nat p"]
    by (auto simp: loopback_endpoint_def local_url_def int_str_def startswith_def Suc_le_eq)
qed

text \<open>The class accepts every endpoint the runner reads, so only the missing port of a container that is gone, an
  exception the routes do not expect, keeps an operation from starting.\<close>

lemma endpoint_loopback: "cdp_endpoint run session_id st = (Inr e, st') \<Longrightarrow> loopback_endpoint e"
  by (auto simp: cdp_endpoint_def give_def and_then_def loopback_local_url split: if_splits prod.splits sum.splits option.splits)

lemma gone_container_unexpected:
  assumes "valid_name session_id" and "run (length (pd_commands ps)) [''podman'', ''port'', container_name session_id, ''9223/tcp''] = Run_failed m"
  shows "browser_result (case fst (podman_browser run ch repr fuel session_id operation (ps, s)) of Inl (Cdp e) \<Rightarrow> Inl e | Inl Cdp_fuel \<Rightarrow> Inl Control_failed | Inr x \<Rightarrow> Inr x) =
    Inl Server_error"
  using assms by (simp add: podman_browser_def cdp_endpoint_def and_then_def podman_run_def browser_result_def)

section \<open>A browser with one page\<close>

definition demo_target :: string where
  "demo_target = ''0123456789ABCDEF0123456789ABCDEF''"

definition demo_page :: json where
  "demo_page = JObj [(''type'', JStr ''page''), (''id'', JStr demo_target), (''webSocketDebuggerUrl'', JStr ''ws:'')]"

definition demo_chromium :: "(rat \<times> json list) chromium" where
  "demo_chromium =
     \<lparr>ch_http = (\<lambda>verb url s. (Reply (Some (JArr [demo_page])), s)), ch_connect = (\<lambda>url s. (True, s)), ch_send = (\<lambda>t s. (True, s)),
      ch_recv = (\<lambda>w (t, q). (case q of [] \<Rightarrow> (None, t + 1 / 20, []) | m # r \<Rightarrow> (Some m, t + 1 / 20, r))),
      ch_disconnect = (\<lambda>s. s), ch_clock = (\<lambda>(t, q). (t, t, q)), ch_sleep = (\<lambda>d (t, q). (t + d, q))\<rparr>"

lemma demo_advancing: "advancing demo_chromium fst (1 / 20)"
  by (auto simp: advancing_def demo_chromium_def split: list.split)

theorem operations_end_witness:
  "\<exists>c. cdp_browser_control demo_chromium (\<lambda>_. []) 162 ''http://127.0.0.1:9'' = Inr c \<and>
     fst (tab_operation_run c (Tab_close demo_target) (0, [])) \<noteq> Inl Cdp_fuel"
proof -
  obtain c where c: "cdp_browser_control demo_chromium (\<lambda>_. []) 162 ''http://127.0.0.1:9'' = Inr c"
    by (simp add: cdp_browser_control_def loopback_endpoint_def startswith_def is_digit_def char_in_def)
  have "fst (tab_operation_run c (Tab_close demo_target) (0, [])) \<noteq> Inl Cdp_fuel"
    by (rule operations_end [OF c demo_advancing]) simp
  with c show ?thesis by blast
qed

definition demo_answers :: "json list" where
  "demo_answers =
     [JObj [(''id'', JInt 2), (''result'', JStr ''b'')], JObj [(''event'', JNull)], JObj [(''id'', JInt 1), (''result'', JStr ''a'')]]"

theorem commands_in_order_witness:
  "\<exists>s' trace. cdp_commands (logged_control demo_chromium ''e'' 8 (\<lambda>_. []) 9) ''ws:'' [(''x'', JNull), (''y'', JNull)] ((0, demo_answers), []) =
      (Inr [JStr ''a'', JStr ''b''], s', trace) \<and>
    written trace = map (command_text (\<lambda>_. [])) (numbered [(''x'', JNull), (''y'', JNull)])"
proof -
  have num: "numbered [(''x'', JNull), (''y'', JNull)] = [(1, ''x'', JNull), (2, ''y'', JNull)]" by (simp add: numbered_def)
  have "fst (cdp_commands (logged_control demo_chromium ''e'' 8 (\<lambda>_. []) 9) ''ws:'' [(''x'', JNull), (''y'', JNull)] ((0, demo_answers), [])) =
      Inr [JStr ''a'', JStr ''b'']"
    by (simp add: cdp_commands_def logged_control_def logged_def demo_chromium_def num demo_answers_def answered_def payload_get_def
        results_in_order_def upto.simps eval_nat_numeral Let_def)
  then obtain s' trace where r: "cdp_commands (logged_control demo_chromium ''e'' 8 (\<lambda>_. []) 9) ''ws:''
      [(''x'', JNull), (''y'', JNull)] ((0, demo_answers), []) = (Inr [JStr ''a'', JStr ''b''], s', trace)"
    by (metis prod.collapse)
  from commands_in_order [OF r] r show ?thesis by blast
qed

definition tab_answers :: "json list" where
  "tab_answers =
     [JObj [(''id'', JInt 2), (''result'', JObj [(''currentIndex'', JInt 1), (''entries'', JArr [JNull, JNull])])],
      JObj [(''id'', JInt 1), (''result'', JObj [(''result'', JObj [(''value'', JObj [(''focus'', JBool True)])])])]]"

lemma demo_endpoint:
  "cdp_browser_control (logged demo_chromium) (\<lambda>_. []) 9 ''http://127.0.0.1:9'' =
   Inr (logged_control demo_chromium ''http://127.0.0.1:9'' 8 (\<lambda>_. []) 9)"
  by (simp add: cdp_browser_control_def logged_control_def loopback_endpoint_def startswith_def is_digit_def char_in_def)

lemma demo_opens:
  "Opened ''ws:'' \<in> set (snd (run_operations (logged_control demo_chromium ''http://127.0.0.1:9'' 8 (\<lambda>_. []) 9) [Tab_state] ((0, tab_answers), [])))"
  by (simp add: run_operations_def cdp_state_def cdp_targets_def cdp_json_def cdp_request_def cdp_bind_def cdp_return_def cdp_raise_def
      cdp_lift_def tab_of_def target_commands_def cdp_target_of_def logged_control_def logged_def demo_chromium_def demo_page_def demo_target_def
      target_re_def upper_hex_digit_def is_digit_def char_in_def page_target_def List.map_filter_simps tab_commands_def numbered_def
      cdp_commands_def tab_answers_def answered_def payload_get_def results_in_order_def upto.simps eval_nat_numeral Let_def read_tab_def
      obj_get_def json_len_def or_text_def finish_state_def del: json_text.simps)

theorem control_confined_witness:
  "\<exists>s' later earlier.
     run_operations (logged_control demo_chromium ''http://127.0.0.1:9'' 8 (\<lambda>_. []) 9) [Tab_state] ((0, tab_answers), []) =
       (s', later @ Opened ''ws:'' # earlier) \<and>
     was_offered earlier ''ws:''"
proof -
  obtain s' trace where r: "run_operations (logged_control demo_chromium ''http://127.0.0.1:9'' 8 (\<lambda>_. []) 9) [Tab_state] ((0, tab_answers), []) = (s', trace)"
    by (rule prod.exhaust)
  with demo_opens have "Opened ''ws:'' \<in> set trace" by simp
  then obtain later earlier where t: "trace = later @ Opened ''ws:'' # earlier" by (auto dest: split_list)
  from control_confined [OF demo_endpoint r] t have "was_offered earlier ''ws:''" by blast
  with r t show ?thesis by blast
qed

end
