(* ===== verification/Relays.thy ===== *)
theory Relays
  imports Podman_Runner Targets
begin

text \<open>
  The routes of \<open>cloudbrowser/app.py\<close> that pass traffic on: \<open>viewer_http\<close> and \<open>viewer_websocket\<close>, which show a
  member the browser of a session, and \<open>local_browser_tunnel\<close>, which connects a local browser to a public target.
  What a route decides before it passes anything on is a function; the traffic is a fold over the events in the
  order in which the event loop sees them. The HTTP client, the policy's resolver and the sockets are arguments or
  events; \<open>None\<close> as the decoded first frame is the exception of \<open>receive_json\<close> that the route expects.
\<close>

section \<open>The viewer over HTTP\<close>

record viewer_request =
  vr_verb :: string
  vr_asset_path :: string
  vr_query :: string
  vr_headers :: "(string \<times> string) list"
  vr_cookies :: "(string \<times> string) list"
  vr_body :: string

record upstream_request =
  ur_verb :: string
  ur_url :: string
  ur_headers :: "(string \<times> string) list"
  ur_body :: string

text \<open>\<open>Up_failed\<close> is an \<open>httpx.HTTPError\<close>, \<open>Up_raised\<close> any other exception. The headers of an answer are looked up
  by their name in lower case.\<close>

datatype upstream_reply = Up_failed | Up_raised | Up_answer int "string \<Rightarrow> string option" string

record viewer_response =
  vp_status :: int
  vp_headers :: "(string \<times> string) list"
  vp_body :: string

definition viewer_cookie :: "string \<Rightarrow> string" where
  "viewer_cookie session_id = ''cb_viewer_'' @ session_id"

definition query_part :: "string \<Rightarrow> string" where
  "query_part query = (if query = [] then [] else CHR ''?'' # query)"

definition FORWARDED_HEADERS :: "string list" where
  "FORWARDED_HEADERS = [''accept'', ''content-type'', ''if-modified-since'', ''if-none-match'', ''range'']"

definition RETURNED_HEADERS :: "string list" where
  "RETURNED_HEADERS =
     [''accept-ranges'', ''cache-control'', ''content-disposition'', ''content-range'', ''content-type'', ''etag'',
      ''last-modified'']"

definition forwarded_headers :: "(string \<times> string) list \<Rightarrow> (string \<times> string) list" where
  "forwarded_headers headers = dict_of_pairs (filter (\<lambda>(name, _). lower_str name \<in> set FORWARDED_HEADERS) headers)"

definition returned_headers :: "(string \<Rightarrow> string option) \<Rightarrow> (string \<times> string) list" where
  "returned_headers headers =
     List.map_filter (\<lambda>name. map_option (\<lambda>v. (name, v)) (headers name)) RETURNED_HEADERS"

definition upstream_request_of :: "string \<Rightarrow> viewer_request \<Rightarrow> upstream_request" where
  "upstream_request_of endpoint r =
     \<lparr>ur_verb = vr_verb r, ur_url = endpoint @ CHR ''/'' # vr_asset_path r @ query_part (vr_query r),
      ur_headers = forwarded_headers (vr_headers r), ur_body = vr_body r\<rparr>"

text \<open>The request that was sent to the browser, if any, and the outcome.\<close>

definition viewer_http ::
  "signed_loads \<Rightarrow> (string \<Rightarrow> pyfloat option) \<Rightarrow> rat \<Rightarrow> (upstream_request \<Rightarrow> upstream_reply) \<Rightarrow> string \<Rightarrow> viewer_request \<Rightarrow> db \<Rightarrow>
   upstream_request option \<times> (http_error + viewer_response)" where
  "viewer_http loads parse_float now proxy session_id r d =
     (case viewer_endpoint loads parse_float now session_id (map_of (vr_cookies r) (viewer_cookie session_id)) d of
        Inl e \<Rightarrow> (None, Inl e)
      | Inr endpoint \<Rightarrow>
          (let request = upstream_request_of endpoint r in
           (Some request,
            (case proxy request of
               Up_failed \<Rightarrow> Inl (Http 502 ''Browser upstream request failed'')
             | Up_raised \<Rightarrow> Inl Server_error
             | Up_answer status headers body \<Rightarrow>
                 Inr \<lparr>vp_status = status, vp_headers = returned_headers headers, vp_body = body\<rparr>))))"

section \<open>The viewer over a websocket\<close>

datatype viewer_opening = Viewer_refused int | Viewer_raised | Viewer_opened string

definition websocket_url :: "string \<Rightarrow> string" where
  "websocket_url endpoint = (if startswith endpoint ''http://'' then ''ws://'' @ drop 7 endpoint else endpoint)"

definition viewer_websocket_open ::
  "signed_loads \<Rightarrow> (string \<Rightarrow> pyfloat option) \<Rightarrow> rat \<Rightarrow> bool \<Rightarrow> string option \<Rightarrow> string option \<Rightarrow> (string \<times> string) list \<Rightarrow> string \<Rightarrow>
   string \<Rightarrow> string \<Rightarrow> db \<Rightarrow> viewer_opening" where
  "viewer_websocket_open loads parse_float now cloud_video public_origin origin cookies session_id asset_path query d =
     (if \<not> cloud_video then Viewer_refused 4410
      else if (case public_origin of None \<Rightarrow> False | Some p \<Rightarrow> p \<noteq> [] \<and> origin \<noteq> Some p) then Viewer_refused 4403
      else
        (case authorize_viewer loads parse_float now session_id (map_of cookies (viewer_cookie session_id)) d of
           Inl (Http _ _) \<Rightarrow> Viewer_refused 4401
         | Inl _ \<Rightarrow> Viewer_raised
         | Inr b \<Rightarrow>
             (case bs_endpoint b of
                None \<Rightarrow> Viewer_refused 1011
              | Some endpoint \<Rightarrow>
                  if \<not> startswith endpoint ''http://127.0.0.1:'' then Viewer_refused 1011
                  else Viewer_opened (websocket_url endpoint @ CHR ''/'' # asset_path @ query_part query))))"

datatype frame = Text_frame string | Bytes_frame string

text \<open>What happens on one of the two connections. A flag that is false says that handing the frame to the other
  side raises: the browser has closed its connection, or the client is gone. A frame of the client that has neither
  text nor bytes is \<open>None\<close>.\<close>

datatype viewer_event =
  From_client "frame option" bool | Client_left | From_browser frame bool | Browser_left | Browser_failed

record viewer_relay =
  vw_to_browser :: "frame list"
  vw_to_client :: "frame list"
  vw_client_finished :: bool
  vw_browser_finished :: bool
  vw_raised :: bool

definition new_viewer_relay :: viewer_relay where
  "new_viewer_relay =
     \<lparr>vw_to_browser = [], vw_to_client = [], vw_client_finished = False, vw_browser_finished = False, vw_raised = False\<rparr>"

text \<open>\<open>asyncio.gather\<close> returns when both directions have returned, or raises when one of them raises.\<close>

definition viewer_over :: "viewer_relay \<Rightarrow> bool" where
  "viewer_over v \<longleftrightarrow> vw_raised v \<or> vw_client_finished v \<and> vw_browser_finished v"

fun viewer_step :: "viewer_event \<Rightarrow> viewer_relay \<Rightarrow> viewer_relay" where
  "viewer_step (From_client frame ok) v =
     (if viewer_over v \<or> vw_client_finished v then v
      else (case frame of
              None \<Rightarrow> v
            | Some f \<Rightarrow> if ok then v\<lparr>vw_to_browser := vw_to_browser v @ [f]\<rparr> else v\<lparr>vw_raised := True\<rparr>))"
| "viewer_step Client_left v = (if viewer_over v then v else v\<lparr>vw_client_finished := True\<rparr>)"
| "viewer_step (From_browser f ok) v =
     (if viewer_over v \<or> vw_browser_finished v then v
      else if ok then v\<lparr>vw_to_client := vw_to_client v @ [f]\<rparr> else v\<lparr>vw_raised := True\<rparr>)"
| "viewer_step Browser_left v = (if viewer_over v then v else v\<lparr>vw_browser_finished := True\<rparr>)"
| "viewer_step Browser_failed v = (if viewer_over v \<or> vw_browser_finished v then v else v\<lparr>vw_raised := True\<rparr>)"

definition viewer_run :: "viewer_event list \<Rightarrow> viewer_relay" where
  "viewer_run events = fold viewer_step events new_viewer_relay"

section \<open>The tunnel of a local browser\<close>

datatype tunnel_opening = Tunnel_refused "string option" int | Tunnel_connect resolved_target

text \<open>\<open>request\<close> is the first frame: \<open>None\<close> the exceptions of \<open>receive_json\<close> the route expects. A truth value counts as
  the integer it is equal to.\<close>

definition tunnel_target :: "json option \<Rightarrow> (string \<times> int) option" where
  "tunnel_target request =
     (case request of
        Some (JObj m) \<Rightarrow>
          (case payload_get m ''host'' of
             JStr host \<Rightarrow>
               if 253 < length host then None
               else (case payload_get m ''port'' of JInt p \<Rightarrow> Some (host, p) | JBool b \<Rightarrow> Some (host, if b then 1 else 0) | _ \<Rightarrow> None)
           | _ \<Rightarrow> None)
      | _ \<Rightarrow> None)"

text \<open>The origin is compared only when both sides name one. Every exception of the policy is one of the two the route
  expects.\<close>

definition local_tunnel_open ::
  "token_loads \<Rightarrow> token_loads \<Rightarrow> (string \<Rightarrow> string option) \<Rightarrow> int \<Rightarrow> resolver \<Rightarrow> instant \<Rightarrow> string option \<Rightarrow> string option \<Rightarrow>
   string option \<Rightarrow> json option \<Rightarrow> db \<Rightarrow> tunnel_opening" where
  "local_tunnel_open api_loads native_loads punycode af_inet6 resolver now public_origin origin authorization request d =
     (let same = (case (public_origin, origin) of (Some p, Some q) \<Rightarrow> p = [] \<or> q = [] \<or> p = q | _ \<Rightarrow> True) in
      if \<not> same then Tunnel_refused None 4403
      else
        (case bearer_user api_loads native_loads now d authorization of
           None \<Rightarrow> Tunnel_refused None 4401
         | Some u \<Rightarrow>
             (case tunnel_target request of
                None \<Rightarrow> Tunnel_refused (Some ''target denied'') 4403
              | Some (host, port) \<Rightarrow>
                  (case control_resolve punycode af_inet6 [80, 443] resolver host port of
                     Inl _ \<Rightarrow> Tunnel_refused (Some ''target denied'') 4403
                   | Inr target \<Rightarrow> Tunnel_connect target))))"

text \<open>What the client is told, and the code the websocket is closed with; \<open>reachable\<close> says whether the connection to the
  target opens within its ten seconds.\<close>

definition tunnel_greeting :: "(resolved_target \<Rightarrow> bool) \<Rightarrow> tunnel_opening \<Rightarrow> (string \<times> json) list list \<times> int option" where
  "tunnel_greeting reachable opening =
     (let failed = (\<lambda>m. [(''status'', JStr ''error''), (''message'', JStr m)]) in
      case opening of
        Tunnel_refused m code \<Rightarrow> ((case m of None \<Rightarrow> [] | Some t \<Rightarrow> [failed t]), Some code)
      | Tunnel_connect t \<Rightarrow>
          if reachable t then ([[(''status'', JStr ''connected'')]], None) else ([failed ''target unavailable''], Some 1011))"

text \<open>The traffic. \<open>ok\<close> is false when the other side's socket raises.\<close>

datatype tunnel_event =
  Client_frame "string option" bool | Client_disconnected | Target_chunk string bool | Target_eof | Target_failed

record local_relay =
  lr_to_target :: string
  lr_to_client :: string
  lr_close_codes :: "int list"
  lr_finished :: bool

definition new_local_relay :: local_relay where
  "new_local_relay = \<lparr>lr_to_target = [], lr_to_client = [], lr_close_codes = [], lr_finished = False\<rparr>"

definition MAX_CLIENT_FRAME :: nat where
  "MAX_CLIENT_FRAME = 262144"

text \<open>The first direction that returns or raises finishes the relay.\<close>

fun local_step :: "tunnel_event \<Rightarrow> local_relay \<Rightarrow> local_relay" where
  "local_step (Client_frame payload ok) r =
     (if lr_finished r then r
      else
        (case payload of
           None \<Rightarrow> r\<lparr>lr_close_codes := lr_close_codes r @ [1003], lr_finished := True\<rparr>
         | Some data \<Rightarrow>
             if MAX_CLIENT_FRAME < length data
             then r\<lparr>lr_close_codes := lr_close_codes r @ [1009], lr_finished := True\<rparr>
             else if ok then r\<lparr>lr_to_target := lr_to_target r @ data\<rparr>
             else r\<lparr>lr_finished := True\<rparr>))"
| "local_step Client_disconnected r = (if lr_finished r then r else r\<lparr>lr_finished := True\<rparr>)"
| "local_step (Target_chunk data ok) r =
     (if lr_finished r then r
      else if ok then r\<lparr>lr_to_client := lr_to_client r @ data\<rparr>
      else r\<lparr>lr_finished := True\<rparr>)"
| "local_step Target_eof r = (if lr_finished r then r else r\<lparr>lr_finished := True\<rparr>)"
| "local_step Target_failed r = (if lr_finished r then r else r\<lparr>lr_finished := True\<rparr>)"

definition local_run :: "tunnel_event list \<Rightarrow> local_relay" where
  "local_run events = fold local_step events new_local_relay"

section \<open>The viewer shows only an authorised session\<close>

lemma authorize_viewer_Inr:
  assumes "authorize_viewer loads pf now i ticket d = Inr b"
  shows "get_session d i = Some b \<and> bs_status b = ''running'' \<and>
    (\<exists>t. ticket = Some t \<and> t \<noteq> [] \<and> verify_session_ticket loads pf viewer_signer now t (bs_user_id b) (bs_id b) = Some True)"
  using assms by (auto simp: authorize_viewer_def Let_def split: option.splits if_splits bool.splits)

lemma dict_set_among: "set (dict_set k v d) \<subseteq> insert (k, v) (set d)"
  by (induction k v d rule: dict_set.induct) auto

lemma dict_sets_among: "set (foldl (\<lambda>d (k, v). dict_set k v d) d ps) \<subseteq> set d \<union> set ps"
proof (induction ps arbitrary: d)
  case (Cons p ps)
  obtain k v where "p = (k, v)" by fastforce
  with Cons [of "dict_set k v d"] dict_set_among [of k v d] show ?case by auto
qed simp

lemma dict_of_pairs_set: "set (dict_of_pairs ps) \<subseteq> set ps"
  using dict_sets_among [of "[]" ps] by (simp add: dict_of_pairs_def)

text \<open>C39. The proxy of the viewer is closed in both directions. A request reaches a browser only if the session runs and
  the cookie of that session holds a grant signed for its owner; it goes to the session's own endpoint on the loopback
  interface, below its root, and of the request's headers only five names are passed on, so neither the cookies nor the
  authorization of the member reach the browser; of the answer only seven header names come back, so the browser cannot
  set a cookie on the control plane.\<close>

theorem viewer_proxy_closed:
  assumes "viewer_http loads pf now proxy i r d = (Some q, outcome)"
  shows "(\<exists>b endpoint t. get_session d i = Some b \<and> bs_status b = ''running'' \<and> map_of (vr_cookies r) (viewer_cookie i) = Some t \<and>
      verify_session_ticket loads pf viewer_signer now t (bs_user_id b) (bs_id b) = Some True \<and>
      bs_endpoint b = Some endpoint \<and> startswith endpoint ''http://127.0.0.1:'' \<and> startswith (ur_url q) (endpoint @ ''/'')) \<and>
    (\<forall>(name, v) \<in> set (ur_headers q). lower_str name \<in> set FORWARDED_HEADERS \<and> (name, v) \<in> set (vr_headers r)) \<and>
    (\<forall>p. outcome = Inr p \<longrightarrow> (\<exists>headers. proxy q = Up_answer (vp_status p) headers (vp_body p) \<and>
       (\<forall>(name, v) \<in> set (vp_headers p). name \<in> set RETURNED_HEADERS \<and> headers name = Some v)))"
proof -
  from assms obtain endpoint where e: "viewer_endpoint loads pf now i (map_of (vr_cookies r) (viewer_cookie i)) d = Inr endpoint"
    and q: "q = upstream_request_of endpoint r"
    and out: "outcome = (case proxy q of Up_failed \<Rightarrow> Inl (Http 502 ''Browser upstream request failed'')
      | Up_raised \<Rightarrow> Inl Server_error
      | Up_answer status headers body \<Rightarrow> Inr \<lparr>vp_status = status, vp_headers = returned_headers headers, vp_body = body\<rparr>)"
    by (auto simp: viewer_http_def Let_def split: sum.splits)
  from e obtain b where b: "authorize_viewer loads pf now i (map_of (vr_cookies r) (viewer_cookie i)) d = Inr b"
    and ep: "bs_endpoint b = Some endpoint" "startswith endpoint ''http://127.0.0.1:''"
    by (auto simp: viewer_endpoint_def split: sum.splits option.splits if_splits)
  have url: "startswith (ur_url q) (endpoint @ ''/'')" by (simp add: q upstream_request_of_def startswith_def)
  have h: "\<forall>(name, v) \<in> set (ur_headers q). lower_str name \<in> set FORWARDED_HEADERS \<and> (name, v) \<in> set (vr_headers r)"
    using dict_of_pairs_set [of "filter (\<lambda>(name, _). lower_str name \<in> set FORWARDED_HEADERS) (vr_headers r)"]
    by (auto simp: q upstream_request_of_def forwarded_headers_def)
  have answer: "\<exists>headers. proxy q = Up_answer (vp_status p) headers (vp_body p) \<and>
       (\<forall>(name, v) \<in> set (vp_headers p). name \<in> set RETURNED_HEADERS \<and> headers name = Some v)" if "outcome = Inr p" for p
    using that unfolding out by (auto simp: returned_headers_def map_filter_def split: upstream_reply.splits)
  from authorize_viewer_Inr [OF b] ep url h answer show ?thesis by blast
qed

section \<open>Frames in order\<close>

definition client_frames :: "viewer_event list \<Rightarrow> frame list" where
  "client_frames events = List.map_filter (\<lambda>e. case e of From_client f _ \<Rightarrow> f | _ \<Rightarrow> None) events"

definition browser_frames :: "viewer_event list \<Rightarrow> frame list" where
  "browser_frames events = List.map_filter (\<lambda>e. case e of From_browser f _ \<Rightarrow> Some f | _ \<Rightarrow> None) events"

definition client_closed :: "viewer_relay \<Rightarrow> bool" where
  "client_closed v \<longleftrightarrow> viewer_over v \<or> vw_client_finished v"

definition browser_closed :: "viewer_relay \<Rightarrow> bool" where
  "browser_closed v \<longleftrightarrow> viewer_over v \<or> vw_browser_finished v"

lemma viewer_step_client:
  "vw_to_browser (viewer_step e v) = vw_to_browser v @ (if client_closed v \<or> client_closed (viewer_step e v) then [] else client_frames [e])"
  "client_closed v \<Longrightarrow> client_closed (viewer_step e v)"
  by (cases e; auto simp: client_closed_def viewer_over_def client_frames_def List.map_filter_simps split: option.split)+

lemma viewer_step_browser:
  "vw_to_client (viewer_step e v) = vw_to_client v @ (if browser_closed v \<or> browser_closed (viewer_step e v) then [] else browser_frames [e])"
  "browser_closed v \<Longrightarrow> browser_closed (viewer_step e v)"
  by (cases e; auto simp: browser_closed_def viewer_over_def browser_frames_def List.map_filter_simps split: option.split)+

lemma frames_append:
  "client_frames (es @ [e]) = client_frames es @ client_frames [e]" "browser_frames (es @ [e]) = browser_frames es @ browser_frames [e]"
  by (simp_all add: client_frames_def browser_frames_def List.map_filter_def)

lemma viewer_run_snoc: "viewer_run (es @ [e]) = viewer_step e (viewer_run es)"
  by (simp add: viewer_run_def)

lemma prefix_step:
  assumes "prefix a b \<and> (\<not> C \<longrightarrow> a = b)" and "a' = a @ (if C \<or> C' then [] else x)" and "C \<Longrightarrow> C'"
  shows "prefix a' (b @ x) \<and> (\<not> C' \<longrightarrow> a' = b @ x)"
  using assms by (auto simp: prefix_def split: if_splits)

lemma viewer_run_client:
  "prefix (vw_to_browser (viewer_run es)) (client_frames es) \<and>
   (\<not> client_closed (viewer_run es) \<longrightarrow> vw_to_browser (viewer_run es) = client_frames es)"
proof (induction es rule: rev_induct)
  case (snoc e es)
  show ?case
    unfolding viewer_run_snoc frames_append
    by (rule prefix_step [OF snoc]) (rule viewer_step_client, erule viewer_step_client)
qed (simp add: viewer_run_def new_viewer_relay_def client_frames_def List.map_filter_simps)

lemma viewer_run_browser:
  "prefix (vw_to_client (viewer_run es)) (browser_frames es) \<and>
   (\<not> browser_closed (viewer_run es) \<longrightarrow> vw_to_client (viewer_run es) = browser_frames es)"
proof (induction es rule: rev_induct)
  case (snoc e es)
  show ?case
    unfolding viewer_run_snoc frames_append
    by (rule prefix_step [OF snoc]) (rule viewer_step_browser, erule viewer_step_browser)
qed (simp add: viewer_run_def new_viewer_relay_def browser_frames_def List.map_filter_simps)

text \<open>The relay of the viewer passes frames on unchanged and in order: what either side receives is an initial part of
  what the other sent, texts as texts and bytes as bytes, and all of it while that direction is open, however the two
  directions interleave.\<close>

theorem viewer_relay_in_order:
  "prefix (vw_to_browser (viewer_run es)) (client_frames es) \<and> prefix (vw_to_client (viewer_run es)) (browser_frames es) \<and>
   (client_closed (viewer_run es) \<or> vw_to_browser (viewer_run es) = client_frames es) \<and>
   (browser_closed (viewer_run es) \<or> vw_to_client (viewer_run es) = browser_frames es)"
  using viewer_run_client viewer_run_browser by blast

text \<open>When the member leaves, the connection to the browser stays open until the browser closes it or sends a frame:
  the two directions are awaited together, so a browser that is silent holds the relay for good.\<close>

fun browser_silent :: "viewer_event \<Rightarrow> bool" where
  "browser_silent (From_client _ _) = True"
| "browser_silent Client_left = True"
| "browser_silent _ = False"

lemma silent_step:
  assumes "browser_silent e" and "vw_client_finished v" and "\<not> vw_browser_finished v" and "\<not> vw_raised v"
  shows "viewer_step e v = v"
  using assms by (cases e) (auto simp: viewer_over_def)

theorem viewer_outlives_client:
  assumes "\<not> vw_raised (viewer_run es)" and "\<not> vw_browser_finished (viewer_run es)" and "list_all browser_silent later"
  shows "\<not> viewer_over (viewer_run (es @ Client_left # later))"
proof -
  let ?v = "viewer_step Client_left (viewer_run es)"
  have v: "vw_client_finished ?v" "\<not> vw_browser_finished ?v" "\<not> vw_raised ?v"
    using assms(1,2) by (auto simp: viewer_over_def)
  have "fold viewer_step later ?v = ?v"
    using assms(3)
  proof (induction later)
    case (Cons e later)
    then show ?case using silent_step [OF _ v] by simp
  qed simp
  moreover have "viewer_run (es @ Client_left # later) = fold viewer_step later ?v" by (simp add: viewer_run_def)
  ultimately show ?thesis using v by (simp add: viewer_over_def)
qed

section \<open>The tunnel of a local browser\<close>

definition passes :: "tunnel_event \<Rightarrow> bool" where
  "passes e \<longleftrightarrow>
     (case e of
        Client_frame (Some d) ok \<Rightarrow> ok \<and> length d \<le> MAX_CLIENT_FRAME
      | Target_chunk d ok \<Rightarrow> ok
      | _ \<Rightarrow> False)"

definition client_bytes :: "tunnel_event \<Rightarrow> string" where
  "client_bytes e = (case e of Client_frame (Some d) _ \<Rightarrow> d | _ \<Rightarrow> [])"

definition target_bytes :: "tunnel_event \<Rightarrow> string" where
  "target_bytes e = (case e of Target_chunk d _ \<Rightarrow> d | _ \<Rightarrow> [])"

definition closing_code :: "tunnel_event \<Rightarrow> int list" where
  "closing_code e =
     (case e of
        Client_frame None _ \<Rightarrow> [1003]
      | Client_frame (Some d) _ \<Rightarrow> if MAX_CLIENT_FRAME < length d then [1009] else []
      | _ \<Rightarrow> [])"

lemma local_step_cases:
  assumes "\<not> lr_finished r"
  shows "local_step e r =
    (if passes e then r\<lparr>lr_to_target := lr_to_target r @ client_bytes e, lr_to_client := lr_to_client r @ target_bytes e\<rparr>
     else r\<lparr>lr_close_codes := lr_close_codes r @ closing_code e, lr_finished := True\<rparr>)"
  using assms
  by (cases e) (auto simp: passes_def client_bytes_def target_bytes_def closing_code_def split: option.split)

lemma local_finished: "lr_finished r \<Longrightarrow> fold local_step es r = r"
proof (induction es)
  case (Cons e es)
  then show ?case by (cases e) auto
qed simp

lemma local_fold:
  "\<not> lr_finished r \<Longrightarrow> fold local_step es r =
    r\<lparr>lr_to_target := lr_to_target r @ concat (map client_bytes (takeWhile passes es)),
      lr_to_client := lr_to_client r @ concat (map target_bytes (takeWhile passes es)),
      lr_close_codes := lr_close_codes r @ (case dropWhile passes es of [] \<Rightarrow> [] | e # _ \<Rightarrow> closing_code e),
      lr_finished := dropWhile passes es \<noteq> []\<rparr>"
proof (induction es arbitrary: r)
  case (Cons e es)
  show ?case
  proof (cases "passes e")
    case True
    with Cons.prems Cons.IH [of "local_step e r"] show ?thesis by (simp add: local_step_cases)
  next
    case False
    with Cons.prems have "lr_finished (local_step e r)" by (simp add: local_step_cases)
    with local_finished have "fold local_step (e # es) r = local_step e r" by simp
    with False Cons.prems show ?thesis by (simp add: local_step_cases)
  qed
qed simp

text \<open>The tunnel of a local browser relays exactly what passes its checks: the target receives the payloads of the
  client's frames and the client those of the target's chunks, in order and unchanged, up to the first event that ends
  the relay, which closes it with 1003 for a frame without bytes and 1009 for one of more than 262144 bytes; nothing is
  relayed after it.\<close>

theorem local_relay_exact:
  "local_run es =
    \<lparr>lr_to_target = concat (map client_bytes (takeWhile passes es)), lr_to_client = concat (map target_bytes (takeWhile passes es)),
     lr_close_codes = (case dropWhile passes es of [] \<Rightarrow> [] | e # _ \<Rightarrow> closing_code e), lr_finished = (dropWhile passes es \<noteq> [])\<rparr>"
  by (simp add: local_run_def local_fold new_local_relay_def)

text \<open>A local browser reaches only public web servers and only for a signed-in member: when the route connects, the
  bearer token names an enabled member who is not deleted, a page of a foreign origin was refused, the port is 80 or 443,
  the host is no local name, and every address the resolver gave for it, in particular the one connected to, is public
  in the control plane's sense.\<close>

theorem local_tunnel_public:
  assumes "local_tunnel_open api_loads native_loads punycode af_inet6 resolver now public_origin origin authorization request d = Tunnel_connect t"
  shows "(\<exists>u \<in> set (users d). bearer_user api_loads native_loads now d authorization = Some u \<and> us_enabled u \<and> us_deleted_at u = None) \<and>
    \<not> (\<exists>p q. public_origin = Some p \<and> origin = Some q \<and> p \<noteq> [] \<and> q \<noteq> [] \<and> p \<noteq> q) \<and>
    rt_port t \<in> {80, 443} \<and>
    (\<exists>answers. resolver (rt_host t) (rt_port t) = Some answers \<and> answers \<noteq> [] \<and>
       (\<forall>x \<in> set answers. \<exists>p. control_answer_good x p) \<and>
       (\<exists>x \<in> set answers. control_answer_good x (rt_family t, rt_address t)))"
proof -
  from assms obtain u host port where u: "bearer_user api_loads native_loads now d authorization = Some u"
    and o: "\<not> (\<exists>p q. public_origin = Some p \<and> origin = Some q \<and> p \<noteq> [] \<and> q \<noteq> [] \<and> p \<noteq> q)"
    and r: "control_resolve punycode af_inet6 [80, 443] resolver host port = Inr t"
    by (auto simp: local_tunnel_open_def Let_def split: if_splits option.splits prod.splits sum.splits)
  from r obtain ascii_host x xs vetted where c: "port \<in> {80, 443}" "resolver ascii_host port = Some (x # xs)"
    "vet_answers (control_check_answer af_inet6) [] (x # xs) = Inr vetted"
    "t = \<lparr>rt_host = ascii_host, rt_port = port, rt_address = snd (hd vetted), rt_family = fst (hd vetted)\<rparr>"
    by (rule control_resolve_cases) auto
  have all: "\<forall>y \<in> set (x # xs). \<exists>p. control_answer_good y p" using control_vet.vet_all_good [OF c(3)] by blast
  have "control_check_answer af_inet6 x = Inr (hd vetted)" using control_vet.vet_first [OF c(3)] by simp
  then have first: "control_answer_good x (rt_family t, rt_address t)" using control_vet.check_good by (simp add: c(4))
  have host: "resolver (rt_host t) (rt_port t) = Some (x # xs)" "rt_port t \<in> {80, 443}" using c by simp_all
  have "\<exists>answers. resolver (rt_host t) (rt_port t) = Some answers \<and> answers \<noteq> [] \<and>
       (\<forall>x \<in> set answers. \<exists>p. control_answer_good x p) \<and> (\<exists>x \<in> set answers. control_answer_good x (rt_family t, rt_address t))"
    using all first host(1) by (intro exI [of _ "x # xs"]) auto
  with bearer_user_sound [OF u] u o host(2) show ?thesis by blast
qed

section \<open>A session and a tunnel\<close>

theorem viewer_proxy_closed_witness:
  "\<exists>r q. viewer_http demo_loads (\<lambda>_. None) 1 (\<lambda>q. Up_answer 200 [''etag'' \<mapsto> ''e'', ''set-cookie'' \<mapsto> ''c''] ''page'') ''s1'' r demo_sessions_db =
      (Some q, Inr \<lparr>vp_status = 200, vp_headers = [(''etag'', ''e'')], vp_body = ''page''\<rparr>) \<and>
    startswith (ur_url q) ''http://127.0.0.1:81/'' \<and> ur_headers q = [(''accept'', ''a'')]"
proof -
  let ?grant = "issue_session_ticket demo_dumps viewer_signer 0 2 ''s1''"
  let ?r = "\<lparr>vr_verb = ''GET'', vr_asset_path = ''x'', vr_query = [], vr_headers = [(''accept'', ''a''), (''cookie'', ''secret'')],
    vr_cookies = [(''cb_viewer_s1'', ?grant)], vr_body = []\<rparr>"
  have "verify_session_ticket demo_loads (\<lambda>_. None) viewer_signer 1 ?grant 2 ''s1'' = Some True"
    by (rule fresh_ticket_verifies) (simp_all add: demo_loads_def demo_dumps_def viewer_signer_def)
  moreover have "?grant \<noteq> []" by (simp add: issue_session_ticket_def demo_dumps_def)
  moreover have "get_session demo_sessions_db ''s1'' = Some demo_session"
    by (simp add: get_session_def demo_sessions_db_def demo_session_def)
  ultimately have "viewer_endpoint demo_loads (\<lambda>_. None) 1 ''s1'' (Some ?grant) demo_sessions_db = Inr ''http://127.0.0.1:81''"
    by (simp add: viewer_endpoint_def authorize_viewer_def demo_session_def startswith_def Let_def)
  moreover have "forwarded_headers [(''accept'', ''a''), (''cookie'', ''secret'')] = [(''accept'', ''a'')]"
    by (simp add: forwarded_headers_def FORWARDED_HEADERS_def dict_of_pairs_def lower_str_def lower_char_def is_upper_def char_in_def)
  ultimately have r: "viewer_http demo_loads (\<lambda>_. None) 1 (\<lambda>q. Up_answer 200 [''etag'' \<mapsto> ''e'', ''set-cookie'' \<mapsto> ''c''] ''page'') ''s1'' ?r demo_sessions_db =
      (Some \<lparr>ur_verb = ''GET'', ur_url = ''http://127.0.0.1:81/x'', ur_headers = [(''accept'', ''a'')], ur_body = []\<rparr>,
       Inr \<lparr>vp_status = 200, vp_headers = [(''etag'', ''e'')], vp_body = ''page''\<rparr>)"
    by (simp add: viewer_http_def viewer_cookie_def upstream_request_of_def query_part_def returned_headers_def RETURNED_HEADERS_def
        List.map_filter_simps)
  from viewer_proxy_closed [OF r, THEN conjunct1] have "startswith ''http://127.0.0.1:81/x'' ''http://127.0.0.1:81/''"
    by (simp add: startswith_def)
  with r show ?thesis by (intro exI conjI) (assumption, simp_all)
qed

theorem local_tunnel_public_witness:
  "local_tunnel_open (\<lambda>_. Some [(''uid'', JInt 2), (''ver'', JInt 1)]) (\<lambda>_. None) (\<lambda>_. None) 10 (\<lambda>_ _. Some [Some (2, ''8.8.8.8'')]) 0
     (Some ''https://c'') (Some ''https://c'') (Some ''Bearer t'')
     (Some (JObj [(''host'', JStr ''Example.COM.''), (''port'', JInt 443)])) demo_db =
   Tunnel_connect \<lparr>rt_host = ''example.com'', rt_port = 443, rt_address = ''8.8.8.8'', rt_family = 2\<rparr> \<and>
   (\<exists>x p. control_answer_good x p)"
proof -
  have b: "bearer_user (\<lambda>_. Some [(''uid'', JInt 2), (''ver'', JInt 1)]) (\<lambda>_. None) 0 demo_db (Some ''Bearer t'') =
      Some (demo_user 2 ''ann'' ''member'')"
    by (simp add: bearer_user_def startswith_def user_of_def payload_get_def get_user_def demo_db_def demo_user_def)
  have r: "local_tunnel_open (\<lambda>_. Some [(''uid'', JInt 2), (''ver'', JInt 1)]) (\<lambda>_. None) (\<lambda>_. None) 10 (\<lambda>_ _. Some [Some (2, ''8.8.8.8'')]) 0
     (Some ''https://c'') (Some ''https://c'') (Some ''Bearer t'')
     (Some (JObj [(''host'', JStr ''Example.COM.''), (''port'', JInt 443)])) demo_db =
   Tunnel_connect \<lparr>rt_host = ''example.com'', rt_port = 443, rt_address = ''8.8.8.8'', rt_family = 2\<rparr>"
    by (simp add: local_tunnel_open_def b tunnel_target_def payload_get_def control_resolve_def example_host control_check_answer_def
        parse_8888 public_8888)
  with local_tunnel_public [OF r] show ?thesis by auto
qed

end
