(* ===== verification/Edge_Resources.thy ===== *)
theory Edge_Resources
  imports Prelude
begin

text \<open>
  The resource figures of an edge (\<open>edge_tunnel/resources.py\<close>): the reading of \<open>/proc\<close> on Linux, the figures of
  \<open>psutil\<close> on Windows and the choice between the two. Files, \<open>statvfs\<close>, \<open>psutil\<close>, the clock and \<open>float\<close> on a text
  are arguments; \<open>None\<close> is an exception.
\<close>

record edge_resources =
  er_load_1m :: pyfloat
  er_memory_total_bytes :: int
  er_memory_available_bytes :: int
  er_disk_total_bytes :: int
  er_disk_free_bytes :: int
  er_uptime_seconds :: pyfloat

text \<open>\<open>str.splitlines\<close>.\<close>

definition line_break :: "char \<Rightarrow> bool" where
  "line_break c \<longleftrightarrow> c \<in> {CHR 0x0A, CHR 0x0B, CHR 0x0C, CHR 0x0D, CHR 0x1C, CHR 0x1D, CHR 0x1E, CHR 0x85}"

definition after_break :: "string \<Rightarrow> string" where
  "after_break s =
     (case s of
        [] \<Rightarrow> []
      | c # r \<Rightarrow> if c = CHR 0x0D \<and> r \<noteq> [] \<and> hd r = CHR 0x0A then tl r else r)"

lemma after_break_length: "s \<noteq> [] \<Longrightarrow> length (after_break s) < length s"
  by (cases s) (auto simp: after_break_def)

function split_lines :: "string \<Rightarrow> string list" where
  "split_lines s =
     (if s = [] then []
      else takeWhile (\<lambda>c. \<not> line_break c) s # split_lines (after_break (dropWhile (\<lambda>c. \<not> line_break c) s)))"
  by pat_completeness auto
termination
proof (relation "measure length")
  fix s :: string
  assume "s \<noteq> []"
  then have "length (after_break (dropWhile (\<lambda>c. \<not> line_break c) s)) < length s"
    using after_break_length [of "dropWhile (\<lambda>c. \<not> line_break c) s"] length_dropWhile_le [of "\<lambda>c. \<not> line_break c" s]
    by (cases "dropWhile (\<lambda>c. \<not> line_break c) s") (auto simp: after_break_def simp del: dropWhile_eq_Nil_conv)
  then show "(after_break (dropWhile (\<lambda>c. \<not> line_break c) s), s) \<in> measure length" by simp
qed simp

declare split_lines.simps [simp del]

definition memory_line :: "string \<Rightarrow> (string \<times> int) option" where
  "memory_line line =
     (case partition_char (CHR '':'') line of
        (key, found, value) \<Rightarrow>
          if \<not> found then None
          else (case split_space value of [] \<Rightarrow> None | w # _ \<Rightarrow> map_option (\<lambda>i. (key, i * 1024)) (int_of_str w)))"

definition memory_table :: "string \<Rightarrow> (string \<times> int) list option" where
  "memory_table meminfo = map_option dict_of_pairs (those (map memory_line (split_lines meminfo)))"

definition first_float :: "(string \<Rightarrow> pyfloat option) \<Rightarrow> string \<Rightarrow> pyfloat option" where
  "first_float fl t = (case split_space t of [] \<Rightarrow> None | w # _ \<Rightarrow> fl w)"

text \<open>The result of \<open>statvfs\<close> is the fragment size, the number of blocks and that of the free ones.\<close>

definition linux_resources ::
  "(string \<Rightarrow> string option) \<Rightarrow> (string \<Rightarrow> (int \<times> int \<times> int) option) \<Rightarrow> (string \<Rightarrow> pyfloat option) \<Rightarrow> edge_resources option" where
  "linux_resources read_text statvfs fl =
     Option.bind (Option.bind (read_text ''/proc/meminfo'') memory_table) (\<lambda>memory.
     Option.bind (statvfs ''/'') (\<lambda>(frsize, blocks, bavail).
     Option.bind (Option.bind (read_text ''/proc/loadavg'') (first_float fl)) (\<lambda>load.
     Option.bind (map_of memory ''MemTotal'') (\<lambda>total.
     Option.bind (map_of memory ''MemAvailable'') (\<lambda>available.
     Option.bind (Option.bind (read_text ''/proc/uptime'') (first_float fl)) (\<lambda>uptime.
       Some \<lparr>er_load_1m = load, er_memory_total_bytes = total, er_memory_available_bytes = available,
             er_disk_total_bytes = frsize * blocks, er_disk_free_bytes = frsize * bavail, er_uptime_seconds = uptime\<rparr>))))))"

text \<open>The figures of \<open>psutil\<close>, each a call that may raise. \<open>getenv\<close> reads the environment.\<close>

record psutil_module =
  ps_load_1m :: "rat option"
  ps_virtual_memory :: "(int \<times> int) option"
  ps_disk_usage :: "string \<Rightarrow> (int \<times> int) option"
  ps_boot_time :: "rat option"

definition system_drive :: "(string \<Rightarrow> string option) \<Rightarrow> string option \<Rightarrow> string" where
  "system_drive getenv drive =
     (case drive of
        Some d \<Rightarrow> if d \<noteq> [] then d else (case getenv ''SystemDrive'' of None \<Rightarrow> ''C:'' | Some v \<Rightarrow> v) @ [CHR 0x5C]
      | None \<Rightarrow> (case getenv ''SystemDrive'' of None \<Rightarrow> ''C:'' | Some v \<Rightarrow> v) @ [CHR 0x5C])"

definition windows_resources :: "psutil_module \<Rightarrow> string \<Rightarrow> rat \<Rightarrow> edge_resources option" where
  "windows_resources ps drive now =
     Option.bind (ps_virtual_memory ps) (\<lambda>(total, available).
     Option.bind (ps_disk_usage ps drive) (\<lambda>(disk_total, disk_free).
     Option.bind (ps_load_1m ps) (\<lambda>load.
     Option.bind (ps_boot_time ps) (\<lambda>boot.
       Some \<lparr>er_load_1m = Fin load, er_memory_total_bytes = total, er_memory_available_bytes = available,
             er_disk_total_bytes = disk_total, er_disk_free_bytes = disk_free, er_uptime_seconds = Fin (now - boot)\<rparr>))))"

datatype resource_provider = Linux_provider | Windows_provider

text \<open>The left side is the text of the \<open>RuntimeError\<close>. \<open>system\<close> is the argument, empty or not given the host's.\<close>

definition create_resource_provider :: "string \<Rightarrow> string option \<Rightarrow> string + resource_provider" where
  "create_resource_provider host system =
     (let selected = (case system of Some s \<Rightarrow> if s \<noteq> [] then s else host | None \<Rightarrow> host) in
      if selected = ''Linux'' then Inr Linux_provider
      else if selected = ''Windows'' then Inr Windows_provider
      else Inl (''unsupported resource platform: '' @ selected))"

section \<open>The memory table\<close>

text \<open>A line as the kernel prints it: the name, a colon, blanks, the number of kibibytes and its unit.\<close>

definition kernel_line :: "string \<times> nat \<times> nat \<Rightarrow> string" where
  "kernel_line = (\<lambda>(name, blanks, kb). name @ CHR '':'' # replicate blanks (CHR '' '') @ nat_str kb @ '' kB'')"

definition kernel_text :: "(string \<times> nat \<times> nat) list \<Rightarrow> string" where
  "kernel_text rows = concat (map (\<lambda>r. kernel_line r @ [CHR 0x0A]) rows)"

definition plain_name :: "string \<Rightarrow> bool" where
  "plain_name name \<longleftrightarrow> CHR '':'' \<notin> set name \<and> list_all (\<lambda>c. \<not> line_break c) name"

lemma split_lines_line:
  assumes "list_all (\<lambda>c. \<not> line_break c) a"
  shows "split_lines (a @ CHR 0x0A # s) = a # split_lines s"
proof -
  have "takeWhile (\<lambda>c. \<not> line_break c) (a @ CHR 0x0A # s) = a" "dropWhile (\<lambda>c. \<not> line_break c) (a @ CHR 0x0A # s) = CHR 0x0A # s"
    using assms by (auto simp: list_all_iff takeWhile_tail dropWhile_append3 line_break_def)
  then show ?thesis by (subst split_lines.simps) (simp add: after_break_def)
qed

lemma digit_no_blank:
  assumes "is_digit c"
  shows "\<not> line_break c \<and> \<not> is_space c \<and> c \<noteq> CHR ''_'' \<and> c \<noteq> CHR ''-'' \<and> c \<noteq> CHR ''+''"
proof -
  have "48 \<le> (of_char c :: nat)" "(of_char c :: nat) \<le> 57" using assms by (simp_all add: is_digit_def char_in_def)
  then show ?thesis by (auto simp: line_break_def is_space_def char_in_def)
qed

lemma int_of_nat_str: "length (nat_str n) \<le> 4300 \<Longrightarrow> int_of_str (nat_str n) = Some (int n)"
proof -
  assume l: "length (nat_str n) \<le> 4300"
  have d: "\<forall>c \<in> set (nat_str n). is_digit c" using nat_str_digits [of n] by (simp add: list_all_iff)
  have keep: "dropWhile is_space t = t" if "\<forall>c \<in> set t. is_digit c" for t
    using that digit_no_blank by (cases t) auto
  have "strip (nat_str n) = nat_str n" using keep [of "nat_str n"] keep [of "rev (nat_str n)"] d by (simp add: strip_def)
  moreover have "hd (nat_str n) \<noteq> CHR ''-''" "hd (nat_str n) \<noteq> CHR ''+''" "CHR ''_'' \<notin> set (nat_str n)"
    using d digit_no_blank by (metis hd_in_set nat_str_nonempty)+
  ultimately show ?thesis using l d by (simp add: int_of_str_def digit_groups_def split_char_no_sep list_all_iff Let_def)
qed

lemma kernel_line_plain:
  assumes "plain_name name"
  shows "list_all (\<lambda>c. \<not> line_break c) (kernel_line (name, blanks, kb))"
proof -
  have "list_all (\<lambda>c. \<not> line_break c) (nat_str kb)" using nat_str_digits [of kb] digit_no_blank by (auto simp: list_all_iff)
  moreover have "\<not> line_break (CHR '':'')" "\<not> line_break (CHR '' '')" "\<not> line_break (CHR ''k'')" "\<not> line_break (CHR ''B'')"
    by (simp_all add: line_break_def)
  ultimately show ?thesis using assms by (auto simp: kernel_line_def plain_name_def list_all_iff)
qed

lemma split_space_blanks: "split_space (replicate n (CHR '' '') @ s) = split_space s"
  by (induction n) (simp_all add: is_space_def char_in_def)

lemma split_space_first:
  assumes "a \<noteq> []" and "\<forall>c \<in> set a. \<not> is_space c" and "is_space b"
  shows "\<exists>ws. split_space (a @ b # s) = a # ws"
  using assms(1,2)
proof (induction a)
  case (Cons c cs)
  show ?case
  proof (cases cs)
    case Nil
    with Cons.prems assms(3) show ?thesis by simp
  next
    case (Cons d ds)
    with Cons.prems Cons.IH show ?thesis by auto
  qed
qed simp

lemma memory_line_kernel:
  assumes "plain_name name" and "length (nat_str kb) \<le> 4300"
  shows "memory_line (kernel_line (name, blanks, kb)) = Some (name, int kb * 1024)"
proof -
  have "\<forall>c \<in> set (nat_str kb). \<not> is_space c" using nat_str_digits [of kb] digit_no_blank by (auto simp: list_all_iff)
  then obtain ws where "split_space (nat_str kb @ CHR '' '' # ''kB'') = nat_str kb # ws"
    using split_space_first [of "nat_str kb" "CHR '' ''" "''kB''"] by (auto simp: is_space_def char_in_def)
  moreover have "partition_char (CHR '':'') (kernel_line (name, blanks, kb)) =
      (name, True, replicate blanks (CHR '' '') @ nat_str kb @ '' kB'')"
    using assms(1) by (simp add: kernel_line_def plain_name_def partition_char_found)
  ultimately show ?thesis using assms(2) by (simp add: memory_line_def split_space_blanks int_of_nat_str)
qed

text \<open>The table read from a text of the kernel's form is the table the text was printed from, in bytes.\<close>

theorem memory_table_roundtrip:
  assumes "\<forall>(name, blanks, kb) \<in> set rows. plain_name name \<and> length (nat_str kb) \<le> 4300"
  shows "memory_table (kernel_text rows) = Some (dict_of_pairs (map (\<lambda>(name, blanks, kb). (name, int kb * 1024)) rows))"
proof -
  have "those (map memory_line (split_lines (kernel_text rows))) = Some (map (\<lambda>(name, blanks, kb). (name, int kb * 1024)) rows)"
    using assms
  proof (induction rows)
    case Nil
    show ?case by (simp add: kernel_text_def split_lines.simps)
  next
    case (Cons row rows)
    obtain name blanks kb where r: "row = (name, blanks, kb)" by (cases row)
    with Cons.prems have "split_lines (kernel_text (row # rows)) = kernel_line row # split_lines (kernel_text rows)"
      using split_lines_line [OF kernel_line_plain, of name blanks kb "kernel_text rows"] by (simp add: kernel_text_def)
    with Cons r show ?case by (simp add: memory_line_kernel)
  qed
  then show ?thesis by (simp add: memory_table_def)
qed

text \<open>Both providers fail as a whole: figures are given only when every one of them was read.\<close>

theorem linux_figures:
  assumes "linux_resources read_text statvfs fl = Some r"
  shows "\<exists>memory size_v blocks bavail. Option.bind (read_text ''/proc/meminfo'') memory_table = Some memory \<and>
    statvfs ''/'' = Some (size_v, blocks, bavail) \<and>
    map_of memory ''MemTotal'' = Some (er_memory_total_bytes r) \<and> map_of memory ''MemAvailable'' = Some (er_memory_available_bytes r) \<and>
    er_disk_total_bytes r = size_v * blocks \<and> er_disk_free_bytes r = size_v * bavail"
  using assms unfolding linux_resources_def by (auto simp: bind_eq_Some_conv)

end
