(* ===== verification/Assets.thy ===== *)
theory Assets
  imports Packaging Auth
begin

text \<open>
  The routes of \<open>cloudbrowser/app.py\<close> that hand out fixed files and facts: the page, the brand assets, the installers,
  the administrator's public SSH key, the health check and the caller's own account. A file response names the path,
  the media type and the headers; reading and sending the file is the framework's. \<open>here\<close> is the directory of the
  module; the loader of SSH keys is an argument.
\<close>

record file_response =
  fr_path :: string
  fr_media_type :: "string option"
  fr_headers :: "(string \<times> string) list"

definition no_store :: "(string \<times> string) list" where
  "no_store = [(''Cache-Control'', ''no-store''), (''X-Content-Type-Options'', ''nosniff'')]"

definition BRAND_ASSET_TYPES :: "(string \<times> string) list" where
  "BRAND_ASSET_TYPES =
     [(''design-tokens.css'', ''text/css''), (''favicon.svg'', ''image/svg+xml''), (''idengrid-32.png'', ''image/png''),
      (''idengrid-64.png'', ''image/png''), (''idengrid-lockup-cn-primary.svg'', ''image/svg+xml''),
      (''idengrid-symbol.svg'', ''image/svg+xml''), (''site.webmanifest'', ''application/manifest+json'')]"

definition BRAND_ASSET_HEADERS :: "(string \<times> string) list" where
  "BRAND_ASSET_HEADERS = [(''Cache-Control'', ''public, max-age=31536000, immutable''), (''X-Content-Type-Options'', ''nosniff'')]"

definition workspace_page :: "string \<Rightarrow> file_response" where
  "workspace_page here = \<lparr>fr_path = here @ ''/templates/index.html'', fr_media_type = None, fr_headers = []\<rparr>"

definition brand_asset :: "string \<Rightarrow> string \<Rightarrow> http_error + file_response" where
  "brand_asset here asset_path =
     (case map_of BRAND_ASSET_TYPES asset_path of
        None \<Rightarrow> Inl (Http 404 ''Brand asset not found'')
      | Some media_type \<Rightarrow>
          Inr \<lparr>fr_path = here @ ''/static/brand/'' @ asset_path, fr_media_type = Some media_type, fr_headers = BRAND_ASSET_HEADERS\<rparr>)"

definition edge_installer :: file_response where
  "edge_installer = \<lparr>fr_path = ''/data/scripts/install-edge.sh'', fr_media_type = Some ''text/x-shellscript'', fr_headers = no_store\<rparr>"

definition generic_edge_installer :: file_response where
  "generic_edge_installer =
     \<lparr>fr_path = ''/data/scripts/edge-install.sh'', fr_media_type = Some ''text/x-shellscript'', fr_headers = no_store\<rparr>"

definition windows_edge_installer :: file_response where
  "windows_edge_installer =
     \<lparr>fr_path = ''/data/windows-edge/scripts/Install-IdenGridEdge.ps1'', fr_media_type = Some ''text/plain'', fr_headers = no_store\<rparr>"

text \<open>\<open>load_ssh_public_key\<close>: \<open>Key_invalid\<close> is a \<open>ValueError\<close> or \<open>TypeError\<close>, \<open>Key_raised\<close> another exception. \<open>file\<close> is
  the content of the configured file, \<open>None\<close> when no file is configured or it cannot be read.\<close>

datatype key_load = Key_loaded | Key_invalid | Key_raised

definition admin_ssh_public_key :: "(string \<Rightarrow> key_load) \<Rightarrow> string option \<Rightarrow> http_error + string" where
  "admin_ssh_public_key load file =
     (let refuse = Inl (Http 404 ''Public key unavailable'') in
      case file of
        None \<Rightarrow> refuse
      | Some key \<Rightarrow>
          if 16384 < length key \<or> CHR 0x00 \<in> set key \<or> contains key ''PRIVATE'' then refuse
          else
            (case load (strip key) of
               Key_loaded \<Rightarrow> Inr (strip key @ [CHR 0x0A])
             | Key_invalid \<Rightarrow> refuse
             | Key_raised \<Rightarrow> Inl Server_error))"

definition healthz :: details where
  "healthz = [(''status'', VStr ''ok'')]"

definition me :: "user \<Rightarrow> details" where
  "me u = [(''id'', VInt (us_id u)), (''username'', VStr (us_username u)), (''role'', VStr (us_role u))]"

section \<open>What can be fetched\<close>

lemma strip_infix: "\<exists>a b. s = a @ strip s @ b"
proof -
  let ?d = "dropWhile is_space s"
  have "s = takeWhile is_space s @ ?d" by simp
  moreover have "?d = strip s @ rev (takeWhile is_space (rev ?d))"
    by (simp add: strip_def rev_append [symmetric] del: rev_append)
  ultimately show ?thesis by metis
qed

lemma contains_iff: "contains data marker \<longleftrightarrow> (\<exists>a b. data = a @ marker @ b)"
proof
  assume "contains data marker"
  then have "\<exists>i. startswith (drop i data) marker" unfolding contains_def list_ex_iff by blast
  then obtain i where "startswith (drop i data) marker" by (rule exE)
  then obtain b where "drop i data = marker @ b" by (auto simp: startswith_iff)
  then show "\<exists>a b. data = a @ marker @ b" by (metis append_take_drop_id)
next
  assume "\<exists>a b. data = a @ marker @ b"
  then obtain a b where d: "data = a @ marker @ b" by blast
  then have "startswith (drop (length a) data) marker" by simp
  moreover have "length a \<in> set [0..<Suc (length data)]" by (simp add: d)
  ultimately show "contains data marker" unfolding contains_def list_ex_iff by blast
qed

text \<open>The unauthenticated file routes stay where they belong: a brand asset is one of the files of the table, a plain name
  directly below the brand directory, so no path leads out of it.\<close>

theorem brand_assets_confined:
  assumes "brand_asset here p = Inr r"
  shows "fr_path r = here @ ''/static/brand/'' @ p \<and> p \<in> fst ` set BRAND_ASSET_TYPES \<and> CHR ''/'' \<notin> set p \<and> p \<notin> {[], ''.'', ''..''}"
proof -
  from assms have p: "p \<in> fst ` set BRAND_ASSET_TYPES" "fr_path r = here @ ''/static/brand/'' @ p"
    by (auto simp: brand_asset_def dest!: map_of_SomeD split: option.splits intro: rev_image_eqI)
  have "list_all (\<lambda>q. CHR ''/'' \<notin> set q \<and> q \<notin> {[], ''.'', ''..''}) (map fst BRAND_ASSET_TYPES)"
    by (simp add: BRAND_ASSET_TYPES_def)
  with p show ?thesis by (auto simp: list_all_iff)
qed

text \<open>The key route never publishes a private key: what it answers was accepted as a public key and has no part of
  the text a private key's armour carries.\<close>

theorem ssh_key_is_public:
  assumes "admin_ssh_public_key load file = Inr answer"
  shows "\<exists>key. answer = key @ [CHR 0x0A] \<and> load key = Key_loaded \<and> \<not> contains key ''PRIVATE'' \<and> length key \<le> 16384"
proof -
  from assms obtain content where c: "file = Some content" "length content \<le> 16384" "\<not> contains content ''PRIVATE''"
    "load (strip content) = Key_loaded" "answer = strip content @ [CHR 0x0A]"
    by (auto simp: admin_ssh_public_key_def Let_def split: option.splits if_splits key_load.splits)
  obtain a b where s: "content = a @ strip content @ b" using strip_infix by blast
  then have "length (strip content) \<le> length content" by (metis le_add1 le_add2 length_append order_trans)
  moreover have "\<not> contains (strip content) ''PRIVATE''"
    using c(3) s unfolding contains_iff by (metis append.assoc)
  ultimately show ?thesis using c by auto
qed

end
