(* ===== verification/Win32_Bindings.thy ===== *)
theory Win32_Bindings
  imports Windows_Acl "HOL-Library.Word"
begin

unbundle bit_operations_syntax

text \<open>
  The adapter between the Windows loader and the operating system (\<open>Win32ConfigAPI\<close> and \<open>_CtypesWin32Bindings\<close> in
  \<open>edge_tunnel/config.py\<close>): opening without following a link, the growing buffer of the final path, the security
  descriptor with its buffers, and the facts \<open>Windows_Acl\<close> judges. The functions of \<open>kernel32\<close> and \<open>advapi32\<close> are the
  record \<open>win32\<close> of functions on a state \<open>'s\<close>, with their words at 32 bits and handles and pointers at 64; the left
  side of a sum is an \<open>OSError\<close> with the text before the system's.
\<close>

type_synonym handle = "64 word"
type_synonym pointer = "64 word"

record file_information =
  fi_attributes :: "32 word"
  fi_volume_serial :: "32 word"
  fi_index_high :: "32 word"
  fi_index_low :: "32 word"

record 's win32 =
  w_create_file :: "string \<Rightarrow> 32 word \<Rightarrow> 32 word \<Rightarrow> 32 word \<Rightarrow> 32 word \<Rightarrow> 's \<Rightarrow> handle \<times> 's"
  w_file_type :: "handle \<Rightarrow> 's \<Rightarrow> 32 word \<times> 's"
  w_file_information :: "handle \<Rightarrow> 's \<Rightarrow> file_information option \<times> 's"
  w_final_path :: "handle \<Rightarrow> nat \<Rightarrow> 's \<Rightarrow> (nat \<times> string) \<times> 's"
  w_security_info :: "handle \<Rightarrow> 's \<Rightarrow> (32 word \<times> pointer \<times> pointer) \<times> 's"
  w_sid_text :: "pointer \<Rightarrow> 's \<Rightarrow> (bool \<times> pointer) \<times> 's"
  w_descriptor_text :: "pointer \<Rightarrow> 's \<Rightarrow> (bool \<times> pointer) \<times> 's"
  w_text_at :: "pointer \<Rightarrow> 's \<Rightarrow> string"
  w_local_free :: "pointer \<Rightarrow> 's \<Rightarrow> 's"
  w_close_handle :: "handle \<Rightarrow> 's \<Rightarrow> bool \<times> 's"

section \<open>The adapter\<close>

definition open_access :: "bool \<Rightarrow> 32 word" where
  "open_access directory = 0x00020000 OR (if directory then 0x00000080 else 0x80000000)"

definition open_flags :: "32 word" where
  "open_flags = 0x00200000 OR 0x02000000"

definition win32_open :: "'s win32 \<Rightarrow> string \<Rightarrow> bool \<Rightarrow> 's \<Rightarrow> (string + handle) \<times> 's" where
  "win32_open k path directory s =
     (case w_create_file k path (open_access directory) 1 3 open_flags s of
        (h, s1) \<Rightarrow> (if h = - 1 then Inl ''CreateFileW failed'' else Inr h, s1))"

text \<open>The loop of \<open>_final_path\<close>; it ends when the length fits, so it takes fuel (\<open>None\<close> when that runs out).\<close>

fun final_path :: "'s win32 \<Rightarrow> nat \<Rightarrow> handle \<Rightarrow> nat \<Rightarrow> 's \<Rightarrow> (string + string) option \<times> 's" where
  "final_path k 0 h capacity s = (None, s)"
| "final_path k (Suc fuel) h capacity s =
     (case w_final_path k h capacity s of
        ((len, buffer), s1) \<Rightarrow>
          if len = 0 then (Some (Inl ''GetFinalPathNameByHandleW failed''), s1)
          else if len < capacity then (Some (Inr buffer), s1)
          else final_path k fuel h (len + 1) s1)"

definition release_pointers :: "'s win32 \<Rightarrow> pointer list \<Rightarrow> 's \<Rightarrow> 's" where
  "release_pointers k ps s = fold (\<lambda>p s. if p \<noteq> 0 then w_local_free k p s else s) ps s"

definition security_of :: "'s win32 \<Rightarrow> handle \<Rightarrow> 's \<Rightarrow> (string + string \<times> string) \<times> 's" where
  "security_of k h s =
     (case w_security_info k h s of
        ((code, owner, descriptor), s1) \<Rightarrow>
          if code \<noteq> 0 then (Inl ''GetSecurityInfo failed'', s1)
          else
            (case w_sid_text k owner s1 of
               ((ok, owner_text), s2) \<Rightarrow>
                 if \<not> ok then (Inl ''ConvertSidToStringSidW failed'', release_pointers k [owner_text, 0, descriptor] s2)
                 else
                   (case w_descriptor_text k descriptor s2 of
                      ((ok2, sddl_text), s3) \<Rightarrow>
                        (if \<not> ok2 then Inl ''security descriptor conversion failed''
                         else Inr (w_text_at k owner_text s3, w_text_at k sddl_text s3),
                         release_pointers k [owner_text, sddl_text, descriptor] s3))))"

definition file_identity :: "file_information \<Rightarrow> int \<times> int" where
  "file_identity d = (uint (fi_volume_serial d), push_bit 32 (uint (fi_index_high d)) OR uint (fi_index_low d))"

definition win32_inspect :: "'s win32 \<Rightarrow> nat \<Rightarrow> handle \<Rightarrow> 's \<Rightarrow> (string + object_info) option \<times> 's" where
  "win32_inspect k fuel h s =
     (case w_file_type k h s of
        (kind, s1) \<Rightarrow>
          if kind \<noteq> 1 then (Some (Inl ''handle is not a disk file''), s1)
          else
            (case w_file_information k h s1 of
               (None, s2) \<Rightarrow> (Some (Inl ''GetFileInformationByHandle failed''), s2)
             | (Some d, s2) \<Rightarrow>
                 (case security_of k h s2 of
                    (Inl e, s3) \<Rightarrow> (Some (Inl e), s3)
                  | (Inr (owner_sid, sddl), s3) \<Rightarrow>
                      (case final_path k fuel h 512 s3 of
                         (None, s4) \<Rightarrow> (None, s4)
                       | (Some (Inl e), s4) \<Rightarrow> (Some (Inl e), s4)
                       | (Some (Inr path), s4) \<Rightarrow>
                           (Some (Inr \<lparr>oi_final_path = path, oi_identity = file_identity d,
                                       oi_is_directory = (fi_attributes d AND 0x10 \<noteq> 0),
                                       oi_is_reparse_point = (fi_attributes d AND 0x400 \<noteq> 0),
                                       oi_owner_sid = owner_sid, oi_sddl = sddl\<rparr>), s4)))))"

definition win32_close :: "'s win32 \<Rightarrow> handle \<Rightarrow> 's \<Rightarrow> (string + unit) \<times> 's" where
  "win32_close k h s = (case w_close_handle k h s of (ok, s1) \<Rightarrow> (if ok then Inr () else Inl ''CloseHandle failed'', s1))"

section \<open>Opening never asks for more than reading\<close>

text \<open>GENERIC_WRITE, GENERIC_ALL, DELETE, WRITE_DAC, WRITE_OWNER and the specific rights to write.\<close>

lemma open_access_reads: "open_access directory AND (0x40000000 OR 0x10000000 OR 0x000D0000 OR 0x00000116) = 0"
  by (cases directory) (simp_all add: open_access_def)

lemma open_flags_no_follow: "open_flags AND 0x00200000 \<noteq> 0"
  by (simp add: open_flags_def)

section \<open>The identity of a file\<close>

text \<open>The two words of the index are kept apart in the number, so two objects have the same identity only if they have
  the same volume and the same index: the walk to the root, which refuses an identity it has met, meets no false one.\<close>

lemma or_high_low:
  fixes h l :: "32 word"
  shows "push_bit 32 (uint h) OR uint l = uint h * 2 ^ 32 + uint l"
proof -
  have "push_bit 32 (uint h) AND uint l = 0"
    by (rule bit_eqI) (auto simp: bit_and_iff bit_push_bit_iff bit_uint_iff)
  then have "push_bit 32 (uint h) OR uint l = push_bit 32 (uint h) + uint l"
    by (simp add: plus_and_or [symmetric, of "push_bit 32 (uint h)" "uint l"])
  then show ?thesis by (simp add: push_bit_eq_mult)
qed

theorem identity_injective:
  "file_identity a = file_identity b \<longleftrightarrow>
     fi_volume_serial a = fi_volume_serial b \<and> fi_index_high a = fi_index_high b \<and> fi_index_low a = fi_index_low b"
proof -
  have "uint h * 2 ^ 32 + uint l = uint h' * 2 ^ 32 + uint l' \<Longrightarrow> h = h' \<and> l = l'" for h l h' l' :: "32 word"
  proof -
    assume e: "uint h * 2 ^ 32 + uint l = uint h' * 2 ^ 32 + uint l'"
    have b: "0 \<le> uint l" "uint l < 2 ^ 32" "0 \<le> uint l'" "uint l' < 2 ^ 32"
      using uint_lt2p [of l] uint_lt2p [of l'] by simp_all
    have "(uint h * 2 ^ 32 + uint l) div 2 ^ 32 = uint h" "(uint h' * 2 ^ 32 + uint l') div 2 ^ 32 = uint h'"
      using b by simp_all
    with e have "uint h = uint h'" by simp
    with e have "uint l = uint l'" by simp
    with \<open>uint h = uint h'\<close> show "h = h' \<and> l = l'" by (simp add: word_uint_eq_iff)
  qed
  then show ?thesis unfolding file_identity_def or_high_low by auto
qed

section \<open>The final path\<close>

text \<open>As documented, the function writes a path that fits with its terminator and returns its length, and otherwise
  returns the size the path needs with its terminator. Then at most two calls are made.\<close>

definition answers_path :: "'s win32 \<Rightarrow> handle \<Rightarrow> string \<Rightarrow> bool" where
  "answers_path k h p \<longleftrightarrow>
     p \<noteq> [] \<and>
     (\<forall>capacity s. fst (w_final_path k h capacity s) = (if length p < capacity then (length p, p) else (length p + 1, [])))"

theorem final_path_two_calls:
  assumes "answers_path k h p" and "2 \<le> fuel"
  shows "fst (final_path k fuel h 512 s) = Some (Inr p)"
proof -
  from assms(2) obtain n where n: "fuel = Suc (Suc n)" by (metis add_2_eq_Suc le_Suc_ex)
  obtain r1 s1 where 1: "w_final_path k h 512 s = (r1, s1)" by (rule prod.exhaust)
  obtain r2 s2 where 2: "w_final_path k h (length p + 2) s1 = (r2, s2)" by (rule prod.exhaust)
  have p: "p \<noteq> []" and a: "fst (w_final_path k h c t) = (if length p < c then (length p, p) else (length p + 1, []))" for c t
    using assms(1) unfolding answers_path_def by blast+
  have r2: "r2 = (length p, p)" using a [of "length p + 2" s1] 2 by simp
  have r1: "r1 = (if length p < 512 then (length p, p) else (length p + 1, []))" using a [of 512 s] 1 by simp
  show ?thesis
  proof (cases "length p < 512")
    case True
    with r1 1 p show ?thesis by (simp add: n)
  next
    case False
    then have "w_final_path k h 512 s = ((length p + 1, []), s1)" using r1 1 by simp
    then have "final_path k fuel h 512 s = final_path k (Suc n) h (length p + 2) s1" using False by (simp add: n)
    also have "fst \<dots> = Some (Inr p)" using 2 r2 p by simp
    finally show ?thesis .
  qed
qed

section \<open>No buffer is lost\<close>

text \<open>\<open>live s\<close> are the buffers that are allocated and not freed. The three calls allocate what they return when they
  succeed, never a buffer that is live, and nothing when they fail.\<close>

definition allocates :: "'s win32 \<Rightarrow> ('s \<Rightarrow> pointer set) \<Rightarrow> bool" where
  "allocates k live \<longleftrightarrow>
     (\<forall>h s code owner p s'. w_security_info k h s = ((code, owner, p), s') \<longrightarrow>
        (if code = 0 then p \<notin> live s \<and> live s' = live s \<union> ({p} - {0}) else live s' = live s)) \<and>
     (\<forall>q s ok p s'. w_sid_text k q s = ((ok, p), s') \<longrightarrow>
        (if ok then p \<notin> live s \<and> live s' = live s \<union> ({p} - {0}) else p = 0 \<and> live s' = live s)) \<and>
     (\<forall>q s ok p s'. w_descriptor_text k q s = ((ok, p), s') \<longrightarrow>
        (if ok then p \<notin> live s \<and> live s' = live s \<union> ({p} - {0}) else p = 0 \<and> live s' = live s)) \<and>
     (\<forall>p s. live (w_local_free k p s) = live s - {p})"

lemma live_release:
  assumes "allocates k live"
  shows "live (release_pointers k ps s) = live s - (set ps - {0})"
proof (induction ps arbitrary: s)
  case (Cons p ps)
  have "live (w_local_free k p t) = live t - {p}" for t using assms unfolding allocates_def by blast
  with Cons show ?case by (auto simp: release_pointers_def)
qed (simp add: release_pointers_def)

text \<open>Reading the owner and the descriptor of a handle frees every buffer the system allocated for it, on every path: the
  buffers live afterwards are those that were live before, whether the reading succeeds or any of its calls fails.\<close>

theorem security_frees_all:
  assumes "allocates k live" and "security_of k h s = (r, s')"
  shows "live s' = live s"
proof -
  obtain code owner p s1 where 1: "w_security_info k h s = ((code, owner, p), s1)" by (metis prod_cases3 prod.exhaust)
  obtain ok q s2 where 2: "w_sid_text k owner s1 = ((ok, q), s2)" by (metis prod.exhaust)
  obtain ok2 t s3 where 3: "w_descriptor_text k p s2 = ((ok2, t), s3)" by (metis prod.exhaust)
  note laws = assms(1) [unfolded allocates_def]
  have l1: "if code = 0 then p \<notin> live s \<and> live s1 = live s \<union> ({p} - {0}) else live s1 = live s"
    by (rule laws [THEN conjunct1, rule_format, OF 1])
  have l2: "if ok then q \<notin> live s1 \<and> live s2 = live s1 \<union> ({q} - {0}) else q = 0 \<and> live s2 = live s1"
    by (rule laws [THEN conjunct2, THEN conjunct1, rule_format, OF 2])
  have l3: "if ok2 then t \<notin> live s2 \<and> live s3 = live s2 \<union> ({t} - {0}) else t = 0 \<and> live s3 = live s2"
    by (rule laws [THEN conjunct2, THEN conjunct2, THEN conjunct1, rule_format, OF 3])
  note rel = live_release [OF assms(1)]
  show ?thesis
  proof (cases "code = 0 \<and> ok")
    case True
    then have "s' = release_pointers k [q, t, p] s3" using assms(2) 1 2 3 by (simp add: security_of_def)
    then have "live s' = live s3 - ({q, t, p} - {0})" using rel by simp
    moreover have "live s3 = live s2 \<union> ({t} - {0})" "ok2 \<Longrightarrow> t \<notin> live s2" using l3 by (auto split: if_splits)
    ultimately show ?thesis using True l1 l2 l3 by (cases ok2) auto
  next
    case False
    then show ?thesis using assms(2) 1 2 l1 l2 rel by (auto simp: security_of_def split: if_splits)
  qed
qed

end
