(* ===== verification/Spec2Isabelle.thy ===== *)
theory Spec2Isabelle
  imports Edge_Runtime Windows_Acl Login_Throttle Users Stores Node_Lifecycle Local_Sync Gateway Bootstrap
    Browser_Runner Podman_Runner Db_Migration Audit_Log Host_Registration Packaging Browser_Control Relays
    Edge_Resources Assets Win32_Bindings
begin

text \<open>
  IdenGrid is a browser service for teams. A control plane (\<open>cloudbrowser/\<close>) knows the members, the stores they may
  open, the edge nodes through which a store is reached and the cloud browsers of the members. An edge node
  (\<open>edge-tunnel/\<close>) runs a tunnel server that connects a member's browser to public web servers, for tickets the control
  plane signs with the secret the two share. Nodes are deployed by enrollment tokens or by registering themselves; the
  Windows package brings a program for that (\<open>windows-edge/bootstrap/\<close>). This development models that program text in
  HOL and proves what makes it correct. Paths below are relative to the root of the repository.

  \<^bold>\<open>How the parts interact.\<close> A member signs in (\<open>Auth\<close>, \<open>Login_Throttle\<close>) through the middleware (\<open>Gateway\<close>), connects to
  a store, which takes a lease, and asks for target tickets under it (\<open>Leases\<close>). The ticket (\<open>Tickets\<close>) is presented to
  the edge, which verifies it, remembers it, resolves the target by its policy (\<open>Targets\<close>, \<open>Net_Address\<close>) and relays
  (\<open>Edge_Runtime\<close>). The health monitor (\<open>Edge_Health\<close>) probes the nodes and moves them, their enrollments and their
  registrations between their states; \<open>Node_Lifecycle\<close> joins it with the handlers of \<open>Registration\<close> and \<open>Edge_Nodes\<close>.
  Administrators manage members (\<open>Users\<close>), nodes (\<open>Edge_Nodes\<close>) and stores (\<open>Stores\<close>). Cloud browsers run in containers
  (\<open>Browser_Sessions\<close>, \<open>Podman_Runner\<close>, \<open>Browser_Control\<close>) whose picture is relayed to the member (\<open>Relays\<close>). Releases of
  the edge are built and signed (\<open>Packaging\<close>), verified and streamed (\<open>Releases\<close>), installed and registered
  (\<open>Windows_Bootstrap\<close>, \<open>Host_Registration\<close>). The schema and the data survive upgrades (\<open>Schema\<close>, \<open>Db_Migration\<close>).

  \<^bold>\<open>Conventions.\<close> Text and bytes are \<open>string\<close>s, lists of characters below 256, a text code point by code point; messages the
  source has in Chinese are given in English. An instant is an \<open>int\<close> of microseconds, a duration too; each reading of a
  clock is an argument or an event of its own. An exception is the left side of a sum, \<open>None\<close> where the code does not
  tell exceptions apart, and the result of a handler is an error or a response together with the database it has
  committed: a handler that raises before its commit returns the database it was given. A table is the list of its rows
  in insertion order. Where a handler reads, and later writes under a condition or after other work, the database it
  writes in is an argument (\<open>other\<close>, \<open>w\<close>), so that the properties hold against concurrent requests. Code that is not in
  the repository is an argument: SHA-256, HMAC, Ed25519 and the \<open>cryptography\<close> operations (\<open>hash\<close>, \<open>mac\<close>, \<open>key_ops\<close>,
  \<open>ed25519\<close>), argon2, the signed serializers (\<open>dumps\<close>, \<open>loads\<close>), name resolution, the file system, processes, the HTTP
  clients, Chromium, the Windows functions, the archive formats, and the reading and printing of floats.

  \<^bold>\<open>Shared layers.\<close>
  \<^item> \<open>Prelude\<close>: Python strings, numbers, dictionaries and tables, with the collections \<open>str_simps\<close> and \<open>table_simps\<close>.
  \<^item> \<open>Base64\<close>, \<open>Json\<close>, \<open>Json_Text\<close>, \<open>Iso_Time\<close>: \<open>base64\<close>, \<open>json\<close> on flat and on nested values, and \<open>isoformat\<close>,
    with their round trips.
  \<^item> \<open>Net_Address\<close>, \<open>Urls\<close>: \<open>ipaddress\<close> and \<open>urlsplit\<close> as far as they are used, \<open>cloudbrowser/security.py\<close> for URLs.
  \<^item> \<open>Control_Model\<close>: the tables of \<open>cloudbrowser/models.py\<close> as records, \<open>db\<close> as the record of the tables, \<open>audit\<close>, and
    the consistency predicate \<open>db_ok\<close>; the locale \<open>db_table\<close> has the laws of lookups and updates, interpreted on each table.

  \<^bold>\<open>The edge\<close> (\<open>edge-tunnel/edge_tunnel/\<close>).
  \<^item> \<open>Tickets\<close>: \<open>TicketVerifier\<close> of \<open>tickets.py\<close>, and \<open>EdgeTicketIssuer\<close> of \<open>cloudbrowser/edge_tickets.py\<close>; the locale
    \<open>json_codec\<close> is the law of a JSON library, interpreted on \<open>json_dumps\<close> and \<open>json_loads_flat\<close>.
  \<^item> \<open>Targets\<close>: both copies of \<open>PublicTargetPolicy\<close> (\<open>targets.py\<close>, \<open>cloudbrowser/local_tunnel.py\<close>); the locale
    \<open>answer_vetting\<close> is the loop they share.
  \<^item> \<open>Edge_Config\<close>, \<open>Windows_Acl\<close>, \<open>Win32_Bindings\<close>: \<open>config.py\<close>: settings, the Windows loader with its access policies, and
    the adapter to the system functions, with words at their widths.
  \<^item> \<open>Edge_Resources\<close>: \<open>resources.py\<close>.
  \<^item> \<open>Edge_Runtime\<close>: \<open>app.py\<close> and \<open>__main__.py\<close>. \<open>tunnel\<close> is cut at its awaits; \<open>server_step\<close> interleaves the requests
    in flight and \<open>reachable\<close> are the states of the server.

  \<^bold>\<open>The control plane\<close> (\<open>cloudbrowser/app.py\<close> where no file is named).
  \<^item> \<open>Auth\<close>, \<open>Login_Throttle\<close>, \<open>Users\<close>, \<open>Gateway\<close>, \<open>Audit_Log\<close>, \<open>Assets\<close>: identity and device sessions, \<open>native_login\<close>,
    the members, the middleware \<open>disable_cloud_video\<close> with its rate limits (locale \<open>sliding_window\<close>), the audit log and its
    export, and the routes of fixed files.
  \<^item> \<open>Edge_Nodes\<close>, \<open>Stores\<close>, \<open>Leases\<close>, \<open>Local_Sync\<close>: nodes and capabilities, stores, connections and tickets, and the
    synchronisation of history and tabs. \<open>lease_step\<close> and \<open>administered\<close> are their step relations.
  \<^item> \<open>Releases\<close>, \<open>Enrollment\<close>, \<open>Registration\<close>, \<open>Node_Lifecycle\<close>: the packages, and the two ways a node is deployed; \<open>reg_move\<close>
    is the abstract protocol of a registration, \<open>reach\<close> what a database can become.
  \<^item> \<open>Edge_Health\<close>: \<open>edge_health.py\<close>.
  \<^item> \<open>Bootstrap\<close>, \<open>Schema\<close>: what \<open>create_app\<close> writes at its start, and the migrations of \<open>schema.py\<close> and \<open>edge_health.py\<close>
    on a catalogue of tables, columns, indexes and checks.
  \<^item> \<open>Browser_Sessions\<close>, \<open>Relays\<close>: the sessions, their tickets (\<open>security.py\<close>) and the address bar; the forwarding of the
    viewer's traffic and the tunnel of local browsers, as folds over the events of the sockets.
  \<^item> \<open>Browser_Runner\<close>, \<open>Podman_Runner\<close>, \<open>Browser_Control\<close>: \<open>runner.py\<close> and \<open>browser_control.py\<close>; the locale \<open>command_frame\<close>
    has what running commands keeps, \<open>cdp_channel\<close> what every operation on the tabs keeps.

  \<^bold>\<open>Tools.\<close> \<open>Db_Migration\<close> is \<open>scripts/migrate_sqlite_to_mysql.py\<close>; \<open>Packaging\<close> is
  \<open>windows-edge/tools/sign_release_manifest.py\<close>, \<open>scripts/build_windows_edge_package.py\<close> and
  \<open>scripts/build_edge_package.py\<close>; \<open>Windows_Bootstrap\<close> is \<open>windows-edge/bootstrap/register.py\<close>, and \<open>Host_Registration\<close> runs
  it against the handlers of \<open>Registration\<close>, with the constraints of the request bodies between them.

  \<^bold>\<open>What is shown.\<close> The properties are the theorems whose text starts with C and a number.
  \<^item> Tunnels (this theory, \<open>Tickets\<close>, \<open>Edge_Runtime\<close>, \<open>Relays\<close>): a ticket is what the control plane signed, opens one
    tunnel, to a public address, within the limits of connections and bytes.
  \<^item> Identity (\<open>Auth\<close>, \<open>Login_Throttle\<close>, \<open>Users\<close>, \<open>Browser_Sessions\<close>): refresh tokens are used once, throttles refuse,
    and a lockout ends every token and session.
  \<^item> Stores (\<open>Leases\<close>, \<open>Stores\<close>): one active lease per device, access by grant, tickets within the lease, references that hold.
  \<^item> Nodes (\<open>Enrollment\<close>, \<open>Registration\<close>, \<open>Node_Lifecycle\<close>, \<open>Edge_Health\<close>, \<open>Host_Registration\<close>): single use against
    concurrent requests, refinement of the abstract protocol with its invariant, and what it takes to be online.
  \<^item> Releases (\<open>Releases\<close>, \<open>Packaging\<close>): what is served was signed, what is signed is served, and what is packaged was intended.
  \<^item> Data (\<open>Schema\<close>, \<open>Db_Migration\<close>, \<open>Local_Sync\<close>, \<open>Audit_Log\<close>): starts converge from every older schema, a reported
    migration copied every row, synchronising joins, and an export reads back.
  \<^item> Browsers (\<open>Podman_Runner\<close>, \<open>Browser_Control\<close>, \<open>Relays\<close>): profiles are exclusive, containers protected, the control channel
    and the viewer's proxy closed, and every wait ends.
  Some theorems state what goes wrong, as the code is: a reset connection leaks a slot, an approved registration that
  lapses stays for good, a legacy lease table keeps MySQL from starting, a viewer's relay outlives its client.

  \<^bold>\<open>Bounds and fuel.\<close> Loops over data are recursive on it. \<open>Json_Text\<close> parses with twice the length of the text as fuel,
  and \<open>parse_fuel\<close> shows that more changes nothing. The waits of \<open>Podman_Runner\<close> take one unit of fuel for each quarter of a
  second before their deadline, those of \<open>Browser_Control\<close> as many as ticks fit into eight seconds; \<open>podman_start_ends\<close> and
  \<open>operations_end\<close> show that this is enough under a clock that moves. The loop for a final path takes two rounds
  (\<open>final_path_two_calls\<close>). The polls of \<open>Windows_Bootstrap\<close> are bounded by the program itself. The relays and the server run
  for as long as their events do.

  \<^bold>\<open>Not modelled.\<close>
  \<^item> \<open>cloudbrowser/database.py\<close> and \<open>cloudbrowser/main.py\<close>: they only configure the database library and the HTTP server.
  \<^item> The prototypes of the Windows functions in \<open>config.py\<close> and the structure declarations of \<open>register.py\<close>: their meaning is
    the foreign function library's.
  \<^item> The declarations of request bodies whose constraints no handler relies on; those of the registration are in
    \<open>Host_Registration\<close>.
  \<^item> The end-to-end, diagnostic and integration scripts under \<open>scripts/\<close> and \<open>monitor_edge_health.py\<close>, which call a running
    installation and print.
  \<^item> The pages under \<open>cloudbrowser/static\<close> and \<open>templates\<close>, and the PowerShell, shell and Caddy files, which are in other
    languages.
  \<^item> Characters above 255, leap seconds, and the memory and scheduling of the machine.
\<close>

section \<open>Properties that span components\<close>



end
